(* ===== verification/Wio_Prelude.thy ===== *)
theory Wio_Prelude
  imports Main
begin

text \<open>
  Shared vocabulary of the development: the result type of fallible Go functions with its
  sequencing operator, the 64-bit integers of Go with their wrap-around, durations in
  nanoseconds, and generic facts on lists and maps that several components use.
\<close>

section \<open>Results of fallible functions\<close>

text \<open>
  A Go function that returns \<open>(value, error)\<close> returns here a value of a sum type: \<open>Inl\<close> the
  error, \<open>Inr\<close> the value. \<open>try_then\<close> is the early return on an error.
\<close>

fun try_then :: "'e + 'a \<Rightarrow> ('a \<Rightarrow> 'e + 'b) \<Rightarrow> 'e + 'b" where
  "try_then (Inl e) f = Inl e"
| "try_then (Inr a) f = f a"

lemma try_then_Inr_iff: "try_then r f = Inr b \<longleftrightarrow> (\<exists>a. r = Inr a \<and> f a = Inr b)"
  by (cases r) auto

lemma try_then_Inl_iff:
  "try_then r f = Inl e \<longleftrightarrow> r = Inl e \<or> (\<exists>a. r = Inr a \<and> f a = Inl e)"
  by (cases r) auto

lemma try_then_cong [fundef_cong]:
  assumes "r = r'" and "\<And>a. r' = Inr a \<Longrightarrow> f a = g a"
  shows "try_then r f = try_then r' g"
  using assms by (cases r') auto

text \<open>\<open>require b e\<close>: go on when \<open>b\<close> holds, else return the error \<open>e\<close>.\<close>

definition require :: "bool \<Rightarrow> 'e \<Rightarrow> 'e + unit" where
  "require b e = (if b then Inr () else Inl e)"

lemma require_Inr [simp]: "require b e = Inr u \<longleftrightarrow> b"
  by (simp add: require_def)

lemma require_Inl: "require b e = Inl e' \<longleftrightarrow> \<not> b \<and> e' = e"
  by (auto simp: require_def)

section \<open>Integers of Go\<close>

text \<open>
  \<open>int\<close> and \<open>int64\<close> are 64-bit two's complement on the platforms Wio supports. A value is an
  \<open>int\<close> of HOL in \<open>int64_range\<close>; an addition of the code that can leave the range is wrapped by
  \<open>wrap64\<close>.
\<close>

definition int64_min :: int where
  "int64_min = - 9223372036854775808"

definition int64_max :: int where
  "int64_max = 9223372036854775807"

definition int64_range :: "int \<Rightarrow> bool" where
  "int64_range x \<longleftrightarrow> int64_min \<le> x \<and> x \<le> int64_max"

definition wrap64 :: "int \<Rightarrow> int" where
  "wrap64 x = (x + 9223372036854775808) mod 18446744073709551616 - 9223372036854775808"

lemma wrap64_range: "int64_range (wrap64 x)"
proof -
  have "(x + 9223372036854775808) mod 18446744073709551616 < 18446744073709551616" by simp
  then show ?thesis
    by (simp add: int64_range_def wrap64_def int64_min_def int64_max_def)
qed

lemma wrap64_id: "int64_range x \<Longrightarrow> wrap64 x = x"
  by (simp add: int64_range_def wrap64_def int64_min_def int64_max_def)

lemma wrap64_over:
  assumes "int64_max < x" and "x \<le> int64_max + 18446744073709551616"
  shows "wrap64 x = x - 18446744073709551616"
proof -
  have "(x + 9223372036854775808) mod 18446744073709551616
      = (x + 9223372036854775808 - 18446744073709551616) mod 18446744073709551616"
    by (metis minus_mod_self2)
  also have "\<dots> = x + 9223372036854775808 - 18446744073709551616"
    using assms by (simp add: int64_max_def)
  finally show ?thesis by (simp add: wrap64_def)
qed

section \<open>Durations\<close>

text \<open>A \<open>time.Duration\<close> and an instant are counts of nanoseconds; instants count from the Unix epoch.\<close>

type_synonym duration = int
type_synonym instant = int

definition ns_second :: duration where "ns_second = 1000000000"
definition ns_minute :: duration where "ns_minute = 60 * ns_second"
definition ns_hour :: duration where "ns_hour = 60 * ns_minute"

lemmas ns_units = ns_second_def ns_minute_def ns_hour_def

section \<open>Lists\<close>

lemma distinct_map_filter: "distinct (map f xs) \<Longrightarrow> distinct (map f (filter P xs))"
  by (induction xs) auto

lemma find_Some_mem: "find P xs = Some x \<Longrightarrow> x \<in> set xs \<and> P x"
  by (induction xs) (auto split: if_splits)

lemma map_if_key:
  assumes "\<And>x. key (f x) = key x"
  shows "map key (map (\<lambda>x. if P x then f x else x) xs) = map key xs"
  using assms by (induction xs) auto

section \<open>Transition systems\<close>

text \<open>
  The components that run concurrently are step relations. \<open>invariant_system\<close> is the contract of
  an invariant: it holds at the start and every step keeps it; then it holds in every state that
  a run reaches.
\<close>

locale invariant_system =
  fixes init :: "'s \<Rightarrow> bool" and step :: "'s \<Rightarrow> 's \<Rightarrow> bool" and inv :: "'s \<Rightarrow> bool"
  assumes inv_init: "init s \<Longrightarrow> inv s"
    and inv_step: "inv s \<Longrightarrow> step s t \<Longrightarrow> inv t"
begin

lemma inv_run: "rtranclp step s t \<Longrightarrow> inv s \<Longrightarrow> inv t"
  by (induction rule: rtranclp_induct) (auto intro: inv_step)

lemma inv_reachable: "rtranclp step s t \<Longrightarrow> init s \<Longrightarrow> inv t"
  using inv_run inv_init by blast

end

section \<open>Lists and indices\<close>

lemma map_update_key:
  assumes "i < length xs" and "f y = f (xs ! i)"
  shows "map f (xs[i := y]) = map f xs"
  using assms by (metis list_update_id map_update)

end
