(* ===== verification/Go_Strings.thy ===== *)
theory Go_Strings
  imports Wio_Prelude
begin

text \<open>
  The functions of Go's packages \<open>strings\<close> and \<open>strconv\<close> that the modelled code calls. A Go
  string is a sequence of bytes, so it is a \<open>string\<close> of HOL (a list of 8-bit characters).
\<close>

section \<open>Prefixes, search and splitting\<close>

definition has_prefix :: "string \<Rightarrow> string \<Rightarrow> bool" where
  "has_prefix s p \<longleftrightarrow> take (length p) s = p"

definition trim_prefix :: "string \<Rightarrow> string \<Rightarrow> string" where
  "trim_prefix s p = (if has_prefix s p then drop (length p) s else s)"

lemma has_prefix_append [simp]: "has_prefix (p @ s) p"
  by (simp add: has_prefix_def)

lemma has_prefix_iff: "has_prefix s p \<longleftrightarrow> (\<exists>t. s = p @ t)"
  by (metis append_eq_conv_conj append_take_drop_id has_prefix_def)

lemma has_prefix_Nil [simp]: "has_prefix s []"
  by (simp add: has_prefix_def)

lemma trim_prefix_append [simp]: "trim_prefix (p @ s) p = s"
  by (simp add: trim_prefix_def)

fun contains_str :: "string \<Rightarrow> string \<Rightarrow> bool" where
  "contains_str [] sub = (sub = [])"
| "contains_str (c # cs) sub = (has_prefix (c # cs) sub \<or> contains_str cs sub)"

lemma contains_str_iff: "contains_str s sub \<longleftrightarrow> (\<exists>a b. s = a @ sub @ b)"
proof (induction s)
  case (Cons c cs)
  show ?case
  proof
    assume "contains_str (c # cs) sub"
    then consider "has_prefix (c # cs) sub" | "contains_str cs sub" by auto
    then show "\<exists>a b. c # cs = a @ sub @ b"
    proof cases
      case 1
      then show ?thesis by (metis append_Nil has_prefix_iff)
    next
      case 2
      with Cons.IH obtain a b where "cs = a @ sub @ b" by blast
      then have "c # cs = (c # a) @ sub @ b" by simp
      then show ?thesis by blast
    qed
  next
    assume "\<exists>a b. c # cs = a @ sub @ b"
    then obtain a b where ab: "c # cs = a @ sub @ b" by blast
    show "contains_str (c # cs) sub"
    proof (cases a)
      case Nil
      with ab have "has_prefix (c # cs) sub" by simp
      then show ?thesis by simp
    next
      case (Cons x a')
      with ab have "cs = a' @ sub @ b" by simp
      with Cons.IH show ?thesis by auto
    qed
  qed
qed auto

text \<open>\<open>strings.Split\<close> and \<open>strings.SplitN(s, sep, 2)\<close> for a separator of one byte.\<close>

fun split_on :: "char \<Rightarrow> string \<Rightarrow> string list" where
  "split_on sep [] = [[]]"
| "split_on sep (c # cs) =
     (if c = sep then [] # split_on sep cs
      else case split_on sep cs of [] \<Rightarrow> [[c]] | p # ps \<Rightarrow> (c # p) # ps)"

lemma split_on_nonempty [simp]: "split_on sep s \<noteq> []"
  by (induction s) (auto split: list.splits)

lemma split_on_no_sep: "p \<in> set (split_on sep s) \<Longrightarrow> sep \<notin> set p"
  by (induction s arbitrary: p) (auto split: list.splits if_splits)

lemma split_on_absent: "sep \<notin> set s \<Longrightarrow> split_on sep s = [s]"
  by (induction s) auto

lemma split_on_append:
  "sep \<notin> set s \<Longrightarrow> split_on sep (s @ sep # t) = s # split_on sep t"
  by (induction s) auto

definition split_first :: "char \<Rightarrow> string \<Rightarrow> string \<times> string option" where
  "split_first sep s =
     (case dropWhile (\<lambda>c. c \<noteq> sep) s of
        [] \<Rightarrow> (s, None)
      | _ # rest \<Rightarrow> (takeWhile (\<lambda>c. c \<noteq> sep) s, Some rest))"

definition count_char :: "char \<Rightarrow> string \<Rightarrow> nat" where
  "count_char c s = count_list s c"

text \<open>\<open>value[:strings.IndexAny(value, marks)]\<close> when the index is found, else \<open>value\<close>.\<close>

definition before_any :: "string \<Rightarrow> string \<Rightarrow> string" where
  "before_any marks s = takeWhile (\<lambda>c. c \<notin> set marks) s"

section \<open>White space\<close>

text \<open>
  \<open>strings.TrimSpace\<close> and \<open>strings.Fields\<close> cut at \<open>unicode.IsSpace\<close>. The spaces are listed by
  their UTF-8 encodings. No encoding starts with a continuation byte, so matching byte
  sequences finds exactly the runes that decoding would find, for ill-formed strings too.
\<close>

definition ascii_spaces :: "string list" where
  "ascii_spaces = [[CHR 0x09], [CHR 0x0A], [CHR 0x0B], [CHR 0x0C], [CHR 0x0D], [CHR 0x20]]"

definition unicode_spaces :: "string list" where
  "unicode_spaces =
    [[CHR 0xC2, CHR 0x85], [CHR 0xC2, CHR 0xA0], [CHR 0xE1, CHR 0x9A, CHR 0x80],
     [CHR 0xE2, CHR 0x80, CHR 0x80], [CHR 0xE2, CHR 0x80, CHR 0x81],
     [CHR 0xE2, CHR 0x80, CHR 0x82], [CHR 0xE2, CHR 0x80, CHR 0x83],
     [CHR 0xE2, CHR 0x80, CHR 0x84], [CHR 0xE2, CHR 0x80, CHR 0x85],
     [CHR 0xE2, CHR 0x80, CHR 0x86], [CHR 0xE2, CHR 0x80, CHR 0x87],
     [CHR 0xE2, CHR 0x80, CHR 0x88], [CHR 0xE2, CHR 0x80, CHR 0x89],
     [CHR 0xE2, CHR 0x80, CHR 0x8A], [CHR 0xE2, CHR 0x80, CHR 0xA8],
     [CHR 0xE2, CHR 0x80, CHR 0xA9], [CHR 0xE2, CHR 0x80, CHR 0xAF],
     [CHR 0xE2, CHR 0x81, CHR 0x9F], [CHR 0xE3, CHR 0x80, CHR 0x80]]"

text \<open>The length of the white-space rune that a string starts with, 0 when it starts with none.\<close>

definition space_len :: "string list \<Rightarrow> string \<Rightarrow> nat" where
  "space_len spaces s = (case find (has_prefix s) spaces of None \<Rightarrow> 0 | Some p \<Rightarrow> length p)"

function skip_runes :: "string list \<Rightarrow> string \<Rightarrow> string" where
  "skip_runes spaces s =
     (if s = [] \<or> space_len spaces s = 0 then s else skip_runes spaces (drop (space_len spaces s) s))"
  by pat_completeness auto
termination
  by (relation "measure (\<lambda>(_, s). length s)") auto

declare skip_runes.simps [simp del]

definition all_spaces :: "string list" where
  "all_spaces = ascii_spaces @ unicode_spaces"

definition trim_left_space :: "string \<Rightarrow> string" where
  "trim_left_space s = skip_runes all_spaces s"

definition trim_right_space :: "string \<Rightarrow> string" where
  "trim_right_space s = rev (skip_runes (map rev all_spaces) (rev s))"

definition trim_space :: "string \<Rightarrow> string" where
  "trim_space s = trim_right_space (trim_left_space s)"

text \<open>
  \<open>strings.Fields\<close>: the current field (reversed) and the rest of the input. Between two spaces
  the input advances byte by byte, which finds the same spaces as rune by rune.
\<close>

function fields_from :: "string \<Rightarrow> string \<Rightarrow> string list" where
  "fields_from cur s =
     (if s = [] then (if cur = [] then [] else [rev cur])
      else if space_len all_spaces s = 0 then fields_from (hd s # cur) (tl s)
      else (if cur = [] then [] else [rev cur]) @ fields_from [] (drop (space_len all_spaces s) s))"
  by pat_completeness auto
termination
  by (relation "measure (\<lambda>(_, s). length s)") (auto simp: length_greater_0_conv [symmetric] simp del: length_greater_0_conv)

declare fields_from.simps [simp del]

definition str_fields :: "string \<Rightarrow> string list" where
  "str_fields s = fields_from [] s"

section \<open>Case\<close>

text \<open>
  \<open>strings.ToLower\<close> as far as the modelled code can observe it: its results are only compared
  with, or searched for, ASCII text. Besides the ASCII capitals, exactly two runes have an ASCII
  lower case: U+212A (Kelvin sign) and U+0130 (I with dot above). Other runes are left alone.
\<close>

definition lower_char :: "char \<Rightarrow> char" where
  "lower_char c = (if 65 \<le> (of_char c :: nat) \<and> (of_char c :: nat) \<le> 90 then char_of ((of_char c :: nat) + 32) else c)"

fun to_lower :: "string \<Rightarrow> string" where
  "to_lower [] = []"
| "to_lower (c # cs) =
     (if has_prefix (c # cs) [CHR 0xE2, CHR 0x84, CHR 0xAA] then CHR ''k'' # to_lower (drop 2 cs)
      else if has_prefix (c # cs) [CHR 0xC4, CHR 0xB0] then CHR ''i'' # to_lower (drop 1 cs)
      else lower_char c # to_lower cs)"

section \<open>Decimal integers\<close>

definition digit_val :: "char \<Rightarrow> int option" where
  "digit_val c = (let n = (of_char c :: int) in if 48 \<le> n \<and> n \<le> 57 then Some (n - 48) else None)"

fun digits_val :: "int \<Rightarrow> string \<Rightarrow> int option" where
  "digits_val acc [] = Some acc"
| "digits_val acc (c # cs) =
     (case digit_val c of None \<Rightarrow> None | Some d \<Rightarrow> digits_val (10 * acc + d) cs)"

text \<open>
  \<open>strconv.Atoi\<close>: an optional sign, at least one decimal digit and nothing else, and a value that
  fits 64 bits. The code never looks at which error it returns, so an error is \<open>None\<close>.
\<close>

definition atoi :: "string \<Rightarrow> int option" where
  "atoi s =
     (let (neg, ds) = (case s of [] \<Rightarrow> (False, [])
                        | c # cs \<Rightarrow> if c = CHR ''-'' then (True, cs)
                                    else if c = CHR ''+'' then (False, cs) else (False, s))
      in if ds = [] then None
         else case digits_val 0 ds of
                None \<Rightarrow> None
              | Some n \<Rightarrow> (let v = (if neg then - n else n)
                           in if int64_range v then Some v else None))"

lemma atoi_range: "atoi s = Some v \<Longrightarrow> int64_range v"
  by (auto simp: atoi_def Let_def split: option.splits if_splits prod.splits)

lemma atoi_Nil [simp]: "atoi [] = None"
  by (simp add: atoi_def)

text \<open>\<open>strconv.FormatInt\<close> in base ten.\<close>

fun decimal_digits :: "nat \<Rightarrow> string" where
  "decimal_digits n = (if n < 10 then [] else decimal_digits (n div 10)) @ [char_of (48 + n mod 10)]"

declare decimal_digits.simps [simp del]

definition decimal :: "int \<Rightarrow> string" where
  "decimal n = (if n < 0 then ''-'' else []) @ decimal_digits (nat \<bar>n\<bar>)"

lemma decimal_digits_set: "set (decimal_digits n) \<subseteq> set ''0123456789''"
proof (induction n rule: decimal_digits.induct)
  case (1 n)
  have "list_all (\<lambda>m. char_of (48 + m) \<in> set ''0123456789'') [0..<10]" by code_simp
  then have "char_of (48 + n mod 10) \<in> set ''0123456789''" by (simp only: list_all_iff) simp
  then show ?case using 1 by (subst decimal_digits.simps) simp
qed

section \<open>Runes\<close>

text \<open>
  \<open>[]rune(s)\<close>: the runes by their UTF-8 encodings. A byte that starts no valid encoding is the rune
  U+FFFD.
\<close>

definition byte_in :: "nat \<Rightarrow> nat \<Rightarrow> char \<Rightarrow> bool" where
  "byte_in lo hi c \<longleftrightarrow> lo \<le> of_char c \<and> of_char c \<le> (hi :: nat)"

definition continuation :: "char \<Rightarrow> bool" where
  "continuation = byte_in 128 191"

definition second_byte :: "char \<Rightarrow> char \<Rightarrow> bool" where
  "second_byte a b =
     (if a = CHR 0xE0 then byte_in 160 191 b else if a = CHR 0xED then byte_in 128 159 b
      else if a = CHR 0xF0 then byte_in 144 191 b else if a = CHR 0xF4 then byte_in 128 143 b
      else continuation b)"

definition rune_width :: "string \<Rightarrow> nat" where
  "rune_width s =
     (case s of
        [] \<Rightarrow> 0
      | a # t \<Rightarrow>
          if byte_in 0 127 a then 1
          else if byte_in 194 223 a then (case t of b # _ \<Rightarrow> if continuation b then 2 else 0 | _ \<Rightarrow> 0)
          else if byte_in 224 239 a
          then (case t of b # c # _ \<Rightarrow> if second_byte a b \<and> continuation c then 3 else 0 | _ \<Rightarrow> 0)
          else if byte_in 240 244 a
          then (case t of b # c # e # _ \<Rightarrow> if second_byte a b \<and> continuation c \<and> continuation e then 4 else 0 | _ \<Rightarrow> 0)
          else 0)"

function str_runes :: "string \<Rightarrow> string list" where
  "str_runes s =
     (if s = [] then []
      else if rune_width s = 0 then [CHR 0xEF, CHR 0xBF, CHR 0xBD] # str_runes (drop 1 s)
      else take (rune_width s) s # str_runes (drop (rune_width s) s))"
  by pat_completeness auto
termination by (relation "measure length") auto

declare str_runes.simps [simp del]

lemma rune_width_le: "rune_width s \<le> length s"
  by (auto simp: rune_width_def split: list.split)

definition first_runes :: "nat \<Rightarrow> string \<Rightarrow> string" where
  "first_runes n s = concat (take n (str_runes s))"

lemma length_concat_take: "(\<And>r. r \<in> set rs \<Longrightarrow> length r \<le> k) \<Longrightarrow> length (concat (take n rs)) \<le> n * k"
proof (induction n arbitrary: rs)
  case (Suc n)
  show ?case
  proof (cases rs)
    case (Cons r rs')
    then show ?thesis using Suc.prems[of r] Suc.IH[of rs'] Suc.prems by fastforce
  qed simp
qed simp

lemma str_runes_width: "r \<in> set (str_runes s) \<Longrightarrow> length r \<le> 4"
proof (induction s rule: str_runes.induct)
  case (1 s)
  show ?case
  proof (cases "s = [] \<or> rune_width s = 0")
    case True
    then show ?thesis using 1 by (auto simp: str_runes.simps[of s] split: if_splits)
  next
    case False
    have "rune_width s \<le> 4" by (auto simp: rune_width_def split: list.split)
    then show ?thesis using 1 False by (auto simp: str_runes.simps[of s])
  qed
qed

lemma first_runes_length: "length (first_runes n s) \<le> n * 4"
  unfolding first_runes_def by (rule length_concat_take) (rule str_runes_width)

end
