(* ===== verification/Build_Version.thy ===== *)
theory Build_Version
  imports Go_Strings
begin

text \<open>
  Version gates, internal/buildinfo/version.go and internal/codexcli/version.go: parsing of
  three-part versions, their comparison, the predicates that decide which feature an Agent
  (and the CLI it drives) supports, and whether an update is offered.
\<close>

section \<open>Parsing and comparing\<close>

text \<open>The loop over the parts of a split version; a part that is no natural number rejects all.\<close>

fun parse_parts :: "string list \<Rightarrow> int list option" where
  "parse_parts [] = Some []"
| "parse_parts (p # ps) =
     (case atoi p of
        None \<Rightarrow> None
      | Some v \<Rightarrow> if v < 0 then None else map_option ((#) v) (parse_parts ps))"

definition parseVersion :: "string \<Rightarrow> int list option" where
  "parseVersion value0 =
     (let value1 = trim_prefix (trim_space value0) ''v'';
          value2 = before_any ''+-'' value1;
          parts = split_on CHR ''.'' value2
      in if length parts \<noteq> 3 then None else parse_parts parts)"

text \<open>
  The comparison loops: at the first index where the versions differ the larger component
  decides. \<open>atLeast_loop\<close> answers true for equal versions, \<open>newer_loop\<close> false.
\<close>

fun atLeast_loop :: "int list \<Rightarrow> int list \<Rightarrow> bool" where
  "atLeast_loop (c # cs) (m # ms) = (if c \<noteq> m then c > m else atLeast_loop cs ms)"
| "atLeast_loop _ _ = True"

fun newer_loop :: "int list \<Rightarrow> int list \<Rightarrow> bool" where
  "newer_loop (c # cs) (t # ts) = (if c \<noteq> t then t > c else newer_loop cs ts)"
| "newer_loop _ _ = False"

definition atLeast :: "string \<Rightarrow> string \<Rightarrow> bool" where
  "atLeast currentValue minimumValue =
     (case (parseVersion currentValue, parseVersion minimumValue) of
        (Some current, Some minimum) \<Rightarrow> atLeast_loop current minimum
      | _ \<Rightarrow> False)"

lemma parse_parts_length: "parse_parts ps = Some vs \<Longrightarrow> length vs = length ps"
  by (induction ps arbitrary: vs) (auto split: option.splits if_splits)

lemma parse_parts_range:
  "parse_parts ps = Some vs \<Longrightarrow> \<forall>v \<in> set vs. 0 \<le> v \<and> v \<le> int64_max"
proof (induction ps arbitrary: vs)
  case (Cons p ps)
  then obtain v ws where v: "atoi p = Some v" "\<not> v < 0" "parse_parts ps = Some ws" "vs = v # ws"
    by (auto split: option.splits if_splits)
  with Cons.IH [of ws] atoi_range [of p v] show ?case by (auto simp: int64_range_def)
qed auto

lemma parseVersion_length: "parseVersion s = Some v \<Longrightarrow> length v = 3"
  by (auto simp: parseVersion_def Let_def dest: parse_parts_length split: if_splits)

lemma newer_loop_lexord:
  "length u = length v \<Longrightarrow> newer_loop u v \<longleftrightarrow> (u, v) \<in> lexord {(x, y). x < y}"
  by (induction u v rule: newer_loop.induct) auto

lemma atLeast_loop_newer: "length u = length v \<Longrightarrow> atLeast_loop u v \<longleftrightarrow> \<not> newer_loop u v"
  by (induction u v rule: newer_loop.induct) auto

lemma newer_loop_irrefl [simp]: "\<not> newer_loop v v"
  by (induction v) auto

lemma newer_loop_trans:
  "newer_loop u v \<Longrightarrow> newer_loop v w \<Longrightarrow> length u = length v \<Longrightarrow> length v = length w \<Longrightarrow> newer_loop u w"
proof (induction u v arbitrary: w rule: newer_loop.induct)
  case (1 c cs t ts)
  then obtain x xs where w: "w = x # xs" by (cases w) auto
  from "1.prems" have len: "length cs = length ts" "length ts = length xs" by (auto simp: w)
  show ?case
  proof (cases "c = t \<and> t = x")
    case True
    with "1.prems" w have "newer_loop cs ts" "newer_loop ts xs" by auto
    with True "1.IH" len w show ?thesis by simp
  next
    case False
    with "1.prems" w show ?thesis by (auto split: if_splits)
  qed
qed auto

lemma newer_loop_linear:
  "length u = length v \<Longrightarrow> newer_loop u v \<or> u = v \<or> newer_loop v u"
  by (induction u v rule: newer_loop.induct) auto

section \<open>The contract of an update check\<close>

text \<open>
  Two packages compare versions: \<open>buildinfo\<close> for Agents and \<open>codexcli\<close> for CLIs. Both promise
  that \<open>newer c t\<close> holds exactly when both texts parse and the parsed target is
  lexicographically larger. What the callers rely on follows from that contract alone.
\<close>

locale version_check =
  fixes current_of :: "string \<Rightarrow> int list option"
    and target_of :: "string \<Rightarrow> int list option"
    and newer :: "string \<Rightarrow> string \<Rightarrow> bool"
  assumes current_length: "current_of c = Some u \<Longrightarrow> length u = 3"
    and target_length: "target_of t = Some v \<Longrightarrow> length v = 3"
    and newer_iff: "newer c t \<longleftrightarrow> (\<exists>u v. current_of c = Some u \<and> target_of t = Some v \<and> newer_loop u v)"
begin

lemma newer_rejects_garbage: "current_of c = None \<or> target_of t = None \<Longrightarrow> \<not> newer c t"
  by (auto simp: newer_iff)

lemma newer_lex:
  assumes "current_of c = Some u" and "target_of t = Some v"
  shows "newer c t \<longleftrightarrow> (u, v) \<in> lexord {(x, y). x < y}"
  using assms newer_loop_lexord [of u v] current_length target_length by (auto simp: newer_iff)

lemma not_newer_same: "current_of c = target_of t \<Longrightarrow> \<not> newer c t"
  by (auto simp: newer_iff)

lemma newer_upto:
  assumes "newer c t" and "target_of t = current_of t'" and "newer t' s"
  shows "newer c s"
proof -
  obtain u v where uv: "current_of c = Some u" "target_of t = Some v" "newer_loop u v"
    using assms(1) by (auto simp: newer_iff)
  obtain w where w: "target_of s = Some w" "newer_loop v w"
    using assms(2,3) uv(2) by (auto simp: newer_iff)
  have "newer_loop u w"
    using newer_loop_trans [OF uv(3) w(2)] uv w current_length target_length by force
  with uv w show ?thesis by (auto simp: newer_iff)
qed

lemma newer_no_downgrade:
  assumes "newer c t" and "target_of t = current_of t'" and "target_of c' = current_of c"
  shows "\<not> newer t' c'"
proof
  assume "newer t' c'"
  with assms(1,2) have "newer c c'" by (rule newer_upto)
  with assms(3) not_newer_same [of c c'] show False by simp
qed

end

section \<open>Feature gates of the Agent\<close>

text \<open>The first word of a CLI's version line, \<open>strings.SplitN(cli, " ", 2)[0]\<close>, trimmed.\<close>

definition first_word :: "string \<Rightarrow> string" where
  "first_word cli = trim_space (fst (split_first CHR '' '' cli))"

definition SupportsScopedCredentials :: "string \<Rightarrow> bool" where
  "SupportsScopedCredentials version = atLeast version ''0.3.02''"

definition SupportsClaudeQuestions :: "string \<Rightarrow> string \<Rightarrow> bool" where
  "SupportsClaudeQuestions agent cli = (atLeast agent ''0.2.98'' \<and> atLeast (first_word cli) ''2.1.286'')"

definition SupportsClaudeRewrite :: "string \<Rightarrow> bool" where
  "SupportsClaudeRewrite version = atLeast version ''0.2.97''"

definition SupportsOperationInterrupt :: "string \<Rightarrow> bool" where
  "SupportsOperationInterrupt version = atLeast version ''0.2.96''"

definition SupportsClaudeSteering :: "string \<Rightarrow> string \<Rightarrow> bool" where
  "SupportsClaudeSteering agent cli = (atLeast agent ''0.2.95'' \<and> atLeast (first_word cli) ''2.1.286'')"

definition SupportsClaudeSkills :: "string \<Rightarrow> bool" where
  "SupportsClaudeSkills version = atLeast version ''0.2.94''"

definition SupportsClaudeInput :: "string \<Rightarrow> bool" where
  "SupportsClaudeInput version = atLeast version ''0.2.93''"

definition SupportsClaudeEffort :: "string \<Rightarrow> bool" where
  "SupportsClaudeEffort version = atLeast version ''0.2.92''"

definition SupportsClaude :: "string \<Rightarrow> bool" where
  "SupportsClaude version = atLeast version ''0.2.90''"

definition SupportsClaudeManagement :: "string \<Rightarrow> bool" where
  "SupportsClaudeManagement version = atLeast version ''0.2.91''"

definition SupportsGeminiImageSteering :: "string \<Rightarrow> string \<Rightarrow> bool" where
  "SupportsGeminiImageSteering agent cli = (atLeast agent ''0.2.88'' \<and> atLeast cli ''0.66.0'')"

definition SupportsGeminiSkillManagement :: "string \<Rightarrow> string \<Rightarrow> bool" where
  "SupportsGeminiSkillManagement agent cli = (atLeast agent ''0.2.88'' \<and> atLeast cli ''0.66.0'')"

definition SupportsGeminiGoal :: "string \<Rightarrow> string \<Rightarrow> bool" where
  "SupportsGeminiGoal agent cli = (atLeast agent ''0.2.84'' \<and> atLeast cli ''0.66.0'')"

definition SupportsGeminiSkills :: "string \<Rightarrow> string \<Rightarrow> bool" where
  "SupportsGeminiSkills agent cli = (atLeast agent ''0.2.83'' \<and> atLeast cli ''0.66.0'')"

definition SupportsGeminiPlan :: "string \<Rightarrow> string \<Rightarrow> bool" where
  "SupportsGeminiPlan agent cli = (atLeast agent ''0.2.83'' \<and> atLeast cli ''0.66.0'')"

definition SupportsGeminiSteering :: "string \<Rightarrow> string \<Rightarrow> bool" where
  "SupportsGeminiSteering agent cli = (atLeast agent ''0.2.79'' \<and> atLeast cli ''0.66.0'')"

definition SupportsGeminiInput :: "string \<Rightarrow> bool" where
  "SupportsGeminiInput version = atLeast version ''0.2.73''"

definition SupportsCLIManagement :: "string \<Rightarrow> bool" where
  "SupportsCLIManagement version = atLeast version ''0.2.61''"

definition SupportsGemini :: "string \<Rightarrow> bool" where
  "SupportsGemini version = atLeast version ''0.2.60''"

definition SupportsMessageFork :: "string \<Rightarrow> bool" where
  "SupportsMessageFork version = atLeast version ''0.2.59''"

definition SupportsWorkspaceFileWrite :: "string \<Rightarrow> bool" where
  "SupportsWorkspaceFileWrite version = atLeast version ''0.2.56''"

definition SupportsCodexSteer :: "string \<Rightarrow> bool" where
  "SupportsCodexSteer version = atLeast version ''0.2.51''"

definition SupportsCodexUpdate :: "string \<Rightarrow> bool" where
  "SupportsCodexUpdate version = atLeast version ''0.2.9''"

definition SupportsExactDeploymentRollback :: "string \<Rightarrow> bool" where
  "SupportsExactDeploymentRollback version = atLeast version ''0.2.45''"

definition SupportsGeminiCredentials :: "string \<Rightarrow> bool" where
  "SupportsGeminiCredentials version = atLeast version ''0.2.63''"

definition SupportsGeminiRewrite :: "string \<Rightarrow> bool" where
  "SupportsGeminiRewrite version = atLeast version ''0.2.85''"

definition SupportsGeminiFork :: "string \<Rightarrow> bool" where
  "SupportsGeminiFork version = atLeast version ''0.2.68''"

definition SupportsGeminiThinking :: "string \<Rightarrow> bool" where
  "SupportsGeminiThinking version = atLeast version ''0.2.70''"

definition SupportsGeminiYolo :: "string \<Rightarrow> bool" where
  "SupportsGeminiYolo version = atLeast version ''0.2.72''"

definition SupportsSelfUpdate :: "string \<Rightarrow> bool" where
  "SupportsSelfUpdate version =
     (case parseVersion version of
        None \<Rightarrow> False
      | Some current \<Rightarrow> atLeast_loop current (the (parseVersion ''0.2.0'')))"

definition UpdateAvailable :: "string \<Rightarrow> string \<Rightarrow> bool" where
  "UpdateAvailable current target =
     (if \<not> SupportsSelfUpdate current then False
      else case (parseVersion current, parseVersion target) of
             (Some currentVersion, Some targetVersion) \<Rightarrow> newer_loop currentVersion targetVersion
           | _ \<Rightarrow> False)"

definition Version :: string where "Version = ''0.3.03''"

lemmas gate_defs = SupportsScopedCredentials_def SupportsClaudeQuestions_def SupportsClaudeRewrite_def
  SupportsOperationInterrupt_def SupportsClaudeSteering_def SupportsClaudeSkills_def
  SupportsClaudeInput_def SupportsClaudeEffort_def SupportsClaude_def
  SupportsClaudeManagement_def SupportsGeminiImageSteering_def
  SupportsGeminiSkillManagement_def SupportsGeminiGoal_def SupportsGeminiSkills_def
  SupportsGeminiPlan_def SupportsGeminiSteering_def SupportsGeminiInput_def
  SupportsCLIManagement_def SupportsGemini_def SupportsMessageFork_def
  SupportsWorkspaceFileWrite_def SupportsCodexSteer_def SupportsCodexUpdate_def
  SupportsExactDeploymentRollback_def SupportsGeminiCredentials_def
  SupportsGeminiRewrite_def SupportsGeminiFork_def SupportsGeminiThinking_def
  SupportsGeminiYolo_def

section \<open>CLI versions\<close>

definition is_digit :: "char \<Rightarrow> bool" where
  "is_digit c \<longleftrightarrow> digit_val c \<noteq> None"

text \<open>One component of \<open>strictVersionPattern\<close>: a decimal number without leading zeros.\<close>

definition strict_part :: "string \<Rightarrow> bool" where
  "strict_part p \<longleftrightarrow> p = ''0'' \<or> (p \<noteq> [] \<and> hd p \<noteq> CHR ''0'' \<and> list_all is_digit p)"

definition strictVersionPattern :: "string \<Rightarrow> bool" where
  "strictVersionPattern s =
     (let parts = split_on CHR ''.'' s in length parts = 3 \<and> list_all strict_part parts)"

definition ValidTargetVersion :: "string \<Rightarrow> bool" where
  "ValidTargetVersion s = strictVersionPattern (trim_space s)"

text \<open>The loop of \<open>codexcli.parseVersion\<close>, which does not look at the sign of a part.\<close>

fun strict_loop :: "string list \<Rightarrow> int list option" where
  "strict_loop [] = Some []"
| "strict_loop (p # ps) =
     (case atoi p of None \<Rightarrow> None | Some v \<Rightarrow> map_option ((#) v) (strict_loop ps))"

definition parseStrictVersion :: "string \<Rightarrow> int list option" where
  "parseStrictVersion s = (if \<not> strictVersionPattern s then None else strict_loop (split_on CHR ''.'' s))"

definition trim_suffix :: "string \<Rightarrow> string \<Rightarrow> string" where
  "trim_suffix s p = (if has_prefix (rev s) (rev p) then take (length s - length p) s else s)"

definition parseReportedVersion :: "string \<Rightarrow> int list option" where
  "parseReportedVersion s =
     parseStrictVersion
       (trim_prefix (trim_suffix (trim_prefix (trim_space s) ''codex-cli '') '' (Claude Code)'') ''v'')"

definition cli_UpdateAvailable :: "string \<Rightarrow> string \<Rightarrow> bool" where
  "cli_UpdateAvailable reported target =
     (case (parseReportedVersion reported, parseStrictVersion (trim_space target)) of
        (Some current, Some desired) \<Rightarrow> newer_loop current desired
      | _ \<Rightarrow> False)"

definition ReportedVersionMatches :: "string \<Rightarrow> string \<Rightarrow> bool" where
  "ReportedVersionMatches reported target =
     (case (parseReportedVersion reported, parseStrictVersion (trim_space target)) of
        (Some current, Some desired) \<Rightarrow> current = desired
      | _ \<Rightarrow> False)"

lemma strict_loop_length: "strict_loop ps = Some vs \<Longrightarrow> length vs = length ps"
  by (induction ps arbitrary: vs) (auto split: option.splits)

lemma parseStrictVersion_length: "parseStrictVersion s = Some v \<Longrightarrow> length v = 3"
  by (auto simp: parseStrictVersion_def strictVersionPattern_def Let_def
      dest: strict_loop_length split: if_splits)

lemma parseReportedVersion_length: "parseReportedVersion s = Some v \<Longrightarrow> length v = 3"
  by (auto simp: parseReportedVersion_def dest: parseStrictVersion_length)

section \<open>Properties\<close>

lemma atLeast_iff:
  "atLeast c m \<longleftrightarrow> (\<exists>u v. parseVersion c = Some u \<and> parseVersion m = Some v \<and> \<not> newer_loop u v)"
  by (auto simp: atLeast_def atLeast_loop_newer parseVersion_length split: option.splits)

lemma atLeast_trans:
  assumes "atLeast a b" and "atLeast b c"
  shows "atLeast a c"
proof -
  obtain u v where uv: "parseVersion a = Some u" "parseVersion b = Some v" "\<not> newer_loop u v"
    using assms(1) by (auto simp: atLeast_iff)
  obtain w where w: "parseVersion c = Some w" "\<not> newer_loop v w"
    using assms(2) uv(2) by (auto simp: atLeast_iff)
  have len: "length u = 3" "length v = 3" "length w = 3"
    using uv w by (auto dest: parseVersion_length)
  have "\<not> newer_loop u w"
  proof
    assume uw: "newer_loop u w"
    have "newer_loop v u \<or> u = v" using newer_loop_linear [of u v] uv(3) len by auto
    then have "newer_loop v w" using uw newer_loop_trans [of v u w] len by auto
    with w(2) show False by simp
  qed
  with uv w show ?thesis by (auto simp: atLeast_iff)
qed

lemma self_update_min: "parseVersion ''0.2.0'' = Some [0, 2, 0]"
  by code_simp

lemma SupportsSelfUpdate_atLeast: "SupportsSelfUpdate v = atLeast v ''0.2.0''"
  by (auto simp: SupportsSelfUpdate_def atLeast_def self_update_min split: option.splits)

definition updatable :: "string \<Rightarrow> int list option" where
  "updatable c = (if SupportsSelfUpdate c then parseVersion c else None)"

interpretation agent_update: version_check updatable parseVersion UpdateAvailable
proof unfold_locales
  fix c t
  show "UpdateAvailable c t \<longleftrightarrow>
      (\<exists>u v. updatable c = Some u \<and> parseVersion t = Some v \<and> newer_loop u v)"
    by (auto simp: UpdateAvailable_def updatable_def split: option.splits)
qed (auto simp: updatable_def parseVersion_length split: if_splits)

interpretation cli_update: version_check parseReportedVersion "\<lambda>t. parseStrictVersion (trim_space t)" cli_UpdateAvailable
proof unfold_locales
  fix c t
  show "cli_UpdateAvailable c t \<longleftrightarrow> (\<exists>u v. parseReportedVersion c = Some u
      \<and> parseStrictVersion (trim_space t) = Some v \<and> newer_loop u v)"
    by (auto simp: cli_UpdateAvailable_def split: option.splits)
qed (auto simp: parseReportedVersion_length parseStrictVersion_length)

lemma UpdateAvailable_self_update: "UpdateAvailable c t \<Longrightarrow> SupportsSelfUpdate c"
  by (auto simp: UpdateAvailable_def split: if_splits)

text \<open>
  An Agent update is offered exactly when both versions parse, the Agent is at least 0.2.0
  (the first version that can replace itself) and the target is lexicographically newer.
\<close>

theorem update_offered_iff:
  "UpdateAvailable current target \<longleftrightarrow>
     (\<exists>u v. parseVersion current = Some u \<and> parseVersion target = Some v
        \<and> (u, [0, 2, 0]) \<notin> lexord {(x, y). x < y} \<and> (u, v) \<in> lexord {(x, y). x < y})"
proof -
  have "SupportsSelfUpdate current \<longleftrightarrow>
      (\<exists>u. parseVersion current = Some u \<and> (u, [0, 2, 0]) \<notin> lexord {(x, y). x < y})"
    by (auto simp: SupportsSelfUpdate_atLeast atLeast_iff self_update_min
        newer_loop_lexord parseVersion_length)
  then show ?thesis
    by (auto simp: agent_update.newer_iff updatable_def newer_loop_lexord parseVersion_length
        split: if_splits)
qed

text \<open>
  Installing an offered update ends the offer: once the Agent runs the target, neither the
  same target nor the version it came from is offered again, so updates cannot cycle.
\<close>

theorem update_never_cycles:
  assumes "UpdateAvailable current target"
  shows "\<not> UpdateAvailable target target \<and> \<not> UpdateAvailable target current"
proof
  have sup: "SupportsSelfUpdate current" using assms by (rule UpdateAvailable_self_update)
  show "\<not> UpdateAvailable target target"
    by (auto simp: agent_update.newer_iff updatable_def split: if_splits)
  show "\<not> UpdateAvailable target current"
  proof
    assume rev: "UpdateAvailable target current"
    then have "updatable target = parseVersion target"
      by (simp add: updatable_def UpdateAvailable_self_update)
    moreover have "parseVersion current = updatable current" using sup by (simp add: updatable_def)
    ultimately show False using agent_update.newer_no_downgrade [OF assms] rev by metis
  qed
qed

theorem update_never_cycles_witness:
  "UpdateAvailable ''v0.2.97'' ''0.3.03'' \<and> \<not> UpdateAvailable ''0.3.03'' ''0.3.03''
     \<and> \<not> UpdateAvailable ''0.3.03'' ''v0.2.97''"
proof -
  have "UpdateAvailable ''v0.2.97'' ''0.3.03''" by code_simp
  then show ?thesis using update_never_cycles [of "''v0.2.97''" "''0.3.03''"] by blast
qed

text \<open>The gates that look at the Agent's version only.\<close>

definition agent_gates :: "(string \<Rightarrow> bool) list" where
  "agent_gates = [SupportsScopedCredentials, SupportsClaudeRewrite, SupportsOperationInterrupt,
     SupportsClaudeSkills, SupportsClaudeInput, SupportsClaudeEffort, SupportsClaude,
     SupportsClaudeManagement, SupportsGeminiInput, SupportsCLIManagement, SupportsGemini,
     SupportsMessageFork, SupportsWorkspaceFileWrite, SupportsCodexSteer,
     SupportsCodexUpdate, SupportsExactDeploymentRollback, SupportsGeminiCredentials,
     SupportsGeminiRewrite, SupportsGeminiFork, SupportsGeminiThinking, SupportsGeminiYolo,
     SupportsSelfUpdate]"

text \<open>
  An upgrade never loses a feature: every gate that an Agent version passes is passed by
  every version that compares at least as high.
\<close>

theorem upgrade_keeps_features:
  assumes "gate \<in> set agent_gates" and "gate old" and "atLeast new old"
  shows "gate new"
proof -
  obtain m where m: "\<And>v. gate v = atLeast v m"
    using assms(1) by (auto simp: agent_gates_def gate_defs SupportsSelfUpdate_atLeast)
  with assms(2,3) show ?thesis using atLeast_trans by blast
qed

theorem upgrade_keeps_features_witness:
  "SupportsGeminiYolo ''0.2.72'' \<and> atLeast ''0.3.03'' ''0.2.72'' \<and> SupportsGeminiYolo ''0.3.03''"
proof -
  have "SupportsGeminiYolo \<in> set agent_gates" by (simp add: agent_gates_def)
  moreover have "SupportsGeminiYolo ''0.2.72''" by code_simp
  moreover have "atLeast ''0.3.03'' ''0.2.72''" by code_simp
  ultimately show ?thesis
    using upgrade_keeps_features [of SupportsGeminiYolo "''0.2.72''" "''0.3.03''"] by blast
qed

text \<open>
  The check for CLI updates offers a target exactly when the reported version line and the
  target both parse strictly and the target is lexicographically newer, and it never offers the
  version that the CLI already reports.
\<close>

theorem cli_update_offered_iff:
  "cli_UpdateAvailable reported target \<longleftrightarrow>
     (\<exists>u v. parseReportedVersion reported = Some u \<and> parseStrictVersion (trim_space target) = Some v
        \<and> (u, v) \<in> lexord {(x, y). x < y})
   \<and> \<not> ReportedVersionMatches reported target"
proof (cases "parseReportedVersion reported = None \<or> parseStrictVersion (trim_space target) = None")
  case True
  then show ?thesis by (auto simp: cli_update.newer_rejects_garbage)
next
  case False
  then obtain u v where uv: "parseReportedVersion reported = Some u" "parseStrictVersion (trim_space target) = Some v"
    by auto
  have len: "length u = length v"
    using uv by (simp add: parseReportedVersion_length parseStrictVersion_length)
  have "(u, u) \<notin> lexord {(x, y). x < y}" using newer_loop_lexord [of u u] by simp
  with uv show ?thesis
    by (auto simp: cli_update.newer_lex [OF uv] ReportedVersionMatches_def)
qed

end
