(* ===== verification/Go_Time.thy ===== *)
theory Go_Time
  imports Go_Strings
begin

text \<open>
  What the modelled code uses of Go's package \<open>time\<close>: the parser of durations, truncation of an
  instant, and the calendar fields of an instant in a location. The calendar is the proleptic
  Gregorian one; its two directions are proved inverse to each other.
\<close>

section \<open>Parsing durations\<close>

definition two63 :: int where "two63 = 9223372036854775808"

text \<open>\<open>leadingInt\<close>: the value of the leading digits (\<open>None\<close> above \<open>2 ^ 63\<close>) and the rest.\<close>

fun leading_int :: "int \<Rightarrow> string \<Rightarrow> (int \<times> string) option" where
  "leading_int x [] = Some (x, [])"
| "leading_int x (c # cs) =
     (case digit_val c of
        None \<Rightarrow> Some (x, c # cs)
      | Some d \<Rightarrow> if x > two63 div 10 \<or> 10 * x + d > two63 then None
                  else leading_int (10 * x + d) cs)"

text \<open>\<open>leadingFraction\<close>: digits after the point; digits that overflow are read and ignored.\<close>

fun leading_fraction :: "bool \<Rightarrow> int \<Rightarrow> int \<Rightarrow> string \<Rightarrow> int \<times> int \<times> string" where
  "leading_fraction over x scale [] = (x, scale, [])"
| "leading_fraction over x scale (c # cs) =
     (case digit_val c of
        None \<Rightarrow> (x, scale, c # cs)
      | Some d \<Rightarrow>
          if over \<or> x > (two63 - 1) div 10 \<or> 10 * x + d > two63 then leading_fraction True x scale cs
          else leading_fraction False (10 * x + d) (10 * scale) cs)"

lemma leading_int_length: "leading_int x s = Some (v, r) \<Longrightarrow> length r \<le> length s"
  by (induction x s rule: leading_int.induct) (auto split: option.splits if_splits)

lemma leading_fraction_length: "leading_fraction b x sc s = (f, sc', r) \<Longrightarrow> length r \<le> length s"
  by (induction b x sc s rule: leading_fraction.induct) (auto split: option.splits if_splits)

text \<open>
  The nearest \<open>float64\<close> of a positive fraction \<open>n / d\<close> (53 bits, ties to even), as a fraction.
  The duration parser multiplies the fraction digits in floating point.
\<close>

function bit_len :: "int \<Rightarrow> int" where
  "bit_len n = (if n \<le> 0 then 0 else 1 + bit_len (n div 2))"
  by pat_completeness auto
termination
  by (relation "measure nat") auto

declare bit_len.simps [simp del]

definition scaled :: "int \<Rightarrow> int \<Rightarrow> int \<Rightarrow> int \<times> int" where
  "scaled n d e = (if 0 \<le> e then (n * 2 ^ nat e, d) else (n, d * 2 ^ nat (- e)))"

definition fl64 :: "int \<Rightarrow> int \<Rightarrow> int \<times> int" where
  "fl64 n d =
     (let e0 = 53 + bit_len d - bit_len n;
          (a, b) = scaled n d e0;
          e = (if a div b \<ge> 2 ^ 53 then e0 - 1 else e0);
          (p, q) = scaled n d e;
          m = p div q; r = p mod q;
          m' = (if 2 * r > q \<or> (2 * r = q \<and> odd m) then m + 1 else m)
      in if 0 \<le> e then (m', 2 ^ nat e) else (m' * 2 ^ nat (- e), 1))"

definition fraction_ns :: "int \<Rightarrow> int \<Rightarrow> int \<Rightarrow> int" where
  "fraction_ns f unit scale =
     (let (a, b) = fl64 f 1; (c, d) = fl64 unit scale; (p, q) = fl64 (a * c) (b * d) in p div q)"

definition unit_map :: "string \<Rightarrow> int option" where
  "unit_map = map_of
     [(''ns'', 1), (''us'', 1000),
      ([CHR 0xC2, CHR 0xB5, CHR ''s''], 1000), ([CHR 0xCE, CHR 0xBC, CHR ''s''], 1000),
      (''ms'', 1000000), (''s'', 1000000000), (''m'', 60000000000), (''h'', 3600000000000)]"

definition is_unit_char :: "char \<Rightarrow> bool" where
  "is_unit_char c \<longleftrightarrow> c \<noteq> CHR ''.'' \<and> digit_val c = None"

text \<open>
  One number with its unit: the value in nanoseconds and the rest of the input, \<open>None\<close> when the
  input has no number, no unit or an unknown unit here, or when the value is above \<open>2 ^ 63\<close>.
\<close>

definition duration_part :: "string \<Rightarrow> (int \<times> string) option" where
  "duration_part s =
     (if s = [] \<or> (hd s \<noteq> CHR ''.'' \<and> digit_val (hd s) = None) then None
      else case leading_int 0 s of
        None \<Rightarrow> None
      | Some (v, s1) \<Rightarrow>
          (let pre = (length s1 \<noteq> length s);
               (post, f, scale, s2) =
                 (case s1 of
                    [] \<Rightarrow> (False, 0, 1, s1)
                  | c # cs \<Rightarrow>
                      if c = CHR ''.''
                      then (let (f, scale, r) = leading_fraction False 0 1 cs
                            in (length r \<noteq> length cs, f, scale, r))
                      else (False, 0, 1, s1));
               u = takeWhile is_unit_char s2
           in if \<not> pre \<and> \<not> post then None
              else if u = [] then None
              else case unit_map u of
                     None \<Rightarrow> None
                   | Some unit \<Rightarrow>
                       if v > two63 div unit then None
                       else let w = v * unit + (if f > 0 then fraction_ns f unit scale else 0)
                            in if f > 0 \<and> w > two63 then None
                               else Some (w, dropWhile is_unit_char s2)))"

lemma dropWhile_shorter: "takeWhile P s \<noteq> [] \<Longrightarrow> length (dropWhile P s) < length s"
  by (metis length_append less_add_same_cancel2 length_greater_0_conv takeWhile_dropWhile_id)

lemma duration_part_length:
  assumes "duration_part s = Some (w, r)"
  shows "length r < length s"
proof -
  obtain v s1 where s1: "leading_int 0 s = Some (v, s1)" "length s1 \<le> length s"
    using assms leading_int_length by (fastforce simp: duration_part_def split: if_splits option.splits)
  have cs: "length (snd (snd (leading_fraction False 0 1 cs))) \<le> length cs" for cs
    by (metis leading_fraction_length prod.collapse)
  obtain s2 where s2: "length s2 \<le> length s1" "takeWhile is_unit_char s2 \<noteq> []" "r = dropWhile is_unit_char s2"
  proof (cases s1)
    case Nil
    with that [of s1] assms s1 show ?thesis
      by (auto simp: duration_part_def Let_def split: if_splits option.splits)
  next
    case (Cons c cs)
    with that [of "if c = CHR ''.'' then snd (snd (leading_fraction False 0 1 cs)) else s1"] assms s1 cs [of cs]
    show ?thesis
      by (auto simp: duration_part_def Let_def split: if_splits option.splits prod.splits)
  qed
  with s1 dropWhile_shorter [OF s2(2)] show ?thesis by simp
qed

text \<open>The loop of \<open>ParseDuration\<close>; the sum is an unsigned 64-bit integer.\<close>

function duration_loop :: "int \<Rightarrow> string \<Rightarrow> int option" where
  "duration_loop d s =
     (if s = [] then Some d
      else case duration_part s of
             None \<Rightarrow> None
           | Some (w, r) \<Rightarrow>
               (let d' = (d + w) mod 18446744073709551616
                in if d' > two63 then None else duration_loop d' r))"
  by pat_completeness auto
termination
  by (relation "measure (\<lambda>(_, s). length s)") (auto dest: duration_part_length)

declare duration_loop.simps [simp del]

definition ParseDuration :: "string \<Rightarrow> duration option" where
  "ParseDuration s0 =
     (let (neg, s) = (case s0 of [] \<Rightarrow> (False, [])
                        | c # cs \<Rightarrow> if c = CHR ''-'' then (True, cs)
                                    else if c = CHR ''+'' then (False, cs) else (False, s0))
      in if s = ''0'' then Some 0
         else if s = [] then None
         else case duration_loop 0 s of
                None \<Rightarrow> None
              | Some d \<Rightarrow> if neg then Some (- d)
                          else if d > two63 - 1 then None else Some d)"

section \<open>Instants\<close>

text \<open>\<open>Time.Truncate(time.Minute)\<close>: the zero time lies a whole number of minutes before the epoch.\<close>

definition truncate_minute :: "instant \<Rightarrow> instant" where
  "truncate_minute t = t - t mod ns_minute"

lemma truncate_minute_dvd: "ns_minute dvd truncate_minute t"
  by (simp add: truncate_minute_def minus_mod_eq_mult_div)

lemma truncate_minute_bounds: "truncate_minute t \<le> t \<and> t < truncate_minute t + ns_minute"
  by (simp add: truncate_minute_def ns_units)

text \<open>A location gives, for every second of universal time, its offset in seconds.\<close>

type_synonym location = "int \<Rightarrow> int"

definition utc :: location where "utc = (\<lambda>_. 0)"

definition local_seconds :: "location \<Rightarrow> instant \<Rightarrow> int" where
  "local_seconds loc t = t div ns_second + loc (t div ns_second)"

definition minute_of :: "location \<Rightarrow> instant \<Rightarrow> int" where
  "minute_of loc t = local_seconds loc t div 60 mod 60"

definition hour_of :: "location \<Rightarrow> instant \<Rightarrow> int" where
  "hour_of loc t = local_seconds loc t div 3600 mod 24"

definition day_number :: "location \<Rightarrow> instant \<Rightarrow> int" where
  "day_number loc t = local_seconds loc t div 86400"

text \<open>The epoch was a Thursday; Sunday is 0.\<close>

definition weekday_of :: "location \<Rightarrow> instant \<Rightarrow> int" where
  "weekday_of loc t = (day_number loc t + 4) mod 7"

section \<open>The calendar\<close>

text \<open>
  Years are counted from March 1 of year 0, so that the leap day is the last day of its year;
  \<open>year_start y\<close> is the number of days before year \<open>y\<close> in that count, and day 0 of the epoch is
  day 719468.
\<close>

definition year_start :: "int \<Rightarrow> int" where
  "year_start y = 365 * y + y div 4 - y div 100 + y div 400"

definition march_year :: "int \<Rightarrow> int" where
  "march_year z =
     (let y = 400 * z div 146097
      in if z < year_start y then y - 1 else if year_start (y + 1) \<le> z then y + 1 else y)"

definition civil_of_days :: "int \<Rightarrow> int \<times> int \<times> int" where
  "civil_of_days n =
     (let z = n + 719468; y = march_year z; doy = z - year_start y;
          mp = (5 * doy + 2) div 153; d = doy - (153 * mp + 2) div 5 + 1;
          m = (if mp < 10 then mp + 3 else mp - 9)
      in (if m \<le> 2 then y + 1 else y, m, d))"

definition days_of_civil :: "int \<Rightarrow> int \<Rightarrow> int \<Rightarrow> int" where
  "days_of_civil y m d =
     (let y' = (if m \<le> 2 then y - 1 else y); mp = (if m > 2 then m - 3 else m + 9)
      in year_start y' + (153 * mp + 2) div 5 + d - 1 - 719468)"

definition leap_year :: "int \<Rightarrow> bool" where
  "leap_year y \<longleftrightarrow> 4 dvd y \<and> (\<not> 100 dvd y \<or> 400 dvd y)"

definition days_in_month :: "int \<Rightarrow> int \<Rightarrow> int" where
  "days_in_month y m =
     (if m = 2 then (if leap_year y then 29 else 28)
      else if m \<in> {4, 6, 9, 11} then 30 else 31)"

definition valid_civil :: "int \<Rightarrow> int \<Rightarrow> int \<Rightarrow> bool" where
  "valid_civil y m d \<longleftrightarrow> 1 \<le> m \<and> m \<le> 12 \<and> 1 \<le> d \<and> d \<le> days_in_month y m"

definition month_of :: "location \<Rightarrow> instant \<Rightarrow> int" where
  "month_of loc t = fst (snd (civil_of_days (day_number loc t)))"

definition day_of :: "location \<Rightarrow> instant \<Rightarrow> int" where
  "day_of loc t = snd (snd (civil_of_days (day_number loc t)))"

lemma year_start_bounds:
  "400 * year_start y \<le> 146097 * y + 396" "146097 * y - 699 \<le> 400 * year_start y"
proof -
  have "4 * (y div 4) \<le> y" "y < 4 * (y div 4) + 4" by simp_all
  moreover have "100 * (y div 100) \<le> y" "y < 100 * (y div 100) + 100" by simp_all
  moreover have "400 * (y div 400) \<le> y" "y < 400 * (y div 400) + 400" by simp_all
  ultimately show "400 * year_start y \<le> 146097 * y + 396" "146097 * y - 699 \<le> 400 * year_start y"
    unfolding year_start_def by (smt (verit))+
qed

lemma march_year_bounds: "year_start (march_year z) \<le> z \<and> z < year_start (march_year z + 1)"
proof -
  define y where "y = 400 * z div 146097"
  have y: "146097 * y \<le> 400 * z" "400 * z < 146097 * y + 146097"
    unfolding y_def by simp_all
  have lo: "year_start (y - 1) \<le> z" using y year_start_bounds(1) [of "y - 1"] by simp
  have hi: "z < year_start (y + 2)" using y year_start_bounds(2) [of "y + 2"] by simp
  show ?thesis
    using lo hi by (auto simp: march_year_def Let_def y_def [symmetric] add.commute)
qed

text \<open>A year from March to February has 365 days, and 366 when its February is in a leap year.\<close>

lemma div_step:
  assumes "0 < (k::int)"
  shows "(y + 1) div k = y div k + (if k dvd y + 1 then 1 else 0)"
proof -
  have y: "y + 1 = (y mod k + 1) + k * (y div k)" by simp
  have r: "0 \<le> y mod k" "y mod k < k" using assms by simp_all
  have "(y + 1) div k = (y mod k + 1 + k * (y div k)) div k"
    using y by (rule arg_cong)
  also have "\<dots> = y div k + (y mod k + 1) div k"
    using assms by (intro div_mult_self2) simp
  finally have q: "(y + 1) div k = y div k + (y mod k + 1) div k" .
  have dvd: "k dvd y + 1 \<longleftrightarrow> k dvd y mod k + 1"
    by (subst y) (rule dvd_add_left_iff, simp)
  show ?thesis
  proof (cases "y mod k + 1 = k")
    case True
    with q dvd assms show ?thesis by simp
  next
    case False
    with r have "0 < y mod k + 1" "y mod k + 1 < k" by simp_all
    with q dvd show ?thesis using zdvd_not_zless by auto
  qed
qed

lemma collect_year:
  "365 * (y + 1) + (p + a) - (q + b) + (r + c) - (365 * y + p - q + r) = 365 + a - b + (c::int)"
  by simp

lemma year_length: "year_start (y + 1) - year_start y = (if leap_year (y + 1) then 366 else 365)"
proof -
  define a b c where abc: "a \<longleftrightarrow> 4 dvd y + 1" "b \<longleftrightarrow> 100 dvd y + 1" "c \<longleftrightarrow> 400 dvd y + 1"
  have imp: "b \<Longrightarrow> a" "c \<Longrightarrow> b"
    unfolding abc by (erule dvd_trans [rotated], simp)+
  have "(y + 1) div 4 = y div 4 + of_bool a" "(y + 1) div 100 = y div 100 + of_bool b"
    "(y + 1) div 400 = y div 400 + of_bool c"
    unfolding abc by (simp_all only: div_step [of 4 y] div_step [of 100 y] div_step [of 400 y]
        zero_less_numeral of_bool_def)
  then have "year_start (y + 1) - year_start y =
      365 * (y + 1) + (y div 4 + of_bool a) - (y div 100 + of_bool b) + (y div 400 + of_bool c)
      - (365 * y + y div 4 - y div 100 + y div 400)"
    by (simp only: year_start_def)
  also have "\<dots> = 365 + of_bool a - of_bool b + of_bool c"
    by (rule collect_year)
  finally have "year_start (y + 1) - year_start y = 365 + of_bool a - of_bool b + of_bool c" .
  moreover have "leap_year (y + 1) \<longleftrightarrow> a \<and> (\<not> b \<or> c)"
    by (simp only: leap_year_def abc)
  moreover have "(365::int) + of_bool a - of_bool b + of_bool c = (if a \<and> (\<not> b \<or> c) then 366 else 365)"
    using imp by (cases a; cases b; cases c) simp_all
  ultimately show ?thesis by (simp only:)
qed

text \<open>The month and the day within a year that starts in March.\<close>

definition month_start :: "int \<Rightarrow> int" where
  "month_start mp = (153 * mp + 2) div 5"

lemma month_of_doy:
  assumes "0 \<le> doy" and "doy \<le> 365"
  defines "mp \<equiv> (5 * doy + 2) div 153"
  shows "0 \<le> mp \<and> mp < 12 \<and> month_start mp \<le> doy \<and> (doy < month_start (mp + 1) \<or> mp = 11)"
proof -
  have mp: "153 * mp \<le> 5 * doy + 2" "5 * doy + 2 < 153 * mp + 153"
    unfolding mp_def by simp_all
  have ms: "5 * month_start k \<le> 153 * k + 2" "153 * k + 2 < 5 * month_start k + 5" for k
    unfolding month_start_def by simp_all
  have "0 \<le> mp" "mp < 12" using mp assms by simp_all
  moreover have "month_start mp \<le> doy" using mp ms [of mp] by simp
  moreover have "doy < month_start (mp + 1)" using mp ms [of "mp + 1"] by simp
  ultimately show ?thesis by blast
qed

lemma month_start_inv:
  assumes "0 \<le> mp" "mp < 12" "0 \<le> k" "month_start mp + k < month_start (mp + 1)"
  shows "(5 * (month_start mp + k) + 2) div 153 = mp"
proof -
  have ms: "5 * month_start m \<le> 153 * m + 2" "153 * m + 2 < 5 * month_start m + 5" for m
    unfolding month_start_def by simp_all
  let ?x = "5 * (month_start mp + k) + 2"
  have "153 * mp \<le> ?x" "?x < 153 * mp + 153"
    using assms ms [of mp] ms [of "mp + 1"] by simp_all
  then show ?thesis
    by (intro int_div_pos_eq [of _ _ _ "?x - 153 * mp"]) simp_all
qed

lemma month_start_values:
  "month_start 0 = 0" "month_start 1 = 31" "month_start 2 = 61" "month_start 3 = 92"
  "month_start 4 = 122" "month_start 5 = 153" "month_start 6 = 184" "month_start 7 = 214"
  "month_start 8 = 245" "month_start 9 = 275" "month_start 10 = 306" "month_start 11 = 337"
  "month_start 12 = 367"
  by (simp_all add: month_start_def)

lemma month_split: "0 \<le> mp \<Longrightarrow> mp < 12 \<Longrightarrow>
    mp = 0 \<or> mp = 1 \<or> mp = 2 \<or> mp = 3 \<or> mp = 4 \<or> mp = 5 \<or> mp = 6 \<or> mp = 7 \<or> mp = 8 \<or> mp = 9 \<or> mp = 10 \<or> mp = (11::int)"
  by presburger

text \<open>The length of a month, read off the month starts and the length of the year.\<close>

lemma march_month_length:
  assumes "0 \<le> mp" and "mp < 12"
  defines "m \<equiv> if mp < 10 then mp + 3 else mp - 9"
  shows "mp < 11 \<Longrightarrow> days_in_month y m = month_start (mp + 1) - month_start mp"
    and "mp = 11 \<Longrightarrow> days_in_month y m = (if leap_year y then 29 else 28)"
  using month_split [OF assms(1,2)]
  by (auto simp: m_def days_in_month_def month_start_values)

theorem civil_of_days_valid:
  assumes "civil_of_days n = (y, m, d)"
  shows "valid_civil y m d \<and> days_of_civil y m d = n"
proof -
  define z where "z = n + 719468"
  define yy where "yy = march_year z"
  define doy where "doy = z - year_start yy"
  define mp where "mp = (5 * doy + 2) div 153"
  have eqs: "d = doy - month_start mp + 1" "m = (if mp < 10 then mp + 3 else mp - 9)"
      "y = (if m \<le> 2 then yy + 1 else yy)"
    using assms by (auto simp: civil_of_days_def Let_def z_def yy_def doy_def mp_def month_start_def)
  have doy: "0 \<le> doy" "doy < year_start (yy + 1) - year_start yy"
    using march_year_bounds [of z] by (auto simp: doy_def yy_def)
  have "doy \<le> 365" using doy year_length [of yy] by (auto split: if_splits)
  then have mp: "0 \<le> mp" "mp < 12" "month_start mp \<le> doy" "doy < month_start (mp + 1) \<or> mp = 11"
    using month_of_doy [of doy] doy(1) by (auto simp: mp_def)
  have ym: "m \<le> 2 \<longleftrightarrow> 10 \<le> mp" using mp eqs(2) by auto
  have "d \<le> days_in_month y m"
  proof (cases "mp = 11")
    case True
    then show ?thesis
      using march_month_length(2) [OF mp(1,2), of y] doy(2) year_length [of yy] eqs ym
      by (auto simp: month_start_values)
  next
    case False
    then show ?thesis
      using march_month_length(1) [OF mp(1,2), of y] mp(2,4) eqs by auto
  qed
  moreover have "days_of_civil y m d = n"
    using eqs mp ym by (auto simp: days_of_civil_def Let_def month_start_def [symmetric] doy_def z_def)
  ultimately show ?thesis
    using eqs mp by (auto simp: valid_civil_def)
qed

lemma year_start_mono: "a \<le> b \<Longrightarrow> year_start a \<le> year_start b"
proof (induction b rule: int_ge_induct)
  case (step b)
  then show ?case using year_length [of b] by (auto split: if_splits)
qed simp

lemma march_year_unique:
  assumes "year_start y \<le> z" and "z < year_start (y + 1)"
  shows "march_year z = y"
proof -
  have "\<not> march_year z < y"
    using year_start_mono [of "march_year z + 1" y] march_year_bounds [of z] assms by auto
  moreover have "\<not> y < march_year z"
    using year_start_mono [of "y + 1" "march_year z"] march_year_bounds [of z] assms by auto
  ultimately show ?thesis by simp
qed

lemma civil_of_days_eq:
  assumes "n + 719468 = year_start yy + doy" and "march_year (year_start yy + doy) = yy"
    and "(5 * doy + 2) div 153 = mp" and "m = (if mp < 10 then mp + 3 else mp - 9)"
  shows "civil_of_days n = (if m \<le> 2 then yy + 1 else yy, m, doy - month_start mp + 1)"
  using assms by (simp add: civil_of_days_def month_start_def)

theorem civil_of_days_of_civil:
  assumes "valid_civil y m d"
  shows "civil_of_days (days_of_civil y m d) = (y, m, d)"
proof -
  define yy where "yy = (if m \<le> 2 then y - 1 else y)"
  define mp where "mp = (if m > 2 then m - 3 else m + 9)"
  define doy where "doy = month_start mp + (d - 1)"
  have md: "1 \<le> m" "m \<le> 12" "1 \<le> d" "d \<le> days_in_month y m"
    using assms by (auto simp: valid_civil_def)
  have mp: "0 \<le> mp" "mp < 12" and m_mp: "m = (if mp < 10 then mp + 3 else mp - 9)"
    using md by (auto simp: mp_def)
  have n: "days_of_civil y m d + 719468 = year_start yy + doy"
    by (simp add: days_of_civil_def yy_def mp_def doy_def month_start_def)
  have len: "year_start (yy + 1) - year_start yy = (if leap_year (yy + 1) then 366 else 365)"
    by (rule year_length)
  have y1: "mp \<ge> 10 \<Longrightarrow> yy + 1 = y" using md by (auto simp: mp_def yy_def split: if_splits)
  have before: "mp < 11 \<Longrightarrow> doy < month_start (mp + 1)"
    using march_month_length(1) [OF mp, of y] md m_mp by (simp add: doy_def)
  have "doy < year_start (yy + 1) - year_start yy"
  proof (cases "mp = 11")
    case True
    then show ?thesis
      using march_month_length(2) [OF mp, of y] md m_mp y1 len
      by (auto simp: doy_def month_start_values split: if_splits)
  next
    case False
    with mp before have "doy < month_start (mp + 1)" by simp
    moreover have "month_start (mp + 1) \<le> 337"
      using month_split [OF mp] False by (auto simp: month_start_values)
    ultimately show ?thesis using len by (simp split: if_splits)
  qed
  moreover have "0 \<le> doy" using md month_split [OF mp] by (auto simp: doy_def month_start_values)
  ultimately have my: "march_year (year_start yy + doy) = yy"
    by (intro march_year_unique) auto
  have "(5 * doy + 2) div 153 = mp"
  proof (cases "mp = 11")
    case True
    have "d \<le> 29"
      using md m_mp True march_month_length(2) [OF mp, of y] by (auto split: if_splits)
    then show ?thesis
      using True md month_start_inv [OF mp, of "d - 1"] by (simp add: doy_def month_start_values)
  next
    case False
    with mp before month_start_inv [OF mp, of "d - 1"] md show ?thesis by (simp add: doy_def)
  qed
  from civil_of_days_eq [OF n my this m_mp] show ?thesis
    by (simp add: doy_def yy_def)
qed

end
