(* ===== verification/Cron_Schedule.thy ===== *)
theory Cron_Schedule
  imports Go_Time
begin

text \<open>
  The cron expressions of scheduled tasks, internal/schedule/schedule.go: the parser of an
  expression and the search for the next matching minute.
\<close>

section \<open>Data\<close>

text \<open>
  A \<open>fieldSet\<close>: the keys of its map \<open>values\<close> in the order of insertion, and \<open>any\<close>. A \<open>Spec\<close>
  has either a positive \<open>Every\<close> or five field sets.
\<close>

record fieldSet =
  field_values :: "int list"
  field_any :: bool

record Spec =
  Every :: duration
  Minute :: fieldSet
  Hour :: fieldSet
  Day :: fieldSet
  Month :: fieldSet
  Weekday :: fieldSet

datatype field_error =
    FieldIsEmpty
  | EmptyListItem
  | MultipleStepSeparators
  | StepMustBePositive
  | MultipleRangeSeparators
  | RangeStartInvalid
  | RangeEndInvalid
  | ValueInvalid
  | RangeOutside int int int int
  | FieldHasNoValues

datatype schedule_error =
    ScheduleIsEmpty
  | EveryTooShort
  | NotFiveFields
  | BadField string field_error
  | BadTimezone
  | NoMatchingTime

definition empty_field :: fieldSet where
  "empty_field = \<lparr>field_values = [], field_any = False\<rparr>"

section \<open>Parsing a field\<close>

text \<open>
  \<open>for value := start; value <= end; value += step\<close>: the values visited, with the 64-bit
  addition of the code. For arbitrary arguments this loop need not end (with the largest
  \<open>end\<close> it does not), so it is a partial function; \<open>None\<close> is "does not return".
\<close>

partial_function (option) step_loop :: "int \<Rightarrow> int \<Rightarrow> int \<Rightarrow> int list \<Rightarrow> int list option" where
  "step_loop endv step value acc =
     (if value \<le> endv then step_loop endv step (wrap64 (value + step)) (acc @ [value])
      else Some acc)"

declare step_loop.simps [code]

definition store_value :: "bool \<Rightarrow> int \<Rightarrow> int" where
  "store_value sundaySeven value = (if sundaySeven \<and> value = 7 then 0 else value)"

text \<open>The step of a list item: \<open>1\<close>, or what follows the only \<open>/\<close>.\<close>

definition parse_step :: "string \<Rightarrow> field_error + string \<times> int" where
  "parse_step item =
     (if count_char CHR ''/'' item > 1 then Inl MultipleStepSeparators
      else case split_first CHR ''/'' item of
             (_, None) \<Rightarrow> Inr (item, 1)
           | (base, Some raw) \<Rightarrow>
               (case atoi raw of
                  None \<Rightarrow> Inl StepMustBePositive
                | Some n \<Rightarrow> if n \<le> 0 then Inl StepMustBePositive else Inr (base, n)))"

text \<open>The range of a list item: everything for \<open>*\<close> and \<open>?\<close>, else \<open>a-b\<close> or a single value.\<close>

definition parse_range :: "int \<Rightarrow> int \<Rightarrow> string \<Rightarrow> field_error + int \<times> int" where
  "parse_range minimum maximum base =
     (if base = ''*'' \<or> base = ''?'' then Inr (minimum, maximum)
      else if count_char CHR ''-'' base > 1 then Inl MultipleRangeSeparators
      else case split_first CHR ''-'' base of
             (a, Some b) \<Rightarrow>
               (case atoi a of
                  None \<Rightarrow> Inl RangeStartInvalid
                | Some s \<Rightarrow> (case atoi b of None \<Rightarrow> Inl RangeEndInvalid | Some e \<Rightarrow> Inr (s, e)))
           | (_, None) \<Rightarrow>
               (case atoi base of None \<Rightarrow> Inl ValueInvalid | Some s \<Rightarrow> Inr (s, s)))"

text \<open>Bounds and step of one trimmed item, after the range check.\<close>

definition item_bounds :: "int \<Rightarrow> int \<Rightarrow> string \<Rightarrow> field_error + int \<times> int \<times> int" where
  "item_bounds minimum maximum item =
     try_then (parse_step item) (\<lambda>(base, step).
     try_then (parse_range minimum maximum base) (\<lambda>(s, e).
       if s < minimum \<or> e > maximum \<or> s > e
       then Inl (RangeOutside s e minimum maximum) else Inr (s, e, step)))"

definition parse_item ::
    "int \<Rightarrow> int \<Rightarrow> bool \<Rightarrow> string \<Rightarrow> (field_error + int list) option" where
  "parse_item minimum maximum sundaySeven raw =
     (let item = trim_space raw
      in if item = [] then Some (Inl EmptyListItem)
         else case item_bounds minimum maximum item of
                Inl err \<Rightarrow> Some (Inl err)
              | Inr (s, e, step) \<Rightarrow>
                  map_option (\<lambda>vs. Inr (map (store_value sundaySeven) vs)) (step_loop e step s []))"

text \<open>The loop over the comma-separated items; the first failing item ends it.\<close>

fun parse_items ::
    "int \<Rightarrow> int \<Rightarrow> bool \<Rightarrow> string list \<Rightarrow> int list \<Rightarrow> (field_error + int list) option" where
  "parse_items minimum maximum sundaySeven [] acc = Some (Inr acc)"
| "parse_items minimum maximum sundaySeven (raw # raws) acc =
     (case parse_item minimum maximum sundaySeven raw of
        None \<Rightarrow> None
      | Some (Inl err) \<Rightarrow> Some (Inl err)
      | Some (Inr vs) \<Rightarrow> parse_items minimum maximum sundaySeven raws (acc @ vs))"

definition parseField :: "string \<Rightarrow> int \<Rightarrow> int \<Rightarrow> bool \<Rightarrow> (field_error + fieldSet) option" where
  "parseField raw0 minimum maximum sundaySeven =
     (let raw = trim_space raw0
      in if raw = [] then Some (Inl FieldIsEmpty)
         else case parse_items minimum maximum sundaySeven (split_on CHR '','' raw) [] of
                None \<Rightarrow> None
              | Some (Inl err) \<Rightarrow> Some (Inl err)
              | Some (Inr vs) \<Rightarrow>
                  if vs = [] then Some (Inl FieldHasNoValues)
                  else Some (Inr \<lparr>field_values = vs, field_any = (raw = ''*'' \<or> raw = ''?'')\<rparr>))"

section \<open>Parsing an expression\<close>

definition named_field ::
    "string \<Rightarrow> (field_error + fieldSet) option \<Rightarrow> (schedule_error + fieldSet) option" where
  "named_field name = map_option (\<lambda>r. case r of Inl err \<Rightarrow> Inl (BadField name err) | Inr f \<Rightarrow> Inr f)"

text \<open>Sequencing for results that may also not return.\<close>

definition opt_then ::
    "('e + 'a) option \<Rightarrow> ('a \<Rightarrow> ('e + 'b) option) \<Rightarrow> ('e + 'b) option" where
  "opt_then r f = (case r of None \<Rightarrow> None | Some (Inl err) \<Rightarrow> Some (Inl err) | Some (Inr a) \<Rightarrow> f a)"

definition expand_alias :: "string \<Rightarrow> string" where
  "expand_alias expression =
     (let lower = to_lower expression
      in if lower = ''@hourly'' then ''0 * * * *''
         else if lower = ''@daily'' then ''0 0 * * *''
         else if lower = ''@weekly'' then ''0 0 * * 0''
         else if lower = ''@monthly'' then ''0 0 1 * *''
         else expression)"

definition Parse :: "string \<Rightarrow> (schedule_error + Spec) option" where
  "Parse expression0 =
     (let expression = trim_space expression0
      in if expression = [] then Some (Inl ScheduleIsEmpty)
         else if has_prefix expression ''@every '' then
           (case ParseDuration (trim_space (trim_prefix expression ''@every '')) of
              None \<Rightarrow> Some (Inl EveryTooShort)
            | Some d \<Rightarrow>
                if d < ns_minute then Some (Inl EveryTooShort)
                else Some (Inr \<lparr>Every = d, Minute = empty_field, Hour = empty_field,
                                Day = empty_field, Month = empty_field, Weekday = empty_field\<rparr>))
         else case str_fields (expand_alias expression) of
             [mi, ho, da, mo, we] \<Rightarrow>
               opt_then (named_field ''minute'' (parseField mi 0 59 False)) (\<lambda>minute.
               opt_then (named_field ''hour'' (parseField ho 0 23 False)) (\<lambda>hour.
               opt_then (named_field ''day'' (parseField da 1 31 False)) (\<lambda>day.
               opt_then (named_field ''month'' (parseField mo 1 12 False)) (\<lambda>month.
               opt_then (named_field ''weekday'' (parseField we 0 7 True)) (\<lambda>weekday.
                 Some (Inr \<lparr>Every = 0, Minute = minute, Hour = hour, Day = day,
                            Month = month, Weekday = weekday\<rparr>))))))
           | _ \<Rightarrow> Some (Inl NotFiveFields))"

section \<open>The next matching minute\<close>

definition field_has :: "fieldSet \<Rightarrow> int \<Rightarrow> bool" where
  "field_has f v \<longleftrightarrow> v \<in> set (field_values f)"

text \<open>The test of the loop body for one candidate minute.\<close>

definition minute_matches :: "Spec \<Rightarrow> location \<Rightarrow> instant \<Rightarrow> bool" where
  "minute_matches spec loc candidate =
     (let dayMatches = field_has (Day spec) (day_of loc candidate);
          weekdayMatches = field_has (Weekday spec) (weekday_of loc candidate);
          dayOfMonthAndWeekdayMatch =
            (if \<not> field_any (Day spec) \<and> \<not> field_any (Weekday spec)
             then dayMatches \<or> weekdayMatches else dayMatches \<and> weekdayMatches)
      in field_has (Minute spec) (minute_of loc candidate)
         \<and> field_has (Hour spec) (hour_of loc candidate)
         \<and> field_has (Month spec) (month_of loc candidate)
         \<and> dayOfMonthAndWeekdayMatch)"

text \<open>\<open>for i := 0; i < 5*366*24*60; i++\<close>, with the candidate advanced by a minute each time.\<close>

definition search_bound :: int where
  "search_bound = 5 * 366 * 24 * 60"

function search_loop :: "Spec \<Rightarrow> location \<Rightarrow> int \<Rightarrow> instant \<Rightarrow> instant option" where
  "search_loop spec loc i candidate =
     (if i < search_bound
      then if minute_matches spec loc candidate then Some candidate
           else search_loop spec loc (i + 1) (candidate + ns_minute)
      else None)"
  by pat_completeness auto
termination
  by (relation "measure (\<lambda>(_, _, i, _). nat (search_bound - i))") auto

declare search_loop.simps [simp del]

text \<open>
  \<open>Next\<close>. The time-zone database is not part of the repository: \<open>zones\<close> stands for
  \<open>time.LoadLocation\<close>.
\<close>

definition schedule_location :: "(string \<Rightarrow> location option) \<Rightarrow> string \<Rightarrow> location option" where
  "schedule_location zones timezone =
     (if trim_space timezone \<noteq> [] then zones (trim_space timezone) else Some utc)"

definition Next ::
    "(string \<Rightarrow> location option) \<Rightarrow> string \<Rightarrow> string \<Rightarrow> instant \<Rightarrow> (schedule_error + instant) option" where
  "Next zones expression timezone after =
     opt_then (Parse expression) (\<lambda>spec.
       if Every spec > 0 then Some (Inr (after + Every spec))
       else case schedule_location zones timezone of
              None \<Rightarrow> Some (Inl BadTimezone)
            | Some loc \<Rightarrow>
                (case search_loop spec loc 0 (truncate_minute after + ns_minute) of
                   None \<Rightarrow> Some (Inl NoMatchingTime)
                 | Some t \<Rightarrow> Some (Inr t)))"

section \<open>The step loop ends\<close>

lemma progression_insert:
  assumes "0 < s" and "v \<le> (e::int)"
  shows "{x. v \<le> x \<and> x \<le> e \<and> s dvd x - v} = insert v {x. v + s \<le> x \<and> x \<le> e \<and> s dvd x - (v + s)}"
proof -
  have far: "v + s \<le> x" if "v \<le> x" "s dvd x - v" "x \<noteq> v" for x
    using that assms(1) zdvd_imp_le [of s "x - v"] by simp
  have shift: "s dvd x - (v + s) \<longleftrightarrow> s dvd x - v" for x
  proof -
    have "x - (v + s) = x - v + (- 1) * s" by simp
    then show ?thesis by (simp only: dvd_add_times_triv_right_iff)
  qed
  show ?thesis
    unfolding shift
  proof (intro set_eqI iffI)
    fix x
    assume "x \<in> {x. v \<le> x \<and> x \<le> e \<and> s dvd x - v}"
    then show "x \<in> insert v {x. v + s \<le> x \<and> x \<le> e \<and> s dvd x - v}"
      using far [of x] by blast
  next
    fix x
    assume "x \<in> insert v {x. v + s \<le> x \<and> x \<le> e \<and> s dvd x - v}"
    then show "x \<in> {x. v \<le> x \<and> x \<le> e \<and> s dvd x - v}"
      using assms by auto
  qed
qed

text \<open>Below \<open>int64_max - 100\<close> the addition cannot wrap, and the loop visits the progression.\<close>

lemma step_loop_progression:
  assumes "0 < s" and "s \<le> int64_max - 100" and "e \<le> 100" and "0 \<le> v"
  shows "\<exists>vs. step_loop e s v acc = Some (acc @ vs) \<and> set vs = {x. v \<le> x \<and> x \<le> e \<and> s dvd x - v}"
  using assms(4)
proof (induction "nat (e + 1 - v)" arbitrary: v acc rule: less_induct)
  case less
  show ?case
  proof (cases "v \<le> e")
    case False
    then have "step_loop e s v acc = Some (acc @ [])" by (subst step_loop.simps) simp
    with False show ?thesis by (intro exI [of _ "[]"]) auto
  next
    case True
    have "wrap64 (v + s) = v + s"
      using assms True less.prems by (intro wrap64_id) (auto simp: int64_range_def int64_min_def int64_max_def)
    then have step: "step_loop e s v acc = step_loop e s (v + s) (acc @ [v])"
      using True by (subst step_loop.simps) simp
    obtain vs where vs: "step_loop e s (v + s) (acc @ [v]) = Some ((acc @ [v]) @ vs)"
        "set vs = {x. v + s \<le> x \<and> x \<le> e \<and> s dvd x - (v + s)}"
      using less.hyps [of "v + s" "acc @ [v]"] assms True less.prems by auto
    have "set (v # vs) = {x. v \<le> x \<and> x \<le> e \<and> s dvd x - v}"
      using vs(2) progression_insert [OF assms(1) True] by simp
    with step vs(1) show ?thesis by (intro exI [of _ "v # vs"]) simp
  qed
qed

text \<open>
  Above, the addition wraps: every second visited value is far below zero, and the others
  descend until the sum no longer overflows.
\<close>

lemma step_loop_wrapping:
  assumes "int64_max - 100 < s" and "s \<le> int64_max" and "e \<le> 100" and "- 101 \<le> v"
  shows "\<exists>vs. step_loop e s v acc = Some vs"
  using assms(4)
proof (induction "nat (v + 101)" arbitrary: v acc rule: less_induct)
  case less
  show ?case
  proof (cases "v \<le> e")
    case False
    then have "step_loop e s v acc = Some acc" by (subst step_loop.simps) simp
    then show ?thesis by simp
  next
    case True
    note unroll = step_loop.simps
    show ?thesis
    proof (cases "v + s \<le> int64_max")
      case fits: True
      then have "wrap64 (v + s) = v + s"
        using assms less.prems by (intro wrap64_id) (auto simp: int64_range_def int64_min_def int64_max_def)
      moreover have "e < v + s" using assms less.prems by (simp add: int64_max_def)
      ultimately have "step_loop e s v acc = Some (acc @ [v])"
        using True by (subst unroll, subst unroll) simp
      then show ?thesis by simp
    next
      case False
      define w where "w = v + s - 18446744073709551616"
      have w: "wrap64 (v + s) = w"
        using False assms True unfolding w_def by (intro wrap64_over) (auto simp: int64_max_def)
      have "w \<le> e" using False assms True less.prems by (simp add: w_def int64_max_def)
      moreover have w2: "wrap64 (w + s) = w + s"
        using False assms True less.prems
        by (intro wrap64_id) (auto simp: w_def int64_range_def int64_min_def int64_max_def)
      ultimately have eq: "step_loop e s v acc = step_loop e s (w + s) (acc @ [v] @ [w])"
        using True w by (subst unroll, subst unroll) simp
      have "nat (w + s + 101) < nat (v + 101)" "- 101 \<le> w + s"
        using False assms True less.prems by (auto simp: w_def int64_max_def)
      then show ?thesis using less.hyps [of "w + s"] eq by simp
    qed
  qed
qed

lemma step_loop_returns:
  assumes "0 < s" and "s \<le> int64_max" and "e \<le> 100" and "0 \<le> v"
  shows "\<exists>vs. step_loop e s v acc = Some vs"
proof (cases "s \<le> int64_max - 100")
  case True
  then show ?thesis using step_loop_progression [OF assms(1) _ assms(3,4)] by blast
next
  case False
  then show ?thesis using assms by (intro step_loop_wrapping) auto
qed

lemma parse_step_range: "parse_step item = Inr (base, n) \<Longrightarrow> 0 < n \<and> n \<le> int64_max"
  by (auto simp: parse_step_def int64_range_def int64_max_def split: if_splits option.splits prod.splits
      dest!: atoi_range)

lemma item_bounds_range:
  "item_bounds lo hi item = Inr (s, e, n) \<Longrightarrow> lo \<le> s \<and> s \<le> e \<and> e \<le> hi \<and> 0 < n \<and> n \<le> int64_max"
  by (auto simp: item_bounds_def try_then_Inr_iff split: if_splits prod.splits dest!: parse_step_range)

lemma parse_item_returns:
  assumes "0 \<le> lo" and "hi \<le> 100"
  shows "\<exists>r. parse_item lo hi sun raw = Some r"
proof (cases "item_bounds lo hi (trim_space raw)")
  case (Inr b)
  obtain s e n where b: "b = (s, e, n)" by (cases b)
  with Inr item_bounds_range have "lo \<le> s" "e \<le> hi" "0 < n" "n \<le> int64_max" by blast+
  then obtain vs where "step_loop e n s [] = Some vs"
    using step_loop_returns [of n e s] assms by fastforce
  with Inr b show ?thesis by (simp add: parse_item_def Let_def)
qed (simp add: parse_item_def Let_def)

lemma parse_items_returns:
  assumes "0 \<le> lo" and "hi \<le> 100"
  shows "\<exists>r. parse_items lo hi sun raws acc = Some r"
proof (induction raws arbitrary: acc)
  case (Cons raw raws)
  obtain r where "parse_item lo hi sun raw = Some r" using parse_item_returns [OF assms] by blast
  with Cons show ?case by (cases r) auto
qed simp

lemma parseField_returns:
  assumes "0 \<le> lo" and "hi \<le> 100"
  shows "\<exists>r. parseField raw lo hi sun = Some r"
proof -
  obtain r where "parse_items lo hi sun (split_on CHR '','' (trim_space raw)) [] = Some r"
    using parse_items_returns [OF assms] by blast
  then show ?thesis by (cases r) (auto simp: parseField_def Let_def)
qed

lemma opt_then_returns:
  assumes "\<exists>r. x = Some r" and "\<And>a. \<exists>r. f a = Some r"
  shows "\<exists>r. opt_then x f = Some r"
  using assms by (auto simp: opt_then_def split: sum.splits)

lemma named_field_returns: "\<exists>r. x = Some r \<Longrightarrow> \<exists>r. named_field name x = Some r"
  by (auto simp: named_field_def)

lemma Parse_returns: "\<exists>r. Parse expression = Some r"
proof -
  have fields5: "\<exists>r. opt_then (named_field ''minute'' (parseField mi 0 59 False)) (\<lambda>minute.
               opt_then (named_field ''hour'' (parseField ho 0 23 False)) (\<lambda>hour.
               opt_then (named_field ''day'' (parseField da 1 31 False)) (\<lambda>day.
               opt_then (named_field ''month'' (parseField mo 1 12 False)) (\<lambda>month.
               opt_then (named_field ''weekday'' (parseField we 0 7 True)) (\<lambda>weekday.
                 Some (Inr \<lparr>Every = 0, Minute = minute, Hour = hour, Day = day,
                            Month = month, Weekday = weekday\<rparr>)))))) = Some r" for mi ho da mo we
    by (intro opt_then_returns named_field_returns parseField_returns) auto
  show ?thesis
    using fields5 by (auto simp: Parse_def Let_def split: option.splits list.splits)
qed

section \<open>The search\<close>

lemma search_loop_Some:
  assumes "search_loop spec loc i c = Some t"
  shows "\<exists>k\<ge>0. i + k < search_bound \<and> t = c + k * ns_minute \<and> minute_matches spec loc t
    \<and> (\<forall>j. 0 \<le> j \<and> j < k \<longrightarrow> \<not> minute_matches spec loc (c + j * ns_minute))"
  using assms
proof (induction spec loc i c rule: search_loop.induct)
  case (1 spec loc i c)
  show ?case
  proof (cases "i < search_bound \<and> \<not> minute_matches spec loc c")
    case False
    with "1.prems" show ?thesis
      by (subst (asm) search_loop.simps) (auto split: if_splits intro!: exI [of _ 0])
  next
    case True
    with "1.prems" have "search_loop spec loc (i + 1) (c + ns_minute) = Some t"
      by (subst (asm) search_loop.simps) simp
    with "1.IH" True obtain k where k: "k \<ge> 0" "i + 1 + k < search_bound"
        "t = c + ns_minute + k * ns_minute" "minute_matches spec loc t"
        "\<forall>j. 0 \<le> j \<and> j < k \<longrightarrow> \<not> minute_matches spec loc (c + ns_minute + j * ns_minute)"
      by blast
    have "\<not> minute_matches spec loc (c + j * ns_minute)" if j: "0 \<le> j" "j < k + 1" for j
    proof (cases "j = 0")
      case False
      with j k(5) have "\<not> minute_matches spec loc (c + ns_minute + (j - 1) * ns_minute)" by simp
      then show ?thesis by (simp add: algebra_simps)
    qed (use True in simp)
    with k show ?thesis by (intro exI [of _ "k + 1"]) (auto simp: algebra_simps)
  qed
qed

lemma search_loop_None_iff:
  "search_loop spec loc i c = None \<longleftrightarrow>
     (\<forall>k\<ge>0. i + k < search_bound \<longrightarrow> \<not> minute_matches spec loc (c + k * ns_minute))"
proof (induction spec loc i c rule: search_loop.induct)
  case (1 spec loc i c)
  show ?case
  proof (cases "i < search_bound \<and> \<not> minute_matches spec loc c")
    case False
    then show ?thesis
      by (subst search_loop.simps) (auto split: if_splits intro!: exI [of _ 0])
  next
    case True
    then have eq: "search_loop spec loc i c = search_loop spec loc (i + 1) (c + ns_minute)"
      by (subst search_loop.simps) simp
    have shift: "c + ns_minute + k * ns_minute = c + (k + 1) * ns_minute" for k
      by (simp add: algebra_simps)
    show ?thesis
      unfolding eq "1.IH" [OF conjunct1 [OF True] conjunct2 [OF True]] shift
    proof
      assume all: "\<forall>k\<ge>0. i + 1 + k < search_bound \<longrightarrow> \<not> minute_matches spec loc (c + (k + 1) * ns_minute)"
      show "\<forall>k\<ge>0. i + k < search_bound \<longrightarrow> \<not> minute_matches spec loc (c + k * ns_minute)"
      proof (intro allI impI)
        fix k :: int
        assume k: "k \<ge> 0" "i + k < search_bound"
        show "\<not> minute_matches spec loc (c + k * ns_minute)"
          using True k all [rule_format, of "k - 1"] by (cases "k = 0") auto
      qed
    next
      assume "\<forall>k\<ge>0. i + k < search_bound \<longrightarrow> \<not> minute_matches spec loc (c + k * ns_minute)"
      then show "\<forall>k\<ge>0. i + 1 + k < search_bound \<longrightarrow> \<not> minute_matches spec loc (c + (k + 1) * ns_minute)"
        by (metis add.assoc add.commute add_increasing zero_le_one)
    qed
  qed
qed

lemma Next_cases:
  assumes "Next zones expression timezone after = Some (Inr t)"
  obtains (every) spec where "Parse expression = Some (Inr spec)" "Every spec > 0" "t = after + Every spec"
  | (cron) spec loc where "Parse expression = Some (Inr spec)" "Every spec \<le> 0"
      "schedule_location zones timezone = Some loc"
      "search_loop spec loc 0 (truncate_minute after + ns_minute) = Some t"
  using assms
  by (auto simp: Next_def opt_then_def split: option.splits sum.splits if_splits)

text \<open>Minutes between two instants are whole steps from the first minute after \<open>after\<close>.\<close>

lemma minute_steps:
  assumes "ns_minute dvd u" and "after < u"
  shows "\<exists>j\<ge>0. u = truncate_minute after + ns_minute + j * ns_minute"
proof -
  obtain q where q: "u = ns_minute * q" using assms(1) by blast
  obtain p where p: "truncate_minute after = ns_minute * p" using truncate_minute_dvd by blast
  have "ns_minute * p < ns_minute * q"
    using truncate_minute_bounds [of after] assms(2) p q by linarith
  then have "p + 1 \<le> q" by (simp add: ns_units)
  then show ?thesis using p q by (intro exI [of _ "q - p - 1"]) (simp add: algebra_simps)
qed

section \<open>What a field denotes\<close>

text \<open>The values of one item: every \<open>n\<close>-th value from the start of its range to the end.\<close>

definition item_values :: "int \<Rightarrow> int \<Rightarrow> string \<Rightarrow> int set" where
  "item_values lo hi raw =
     {x. \<exists>s e n. item_bounds lo hi (trim_space raw) = Inr (s, e, n) \<and> s \<le> x \<and> x \<le> e \<and> n dvd x - s}"

text \<open>A step so large that adding it to a value of the field can overflow 64 bits.\<close>

definition wrapping_step :: "int \<Rightarrow> int \<Rightarrow> string \<Rightarrow> bool" where
  "wrapping_step lo hi raw \<longleftrightarrow>
     (\<exists>s e n. item_bounds lo hi (trim_space raw) = Inr (s, e, n) \<and> int64_max - 100 < n)"

lemma parse_item_values:
  assumes "parse_item lo hi sun raw = Some (Inr vs)" and "\<not> wrapping_step lo hi raw"
    and "0 \<le> lo" and "hi \<le> 100"
  shows "set vs = store_value sun ` item_values lo hi raw"
proof -
  obtain s e n ws where b: "item_bounds lo hi (trim_space raw) = Inr (s, e, n)"
      "step_loop e n s [] = Some ws" "vs = map (store_value sun) ws"
    using assms(1) by (auto simp: parse_item_def Let_def split: if_splits sum.splits)
  have "set ws = {x. s \<le> x \<and> x \<le> e \<and> n dvd x - s}"
    using step_loop_progression [of n e s "[]"] item_bounds_range [OF b(1)] assms(2-4) b
    by (auto simp: wrapping_step_def)
  with b show ?thesis by (auto simp: item_values_def)
qed

lemma parse_items_values:
  assumes "parse_items lo hi sun raws acc = Some (Inr vs)"
    and "\<forall>raw \<in> set raws. \<not> wrapping_step lo hi raw" and "0 \<le> lo" and "hi \<le> 100"
  shows "set vs = set acc \<union> store_value sun ` (\<Union>raw \<in> set raws. item_values lo hi raw)"
  using assms(1,2)
proof (induction raws arbitrary: acc)
  case (Cons raw raws)
  then obtain ws where ws: "parse_item lo hi sun raw = Some (Inr ws)"
      "parse_items lo hi sun raws (acc @ ws) = Some (Inr vs)"
    by (auto split: option.splits sum.splits)
  with Cons.IH [OF ws(2)] Cons.prems(2) parse_item_values [OF ws(1) _ assms(3,4)]
  show ?case by auto
qed simp

section \<open>Properties\<close>

text \<open>
  Scheduling always returns: for every expression, time zone and instant, parsing and the
  search end with a time or an error, although the step loop of a field can wrap around.
\<close>

theorem Next_returns: "\<exists>r. Next zones expression timezone after = Some r"
  unfolding Next_def
  by (rule opt_then_returns [OF Parse_returns]) (auto split: option.splits)

text \<open>
  C34: The time returned for a cron expression is the first matching one: it lies strictly after
  the given instant, is a whole minute, matches all fields in the task's time zone, and no whole
  minute in between matches.
\<close>

theorem Next_first_match:
  assumes "Next zones expression timezone after = Some (Inr t)"
    and "Parse expression = Some (Inr spec)" and "Every spec = 0"
  shows "\<exists>loc. schedule_location zones timezone = Some loc \<and> after < t \<and> ns_minute dvd t
    \<and> minute_matches spec loc t
    \<and> (\<forall>u. after < u \<and> u < t \<and> ns_minute dvd u \<longrightarrow> \<not> minute_matches spec loc u)"
  using assms(1)
proof (cases rule: Next_cases)
  case (every spec')
  with assms show ?thesis by simp
next
  case (cron spec' loc)
  with assms(2) have spec: "spec' = spec" by simp
  let ?c = "truncate_minute after + ns_minute"
  obtain k where k: "k \<ge> 0" "t = ?c + k * ns_minute" "minute_matches spec loc t"
      "\<forall>j. 0 \<le> j \<and> j < k \<longrightarrow> \<not> minute_matches spec loc (?c + j * ns_minute)"
    using search_loop_Some [OF cron(4)] spec by blast
  have after: "after < t"
  proof -
    have "0 \<le> k * ns_minute" using k(1) by (simp add: ns_units)
    with k(2) truncate_minute_bounds [of after] show ?thesis by linarith
  qed
  have whole: "ns_minute dvd t"
    using k(2) truncate_minute_dvd [of after] by simp
  have none: "\<not> minute_matches spec loc u" if u: "after < u" "u < t" "ns_minute dvd u" for u
  proof -
    obtain j where j: "j \<ge> 0" "u = ?c + j * ns_minute" using minute_steps u by blast
    have "j * ns_minute < k * ns_minute" using u(2) j(2) k(2) by linarith
    then have "j < k" by (simp add: ns_units)
    with j k(4) show ?thesis by simp
  qed
  show ?thesis
    using cron(3) after whole k(3) none by blast
qed

text \<open>The parsed form of \<open>*/5 * * * *\<close>, used as a concrete instance.\<close>

definition all_of :: "int list \<Rightarrow> fieldSet" where
  "all_of vs = \<lparr>field_values = vs, field_any = True\<rparr>"

definition every_five_minutes :: Spec where
  "every_five_minutes =
     \<lparr>Every = 0, Minute = \<lparr>field_values = [0, 5, 10, 15, 20, 25, 30, 35, 40, 45, 50, 55], field_any = False\<rparr>,
      Hour = all_of [0..23], Day = all_of [1..31], Month = all_of [1..12], Weekday = all_of ([0..6] @ [0])\<rparr>"

theorem Next_first_match_witness:
  "\<exists>loc. Next (\<lambda>_. None) ''*/5 * * * *'' '''' 1 = Some (Inr 300000000000)
     \<and> minute_matches every_five_minutes loc 300000000000
     \<and> \<not> minute_matches every_five_minutes loc 60000000000"
proof -
  have n: "Next (\<lambda>_. None) ''*/5 * * * *'' '''' 1 = Some (Inr 300000000000)" by code_simp
  have p: "Parse ''*/5 * * * *'' = Some (Inr every_five_minutes)" by code_simp
  have e: "Every every_five_minutes = 0" by code_simp
  from Next_first_match [OF n p e] obtain loc where
    "minute_matches every_five_minutes loc 300000000000"
    "\<forall>u. 1 < u \<and> u < 300000000000 \<and> ns_minute dvd u \<longrightarrow> \<not> minute_matches every_five_minutes loc u"
    by blast
  then have "minute_matches every_five_minutes loc 300000000000
      \<and> \<not> minute_matches every_five_minutes loc 60000000000"
    by (simp add: ns_units)
  with n show ?thesis by blast
qed

text \<open>
  A cron field denotes what its text says: the values of the parsed field are exactly those
  of its items (every \<open>n\<close>-th value of a range, a list, \<open>*\<close>), with 7 read as Sunday where the
  field allows it, provided no step is so large that the addition overflows.
\<close>

theorem parseField_denotes:
  assumes "parseField raw lo hi sun = Some (Inr f)" and "0 \<le> lo" and "hi \<le> 100"
    and "\<forall>item \<in> set (split_on CHR '','' (trim_space raw)). \<not> wrapping_step lo hi item"
  shows "set (field_values f) =
      store_value sun ` (\<Union>item \<in> set (split_on CHR '','' (trim_space raw)). item_values lo hi item)
    \<and> (\<forall>v \<in> set (field_values f). 0 \<le> v \<and> v \<le> hi)"
proof
  obtain vs where vs: "parse_items lo hi sun (split_on CHR '','' (trim_space raw)) [] = Some (Inr vs)"
      "field_values f = vs"
    using assms(1) by (auto simp: parseField_def Let_def split: if_splits option.splits sum.splits)
  show "set (field_values f) =
      store_value sun ` (\<Union>item \<in> set (split_on CHR '','' (trim_space raw)). item_values lo hi item)"
    using parse_items_values [OF vs(1) assms(4,2,3)] vs(2) by simp
  moreover have "lo \<le> x \<and> x \<le> hi" if "x \<in> item_values lo hi item" for x item
    using that by (auto simp: item_values_def dest!: item_bounds_range)
  ultimately show "\<forall>v \<in> set (field_values f). 0 \<le> v \<and> v \<le> hi"
    using assms(2) by (fastforce simp: store_value_def)
qed

theorem parseField_denotes_witness:
  "\<exists>f. parseField ''1-5/2,7'' 0 7 True = Some (Inr f) \<and> set (field_values f) = {0, 1, 3, 5}
     \<and> (\<forall>v \<in> set (field_values f). 0 \<le> v \<and> v \<le> 7)"
proof -
  let ?f = "\<lparr>field_values = [1, 3, 5, 0], field_any = False\<rparr>"
  have p: "parseField ''1-5/2,7'' 0 7 True = Some (Inr ?f)" by code_simp
  have items: "split_on CHR '','' (trim_space ''1-5/2,7'') = [''1-5/2'', ''7'']" by code_simp
  have bounds: "item_bounds 0 7 (trim_space ''1-5/2'') = Inr (1, 5, 2)"
      "item_bounds 0 7 (trim_space ''7'') = Inr (7, 7, 1)"
    by code_simp+
  have small: "\<forall>item \<in> set (split_on CHR '','' (trim_space ''1-5/2,7'')). \<not> wrapping_step 0 7 item"
    unfolding items by (simp add: wrapping_step_def bounds int64_max_def)
  have "\<forall>v \<in> set (field_values ?f). 0 \<le> v \<and> v \<le> 7"
    by (rule conjunct2 [OF parseField_denotes [OF p _ _ small]]) simp_all
  with p show ?thesis by (intro exI [of _ ?f]) auto
qed

text \<open>
  The largest accepted step breaks that meaning. The field \<open>59/9223372036854775807\<close> names
  the minute 59 alone, but the addition wraps around and the parsed field also has every other
  odd minute.
\<close>

theorem step_overflow_adds_minutes:
  "\<exists>f. parseField ''59/9223372036854775807'' 0 59 False = Some (Inr f)
     \<and> item_values 0 59 ''59/9223372036854775807'' = {59}
     \<and> field_has f 59 \<and> field_has f 57 \<and> field_has f 55 \<and> field_has f 3 \<and> field_has f 1"
proof -
  have returned: "case parseField ''59/9223372036854775807'' 0 59 False of
      Some (Inr f) \<Rightarrow> list_all (field_has f) [59, 57, 55, 3, 1] | _ \<Rightarrow> False"
    by code_simp
  have "item_bounds 0 59 (trim_space ''59/9223372036854775807'') = Inr (59, 59, 9223372036854775807)"
    by code_simp
  then have "item_values 0 59 ''59/9223372036854775807'' = {59}"
    by (auto simp: item_values_def)
  with returned show ?thesis
    by (auto split: option.splits sum.splits)
qed

text \<open>The fields of \<open>0 0 29 2 *\<close>, midnight of every February 29.\<close>

definition leap_day_spec :: Spec where
  "leap_day_spec =
     \<lparr>Every = 0, Minute = \<lparr>field_values = [0], field_any = False\<rparr>,
      Hour = \<lparr>field_values = [0], field_any = False\<rparr>, Day = \<lparr>field_values = [29], field_any = False\<rparr>,
      Month = \<lparr>field_values = [2], field_any = False\<rparr>, Weekday = all_of ([0..6] @ [0])\<rparr>"

lemma february_29:
  assumes "civil_of_days n = (y, 2, 29)"
  shows "leap_year y \<and> n + 719468 = year_start (y - 1) + 365"
proof -
  have "valid_civil y 2 29" "days_of_civil y 2 29 = n"
    using civil_of_days_valid [OF assms] by auto
  then show ?thesis
    by (auto simp: valid_civil_def days_in_month_def days_of_civil_def split: if_splits)
qed

lemma no_leap_day_2096_2101:
  assumes "46081 \<le> n" and "n \<le> 47912"
  shows "snd (civil_of_days n) \<noteq> (2, 29)"
proof
  assume "snd (civil_of_days n) = (2, 29)"
  then obtain y where "civil_of_days n = (y, 2, 29)" by (metis prod.collapse)
  then have y: "leap_year y" "n + 719468 = year_start (y - 1) + 365"
    using february_29 by auto
  have "2096 \<le> y" "y \<le> 2101"
    using assms y(2) year_start_bounds [of "y - 1"] by simp_all
  moreover have "y \<noteq> 2096"
    using assms(1) y(2) by (auto simp: year_start_def)
  ultimately have "y = 2097 \<or> y = 2098 \<or> y = 2099 \<or> y = 2100 \<or> y = 2101" by presburger
  with y(1) show False by (auto simp: leap_year_def)
qed

text \<open>
  Five years are not enough to find every valid cron expression. The expression
  \<open>0 0 29 2 *\<close> parses, but from 2096-03-01 the search reports that no time matches: 2100 is no
  leap year, so the next February 29 is eight years away.
\<close>

theorem leap_day_not_found:
  "Parse ''0 0 29 2 *'' = Some (Inr leap_day_spec)
   \<and> Next zones ''0 0 29 2 *'' '''' (46081 * 86400 * ns_second) = Some (Inl NoMatchingTime)
   \<and> minute_matches leap_day_spec utc (days_of_civil 2104 2 29 * 86400 * ns_second)"
proof -
  let ?after = "46081 * 86400 * ns_second"
  have p: "Parse ''0 0 29 2 *'' = Some (Inr leap_day_spec)" by code_simp
  have e: "Every leap_day_spec = 0" by (simp add: leap_day_spec_def)
  have tr: "truncate_minute ?after = ?after" by (simp add: truncate_minute_def ns_units)
  have "\<not> minute_matches leap_day_spec utc (?after + ns_minute + k * ns_minute)"
    if k: "k \<ge> 0" "k < search_bound" for k
  proof
    assume m: "minute_matches leap_day_spec utc (?after + ns_minute + k * ns_minute)"
    define n where "n = day_number utc (?after + ns_minute + k * ns_minute)"
    have sec: "(?after + ns_minute + k * ns_minute) div ns_second = 3981398460 + 60 * k"
    proof -
      have "?after + ns_minute + k * ns_minute = ns_second * (3981398460 + 60 * k)"
        by (simp add: ns_units algebra_simps)
      then show ?thesis by (simp add: ns_units)
    qed
    have "46081 \<le> n" "n \<le> 47912"
      using k sec by (simp_all add: n_def day_number_def local_seconds_def utc_def search_bound_def)
    then have "snd (civil_of_days n) \<noteq> (2, 29)" by (rule no_leap_day_2096_2101)
    with m show False
      by (cases "civil_of_days n")
        (auto simp: minute_matches_def leap_day_spec_def all_of_def field_has_def month_of_def day_of_def n_def)
  qed
  then have "search_loop leap_day_spec utc 0 (?after + ns_minute) = None"
    by (simp add: search_loop_None_iff)
  with p e tr have "Next zones ''0 0 29 2 *'' '''' ?after = Some (Inl NoMatchingTime)"
    by (simp add: Next_def opt_then_def schedule_location_def trim_space_def trim_left_space_def
        trim_right_space_def skip_runes.simps)
  moreover have "minute_matches leap_day_spec utc (days_of_civil 2104 2 29 * 86400 * ns_second)"
    by code_simp
  ultimately show ?thesis using p by blast
qed

end
