(* ===== verification/Json_Doc.thy ===== *)
theory Json_Doc
  imports Go_Time "HOL-Library.List_Lexorder" "HOL-Library.Char_ord"
begin

text \<open>
  JSON documents as the code sees them through \<open>encoding/json\<close>, and the redaction of secrets
  before a document is stored, internal/security/security.go. A raw message is \<open>Some\<close> document,
  or \<open>None\<close> when its bytes are not valid JSON. The text syntax itself (white space, escapes) is
  not modelled. A number literal is \<open>JNum p k\<close>, the rational \<open>p / (k + 1)\<close>: an integer literal has
  \<open>k = 0\<close>, a literal with a fraction or an exponent \<open>k > 0\<close>, also where its value is an integer.
\<close>

datatype json =
    JNull
  | JBool bool
  | JNum int nat
  | JStr string
  | JArr "json list"
  | JObj "(string \<times> json) list"

type_synonym raw_message = "json option"

section \<open>Struct fields\<close>

text \<open>
  Decoding an object into a struct matches keys up to the case folding of \<open>encoding/json\<close>: the
  ASCII letters, the Kelvin sign as k and the long s as s. \<open>null\<close> leaves a scalar as it is, a later
  entry overwrites an earlier one, and a value of the wrong type is an error (\<open>None\<close>), as is a
  document that is no object. A raw field keeps the last entry, \<open>null\<close> included.
\<close>

fun fold_name :: "string \<Rightarrow> string" where
  "fold_name [] = []"
| "fold_name (c # cs) =
     (if c = CHR 0xC5 \<and> cs \<noteq> [] \<and> hd cs = CHR 0xBF then CHR ''s'' # fold_name (tl cs)
      else if c = CHR 0xE2 \<and> take 2 cs = [CHR 0x84, CHR 0xAA] then CHR ''k'' # fold_name (drop 2 cs)
      else if CHR ''A'' \<le> c \<and> c \<le> CHR ''Z'' then char_of (of_char c + 32 :: nat) # fold_name cs
      else c # fold_name cs)"

definition json_entry :: "string \<Rightarrow> (string \<times> json) list \<Rightarrow> json option" where
  "json_entry name kvs = map_option snd (find (\<lambda>(k, _). fold_name k = fold_name name) (rev kvs))"

definition raw_field :: "string \<Rightarrow> json \<Rightarrow> json option option" where
  "raw_field name d =
     (case d of JObj kvs \<Rightarrow> Some (json_entry name kvs) | JNull \<Rightarrow> Some None | _ \<Rightarrow> None)"

fun scalar_entries :: "(json \<Rightarrow> 'a option) \<Rightarrow> string \<Rightarrow> 'a \<Rightarrow> (string \<times> json) list \<Rightarrow> 'a option" where
  "scalar_entries dec name acc [] = Some acc"
| "scalar_entries dec name acc ((k, v) # kvs) =
     (if fold_name k = fold_name name \<and> v \<noteq> JNull
      then (case dec v of None \<Rightarrow> None | Some a \<Rightarrow> scalar_entries dec name a kvs)
      else scalar_entries dec name acc kvs)"

definition scalar_field :: "(json \<Rightarrow> 'a option) \<Rightarrow> 'a \<Rightarrow> string \<Rightarrow> json \<Rightarrow> 'a option" where
  "scalar_field dec zero name d =
     (case d of JObj kvs \<Rightarrow> scalar_entries dec name zero kvs | JNull \<Rightarrow> Some zero | _ \<Rightarrow> None)"

fun as_string :: "json \<Rightarrow> string option" where
  "as_string (JStr s) = Some s"
| "as_string _ = None"

fun as_bool :: "json \<Rightarrow> bool option" where
  "as_bool (JBool b) = Some b"
| "as_bool _ = None"

fun as_int :: "json \<Rightarrow> int option" where
  "as_int (JNum p k) = (if k = 0 \<and> int64_range p then Some p else None)"
| "as_int _ = None"

definition int_field :: "string \<Rightarrow> json \<Rightarrow> int option" where
  "int_field = scalar_field as_int 0"

text \<open>
  A field that is an array; \<open>Some None\<close> is the nil slice of a missing entry or \<open>null\<close>. The last
  entry decides.
\<close>

fun decode_list :: "(json \<Rightarrow> 'a option) \<Rightarrow> json list \<Rightarrow> 'a list option" where
  "decode_list dec [] = Some []"
| "decode_list dec (x # xs) =
     (case dec x of None \<Rightarrow> None | Some a \<Rightarrow> map_option (Cons a) (decode_list dec xs))"

definition array_field :: "(json \<Rightarrow> 'a option) \<Rightarrow> string \<Rightarrow> json \<Rightarrow> 'a list option option" where
  "array_field dec name d =
     (case raw_field name d of
        None \<Rightarrow> None
      | Some None \<Rightarrow> Some None
      | Some (Some JNull) \<Rightarrow> Some None
      | Some (Some (JArr xs)) \<Rightarrow> map_option Some (decode_list dec xs)
      | Some (Some _) \<Rightarrow> None)"

definition str_field :: "string \<Rightarrow> json \<Rightarrow> string option" where
  "str_field = scalar_field as_string []"

definition bool_field :: "string \<Rightarrow> json \<Rightarrow> bool option" where
  "bool_field = scalar_field as_bool False"

section \<open>Decoding into a map\<close>

text \<open>
  \<open>json.Unmarshal\<close> into \<open>map[string]any\<close> keeps the last of equal keys, and \<open>json.Marshal\<close>
  writes the keys in ascending order.
\<close>

fun put_entry :: "string \<Rightarrow> 'v \<Rightarrow> (string \<times> 'v) list \<Rightarrow> (string \<times> 'v) list" where
  "put_entry k v [] = [(k, v)]"
| "put_entry k v ((k', v') # m) =
     (if k = k' then (k, v) # m
      else if k < k' then (k, v) # (k', v') # m
      else (k', v') # put_entry k v m)"

fun object_map :: "(string \<times> 'v) list \<Rightarrow> (string \<times> 'v) list \<Rightarrow> (string \<times> 'v) list" where
  "object_map m [] = m"
| "object_map m ((k, v) # kvs) = object_map (put_entry k v m) kvs"

text \<open>
  A number becomes a \<open>float64\<close>, which \<open>json.Marshal\<close> writes as an integer where it is one of less
  than 22 digits.
\<close>

definition float_number :: "int \<Rightarrow> nat \<Rightarrow> json" where
  "float_number p k =
     (if p = 0 then JNum 0 0
      else (let (a, b) = fl64 \<bar>p\<bar> (int k + 1) in
            if b dvd a
            then (let v = sgn p * (a div b) in if \<bar>v\<bar> < 10 ^ 21 then JNum v 0 else JNum (2 * v) 1)
            else JNum (sgn p * a) (nat (b - 1))))"

fun decode_any :: "json \<Rightarrow> json"
  and decode_entries :: "(string \<times> json) list \<Rightarrow> (string \<times> json) list"
  and decode_items :: "json list \<Rightarrow> json list" where
  "decode_any (JObj kvs) = JObj (object_map [] (decode_entries kvs))"
| "decode_any (JArr xs) = JArr (decode_items xs)"
| "decode_any (JNum p k) = float_number p k"
| "decode_any d = d"
| "decode_entries [] = []"
| "decode_entries ((k, v) # kvs) = (k, decode_any v) # decode_entries kvs"
| "decode_items [] = []"
| "decode_items (x # xs) = decode_any x # decode_items xs"

section \<open>Redaction\<close>

definition secretKeys :: "string list" where
  "secretKeys = [''token'', ''secret'', ''password'', ''authorization'', ''private_key'', ''api_key'']"

definition usage_counters :: "string list" where
  "usage_counters = [''input_tokens'', ''output_tokens'', ''total_tokens'', ''cached_tokens'',
     ''cache_creation_input_tokens'', ''cache_read_input_tokens'']"

text \<open>A nonnegative integer counter, \<open>count >= 0 && math.Trunc(count) == count\<close>.\<close>

fun natural_count :: "json \<Rightarrow> bool" where
  "natural_count (JNum p k) = (0 \<le> p \<and> p mod (int k + 1) = 0)"
| "natural_count _ = False"

definition kept_counter :: "string \<Rightarrow> json \<Rightarrow> bool" where
  "kept_counter key v \<longleftrightarrow> to_lower key \<in> set usage_counters \<and> natural_count v"

definition hidden_key :: "string \<Rightarrow> bool" where
  "hidden_key key \<longleftrightarrow> list_ex (contains_str (to_lower key)) secretKeys"

definition redacted :: json where
  "redacted = JStr ''[REDACTED]''"

fun redactValue :: "json \<Rightarrow> json"
  and redact_entries :: "(string \<times> json) list \<Rightarrow> (string \<times> json) list"
  and redact_items :: "json list \<Rightarrow> json list" where
  "redactValue (JObj kvs) = JObj (redact_entries kvs)"
| "redactValue (JArr xs) = JArr (redact_items xs)"
| "redactValue d = d"
| "redact_entries [] = []"
| "redact_entries ((key, v) # kvs) =
     (key, if kept_counter key v then v
           else if hidden_key key then redacted else redactValue v) # redact_entries kvs"
| "redact_items [] = []"
| "redact_items (x # xs) = redactValue x # redact_items xs"

definition RedactJSON :: "raw_message \<Rightarrow> raw_message" where
  "RedactJSON raw = (case raw of None \<Rightarrow> None | Some d \<Rightarrow> Some (redactValue (decode_any d)))"

section \<open>Properties of redaction\<close>

text \<open>The specification: nowhere in the document does a secret key carry anything but the marker.\<close>

fun clean :: "json \<Rightarrow> bool"
  and clean_entries :: "(string \<times> json) list \<Rightarrow> bool"
  and clean_items :: "json list \<Rightarrow> bool" where
  "clean (JObj kvs) = clean_entries kvs"
| "clean (JArr xs) = clean_items xs"
| "clean d = True"
| "clean_entries [] = True"
| "clean_entries ((key, v) # kvs) =
     ((if hidden_key key then v = redacted \<or> kept_counter key v else clean v) \<and> clean_entries kvs)"
| "clean_items [] = True"
| "clean_items (x # xs) = (clean x \<and> clean_items xs)"

lemma natural_count_clean: "natural_count v \<Longrightarrow> clean v"
  by (cases v) auto

lemma redact_clean:
  "clean (redactValue d)"
  "clean_entries (redact_entries kvs)"
  "clean_items (redact_items xs)"
  by (induction d and kvs and xs rule: redactValue_redact_entries_redact_items.induct)
    (auto simp: kept_counter_def natural_count_clean redacted_def)

lemma natural_count_redactValue [simp]: "natural_count (redactValue v) = natural_count v"
  by (cases v) auto

lemma not_kept_redacted [simp]: "\<not> kept_counter k redacted"
  by (simp add: kept_counter_def redacted_def)

lemma redact_of_clean:
  "clean d \<Longrightarrow> redactValue d = d"
  "clean_entries kvs \<Longrightarrow> redact_entries kvs = kvs"
  "clean_items xs \<Longrightarrow> redact_items xs = xs"
  by (induction d and kvs and xs rule: redactValue_redact_entries_redact_items.induct)
    (auto split: if_splits)


end
