(* ===== verification/Wire_Protocol.thy ===== *)
theory Wire_Protocol
  imports Wio_Prelude Json_Doc
begin

text \<open>
  The messages that the control plane and the Agent exchange, internal/protocol: the data types
  used by the modelled components and the kinds of operation that an interruption may stop.
  A time is an instant, a JSON payload is a raw message.
\<close>

record StreamEvent =
  EventID :: string
  StreamID :: string
  Sequence :: int
  EventKind :: string
  OccurredAt :: instant
  EventPayload :: raw_message

record OperationResult =
  ResultOperationID :: string
  ResultStatus :: string
  ResultMessage :: string
  ResultData :: "raw_message option" \<comment> \<open>\<open>None\<close>: no bytes; \<open>Some None\<close>: bytes that are not JSON\<close>

record OperationInterruptCommand =
  TargetOperationID :: string
  TargetKind :: string

definition CanInterruptOperation :: "string \<Rightarrow> bool" where
  "CanInterruptOperation kind \<longleftrightarrow>
     kind \<in> {''git.workspace.inspect'', ''inventory.scan'', ''workspace.files'', ''workspace.changes'',
             ''workspace.file.preview'', ''workspace.diff.preview''}"

section \<open>Turns\<close>

text \<open>
  The commands that start, rewrite and fork a Codex turn, as \<open>json.Marshal\<close> writes them; a field
  with \<open>omitempty\<close> is left out at its zero value.
\<close>

record StartTurnCommand =
  TurnThreadID :: string
  TurnCodexThread :: string
  TurnWorkspaceID :: string
  TurnWorkspace :: string
  TurnPrompt :: string
  TurnImages :: "string list" \<comment> \<open>the data URLs of the \<open>TurnImage\<close>s\<close>
  TurnModel :: string
  TurnReasoningEffort :: string
  TurnApprovalMode :: string

record RewriteTurnCommand =
  RewriteStart :: StartTurnCommand
  NumTurns :: nat
  EditEventID :: string
  ReplacementEventID :: string
  ReplacementPayload :: raw_message
  CutoffSequence :: int

record ForkThreadCommand =
  SourceThreadID :: string
  TargetThreadID :: string
  ForkCodexThread :: string
  ForkWorkspaceID :: string
  ForkWorkspace :: string
  ForkTitle :: string
  ForkLastTurnID :: string
  ForkCutoffSequence :: int

record ForkThreadResult =
  ResultCodexThread :: string
  ResultLastTurnID :: string

definition str_entry :: "string \<Rightarrow> string \<Rightarrow> (string \<times> json) list" where
  "str_entry name v = [(name, JStr v)]"

definition omit_str :: "string \<Rightarrow> string \<Rightarrow> (string \<times> json) list" where
  "omit_str name v = (if v = [] then [] else [(name, JStr v)])"

definition omit_int :: "string \<Rightarrow> int \<Rightarrow> (string \<times> json) list" where
  "omit_int name v = (if v = 0 then [] else [(name, JNum v 0)])"

definition encode_StartTurnCommand :: "StartTurnCommand \<Rightarrow> json" where
  "encode_StartTurnCommand c = JObj
     (str_entry ''thread_id'' (TurnThreadID c) @ omit_str ''codex_thread_id'' (TurnCodexThread c) @
      str_entry ''workspace_id'' (TurnWorkspaceID c) @ str_entry ''workspace'' (TurnWorkspace c) @
      str_entry ''prompt'' (TurnPrompt c) @
      (if TurnImages c = [] then []
       else [(''images'', JArr (map (\<lambda>u. JObj [(''data_url'', JStr u)]) (TurnImages c)))]) @
      omit_str ''model'' (TurnModel c) @ omit_str ''reasoning_effort'' (TurnReasoningEffort c) @
      str_entry ''approval_mode'' (TurnApprovalMode c))"

definition encode_RewriteTurnCommand :: "RewriteTurnCommand \<Rightarrow> json" where
  "encode_RewriteTurnCommand c = JObj
     ([(''start'', encode_StartTurnCommand (RewriteStart c)), (''num_turns'', JNum (int (NumTurns c)) 0)] @
      omit_str ''edit_event_id'' (EditEventID c) @ omit_str ''replacement_event_id'' (ReplacementEventID c) @
      (case ReplacementPayload c of None \<Rightarrow> [] | Some p \<Rightarrow> [(''replacement_payload'', p)]) @
      omit_int ''cutoff_sequence'' (CutoffSequence c))"

section \<open>File lists\<close>

record WorkspaceFile =
  FilePath :: string
  FileKind :: string
  FileSize :: int

record WorkspaceFilesResult =
  Files :: "WorkspaceFile list option" \<comment> \<open>\<open>None\<close> is the nil slice, written as \<open>null\<close>\<close>
  Truncated :: bool

definition decode_WorkspaceFile :: "json \<Rightarrow> WorkspaceFile option" where
  "decode_WorkspaceFile d =
     (case (str_field ''path'' d, str_field ''kind'' d, int_field ''size'' d) of
        (Some p, Some k, Some s) \<Rightarrow> Some \<lparr>FilePath = p, FileKind = k, FileSize = s\<rparr>
      | _ \<Rightarrow> None)"

definition encode_WorkspaceFile :: "WorkspaceFile \<Rightarrow> json" where
  "encode_WorkspaceFile f =
     JObj ([(''path'', JStr (FilePath f)), (''kind'', JStr (FileKind f))] @
           (if FileSize f = 0 then [] else [(''size'', JNum (FileSize f) 0)]))"

definition encode_files :: "WorkspaceFile list option \<Rightarrow> json" where
  "encode_files fs = (case fs of None \<Rightarrow> JNull | Some xs \<Rightarrow> JArr (map encode_WorkspaceFile xs))"

definition decode_WorkspaceFilesResult :: "json \<Rightarrow> WorkspaceFilesResult option" where
  "decode_WorkspaceFilesResult d =
     (case (array_field decode_WorkspaceFile ''files'' d, bool_field ''truncated'' d) of
        (Some fs, Some t) \<Rightarrow> Some \<lparr>Files = fs, Truncated = t\<rparr>
      | _ \<Rightarrow> None)"

definition encode_WorkspaceFilesResult :: "WorkspaceFilesResult \<Rightarrow> json" where
  "encode_WorkspaceFilesResult r =
     JObj [(''files'', encode_files (Files r)), (''truncated'', JBool (Truncated r))]"

lemma decode_encode_WorkspaceFile:
  "int64_range (FileSize f) \<Longrightarrow> decode_WorkspaceFile (encode_WorkspaceFile f) = Some f"
  by (simp add: decode_WorkspaceFile_def encode_WorkspaceFile_def str_field_def int_field_def
      scalar_field_def)

lemma decode_encode_list:
  "list_all (\<lambda>f. int64_range (FileSize f)) xs \<Longrightarrow>
   decode_list decode_WorkspaceFile (map encode_WorkspaceFile xs) = Some xs"
  by (induction xs) (auto simp: decode_encode_WorkspaceFile)

text \<open>
  The list of files that an Agent reports survives the wire: decoding the encoded result gives
  the result back, the distinction between no list and an empty list included.
\<close>

theorem files_roundtrip:
  assumes "list_all (\<lambda>f. int64_range (FileSize f)) (case Files r of None \<Rightarrow> [] | Some xs \<Rightarrow> xs)"
  shows "decode_WorkspaceFilesResult (encode_WorkspaceFilesResult r) = Some r"
proof -
  have "array_field decode_WorkspaceFile ''files'' (encode_WorkspaceFilesResult r) = Some (Files r)"
    using assms
    by (cases "Files r")
      (auto simp: array_field_def raw_field_def json_entry_def encode_WorkspaceFilesResult_def
        encode_files_def decode_encode_list)
  moreover have "bool_field ''truncated'' (encode_WorkspaceFilesResult r) = Some (Truncated r)"
    by (simp add: bool_field_def scalar_field_def encode_WorkspaceFilesResult_def)
  ultimately show ?thesis by (simp add: decode_WorkspaceFilesResult_def)
qed

lemma files_roundtrip_witness:
  "decode_WorkspaceFilesResult (encode_WorkspaceFilesResult
     \<lparr>Files = Some [\<lparr>FilePath = ''a.go'', FileKind = ''file'', FileSize = 12\<rparr>], Truncated = True\<rparr>)
   = Some \<lparr>Files = Some [\<lparr>FilePath = ''a.go'', FileKind = ''file'', FileSize = 12\<rparr>], Truncated = True\<rparr>"
  by (rule files_roundtrip) (simp add: int64_range_def int64_min_def int64_max_def)

end
