(* ===== verification/Realtime_Hub.thy ===== *)
theory Realtime_Hub
  imports Wire_Protocol "HOL-Library.Multiset"
begin

text \<open>
  The fan-out of events to the connected browsers, internal/realtime/hub.go. \<open>Hub\<close> is the guarded
  state; a channel keeps its buffer, whether it is closed, and the events its reader has taken.
  \<open>Publish\<close> takes the lock twice, so its two critical sections are separate operations, and the
  sends of the first section, which only holds the read lock, interleave with other publishers:
  \<open>hub_step\<close> is the relation over all these steps.
\<close>

definition hub_capacity :: nat where
  "hub_capacity = 256"

record hub_chan =
  buf :: "StreamEvent list"
  closed :: bool
  taken :: "StreamEvent list"

record Hub =
  next_id :: int
  clients :: "int list"            \<comment> \<open>the keys of the map; the channel of a client \<open>c\<close> is \<open>chans c\<close>\<close>
  chans :: "int \<Rightarrow> hub_chan"
  panicked :: bool                 \<comment> \<open>a send on or a close of a closed channel\<close>

definition New :: Hub where
  "New = \<lparr>next_id = 0, clients = [], chans = (\<lambda>_. \<lparr>buf = [], closed = False, taken = []\<rparr>), panicked = False\<rparr>"

definition Subscribe :: "Hub \<Rightarrow> int \<times> Hub" where
  "Subscribe h =
     (let cid = wrap64 (next_id h + 1) in
      (cid, h\<lparr>next_id := cid, clients := cid # removeAll cid (clients h),
             chans := (chans h)(cid := \<lparr>buf = [], closed = False, taken = []\<rparr>)\<rparr>))"

definition close_chan :: "int \<Rightarrow> Hub \<Rightarrow> Hub" where
  "close_chan cid h =
     (if closed (chans h cid) then h\<lparr>panicked := True\<rparr>
      else h\<lparr>chans := (chans h)(cid := (chans h cid)\<lparr>closed := True\<rparr>)\<rparr>)"

definition Unsubscribe :: "int \<Rightarrow> Hub \<Rightarrow> Hub" where
  "Unsubscribe cid h =
     (if cid \<in> set (clients h)
      then close_chan cid (h\<lparr>clients := removeAll cid (clients h)\<rparr>)
      else h)"

text \<open>
  The \<open>select\<close> of \<open>Publish\<close>: a full buffer makes the client stalled, a closed channel would panic.
\<close>

definition offer :: "StreamEvent \<Rightarrow> int \<Rightarrow> Hub \<times> int list \<Rightarrow> Hub \<times> int list" where
  "offer event cid = (\<lambda>(h, stalled).
     (if closed (chans h cid) then (h\<lparr>panicked := True\<rparr>, stalled)
      else if length (buf (chans h cid)) < hub_capacity
      then (h\<lparr>chans := (chans h)(cid := (chans h cid)\<lparr>buf := buf (chans h cid) @ [event]\<rparr>)\<rparr>, stalled)
      else (h, stalled @ [cid])))"

definition drop_stalled :: "int list \<Rightarrow> Hub \<Rightarrow> Hub" where
  "drop_stalled stalled h = fold Unsubscribe stalled h"

text \<open>\<open>Publish\<close> without interleaving; \<open>order\<close> is the order in which Go visits the map.\<close>

definition Publish :: "StreamEvent \<Rightarrow> int list \<Rightarrow> Hub \<Rightarrow> Hub" where
  "Publish event order h =
     (let (h', stalled) = fold (offer event) order (h, []) in
      if stalled = [] then h' else drop_stalled stalled h')"

section \<open>Interleaved runs\<close>

text \<open>
  A running publisher has the event, the clients it still has to visit and the stalled clients.
  It is \<open>reading\<close> while it holds the read lock. \<open>due\<close> is a ghost: the events for which a client
  was connected when their publisher took the lock.
\<close>

record publisher =
  event :: StreamEvent
  todo :: "int list"
  stalled :: "int list"
  reading :: bool

record hub_run =
  hub :: Hub
  pubs :: "publisher list"
  due :: "int \<Rightarrow> StreamEvent list"

definition hub_start :: "hub_run \<Rightarrow> bool" where
  "hub_start s \<longleftrightarrow> s = \<lparr>hub = New, pubs = [], due = (\<lambda>_. [])\<rparr>"

definition unlocked :: "hub_run \<Rightarrow> bool" where
  "unlocked s \<longleftrightarrow> list_all (\<lambda>p. \<not> reading p) (pubs s)"

inductive hub_step :: "hub_run \<Rightarrow> hub_run \<Rightarrow> bool" where
  subscribe:
    "unlocked s \<Longrightarrow> next_id (hub s) < int64_max \<Longrightarrow> Subscribe (hub s) = (cid, h) \<Longrightarrow>
     hub_step s (s\<lparr>hub := h, due := (due s)(cid := [])\<rparr>)"
| unsubscribe:
    "unlocked s \<Longrightarrow> hub_step s (s\<lparr>hub := Unsubscribe cid (hub s)\<rparr>)"
| begin_publish:
    "set order = set (clients (hub s)) \<Longrightarrow> distinct order \<Longrightarrow>
     hub_step s (s\<lparr>pubs := pubs s @ [\<lparr>event = e, todo = order, stalled = [], reading = True\<rparr>],
                   due := (\<lambda>cid. if cid \<in> set order then due s cid @ [e] else due s cid)\<rparr>)"
| visit:
    "i < length (pubs s) \<Longrightarrow> p = pubs s ! i \<Longrightarrow> reading p \<Longrightarrow> todo p = cid # rest \<Longrightarrow>
     offer (event p) cid (hub s, stalled p) = (h, st) \<Longrightarrow>
     hub_step s (s\<lparr>hub := h, pubs := (pubs s)[i := p\<lparr>todo := rest, stalled := st\<rparr>]\<rparr>)"
| release:
    "i < length (pubs s) \<Longrightarrow> p = pubs s ! i \<Longrightarrow> reading p \<Longrightarrow> todo p = [] \<Longrightarrow>
     hub_step s (s\<lparr>pubs := (if stalled p = [] then take i (pubs s) @ drop (Suc i) (pubs s)
                            else (pubs s)[i := p\<lparr>reading := False\<rparr>])\<rparr>)"
| disconnect:
    "i < length (pubs s) \<Longrightarrow> p = pubs s ! i \<Longrightarrow> unlocked s \<Longrightarrow>
     hub_step s (s\<lparr>hub := drop_stalled (stalled p) (hub s),
                   pubs := take i (pubs s) @ drop (Suc i) (pubs s)\<rparr>)"
| receive:
    "buf (chans (hub s) cid) = e # rest \<Longrightarrow>
     hub_step s (s\<lparr>hub := (hub s)\<lparr>chans := (chans (hub s))(cid := (chans (hub s) cid)
                       \<lparr>buf := rest, taken := taken (chans (hub s) cid) @ [e]\<rparr>)\<rparr>\<rparr>)"

section \<open>The invariant\<close>

definition waiting :: "int \<Rightarrow> publisher list \<Rightarrow> StreamEvent list" where
  "waiting c ps = map event (filter (\<lambda>p. c \<in> set (todo p) \<or> c \<in> set (stalled p)) ps)"

definition hub_ok :: "Hub \<Rightarrow> bool" where
  "hub_ok h \<longleftrightarrow>
     \<not> panicked h \<and> 0 \<le> next_id h \<and> next_id h \<le> int64_max \<and> distinct (clients h) \<and>
     (\<forall>c\<in>set (clients h). c \<le> next_id h \<and> \<not> closed (chans h c)) \<and>
     (\<forall>c. length (buf (chans h c)) \<le> hub_capacity)"

definition pub_ok :: "Hub \<Rightarrow> publisher \<Rightarrow> bool" where
  "pub_ok h p \<longleftrightarrow>
     distinct (todo p @ stalled p) \<and> (\<forall>c\<in>set (todo p @ stalled p). c \<le> next_id h) \<and>
     (if reading p then set (todo p) \<subseteq> set (clients h) else todo p = [])"

definition accounted :: "hub_run \<Rightarrow> int \<Rightarrow> bool" where
  "accounted s c \<longleftrightarrow>
     mset (due s c) = mset (taken (chans (hub s) c)) + mset (buf (chans (hub s) c))
                    + mset (waiting c (pubs s))"

definition hub_inv :: "hub_run \<Rightarrow> bool" where
  "hub_inv s \<longleftrightarrow>
     hub_ok (hub s) \<and> (\<forall>p\<in>set (pubs s). pub_ok (hub s) p) \<and>
     (\<forall>c\<in>set (clients (hub s)). accounted s c)"

lemma Subscribe_fresh:
  assumes "hub_ok h" and "next_id h < int64_max" and "Subscribe h = (c, h')"
  shows "c = next_id h + 1" and "next_id h' = c" and "clients h' = c # clients h"
    and "chans h' = (chans h)(c := \<lparr>buf = [], closed = False, taken = []\<rparr>)" and "hub_ok h'"
proof -
  have w: "wrap64 (next_id h + 1) = next_id h + 1"
    using assms(1,2) by (intro wrap64_id) (auto simp: hub_ok_def int64_range_def int64_min_def)
  then show c: "c = next_id h + 1" and "next_id h' = c"
    using assms(3) by (auto simp: Subscribe_def Let_def)
  have notin: "next_id h + 1 \<notin> set (clients h)" using assms(1) by (auto simp: hub_ok_def)
  then show "clients h' = c # clients h"
    and "chans h' = (chans h)(c := \<lparr>buf = [], closed = False, taken = []\<rparr>)"
    using assms(3) w by (auto simp: Subscribe_def Let_def)
  then show "hub_ok h'"
    using assms w notin by (auto simp: Subscribe_def Let_def hub_ok_def)
qed

lemma Unsubscribe_ok:
  assumes "hub_ok h"
  shows "hub_ok (Unsubscribe c h)"
    and "set (clients (Unsubscribe c h)) = set (clients h) - {c}"
    and "next_id (Unsubscribe c h) = next_id h"
    and "d \<noteq> c \<Longrightarrow> chans (Unsubscribe c h) d = chans h d"
    and "buf (chans (Unsubscribe c h) d) = buf (chans h d)"
    and "taken (chans (Unsubscribe c h) d) = taken (chans h d)"
  using assms by (auto simp: Unsubscribe_def close_chan_def hub_ok_def distinct_removeAll)

lemma drop_stalled_ok:
  assumes "hub_ok h"
  shows "hub_ok (drop_stalled cs h)"
    and "set (clients (drop_stalled cs h)) = set (clients h) - set cs"
    and "next_id (drop_stalled cs h) = next_id h"
    and "buf (chans (drop_stalled cs h) d) = buf (chans h d)"
    and "taken (chans (drop_stalled cs h) d) = taken (chans h d)"
proof -
  have "hub_ok (drop_stalled cs h) \<and> set (clients (drop_stalled cs h)) = set (clients h) - set cs
      \<and> next_id (drop_stalled cs h) = next_id h
      \<and> buf (chans (drop_stalled cs h) d) = buf (chans h d)
      \<and> taken (chans (drop_stalled cs h) d) = taken (chans h d)"
    using assms
  proof (induction cs arbitrary: h)
    case Nil
    then show ?case by (simp add: drop_stalled_def)
  next
    case (Cons c cs)
    have "drop_stalled (c # cs) h = drop_stalled cs (Unsubscribe c h)"
      by (simp add: drop_stalled_def)
    then show ?case
      using Cons.IH[OF Unsubscribe_ok(1)[OF Cons.prems, of c]] Unsubscribe_ok[OF Cons.prems, of c]
      by auto
  qed
  then show "hub_ok (drop_stalled cs h)" "set (clients (drop_stalled cs h)) = set (clients h) - set cs"
    "next_id (drop_stalled cs h) = next_id h" "buf (chans (drop_stalled cs h) d) = buf (chans h d)"
    "taken (chans (drop_stalled cs h) d) = taken (chans h d)" by blast+
qed

lemma offer_ok:
  assumes "hub_ok h" and "c \<in> set (clients h)" and "offer e c (h, st) = (h', st')"
  shows "hub_ok h'" and "clients h' = clients h" and "next_id h' = next_id h"
    and "(st' = st \<and> chans h' = (chans h)(c := (chans h c)\<lparr>buf := buf (chans h c) @ [e]\<rparr>)
            \<and> length (buf (chans h c)) < hub_capacity)
       \<or> (st' = st @ [c] \<and> h' = h \<and> length (buf (chans h c)) = hub_capacity)"
  using assms by (auto simp: offer_def hub_ok_def le_less split: if_splits)

lemma waiting_simps [simp]:
  "waiting c [] = []"
  "waiting c (p # ps) =
     (if c \<in> set (todo p) \<or> c \<in> set (stalled p) then event p # waiting c ps else waiting c ps)"
  "waiting c (ps @ qs) = waiting c ps @ waiting c qs"
  by (simp_all add: waiting_def)

lemma waiting_split:
  assumes "i < length ps"
  shows "mset (waiting c (ps[i := q])) = mset (waiting c [q]) + mset (waiting c (take i ps @ drop (Suc i) ps))"
    and "mset (waiting c ps) = mset (waiting c [ps ! i]) + mset (waiting c (take i ps @ drop (Suc i) ps))"
proof -
  show "mset (waiting c (ps[i := q])) = mset (waiting c [q]) + mset (waiting c (take i ps @ drop (Suc i) ps))"
    using assms by (simp only: upd_conv_take_nth_drop) simp
  have "waiting c ps = waiting c (take i ps @ ps ! i # drop (Suc i) ps)"
    using assms by (simp only: id_take_nth_drop[symmetric])
  then show "mset (waiting c ps) = mset (waiting c [ps ! i]) + mset (waiting c (take i ps @ drop (Suc i) ps))"
    by simp
qed

lemma set_without: "set (take i ps @ drop (Suc i) ps) \<subseteq> set ps"
  using set_take_subset set_drop_subset by fastforce

lemma hub_invI:
  assumes "hub_ok (hub s)" and "\<And>p. p \<in> set (pubs s) \<Longrightarrow> pub_ok (hub s) p"
    and "\<And>c. c \<in> set (clients (hub s)) \<Longrightarrow> accounted s c"
  shows "hub_inv s"
  using assms by (simp add: hub_inv_def)

lemma hub_invD:
  assumes "hub_inv s"
  shows "hub_ok (hub s)" and "\<And>p. p \<in> set (pubs s) \<Longrightarrow> pub_ok (hub s) p"
    and "\<And>c. c \<in> set (clients (hub s)) \<Longrightarrow> accounted s c"
  using assms by (simp_all add: hub_inv_def)

lemma accounted_cong:
  assumes "accounted s c" and "due t c = due s c"
    and "taken (chans (hub t) c) = taken (chans (hub s) c)"
    and "buf (chans (hub t) c) = buf (chans (hub s) c)"
    and "mset (waiting c (pubs t)) = mset (waiting c (pubs s))"
  shows "accounted t c"
  using assms by (simp add: accounted_def)

lemma hub_inv_start: "hub_start s \<Longrightarrow> hub_inv s"
  by (simp add: hub_start_def hub_inv_def hub_ok_def New_def hub_capacity_def int64_max_def)

lemma pub_ok_mono:
  assumes "pub_ok h p" and "next_id h \<le> next_id h'"
    and "reading p \<Longrightarrow> set (clients h) \<subseteq> set (clients h')"
  shows "pub_ok h' p"
proof -
  have "\<forall>c\<in>set (todo p @ stalled p). c \<le> next_id h'"
    using assms(1,2) unfolding pub_ok_def by (meson order_trans)
  then show ?thesis using assms(1,3) unfolding pub_ok_def by (auto split: if_splits)
qed

lemma unlocked_todo: "unlocked s \<Longrightarrow> p \<in> set (pubs s) \<Longrightarrow> \<not> reading p"
  by (auto simp: unlocked_def list_all_iff)

lemma step_subscribe:
  assumes "hub_inv s" and "unlocked s" and "next_id (hub s) < int64_max"
    and sub: "Subscribe (hub s) = (c, h)"
  shows "hub_inv (s\<lparr>hub := h, due := (due s)(c := [])\<rparr>)"
proof -
  have ok: "hub_ok (hub s)" using assms by (simp add: hub_inv_def)
  note f = Subscribe_fresh[OF ok assms(3) sub]
  have p: "pub_ok (hub s) p" if "p \<in> set (pubs s)" for p using assms that by (simp add: hub_inv_def)
  have "c \<notin> set (todo p @ stalled p)" if "p \<in> set (pubs s)" for p
  proof
    assume "c \<in> set (todo p @ stalled p)"
    then have "c \<le> next_id (hub s)" using p[OF that] unfolding pub_ok_def by blast
    then show False using f(1) by simp
  qed
  then have "waiting c (pubs s) = []" by (auto simp: waiting_def filter_empty_conv)
  moreover have "c \<notin> set (clients (hub s))" using ok f(1) by (auto simp: hub_ok_def)
  moreover have "pub_ok h p" if "p \<in> set (pubs s)" for p
    by (rule pub_ok_mono[OF p[OF that]]) (use f(1,2,3) in auto)
  moreover have "accounted (s\<lparr>hub := h, due := (due s)(c := [])\<rparr>) d" if "d \<in> set (clients h)" for d
  proof (cases "d = c")
    case True
    then show ?thesis using f(4) \<open>waiting c (pubs s) = []\<close> by (simp add: accounted_def)
  next
    case False
    then show ?thesis
      using that f(3,4) by (intro accounted_cong[OF hub_invD(3)[OF assms(1), of d]]) auto
  qed
  ultimately show ?thesis using f(5) by (intro hub_invI) simp_all
qed

lemma step_unsubscribe:
  assumes "hub_inv s" and "unlocked s"
  shows "hub_inv (s\<lparr>hub := Unsubscribe c (hub s)\<rparr>)"
proof -
  have ok: "hub_ok (hub s)" using assms by (simp add: hub_inv_def)
  note f = Unsubscribe_ok[OF ok, of c]
  have "pub_ok (Unsubscribe c (hub s)) p" if "p \<in> set (pubs s)" for p
    by (rule pub_ok_mono[OF hub_invD(2)[OF assms(1) that]])
      (use f(3) unlocked_todo[OF assms(2) that] in simp_all)
  moreover have "accounted (s\<lparr>hub := Unsubscribe c (hub s)\<rparr>) d"
    if "d \<in> set (clients (Unsubscribe c (hub s)))" for d
    using that f(2,5,6) by (intro accounted_cong[OF hub_invD(3)[OF assms(1), of d]]) auto
  ultimately show ?thesis using f(1) by (intro hub_invI) simp_all
qed

lemma step_begin:
  assumes "hub_inv s" and "set order = set (clients (hub s))" and "distinct order"
  shows "hub_inv (s\<lparr>pubs := pubs s @ [\<lparr>event = e, todo = order, stalled = [], reading = True\<rparr>],
                     due := (\<lambda>c. if c \<in> set order then due s c @ [e] else due s c)\<rparr>)"
proof -
  have "pub_ok (hub s) \<lparr>event = e, todo = order, stalled = [], reading = True\<rparr>"
    using assms by (simp add: hub_inv_def pub_ok_def hub_ok_def)
  moreover have "mset (due s c) = mset (taken (chans (hub s) c)) + mset (buf (chans (hub s) c))
      + mset (waiting c (pubs s))" if "c \<in> set order" for c
    using assms that by (simp add: hub_inv_def accounted_def)
  ultimately show ?thesis
    using assms(1,2) by (simp add: hub_inv_def accounted_def)
qed

lemma step_begin':
  assumes "hub_inv s" and "set order = set (clients (hub s))" and "distinct order"
  shows "hub_inv (s\<lparr>pubs := pubs s @ [\<lparr>event = e, todo = order, stalled = [], reading = True\<rparr>],
                     due := (\<lambda>c. if c \<in> set (clients (hub s)) then due s c @ [e] else due s c)\<rparr>)"
  using step_begin[OF assms] assms(2) by simp

lemma pub_ok_without:
  assumes "\<forall>p\<in>set (pubs s). pub_ok h p" and "p \<in> set (take i (pubs s) @ drop (Suc i) (pubs s))"
  shows "pub_ok h p"
  using assms set_without[of i "pubs s"] by blast

lemma step_visit:
  assumes inv: "hub_inv s" and i: "i < length (pubs s)" and p: "p = pubs s ! i" and "reading p"
    and todo: "todo p = c # rest" and off: "offer (event p) c (hub s, stalled p) = (h, st)"
  shows "hub_inv (s\<lparr>hub := h, pubs := (pubs s)[i := p\<lparr>todo := rest, stalled := st\<rparr>]\<rparr>)"
proof -
  have ok: "hub_ok (hub s)" and pok: "pub_ok (hub s) p" and all: "\<forall>p\<in>set (pubs s). pub_ok (hub s) p"
    using inv i p by (auto simp: hub_inv_def)
  have c: "c \<in> set (clients (hub s))" using pok \<open>reading p\<close> todo by (simp add: pub_ok_def)
  note f = offer_ok[OF ok c off]
  have "pub_ok h (p\<lparr>todo := rest, stalled := st\<rparr>)"
    using pok \<open>reading p\<close> todo f(2,3,4) by (auto simp: pub_ok_def)
  moreover have "pub_ok h q" if "q \<in> set (pubs s)" for q
    by (rule pub_ok_mono[OF hub_invD(2)[OF inv that]]) (use f(2,3) in simp_all)
  ultimately have "\<forall>q\<in>set ((pubs s)[i := p\<lparr>todo := rest, stalled := st\<rparr>]). pub_ok h q"
    using set_update_subset_insert[of "pubs s" i] by fastforce
  moreover have "accounted (s\<lparr>hub := h, pubs := (pubs s)[i := p\<lparr>todo := rest, stalled := st\<rparr>]\<rparr>) d"
    if "d \<in> set (clients h)" for d
  proof -
    have "accounted s d" using inv that f(2) by (simp add: hub_inv_def)
    moreover have "c \<notin> set rest" "c \<notin> set (stalled p)" using pok todo by (auto simp: pub_ok_def)
    ultimately have acc: "accounted s d" "c \<notin> set rest" "c \<notin> set (stalled p)" by blast+
    have w: "mset (waiting d ((pubs s)[i := p\<lparr>todo := rest, stalled := st\<rparr>])) + mset (waiting d [p])
        = mset (waiting d (pubs s)) + mset (waiting d [p\<lparr>todo := rest, stalled := st\<rparr>])"
      using waiting_split[OF i, of d] p by simp
    show ?thesis
    proof (cases "d = c")
      case False
      then have "chans h d = chans (hub s) d" and "waiting d [p\<lparr>todo := rest, stalled := st\<rparr>] = waiting d [p]"
        using f(4) todo by auto
      then show ?thesis using acc(1) w by (simp add: accounted_def)
    next
      case True
      then have "waiting d [p] = [event p]" using todo by simp
      then show ?thesis
        using f(4) acc w True by (auto simp: accounted_def)
    qed
  qed
  ultimately show ?thesis using f(1) by (simp add: hub_inv_def)
qed

lemma step_release:
  assumes inv: "hub_inv s" and i: "i < length (pubs s)" and p: "p = pubs s ! i" and "reading p"
    and todo: "todo p = []"
  shows "hub_inv (s\<lparr>pubs := (if stalled p = [] then take i (pubs s) @ drop (Suc i) (pubs s)
                             else (pubs s)[i := p\<lparr>reading := False\<rparr>])\<rparr>)"
proof -
  have pok: "pub_ok (hub s) p" and all: "\<forall>p\<in>set (pubs s). pub_ok (hub s) p"
    and acc: "\<forall>c\<in>set (clients (hub s)). accounted s c"
    using inv i p by (auto simp: hub_inv_def)
  have q: "pub_ok (hub s) (p\<lparr>reading := False\<rparr>)" using pok todo by (auto simp: pub_ok_def)
  have w: "mset (waiting c (take i (pubs s) @ drop (Suc i) (pubs s))) = mset (waiting c (pubs s))"
    if "stalled p = []" for c
    using waiting_split(2)[OF i, of c] that todo p by simp
  have u: "mset (waiting c ((pubs s)[i := p\<lparr>reading := False\<rparr>])) = mset (waiting c (pubs s))" for c
    using waiting_split[OF i, of c] p by simp
  show ?thesis
  proof (cases "stalled p = []")
    case True
    then show ?thesis
      using w all pub_ok_without[OF all] accounted_cong[OF hub_invD(3)[OF inv]] hub_invD(1)[OF inv]
      by (intro hub_invI) simp_all
  next
    case False
    have "\<forall>q\<in>set ((pubs s)[i := p\<lparr>reading := False\<rparr>]). pub_ok (hub s) q"
      using set_update_subset_insert[of "pubs s" i "p\<lparr>reading := False\<rparr>"] all q by fastforce
    with False show ?thesis using inv u by (simp add: hub_inv_def accounted_def)
  qed
qed

lemma step_disconnect:
  assumes inv: "hub_inv s" and i: "i < length (pubs s)" and p: "p = pubs s ! i" and u: "unlocked s"
  shows "hub_inv (s\<lparr>hub := drop_stalled (stalled p) (hub s),
                     pubs := take i (pubs s) @ drop (Suc i) (pubs s)\<rparr>)"
proof -
  have ok: "hub_ok (hub s)" and pok: "pub_ok (hub s) p" and all: "\<forall>p\<in>set (pubs s). pub_ok (hub s) p"
    using inv i p by (auto simp: hub_inv_def)
  note f = drop_stalled_ok[OF ok, of "stalled p"]
  have todo: "todo p = []" using pok unlocked_todo[OF u] i p by (auto simp: pub_ok_def)
  have "pub_ok (drop_stalled (stalled p) (hub s)) q"
    if "q \<in> set (take i (pubs s) @ drop (Suc i) (pubs s))" for q
  proof -
    have "q \<in> set (pubs s)" by (rule subsetD[OF set_without that])
    then have "pub_ok (hub s) q" and nr: "\<not> reading q" using all unlocked_todo[OF u] by blast+
    show ?thesis by (rule pub_ok_mono[OF \<open>pub_ok (hub s) q\<close>]) (use nr f(3) in simp_all)
  qed
  moreover have "mset (waiting c (take i (pubs s) @ drop (Suc i) (pubs s))) = mset (waiting c (pubs s))"
    if "c \<notin> set (stalled p)" for c
  proof -
    have "waiting c [pubs s ! i] = []" using that todo p by simp
    then show ?thesis using waiting_split(2)[OF i, of c] by simp
  qed
  ultimately show ?thesis using inv f by (simp add: hub_inv_def accounted_def)
qed

lemma step_receive:
  assumes "hub_inv s" and "buf (chans (hub s) c) = e # rest"
  shows "hub_inv (s\<lparr>hub := (hub s)\<lparr>chans := (chans (hub s))(c := (chans (hub s) c)
                       \<lparr>buf := rest, taken := taken (chans (hub s) c) @ [e]\<rparr>)\<rparr>\<rparr>)"
proof -
  have "length (e # rest) \<le> hub_capacity" using assms by (metis hub_inv_def hub_ok_def)
  then show ?thesis
    using assms by (auto simp: hub_inv_def hub_ok_def pub_ok_def accounted_def)
qed

interpretation hub_system: invariant_system hub_start hub_step hub_inv
proof unfold_locales
  show "hub_start s \<Longrightarrow> hub_inv s" for s by (rule hub_inv_start)
  show "hub_inv t" if "hub_inv s" and "hub_step s t" for s t
    using that(2,1)
    by (cases rule: hub_step.cases)
      (simp_all only: step_subscribe step_unsubscribe step_begin' step_visit step_release
        step_disconnect step_receive)
qed

section \<open>Properties of the hub\<close>

text \<open>A run with one browser and one event, at which the properties are applied.\<close>

definition sample_event :: StreamEvent where
  "sample_event = \<lparr>EventID = ''e1'', StreamID = ''t1'', Sequence = 1, EventKind = ''message.user'',
                   OccurredAt = 0, EventPayload = Some (JObj [])\<rparr>"

definition sample_hub :: "StreamEvent list \<Rightarrow> Hub" where
  "sample_hub b = \<lparr>next_id = 1, clients = [1],
     chans = (\<lambda>_. \<lparr>buf = [], closed = False, taken = []\<rparr>)(1 := \<lparr>buf = b, closed = False, taken = []\<rparr>),
     panicked = False\<rparr>"

definition sample_run :: hub_run where
  "sample_run = \<lparr>hub = sample_hub [sample_event], pubs = [], due = (\<lambda>_. [])(1 := [sample_event])\<rparr>"

lemma sample_run_reachable:
  "rtranclp hub_step \<lparr>hub = New, pubs = [], due = (\<lambda>_. [])\<rparr> sample_run"
proof -
  let ?s1 = "\<lparr>hub = sample_hub [], pubs = [], due = (\<lambda>_. [])\<rparr>"
  let ?p = "\<lparr>event = sample_event, todo = [1], stalled = [], reading = True\<rparr>"
  let ?d = "(\<lambda>_. [])(1 := [sample_event])"
  let ?s2 = "\<lparr>hub = sample_hub [], pubs = [?p], due = ?d\<rparr>"
  let ?s3 = "\<lparr>hub = sample_hub [sample_event], pubs = [?p\<lparr>todo := []\<rparr>], due = ?d\<rparr>"
  let ?s0 = "\<lparr>hub = New, pubs = [], due = (\<lambda>_. [])\<rparr> :: hub_run"
  have "wrap64 1 = 1" by (simp add: wrap64_def)
  then have "Subscribe (hub ?s0) = (1, sample_hub [])"
    by (simp add: Subscribe_def New_def sample_hub_def)
  then have "hub_step ?s0 (?s0\<lparr>hub := sample_hub [], due := (due ?s0)(1 := [])\<rparr>)"
    by (intro subscribe) (simp_all add: unlocked_def New_def int64_max_def)
  then have 1: "hub_step ?s0 ?s1" by (simp add: fun_upd_idem)
  have "hub_step ?s1 (?s1\<lparr>pubs := pubs ?s1 @ [?p],
      due := (\<lambda>c. if c \<in> set [1] then due ?s1 c @ [sample_event] else due ?s1 c)\<rparr>)"
    by (rule begin_publish) (simp_all add: sample_hub_def)
  moreover have "(\<lambda>c. if c \<in> set [1] then due ?s1 c @ [sample_event] else due ?s1 c) = ?d"
    by auto
  ultimately have 2: "hub_step ?s1 ?s2" by simp
  have off: "offer (event ?p) 1 (hub ?s2, stalled ?p) = (sample_hub [sample_event], [])"
    by (simp add: offer_def sample_hub_def hub_capacity_def)
  have "hub_step ?s2 (?s2\<lparr>hub := sample_hub [sample_event], pubs := (pubs ?s2)[0 := ?p\<lparr>todo := [], stalled := []\<rparr>]\<rparr>)"
    by (rule visit[OF _ _ _ _ off]) simp_all
  then have 3: "hub_step ?s2 ?s3" by simp
  have "hub_step ?s3 (?s3\<lparr>pubs := (if stalled (?p\<lparr>todo := []\<rparr>) = [] then take 0 (pubs ?s3) @ drop (Suc 0) (pubs ?s3)
      else (pubs ?s3)[0 := (?p\<lparr>todo := []\<rparr>)\<lparr>reading := False\<rparr>])\<rparr>)"
    by (rule release) simp_all
  then have 4: "hub_step ?s3 sample_run" by (simp add: sample_run_def)
  from 1 2 3 4 show ?thesis by (meson rtranclp.rtrancl_refl converse_rtranclp_into_rtranclp)
qed

text \<open>
  In every interleaving of subscriptions, disconnections, publications and reads: no channel
  operation panics, no buffer exceeds its capacity, the channels of the connected clients are open
  and no two clients share an id.
\<close>

theorem hub_never_panics:
  assumes "hub_start s" and "rtranclp hub_step s t"
  shows "\<not> panicked (hub t) \<and> distinct (clients (hub t)) \<and>
    (\<forall>c. length (buf (chans (hub t) c)) \<le> 256 \<and>
         (c \<in> set (clients (hub t)) \<longrightarrow> \<not> closed (chans (hub t) c)))"
  using hub_invD(1)[OF hub_system.inv_reachable[OF assms(2,1)]]
  by (simp add: hub_ok_def hub_capacity_def)

text \<open>
  C33: No event is dropped silently: when no publication is in progress, a client that is still
  connected has in its buffer or has already read exactly the events published since it
  subscribed, each as often as it was published.
\<close>

theorem hub_no_silent_drop:
  assumes "hub_start s" and "rtranclp hub_step s t" and "pubs t = []" and "c \<in> set (clients (hub t))"
  shows "mset (taken (chans (hub t) c) @ buf (chans (hub t) c)) = mset (due t c)"
  using hub_invD(3)[OF hub_system.inv_reachable[OF assms(2,1)] assms(4)] assms(3)
  by (simp add: accounted_def)

lemma hub_never_panics_witness:
  "rtranclp hub_step \<lparr>hub = New, pubs = [], due = (\<lambda>_. [])\<rparr> sample_run \<and>
   \<not> panicked (hub sample_run) \<and> \<not> closed (chans (hub sample_run) 1)"
proof -
  have "hub_start \<lparr>hub = New, pubs = [], due = (\<lambda>_. [])\<rparr>" by (simp add: hub_start_def)
  from hub_never_panics[OF this sample_run_reachable] sample_run_reachable show ?thesis
    by (auto simp: sample_run_def sample_hub_def)
qed

lemma hub_no_silent_drop_witness:
  "rtranclp hub_step \<lparr>hub = New, pubs = [], due = (\<lambda>_. [])\<rparr> sample_run \<and>
   mset (taken (chans (hub sample_run) 1) @ buf (chans (hub sample_run) 1)) = mset [sample_event]"
proof -
  have s: "hub_start \<lparr>hub = New, pubs = [], due = (\<lambda>_. [])\<rparr>" by (simp add: hub_start_def)
  have "pubs sample_run = []" and "1 \<in> set (clients (hub sample_run))"
    by (simp_all add: sample_run_def sample_hub_def)
  from hub_no_silent_drop[OF s sample_run_reachable this] sample_run_reachable show ?thesis
    by (simp add: sample_run_def)
qed

section \<open>An undisturbed publication\<close>

abbreviation full_at :: "Hub \<Rightarrow> int \<Rightarrow> bool" where
  "full_at h c \<equiv> length (buf (chans h c)) = hub_capacity"

lemma fold_offer:
  assumes "hub_ok h" and "set order \<subseteq> set (clients h)" and "distinct order"
    and "fold (offer e) order (h, st) = (h', st')"
  shows "hub_ok h' \<and> clients h' = clients h \<and> st' = st @ filter (full_at h) order \<and>
    chans h' = (\<lambda>c. if c \<in> set order \<and> \<not> full_at h c
                    then (chans h c)\<lparr>buf := buf (chans h c) @ [e]\<rparr> else chans h c)"
  using assms
proof (induction order arbitrary: h st)
  case Nil
  then show ?case by simp
next
  case (Cons c order)
  obtain h1 st1 where 1: "offer e c (h, st) = (h1, st1)" by fastforce
  have "c \<in> set (clients h)" using Cons.prems(2) by simp
  note f = offer_ok[OF Cons.prems(1) this 1]
  have "fold (offer e) order (h1, st1) = (h', st')" using Cons.prems(4) 1 by simp
  note ih = Cons.IH[OF f(1) _ _ this]
  have same: "d \<noteq> c \<Longrightarrow> chans h1 d = chans h d" for d using f(4) by auto
  then have "filter (full_at h1) order = filter (full_at h) order"
    using Cons.prems(3) by (intro filter_cong) (metis distinct.simps(2))+
  then show ?case
    using ih f Cons.prems(2,3) same by (auto simp: fun_eq_iff)
qed

text \<open>
  An undisturbed publication reaches every client that has room in its buffer, at the end of
  the buffer, and disconnects exactly the clients whose buffer is full.
\<close>

theorem Publish_reaches_or_disconnects:
  assumes "hub_ok h" and "set order = set (clients h)" and "distinct order"
  shows "set (clients (Publish e order h)) = {c \<in> set (clients h). length (buf (chans h c)) \<noteq> 256} \<and>
    (\<forall>c \<in> set (clients (Publish e order h)).
       buf (chans (Publish e order h) c) = buf (chans h c) @ [e])"
proof -
  obtain h1 st where 1: "fold (offer e) order (h, []) = (h1, st)" by fastforce
  note f = fold_offer[OF assms(1) _ assms(3) 1]
  have "hub_ok h1" and st: "st = filter (full_at h) order" using f assms(2) by auto
  have P: "Publish e order h = drop_stalled st h1"
    using 1 by (simp add: Publish_def drop_stalled_def)
  show ?thesis
    unfolding P using drop_stalled_ok[OF \<open>hub_ok h1\<close>] f assms(2) st
    by (auto simp: hub_capacity_def)
qed

lemma Publish_reaches_or_disconnects_witness:
  "clients (Publish sample_event [1] (sample_hub [])) = [1] \<and>
   buf (chans (Publish sample_event [1] (sample_hub [])) 1) = [sample_event]"
proof -
  have "hub_ok (sample_hub [])"
    by (simp add: hub_ok_def sample_hub_def hub_capacity_def int64_max_def)
  from Publish_reaches_or_disconnects[OF this, of "[1]" sample_event] show ?thesis
    by (auto simp: sample_hub_def Publish_def offer_def hub_capacity_def)
qed

end
