(* ===== verification/Store_Model.thy ===== *)
theory Store_Model
  imports Wire_Protocol
begin

text \<open>
  The database behind internal/store as a record of tables: a table is a list of rows, a nullable
  column an option. A statement is atomic; a failed constraint of schema.sql (primary and unique
  keys, the partial unique indexes on operations, foreign keys) makes it fail and leaves the
  database as it was. Failures of the connection itself are outside the model. The fresh
  identifiers of \<open>NewID\<close> and the readings of the clock are arguments of the operations.
\<close>

datatype go_error =
    ErrNoRows
  | ConstraintFailed
  | ErrWorkspaceWriteActive
  | ErrThreadActive
  | ErrInvalidEditTarget
  | ErrOperationNotActive
  | ErrInvalidOperationStatus
  | BadJSON
  | Err string

section \<open>Columns\<close>

text \<open>A text column holds the text of a JSON document or any other text, as a vault ciphertext.\<close>

datatype stored_text = JsonText json | OtherText string

fun stored_json :: "stored_text \<Rightarrow> raw_message" where
  "stored_json (JsonText d) = Some d"
| "stored_json (OtherText _) = None"

definition nullif_empty :: "string \<Rightarrow> string option" where
  "nullif_empty s = (if s = [] then None else Some s)"

definition or_empty :: "string option \<Rightarrow> string" where
  "or_empty x = (case x of None \<Rightarrow> [] | Some s \<Rightarrow> s)"

lemma or_empty_simps [simp]: "or_empty None = []" "or_empty (Some s) = s"
  by (simp_all add: or_empty_def)

lemma or_empty_nullif [simp]: "or_empty (nullif_empty s) = s"
  by (simp add: nullif_empty_def)

fun coalesce :: "'a option \<Rightarrow> 'a \<Rightarrow> 'a" where
  "coalesce None d = d"
| "coalesce (Some a) d = a"

section \<open>Rows\<close>

record Server_row =
  s_id :: string
  s_name :: string
  s_status :: string
  s_agent_version :: string
  s_gemini_version :: string
  s_last_seen_at :: "instant option"
  s_revoked_at :: "instant option"

record Project_row =
  p_id :: string
  p_name :: string
  p_pinned_at :: "instant option"
  p_hidden_at :: "instant option"

record Preference_row =
  pp_project_id :: string
  pp_server_id :: string
  pp_name :: string
  pp_pinned_at :: "instant option"
  pp_hidden_at :: "instant option"

record Workspace_row =
  w_id :: string
  w_project_id :: string
  w_server_id :: string
  w_path :: string
  w_status :: string

record Thread_row =
  t_id :: string
  t_workspace_id :: string
  t_codex_thread_id :: string
  t_title :: string
  t_status :: string
  t_pinned_at :: "instant option"
  t_archived_at :: "instant option"
  t_last_sequence :: int
  t_created_at :: instant
  t_updated_at :: instant

record Operation =
  o_id :: string
  o_server_id :: string
  o_project_id :: "string option"
  o_workspace_id :: "string option"
  o_thread_id :: "string option"
  o_kind :: string
  o_payload :: stored_text
  o_status :: string
  o_workspace_write :: bool
  o_result :: "string option"
  o_result_data :: stored_text
  o_idempotency_key :: string
  o_created_at :: instant
  o_delivered_at :: "instant option"
  o_started_at :: "instant option"
  o_completed_at :: "instant option"

text \<open>
  The snapshots and previews of a workspace are one row per workspace in a table of their own;
  only the previews have a path.
\<close>

datatype snapshot_table = GitSnapshots | FileSnapshots | ChangeSnapshots | FilePreviews | DiffPreviews

record Snapshot_row =
  sn_workspace_id :: string
  sn_path :: string
  sn_data :: stored_text
  sn_truncated :: bool
  sn_status :: string
  sn_error :: string
  sn_requested_at :: "instant option"
  sn_updated_at :: "instant option"

record Approval_row =
  a_id :: string
  a_thread_id :: string
  a_request_id :: string
  a_kind :: string
  a_detail :: stored_text
  a_status :: string
  a_expires_at :: instant
  a_resolved_at :: "instant option"
  a_decision :: "string option"

record Task_row =
  k_id :: string
  k_thread_id :: string
  k_server_id :: string
  k_name :: string
  k_prompt :: string
  k_schedule :: string
  k_timezone :: string
  k_enabled :: bool
  k_model :: string
  k_reasoning_effort :: string
  k_approval_mode :: string
  k_thinking_level :: string
  k_next_run_at :: instant
  k_last_run_at :: "instant option"
  k_last_run_status :: string
  k_last_run_message :: string
  k_last_operation_id :: string
  k_created_at :: instant
  k_updated_at :: instant

text \<open>The scheduled tasks of the three kinds of Agent are in three tables of the same columns.\<close>

datatype agent_kind = Codex | Gemini | Claude

record db =
  servers :: "Server_row list"
  projects :: "Project_row list"
  workspaces :: "Workspace_row list"
  threads :: "Thread_row list"
  operations :: "Operation list"
  snapshots :: "snapshot_table \<Rightarrow> Snapshot_row list"
  events :: "StreamEvent list"
  preferences :: "Preference_row list"
  approvals :: "Approval_row list"
  tasks :: "agent_kind \<Rightarrow> Task_row list"

definition empty_db :: db where
  "empty_db = \<lparr>servers = [], projects = [], workspaces = [], threads = [], operations = [],
               snapshots = (\<lambda>_. []), events = [], preferences = [], approvals = [], tasks = (\<lambda>_. [])\<rparr>"

section \<open>Constraints on operations\<close>

definition active_statuses :: "string list" where
  "active_statuses = [''queued'', ''delivered'', ''running'']"

definition active :: "Operation \<Rightarrow> bool" where
  "active o1 \<longleftrightarrow> o_status o1 \<in> set active_statuses"

definition active_write :: "Operation \<Rightarrow> bool" where
  "active_write o1 \<longleftrightarrow> o_workspace_id o1 \<noteq> None \<and> o_workspace_write o1 \<and> active o1"

definition waiting_import :: "Operation \<Rightarrow> bool" where
  "waiting_import o1 \<longleftrightarrow>
     o_project_id o1 \<noteq> None \<and> o_kind o1 = ''git.import'' \<and> o_status o1 \<in> {''queued'', ''delivered''}"

definition refers :: "string option \<Rightarrow> string list \<Rightarrow> bool" where
  "refers ref ids \<longleftrightarrow> (case ref of None \<Rightarrow> True | Some i \<Rightarrow> i \<in> set ids)"

definition operation_refs :: "db \<Rightarrow> Operation \<Rightarrow> bool" where
  "operation_refs d o1 \<longleftrightarrow>
     o_server_id o1 \<in> set (map s_id (servers d)) \<and>
     refers (o_project_id o1) (map p_id (projects d)) \<and>
     refers (o_workspace_id o1) (map w_id (workspaces d)) \<and>
     refers (o_thread_id o1) (map t_id (threads d))"

definition operations_ok :: "db \<Rightarrow> Operation list \<Rightarrow> bool" where
  "operations_ok d ops \<longleftrightarrow>
     distinct (map o_id ops) \<and>
     distinct (map o_idempotency_key ops) \<and>
     distinct (map o_workspace_id (filter active_write ops)) \<and>
     distinct (map (\<lambda>o1. (o_server_id o1, o_project_id o1)) (filter waiting_import ops)) \<and>
     list_all (operation_refs d) ops"

text \<open>A statement on the table succeeds when the new contents satisfy every constraint.\<close>

definition store_operations :: "Operation list \<Rightarrow> db \<Rightarrow> go_error + db" where
  "store_operations ops d =
     (if operations_ok d ops then Inr (d\<lparr>operations := ops\<rparr>) else Inl ConstraintFailed)"

definition update_operations :: "(Operation \<Rightarrow> bool) \<Rightarrow> (Operation \<Rightarrow> Operation) \<Rightarrow> db \<Rightarrow> go_error + nat \<times> db" where
  "update_operations sel f d =
     try_then (store_operations (map (\<lambda>o1. if sel o1 then f o1 else o1) (operations d)) d)
       (\<lambda>d'. Inr (length (filter sel (operations d)), d'))"

definition find_row :: "('r \<Rightarrow> bool) \<Rightarrow> 'r list \<Rightarrow> go_error + 'r" where
  "find_row P rows = (case find P rows of None \<Rightarrow> Inl ErrNoRows | Some r \<Rightarrow> Inr r)"

lemma find_row_Inr: "find_row P rows = Inr r \<Longrightarrow> r \<in> set rows \<and> P r"
  by (auto simp: find_row_def split: option.splits dest: find_Some_mem)

lemma find_row_Inl: "find_row P rows = Inl e \<longleftrightarrow> e = ErrNoRows \<and> (\<forall>r\<in>set rows. \<not> P r)"
proof (cases "find P rows")
  case None
  moreover from this have "\<forall>r\<in>set rows. \<not> P r" by (auto simp: find_None_iff)
  ultimately show ?thesis by (auto simp: find_row_def)
next
  case (Some r)
  then show ?thesis using find_Some_mem[OF Some] by (auto simp: find_row_def)
qed

lemma store_operations_Inr:
  "store_operations ops d = Inr d' \<longleftrightarrow> operations_ok d ops \<and> d' = d\<lparr>operations := ops\<rparr>"
  by (auto simp: store_operations_def)

lemma update_operations_Inr:
  "update_operations sel f d = Inr (n, d') \<longleftrightarrow>
     operations_ok d (map (\<lambda>o1. if sel o1 then f o1 else o1) (operations d)) \<and>
     n = length (filter sel (operations d)) \<and>
     d' = d\<lparr>operations := map (\<lambda>o1. if sel o1 then f o1 else o1) (operations d)\<rparr>"
  by (auto simp: update_operations_def store_operations_Inr try_then_Inr_iff)

text \<open>The rows of a query in the order of a key; equal keys stay in the order of the table.\<close>

definition order_by :: "('r \<Rightarrow> 'k::linorder) \<Rightarrow> 'r list \<Rightarrow> 'r list" where
  "order_by key rows = sort_key key rows"

definition order_by_desc :: "('r \<Rightarrow> 'k::linorder) \<Rightarrow> 'r list \<Rightarrow> 'r list" where
  "order_by_desc key rows = rev (sort_key key rows)"

lemma set_order_by [simp]: "set (order_by key rows) = set rows"
  by (simp add: order_by_def)

lemma set_order_by_desc [simp]: "set (order_by_desc key rows) = set rows"
  by (simp add: order_by_desc_def)

end
