(* ===== verification/Operation_Queue.thy ===== *)
theory Operation_Queue
  imports Store_Model "HOL-Library.Product_Lexorder"
begin

text \<open>
  The queue of operations that the control plane hands to its Agents, internal/store: queueing
  with an idempotency key, delivery, start, completion and cancellation (store.go,
  scheduled_tasks.go), interruption (operation_interrupt.go) and the expiry of file scans
  (workspace_file_scans.go). \<open>op_step\<close> is the relation of all these transitions.
\<close>

section \<open>Queueing\<close>

record OperationResource =
  ProjectID :: string
  WorkspaceID :: string
  ThreadID :: string

definition no_resource :: OperationResource where
  "no_resource = \<lparr>ProjectID = [], WorkspaceID = [], ThreadID = []\<rparr>"

definition find_workspace :: "string \<Rightarrow> db \<Rightarrow> go_error + Workspace_row" where
  "find_workspace i d = find_row (\<lambda>w. w_id w = i) (workspaces d)"

definition thread_workspace :: "string \<Rightarrow> db \<Rightarrow> go_error + Workspace_row" where
  "thread_workspace i d =
     try_then (find_row (\<lambda>t. t_id t = i \<and> list_ex (\<lambda>w. w_id w = t_workspace_id t) (workspaces d)) (threads d))
       (\<lambda>t. find_workspace (t_workspace_id t) d)"

definition resolveOperationResource ::
    "string \<Rightarrow> OperationResource \<Rightarrow> db \<Rightarrow> go_error + OperationResource" where
  "resolveOperationResource serverID r d =
     (if ThreadID r \<noteq> [] then
        try_then (thread_workspace (ThreadID r) d) (\<lambda>w.
          if w_server_id w \<noteq> serverID then Inl (Err ''operation thread does not belong to server'')
          else if WorkspaceID r \<noteq> [] \<and> WorkspaceID r \<noteq> w_id w
          then Inl (Err ''operation thread does not belong to workspace'')
          else if ProjectID r \<noteq> [] \<and> ProjectID r \<noteq> w_project_id w
          then Inl (Err ''operation thread does not belong to project'')
          else Inr (r\<lparr>WorkspaceID := w_id w, ProjectID := w_project_id w\<rparr>))
      else if WorkspaceID r \<noteq> [] then
        try_then (find_workspace (WorkspaceID r) d) (\<lambda>w.
          if w_server_id w \<noteq> serverID then Inl (Err ''operation workspace does not belong to server'')
          else if ProjectID r \<noteq> [] \<and> ProjectID r \<noteq> w_project_id w
          then Inl (Err ''operation workspace does not belong to project'')
          else Inr (r\<lparr>ProjectID := w_project_id w\<rparr>))
      else if ProjectID r \<noteq> [] then
        (if length (filter (\<lambda>p. p_id p = ProjectID r) (projects d)) \<noteq> 1 then Inl ErrNoRows else Inr r)
      else Inr r)"

definition HasActiveWorkspaceWriteOperation :: "string \<Rightarrow> db \<Rightarrow> bool" where
  "HasActiveWorkspaceWriteOperation w d \<longleftrightarrow>
     0 < length (filter (\<lambda>o1. o_workspace_id o1 = Some w \<and> o_workspace_write o1 \<and> active o1) (operations d))"

definition HasActiveOperation :: "string \<Rightarrow> string \<Rightarrow> db \<Rightarrow> bool" where
  "HasActiveOperation serverID kind d \<longleftrightarrow>
     0 < length (filter (\<lambda>o1. o_server_id o1 = serverID \<and> o_kind o1 = kind
                        \<and> o_status o1 \<in> {''queued'', ''delivered''}) (operations d))"

definition operation_by_key :: "string \<Rightarrow> db \<Rightarrow> go_error + string" where
  "operation_by_key key d = try_then (find_row (\<lambda>o1. o_idempotency_key o1 = key) (operations d)) (\<lambda>o1. Inr (o_id o1))"

text \<open>A row as the \<open>INSERT\<close> leaves it, the other columns at their defaults.\<close>

definition queued_operation ::
    "string \<Rightarrow> string \<Rightarrow> OperationResource \<Rightarrow> string \<Rightarrow> stored_text \<Rightarrow> bool \<Rightarrow> string \<Rightarrow> instant \<Rightarrow> Operation" where
  "queued_operation i serverID r kind payload write key now =
     \<lparr>o_id = i, o_server_id = serverID, o_project_id = nullif_empty (ProjectID r),
      o_workspace_id = nullif_empty (WorkspaceID r), o_thread_id = nullif_empty (ThreadID r),
      o_kind = kind, o_payload = payload, o_status = ''queued'', o_workspace_write = write,
      o_result = None, o_result_data = JsonText (JObj []), o_idempotency_key = key,
      o_created_at = now, o_delivered_at = None, o_started_at = None, o_completed_at = None\<rparr>"

lemma queued_operation_sel [simp]:
  "o_id (queued_operation i srv r kind payload wr key now) = i"
  "o_server_id (queued_operation i srv r kind payload wr key now) = srv"
  "o_project_id (queued_operation i srv r kind payload wr key now) = nullif_empty (ProjectID r)"
  "o_workspace_id (queued_operation i srv r kind payload wr key now) = nullif_empty (WorkspaceID r)"
  "o_thread_id (queued_operation i srv r kind payload wr key now) = nullif_empty (ThreadID r)"
  "o_kind (queued_operation i srv r kind payload wr key now) = kind"
  "o_payload (queued_operation i srv r kind payload wr key now) = payload"
  "o_status (queued_operation i srv r kind payload wr key now) = ''queued''"
  "o_workspace_write (queued_operation i srv r kind payload wr key now) = wr"
  "o_idempotency_key (queued_operation i srv r kind payload wr key now) = key"
  "o_created_at (queued_operation i srv r kind payload wr key now) = now"
  "o_delivered_at (queued_operation i srv r kind payload wr key now) = None"
  "o_started_at (queued_operation i srv r kind payload wr key now) = None"
  by (simp_all add: queued_operation_def)

definition insert_operation :: "Operation \<Rightarrow> db \<Rightarrow> go_error + db" where
  "insert_operation row d = store_operations (operations d @ [row]) d"

text \<open>\<open>ON CONFLICT(idempotency_key) DO NOTHING\<close>\<close>

definition insert_operation_once :: "Operation \<Rightarrow> db \<Rightarrow> go_error + db" where
  "insert_operation_once row d =
     (if list_ex (\<lambda>o1. o_idempotency_key o1 = o_idempotency_key row) (operations d) then Inr d
      else insert_operation row d)"

text \<open>
  The second half of \<open>queueOperationPayload\<close>: the insertion and the look-up of the row that has
  the key, which may have been inserted by a concurrent request.
\<close>

definition queue_insert :: "Operation \<Rightarrow> bool \<Rightarrow> db \<Rightarrow> go_error + string \<times> db" where
  "queue_insert row write d =
     (case insert_operation_once row d of
        Inl e \<Rightarrow>
          (case operation_by_key (o_idempotency_key row) d of
             Inr existing \<Rightarrow> Inr (existing, d)
           | Inl _ \<Rightarrow>
               if write \<and> HasActiveWorkspaceWriteOperation (or_empty (o_workspace_id row)) d
               then Inl ErrWorkspaceWriteActive else Inl e)
      | Inr d' \<Rightarrow> try_then (operation_by_key (o_idempotency_key row) d') (\<lambda>existing. Inr (existing, d')))"

definition queueOperationPayload ::
    "string \<Rightarrow> string \<Rightarrow> stored_text \<Rightarrow> string \<Rightarrow> OperationResource \<Rightarrow> bool \<Rightarrow> string \<Rightarrow> instant \<Rightarrow> db \<Rightarrow>
     go_error + string \<times> db" where
  "queueOperationPayload serverID kind payload key resource write newID now d =
     (case operation_by_key key d of
        Inr existing \<Rightarrow> Inr (existing, d)
      | Inl _ \<Rightarrow>
          try_then (resolveOperationResource serverID resource d) (\<lambda>resolved.
            if write \<and> WorkspaceID resolved = []
            then Inl (Err ''workspace write operation requires a workspace'')
            else queue_insert (queued_operation newID serverID resolved kind payload write key now) write d))"

definition QueueOperation ::
    "string \<Rightarrow> string \<Rightarrow> json \<Rightarrow> string \<Rightarrow> string \<Rightarrow> instant \<Rightarrow> db \<Rightarrow> go_error + string \<times> db" where
  "QueueOperation serverID kind payload key newID now d =
     queueOperationPayload serverID kind (JsonText payload) key no_resource False newID now d"

definition QueueResourceOperation ::
    "string \<Rightarrow> string \<Rightarrow> json \<Rightarrow> string \<Rightarrow> OperationResource \<Rightarrow> bool \<Rightarrow> string \<Rightarrow> instant \<Rightarrow> db \<Rightarrow>
     go_error + string \<times> db" where
  "QueueResourceOperation serverID kind payload key resource write newID now d =
     queueOperationPayload serverID kind (JsonText payload) key resource write newID now d"

definition QueueEncryptedResourceOperation ::
    "string \<Rightarrow> string \<Rightarrow> string \<Rightarrow> string \<Rightarrow> OperationResource \<Rightarrow> string \<Rightarrow> instant \<Rightarrow> db \<Rightarrow>
     go_error + string \<times> db" where
  "QueueEncryptedResourceOperation serverID kind ciphertext key resource newID now d =
     (if \<not> has_prefix ciphertext ''v1:''
      then Inl (Err ''encrypted operation payload must use a supported Vault format'')
      else queueOperationPayload serverID kind (OtherText ciphertext) key resource False newID now d)"

definition QueueEncryptedOperation ::
    "string \<Rightarrow> string \<Rightarrow> string \<Rightarrow> string \<Rightarrow> string \<Rightarrow> instant \<Rightarrow> db \<Rightarrow> go_error + string \<times> db" where
  "QueueEncryptedOperation serverID kind ciphertext key newID now d =
     QueueEncryptedResourceOperation serverID kind ciphertext key no_resource newID now d"

section \<open>Delivery, start and completion\<close>

definition MarkDelivered :: "string \<Rightarrow> instant \<Rightarrow> db \<Rightarrow> go_error + db" where
  "MarkDelivered i now d =
     try_then (update_operations (\<lambda>o1. o_id o1 = i \<and> o_status o1 = ''queued'')
         (\<lambda>o1. o1\<lparr>o_status := ''delivered'', o_delivered_at := Some now\<rparr>) d)
       (\<lambda>(_, d'). Inr d')"

definition MarkRunning :: "string \<Rightarrow> instant \<Rightarrow> db \<Rightarrow> go_error + db" where
  "MarkRunning i now d =
     try_then (update_operations (\<lambda>o1. o_id o1 = i \<and> active o1)
         (\<lambda>o1. o1\<lparr>o_status := ''running'',
                  o_delivered_at := Some (coalesce (o_delivered_at o1) now),
                  o_started_at := Some (coalesce (o_started_at o1) now)\<rparr>) d)
       (\<lambda>(_, d'). Inr d')"

definition operationResultData :: "raw_message option \<Rightarrow> go_error + stored_text" where
  "operationResultData data =
     (case data of
        None \<Rightarrow> Inr (JsonText (JObj []))
      | Some None \<Rightarrow> Inl (Err ''operation result data must be valid JSON'')
      | Some (Some v) \<Rightarrow> Inr (JsonText v))"

definition finish :: "string \<Rightarrow> string \<Rightarrow> stored_text \<Rightarrow> instant \<Rightarrow> Operation \<Rightarrow> Operation" where
  "finish status message data now o1 =
     o1\<lparr>o_status := status, o_result := Some message, o_result_data := data, o_completed_at := Some now\<rparr>"

definition CompleteOperationIfActive :: "OperationResult \<Rightarrow> instant \<Rightarrow> db \<Rightarrow> go_error + bool \<times> db" where
  "CompleteOperationIfActive r now d =
     try_then (operationResultData (ResultData r)) (\<lambda>data.
       try_then (update_operations (\<lambda>o1. o_id o1 = ResultOperationID r \<and> active o1)
           (finish (ResultStatus r) (ResultMessage r) data now) d)
         (\<lambda>(count, d'). Inr (count = 1, d')))"

definition CompleteOperation :: "OperationResult \<Rightarrow> instant \<Rightarrow> db \<Rightarrow> go_error + db" where
  "CompleteOperation r now d = try_then (CompleteOperationIfActive r now d) (\<lambda>(_, d'). Inr d')"

definition CancelOperation :: "string \<Rightarrow> string \<Rightarrow> instant \<Rightarrow> db \<Rightarrow> go_error + bool \<times> db" where
  "CancelOperation i message now d =
     try_then (update_operations (\<lambda>o1. o_id o1 = i \<and> active o1)
         (\<lambda>o1. o1\<lparr>o_status := ''cancelled'', o_result := Some message, o_completed_at := Some now\<rparr>) d)
       (\<lambda>(count, d'). Inr (0 < count, d'))"

section \<open>Interruption\<close>

definition interrupt_prefix :: "string \<Rightarrow> string" where
  "interrupt_prefix i = ''operation-interrupt:'' @ i @ '':''"

definition interrupts_of :: "string \<Rightarrow> db \<Rightarrow> Operation list" where
  "interrupts_of i d =
     filter (\<lambda>o1. o_kind o1 = ''operation.interrupt'' \<and>
                 interrupt_prefix i \<le> o_idempotency_key o1 \<and>
                 o_idempotency_key o1 < ''operation-interrupt:'' @ i @ '';'') (operations d)"

text \<open>\<open>ORDER BY created_at DESC,id DESC LIMIT 1\<close>\<close>

definition latest_interrupt :: "string \<Rightarrow> db \<Rightarrow> Operation option" where
  "latest_interrupt i d =
     (case order_by_desc (\<lambda>o1. (o_created_at o1, o_id o1)) (interrupts_of i d) of
        [] \<Rightarrow> None | o1 # _ \<Rightarrow> Some o1)"

definition interrupt_command :: "OperationInterruptCommand \<Rightarrow> json" where
  "interrupt_command c =
     JObj [(''operation_id'', JStr (TargetOperationID c)), (''kind'', JStr (TargetKind c))]"

definition RequestOperationInterrupt :: "string \<Rightarrow> string \<Rightarrow> instant \<Rightarrow> db \<Rightarrow> go_error + string \<times> db" where
  "RequestOperationInterrupt i newID now d =
     try_then (update_operations (\<lambda>o1. o_id o1 = i \<and> active o1) (\<lambda>o1. o1) d) (\<lambda>(count, d').
       if count = 0 then Inl ErrOperationNotActive
       else try_then (find_row (\<lambda>o1. o_id o1 = i) (operations d')) (\<lambda>target.
         if \<not> CanInterruptOperation (o_kind target) \<or> o_workspace_write target
         then Inl (Err ''operation does not support interruption'')
         else
           (let previous = latest_interrupt i d' in
            if (case previous of None \<Rightarrow> False | Some p \<Rightarrow> active p)
            then Inr (o_id (the previous), d')
            else try_then
              (insert_operation
                (queued_operation newID (o_server_id target)
                   \<lparr>ProjectID = or_empty (o_project_id target),
                    WorkspaceID = or_empty (o_workspace_id target), ThreadID = []\<rparr>
                   ''operation.interrupt''
                   (JsonText (interrupt_command \<lparr>TargetOperationID = i, TargetKind = o_kind target\<rparr>))
                   False (interrupt_prefix i @ (case previous of None \<Rightarrow> [] | Some p \<Rightarrow> o_id p)) now) d')
              (\<lambda>d''. Inr (newID, d'')))))"

definition snapshot_of_kind :: "string \<Rightarrow> snapshot_table option" where
  "snapshot_of_kind kind =
     (if kind = ''git.workspace.inspect'' then Some GitSnapshots
      else if kind = ''workspace.files'' then Some FileSnapshots
      else if kind = ''workspace.changes'' then Some ChangeSnapshots
      else if kind = ''workspace.file.preview'' then Some FilePreviews
      else if kind = ''workspace.diff.preview'' then Some DiffPreviews
      else None)"

definition update_snapshots ::
    "snapshot_table \<Rightarrow> (Snapshot_row \<Rightarrow> bool) \<Rightarrow> (Snapshot_row \<Rightarrow> Snapshot_row) \<Rightarrow> db \<Rightarrow> db" where
  "update_snapshots tab sel f d =
     d\<lparr>snapshots := (snapshots d)(tab := map (\<lambda>r. if sel r then f r else r) (snapshots d tab))\<rparr>"

text \<open>\<open>requested_at <= ?\<close>; a comparison with NULL selects nothing.\<close>

definition requested_by :: "instant \<Rightarrow> Snapshot_row \<Rightarrow> bool" where
  "requested_by at r \<longleftrightarrow> (case sn_requested_at r of None \<Rightarrow> False | Some q \<Rightarrow> q \<le> at)"

text \<open>
  An upsert of a snapshot row: \<open>ins\<close> is the row of the \<open>INSERT\<close>, \<open>upd\<close> the \<open>ON CONFLICT\<close> update.
\<close>

definition upsert_snapshot ::
    "snapshot_table \<Rightarrow> Snapshot_row \<Rightarrow> (Snapshot_row \<Rightarrow> Snapshot_row) \<Rightarrow> db \<Rightarrow> go_error + db" where
  "upsert_snapshot tab ins upd d =
     (if list_ex (\<lambda>r. sn_workspace_id r = sn_workspace_id ins) (snapshots d tab)
      then Inr (update_snapshots tab (\<lambda>r. sn_workspace_id r = sn_workspace_id ins) upd d)
      else if sn_workspace_id ins \<in> set (map w_id (workspaces d))
      then Inr (d\<lparr>snapshots := (snapshots d)(tab := snapshots d tab @ [ins])\<rparr>)
      else Inl ConstraintFailed)"

section \<open>File scans\<close>

definition WorkspaceFileScanTimeout :: duration where
  "WorkspaceFileScanTimeout = 11 * ns_minute"

definition workspaceFileScanTimeoutMessage :: string where
  "workspaceFileScanTimeoutMessage = ''Workspace file scan timed out. Please refresh to retry.''"

definition last_progress :: "Operation \<Rightarrow> instant" where
  "last_progress o1 = coalesce (o_started_at o1) (coalesce (o_delivered_at o1) (o_created_at o1))"

definition ExpireWorkspaceFileScans :: "instant \<Rightarrow> db \<Rightarrow> go_error + db" where
  "ExpireWorkspaceFileScans now d =
     (let cutoff = now - WorkspaceFileScanTimeout in
      try_then (update_operations
          (\<lambda>o1. o_kind o1 = ''workspace.files'' \<and> active o1 \<and> last_progress o1 \<le> cutoff)
          (\<lambda>o1. o1\<lparr>o_status := ''failed'', o_result := Some workspaceFileScanTimeoutMessage,
                   o_completed_at := Some now\<rparr>) d)
        (\<lambda>(_, d'). Inr (update_snapshots FileSnapshots
          (\<lambda>r. sn_status r = ''scanning'' \<and> requested_by cutoff r \<and>
               \<not> list_ex (\<lambda>o1. o_workspace_id o1 = Some (sn_workspace_id r) \<and>
                              o_kind o1 = ''workspace.files'' \<and> active o1) (operations d'))
          (\<lambda>r. r\<lparr>sn_status := ''failed'', sn_error := workspaceFileScanTimeoutMessage\<rparr>) d')))"

definition scan_result :: "OperationResult \<Rightarrow> go_error + stored_text \<times> bool" where
  "scan_result r =
     (if ResultStatus r = ''succeeded''
      then (case ResultData r of
              Some (Some doc) \<Rightarrow> 
                (case decode_WorkspaceFilesResult doc of
                   None \<Rightarrow> Inl BadJSON
                 | Some v \<Rightarrow> Inr (JsonText (encode_files (Files v)), Truncated v))
            | _ \<Rightarrow> Inl BadJSON)
      else Inr (OtherText [], False))"

definition CompleteWorkspaceFileScan ::
    "Operation \<Rightarrow> string \<Rightarrow> OperationResult \<Rightarrow> instant \<Rightarrow> db \<Rightarrow>
     go_error + bool \<times> db" where
  "CompleteWorkspaceFileScan op1 workspaceID r now d =
     try_then (operationResultData (ResultData r)) (\<lambda>data.
     try_then (scan_result r) (\<lambda>(files, truncated).
     try_then (update_operations
         (\<lambda>o1. o_id o1 = o_id op1 \<and> o_kind o1 = ''workspace.files'' \<and> active o1)
         (finish (ResultStatus r) (ResultMessage r) data now) d)
       (\<lambda>(count, d').
         if count = 0 then Inr (False, d)
         else if list_ex (\<lambda>o1. o_workspace_id o1 = Some workspaceID \<and> o_kind o1 = ''workspace.files'' \<and>
                               o_created_at op1 < o_created_at o1) (operations d')
         then Inr (True, d')
         else try_then
           (if ResultStatus r = ''succeeded''
            then upsert_snapshot FileSnapshots
              \<lparr>sn_workspace_id = workspaceID, sn_path = [], sn_data = files, sn_truncated = truncated,
               sn_status = ''succeeded'', sn_error = [], sn_requested_at = Some now,
               sn_updated_at = Some now\<rparr>
              (\<lambda>s1. s1\<lparr>sn_data := files, sn_truncated := truncated, sn_status := ''succeeded'',
                       sn_error := [], sn_updated_at := Some now\<rparr>) d'
            else upsert_snapshot FileSnapshots
              \<lparr>sn_workspace_id = workspaceID, sn_path = [], sn_data = JsonText (JArr []),
               sn_truncated = False, sn_status = ''failed'', sn_error = ResultMessage r,
               sn_requested_at = Some now, sn_updated_at = None\<rparr>
              (\<lambda>s1. s1\<lparr>sn_status := ''failed'', sn_error := ResultMessage r\<rparr>) d')
           (\<lambda>d''. Inr (True, d'')))))"

text \<open>
  The failure of a claim leaves the transaction without a commit, so the database is the one at
  the start; the row update and the snapshot of an interrupted operation are one transaction.
\<close>

definition CompleteInterruptedOperation ::
    "Operation \<Rightarrow> OperationResult \<Rightarrow> instant \<Rightarrow> db \<Rightarrow>
     go_error + bool \<times> db" where
  "CompleteInterruptedOperation op1 r now d =
     (if \<not> CanInterruptOperation (o_kind op1) \<or> ResultStatus r \<noteq> ''cancelled''
      then Inl (Err ''invalid interrupted operation'')
      else case stored_json (o_payload op1) of
        None \<Rightarrow> Inl BadJSON
      | Some command \<Rightarrow>
        (case (str_field ''workspace_id'' command, str_field ''path'' command) of
           (Some workspaceID, Some path) \<Rightarrow>
             if o_kind op1 = ''workspace.files''
             then CompleteWorkspaceFileScan op1 workspaceID r now d
             else try_then (update_operations (\<lambda>o1. o_id o1 = o_id op1 \<and> active o1)
                 (finish ''cancelled'' (ResultMessage r) (JsonText (JObj [])) now) d)
               (\<lambda>(count, d').
                 if count = 0 then Inr (False, d)
                 else case snapshot_of_kind (o_kind op1) of
                   None \<Rightarrow> Inr (True, d')
                 | Some tab \<Rightarrow> Inr (True, update_snapshots tab
                     (\<lambda>s1. sn_workspace_id s1 = workspaceID \<and> requested_by (o_created_at op1) s1 \<and>
                          sn_status s1 \<in> {''scanning'', ''refreshing'', ''loading''} \<and>
                          (o_kind op1 \<in> {''workspace.file.preview'', ''workspace.diff.preview''}
                             \<longrightarrow> sn_path s1 = path))
                     (\<lambda>s1. s1\<lparr>sn_status := ''failed'', sn_error := ResultMessage r\<rparr>) d'))
         | _ \<Rightarrow> Inl BadJSON))"

section \<open>Reading the queue\<close>

definition operation_row :: "string \<Rightarrow> db \<Rightarrow> go_error + Operation" where
  "operation_row i d = find_row (\<lambda>o1. o_id o1 = i) (operations d)"

definition claimed_turn_kinds :: "string list" where
  "claimed_turn_kinds = [''gemini.turn.start'', ''gemini.turn.rewrite'', ''claude.turn.start'']"

definition deliverable :: "string \<Rightarrow> instant \<Rightarrow> Operation \<Rightarrow> bool" where
  "deliverable serverID cutoff o1 \<longleftrightarrow>
     o_server_id o1 = serverID \<and>
     (o_status o1 = ''queued'' \<or>
      o_status o1 = ''delivered'' \<and>
        (case o_delivered_at o1 of None \<Rightarrow> False | Some at \<Rightarrow> at < cutoff) \<and>
        o_kind o1 \<notin> set claimed_turn_kinds \<or>
      o_kind o1 = ''operation.interrupt'' \<and> o_status o1 = ''running'' \<and> last_progress o1 < cutoff)"

definition PendingOperations :: "string \<Rightarrow> instant \<Rightarrow> db \<Rightarrow> Operation list" where
  "PendingOperations serverID now d =
     take 100 (order_by (\<lambda>o1. (if o_kind o1 = ''operation.interrupt'' then 0 else 1 :: nat, o_created_at o1))
       (filter (deliverable serverID (now - 30 * ns_second)) (operations d)))"

definition operationListLimit :: "int \<Rightarrow> int" where
  "operationListLimit limit = (if limit \<le> 0 then 100 else if limit > 500 then 500 else limit)"

definition ListProjectOperations :: "string \<Rightarrow> int \<Rightarrow> db \<Rightarrow> Operation list" where
  "ListProjectOperations projectID limit d =
     take (nat (operationListLimit limit)) (order_by_desc o_created_at
       (filter (\<lambda>o1. o_project_id o1 = Some projectID \<or>
                    (\<exists>w\<in>set (workspaces d). w_project_id w = projectID \<and> o_workspace_id o1 = Some (w_id w)))
         (operations d)))"

definition ListWorkspaceOperations :: "string \<Rightarrow> int \<Rightarrow> db \<Rightarrow> Operation list" where
  "ListWorkspaceOperations workspaceID limit d =
     take (nat (operationListLimit limit)) (order_by_desc o_created_at
       (filter (\<lambda>o1. o_workspace_id o1 = Some workspaceID) (operations d)))"

section \<open>Transitions of the queue\<close>

text \<open>
  Any operation of the component, with any arguments, that succeeds; \<open>queue_late\<close> is the second
  half of a queueing that started in an earlier state. Interruptions are queued by
  \<open>RequestOperationInterrupt\<close> only, and a fresh identifier is a UUID, which has no colon.
\<close>

definition uuid_like :: "string \<Rightarrow> bool" where
  "uuid_like s \<longleftrightarrow> CHR '':'' \<notin> set s"

inductive op_step :: "db \<Rightarrow> db \<Rightarrow> bool" where
  queue: "queueOperationPayload srv kind payload key res write newID now d = Inr (i, d') \<Longrightarrow>
    kind \<noteq> ''operation.interrupt'' \<Longrightarrow> uuid_like newID \<Longrightarrow> op_step d d'"
| queue_late: "queue_insert (queued_operation newID srv res kind payload write key now) write d = Inr (i, d') \<Longrightarrow>
    kind \<noteq> ''operation.interrupt'' \<Longrightarrow> uuid_like newID \<Longrightarrow> op_step d d'"
| deliver: "MarkDelivered i now d = Inr d' \<Longrightarrow> op_step d d'"
| start: "MarkRunning i now d = Inr d' \<Longrightarrow> op_step d d'"
| complete: "CompleteOperationIfActive r now d = Inr (changed, d') \<Longrightarrow> op_step d d'"
| cancel: "CancelOperation i message now d = Inr (changed, d') \<Longrightarrow> op_step d d'"
| interrupt: "RequestOperationInterrupt i newID now d = Inr (j, d') \<Longrightarrow> uuid_like newID \<Longrightarrow> op_step d d'"
| interrupted: "CompleteInterruptedOperation op1 r now d = Inr (changed, d') \<Longrightarrow> op_step d d'"
| expire: "ExpireWorkspaceFileScans now d = Inr d' \<Longrightarrow> op_step d d'"
| scanned: "CompleteWorkspaceFileScan op1 ws r now d = Inr (changed, d') \<Longrightarrow> op_step d d'"

text \<open>
  What every transition does to the table: it rewrites rows in place, only rows of active
  operations, never their identity, and it may append one queued row.
\<close>

definition row_kept :: "Operation \<Rightarrow> Operation \<Rightarrow> bool" where
  "row_kept o1 o2 \<longleftrightarrow>
     o_id o2 = o_id o1 \<and> o_idempotency_key o2 = o_idempotency_key o1 \<and> o_kind o2 = o_kind o1 \<and>
     o_server_id o2 = o_server_id o1 \<and> o_project_id o2 = o_project_id o1 \<and>
     o_workspace_id o2 = o_workspace_id o1 \<and> o_thread_id o2 = o_thread_id o1 \<and>
     o_payload o2 = o_payload o1 \<and> o_workspace_write o2 = o_workspace_write o1 \<and>
     o_created_at o2 = o_created_at o1 \<and> (\<not> active o1 \<longrightarrow> o2 = o1)"

definition rows_kept :: "Operation list \<Rightarrow> Operation list \<Rightarrow> bool" where
  "rows_kept xs ys \<longleftrightarrow> list_all2 row_kept xs (take (length xs) ys)"

definition rewritten :: "db \<Rightarrow> db \<Rightarrow> bool" where
  "rewritten d d' \<longleftrightarrow>
     (\<exists>f. operations d' = map f (operations d) \<and> (\<forall>o1. row_kept o1 (f o1))) \<and>
     servers d' = servers d \<and> projects d' = projects d \<and> workspaces d' = workspaces d \<and>
     threads d' = threads d \<and> events d' = events d"

definition appended :: "Operation \<Rightarrow> db \<Rightarrow> db \<Rightarrow> bool" where
  "appended row d d' \<longleftrightarrow>
     d' = d\<lparr>operations := operations d @ [row]\<rparr> \<and> operations_ok d (operations d @ [row])"

lemma row_kept_refl [simp]: "row_kept o1 o1"
  by (simp add: row_kept_def)

lemma row_kept_trans: "row_kept a b \<Longrightarrow> row_kept b c \<Longrightarrow> row_kept a c"
  by (auto simp: row_kept_def)

lemma rewritten_refl [simp]: "rewritten d d"
  unfolding rewritten_def by (intro conjI exI[of _ id]) auto

lemma rewritten_snapshots [simp]: "rewritten d (update_snapshots tab sel f d') = rewritten d d'"
  by (simp add: rewritten_def update_snapshots_def)

lemma rewritten_upsert: "upsert_snapshot tab row upd d' = Inr d'' \<Longrightarrow> rewritten d d'' = rewritten d d'"
  by (auto simp: upsert_snapshot_def rewritten_def update_snapshots_def split: if_splits)

lemma rewritten_update:
  assumes "update_operations sel f d = Inr (n, d')" and "\<And>o1. sel o1 \<Longrightarrow> row_kept o1 (f o1)"
  shows "rewritten d d'"
  using assms unfolding update_operations_Inr rewritten_def
  by (auto intro!: exI[of _ "\<lambda>o1. if sel o1 then f o1 else o1"])

lemma row_kept_active:
  assumes "active o1"
  shows "row_kept o1 (finish st msg data now o1)"
    and "row_kept o1 (o1\<lparr>o_status := st, o_delivered_at := x\<rparr>)"
    and "row_kept o1 (o1\<lparr>o_status := st, o_delivered_at := x, o_started_at := y\<rparr>)"
    and "row_kept o1 (o1\<lparr>o_status := st, o_result := z, o_completed_at := x\<rparr>)"
  using assms by (simp_all add: row_kept_def finish_def)

lemma queued_active: "o_status o1 = ''queued'' \<Longrightarrow> active o1"
  by (simp add: active_def active_statuses_def)

lemma MarkDelivered_rewritten: "MarkDelivered i now d = Inr d' \<Longrightarrow> rewritten d d'"
  by (auto simp: MarkDelivered_def try_then_Inr_iff elim!: rewritten_update
      intro: row_kept_active queued_active)

lemma MarkRunning_rewritten: "MarkRunning i now d = Inr d' \<Longrightarrow> rewritten d d'"
  by (auto simp: MarkRunning_def try_then_Inr_iff elim!: rewritten_update intro: row_kept_active)

lemma Complete_rewritten: "CompleteOperationIfActive r now d = Inr (c, d') \<Longrightarrow> rewritten d d'"
  by (auto simp: CompleteOperationIfActive_def try_then_Inr_iff elim!: rewritten_update
      intro: row_kept_active)

lemma Cancel_rewritten: "CancelOperation i msg now d = Inr (c, d') \<Longrightarrow> rewritten d d'"
  by (auto simp: CancelOperation_def try_then_Inr_iff elim!: rewritten_update intro: row_kept_active)

lemma Expire_rewritten: "ExpireWorkspaceFileScans now d = Inr d' \<Longrightarrow> rewritten d d'"
  by (auto simp: ExpireWorkspaceFileScans_def Let_def try_then_Inr_iff elim!: rewritten_update
      intro: row_kept_active)

lemma Scan_rewritten: "CompleteWorkspaceFileScan op1 ws r now d = Inr (c, d') \<Longrightarrow> rewritten d d'"
  by (auto simp: CompleteWorkspaceFileScan_def try_then_Inr_iff rewritten_upsert
      split: if_splits elim!: rewritten_update intro: row_kept_active)

lemma Interrupted_rewritten:
  "CompleteInterruptedOperation op1 r now d = Inr (c, d') \<Longrightarrow> rewritten d d'"
  by (auto simp: CompleteInterruptedOperation_def try_then_Inr_iff
      split: if_splits option.splits elim!: rewritten_update Scan_rewritten intro: row_kept_active)

lemma insert_operation_Inr: "insert_operation row d = Inr d' \<longleftrightarrow> appended row d d'"
  by (auto simp: insert_operation_def store_operations_Inr appended_def)

lemma update_identity: "update_operations sel (\<lambda>o1. o1) d = Inr (n, d') \<Longrightarrow>
    d' = d \<and> n = length (filter sel (operations d))"
  by (auto simp: update_operations_Inr)

lemma operation_by_key_Inr:
  "operation_by_key key d = Inr i \<Longrightarrow>
   \<exists>o1\<in>set (operations d). o_idempotency_key o1 = key \<and> o_id o1 = i"
  by (auto simp: operation_by_key_def try_then_Inr_iff dest: find_row_Inr)

lemma operation_by_key_Inl:
  "operation_by_key key d = Inl e \<longleftrightarrow>
   e = ErrNoRows \<and> (\<forall>o1\<in>set (operations d). o_idempotency_key o1 \<noteq> key)"
  by (auto simp: operation_by_key_def try_then_Inl_iff find_row_Inl)

lemma operation_by_key_unique:
  assumes "distinct (map o_idempotency_key (operations d))" and "o1 \<in> set (operations d)"
  shows "operation_by_key (o_idempotency_key o1) d = Inr (o_id o1)"
proof (cases "operation_by_key (o_idempotency_key o1) d")
  case (Inl e)
  then show ?thesis using assms(2) by (auto simp: operation_by_key_Inl)
next
  case (Inr i)
  from operation_by_key_Inr[OF this] obtain o2 where
    "o2 \<in> set (operations d)" "o_idempotency_key o2 = o_idempotency_key o1" "o_id o2 = i" by blast
  then show ?thesis using Inr assms by (metis distinct_map inj_onD)
qed

lemma queue_insert_cases:
  assumes "queue_insert row write d = Inr (i, d')"
  shows "(d' = d \<and> operation_by_key (o_idempotency_key row) d = Inr i) \<or>
         (appended row d d' \<and> i = o_id row \<and>
          (\<forall>o1\<in>set (operations d). o_idempotency_key o1 \<noteq> o_idempotency_key row))"
proof (cases "list_ex (\<lambda>o1. o_idempotency_key o1 = o_idempotency_key row) (operations d)")
  case True
  then show ?thesis
    using assms by (auto simp: queue_insert_def insert_operation_once_def try_then_Inr_iff)
next
  case False
  then have new: "\<forall>o1\<in>set (operations d). o_idempotency_key o1 \<noteq> o_idempotency_key row"
    by (auto simp: list_ex_iff)
  show ?thesis
  proof (cases "insert_operation row d")
    case (Inl e)
    then show ?thesis
      using assms False new
      by (auto simp: queue_insert_def insert_operation_once_def operation_by_key_Inl
          split: sum.splits if_splits)
  next
    case (Inr d1)
    then have app: "appended row d d1" by (simp add: insert_operation_Inr)
    then have "distinct (map o_idempotency_key (operations d1))" and "row \<in> set (operations d1)"
      by (auto simp: appended_def operations_ok_def)
    then have "operation_by_key (o_idempotency_key row) d1 = Inr (o_id row)"
      by (rule operation_by_key_unique)
    then show ?thesis
      using assms Inr False new app by (auto simp: queue_insert_def insert_operation_once_def)
  qed
qed

lemma queue_cases:
  assumes "queueOperationPayload srv kind payload key res write newID now d = Inr (i, d')"
  shows "(d' = d \<and> operation_by_key key d = Inr i) \<or>
    (\<exists>r. resolveOperationResource srv res d = Inr r \<and>
       appended (queued_operation newID srv r kind payload write key now) d d' \<and> i = newID \<and>
       (\<forall>o1\<in>set (operations d). o_idempotency_key o1 \<noteq> key))"
proof -
  have key: "o_idempotency_key (queued_operation newID srv r kind payload write key now) = key"
    and oid: "o_id (queued_operation newID srv r kind payload write key now) = newID" for r
    by (simp_all add: queued_operation_def)
  show ?thesis
  proof (cases "operation_by_key key d")
    case (Inr x)
    then show ?thesis using assms by (simp add: queueOperationPayload_def)
  next
    case (Inl e)
    then obtain r where r: "resolveOperationResource srv res d = Inr r"
      and "queue_insert (queued_operation newID srv r kind payload write key now) write d = Inr (i, d')"
      using assms by (auto simp: queueOperationPayload_def try_then_Inr_iff split: if_splits)
    from queue_insert_cases[OF this(2)] r Inl show ?thesis unfolding key oid by auto
  qed
qed

definition interrupt_row :: "string \<Rightarrow> string \<Rightarrow> instant \<Rightarrow> Operation \<Rightarrow> Operation option \<Rightarrow> Operation" where
  "interrupt_row i newID now target previous =
     queued_operation newID (o_server_id target)
       \<lparr>ProjectID = or_empty (o_project_id target),
        WorkspaceID = or_empty (o_workspace_id target), ThreadID = []\<rparr>
       ''operation.interrupt''
       (JsonText (interrupt_command \<lparr>TargetOperationID = i, TargetKind = o_kind target\<rparr>))
       False (interrupt_prefix i @ (case previous of None \<Rightarrow> [] | Some p \<Rightarrow> o_id p)) now"

lemma interrupt_cases:
  assumes "RequestOperationInterrupt i newID now d = Inr (j, d')"
  shows "(\<exists>p. d' = d \<and> latest_interrupt i d = Some p \<and> active p \<and> j = o_id p) \<or>
    (\<exists>target\<in>set (operations d). o_id target = i \<and> j = newID \<and> CanInterruptOperation (o_kind target) \<and>
       \<not> o_workspace_write target \<and> (\<forall>p. latest_interrupt i d = Some p \<longrightarrow> \<not> active p) \<and>
       appended (interrupt_row i newID now target (latest_interrupt i d)) d d')"
proof -
  obtain count d1 where upd: "update_operations (\<lambda>o1. o_id o1 = i \<and> active o1) (\<lambda>o1. o1) d = Inr (count, d1)"
    using assms by (auto simp: RequestOperationInterrupt_def try_then_Inr_iff)
  then have d1: "d1 = d" by (simp add: update_identity)
  obtain target where t: "find_row (\<lambda>o1. o_id o1 = i) (operations d) = Inr target"
    using assms upd d1 by (auto simp: RequestOperationInterrupt_def try_then_Inr_iff split: if_splits)
  have mem: "target \<in> set (operations d)" "o_id target = i" using find_row_Inr[OF t] by auto
  show ?thesis
    using assms mem
    by (cases "latest_interrupt i d")
      (auto simp: RequestOperationInterrupt_def upd d1 t Let_def try_then_Inr_iff insert_operation_Inr
        interrupt_row_def[symmetric] interrupt_row_def[of _ _ _ _ None, simplified, symmetric]
        interrupt_row_def[of _ _ _ _ "Some p" for p, simplified, symmetric] split: if_splits)
qed

lemma op_step_cases:
  assumes "op_step d d'"
  shows "rewritten d d' \<or> (\<exists>row. appended row d d' \<and> o_status row = ''queued'')"
  using assms
proof (cases rule: op_step.cases)
  case (queue srv kind payload key res wr newID now i)
  from queue_cases[OF queue(1)] show ?thesis by (auto simp: queued_operation_def)
next
  case (queue_late newID srv res kind payload wr key now i)
  from queue_insert_cases[OF queue_late(1)] show ?thesis by (auto simp: queued_operation_def)
next
  case (interrupt i newID now j)
  from interrupt_cases[OF interrupt(1)] show ?thesis by (auto simp: queued_operation_def interrupt_row_def)
qed (auto simp: MarkDelivered_rewritten MarkRunning_rewritten Complete_rewritten Cancel_rewritten
    Interrupted_rewritten Expire_rewritten Scan_rewritten)

lemma rows_kept_refl [simp]: "rows_kept xs xs"
  by (simp add: rows_kept_def list_all2_same)

lemma rows_kept_nth:
  "rows_kept xs ys \<longleftrightarrow> length xs \<le> length ys \<and> (\<forall>i<length xs. row_kept (xs ! i) (ys ! i))"
  by (auto simp: rows_kept_def list_all2_conv_all_nth min_def)

lemma rows_kept_trans: "rows_kept xs ys \<Longrightarrow> rows_kept ys zs \<Longrightarrow> rows_kept xs zs"
  by (auto simp: rows_kept_nth intro: row_kept_trans)

lemma rows_kept_mem:
  assumes "rows_kept xs ys" and "x \<in> set xs"
  shows "\<exists>y\<in>set ys. row_kept x y"
proof -
  obtain i where "i < length xs" "xs ! i = x" using assms(2) by (auto simp: in_set_conv_nth)
  then have "row_kept x (ys ! i)" "ys ! i \<in> set ys" using assms(1) by (auto simp: rows_kept_nth)
  then show ?thesis by blast
qed

lemma op_step_rows_kept:
  assumes "op_step d d'"
  shows "rows_kept (operations d) (operations d')"
  using op_step_cases[OF assms]
  by (auto simp: rewritten_def appended_def rows_kept_nth nth_append)

lemma op_run_rows_kept:
  "rtranclp op_step d d' \<Longrightarrow> rows_kept (operations d) (operations d')"
  by (induction rule: rtranclp_induct) (auto intro: rows_kept_trans op_step_rows_kept)

text \<open>The constraints hold in every state of a run.\<close>

definition consistent :: "db \<Rightarrow> bool" where
  "consistent d \<longleftrightarrow> operations_ok d (operations d)"

lemma update_consistent: "update_operations sel f d = Inr (n, d') \<Longrightarrow> consistent d'"
  by (auto simp: update_operations_Inr consistent_def operations_ok_def operation_refs_def[abs_def])

lemma consistent_snapshots [simp]: "consistent (update_snapshots tab sel f d) = consistent d"
  by (simp add: consistent_def operations_ok_def operation_refs_def[abs_def] update_snapshots_def)

lemma consistent_upsert: "upsert_snapshot tab row upd d = Inr d' \<Longrightarrow> consistent d' = consistent d"
  by (auto simp: upsert_snapshot_def consistent_def operations_ok_def operation_refs_def[abs_def]
      update_snapshots_def split: if_splits)

lemma consistent_appended: "appended row d d' \<Longrightarrow> consistent d'"
  by (auto simp: appended_def consistent_def operations_ok_def operation_refs_def[abs_def])

lemma Scan_consistent:
  "CompleteWorkspaceFileScan op1 ws r now d = Inr (c, d') \<Longrightarrow> consistent d \<Longrightarrow> consistent d'"
  by (auto simp: CompleteWorkspaceFileScan_def try_then_Inr_iff consistent_upsert
      split: if_splits dest: update_consistent)

lemma op_step_consistent:
  assumes "consistent d" and "op_step d d'"
  shows "consistent d'"
  using assms(2)
proof (cases rule: op_step.cases)
  case (queue srv kind payload key res wr newID now i)
  from queue_cases[OF queue(1)] assms(1) show ?thesis by (auto intro: consistent_appended)
next
  case (queue_late newID srv res kind payload wr key now i)
  from queue_insert_cases[OF queue_late(1)] assms(1) show ?thesis by (auto intro: consistent_appended)
next
  case (interrupt i newID now j)
  from interrupt_cases[OF interrupt(1)] assms(1) show ?thesis by (auto intro: consistent_appended)
next
  case (interrupted op1 r now changed)
  then show ?thesis
    using assms(1)
    by (auto simp: CompleteInterruptedOperation_def try_then_Inr_iff
        split: if_splits option.splits dest: update_consistent elim!: Scan_consistent)
qed (use assms(1) in \<open>auto simp: MarkDelivered_def MarkRunning_def CompleteOperationIfActive_def
    CancelOperation_def ExpireWorkspaceFileScans_def Let_def try_then_Inr_iff
    dest: update_consistent elim: Scan_consistent\<close>)

interpretation queue_system: invariant_system consistent op_step consistent
  by unfold_locales (auto intro: op_step_consistent)

section \<open>Properties of the queue\<close>


text \<open>
  C2: Queueing is idempotent: after a request with some key has returned an operation, every later
  request with that key returns the same operation and changes nothing, whatever it asks for and
  whatever happened to the queue in between.
\<close>

theorem queue_idempotent:
  assumes "consistent d"
    and "queueOperationPayload srv kind payload key res write newID now d = Inr (i, d1)"
    and "rtranclp op_step d1 d2"
  shows "queueOperationPayload srv' kind' payload' key res' write' newID' now' d2 = Inr (i, d2)"
proof -
  have cons: "consistent d1"
    using queue_cases[OF assms(2)] assms(1) by (auto intro: consistent_appended)
  obtain o1 where o1: "o1 \<in> set (operations d1)" "o_idempotency_key o1 = key" "o_id o1 = i"
    using queue_cases[OF assms(2)]
    by (auto simp: appended_def dest!: operation_by_key_Inr) (metis queued_operation_sel(1,10))
  obtain o2 where o2: "o2 \<in> set (operations d2)" "row_kept o1 o2"
    using rows_kept_mem[OF op_run_rows_kept[OF assms(3)] o1(1)] by blast
  have "consistent d2" using queue_system.inv_run[OF assms(3) cons] .
  then have "operation_by_key (o_idempotency_key o2) d2 = Inr (o_id o2)"
    using o2(1) by (intro operation_by_key_unique) (auto simp: consistent_def operations_ok_def)
  then show ?thesis using o1 o2(2) by (simp add: queueOperationPayload_def row_kept_def)
qed

lemma resolve_cases:
  assumes "resolveOperationResource srv res d = Inr r"
  shows "(\<exists>w\<in>set (workspaces d). w_id w = WorkspaceID r \<and> w_project_id w = ProjectID r \<and>
            w_server_id w = srv \<and> (ThreadID r \<noteq> [] \<longrightarrow> ThreadID r \<in> t_id ` set (threads d))) \<or>
         (WorkspaceID r = [] \<and> ThreadID r = [] \<and>
            (ProjectID r \<noteq> [] \<longrightarrow> ProjectID r \<in> p_id ` set (projects d)))"
proof (cases "ThreadID res = []")
  case False
  then obtain w where w: "thread_workspace (ThreadID res) d = Inr w" "w_server_id w = srv"
      "r = res\<lparr>WorkspaceID := w_id w, ProjectID := w_project_id w\<rparr>"
    using assms by (auto simp: resolveOperationResource_def try_then_Inr_iff split: if_splits)
  then obtain t where "t \<in> set (threads d)" "t_id t = ThreadID res" "w \<in> set (workspaces d)"
    by (auto simp: thread_workspace_def find_workspace_def try_then_Inr_iff dest!: find_row_Inr)
  then show ?thesis using w by (auto intro!: bexI[of _ w] image_eqI[of _ _ t])
next
  case True
  show ?thesis
  proof (cases "WorkspaceID res = []")
    case False
    then obtain w where "find_workspace (WorkspaceID res) d = Inr w" "w_server_id w = srv"
        "r = res\<lparr>ProjectID := w_project_id w\<rparr>"
      using assms True by (auto simp: resolveOperationResource_def try_then_Inr_iff split: if_splits)
    then show ?thesis using True by (auto simp: find_workspace_def dest!: find_row_Inr)
  next
    case empty: True
    have "ProjectID res = [] \<or> length (filter (\<lambda>p. p_id p = ProjectID res) (projects d)) = 1" and "r = res"
      using assms True empty by (auto simp: resolveOperationResource_def split: if_splits)
    then have "ProjectID r = [] \<or> filter (\<lambda>p. p_id p = ProjectID r) (projects d) \<noteq> []" by auto
    then have "ProjectID r \<noteq> [] \<longrightarrow> ProjectID r \<in> p_id ` set (projects d)"
      by (auto simp: filter_empty_conv intro: rev_image_eqI)
    then show ?thesis using True empty \<open>r = res\<close> by blast
  qed
qed

lemma resolve_refs:
  assumes "resolveOperationResource srv res d = Inr r"
    and "list_all (\<lambda>w. w_project_id w \<in> set (map p_id (projects d))) (workspaces d)"
    and "srv \<in> set (map s_id (servers d))"
  shows "operation_refs d (queued_operation i srv r kind payload wr key now)"
  using resolve_cases[OF assms(1)]
proof (elim disjE bexE conjE)
  fix w assume w: "w \<in> set (workspaces d)" "w_id w = WorkspaceID r" "w_project_id w = ProjectID r"
    and t: "ThreadID r \<noteq> [] \<longrightarrow> ThreadID r \<in> t_id ` set (threads d)"
  have "WorkspaceID r \<in> w_id ` set (workspaces d)" using w by (metis image_eqI)
  moreover have "ProjectID r \<in> p_id ` set (projects d)" 
    using w(1,3) assms(2) by (metis list.set_map list_all_iff)
  ultimately show ?thesis
    using t assms(3) by (simp add: operation_refs_def refers_def nullif_empty_def)
qed (use assms(3) in \<open>simp add: operation_refs_def refers_def nullif_empty_def\<close>)

text \<open>
  A workspace has one writer: a write operation is accepted exactly when no other write of its
  workspace is active, otherwise it is refused with \<open>ErrWorkspaceWriteActive\<close>.
\<close>

theorem workspace_write_exclusive:
  assumes "consistent d" and "resolveOperationResource srv res d = Inr r" and "WorkspaceID r \<noteq> []"
    and "srv \<in> set (map s_id (servers d))"
    and "list_all (\<lambda>w. w_project_id w \<in> set (map p_id (projects d))) (workspaces d)"
    and "newID \<notin> set (map o_id (operations d))"
    and "key \<notin> set (map o_idempotency_key (operations d))" and "kind \<noteq> ''git.import''"
  shows "queueOperationPayload srv kind payload key res True newID now d =
    (if HasActiveWorkspaceWriteOperation (WorkspaceID r) d then Inl ErrWorkspaceWriteActive
     else Inr (newID, d\<lparr>operations := operations d @ [queued_operation newID srv r kind payload True key now]\<rparr>))"
proof -
  let ?row = "queued_operation newID srv r kind payload True key now"
  have none: "operation_by_key key d = Inl ErrNoRows"
    using assms(7) by (auto simp: operation_by_key_Inl)
  have dup: "operations_ok d (operations d @ [?row]) \<longleftrightarrow>
      \<not> HasActiveWorkspaceWriteOperation (WorkspaceID r) d"
    using assms(1,3,6,7,8) resolve_refs[OF assms(2,5,4)]
    by (auto simp: consistent_def operations_ok_def active_write_def waiting_import_def
        HasActiveWorkspaceWriteOperation_def nullif_empty_def queued_active image_iff filter_empty_conv)
  have fresh: "\<not> list_ex (\<lambda>o1. o_idempotency_key o1 = key) (operations d)"
    using assms(7) by (auto simp: list_ex_iff)
  have "operation_by_key key (d\<lparr>operations := operations d @ [?row]\<rparr>) = Inr newID"
    if "operations_ok d (operations d @ [?row])"
    using operation_by_key_unique[of "d\<lparr>operations := operations d @ [?row]\<rparr>" ?row] that
    by (simp add: operations_ok_def)
  then show ?thesis
    using assms(2,3) none fresh dup
    by (auto simp: queueOperationPayload_def queue_insert_def insert_operation_once_def
        insert_operation_def store_operations_def nullif_empty_def)
qed

section \<open>One interruption at a time\<close>

lemma list_between:
  fixes c c' :: "'a::linorder"
  assumes "\<And>x. c \<le> x \<and> x < c' \<longleftrightarrow> x = c"
  shows "p @ [c] \<le> s \<and> s < p @ [c'] \<longleftrightarrow> take (Suc (length p)) s = p @ [c]"
proof (induction p arbitrary: s)
  case Nil
  show ?case
  proof (cases s)
    case (Cons x t)
    have "c < x \<or> c = x \<longleftrightarrow> c \<le> x" by auto
    moreover have "[] < t \<or> [] = t" by (cases t) auto
    ultimately show ?thesis using Cons assms[of x] by (auto simp: order_le_less)
  qed simp
next
  case (Cons a p)
  show ?case
  proof (cases s)
    case (Cons x t)
    then show ?thesis using Cons.IH[of t] by auto
  qed simp
qed

lemma interrupts_of_prefix:
  "interrupts_of i d = filter (\<lambda>o1. o_kind o1 = ''operation.interrupt'' \<and>
     has_prefix (o_idempotency_key o1) (interrupt_prefix i)) (operations d)"
proof -
  have "CHR '':'' \<le> x \<and> x < CHR '';'' \<longleftrightarrow> x = CHR '':''" for x :: char
  proof -
    have "CHR '':'' \<le> x \<and> x < CHR '';'' \<longleftrightarrow> of_char x = (58 :: nat)"
      by (auto simp: less_eq_char_def less_char_def)
    also have "\<dots> \<longleftrightarrow> x = CHR '':''"
      using of_char_eq_iff[of x "CHR '':''", where ?'a = nat] by simp
    finally show ?thesis .
  qed
  note b = list_between[OF this]
  have "interrupt_prefix i \<le> k \<and> k < ''operation-interrupt:'' @ i @ '';'' \<longleftrightarrow>
      has_prefix k (interrupt_prefix i)" for k
    using b[of "''operation-interrupt:'' @ i" k]
    by (simp add: interrupt_prefix_def has_prefix_def)
  then show ?thesis by (simp add: interrupts_of_def)
qed

abbreviation age :: "Operation \<Rightarrow> instant \<times> string" where
  "age o1 \<equiv> (o_created_at o1, o_id o1)"

lemma latest_interrupt_Some:
  assumes "latest_interrupt i d = Some m"
  shows "m \<in> set (interrupts_of i d)" and "x \<in> set (interrupts_of i d) \<Longrightarrow> age x \<le> age m"
proof -
  let ?s = "sort_key age (interrupts_of i d)"
  obtain rest where r: "rev ?s = m # rest"
    using assms by (auto simp: latest_interrupt_def order_by_desc_def split: list.splits)
  then have s: "?s = rev rest @ [m]" by (metis rev_rev_ident rev.simps(2))
  then show "m \<in> set (interrupts_of i d)" by (metis in_set_conv_decomp set_sort)
  have "sorted (map age (rev rest @ [m]))" by (metis s sorted_sort_key)
  then have "\<forall>y\<in>set rest. age y \<le> age m" by (simp add: sorted_append)
  moreover have "set (interrupts_of i d) = insert m (set rest)"
    using arg_cong[OF s, of set] by simp
  ultimately show "age x \<le> age m" if "x \<in> set (interrupts_of i d)" using that by auto
qed

lemma latest_interrupt_None: "latest_interrupt i d = None \<longleftrightarrow> interrupts_of i d = []"
proof -
  have "sort_key age (interrupts_of i d) = [] \<longleftrightarrow> interrupts_of i d = []"
    by (metis length_0_conv length_sort)
  then show ?thesis by (auto simp: latest_interrupt_def order_by_desc_def split: list.splits)
qed

text \<open>
  The invariant of the interruptions: at most one of an operation is active, and if it is not the
  latest, the key of the next one is already taken, so that no further one can be queued.
\<close>

definition next_key_taken :: "string \<Rightarrow> Operation \<Rightarrow> db \<Rightarrow> bool" where
  "next_key_taken i m d \<longleftrightarrow>
     (\<exists>k\<in>set (operations d). o_idempotency_key k = interrupt_prefix i @ o_id m)"

definition one_interrupt :: "string \<Rightarrow> db \<Rightarrow> bool" where
  "one_interrupt i d \<longleftrightarrow>
     (\<forall>a\<in>set (interrupts_of i d). \<forall>b\<in>set (interrupts_of i d). active a \<longrightarrow> active b \<longrightarrow> a = b) \<and>
     (\<forall>a\<in>set (interrupts_of i d). \<forall>m. active a \<longrightarrow> latest_interrupt i d = Some m \<longrightarrow>
        a = m \<or> next_key_taken i m d)"

lemma one_interruptD:
  assumes "one_interrupt i d" and "a \<in> set (interrupts_of i d)" and "active a"
  shows "b \<in> set (interrupts_of i d) \<Longrightarrow> active b \<Longrightarrow> a = b"
    and "latest_interrupt i d = Some m \<Longrightarrow> a = m \<or> next_key_taken i m d"
  using assms unfolding one_interrupt_def by blast+

lemma one_interruptI:
  assumes "\<And>a b. a \<in> set (interrupts_of i d) \<Longrightarrow> b \<in> set (interrupts_of i d) \<Longrightarrow>
      active a \<Longrightarrow> active b \<Longrightarrow> a = b"
    and "\<And>a m. a \<in> set (interrupts_of i d) \<Longrightarrow> active a \<Longrightarrow> latest_interrupt i d = Some m \<Longrightarrow>
      a = m \<or> next_key_taken i m d"
  shows "one_interrupt i d"
  using assms unfolding one_interrupt_def by blast

definition interrupts_ok :: "db \<Rightarrow> bool" where
  "interrupts_ok d \<longleftrightarrow>
     consistent d \<and> (\<forall>o1\<in>set (operations d). uuid_like (o_id o1)) \<and> (\<forall>i. uuid_like i \<longrightarrow> one_interrupt i d)"

lemma interrupts_rewritten:
  assumes "operations d' = map f (operations d)" and "\<And>o1. row_kept o1 (f o1)"
  shows "interrupts_of i d' = map f (interrupts_of i d)"
    and "latest_interrupt i d' = map_option f (latest_interrupt i d)"
proof -
  have k: "o_kind (f o1) = o_kind o1" "o_idempotency_key (f o1) = o_idempotency_key o1" "age (f o1) = age o1" for o1
    using assms(2)[of o1] by (simp_all add: row_kept_def)
  show m: "interrupts_of i d' = map f (interrupts_of i d)"
    unfolding interrupts_of_def assms(1) by (simp add: filter_map comp_def k)
  have ins: "insort_key age (f x) (map f xs) = map f (insort_key age x xs)" for x xs
    using k(3) by (induction xs) (simp_all add: k)
  have "sort_key age (map f xs) = map f (sort_key age xs)" for xs
    by (induction xs) (simp_all add: ins)
  then show "latest_interrupt i d' = map_option f (latest_interrupt i d)"
    unfolding latest_interrupt_def order_by_desc_def m
    by (cases "rev (sort_key age (interrupts_of i d))") (simp_all add: rev_map)
qed

lemma one_interrupt_rewritten:
  assumes "rewritten d d'" and "one_interrupt i d"
  shows "one_interrupt i d'"
proof -
  obtain f where f: "operations d' = map f (operations d)" "\<And>o1. row_kept o1 (f o1)"
    using assms(1) by (auto simp: rewritten_def)
  note r = interrupts_rewritten[OF f, of i]
  have act: "active (f o1) \<Longrightarrow> active o1" for o1 using f(2)[of o1] by (auto simp: row_kept_def)
  have tk: "next_key_taken i m d \<Longrightarrow> next_key_taken i (f m) d'" for m
    using f by (auto simp: next_key_taken_def row_kept_def)
  show ?thesis
  proof (rule one_interruptI)
    fix a b
    assume "a \<in> set (interrupts_of i d')" "b \<in> set (interrupts_of i d')" and ab: "active a" "active b"
    then obtain x y where "x \<in> set (interrupts_of i d)" "a = f x" "y \<in> set (interrupts_of i d)" "b = f y"
      unfolding r by auto
    then show "a = b" using ab act one_interruptD(1)[OF assms(2), of x y] by blast
  next
    fix a m
    assume "a \<in> set (interrupts_of i d')" and a: "active a" and "latest_interrupt i d' = Some m"
    then obtain x n where "x \<in> set (interrupts_of i d)" "a = f x" "latest_interrupt i d = Some n" "m = f n"
      unfolding r by auto
    then show "a = m \<or> next_key_taken i m d'"
      using a act[of x] tk[of n] one_interruptD(2)[OF assms(2), of x n] by blast
  qed
qed

lemma interrupts_of_appended:
  assumes "appended row d d'"
  shows "interrupts_of i d' =
    interrupts_of i d @ (if o_kind row = ''operation.interrupt'' \<and>
                            has_prefix (o_idempotency_key row) (interrupt_prefix i) then [row] else [])"
  using assms by (simp add: appended_def interrupts_of_prefix)

lemma one_interrupt_unrelated:
  assumes "appended row d d'" and "one_interrupt i d" and "interrupts_of i d' = interrupts_of i d"
  shows "one_interrupt i d'"
proof -
  have l: "latest_interrupt i d' = latest_interrupt i d" by (simp add: latest_interrupt_def assms(3))
  have k: "next_key_taken i m d \<Longrightarrow> next_key_taken i m d'" for m
    using assms(1) by (auto simp: next_key_taken_def appended_def)
  show ?thesis
    by (rule one_interruptI) (use one_interruptD[OF assms(2)] l k assms(3) in \<open>metis (no_types)\<close>)+
qed

lemma own_prefix:
  assumes "uuid_like i" and "uuid_like j" and "has_prefix (interrupt_prefix j @ p) (interrupt_prefix i)"
  shows "i = j"
proof -
  have "take (Suc (length i)) (j @ '':'' @ p) = i @ '':''"
    using assms(3) by (simp add: has_prefix_def interrupt_prefix_def)
  then obtain t where e: "j @ CHR '':'' # p = i @ CHR '':'' # t"
    by (metis append_take_drop_id append.assoc append_Cons append_Nil)
  have "takeWhile (\<lambda>c. c \<noteq> CHR '':'') (x @ CHR '':'' # y) = x" if "uuid_like x" for x y
    using that by (induction x) (auto simp: uuid_like_def)
  then show ?thesis using assms(1,2) e by metis
qed

lemma one_interrupt_fresh:
  assumes app: "appended row d d'" and one: "one_interrupt i d"
    and key: "o_idempotency_key row =
      interrupt_prefix i @ (case latest_interrupt i d of None \<Rightarrow> [] | Some p \<Rightarrow> o_id p)"
    and kind: "o_kind row = ''operation.interrupt''"
    and idle: "\<forall>p. latest_interrupt i d = Some p \<longrightarrow> \<not> active p"
  shows "one_interrupt i d'"
proof -
  have ok: "operations_ok d (operations d @ [row])" using app by (simp add: appended_def)
  have all: "interrupts_of i d' = interrupts_of i d @ [row]"
    using interrupts_of_appended[OF app, of i] key kind by simp
  have not_taken: "\<not> next_key_taken i p d" if "latest_interrupt i d = Some p" for p
    using ok key that by (auto simp: operations_ok_def next_key_taken_def image_iff)
  have inactive: "\<not> active a" if "a \<in> set (interrupts_of i d)" for a
  proof (cases "latest_interrupt i d")
    case None
    then show ?thesis using that by (simp add: latest_interrupt_None)
  next
    case (Some p)
    then show ?thesis using one_interruptD(2)[OF one that] idle not_taken by blast
  qed
  show ?thesis
  proof (rule one_interruptI)
    fix a b
    assume "a \<in> set (interrupts_of i d')" "b \<in> set (interrupts_of i d')" "active a" "active b"
    then show "a = b" using inactive unfolding all by auto
  next
    fix a m
    assume "a \<in> set (interrupts_of i d')" "active a" and m: "latest_interrupt i d' = Some m"
    then have a: "a = row" using inactive unfolding all by auto
    note max' = latest_interrupt_Some[OF m]
    show "a = m \<or> next_key_taken i m d'"
    proof (cases "m = row")
      case False
      then have mem: "m \<in> set (interrupts_of i d)" using max'(1) unfolding all by auto
      then obtain p where p: "latest_interrupt i d = Some p"
        by (cases "latest_interrupt i d") (auto simp: latest_interrupt_None)
      have "age p \<le> age m" using max'(2)[of p] latest_interrupt_Some(1)[OF p] unfolding all by simp
      moreover have "age m \<le> age p" using latest_interrupt_Some(2)[OF p mem] .
      ultimately have "o_id m = o_id p" by (metis order_antisym prod.inject)
      then have "o_idempotency_key row = interrupt_prefix i @ o_id m" using key p by simp
      then show ?thesis using app by (auto simp: next_key_taken_def appended_def)
    qed (simp add: a)
  qed
qed

lemma interrupts_ok_step:
  assumes "interrupts_ok d" and "op_step d d'"
  shows "interrupts_ok d'"
proof -
  have cons: "consistent d'" using assms op_step_consistent by (auto simp: interrupts_ok_def)
  have one: "one_interrupt i d" if "uuid_like i" for i using that assms(1) by (simp add: interrupts_ok_def)
  have ids: "uuid_like (o_id o1)" if "o1 \<in> set (operations d)" for o1
    using assms(1) that by (simp add: interrupts_ok_def)
  have app: "interrupts_ok d'" if "appended row d d'" and "uuid_like (o_id row)" 
    and "\<And>i. uuid_like i \<Longrightarrow> one_interrupt i d'" for row
    using that cons ids by (auto simp: interrupts_ok_def appended_def)
  have other: "interrupts_ok d'" if "appended row d d'" and "uuid_like (o_id row)"
    and "o_kind row \<noteq> ''operation.interrupt''" for row
    using app[OF that(1,2)] one_interrupt_unrelated[OF that(1) one] interrupts_of_appended[OF that(1)] that(3)
    by simp
  have rew: "interrupts_ok d'" if "rewritten d d'"
  proof -
    obtain f where "operations d' = map f (operations d)" "\<And>o1. row_kept o1 (f o1)"
      using \<open>rewritten d d'\<close> by (auto simp: rewritten_def)
    then show ?thesis
      using cons ids one_interrupt_rewritten[OF that one] by (auto simp: interrupts_ok_def row_kept_def)
  qed
  show ?thesis
    using assms(2)
  proof (cases rule: op_step.cases)
    case (queue srv kind payload key res wr newID now i)
    from queue_cases[OF queue(1)] assms(1) other show ?thesis using queue(2,3) by fastforce
  next
    case (queue_late newID srv res kind payload wr key now i)
    from queue_insert_cases[OF queue_late(1)] assms(1) other show ?thesis using queue_late(2,3) by fastforce
  next
    case (interrupt i newID now j)
    from interrupt_cases[OF interrupt(1)] show ?thesis
    proof (elim disjE exE bexE conjE)
      fix p assume "d' = d" then show ?thesis using assms(1) by simp
    next
      fix target
      let ?row = "interrupt_row i newID now target (latest_interrupt i d)"
      assume t: "target \<in> set (operations d)" "o_id target = i" and a: "appended ?row d d'"
        and idle: "\<forall>p. latest_interrupt i d = Some p \<longrightarrow> \<not> active p"
      have row: "o_idempotency_key ?row = interrupt_prefix i @ (case latest_interrupt i d of None \<Rightarrow> [] | Some p \<Rightarrow> o_id p)"
        "o_kind ?row = ''operation.interrupt''" "o_id ?row = newID"
        by (simp_all add: interrupt_row_def)
      have "one_interrupt k d'" if "uuid_like k" for k
      proof (cases "k = i")
        case True
        then show ?thesis using one_interrupt_fresh[OF a _ row(1,2) idle] one that by simp
      next
        case False
        then have "interrupts_of k d' = interrupts_of k d"
          using interrupts_of_appended[OF a, of k] own_prefix[of k i] that ids[OF t(1)] t(2) row(1) by auto
        then show ?thesis by (rule one_interrupt_unrelated[OF a one[OF that]])
      qed
      then show ?thesis using app[OF a] interrupt(2) row(3) by simp
    qed
  qed (auto simp: rew MarkDelivered_rewritten MarkRunning_rewritten Complete_rewritten Cancel_rewritten
      Interrupted_rewritten Expire_rewritten Scan_rewritten)
qed

interpretation interrupt_system: invariant_system interrupts_ok op_step interrupts_ok
  by unfold_locales (auto intro: interrupts_ok_step)

text \<open>
  An operation has at most one interruption in flight: in every state that the queue reaches
  from one without interruptions, at most one of the interruptions queued for an operation is
  active, even when clocks go backwards between the requests.
\<close>

theorem one_interrupt_in_flight:
  assumes "consistent d" and "list_all (\<lambda>o1. uuid_like (o_id o1) \<and> o_kind o1 \<noteq> ''operation.interrupt'') (operations d)"
    and "rtranclp op_step d d'" and "uuid_like i"
  shows "length (filter active (interrupts_of i d')) \<le> 1"
proof -
  have "interrupts_of j d = []" for j
    using assms(2) by (auto simp: interrupts_of_def list_all_iff filter_empty_conv)
  then have "interrupts_ok d"
    using assms(1,2) by (auto simp: interrupts_ok_def one_interrupt_def list_all_iff)
  then have ok: "interrupts_ok d'" using interrupt_system.inv_run[OF assms(3)] by simp
  have "distinct (map o_id (operations d'))" using ok by (simp add: interrupts_ok_def consistent_def operations_ok_def)
  then have "distinct (filter active (interrupts_of i d'))"
    by (simp add: interrupts_of_def distinct_map)
  moreover
  have "x = y" if "x \<in> set (filter active (interrupts_of i d'))"
    "y \<in> set (filter active (interrupts_of i d'))" for x y
    using that one_interruptD(1)[of i d' x y] ok assms(4) by (auto simp: interrupts_ok_def)
  then have "card (set (filter active (interrupts_of i d'))) \<le> Suc 0"
    by (subst card_le_Suc0_iff_eq) blast+
  ultimately show ?thesis by (metis One_nat_def distinct_card)
qed

section \<open>Delivery\<close>

lemma deliverable_active: "deliverable srv cutoff o1 \<Longrightarrow> active o1"
  by (auto simp: deliverable_def active_def active_statuses_def)

text \<open>
  What an Agent is offered: only active operations of its own server, interruptions first and
  each group by age, at most a hundred, and all of them when there are not more.
\<close>

theorem pending_operations:
  "sorted (map (\<lambda>o1. (if o_kind o1 = ''operation.interrupt'' then 0 else 1 :: nat, o_created_at o1))
      (PendingOperations srv now d)) \<and>
   length (PendingOperations srv now d) = min 100 (length (filter (deliverable srv (now - 30 * ns_second)) (operations d))) \<and>
   set (PendingOperations srv now d) \<subseteq> {o1 \<in> set (operations d). o_server_id o1 = srv \<and> active o1}"
proof (intro conjI)
  show "sorted (map (\<lambda>o1. (if o_kind o1 = ''operation.interrupt'' then 0 else 1 :: nat, o_created_at o1))
      (PendingOperations srv now d))"
    unfolding PendingOperations_def order_by_def take_map[symmetric]
    by (intro sorted_wrt_take sorted_sort_key)
  show "length (PendingOperations srv now d) = min 100 (length (filter (deliverable srv (now - 30 * ns_second)) (operations d)))"
    by (simp add: PendingOperations_def order_by_def min.commute)
  show "set (PendingOperations srv now d) \<subseteq> {o1 \<in> set (operations d). o_server_id o1 = srv \<and> active o1}"
  proof
    fix o1 assume "o1 \<in> set (PendingOperations srv now d)"
    then have "o1 \<in> set (operations d)" and o1: "deliverable srv (now - 30 * ns_second) o1"
      unfolding PendingOperations_def by (auto dest: in_set_takeD)
    moreover have "o_server_id o1 = srv" using o1 unfolding deliverable_def by blast
    ultimately show "o1 \<in> {o1 \<in> set (operations d). o_server_id o1 = srv \<and> active o1}"
      using deliverable_active by blast
  qed
qed

text \<open>
  No double delivery: an operation that was queued and has just been marked delivered is not
  offered again during the next thirty seconds.
\<close>

theorem no_early_redelivery:
  assumes "MarkDelivered i now d = Inr d'" and "list_all (\<lambda>o1. o_id o1 = i \<longrightarrow> o_status o1 = ''queued'') (operations d)"
    and "later \<le> now + 30 * ns_second"
  shows "i \<notin> set (map o_id (PendingOperations srv later d'))"
proof -
  have "\<not> deliverable srv (later - 30 * ns_second) o1" if "o1 \<in> set (operations d')" "o_id o1 = i" for o1
  proof -
    have "operations d' = map (\<lambda>o1. if o_id o1 = i \<and> o_status o1 = ''queued''
        then o1\<lparr>o_status := ''delivered'', o_delivered_at := Some now\<rparr> else o1) (operations d)"
      using assms(1) by (auto simp: MarkDelivered_def try_then_Inr_iff update_operations_Inr)
    then have mem: "o1 \<in> set (map (\<lambda>o1. if o_id o1 = i \<and> o_status o1 = ''queued''
        then o1\<lparr>o_status := ''delivered'', o_delivered_at := Some now\<rparr> else o1) (operations d))"
      using that(1) by simp
    then obtain o0 where "o0 \<in> set (operations d)" and
      "o1 = (if o_id o0 = i \<and> o_status o0 = ''queued''
             then o0\<lparr>o_status := ''delivered'', o_delivered_at := Some now\<rparr> else o0)"
      using mem unfolding set_map image_iff by blast
    moreover have "o_id o0 = i" using calculation(2) that(2) by (simp split: if_splits)
    ultimately have "o_status o1 = ''delivered''" and "o_delivered_at o1 = Some now"
      using assms(2) by (auto simp: list_all_iff)
    then show ?thesis using assms(3) by (simp add: deliverable_def)
  qed
  then show ?thesis
    by (auto simp: PendingOperations_def dest!: in_set_takeD)
qed

section \<open>A sample queue\<close>

definition sample_db :: db where
  "sample_db = empty_db\<lparr>servers := [\<lparr>s_id = ''s1'', s_name = ''host'', s_status = ''online'', s_agent_version = ''0.9.0'',
       s_gemini_version = ''0.70.0'', s_last_seen_at = Some 0, s_revoked_at = None\<rparr>],
     projects := [\<lparr>p_id = ''p1'', p_name = ''wio'', p_pinned_at = None, p_hidden_at = None\<rparr>],
     workspaces := [\<lparr>w_id = ''w1'', w_project_id = ''p1'', w_server_id = ''s1'', w_path = ''/srv/wio'', w_status = ''ready''\<rparr>]\<rparr>"

abbreviation sample_resource :: OperationResource where
  "sample_resource \<equiv> \<lparr>ProjectID = [], WorkspaceID = ''w1'', ThreadID = []\<rparr>"

definition sample_row :: Operation where
  "sample_row = queued_operation ''o1'' ''s1'' \<lparr>ProjectID = ''p1'', WorkspaceID = ''w1'', ThreadID = []\<rparr>
     ''workspace.files'' (JsonText JNull) False ''k1'' 5"

definition queued_db :: db where
  "queued_db = sample_db\<lparr>operations := [sample_row]\<rparr>"

lemma sample_consistent: "consistent sample_db" "consistent queued_db"
  by (simp_all add: consistent_def operations_ok_def sample_db_def queued_db_def empty_db_def
      sample_row_def operation_refs_def refers_def nullif_empty_def active_write_def waiting_import_def)

lemma sample_queue:
  "queueOperationPayload ''s1'' ''workspace.files'' (JsonText JNull) ''k1'' sample_resource False ''o1'' 5 sample_db
   = Inr (''o1'', queued_db)"
  using sample_consistent(2)
  by (simp add: queueOperationPayload_def operation_by_key_def find_row_def resolveOperationResource_def
      find_workspace_def queue_insert_def insert_operation_once_def insert_operation_def
      store_operations_def sample_db_def empty_db_def queued_db_def consistent_def sample_row_def
      operations_ok_def operation_refs_def[abs_def])

lemma sample_cancel:
  "CancelOperation ''o1'' ''stop'' 7 queued_db = Inr (True, queued_db\<lparr>operations :=
     [sample_row\<lparr>o_status := ''cancelled'', o_result := Some ''stop'', o_completed_at := Some 7\<rparr>]\<rparr>)"
  using sample_consistent(2)
  by (simp add: CancelOperation_def update_operations_def store_operations_def queued_db_def sample_row_def
      active_def active_statuses_def consistent_def operations_ok_def operation_refs_def active_write_def
      waiting_import_def)


lemma queue_idempotent_witness:
  "\<exists>d. CancelOperation ''o1'' ''stop'' 7 queued_db = Inr (True, d) \<and>
     queueOperationPayload ''s9'' ''other'' (OtherText ''v1:x'') ''k1'' no_resource True ''o2'' 8 d = Inr (''o1'', d)"
proof -
  let ?d = "queued_db\<lparr>operations := [sample_row\<lparr>o_status := ''cancelled'', o_result := Some ''stop'',
      o_completed_at := Some 7\<rparr>]\<rparr>"
  have "rtranclp op_step queued_db ?d" using op_step.cancel[OF sample_cancel] by blast
  from queue_idempotent[OF sample_consistent(1) sample_queue this] sample_cancel show ?thesis by blast
qed

lemma workspace_write_exclusive_witness:
  "queueOperationPayload ''s1'' ''git.workspace.write'' (JsonText JNull) ''k2'' sample_resource True ''o2'' 6 queued_db
   = Inr (''o2'', queued_db\<lparr>operations := [sample_row,
       queued_operation ''o2'' ''s1'' \<lparr>ProjectID = ''p1'', WorkspaceID = ''w1'', ThreadID = []\<rparr>
         ''git.workspace.write'' (JsonText JNull) True ''k2'' 6]\<rparr>)"
proof -
  have "resolveOperationResource ''s1'' sample_resource queued_db
      = Inr \<lparr>ProjectID = ''p1'', WorkspaceID = ''w1'', ThreadID = []\<rparr>"
    by (simp add: resolveOperationResource_def find_workspace_def find_row_def queued_db_def sample_db_def empty_db_def)
  from workspace_write_exclusive[OF sample_consistent(2) this] show ?thesis
    by (simp add: queued_db_def sample_db_def empty_db_def sample_row_def HasActiveWorkspaceWriteOperation_def)
qed

lemma one_interrupt_in_flight_witness:
  "\<exists>d. RequestOperationInterrupt ''o1'' ''o2'' 6 queued_db = Inr (''o2'', d) \<and>
     length (filter active (interrupts_of ''o1'' d)) \<le> 1"
proof -
  have "\<exists>d. RequestOperationInterrupt ''o1'' ''o2'' 6 queued_db = Inr (''o2'', d)"
    by (simp add: RequestOperationInterrupt_def update_operations_def store_operations_def queued_db_def
        sample_db_def empty_db_def sample_row_def active_def active_statuses_def operations_ok_def
        operation_refs_def refers_def nullif_empty_def active_write_def waiting_import_def find_row_def
        CanInterruptOperation_def latest_interrupt_def order_by_desc_def interrupts_of_def
        insert_operation_def Let_def interrupt_prefix_def)
  then obtain d where d: "RequestOperationInterrupt ''o1'' ''o2'' 6 queued_db = Inr (''o2'', d)" by blast
  have "uuid_like ''o1''" "uuid_like ''o2''" by (simp_all add: uuid_like_def)
  moreover from this have "op_step queued_db d" using op_step.interrupt[OF d] by blast
  ultimately show ?thesis
    using one_interrupt_in_flight[OF sample_consistent(2), of d "''o1''"] d
    by (auto simp: queued_db_def sample_row_def)
qed

lemma no_early_redelivery_witness:
  "\<exists>d. MarkDelivered ''o1'' 6 queued_db = Inr d \<and> ''o1'' \<notin> set (map o_id (PendingOperations ''s1'' 7 d))"
proof -
  have "\<exists>d. MarkDelivered ''o1'' 6 queued_db = Inr d"
    using sample_consistent(2)
    by (simp add: MarkDelivered_def update_operations_def store_operations_def queued_db_def sample_row_def
        consistent_def operations_ok_def operation_refs_def active_write_def waiting_import_def)
  then obtain d where d: "MarkDelivered ''o1'' 6 queued_db = Inr d" by blast
  have "list_all (\<lambda>o1. o_id o1 = ''o1'' \<longrightarrow> o_status o1 = ''queued'') (operations queued_db)"
    by (simp add: queued_db_def sample_row_def)
  from no_early_redelivery[OF d this, of 7 "''s1''"] d show ?thesis by (simp add: ns_units)
qed

end
