(* ===== verification/Operation_Metrics.thy ===== *)
theory Operation_Metrics
  imports Operation_Queue
begin

text \<open>
  The latency figures of a server's operations, \<open>OperationMetrics\<close> in internal/store/store.go. An
  average is kept as the quotient it is, before the rounding of \<open>float64\<close>; the rank of the 95th
  percentile is the integer that the floating-point product \<open>n * 0.95\<close> rounds up to.
\<close>

record OperationMetricAggregate =
  AggCount :: int
  AggAverage :: "int \<times> int" \<comment> \<open>numerator and denominator\<close>
  AggP95 :: int
  AggMax :: int

definition no_durations :: OperationMetricAggregate where
  "no_durations = \<lparr>AggCount = 0, AggAverage = (0, 1), AggP95 = 0, AggMax = 0\<rparr>"

definition maxDurationMS :: "duration \<Rightarrow> int" where
  "maxDurationMS value = (if value \<le> 0 then 0 else value div 1000000)"

definition p95_index :: "nat \<Rightarrow> nat" where
  "p95_index n = (95 * n + 99) div 100 - 1"

fun sum64 :: "int \<Rightarrow> int list \<Rightarrow> int" where
  "sum64 acc [] = acc"
| "sum64 acc (v # vs) = sum64 (wrap64 (acc + v)) vs"

definition aggregateOperationDurations :: "int list \<Rightarrow> OperationMetricAggregate" where
  "aggregateOperationDurations values =
     (if values = [] then no_durations
      else (let sorted_values = sort values; n = length sorted_values in
        \<lparr>AggCount = int n, AggAverage = (sum64 0 sorted_values, int n),
         AggP95 = sorted_values ! p95_index n, AggMax = last sorted_values\<rparr>))"

record OperationMetrics =
  MetricsServerID :: string
  Since :: instant
  UpdatedAt :: instant
  Total :: nat
  Queued :: nat
  Delivered :: nat
  Running :: nat
  Succeeded :: nat
  Failed :: nat
  Cancelled :: nat
  QueueWait :: OperationMetricAggregate
  Delivery :: OperationMetricAggregate
  Execution :: OperationMetricAggregate

definition count_status :: "string list \<Rightarrow> Operation list \<Rightarrow> nat" where
  "count_status names rows = length (filter (\<lambda>o1. o_status o1 \<in> set names) rows)"

definition start_time :: "Operation \<Rightarrow> instant option" where
  "start_time o1 = (case o_started_at o1 of None \<Rightarrow> o_delivered_at o1 | Some t \<Rightarrow> Some t)"

fun span :: "instant option \<Rightarrow> instant option \<Rightarrow> int list" where
  "span (Some a) (Some b) = [maxDurationMS (b - a)]"
| "span _ _ = []"

definition queue_waits :: "Operation list \<Rightarrow> int list" where
  "queue_waits rows = concat (map (\<lambda>o1. span (Some (o_created_at o1)) (o_delivered_at o1)) rows)"

definition delivery_times :: "Operation list \<Rightarrow> int list" where
  "delivery_times rows = concat (map (\<lambda>o1. span (o_delivered_at o1) (start_time o1)) rows)"

definition execution_times :: "Operation list \<Rightarrow> int list" where
  "execution_times rows = concat (map (\<lambda>o1. span (start_time o1) (o_completed_at o1)) rows)"

definition metrics_of :: "string \<Rightarrow> instant \<Rightarrow> instant \<Rightarrow> db \<Rightarrow> OperationMetrics" where
  "metrics_of serverID since now d =
     (let rows = order_by o_created_at
            (filter (\<lambda>o1. o_server_id o1 = serverID \<and> since \<le> o_created_at o1) (operations d)) in
      \<lparr>MetricsServerID = serverID, Since = since, UpdatedAt = now, Total = length rows,
       Queued = count_status [''queued''] rows,
       Delivered = count_status [''delivered''] rows,
       Running = count_status [''running''] rows,
       Succeeded = count_status [''succeeded''] rows,
       Failed = count_status [''failed'', ''partial''] rows,
       Cancelled = count_status [''cancelled'', ''canceled''] rows,
       QueueWait = aggregateOperationDurations (queue_waits rows),
       Delivery = aggregateOperationDurations (delivery_times rows),
       Execution = aggregateOperationDurations (execution_times rows)\<rparr>)"

section \<open>Properties\<close>

lemma p95_index_less: "0 < n \<Longrightarrow> p95_index n < n"
  by (simp add: p95_index_def)

lemma sorted_prefix_le:
  fixes xs :: "int list"
  assumes "sorted xs" and "k < length xs"
  shows "Suc k \<le> length (filter (\<lambda>v. v \<le> xs ! k) xs)"
proof -
  have "filter (\<lambda>v. v \<le> xs ! k) (take (Suc k) xs) = take (Suc k) xs"
    using assms by (auto simp: filter_id_conv in_set_conv_nth sorted_iff_nth_mono)
  then have "length (filter (\<lambda>v. v \<le> xs ! k) (take (Suc k) xs)) = Suc k"
    using assms(2) by simp
  moreover have "length (filter (\<lambda>v. v \<le> xs ! k) xs)
      = length (filter (\<lambda>v. v \<le> xs ! k) (take (Suc k) xs)) + length (filter (\<lambda>v. v \<le> xs ! k) (drop (Suc k) xs))"
    by (metis append_take_drop_id filter_append length_append)
  ultimately show ?thesis by simp
qed

lemma sorted_last_max: "sorted xs \<Longrightarrow> v \<in> set xs \<Longrightarrow> v \<le> last xs"
  by (induction xs) auto

text \<open>
  The figures mean what they are called: of nonempty durations, the reported 95th percentile is
  one of them, at least 95 percent of them are not above it, the maximum is the largest, and both
  are independent of the order of the rows.
\<close>

theorem percentile_correct:
  assumes "values \<noteq> []"
  shows "AggP95 (aggregateOperationDurations values) \<in> set values \<and>
    95 * length values \<le> 100 * length (filter (\<lambda>v. v \<le> AggP95 (aggregateOperationDurations values)) values) \<and>
    AggMax (aggregateOperationDurations values) = Max (set values) \<and>
    AggCount (aggregateOperationDurations values) = int (length values)"
proof -
  let ?s = "sort values" and ?n = "length values"
  have k: "p95_index ?n < length ?s" using assms p95_index_less[of ?n] by simp
  have agg: "AggP95 (aggregateOperationDurations values) = ?s ! p95_index ?n"
    "AggMax (aggregateOperationDurations values) = last ?s"
    "AggCount (aggregateOperationDurations values) = int ?n"
    using assms by (simp_all add: aggregateOperationDurations_def Let_def)
  have "length (filter P ?s) = length (filter P values)" for P
    by (simp add: filter_sort)
  then have l1: "Suc (p95_index ?n) \<le> length (filter (\<lambda>v. v \<le> ?s ! p95_index ?n) values)"
    using sorted_prefix_le[OF sorted_sort k] by simp
  have "95 * ?n \<le> 100 * Suc (p95_index ?n)" by (simp add: p95_index_def)
  then have l2: "95 * ?n \<le> 100 * length (filter (\<lambda>v. v \<le> ?s ! p95_index ?n) values)"
    using l1 by (meson le_trans mult_le_mono2)
  have l3: "last ?s = Max (set values)"
  proof -
    have ne: "?s \<noteq> []" using assms by (metis length_0_conv length_sort)
    have "last ?s \<in> set values" using ne by (metis last_in_set set_sort)
    moreover have "v \<le> last ?s" if "v \<in> set values" for v
      using sorted_last_max[OF sorted_sort[of "values"], of v] that by simp
    ultimately show ?thesis by (intro Max_eqI[symmetric]) auto
  qed
  have "?s ! p95_index ?n \<in> set values" using k by (metis nth_mem set_sort)
  then show ?thesis unfolding agg using l2 l3 by (intro conjI) simp_all
qed

lemma percentile_correct_witness:
  "95 * length [30, 10, 20 :: int] \<le> 100 * length (filter (\<lambda>v. v \<le> AggP95 (aggregateOperationDurations [30, 10, 20])) [30, 10, 20])
   \<and> AggMax (aggregateOperationDurations [30, 10, 20]) = 30"
  using percentile_correct[of "[30, 10, 20]"] by simp

end
