(* ===== verification/Event_Log.thy ===== *)
theory Event_Log
  imports Store_Model "HOL-Library.Product_Lexorder"
begin

text \<open>
  The event streams of the sessions, internal/store/store.go: a table of events with a unique
  identifier and a unique sequence number per stream, the insertion that assigns the next number,
  and the windows that the browser loads.
\<close>

section \<open>Adding events\<close>

definition zero_time :: instant where
  "zero_time = - 62135596800 * ns_second"

definition stream_events :: "string \<Rightarrow> db \<Rightarrow> StreamEvent list" where
  "stream_events sid d = filter (\<lambda>e. StreamID e = sid) (events d)"

definition max_sequence :: "StreamEvent list \<Rightarrow> int" where
  "max_sequence es = (if es = [] then 0 else Max (set (map Sequence es)))"

definition event_conflict :: "StreamEvent \<Rightarrow> db \<Rightarrow> bool" where
  "event_conflict e d \<longleftrightarrow>
     list_ex (\<lambda>r. EventID r = EventID e \<or> StreamID r = StreamID e \<and> Sequence r = Sequence e) (events d)"

definition prepare_event :: "string \<Rightarrow> instant \<Rightarrow> db \<Rightarrow> StreamEvent \<Rightarrow> StreamEvent" where
  "prepare_event newID now d e =
     (let e1 = (if EventID e = [] then e\<lparr>EventID := newID\<rparr> else e);
          e2 = (if OccurredAt e1 = zero_time then e1\<lparr>OccurredAt := now\<rparr> else e1)
      in if Sequence e2 = 0
         then e2\<lparr>Sequence := max_sequence (stream_events (StreamID e2) d) + 1\<rparr> else e2)"

definition AddEvent :: "string \<Rightarrow> instant \<Rightarrow> StreamEvent \<Rightarrow> db \<Rightarrow> go_error + StreamEvent \<times> db" where
  "AddEvent newID now e d =
     (let e' = prepare_event newID now d e in
      if event_conflict e' d
      then try_then (find_row (\<lambda>r. EventID r = EventID e' \<and> StreamID r = StreamID e') (events d))
             (\<lambda>r. Inr (e'\<lparr>Sequence := Sequence r\<rparr>, d))
      else Inr (e', d\<lparr>events := events d @ [e']\<rparr>))"

section \<open>Windows of a stream\<close>

definition limited :: "int \<Rightarrow> int \<Rightarrow> int \<Rightarrow> nat" where
  "limited highest usual limit = nat (if limit \<le> 0 \<or> limit > highest then usual else limit)"

text \<open>\<open>ORDER BY sequence LIMIT\<close>, and the newest rows in ascending order\<close>

definition first_events :: "nat \<Rightarrow> StreamEvent list \<Rightarrow> StreamEvent list" where
  "first_events n es = take n (order_by Sequence es)"

definition newest_events :: "nat \<Rightarrow> StreamEvent list \<Rightarrow> StreamEvent list" where
  "newest_events n es = order_by Sequence (take n (order_by_desc Sequence es))"

definition conversation_kinds :: "string list" where
  "conversation_kinds =
     [''user.message'', ''codex.item.started'', ''codex.item.completed'', ''codex.error'',
      ''codex.turn.completed'', ''codex.turn.failed'', ''codex.turn.cancelled'',
      ''codex.interrupt.failed'', ''codex.approval.failed'', ''codex.compact.failed'',
      ''codex.steer.failed'']"

definition visible :: "StreamEvent \<Rightarrow> bool" where
  "visible e \<longleftrightarrow> EventKind e \<in> set conversation_kinds"

definition Events :: "string \<Rightarrow> int \<Rightarrow> int \<Rightarrow> db \<Rightarrow> StreamEvent list" where
  "Events sid after limit d =
     (let n = limited 1000 500 limit in
      if sid = []
      then take n (order_by (\<lambda>e. (OccurredAt e, Sequence e)) (filter (\<lambda>e. after < Sequence e) (events d)))
      else first_events n (filter (\<lambda>e. after < Sequence e) (stream_events sid d)))"

definition EventsBefore :: "string \<Rightarrow> int \<Rightarrow> int \<Rightarrow> db \<Rightarrow> StreamEvent list" where
  "EventsBefore sid before limit d =
     newest_events (limited 1000 500 limit) (filter (\<lambda>e. Sequence e < before) (stream_events sid d))"

definition ConversationEvents :: "string \<Rightarrow> int \<Rightarrow> int \<Rightarrow> db \<Rightarrow> StreamEvent list" where
  "ConversationEvents sid after limit d =
     first_events (limited 10000 10000 limit)
       (filter (\<lambda>e. after < Sequence e \<and> visible e) (stream_events sid d))"

definition ConversationEventsBefore :: "string \<Rightarrow> int \<Rightarrow> int \<Rightarrow> db \<Rightarrow> StreamEvent list" where
  "ConversationEventsBefore sid before limit d =
     newest_events (limited 1000 500 limit)
       (filter (\<lambda>e. Sequence e < before \<and> visible e) (stream_events sid d))"

definition RecentConversationEvents :: "string \<Rightarrow> int \<Rightarrow> db \<Rightarrow> StreamEvent list" where
  "RecentConversationEvents sid limit d =
     newest_events (limited 1000 500 limit) (filter visible (stream_events sid d))"

definition RecentEvents :: "string \<Rightarrow> int \<Rightarrow> db \<Rightarrow> StreamEvent list" where
  "RecentEvents sid limit d = newest_events (limited 2000 1000 limit) (stream_events sid d)"

section \<open>The running turn\<close>

definition latest_of :: "string list \<Rightarrow> string \<Rightarrow> db \<Rightarrow> StreamEvent option" where
  "latest_of kinds sid d =
     (case order_by_desc Sequence (filter (\<lambda>e. EventKind e \<in> set kinds) (stream_events sid d)) of
        [] \<Rightarrow> None | e # _ \<Rightarrow> Some e)"

definition turn_kinds :: "string list" where
  "turn_kinds = [''turn.accepted'', ''codex.turn.started'', ''codex.turn.completed'',
                 ''codex.turn.failed'', ''codex.turn.cancelled'']"

text \<open>A nested struct: a missing entry and \<open>null\<close> are the zero struct.\<close>

definition struct_field :: "string \<Rightarrow> json \<Rightarrow> json option" where
  "struct_field name d =
     (case raw_field name d of
        None \<Rightarrow> None
      | Some None \<Rightarrow> Some JNull
      | Some (Some v) \<Rightarrow> (case v of JObj _ \<Rightarrow> Some v | JNull \<Rightarrow> Some JNull | _ \<Rightarrow> None))"

definition LatestActiveTurnID :: "string \<Rightarrow> db \<Rightarrow> go_error + string" where
  "LatestActiveTurnID threadID d =
     (case latest_of turn_kinds threadID d of
        None \<Rightarrow> Inl ErrNoRows
      | Some e \<Rightarrow>
          if EventKind e \<in> {''codex.turn.completed'', ''codex.turn.failed'', ''codex.turn.cancelled''}
          then Inr []
          else (case EventPayload e of
                  None \<Rightarrow> Inl BadJSON
                | Some p \<Rightarrow>
                    (case (str_field ''turn_id'' p,
                           (case struct_field ''turn'' p of None \<Rightarrow> None | Some t \<Rightarrow> str_field ''id'' t)) of
                       (Some turnID, Some nestedID) \<Rightarrow>
                         Inr (if EventKind e = ''codex.turn.started'' then nestedID else turnID)
                     | _ \<Rightarrow> Inl BadJSON)))"

definition HasPendingTurnCancellation :: "string \<Rightarrow> db \<Rightarrow> bool" where
  "HasPendingTurnCancellation threadID d =
     (case latest_of [''user.message'', ''codex.turn.cancelled''] threadID d of
        None \<Rightarrow> False
      | Some e \<Rightarrow>
          EventKind e = ''codex.turn.cancelled'' \<and>
          (case EventPayload e of
             None \<Rightarrow> False
           | Some p \<Rightarrow> (case str_field ''source'' p of None \<Rightarrow> False | Some s \<Rightarrow> s = ''control'')))"

section \<open>The log\<close>

text \<open>The constraints of the table.\<close>

definition log_ok :: "StreamEvent list \<Rightarrow> bool" where
  "log_ok es \<longleftrightarrow> distinct (map EventID es) \<and> distinct (map (\<lambda>e. (StreamID e, Sequence e)) es)"

lemma event_conflict_iff:
  assumes "log_ok (events d)"
  shows "log_ok (events d @ [e]) \<longleftrightarrow> \<not> event_conflict e d"
  using assms by (auto simp: log_ok_def event_conflict_def list_ex_iff image_iff)

lemma max_sequence_ge: "e \<in> set es \<Longrightarrow> Sequence e \<le> max_sequence es"
  by (auto simp: max_sequence_def intro: Max_ge)

lemma prepare_keeps [simp]:
  "StreamID (prepare_event newID now d e) = StreamID e"
  "EventKind (prepare_event newID now d e) = EventKind e"
  "EventPayload (prepare_event newID now d e) = EventPayload e"
  "EventID (prepare_event newID now d e) = (if EventID e = [] then newID else EventID e)"
  by (simp_all add: prepare_event_def Let_def)

lemma prepare_sequence:
  "Sequence (prepare_event newID now d e) =
   (if Sequence e = 0 then max_sequence (stream_events (StreamID e) d) + 1 else Sequence e)"
  by (simp add: prepare_event_def Let_def)

lemma AddEvent_cases:
  assumes "AddEvent newID now e d = Inr (e', d')"
  shows "(d' = d \<and> (\<exists>r\<in>set (events d). EventID r = EventID e' \<and> StreamID r = StreamID e' \<and> Sequence r = Sequence e')) \<or>
         (e' = prepare_event newID now d e \<and> d' = d\<lparr>events := events d @ [e']\<rparr> \<and> \<not> event_conflict e' d)"
  using assms by (auto simp: AddEvent_def Let_def try_then_Inr_iff dest!: find_row_Inr split: if_splits)


text \<open>
  Storing is idempotent: an event whose identifier is already in the stream is not stored
  again, even under another sequence number, and gets the number of the stored event.
\<close>

theorem AddEvent_idempotent:
  assumes "log_ok (events d)" and "r \<in> set (events d)" and "EventID e = EventID r" and "EventID r \<noteq> []"
    and "StreamID e = StreamID r"
  shows "\<exists>e'. AddEvent newID now e d = Inr (e', d) \<and> Sequence e' = Sequence r"
proof -
  let ?e = "prepare_event newID now d e"
  have ids: "EventID ?e = EventID r" "StreamID ?e = StreamID r" using assms by simp_all
  then have "event_conflict ?e d" using assms(2) by (auto simp: event_conflict_def list_ex_iff)
  moreover have "find_row (\<lambda>x. EventID x = EventID ?e \<and> StreamID x = StreamID ?e) (events d) = Inr r"
  proof (cases "find_row (\<lambda>x. EventID x = EventID ?e \<and> StreamID x = StreamID ?e) (events d)")
    case (Inl err)
    then show ?thesis using assms(2) ids by (auto simp: find_row_Inl)
  next
    case (Inr x)
    from find_row_Inr[OF this] ids have "x \<in> set (events d)" "EventID x = EventID r" by auto
    then have "x = r" using assms(1,2) by (auto simp: log_ok_def distinct_map dest: inj_onD)
    then show ?thesis using Inr by simp
  qed
  ultimately show ?thesis by (simp add: AddEvent_def Let_def)
qed

section \<open>Windows are complete\<close>

lemma sort_key_rev_sorted:
  assumes "sorted (map f xs)" and "distinct (map f xs)"
  shows "sort_key f (rev xs) = xs"
proof (rule map_sorted_distinct_set_unique[where f = f])
  show "inj_on f (set (sort_key f (rev xs)) \<union> set xs)" using assms(2) by (simp add: distinct_map)
  show "distinct (map f (sort_key f (rev xs)))"
    using assms(2) by (simp add: distinct_map)
qed (use assms in simp_all)

lemma newest_events_drop:
  assumes "distinct (map Sequence es)"
  shows "newest_events n es = drop (length es - n) (order_by Sequence es)"
proof -
  let ?s = "sort_key Sequence es"
  have d: "distinct (map Sequence ?s)" using assms by (simp add: distinct_map)
  have "take n (rev ?s) = rev (drop (length es - n) ?s)" by (simp add: take_rev)
  moreover have "sort_key Sequence (rev (drop (length es - n) ?s)) = drop (length es - n) ?s"
    using d by (intro sort_key_rev_sorted) (simp_all add: drop_map[symmetric] sorted_wrt_drop distinct_drop)
  ultimately show ?thesis by (simp add: newest_events_def order_by_def order_by_desc_def)
qed

lemma stream_distinct:
  assumes "log_ok (events d)"
  shows "distinct (map Sequence (filter P (stream_events sid d)))"
proof -
  have "inj_on (\<lambda>e. (StreamID e, Sequence e)) (set (events d))" and "distinct (events d)"
    using assms by (auto simp: log_ok_def distinct_map)
  then show ?thesis
    by (auto simp: distinct_map stream_events_def inj_on_def)
qed

lemma sorted_suffix_filter:
  assumes "sorted (map f (xs @ ys))" and "distinct (map f (xs @ ys))" and "ys \<noteq> []"
  shows "filter (\<lambda>e. f e < f (hd ys)) (xs @ ys) = xs"
proof -
  have le: "\<forall>x\<in>set xs. \<forall>y\<in>set ys. f x \<le> f y" and hd: "\<forall>y\<in>set ys. f (hd ys) \<le> f y"
    using assms(1,3) by (auto simp: sorted_append neq_Nil_conv)
  have "f x \<noteq> f (hd ys)" if "x \<in> set xs" for x
    using assms(2,3) that by (fastforce simp: image_iff)
  then have "\<forall>x\<in>set xs. f x < f (hd ys)" using le assms(3) by (meson hd_in_set order_le_less)
  then show ?thesis using hd by (auto simp: filter_id_conv filter_empty_conv not_less)
qed

text \<open>
  Loading older history has no gaps: the window before a sequence number holds the newest
  events below it in ascending order, and everything below the number is the history before the
  first event of the window followed by the window itself.
\<close>

theorem history_windows_complete:
  assumes "log_ok (events d)" and "EventsBefore sid b limit d \<noteq> []"
  shows "order_by Sequence (filter (\<lambda>e. Sequence e < b) (stream_events sid d)) =
    order_by Sequence (filter (\<lambda>e. Sequence e < Sequence (hd (EventsBefore sid b limit d))) (stream_events sid d))
    @ EventsBefore sid b limit d"
proof -
  let ?es = "filter (\<lambda>e. Sequence e < b) (stream_events sid d)"
  let ?s = "order_by Sequence ?es" and ?page = "EventsBefore sid b limit d"
  let ?k = "length ?es - limited 1000 500 limit"
  have page: "?page = drop ?k ?s"
    using newest_events_drop[OF stream_distinct[OF assms(1)]] by (simp add: EventsBefore_def)
  have s: "?s = take ?k ?s @ ?page" unfolding page by simp
  have sd: "sorted (map Sequence ?s)" "distinct (map Sequence ?s)"
    using stream_distinct[OF assms(1), of "\<lambda>e. Sequence e < b" sid] by (simp_all add: order_by_def distinct_map)
  have "filter (\<lambda>e. Sequence e < Sequence (hd ?page)) ?s = take ?k ?s"
    using sorted_suffix_filter[of Sequence "take ?k ?s" ?page] sd assms(2) s by metis
  then have t: "take ?k ?s = filter (\<lambda>e. Sequence e < Sequence (hd ?page)) ?s" by (rule sym)
  have f: "filter (\<lambda>e. Sequence e < Sequence (hd ?page)) ?s
      = order_by Sequence (filter (\<lambda>e. Sequence e < Sequence (hd ?page) \<and> Sequence e < b) (stream_events sid d))"
    by (simp add: order_by_def filter_sort conj_commute)
  have "Sequence (hd ?page) < b"
  proof -
    have "hd ?page \<in> set ?s" using assms(2) unfolding page by (meson in_set_dropD list.set_sel(1))
    then show ?thesis by simp
  qed
  then have g: "(\<lambda>e. Sequence e < Sequence (hd ?page) \<and> Sequence e < b) = (\<lambda>e. Sequence e < Sequence (hd ?page))"
    by (auto simp: fun_eq_iff)
  show ?thesis by (rule s[unfolded t f g])
qed

definition sample_log :: "StreamEvent list" where
  "sample_log = [\<lparr>EventID = ''a'', StreamID = ''t'', Sequence = 1, EventKind = ''user.message'', OccurredAt = 5, EventPayload = None\<rparr>,
     \<lparr>EventID = ''b'', StreamID = ''t'', Sequence = 2, EventKind = ''turn.accepted'', OccurredAt = 6, EventPayload = None\<rparr>]"

lemma sample_log_ok: "log_ok sample_log"
  by (simp add: log_ok_def sample_log_def)


lemma AddEvent_idempotent_witness:
  "\<exists>e'. AddEvent ''c'' 7 \<lparr>EventID = ''a'', StreamID = ''t'', Sequence = 9, EventKind = ''user.message'',
      OccurredAt = 8, EventPayload = None\<rparr> (empty_db\<lparr>events := sample_log\<rparr>)
    = Inr (e', empty_db\<lparr>events := sample_log\<rparr>) \<and> Sequence e' = 1"
  using AddEvent_idempotent[of "empty_db\<lparr>events := sample_log\<rparr>" "hd sample_log"
      "\<lparr>EventID = ''a'', StreamID = ''t'', Sequence = 9, EventKind = ''user.message'',
      OccurredAt = 8, EventPayload = None\<rparr>" "''c''" 7] sample_log_ok
  by (simp add: sample_log_def)

lemma history_windows_complete_witness:
  "EventsBefore ''t'' 3 1 (empty_db\<lparr>events := sample_log\<rparr>) = [sample_log ! 1] \<and>
   order_by Sequence (filter (\<lambda>e. Sequence e < 3) (stream_events ''t'' (empty_db\<lparr>events := sample_log\<rparr>)))
   = order_by Sequence (filter (\<lambda>e. Sequence e < 2) (stream_events ''t'' (empty_db\<lparr>events := sample_log\<rparr>)))
     @ [sample_log ! 1]"
proof -
  let ?d = "empty_db\<lparr>events := sample_log\<rparr>"
  have p: "EventsBefore ''t'' 3 1 ?d = [sample_log ! 1]"
    by (simp add: EventsBefore_def newest_events_def order_by_def order_by_desc_def limited_def
        stream_events_def sample_log_def)
  have "log_ok (events ?d)" using sample_log_ok by simp
  from history_windows_complete[OF this, of "''t''" 3 1] p show ?thesis by (simp add: sample_log_def)
qed

end
