(* ===== verification/Codex_Threads.thy ===== *)
theory Codex_Threads
  imports Event_Log Operation_Queue
begin

text \<open>
  The Codex sessions, internal/store/resources.go: creation, deletion, the claim of a session for
  a turn, titles, archiving and the paged list with the preferences of
  project_server_preferences.go; the rewrite of a message (store.go) and the fork of a session at
  a reply (thread_forks.go).
\<close>

section \<open>The joined view\<close>

record Thread =
  th_ID :: string
  th_WorkspaceID :: string
  th_ProjectID :: string
  th_CodexThreadID :: string
  th_Title :: string
  th_Status :: string
  th_Path :: string
  th_ServerID :: string
  th_ServerName :: string
  th_ProjectName :: string
  th_PinnedAt :: "instant option"
  th_ArchivedAt :: "instant option"
  th_ProjectPinnedAt :: "instant option"
  th_ProjectHiddenAt :: "instant option"
  th_CreatedAt :: instant
  th_UpdatedAt :: instant

text \<open>
  \<open>projectServerJoin\<close>: the preferences of a project on a server; without a saved row those of the
  project itself.
\<close>

definition saved_preference :: "string \<Rightarrow> string \<Rightarrow> db \<Rightarrow> Preference_row option" where
  "saved_preference p s d =
     find (\<lambda>r. pp_project_id r = p \<and> pp_server_id r = s) (preferences d)"

definition server_preference :: "Project_row \<Rightarrow> string \<Rightarrow> db \<Rightarrow> Preference_row" where
  "server_preference p s d =
     (case saved_preference (p_id p) s d of
        Some r \<Rightarrow> r
      | None \<Rightarrow> \<lparr>pp_project_id = p_id p, pp_server_id = s, pp_name = [],
                 pp_pinned_at = p_pinned_at p, pp_hidden_at = p_hidden_at p\<rparr>)"

definition project_server_name :: "Preference_row \<Rightarrow> Project_row \<Rightarrow> string" where
  "project_server_name ps p = (if pp_name ps = [] then p_name p else pp_name ps)"

definition thread_view :: "db \<Rightarrow> Thread_row \<Rightarrow> Thread option" where
  "thread_view d t =
     (case find (\<lambda>w. w_id w = t_workspace_id t) (workspaces d) of None \<Rightarrow> None | Some w \<Rightarrow>
      case find (\<lambda>s. s_id s = w_server_id w) (servers d) of None \<Rightarrow> None | Some s \<Rightarrow>
      case find (\<lambda>p. p_id p = w_project_id w) (projects d) of None \<Rightarrow> None | Some p \<Rightarrow>
        (let ps = server_preference p (s_id s) d in
         Some \<lparr>th_ID = t_id t, th_WorkspaceID = t_workspace_id t, th_ProjectID = w_project_id w,
               th_CodexThreadID = t_codex_thread_id t, th_Title = t_title t, th_Status = t_status t,
               th_Path = w_path w, th_ServerID = w_server_id w, th_ServerName = s_name s,
               th_ProjectName = project_server_name ps p, th_PinnedAt = t_pinned_at t,
               th_ArchivedAt = t_archived_at t, th_ProjectPinnedAt = pp_pinned_at ps,
               th_ProjectHiddenAt = pp_hidden_at ps, th_CreatedAt = t_created_at t,
               th_UpdatedAt = t_updated_at t\<rparr>))"

definition get_Thread :: "string \<Rightarrow> db \<Rightarrow> go_error + Thread" where
  "get_Thread i d = find_row (\<lambda>v. th_ID v = i) (List.map_filter (thread_view d) (threads d))"

section \<open>The list\<close>

text \<open>Descending order with NULL last is the order of this pair.\<close>

definition newest_first :: "instant option \<Rightarrow> nat \<times> int" where
  "newest_first t = (case t of None \<Rightarrow> (1, 0) | Some x \<Rightarrow> (0, - x))"

definition list_key :: "Thread \<Rightarrow> (nat \<times> int) \<times> (nat \<times> int) \<times> int" where
  "list_key v = (newest_first (th_ProjectPinnedAt v), newest_first (th_PinnedAt v), - th_UpdatedAt v)"

definition archived_filter :: "string \<Rightarrow> Thread \<Rightarrow> bool" where
  "archived_filter archived v =
     (if archived = ''true'' then th_ArchivedAt v \<noteq> None
      else if archived = ''all'' then True else th_ArchivedAt v = None)"

definition listed_threads :: "string \<Rightarrow> db \<Rightarrow> Thread list" where
  "listed_threads archived d =
     order_by list_key (order_by_desc th_ID
       (filter (archived_filter archived) (List.map_filter (thread_view d) (threads d))))"

record ThreadPage =
  PageItems :: "Thread list"
  HasMore :: bool

definition ListThreadsPage :: "string \<Rightarrow> int \<Rightarrow> int \<Rightarrow> db \<Rightarrow> go_error + ThreadPage" where
  "ListThreadsPage archived limit offset d =
     (if limit \<le> 0 then Inl (Err ''thread page limit must be positive'')
      else if offset < 0 then Inl (Err ''thread page offset must not be negative'')
      else (let items = take (nat limit + 1) (drop (nat offset) (listed_threads archived d)) in
        Inr (if length items > nat limit then \<lparr>PageItems = take (nat limit) items, HasMore = True\<rparr>
             else \<lparr>PageItems = items, HasMore = False\<rparr>)))"

section \<open>Creating and deleting\<close>

definition showProjectForNewThread :: "string \<Rightarrow> db \<Rightarrow> db" where
  "showProjectForNewThread workspaceID d =
     (case find (\<lambda>w. w_id w = workspaceID) (workspaces d) of None \<Rightarrow> d | Some w \<Rightarrow>
      case find (\<lambda>p. p_id p = w_project_id w) (projects d) of None \<Rightarrow> d | Some p \<Rightarrow>
        (let ps = server_preference p (w_server_id w) d in
         if pp_hidden_at ps = None then d
         else if saved_preference (w_project_id w) (w_server_id w) d = None
         then d\<lparr>preferences := preferences d @ [ps\<lparr>pp_name := [], pp_hidden_at := None\<rparr>]\<rparr>
         else d\<lparr>preferences := map (\<lambda>r. if pp_project_id r = w_project_id w \<and> pp_server_id r = w_server_id w
                                         then r\<lparr>pp_hidden_at := None\<rparr> else r) (preferences d)\<rparr>))"

definition insert_thread :: "Thread_row \<Rightarrow> db \<Rightarrow> go_error + db" where
  "insert_thread t d =
     (if t_id t \<in> set (map t_id (threads d)) \<or> t_workspace_id t \<notin> set (map w_id (workspaces d))
      then Inl ConstraintFailed else Inr (d\<lparr>threads := threads d @ [t]\<rparr>))"

definition CreateThread :: "string \<Rightarrow> string \<Rightarrow> string \<Rightarrow> instant \<Rightarrow> db \<Rightarrow> go_error + Thread \<times> db" where
  "CreateThread workspaceID title newID now d =
     try_then (insert_thread
         \<lparr>t_id = newID, t_workspace_id = workspaceID, t_codex_thread_id = [],
          t_title = (if title = [] then ''New session'' else title), t_status = ''idle'',
          t_pinned_at = None, t_archived_at = None, t_last_sequence = 0, t_created_at = now,
          t_updated_at = now\<rparr> d)
       (\<lambda>d'. let d'' = showProjectForNewThread workspaceID d' in
          try_then (get_Thread newID d'') (\<lambda>v. Inr (v, d'')))"

definition busy :: "Thread_row \<Rightarrow> bool" where
  "busy t \<longleftrightarrow> t_status t \<in> {''queued'', ''running''}"

text \<open>
  Deleting the row takes the approvals and tasks of the session with it and clears the reference
  of its operations.
\<close>

definition delete_thread_row :: "string \<Rightarrow> db \<Rightarrow> db" where
  "delete_thread_row i d =
     d\<lparr>threads := filter (\<lambda>t. t_id t \<noteq> i) (threads d),
       approvals := filter (\<lambda>a. a_thread_id a \<noteq> i) (approvals d),
       tasks := (tasks d)(Codex := filter (\<lambda>k. k_thread_id k \<noteq> i) (tasks d Codex)),
       operations := map (\<lambda>o1. if o_thread_id o1 = Some i then o1\<lparr>o_thread_id := None\<rparr> else o1)
                         (operations d)\<rparr>"

definition DeleteThread :: "string \<Rightarrow> db \<Rightarrow> go_error + db" where
  "DeleteThread i d =
     (if list_ex (\<lambda>t. t_id t = i \<and> \<not> busy t) (threads d)
      then Inr ((delete_thread_row i d)\<lparr>events := filter (\<lambda>e. StreamID e \<noteq> i) (events d)\<rparr>)
      else if list_ex (\<lambda>t. t_id t = i) (threads d) then Inl ErrThreadActive
      else Inl ErrNoRows)"

section \<open>Status and attributes\<close>

definition update_threads :: "(Thread_row \<Rightarrow> bool) \<Rightarrow> (Thread_row \<Rightarrow> Thread_row) \<Rightarrow> db \<Rightarrow> nat \<times> db" where
  "update_threads sel f d =
     (length (filter sel (threads d)),
      d\<lparr>threads := map (\<lambda>t. if sel t then f t else t) (threads d)\<rparr>)"

definition SetThreadStatus :: "string \<Rightarrow> string \<Rightarrow> instant \<Rightarrow> db \<Rightarrow> db" where
  "SetThreadStatus i status now d =
     snd (update_threads (\<lambda>t. t_id t = i) (\<lambda>t. t\<lparr>t_status := status, t_updated_at := now\<rparr>) d)"

definition ClaimThreadForTurn :: "string \<Rightarrow> instant \<Rightarrow> db \<Rightarrow> go_error + db" where
  "ClaimThreadForTurn i now d =
     (case update_threads (\<lambda>t. t_id t = i \<and> \<not> busy t)
             (\<lambda>t. t\<lparr>t_status := ''queued'', t_updated_at := now\<rparr>) d of
        (n, d') \<Rightarrow> if n = 0 then Inl ErrThreadActive else Inr d')"

definition SetThreadTitle :: "string \<Rightarrow> string \<Rightarrow> instant \<Rightarrow> db \<Rightarrow> db" where
  "SetThreadTitle i title now d =
     snd (update_threads (\<lambda>t. t_id t = i) (\<lambda>t. t\<lparr>t_title := title, t_updated_at := now\<rparr>) d)"

definition SetThreadTitleIfDefault :: "string \<Rightarrow> string \<Rightarrow> instant \<Rightarrow> db \<Rightarrow> db" where
  "SetThreadTitleIfDefault i title now d =
     snd (update_threads (\<lambda>t. t_id t = i \<and> t_title t = ''New session'')
            (\<lambda>t. t\<lparr>t_title := title, t_updated_at := now\<rparr>) d)"

definition at_if :: "bool \<Rightarrow> instant \<Rightarrow> instant option" where
  "at_if b now = (if b then Some now else None)"

definition UpdateThread ::
    "string \<Rightarrow> string option \<Rightarrow> bool option \<Rightarrow> bool option \<Rightarrow> instant \<Rightarrow> db \<Rightarrow> go_error + Thread \<times> db" where
  "UpdateThread i title pinned archived now d =
     (if title = None \<and> pinned = None \<and> archived = None
      then try_then (get_Thread i d) (\<lambda>v. Inr (v, d))
      else (case update_threads (\<lambda>t. t_id t = i)
              (\<lambda>t. t\<lparr>t_title := coalesce title (t_title t),
                     t_pinned_at := (case pinned of None \<Rightarrow> t_pinned_at t | Some b \<Rightarrow> at_if b now),
                     t_archived_at := (case archived of None \<Rightarrow> t_archived_at t | Some b \<Rightarrow> at_if b now),
                     t_updated_at := now\<rparr>) d of
             (n, d') \<Rightarrow> if n = 0 then Inl ErrNoRows
                       else try_then (get_Thread i d') (\<lambda>v. Inr (v, d'))))"

definition ArchiveProjectThreads :: "string \<Rightarrow> string option \<Rightarrow> instant \<Rightarrow> db \<Rightarrow> nat \<times> db" where
  "ArchiveProjectThreads projectID server now d =
     update_threads
       (\<lambda>t. t_archived_at t = None \<and> \<not> busy t \<and>
            list_ex (\<lambda>w. w_id w = t_workspace_id t \<and> w_project_id w = projectID \<and>
                        (case server of None \<Rightarrow> True | Some s \<Rightarrow> s = [] \<or> w_server_id w = s)) (workspaces d))
       (\<lambda>t. t\<lparr>t_archived_at := Some now, t_updated_at := now\<rparr>) d"

definition ResolvePendingApprovals :: "string \<Rightarrow> string \<Rightarrow> instant \<Rightarrow> db \<Rightarrow> db" where
  "ResolvePendingApprovals threadID decision now d =
     d\<lparr>approvals := map (\<lambda>a. if a_thread_id a = threadID \<and> a_status a = ''pending''
         then a\<lparr>a_status := ''resolved'', a_decision := Some decision, a_resolved_at := Some now\<rparr> else a)
       (approvals d)\<rparr>"

section \<open>Rewriting a message\<close>

definition insert_event :: "StreamEvent \<Rightarrow> db \<Rightarrow> go_error + db" where
  "insert_event e d =
     (if event_conflict e d then Inl ConstraintFailed else Inr (d\<lparr>events := events d @ [e]\<rparr>))"

definition thread_event :: "string \<Rightarrow> string \<Rightarrow> db \<Rightarrow> go_error + StreamEvent" where
  "thread_event sid eid d = find_row (\<lambda>e. StreamID e = sid \<and> EventID e = eid) (events d)"

text \<open>
  The target of an edit is a user message that did not steer a running turn. The rewrite is queued
  with the number of turns to roll back and the last sequence number it may discard.
\<close>

definition RewriteThread ::
    "Thread \<Rightarrow> string \<Rightarrow> StartTurnCommand \<Rightarrow> raw_message \<Rightarrow> string \<Rightarrow> string \<Rightarrow> string \<Rightarrow> instant \<Rightarrow> db \<Rightarrow>
     go_error + (string \<times> StreamEvent) \<times> db" where
  "RewriteThread thread editEventID command userPayload newEventID newOperationID newKey now d =
     try_then (find_row (\<lambda>t. t_id t = th_ID thread) (threads d)) (\<lambda>t.
     if busy t then Inl ErrThreadActive
     else case thread_event (th_ID thread) editEventID d of Inl _ \<Rightarrow> Inl ErrInvalidEditTarget | Inr target \<Rightarrow>
     if EventKind target \<noteq> ''user.message'' then Inl ErrInvalidEditTarget
     else case (case EventPayload target of None \<Rightarrow> None | Some p \<Rightarrow> bool_field ''steer'' p) of
       None \<Rightarrow> Inl ErrInvalidEditTarget
     | Some True \<Rightarrow> Inl ErrInvalidEditTarget
     | Some False \<Rightarrow>
       (let stream = stream_events (th_ID thread) d;
            replacement = \<lparr>EventID = newEventID, StreamID = th_ID thread, Sequence = Sequence target,
              EventKind = ''user.message'', OccurredAt = now, EventPayload = userPayload\<rparr>;
            rewrite = \<lparr>RewriteStart = command,
              NumTurns = length (filter (\<lambda>e. EventKind e = ''turn.accepted'' \<and> Sequence target < Sequence e) stream),
              EditEventID = editEventID, ReplacementEventID = newEventID,
              ReplacementPayload = userPayload, CutoffSequence = max_sequence stream\<rparr>;
            row = queued_operation newOperationID (th_ServerID thread) no_resource ''codex.turn.rewrite''
              (JsonText (encode_RewriteTurnCommand rewrite)) False (''codex-rewrite:'' @ newKey) now
        in try_then (insert_operation (row\<lparr>o_project_id := Some (th_ProjectID thread),
              o_workspace_id := Some (th_WorkspaceID thread), o_thread_id := Some (th_ID thread)\<rparr>) d)
             (\<lambda>d'. Inr ((newOperationID, replacement),
                SetThreadStatus (th_ID thread) ''queued'' now d'))))"

definition CommitThreadRewrite ::
    "string \<Rightarrow> string \<Rightarrow> string \<Rightarrow> string \<Rightarrow> raw_message \<Rightarrow> int \<Rightarrow> instant \<Rightarrow> db \<Rightarrow>
     go_error + (StreamEvent \<times> bool) \<times> db" where
  "CommitThreadRewrite threadID codexThreadID editEventID replacementEventID replacementPayload cutoff now d =
     (case thread_event threadID editEventID d of
        Inl _ \<Rightarrow> try_then (thread_event threadID replacementEventID d) (\<lambda>existing. Inr ((existing, False), d))
      | Inr target \<Rightarrow>
          if EventKind target \<noteq> ''user.message'' then Inl ErrInvalidEditTarget
          else if cutoff < Sequence target then Inl ErrInvalidEditTarget
          else
            (let earlier = length (filter (\<lambda>e. EventKind e = ''user.message'' \<and> Sequence e < Sequence target)
                             (stream_events threadID d));
                 d1 = d\<lparr>events := filter (\<lambda>e. \<not> (StreamID e = threadID \<and> Sequence target \<le> Sequence e \<and>
                                               Sequence e \<le> cutoff)) (events d)\<rparr>;
                 event = \<lparr>EventID = replacementEventID, StreamID = threadID, Sequence = Sequence target,
                   EventKind = ''user.message'', OccurredAt = now, EventPayload = replacementPayload\<rparr>
             in try_then (insert_event event d1) (\<lambda>d2.
                  Inr ((event, True), snd (update_threads (\<lambda>t. t_id t = threadID)
                    (\<lambda>t. t\<lparr>t_codex_thread_id := codexThreadID, t_status := ''running'',
                           t_title := (if earlier = 0 then ''New session'' else t_title t),
                           t_updated_at := now\<rparr>) d2)))))"

section \<open>Forking at a reply\<close>

record forkEventPayload =
  fp_TurnID :: string
  fp_ItemID :: string
  fp_ItemType :: string
  fp_ItemPhase :: string
  fp_FinishedID :: string
  fp_FinishedStatus :: string

definition nested_str :: "string \<Rightarrow> string \<Rightarrow> json \<Rightarrow> string option" where
  "nested_str outer inner p =
     (case struct_field outer p of None \<Rightarrow> None | Some q \<Rightarrow> str_field inner q)"

definition decode_fork :: "raw_message \<Rightarrow> forkEventPayload option" where
  "decode_fork raw =
     (case raw of None \<Rightarrow> None | Some p \<Rightarrow>
       (case (str_field ''turnId'' p, nested_str ''item'' ''id'' p, nested_str ''item'' ''type'' p,
              nested_str ''item'' ''phase'' p, nested_str ''turn'' ''id'' p, nested_str ''turn'' ''status'' p) of
          (Some a, Some b, Some c, Some e, Some f, Some g) \<Rightarrow>
            Some \<lparr>fp_TurnID = a, fp_ItemID = b, fp_ItemType = c, fp_ItemPhase = e,
                  fp_FinishedID = f, fp_FinishedStatus = g\<rparr>
        | _ \<Rightarrow> None))"

definition fork_selectable :: "StreamEvent \<Rightarrow> forkEventPayload option" where
  "fork_selectable target =
     (case decode_fork (EventPayload target) of None \<Rightarrow> None | Some s \<Rightarrow>
        if EventKind target \<noteq> ''codex.item.completed'' \<or> fp_ItemType s \<noteq> ''agentMessage'' \<or>
           fp_ItemPhase s = ''commentary'' \<or> fp_TurnID s = [] \<or> fp_ItemID s = []
        then None else Some s)"

definition later_reply :: "forkEventPayload \<Rightarrow> StreamEvent \<Rightarrow> forkEventPayload \<Rightarrow> bool" where
  "later_reply s e v \<longleftrightarrow>
     EventKind e = ''codex.item.completed'' \<and> fp_TurnID v = fp_TurnID s \<and>
     fp_ItemType v = ''agentMessage'' \<and> fp_ItemID v \<noteq> fp_ItemID s"

definition turn_finished :: "forkEventPayload \<Rightarrow> StreamEvent \<Rightarrow> forkEventPayload \<Rightarrow> bool" where
  "turn_finished s e v \<longleftrightarrow>
     EventKind e = ''codex.turn.completed'' \<and> fp_FinishedID v = fp_TurnID s \<and>
     fp_FinishedStatus v \<in> {''completed'', ''interrupted'', ''failed''}"

fun fork_scan :: "forkEventPayload \<Rightarrow> int \<Rightarrow> StreamEvent list \<Rightarrow> go_error + int" where
  "fork_scan s cutoff [] = Inr cutoff"
| "fork_scan s cutoff (e # es) =
     (case decode_fork (EventPayload e) of
        None \<Rightarrow> Inl BadJSON
      | Some v \<Rightarrow>
          if later_reply s e v then Inl (Err ''choose the final reply of a finished Codex turn'')
          else fork_scan s (if turn_finished s e v \<and> cutoff = 0 then Sequence e else cutoff) es)"

definition ThreadForkBoundary :: "string \<Rightarrow> string \<Rightarrow> db \<Rightarrow> go_error + string \<times> int" where
  "ThreadForkBoundary threadID eventID d =
     (let invalid = Err ''choose the final reply of a finished Codex turn'' in
      case thread_event threadID eventID d of Inl _ \<Rightarrow> Inl invalid | Inr target \<Rightarrow>
      case fork_selectable target of None \<Rightarrow> Inl invalid | Some s \<Rightarrow>
        try_then (fork_scan s 0 (order_by Sequence
            (filter (\<lambda>e. Sequence target < Sequence e \<and>
                        EventKind e \<in> {''codex.item.completed'', ''codex.turn.completed''})
               (stream_events threadID d))))
          (\<lambda>cutoff. if 0 < cutoff then Inr (fp_TurnID s, cutoff) else Inl invalid))"

definition ValidateThreadForkResult :: "ForkThreadCommand \<Rightarrow> ForkThreadResult \<Rightarrow> go_error option" where
  "ValidateThreadForkResult c r =
     (if ResultCodexThread r = [] \<or> ResultCodexThread r = ForkCodexThread c
      then Some (Err ''fork must create a new Codex thread'')
      else if ForkLastTurnID c \<noteq> [] \<and> ResultLastTurnID r \<noteq> ForkLastTurnID c
      then Some (Err ''Agent did not confirm the requested fork boundary; upgrade the Agent'')
      else None)"

text \<open>The copies get fresh identifiers, \<open>newID k\<close> the one of the k-th.\<close>

fun copy_events :: "(nat \<Rightarrow> string) \<Rightarrow> nat \<Rightarrow> string \<Rightarrow> StreamEvent list \<Rightarrow> db \<Rightarrow> go_error + db" where
  "copy_events newID k target [] d = Inr d"
| "copy_events newID k target (e # es) d =
     try_then (insert_event (e\<lparr>EventID := newID k, StreamID := target\<rparr>) d)
       (\<lambda>d'. copy_events newID (Suc k) target es d')"

definition CommitThreadFork ::
    "ForkThreadCommand \<Rightarrow> string \<Rightarrow> (nat \<Rightarrow> string) \<Rightarrow> instant \<Rightarrow> db \<Rightarrow> go_error + db" where
  "CommitThreadFork c codexThread newID now d =
     (case find (\<lambda>t. t_id t = TargetThreadID c) (threads d) of
        Some existing \<Rightarrow>
          if t_codex_thread_id existing = codexThread then Inr d
          else Inl (Err ''fork target already exists'')
      | None \<Rightarrow>
        (case find (\<lambda>t. t_id t = SourceThreadID c \<and> t_workspace_id t = ForkWorkspaceID c) (threads d) of
           None \<Rightarrow> Inl ErrNoRows
         | Some source \<Rightarrow>
             if ForkLastTurnID c \<noteq> [] \<and>
                (t_codex_thread_id source \<noteq> ForkCodexThread c \<or> ForkCutoffSequence c \<le> 0)
             then Inl (Err ''source conversation changed while forking'')
             else try_then (insert_thread
                 \<lparr>t_id = TargetThreadID c, t_workspace_id = t_workspace_id source,
                  t_codex_thread_id = codexThread, t_title = ForkTitle c, t_status = ''idle'',
                  t_pinned_at = None, t_archived_at = None,
                  t_last_sequence = (if 0 < ForkCutoffSequence c then ForkCutoffSequence c
                                     else t_last_sequence source),
                  t_created_at = now, t_updated_at = now\<rparr> d)
               (\<lambda>d'. copy_events newID 0 (TargetThreadID c)
                  (order_by Sequence (filter (\<lambda>e. ForkCutoffSequence c = 0 \<or> Sequence e \<le> ForkCutoffSequence c)
                     (stream_events (SourceThreadID c) d'))) d')))"

section \<open>Properties of the sessions\<close>

lemma thread_event_Inr:
  "thread_event sid eid d = Inr e \<Longrightarrow> e \<in> set (events d) \<and> StreamID e = sid \<and> EventID e = eid"
  by (auto simp: thread_event_def dest: find_row_Inr)

lemma thread_event_unique:
  assumes "log_ok (events d)" and "e \<in> set (events d)" and "StreamID e = sid" and "EventID e = eid"
  shows "thread_event sid eid d = Inr e"
proof (cases "thread_event sid eid d")
  case (Inl err)
  then show ?thesis using assms by (auto simp: thread_event_def find_row_Inl)
next
  case (Inr x)
  from thread_event_Inr[OF this] assms have "x = e"
    by (auto simp: log_ok_def distinct_map dest: inj_onD)
  then show ?thesis using Inr by simp
qed

lemma log_ok_filter: "log_ok es \<Longrightarrow> log_ok (filter P es)"
  by (simp add: log_ok_def distinct_map_filter)

lemma rewrite_committed:
  assumes "CommitThreadRewrite sid cid eid rid payload cutoff now d = Inr ((e, True), d')"
  obtains target where "thread_event sid eid d = Inr target" "Sequence target \<le> cutoff"
    "e = \<lparr>EventID = rid, StreamID = sid, Sequence = Sequence target, EventKind = ''user.message'',
          OccurredAt = now, EventPayload = payload\<rparr>"
    "events d' = filter (\<lambda>x. \<not> (StreamID x = sid \<and> Sequence target \<le> Sequence x \<and> Sequence x \<le> cutoff)) (events d) @ [e]"
    "\<not> event_conflict e (d\<lparr>events := filter (\<lambda>x. \<not> (StreamID x = sid \<and> Sequence target \<le> Sequence x \<and> Sequence x \<le> cutoff)) (events d)\<rparr>)"
proof (cases "thread_event sid eid d")
  case (Inl err)
  then show ?thesis using assms by (auto simp: CommitThreadRewrite_def try_then_Inr_iff)
next
  case (Inr target)
  then show ?thesis
    using assms that[of target]
    by (auto simp: CommitThreadRewrite_def Let_def try_then_Inr_iff insert_event_def update_threads_def
        split: if_splits)
qed

text \<open>
  C26: Committing a rewrite replaces exactly the discarded range: events of the session before the
  edited message and after the cutoff stay, everything between them gives way to the replacement
  at the position of the edited message, other sessions are untouched, and committing again is
  recognised and changes nothing.
\<close>

theorem rewrite_replaces_range:
  assumes "log_ok (events d)"
    and "CommitThreadRewrite sid cid eid rid payload cutoff now d = Inr ((e, True), d')"
  shows "\<exists>target. thread_event sid eid d = Inr target \<and> Sequence e = Sequence target \<and> log_ok (events d') \<and>
    (\<forall>s. set (stream_events s d') =
       (if s = sid then {x \<in> set (stream_events s d). Sequence x < Sequence target \<or> cutoff < Sequence x} \<union> {e}
        else set (stream_events s d))) \<and>
    (eid \<noteq> rid \<longrightarrow> CommitThreadRewrite sid cid' eid rid payload' cutoff' now' d' = Inr ((e, False), d'))"
proof -
  from rewrite_committed[OF assms(2)] obtain target where t: "thread_event sid eid d = Inr target"
    "Sequence target \<le> cutoff"
    "e = \<lparr>EventID = rid, StreamID = sid, Sequence = Sequence target, EventKind = ''user.message'',
          OccurredAt = now, EventPayload = payload\<rparr>"
    "events d' = filter (\<lambda>x. \<not> (StreamID x = sid \<and> Sequence target \<le> Sequence x \<and> Sequence x \<le> cutoff)) (events d) @ [e]"
    "\<not> event_conflict e (d\<lparr>events := filter (\<lambda>x. \<not> (StreamID x = sid \<and> Sequence target \<le> Sequence x \<and> Sequence x \<le> cutoff)) (events d)\<rparr>)"
    by blast
  note target = thread_event_Inr[OF t(1)]
  have ok: "log_ok (events d')"
    using event_conflict_iff[of "d\<lparr>events := filter (\<lambda>x. \<not> (StreamID x = sid \<and> Sequence target \<le> Sequence x \<and> Sequence x \<le> cutoff)) (events d)\<rparr>" e]
      log_ok_filter[OF assms(1)] t(4,5) by simp
  have streams: "set (stream_events s d') =
      (if s = sid then {x \<in> set (stream_events s d). Sequence x < Sequence target \<or> cutoff < Sequence x} \<union> {e}
       else set (stream_events s d))" for s
    using t(3,4) by (auto simp: stream_events_def)
  have "CommitThreadRewrite sid cid' eid rid payload' cutoff' now' d' = Inr ((e, False), d')" if "eid \<noteq> rid"
  proof -
    have "x = target" if "x \<in> set (events d)" "EventID x = eid" for x
      using that target assms(1) by (auto simp: log_ok_def distinct_map dest: inj_onD)
    then have gone: "thread_event sid eid d' = Inl ErrNoRows"
      using t(2,3,4) target \<open>eid \<noteq> rid\<close> by (auto simp: thread_event_def find_row_Inl)
    have "thread_event sid rid d' = Inr e" using thread_event_unique[OF ok, of e] t(3,4) by simp
    then show ?thesis using gone by (simp add: CommitThreadRewrite_def)
  qed
  then show ?thesis using t(1,3) ok streams by auto
qed

text \<open>
  C20: A session has one turn at a time: after a successful claim, until its status is set again, a
  second claim, a rewrite of one of its messages and its deletion are all refused.
\<close>

theorem claim_is_exclusive:
  assumes "distinct (map t_id (threads d))" and "ClaimThreadForTurn i now d = Inr d'"
  shows "ClaimThreadForTurn i now' d' = Inl ErrThreadActive \<and> DeleteThread i d' = Inl ErrThreadActive \<and>
    (th_ID v = i \<longrightarrow> RewriteThread v eid c p a b k now' d' = Inl ErrThreadActive)"
proof -
  let ?sel = "\<lambda>t. t_id t = i \<and> \<not> busy t"
  let ?f = "\<lambda>t. if ?sel t then t\<lparr>t_status := ''queued'', t_updated_at := now\<rparr> else t"
  have d': "d' = d\<lparr>threads := map ?f (threads d)\<rparr>" and ne: "filter ?sel (threads d) \<noteq> []"
    using assms(2) by (auto simp: ClaimThreadForTurn_def update_threads_def split: if_splits)
  have busy: "busy t" if "t \<in> set (threads d')" "t_id t = i" for t
  proof -
    have "t \<in> set (map ?f (threads d))" using \<open>t \<in> set (threads d')\<close> unfolding d' by simp
    then obtain t0 where "t = ?f t0" unfolding set_map by blast
    then show ?thesis using \<open>t_id t = i\<close> by (cases "?sel t0") (auto simp: busy_def)
  qed
  obtain t0 where t0: "t0 \<in> set (threads d)" "t_id t0 = i" using ne by (auto simp: filter_empty_conv)
  then have "?f t0 \<in> set (threads d')" and "t_id (?f t0) = i" unfolding d' by simp_all
  then have ex: "\<exists>t\<in>set (threads d'). t_id t = i" by blast
  have "ClaimThreadForTurn i now' d' = Inl ErrThreadActive"
    using busy by (auto simp: ClaimThreadForTurn_def update_threads_def filter_empty_conv)
  moreover have "DeleteThread i d' = Inl ErrThreadActive"
    using busy ex by (auto simp: DeleteThread_def list_ex_iff)
  moreover have "RewriteThread v eid c p a b k now' d' = Inl ErrThreadActive" if "th_ID v = i"
  proof (cases "find_row (\<lambda>t. t_id t = i) (threads d')")
    case (Inl e)
    then show ?thesis using ex by (auto simp: find_row_Inl)
  next
    case (Inr t)
    then show ?thesis using busy find_row_Inr[OF Inr] that by (simp add: RewriteThread_def)
  qed
  ultimately show ?thesis by blast
qed

text \<open>
  Paging through the sessions visits each of them once and in order: the pages of a fixed
  positive size at consecutive offsets concatenate to the list, and a page says that more follow
  exactly when the list goes on.
\<close>

theorem pages_partition:
  assumes "0 < n"
  shows "\<exists>pages. (\<forall>k<length pages. ListThreadsPage archived (int n) (int (k * n)) d = Inr (pages ! k)) \<and>
    concat (map PageItems pages) = listed_threads archived d \<and>
    (\<forall>k<length pages. HasMore (pages ! k) \<longleftrightarrow> (k + 1) * n < length (listed_threads archived d))"
proof -
  let ?l = "listed_threads archived d"
  let ?page = "\<lambda>k. \<lparr>PageItems = take n (drop (k * n) ?l), HasMore = ((k + 1) * n < length ?l)\<rparr>"
  let ?m = "length ?l"
  have one: "ListThreadsPage archived (int n) (int (k * n)) d = Inr (?page k)" for k
    using assms by (auto simp: ListThreadsPage_def Let_def min_def simp del: of_nat_mult)
  have cat: "concat (map (\<lambda>k. take n (drop (k * n) xs)) [0..<m]) = take (m * n) xs" for m and xs :: "Thread list"
  proof (induction m)
    case (Suc m)
    have "take (Suc m * n) xs = take (m * n) xs @ take n (drop (m * n) xs)"
      by (metis add.commute mult_Suc take_add)
    then show ?case using Suc by simp
  qed simp
  have "concat (map PageItems (map ?page [0..<?m])) = take (?m * n) ?l"
    using cat[of ?l ?m] by (simp add: comp_def)
  also have "\<dots> = ?l" using assms by simp
  finally show ?thesis
    using one by (intro exI[of _ "map ?page [0..<?m]"]) simp
qed

lemma copy_events_Inr:
  "copy_events newID k target es d = Inr d' \<Longrightarrow>
   events d' = events d @ map (\<lambda>(i, e). e\<lparr>EventID := newID i, StreamID := target\<rparr>) (zip [k..<k + length es] es)"
proof (induction es arbitrary: k d)
  case (Cons e es)
  then show ?case
    by (auto simp: try_then_Inr_iff insert_event_def upt_conv_Cons simp del: upt_Suc split: if_splits)
qed simp

text \<open>
  A fork holds the history up to its boundary and leaves the source alone: after a successful
  fork into a new session, its stream is the source's events up to the cutoff, in order, with
  fresh identifiers and everything else kept, and every other stream is unchanged.
\<close>

theorem fork_copies_prefix:
  assumes "CommitThreadFork c codexThread newID now d = Inr d'"
    and "TargetThreadID c \<notin> set (map t_id (threads d))"
    and "stream_events (TargetThreadID c) d = []"
  shows "map (\<lambda>e. e\<lparr>EventID := [], StreamID := []\<rparr>) (stream_events (TargetThreadID c) d') =
      map (\<lambda>e. e\<lparr>EventID := [], StreamID := []\<rparr>)
        (order_by Sequence (filter (\<lambda>e. ForkCutoffSequence c = 0 \<or> Sequence e \<le> ForkCutoffSequence c)
           (stream_events (SourceThreadID c) d))) \<and>
    (\<forall>s. s \<noteq> TargetThreadID c \<longrightarrow> stream_events s d' = stream_events s d)"
proof -
  let ?es = "order_by Sequence (filter (\<lambda>e. ForkCutoffSequence c = 0 \<or> Sequence e \<le> ForkCutoffSequence c)
           (stream_events (SourceThreadID c) d))"
  have "find (\<lambda>t. t_id t = TargetThreadID c) (threads d) = None"
    using assms(2) by (auto simp: find_None_iff intro: rev_image_eqI)
  then obtain t d1 where "insert_thread t d = Inr d1" and cp:
    "copy_events newID 0 (TargetThreadID c) (order_by Sequence (filter (\<lambda>e. ForkCutoffSequence c = 0 \<or>
        Sequence e \<le> ForkCutoffSequence c) (stream_events (SourceThreadID c) d1))) d1 = Inr d'"
    using assms(1) by (auto simp: CommitThreadFork_def try_then_Inr_iff split: option.splits if_splits)
  then have "events d1 = events d" by (auto simp: insert_thread_def split: if_splits)
  then have e: "events d' = events d @
      map (\<lambda>(i, e). e\<lparr>EventID := newID i, StreamID := TargetThreadID c\<rparr>) (zip [0..<0 + length ?es] ?es)"
    using copy_events_Inr[OF cp] by (simp add: stream_events_def)
  let ?copies = "map (\<lambda>(i, e). e\<lparr>EventID := newID i, StreamID := TargetThreadID c\<rparr>) (zip [0..<length ?es] ?es)"
  have own: "filter (\<lambda>e. StreamID e = s) ?copies = (if s = TargetThreadID c then ?copies else [])" for s
    by (auto simp: filter_empty_conv filter_id_conv)
  have "map (\<lambda>e. e\<lparr>EventID := [], StreamID := []\<rparr>) ?copies = map (\<lambda>e. e\<lparr>EventID := [], StreamID := []\<rparr>) ?es"
    by (rule nth_equalityI) simp_all
  then show ?thesis using assms(3) e own by (simp add: stream_events_def)
qed

lemma fork_scan_Inr:
  assumes "fork_scan s c es = Inr k"
  shows "(k = c \<or> (\<exists>e\<in>set es. \<exists>v. Sequence e = k \<and> decode_fork (EventPayload e) = Some v \<and> turn_finished s e v)) \<and>
    (\<forall>e\<in>set es. \<forall>v. decode_fork (EventPayload e) = Some v \<longrightarrow> \<not> later_reply s e v)"
  using assms
proof (induction s c es rule: fork_scan.induct)
  case (2 s c e es)
  then show ?case by (auto split: option.splits if_splits)
qed simp

text \<open>
  A fork ends at a finished turn: a boundary is only given for a final reply, it lies behind
  the reply at an event that finishes the turn of the reply, and no other reply of that turn
  follows the chosen one.
\<close>

theorem fork_boundary_ends_turn:
  assumes "ThreadForkBoundary threadID eventID d = Inr (turnID, cutoff)"
  shows "\<exists>target s. thread_event threadID eventID d = Inr target \<and> fork_selectable target = Some s \<and>
    fp_TurnID s = turnID \<and>
    (\<exists>e\<in>set (stream_events threadID d). \<exists>v. Sequence e = cutoff \<and> Sequence target < cutoff \<and>
       decode_fork (EventPayload e) = Some v \<and> turn_finished s e v) \<and>
    (\<forall>e\<in>set (stream_events threadID d). \<forall>v. Sequence target < Sequence e \<longrightarrow>
       decode_fork (EventPayload e) = Some v \<longrightarrow> \<not> later_reply s e v)"
proof -
  obtain target s where t: "thread_event threadID eventID d = Inr target" "fork_selectable target = Some s"
    and scan: "fork_scan s 0 (order_by Sequence (filter (\<lambda>e. Sequence target < Sequence e \<and>
        EventKind e \<in> {''codex.item.completed'', ''codex.turn.completed''}) (stream_events threadID d))) = Inr cutoff"
    and r: "0 < cutoff" "turnID = fp_TurnID s"
    using assms by (auto simp: ThreadForkBoundary_def Let_def try_then_Inr_iff split: sum.splits option.splits if_splits)
  from fork_scan_Inr[OF scan] r(1) have
    "\<exists>e\<in>set (stream_events threadID d). \<exists>v. Sequence e = cutoff \<and> Sequence target < cutoff \<and>
       decode_fork (EventPayload e) = Some v \<and> turn_finished s e v" by auto
  moreover have "\<not> later_reply s e v" if "e \<in> set (stream_events threadID d)" "Sequence target < Sequence e"
    "decode_fork (EventPayload e) = Some v" for e v
    using fork_scan_Inr[OF scan] that by (auto simp: later_reply_def)
  ultimately show ?thesis using t r(2) by blast
qed

section \<open>A sample session\<close>

definition sample_thread :: Thread_row where
  "sample_thread = \<lparr>t_id = ''t'', t_workspace_id = ''w1'', t_codex_thread_id = ''c'', t_title = ''T'',
     t_status = ''idle'', t_pinned_at = None, t_archived_at = None, t_last_sequence = 0,
     t_created_at = 1, t_updated_at = 1\<rparr>"

definition session_events :: "StreamEvent list" where
  "session_events =
     [\<lparr>EventID = ''a'', StreamID = ''t'', Sequence = 1, EventKind = ''user.message'', OccurredAt = 5,
       EventPayload = Some (JObj [])\<rparr>,
      \<lparr>EventID = ''b'', StreamID = ''t'', Sequence = 2, EventKind = ''codex.item.completed'', OccurredAt = 6,
       EventPayload = Some (JObj [(''turnId'', JStr ''u''), (''item'', JObj [(''id'', JStr ''i''), (''type'', JStr ''agentMessage'')])])\<rparr>,
      \<lparr>EventID = ''c'', StreamID = ''t'', Sequence = 3, EventKind = ''codex.turn.completed'', OccurredAt = 7,
       EventPayload = Some (JObj [(''turn'', JObj [(''id'', JStr ''u''), (''status'', JStr ''completed'')])])\<rparr>]"

definition session_db :: db where
  "session_db = sample_db\<lparr>threads := [sample_thread], events := session_events\<rparr>"

lemma session_log_ok: "log_ok (events session_db)"
  by (simp add: session_db_def session_events_def log_ok_def)

lemma rewrite_replaces_range_witness:
  "\<exists>e d'. CommitThreadRewrite ''t'' ''c'' ''a'' ''r'' (Some JNull) 2 9 session_db = Inr ((e, True), d') \<and>
     map EventID (stream_events ''t'' d') = [''c'', ''r''] \<and> log_ok (events d') \<and>
     CommitThreadRewrite ''t'' ''c'' ''a'' ''r'' None 5 10 d' = Inr ((e, False), d')"
proof -
  have "\<exists>e d'. CommitThreadRewrite ''t'' ''c'' ''a'' ''r'' (Some JNull) 2 9 session_db = Inr ((e, True), d') \<and>
     map EventID (stream_events ''t'' d') = [''c'', ''r'']"
    by (simp add: CommitThreadRewrite_def thread_event_def find_row_def session_db_def session_events_def
        Let_def insert_event_def event_conflict_def update_threads_def stream_events_def)
  then obtain e d' where 1: "CommitThreadRewrite ''t'' ''c'' ''a'' ''r'' (Some JNull) 2 9 session_db = Inr ((e, True), d')"
    "map EventID (stream_events ''t'' d') = [''c'', ''r'']" by (elim exE conjE) (rule that)
  from rewrite_replaces_range[OF session_log_ok 1(1), of "''c''" None 5 10] 1 show ?thesis by auto
qed

lemma claim_is_exclusive_witness:
  "\<exists>d'. ClaimThreadForTurn ''t'' 8 session_db = Inr d' \<and> ClaimThreadForTurn ''t'' 9 d' = Inl ErrThreadActive \<and>
     DeleteThread ''t'' d' = Inl ErrThreadActive"
proof -
  have "\<exists>d'. ClaimThreadForTurn ''t'' 8 session_db = Inr d'"
    by (simp add: ClaimThreadForTurn_def update_threads_def session_db_def sample_thread_def busy_def)
  then obtain d' where d': "ClaimThreadForTurn ''t'' 8 session_db = Inr d'" by blast
  have "distinct (map t_id (threads session_db))" by (simp add: session_db_def)
  from claim_is_exclusive[OF this d'] d' show ?thesis by blast
qed

lemma pages_partition_witness:
  "\<exists>pages. concat (map PageItems pages) = listed_threads ''all'' session_db \<and>
     (\<forall>k<length pages. ListThreadsPage ''all'' 2 (int (k * 2)) session_db = Inr (pages ! k))"
  using pages_partition[of 2 "''all''" session_db] by auto

definition sample_fork :: ForkThreadCommand where
  "sample_fork = \<lparr>SourceThreadID = ''t'', TargetThreadID = ''t2'', ForkCodexThread = ''c'', ForkWorkspaceID = ''w1'',
     ForkWorkspace = ''/srv/wio'', ForkTitle = ''F'', ForkLastTurnID = ''u'', ForkCutoffSequence = 3\<rparr>"

lemma fork_copies_prefix_witness:
  "\<exists>d'. CommitThreadFork sample_fork ''c2'' (\<lambda>k. replicate (Suc k) CHR ''n'') 9 session_db = Inr d' \<and>
     stream_events ''t'' d' = stream_events ''t'' session_db \<and> length (stream_events ''t2'' d') = 3"
proof -
  have "\<exists>d'. CommitThreadFork sample_fork ''c2'' (\<lambda>k. replicate (Suc k) CHR ''n'') 9 session_db = Inr d'"
    by (simp add: CommitThreadFork_def sample_fork_def session_db_def sample_thread_def sample_db_def empty_db_def
        insert_thread_def session_events_def stream_events_def order_by_def insert_event_def event_conflict_def)
  then obtain d' where d': "CommitThreadFork sample_fork ''c2'' (\<lambda>k. replicate (Suc k) CHR ''n'') 9 session_db = Inr d'"
    by blast
  have "TargetThreadID sample_fork \<notin> set (map t_id (threads session_db))"
    and "stream_events (TargetThreadID sample_fork) session_db = []"
    by (simp_all add: sample_fork_def session_db_def sample_thread_def stream_events_def session_events_def)
  from fork_copies_prefix[OF d' this] have
    "map (\<lambda>e. e\<lparr>EventID := [], StreamID := []\<rparr>) (stream_events ''t2'' d') =
      map (\<lambda>e. e\<lparr>EventID := [], StreamID := []\<rparr>) session_events"
    and "stream_events ''t'' d' = stream_events ''t'' session_db"
    by (simp_all add: sample_fork_def session_db_def stream_events_def session_events_def order_by_def)
  then show ?thesis using d' by (auto dest!: arg_cong[of _ _ length] simp: session_events_def)
qed

lemma fork_boundary_ends_turn_witness:
  "ThreadForkBoundary ''t'' ''b'' session_db = Inr (''u'', 3) \<and>
   (\<exists>e\<in>set (stream_events ''t'' session_db). Sequence e = 3 \<and> EventKind e = ''codex.turn.completed'')"
proof -
  have "ThreadForkBoundary ''t'' ''b'' session_db = Inr (''u'', 3)"
    by (simp add: ThreadForkBoundary_def thread_event_def find_row_def session_db_def session_events_def
        Let_def fork_selectable_def decode_fork_def nested_str_def struct_field_def raw_field_def json_entry_def
        str_field_def scalar_field_def order_by_def stream_events_def later_reply_def turn_finished_def)
  from fork_boundary_ends_turn[OF this] this show ?thesis by (auto simp: turn_finished_def)
qed

end
