(* ===== verification/Agent_Operations.thy ===== *)
theory Agent_Operations
  imports Wio_Prelude Go_Strings Wire_Protocol
begin

text \<open>
  The operations of the Agent, internal/agent/client.go, operation_cache.go, operation_interrupt.go,
  claude_interrupt.go and gemini_interrupt.go: the cache of executions, the receipts on disk, the
  registration of a delivered operation, its completion, its interruption and the replay of its
  result, and the exclusion of an Agent update by active tasks. \<open>agent_step\<close> interleaves them as the
  goroutines of the Agent do; each step is a region under \<open>seenMu\<close> with the messages it queues.

  The body of an operation is not part of this theory: a step \<open>finish\<close> ends it with an arbitrary
  error and result. The digest that names a receipt file and the length of a printed JSON document
  are arguments of the model, the theorems hold for all of them.
\<close>

section \<open>Executions and receipts\<close>

record operationExecution =
  ex_kind :: string
  ex_cancel :: bool \<comment> \<open>\<open>cancel\<close> is set\<close>
  ex_cancelled :: bool \<comment> \<open>\<open>cancel\<close> was called\<close>
  ex_done :: bool \<comment> \<open>\<open>done\<close> is closed\<close>
  ex_result :: OperationResult
  ex_completed :: "instant option" \<comment> \<open>\<open>completedAt\<close>, \<open>None\<close> the zero time\<close>
  ex_persisted :: bool

datatype agent_msg =
    M_started string
  | M_result OperationResult
  | M_ownership string string \<comment> \<open>kind of the message, operation\<close>

datatype receipt = Receipt OperationResult | Unreadable

record agent_client =
  state_dir :: string
  outbound :: "agent_msg list"
  seen :: "(string \<times> operationExecution) list" \<comment> \<open>the map, in some order of iteration\<close>
  update_pending :: bool
  working :: "string list" \<comment> \<open>operations whose body is past its update check\<close>
  receipts :: "string \<Rightarrow> receipt option" \<comment> \<open>the files of \<open>operation-results\<close>\<close>

definition new_client :: "string \<Rightarrow> (string \<Rightarrow> receipt option) \<Rightarrow> agent_client" where
  "new_client dir disk = \<lparr>state_dir = dir, outbound = [], seen = [], update_pending = False, working = [], receipts = disk\<rparr>"

definition outbound_limit :: nat where "outbound_limit = 4096"

text \<open>
  An important message waits for room for five seconds: the call is taken at the moment it finds
  room or gives up.
\<close>

definition queue_msg :: "agent_msg \<Rightarrow> agent_client \<Rightarrow> (string + unit) \<times> agent_client" where
  "queue_msg m c =
     (if length (outbound c) < outbound_limit then (Inr (), c\<lparr>outbound := outbound c @ [m]\<rparr>)
      else (Inl ''agent outbound queue is full'', c))"

definition saveOperationResult :: "(string \<Rightarrow> string) \<Rightarrow> bool \<Rightarrow> OperationResult \<Rightarrow> agent_client \<Rightarrow> (string + unit) \<times> agent_client" where
  "saveOperationResult digest disk_ok result c =
     (if state_dir c = '''' then (Inr (), c)
      else if \<not> disk_ok then (Inl ''write failed'', c)
      else (Inr (), c\<lparr>receipts := (receipts c)(digest (ResultOperationID result) \<mapsto> Receipt result)\<rparr>))"

definition loadOperationResult :: "(string \<Rightarrow> string) \<Rightarrow> string \<Rightarrow> agent_client \<Rightarrow> string + OperationResult option" where
  "loadOperationResult digest oid c =
     (if state_dir c = '''' then Inr None
      else case receipts c (digest oid) of
        None \<Rightarrow> Inr None
      | Some Unreadable \<Rightarrow> Inl ''unreadable receipt''
      | Some (Receipt result) \<Rightarrow>
          if ResultOperationID result \<noteq> oid then Inl ''operation receipt ID mismatch'' else Inr (Some result))"

section \<open>The cache\<close>

definition completedOperationLimit :: int where "completedOperationLimit = 128"
definition completedOperationByteLimit :: int where "completedOperationByteLimit = 16 * 1048576"
definition completedOperationTTL :: duration where "completedOperationTTL = ns_hour"

definition data_bytes :: "(raw_message \<Rightarrow> nat) \<Rightarrow> OperationResult \<Rightarrow> int" where
  "data_bytes len r = (case ResultData r of None \<Rightarrow> 0 | Some d \<Rightarrow> int (len d)) + int (length (ResultMessage r))"

definition evictable :: "operationExecution \<Rightarrow> bool" where
  "evictable e \<longleftrightarrow> ex_completed e \<noteq> None \<and> ex_persisted e"

definition expired :: "instant \<Rightarrow> operationExecution \<Rightarrow> bool" where
  "expired now e \<longleftrightarrow> evictable e \<and> now - the (ex_completed e) > completedOperationTTL"

text \<open>The scan for the oldest completed execution: the ID found so far, empty at the start, and its time.\<close>

fun oldest_scan :: "string \<times> instant \<Rightarrow> (string \<times> operationExecution) list \<Rightarrow> string \<times> instant" where
  "oldest_scan acc [] = acc"
| "oldest_scan (oldestID, oldest) ((i, e) # xs) =
     (if evictable e \<and> (oldestID = '''' \<or> the (ex_completed e) < oldest)
      then oldest_scan (i, the (ex_completed e)) xs
      else oldest_scan (oldestID, oldest) xs)"

definition delete_key :: "string \<Rightarrow> (string \<times> 'v) list \<Rightarrow> (string \<times> 'v) list" where
  "delete_key k xs = filter (\<lambda>(i, _). i \<noteq> k) xs"

lemma oldest_scan_mem:
  "oldest_scan acc xs = acc \<or>
   (\<exists>e. (fst (oldest_scan acc xs), e) \<in> set xs \<and> evictable e \<and> ex_completed e = Some (snd (oldest_scan acc xs)))"
proof (induction acc xs rule: oldest_scan.induct)
  case (2 oldestID oldest i e xs)
  show ?case
  proof (cases "evictable e \<and> (oldestID = '''' \<or> the (ex_completed e) < oldest)")
    case True
    then have "ex_completed e = Some (the (ex_completed e))" by (auto simp: evictable_def)
    then show ?thesis using 2 True by fastforce
  next
    case False
    then show ?thesis using 2 by fastforce
  qed
qed simp

lemma length_delete_key:
  assumes "k \<in> fst ` set xs"
  shows "length (delete_key k xs) < length xs"
proof -
  obtain v where "(k, v) \<in> set xs" using assms by auto
  then show ?thesis unfolding delete_key_def by (intro length_filter_less[of "(k, v)"]) auto
qed

function evict_loop :: "(raw_message \<Rightarrow> nat) \<Rightarrow> int \<Rightarrow> int \<Rightarrow> (string \<times> operationExecution) list \<Rightarrow> (string \<times> operationExecution) list" where
  "evict_loop len n bytes xs =
     (if n > completedOperationLimit \<or> bytes > completedOperationByteLimit
      then (let oldestID = fst (oldest_scan ('''', 0) xs) in
        if oldestID = '''' then xs
        else case map_of xs oldestID of
          None \<Rightarrow> xs
        | Some e \<Rightarrow> evict_loop len (n - 1) (bytes - data_bytes len (ex_result e)) (delete_key oldestID xs))
      else xs)"
  by pat_completeness auto
termination
proof (relation "measure (\<lambda>(len, n, bytes, xs). length xs)", goal_cases)
  case (2 len n bytes xs i e)
  then have "i \<in> fst ` set xs" by (metis map_of_eq_None_iff option.distinct(1))
  then show ?case by (simp add: length_delete_key)
qed simp

declare evict_loop.simps [simp del]

definition prune_seen :: "(raw_message \<Rightarrow> nat) \<Rightarrow> instant \<Rightarrow> (string \<times> operationExecution) list \<Rightarrow> (string \<times> operationExecution) list" where
  "prune_seen len now xs =
     (let kept = filter (\<lambda>(_, e). \<not> expired now e) xs;
          completed = filter (\<lambda>(_, e). evictable e) kept
      in evict_loop len (int (length completed)) (sum_list (map (\<lambda>(_, e). data_bytes len (ex_result e)) completed)) kept)"

definition pruneCompletedOperations :: "(raw_message \<Rightarrow> nat) \<Rightarrow> instant \<Rightarrow> agent_client \<Rightarrow> agent_client" where
  "pruneCompletedOperations len now c = c\<lparr>seen := prune_seen len now (seen c)\<rparr>"

section \<open>Pruning\<close>

lemmas evict_loop_step = evict_loop.simps

lemma delete_key_simps [simp]:
  "set (delete_key k xs) = {x \<in> set xs. fst x \<noteq> k}"
  "distinct (map fst xs) \<Longrightarrow> distinct (map fst (delete_key k xs))"
  unfolding delete_key_def by (auto intro: distinct_map_filter)

lemma oldest_scan_min:
  assumes "'''' \<notin> fst ` set xs" and "oldest_scan acc xs = (i, t)"
  shows "(fst acc \<noteq> '''' \<longrightarrow> t \<le> snd acc \<and> i \<noteq> '''') \<and>
         (\<forall>(j, e) \<in> set xs. evictable e \<longrightarrow> i \<noteq> '''' \<and> t \<le> the (ex_completed e))"
  using assms
proof (induction acc xs rule: oldest_scan.induct)
  case (2 oldestID oldest j e xs)
  have nk: "'''' \<notin> fst ` set xs" and j: "j \<noteq> ''''" using "2.prems"(1) by auto
  show ?case
  proof (cases "evictable e \<and> (oldestID = '''' \<or> the (ex_completed e) < oldest)")
    case True
    then have "oldest_scan (j, the (ex_completed e)) xs = (i, t)" using "2.prems"(2) by simp
    with "2.IH"(1)[OF True nk] j True show ?thesis by auto
  next
    case False
    then have "oldest_scan (oldestID, oldest) xs = (i, t)" using "2.prems"(2) by auto
    with "2.IH"(2)[OF False nk] False show ?thesis by auto
  qed
qed simp

definition completed_of :: "(string \<times> operationExecution) list \<Rightarrow> (string \<times> operationExecution) list" where
  "completed_of xs = filter (\<lambda>(_, e). evictable e) xs"

definition bytes_of :: "(raw_message \<Rightarrow> nat) \<Rightarrow> (string \<times> operationExecution) list \<Rightarrow> int" where
  "bytes_of len xs = sum_list (map (\<lambda>(_, e). data_bytes len (ex_result e)) (completed_of xs))"

lemma completed_of_delete:
  assumes "distinct (map fst xs)" and "map_of xs i = Some e" and "evictable e"
  shows "int (length (completed_of (delete_key i xs))) = int (length (completed_of xs)) - 1"
    and "bytes_of len (delete_key i xs) = bytes_of len xs - data_bytes len (ex_result e)"
proof -
  have "int (length (completed_of (delete_key i xs))) = int (length (completed_of xs)) - 1 \<and>
        bytes_of len (delete_key i xs) = bytes_of len xs - data_bytes len (ex_result e)"
    using assms
  proof (induction xs)
    case (Cons x xs)
    obtain j f where x: "x = (j, f)" by (cases x)
    show ?case
    proof (cases "j = i")
      case True
      then have "delete_key i xs = xs"
        using Cons.prems(1) unfolding delete_key_def x by (intro filter_True) force
      then show ?thesis using True Cons.prems x by (simp add: completed_of_def bytes_of_def delete_key_def)
    next
      case False
      then show ?thesis using Cons x by (auto simp: completed_of_def bytes_of_def delete_key_def)
    qed
  qed simp
  then show "int (length (completed_of (delete_key i xs))) = int (length (completed_of xs)) - 1"
    and "bytes_of len (delete_key i xs) = bytes_of len xs - data_bytes len (ex_result e)" by auto
qed

text \<open>What one turn of the loop removes.\<close>

lemma evict_loop_cases:
  assumes "'''' \<notin> fst ` set xs" and "distinct (map fst xs)"
    and "n > completedOperationLimit \<or> bytes > completedOperationByteLimit"
  obtains (stop) "completed_of xs = []" and "evict_loop len n bytes xs = xs"
    | (evict) i e where "(i, e) \<in> set xs" and "map_of xs i = Some e" and "evictable e"
        and "\<And>j f. (j, f) \<in> set xs \<Longrightarrow> evictable f \<Longrightarrow> the (ex_completed e) \<le> the (ex_completed f)"
        and "evict_loop len n bytes xs = evict_loop len (n - 1) (bytes - data_bytes len (ex_result e)) (delete_key i xs)"
proof -
  obtain i t where scan: "oldest_scan ('''', 0) xs = (i, t)" by fastforce
  note facts = oldest_scan_min[OF assms(1) scan] oldest_scan_mem[of "('''', 0)" xs]
  show ?thesis
  proof (cases "i = ''''")
    case True
    then have "completed_of xs = []" using facts(1) unfolding completed_of_def filter_empty_conv by auto
    moreover have "evict_loop len n bytes xs = xs" using True scan assms(3) by (simp add: evict_loop_step)
    ultimately show ?thesis by (rule stop)
  next
    case False
    then obtain e where e: "(i, e) \<in> set xs" "evictable e" "ex_completed e = Some t"
      using facts(2) scan by auto
    then have m: "map_of xs i = Some e" using assms(2) by simp
    show ?thesis
      by (rule evict[OF e(1) m e(2)]) (use facts(1) e(3) scan m False assms(3) in \<open>auto simp: evict_loop_step\<close>)
  qed
qed

lemma evict_loop_keeps:
  assumes "'''' \<notin> fst ` set xs" and "distinct (map fst xs)"
  shows "set (evict_loop len n bytes xs) \<subseteq> set xs \<and> distinct (map fst (evict_loop len n bytes xs)) \<and>
    (\<forall>x \<in> set xs. \<not> evictable (snd x) \<longrightarrow> x \<in> set (evict_loop len n bytes xs)) \<and>
    (\<forall>x \<in> set xs - set (evict_loop len n bytes xs). \<forall>y \<in> set (evict_loop len n bytes xs).
       evictable (snd y) \<longrightarrow> the (ex_completed (snd x)) \<le> the (ex_completed (snd y)))"
  using assms
proof (induction "length xs" arbitrary: n bytes xs rule: less_induct)
  case less
  show ?case
  proof (cases "n > completedOperationLimit \<or> bytes > completedOperationByteLimit")
    case False
    then show ?thesis using less.prems by (simp add: evict_loop_step)
  next
    case True
    from less.prems True show ?thesis
    proof (cases rule: evict_loop_cases[where len = len])
      case stop
      then show ?thesis using less.prems by simp
    next
      case (evict i e)
      let ?ys = "delete_key i xs"
      have shorter: "length ?ys < length xs" using evict(1) by (intro length_delete_key) force
      have ok: "'''' \<notin> fst ` set ?ys" "distinct (map fst ?ys)" using less.prems by auto
      note IH = less.hyps[OF shorter ok, of "n - 1" "bytes - data_bytes len (ex_result e)"]
      have only: "x = (i, e)" if "x \<in> set xs" "fst x = i" for x
        using that evict(2) map_of_is_SomeI[OF less.prems(2), of "fst x" "snd x"] by (cases x) auto
      have ys: "set ?ys = set xs - {(i, e)}"
      proof (rule set_eqI)
        fix x show "x \<in> set ?ys \<longleftrightarrow> x \<in> set xs - {(i, e)}" using only[of x] evict(1) by auto
      qed
      let ?R = "evict_loop len (n - 1) (bytes - data_bytes len (ex_result e)) ?ys"
      have sub: "set ?R \<subseteq> set xs" using IH[THEN conjunct1] ys by blast
      have first: "the (ex_completed e) \<le> the (ex_completed (snd y))" if "y \<in> set ?R" "evictable (snd y)" for y
        using evict(4)[of "fst y" "snd y"] sub that by auto
      have kept: "x \<in> set ?R" if "x \<in> set xs" "\<not> evictable (snd x)" for x
      proof -
        have "x \<noteq> (i, e)" using that(2) evict(3) by auto
        then have "x \<in> set ?ys" using that(1) ys by blast
        then show ?thesis using IH[THEN conjunct2, THEN conjunct2, THEN conjunct1] that(2) by blast
      qed
      have later: "the (ex_completed (snd x)) \<le> the (ex_completed (snd y))"
        if "x \<in> set xs - set ?R" "y \<in> set ?R" "evictable (snd y)" for x y
      proof (cases "x = (i, e)")
        case True
        then show ?thesis using first[OF that(2,3)] by simp
      next
        case False
        then have "x \<in> set ?ys - set ?R" using that(1) ys by blast
        then show ?thesis using IH[THEN conjunct2, THEN conjunct2, THEN conjunct2] that(2,3) by blast
      qed
      have "distinct (map fst ?R)" using IH[THEN conjunct2, THEN conjunct1] .
      then show ?thesis unfolding evict(5) using sub kept later by (intro conjI ballI impI)
    qed
  qed
qed

lemma evict_loop_bounds:
  assumes "'''' \<notin> fst ` set xs" and "distinct (map fst xs)"
  shows "int (length (completed_of (evict_loop len (int (length (completed_of xs))) (bytes_of len xs) xs))) \<le> completedOperationLimit"
    and "bytes_of len (evict_loop len (int (length (completed_of xs))) (bytes_of len xs) xs) \<le> completedOperationByteLimit"
proof -
  have "int (length (completed_of (evict_loop len (int (length (completed_of xs))) (bytes_of len xs) xs))) \<le> completedOperationLimit \<and>
    bytes_of len (evict_loop len (int (length (completed_of xs))) (bytes_of len xs) xs) \<le> completedOperationByteLimit"
    using assms
  proof (induction "length xs" arbitrary: xs rule: less_induct)
    case less
    let ?n = "int (length (completed_of xs))" and ?b = "bytes_of len xs"
    show ?case
    proof (cases "?n > completedOperationLimit \<or> ?b > completedOperationByteLimit")
      case False
      then show ?thesis by (simp add: evict_loop_step)
    next
      case True
      from less.prems True show ?thesis
      proof (cases rule: evict_loop_cases[where len = len])
        case stop
        then show ?thesis
          by (simp add: bytes_of_def completedOperationLimit_def completedOperationByteLimit_def)
      next
        case (evict i e)
        have shorter: "length (delete_key i xs) < length xs" using evict(1) by (intro length_delete_key) force
        have ok: "'''' \<notin> fst ` set (delete_key i xs)" "distinct (map fst (delete_key i xs))"
          using less.prems by auto
        show ?thesis unfolding evict(5)
          using less.hyps[OF shorter ok] completed_of_delete[OF less.prems(2) evict(2,3)] by simp
      qed
    qed
  qed
  then show "int (length (completed_of (evict_loop len (int (length (completed_of xs))) (bytes_of len xs) xs))) \<le> completedOperationLimit"
    and "bytes_of len (evict_loop len (int (length (completed_of xs))) (bytes_of len xs) xs) \<le> completedOperationByteLimit" by auto
qed

lemma prune_seen_entries:
  assumes "'''' \<notin> fst ` set xs" and "distinct (map fst xs)"
  shows "set (prune_seen len now xs) \<subseteq> set xs" and "distinct (map fst (prune_seen len now xs))"
    and "x \<in> set xs \<Longrightarrow> \<not> evictable (snd x) \<Longrightarrow> x \<in> set (prune_seen len now xs)"
proof -
  let ?kept = "filter (\<lambda>(_, e). \<not> expired now e) xs"
  have ok: "'''' \<notin> fst ` set ?kept" "distinct (map fst ?kept)"
    using assms by (auto intro: distinct_map_filter)
  note k = evict_loop_keeps[OF ok]
  show "set (prune_seen len now xs) \<subseteq> set xs"
    unfolding prune_seen_def Let_def by (rule order_trans[OF k[THEN conjunct1]]) auto
  show "distinct (map fst (prune_seen len now xs))"
    unfolding prune_seen_def Let_def by (rule k[THEN conjunct2, THEN conjunct1])
  assume x: "x \<in> set xs" "\<not> evictable (snd x)"
  then have "x \<in> set ?kept" by (auto simp: expired_def)
  with x(2) show "x \<in> set (prune_seen len now xs)"
    unfolding prune_seen_def Let_def using k[THEN conjunct2, THEN conjunct2, THEN conjunct1] by blast
qed

section \<open>Registration and completion\<close>

text \<open>The deadline of an operation, \<open>None\<close> for the tasks that only end by interruption.\<close>

definition operation_timeout :: "string \<Rightarrow> duration option" where
  "operation_timeout kind =
     (if kind = ''gemini.turn.start'' \<or> kind = ''gemini.turn.rewrite'' \<or> kind = ''claude.turn.start'' then None
      else if has_prefix kind ''deploy.'' then Some ns_hour
      else if kind = ''agent.update'' \<or> kind = ''codex.update'' then Some (30 * ns_minute)
      else Some (10 * ns_minute))"

definition no_result :: OperationResult where
  "no_result = \<lparr>ResultOperationID = '''', ResultStatus = '''', ResultMessage = '''', ResultData = None\<rparr>"

definition new_execution :: "string \<Rightarrow> operationExecution" where
  "new_execution kind = \<lparr>ex_kind = kind, ex_cancel = True, ex_cancelled = False, ex_done = False,
     ex_result = no_result, ex_completed = None, ex_persisted = False\<rparr>"

datatype registration =
    No_operation
  | Awaiting \<comment> \<open>seen before: wait for its end, then replay\<close>
  | Replaying OperationResult
  | Started

definition register_operation :: "(string \<Rightarrow> string) \<Rightarrow> (raw_message \<Rightarrow> nat) \<Rightarrow> instant \<Rightarrow> string \<Rightarrow> string \<Rightarrow> agent_client \<Rightarrow> registration \<times> agent_client" where
  "register_operation digest len now kind oid c =
     (if oid = '''' then (No_operation, c)
      else let c = pruneCompletedOperations len now c in
        case map_of (seen c) oid of
          Some _ \<Rightarrow> (Awaiting, c)
        | None \<Rightarrow> case loadOperationResult digest oid c of
            Inl _ \<Rightarrow> (Replaying \<lparr>ResultOperationID = oid, ResultStatus = ''failed'',
               ResultMessage = ''could not read previous operation result; refusing to repeat operation'', ResultData = None\<rparr>, c)
          | Inr (Some result) \<Rightarrow> (Replaying result, c)
          | Inr None \<Rightarrow> (Started, snd (queue_msg (M_started oid) (c\<lparr>seen := (oid, new_execution kind) # seen c\<rparr>))))"

definition truncate_text :: "nat \<Rightarrow> string \<Rightarrow> string" where
  "truncate_text limit value = (if length value \<le> limit then value else take limit value @ ''...'')"

datatype ctx_state = Ctx_live | Ctx_canceled | Ctx_expired

text \<open>An error of the body is its message and whether \<open>errors.Is(err, context.Canceled)\<close>.\<close>

definition finish_status :: "string \<Rightarrow> (string \<times> bool) option \<Rightarrow> ctx_state \<Rightarrow> string" where
  "finish_status kind err ctx =
     (case err of
        None \<Rightarrow> ''succeeded''
      | Some (_, is_canceled) \<Rightarrow>
          if kind \<in> {''gemini.turn.start'', ''gemini.turn.rewrite'', ''claude.turn.start''} \<and> (is_canceled \<or> ctx = Ctx_canceled)
          then ''interrupted''
          else if CanInterruptOperation kind \<and> ctx = Ctx_canceled then ''cancelled''
          else ''failed'')"

definition finish_result :: "string \<Rightarrow> string \<Rightarrow> (string \<times> bool) option \<Rightarrow> ctx_state \<Rightarrow> raw_message option \<Rightarrow> OperationResult" where
  "finish_result oid kind err ctx data =
     \<lparr>ResultOperationID = oid, ResultStatus = finish_status kind err ctx,
      ResultMessage = truncate_text 8192 (case err of None \<Rightarrow> '''' | Some (m, _) \<Rightarrow> m), ResultData = data\<rparr>"

definition update_seen :: "string \<Rightarrow> (operationExecution \<Rightarrow> operationExecution) \<Rightarrow> agent_client \<Rightarrow> agent_client" where
  "update_seen oid f c = c\<lparr>seen := map (\<lambda>(i, e). (i, if i = oid then f e else e)) (seen c)\<rparr>"

definition finish_operation :: "(string \<Rightarrow> string) \<Rightarrow> (raw_message \<Rightarrow> nat) \<Rightarrow> instant \<Rightarrow> bool \<Rightarrow> string \<Rightarrow> OperationResult \<Rightarrow> agent_client \<Rightarrow> agent_client" where
  "finish_operation digest len now disk_ok oid result c =
     (let (saved, c) = saveOperationResult digest disk_ok result c;
          c = update_seen oid (\<lambda>e. e\<lparr>ex_result := result, ex_completed := Some now, ex_persisted := saved = Inr (), ex_done := True\<rparr>) c;
          c = pruneCompletedOperations len now c
      in snd (queue_msg (M_result result) (c\<lparr>working := filter (\<lambda>i. i \<noteq> oid) (working c)\<rparr>)))"

text \<open>A completed update whose restart fails gives its pending mark back and its result becomes a failure.\<close>

definition activation_failed :: "(string \<Rightarrow> string) \<Rightarrow> bool \<Rightarrow> string \<Rightarrow> string \<Rightarrow> agent_client \<Rightarrow> agent_client" where
  "activation_failed digest disk_ok oid message c =
     (let failure = \<lparr>ResultOperationID = oid, ResultStatus = ''failed'', ResultMessage = truncate_text 8192 message, ResultData = None\<rparr>;
          c = snd (saveOperationResult digest disk_ok failure (c\<lparr>update_pending := False\<rparr>));
          c = update_seen oid (\<lambda>e. e\<lparr>ex_result := failure\<rparr>) c
      in snd (queue_msg (M_result failure) c))"

section \<open>Interruption\<close>

text \<open>
  An interruption answers at once, or waits for the execution to end (\<open>Await\<close>); the wait is
  \<open>await_interrupt\<close>, which reports the execution's own result or that it has not ended in time.
\<close>

datatype interruption = Refused string | Await | Answer OperationResult

definition interruptOperation :: "(string \<Rightarrow> string) \<Rightarrow> instant \<Rightarrow> bool \<Rightarrow> OperationInterruptCommand \<Rightarrow> agent_client \<Rightarrow> interruption \<times> agent_client" where
  "interruptOperation digest now disk_ok command c =
     (let oid = TargetOperationID command in
      if trim_space oid = '''' \<or> \<not> CanInterruptOperation (TargetKind command)
      then (Refused ''operation does not support interruption'', c)
      else case map_of (seen c) oid of
        Some e \<Rightarrow>
          if ex_kind e \<noteq> TargetKind command then (Refused ''operation kind mismatch'', c)
          else (Await, if ex_cancel e then update_seen oid (\<lambda>e. e\<lparr>ex_cancelled := True\<rparr>) c else c)
      | None \<Rightarrow> case loadOperationResult digest oid c of
          Inl _ \<Rightarrow> (Refused ''could not verify previous operation result'', c)
        | Inr (Some result) \<Rightarrow> (Answer result, snd (queue_msg (M_result result) c))
        | Inr None \<Rightarrow>
            let result = \<lparr>ResultOperationID = oid, ResultStatus = ''cancelled'',
                  ResultMessage = ''No active execution on Agent; pending or recovered operation cancelled'', ResultData = None\<rparr> in
            case saveOperationResult digest disk_ok result c of
              (Inl _, c) \<Rightarrow> (Refused ''could not persist operation cancellation'', c)
            | (Inr _, c) \<Rightarrow>
                (Answer result, snd (queue_msg (M_result result) (c\<lparr>seen :=
                  (oid, \<lparr>ex_kind = TargetKind command, ex_cancel = False, ex_cancelled = False, ex_done = True, ex_result = result,
                         ex_completed = Some now, ex_persisted = state_dir c \<noteq> ''''\<rparr>) # seen c\<rparr>))))"

definition await_interrupt :: "string \<Rightarrow> agent_client \<Rightarrow> interruption \<times> agent_client" where
  "await_interrupt oid c =
     (case map_of (seen c) oid of
        Some e \<Rightarrow> if ex_done e then (Answer (ex_result e), snd (queue_msg (M_result (ex_result e)) c))
                  else (Refused ''operation has not confirmed termination'', c)
      | None \<Rightarrow> (Await, c))"

text \<open>Turns of Claude and Gemini are stopped in the same way; their answer is only that they have stopped.\<close>

definition interrupt_turn :: "(string \<Rightarrow> string) \<Rightarrow> string list \<Rightarrow> string \<Rightarrow> string \<Rightarrow> string \<Rightarrow> agent_client \<Rightarrow> (string + bool) \<times> agent_client" where
  "interrupt_turn digest kinds unverified lost oid c =
     (case map_of (seen c) oid of
        Some e \<Rightarrow>
          if ex_kind e \<in> set kinds
          then (Inr (ex_done e), if ex_cancel e then update_seen oid (\<lambda>e. e\<lparr>ex_cancelled := True\<rparr>) c else c)
          else (case loadOperationResult digest oid c of Inl _ \<Rightarrow> Inl unverified | Inr (Some _) \<Rightarrow> Inr True | Inr None \<Rightarrow> Inl lost, c)
      | None \<Rightarrow> (case loadOperationResult digest oid c of Inl _ \<Rightarrow> Inl unverified | Inr (Some _) \<Rightarrow> Inr True | Inr None \<Rightarrow> Inl lost, c))"

definition ClaudeOwnershipLostMessage :: string where
  "ClaudeOwnershipLostMessage = ''Agent no longer owns this Claude task; verify the old CLI process before recovering the session''"

definition GeminiOwnershipLostMessage :: string where
  "GeminiOwnershipLostMessage = ''Agent no longer owns this Gemini task; it may have restarted. Verify the old CLI process before recovering the session''"

definition interruptClaudeAndWait :: "(string \<Rightarrow> string) \<Rightarrow> string \<Rightarrow> agent_client \<Rightarrow> (string + bool) \<times> agent_client" where
  "interruptClaudeAndWait digest =
     interrupt_turn digest [''claude.turn.start''] ''could not verify Claude task completion'' ClaudeOwnershipLostMessage"

definition interruptGeminiAndWait :: "(string \<Rightarrow> string) \<Rightarrow> string \<Rightarrow> agent_client \<Rightarrow> (string + bool) \<times> agent_client" where
  "interruptGeminiAndWait digest =
     interrupt_turn digest [''gemini.turn.start'', ''gemini.turn.rewrite''] ''could not verify Gemini task completion'' GeminiOwnershipLostMessage"

text \<open>
  The keepalive of the control plane asks after the turns it believes to run: a finished one is
  answered by its result, a running one as owned, an unknown one as lost.
\<close>

definition reconcile_one :: "(string \<Rightarrow> string) \<Rightarrow> string \<Rightarrow> string \<Rightarrow> string \<Rightarrow> agent_client \<Rightarrow> agent_client" where
  "reconcile_one digest active lost oid c =
     (case map_of (seen c) oid of
        Some e \<Rightarrow> if ex_done e then snd (queue_msg (M_result (ex_result e)) c) else snd (queue_msg (M_ownership active oid) c)
      | None \<Rightarrow> case loadOperationResult digest oid c of
          Inl _ \<Rightarrow> c
        | Inr (Some result) \<Rightarrow> snd (queue_msg (M_result result) c)
        | Inr None \<Rightarrow> snd (queue_msg (M_ownership lost oid) c))"

definition reconcileClaudeOperations :: "(string \<Rightarrow> string) \<Rightarrow> string list \<Rightarrow> agent_client \<Rightarrow> agent_client" where
  "reconcileClaudeOperations digest ids c =
     foldl (\<lambda>c oid. reconcile_one digest ''claude_ownership_active'' ''claude_ownership_lost'' oid c) c ids"

definition reconcileGeminiOperations :: "(string \<Rightarrow> string) \<Rightarrow> string list \<Rightarrow> agent_client \<Rightarrow> agent_client" where
  "reconcileGeminiOperations digest ids c =
     foldl (\<lambda>c oid. reconcile_one digest ''gemini_ownership_active'' ''gemini_ownership_lost'' oid c) c ids"

section \<open>The exclusion of an update\<close>

definition update_blockers :: "string list" where
  "update_blockers = [''gemini.turn.start'', ''gemini.turn.rewrite'', ''gemini.thread.fork'', ''claude.turn.start'',
     ''git.worktree.create'', ''gemini.skills.manage'']"

definition stage_guard :: "agent_client \<Rightarrow> string + agent_client" where
  "stage_guard c =
     (if update_pending c then Inl ''an Agent update is already in progress''
      else if list_ex (\<lambda>(_, e). ex_kind e \<in> set update_blockers \<and> \<not> ex_done e) (seen c)
      then Inl ''finish or interrupt active Gemini or Claude tasks before updating the Agent''
      else Inr (c\<lparr>update_pending := True\<rparr>))"

definition releaseAgentUpdate :: "agent_client \<Rightarrow> agent_client" where
  "releaseAgentUpdate c = c\<lparr>update_pending := False\<rparr>"

text \<open>The kinds whose body begins with the check of \<open>agentUpdatePending\<close>.\<close>

definition update_checked :: "string \<Rightarrow> bool" where
  "update_checked kind \<longleftrightarrow> kind \<in> {''claude.thread.fork'', ''gemini.thread.fork'', ''git.worktree.create'', ''gemini.skills.manage'',
     ''gemini.turn.start'', ''gemini.turn.rewrite'', ''claude.turn.start'', ''codex.turn.start'', ''codex.turn.rewrite''}"

section \<open>The Agent as a transition system\<close>

datatype agent_label = Start string | Restart | Quiet

inductive agent_step :: "(string \<Rightarrow> string) \<Rightarrow> (raw_message \<Rightarrow> nat) \<Rightarrow> agent_client \<Rightarrow> agent_label \<Rightarrow> agent_client \<Rightarrow> bool"
  for digest len where
  deliver: "register_operation digest len now kind oid c = (Started, c') \<Longrightarrow> agent_step digest len c (Start oid) c'"
| deliver_known: "register_operation digest len now kind oid c = (r, c') \<Longrightarrow> r \<noteq> Started \<Longrightarrow> agent_step digest len c Quiet c'"
| reply: "agent_step digest len c Quiet (snd (queue_msg m c))"
| body: "map_of (seen c) oid = Some e \<Longrightarrow> \<not> ex_done e \<Longrightarrow> update_checked (ex_kind e) \<longrightarrow> \<not> update_pending c \<Longrightarrow>
    agent_step digest len c Quiet (c\<lparr>working := oid # working c\<rparr>)"
| finish: "map_of (seen c) oid = Some e \<Longrightarrow> \<not> ex_done e \<Longrightarrow> result = finish_result oid (ex_kind e) err ctx data \<Longrightarrow>
    agent_step digest len c Quiet (finish_operation digest len now disk_ok oid result c)"
| interrupt: "agent_step digest len c Quiet (snd (interruptOperation digest now disk_ok command c))"
| await: "agent_step digest len c Quiet (snd (await_interrupt oid c))"
| interrupt_claude: "agent_step digest len c Quiet (snd (interruptClaudeAndWait digest oid c))"
| interrupt_gemini: "agent_step digest len c Quiet (snd (interruptGeminiAndWait digest oid c))"
| reconcile_claude: "agent_step digest len c Quiet (reconcileClaudeOperations digest ids c)"
| reconcile_gemini: "agent_step digest len c Quiet (reconcileGeminiOperations digest ids c)"
| stage: "stage_guard c = Inr c' \<Longrightarrow> agent_step digest len c Quiet c'"
| unstage: "agent_step digest len c Quiet (releaseAgentUpdate c)"
| activate: "agent_step digest len c Quiet (activation_failed digest disk_ok oid message c)"
| heartbeat: "agent_step digest len c Quiet (pruneCompletedOperations len now c)"
| send: "outbound c = m # ms \<Longrightarrow> agent_step digest len c Quiet (c\<lparr>outbound := ms\<rparr>)"
| restart: "agent_step digest len c Restart (new_client (state_dir c) (receipts c))"

inductive_cases agent_step_Start: "agent_step digest len c (Start oid) c'"
inductive_cases agent_step_Restart: "agent_step digest len c Restart c'"

inductive agent_run :: "(string \<Rightarrow> string) \<Rightarrow> (raw_message \<Rightarrow> nat) \<Rightarrow> agent_client \<Rightarrow> agent_label list \<Rightarrow> agent_client \<Rightarrow> bool"
  for digest len where
  run_refl: "agent_run digest len c [] c"
| run_step: "agent_step digest len c l c' \<Longrightarrow> agent_run digest len c' ls c'' \<Longrightarrow> agent_run digest len c (l # ls) c''"

section \<open>Invariant\<close>

definition entry_ok :: "(string \<Rightarrow> string) \<Rightarrow> agent_client \<Rightarrow> string \<times> operationExecution \<Rightarrow> bool" where
  "entry_ok digest c x \<longleftrightarrow> evictable (snd x) \<longrightarrow>
     ex_done (snd x) \<and> (state_dir c \<noteq> '''' \<longrightarrow> receipts c (digest (fst x)) \<noteq> None)"

definition worker_ok :: "agent_client \<Rightarrow> string \<Rightarrow> bool" where
  "worker_ok c i \<longleftrightarrow> (\<exists>e. map_of (seen c) i = Some e \<and> \<not> ex_done e \<and> (update_pending c \<longrightarrow> ex_kind e \<notin> set update_blockers))"

definition agent_ok :: "(string \<Rightarrow> string) \<Rightarrow> agent_client \<Rightarrow> bool" where
  "agent_ok digest c \<longleftrightarrow> '''' \<notin> fst ` set (seen c) \<and> distinct (map fst (seen c)) \<and>
     (\<forall>x \<in> set (seen c). entry_ok digest c x) \<and> (\<forall>i \<in> set (working c). worker_ok c i)"

lemma agent_okI:
  assumes "'''' \<notin> fst ` set (seen c)" "distinct (map fst (seen c))"
    "\<And>x. x \<in> set (seen c) \<Longrightarrow> entry_ok digest c x" "\<And>i. i \<in> set (working c) \<Longrightarrow> worker_ok c i"
  shows "agent_ok digest c"
  using assms by (simp add: agent_ok_def)

lemma agent_okD:
  assumes "agent_ok digest c"
  shows "'''' \<notin> fst ` set (seen c)" "distinct (map fst (seen c))"
    "\<And>x. x \<in> set (seen c) \<Longrightarrow> entry_ok digest c x" "\<And>i. i \<in> set (working c) \<Longrightarrow> worker_ok c i"
  using assms by (simp_all add: agent_ok_def)

lemma queue_frame [simp]:
  "seen (snd (queue_msg m c)) = seen c" "receipts (snd (queue_msg m c)) = receipts c"
  "state_dir (snd (queue_msg m c)) = state_dir c" "update_pending (snd (queue_msg m c)) = update_pending c"
  "working (snd (queue_msg m c)) = working c"
  by (simp_all add: queue_msg_def)

lemma save_frame [simp]:
  "seen (snd (saveOperationResult digest b r c)) = seen c" "state_dir (snd (saveOperationResult digest b r c)) = state_dir c"
  "update_pending (snd (saveOperationResult digest b r c)) = update_pending c"
  "working (snd (saveOperationResult digest b r c)) = working c"
  by (simp_all add: saveOperationResult_def)

lemma save_keeps: "receipts c p \<noteq> None \<Longrightarrow> receipts (snd (saveOperationResult digest b r c)) p \<noteq> None"
  by (simp add: saveOperationResult_def)

lemma save_stores:
  "fst (saveOperationResult digest b r c) = Inr () \<Longrightarrow> state_dir c \<noteq> '''' \<Longrightarrow>
   receipts (snd (saveOperationResult digest b r c)) (digest (ResultOperationID r)) \<noteq> None"
  by (auto simp: saveOperationResult_def split: if_splits)

text \<open>Everything the invariant reads: the receipts may grow, the pending mark may go.\<close>

lemma agent_ok_mono:
  assumes "agent_ok digest c" and "seen c' = seen c" "state_dir c' = state_dir c" "set (working c') \<subseteq> set (working c)"
    and "update_pending c' \<Longrightarrow> update_pending c" and "\<And>p. receipts c p \<noteq> None \<Longrightarrow> receipts c' p \<noteq> None"
  shows "agent_ok digest c'"
proof (rule agent_okI)
  note ok = agent_okD[OF assms(1)]
  show "entry_ok digest c' x" if "x \<in> set (seen c')" for x
    using that ok(3)[of x] assms(2,3,6) by (auto simp: entry_ok_def)
  show "worker_ok c' i" if "i \<in> set (working c')" for i
    using that ok(4)[of i] assms(2,4,5) by (auto simp: worker_ok_def)
qed (use agent_okD(1,2)[OF assms(1)] assms(2) in auto)

lemma agent_ok_queue [simp]: "agent_ok digest (snd (queue_msg m c)) = agent_ok digest c"
  by (simp add: agent_ok_def entry_ok_def worker_ok_def)

lemma agent_ok_prune:
  assumes "agent_ok digest c"
  shows "agent_ok digest (pruneCompletedOperations len now c)"
proof (rule agent_okI)
  note ok = agent_okD[OF assms]
  note p = prune_seen_entries[OF ok(1,2)]
  show "'''' \<notin> fst ` set (seen (pruneCompletedOperations len now c))"
    using ok(1) p(1) by (auto simp: pruneCompletedOperations_def)
  show "distinct (map fst (seen (pruneCompletedOperations len now c)))"
    using p(2) by (simp add: pruneCompletedOperations_def)
  show "entry_ok digest (pruneCompletedOperations len now c) x" if "x \<in> set (seen (pruneCompletedOperations len now c))" for x
    using that p(1) ok(3)[of x] by (auto simp: pruneCompletedOperations_def entry_ok_def)
  show "worker_ok (pruneCompletedOperations len now c) i" if i: "i \<in> set (working (pruneCompletedOperations len now c))" for i
  proof -
    obtain e where e: "map_of (seen c) i = Some e" "\<not> ex_done e" "update_pending c \<longrightarrow> ex_kind e \<notin> set update_blockers"
      using i ok(4)[of i] by (auto simp: pruneCompletedOperations_def worker_ok_def)
    have mem: "(i, e) \<in> set (seen c)" by (rule map_of_SomeD[OF e(1)])
    then have "\<not> evictable e" using ok(3)[OF mem] e(2) by (auto simp: entry_ok_def)
    then have "(i, e) \<in> set (prune_seen len now (seen c))" using p(3)[OF mem] by simp
    then have "map_of (prune_seen len now (seen c)) i = Some e" using p(2) by simp
    then show ?thesis using e by (auto simp: pruneCompletedOperations_def worker_ok_def)
  qed
qed

lemma map_of_update_seen:
  "map_of (seen (update_seen oid f c)) i = map_option (\<lambda>e. if i = oid then f e else e) (map_of (seen c) i)"
proof -
  have "map_of (map (\<lambda>(i, e). (i, if i = oid then f e else e)) xs) i = map_option (\<lambda>e. if i = oid then f e else e) (map_of xs i)" for xs
    by (induction xs) auto
  then show ?thesis by (simp add: update_seen_def)
qed

lemma keys_update_seen [simp]: "map fst (seen (update_seen oid f c)) = map fst (seen c)"
  by (simp add: update_seen_def case_prod_beta)

lemma update_seen_frame [simp]:
  "receipts (update_seen oid f c) = receipts c" "state_dir (update_seen oid f c) = state_dir c"
  "update_pending (update_seen oid f c) = update_pending c" "working (update_seen oid f c) = working c"
  by (simp_all add: update_seen_def)

lemma keys_update_seen_set [simp]: "fst ` set (seen (update_seen oid f c)) = fst ` set (seen c)"
  by (metis keys_update_seen list.set_map)

lemma entry_ok_cong [simp]:
  "entry_ok digest (update_seen oid f c) = entry_ok digest c"
  "entry_ok digest (c\<lparr>seen := xs\<rparr>) = entry_ok digest c"
  by (simp_all add: entry_ok_def fun_eq_iff)

lemma agent_ok_update_seen:
  assumes "agent_ok digest c" and "\<And>e. (oid, e) \<in> set (seen c) \<Longrightarrow> entry_ok digest c (oid, f e)"
    and "oid \<notin> set (working c) \<or> (\<forall>e. ex_done (f e) = ex_done e \<and> ex_kind (f e) = ex_kind e)"
  shows "agent_ok digest (update_seen oid f c)"
proof (rule agent_okI)
  note ok = agent_okD[OF assms(1)]
  show "entry_ok digest (update_seen oid f c) x" if "x \<in> set (seen (update_seen oid f c))" for x
    using that ok(3) assms(2) by (auto simp: update_seen_def entry_ok_def split: if_splits)
  show "worker_ok (update_seen oid f c) i" if i: "i \<in> set (working (update_seen oid f c))" for i
  proof -
    obtain e where e: "map_of (seen c) i = Some e" "\<not> ex_done e" "update_pending c \<longrightarrow> ex_kind e \<notin> set update_blockers"
      using i ok(4)[of i] by (auto simp: worker_ok_def)
    then show ?thesis using i assms(3) by (cases "i = oid") (auto simp: worker_ok_def map_of_update_seen)
  qed
qed (use agent_okD(1,2)[OF assms(1)] in simp_all)

lemma agent_ok_add:
  assumes "agent_ok digest c" and "map_of (seen c) oid = None" and "oid \<noteq> ''''" and "entry_ok digest c (oid, e)"
  shows "agent_ok digest (c\<lparr>seen := (oid, e) # seen c\<rparr>)"
proof (rule agent_okI)
  note ok = agent_okD[OF assms(1)]
  have fresh: "oid \<notin> fst ` set (seen c)" using assms(2) by (simp add: map_of_eq_None_iff)
  show "'''' \<notin> fst ` set (seen (c\<lparr>seen := (oid, e) # seen c\<rparr>))" using ok(1) assms(3) by auto
  show "distinct (map fst (seen (c\<lparr>seen := (oid, e) # seen c\<rparr>)))" using ok(2) fresh by simp
  show "entry_ok digest (c\<lparr>seen := (oid, e) # seen c\<rparr>) x" if "x \<in> set (seen (c\<lparr>seen := (oid, e) # seen c\<rparr>))" for x
    using that ok(3)[of x] assms(4) by (cases "x = (oid, e)") simp_all
  show "worker_ok (c\<lparr>seen := (oid, e) # seen c\<rparr>) i" if "i \<in> set (working (c\<lparr>seen := (oid, e) # seen c\<rparr>))" for i
    using that ok(4)[of i] assms(2) by (auto simp: worker_ok_def)
qed

lemma agent_ok_save: "agent_ok digest c \<Longrightarrow> agent_ok digest (snd (saveOperationResult digest b r c))"
  by (erule agent_ok_mono) (simp_all add: save_keeps del: not_None_eq)

lemma agent_ok_register:
  assumes "agent_ok digest c"
  shows "agent_ok digest (snd (register_operation digest len now kind oid c))"
proof -
  have "entry_ok digest c' (oid, new_execution kind)" for c'
    by (simp add: entry_ok_def new_execution_def evictable_def)
  then show ?thesis
    using agent_ok_prune[OF assms, of len now] assms
    by (auto simp: register_operation_def Let_def split: option.split sum.split intro!: agent_ok_add)
qed

lemma agent_ok_cancel:
  "agent_ok digest c \<Longrightarrow> agent_ok digest (update_seen oid (\<lambda>e. e\<lparr>ex_cancelled := True\<rparr>) c)"
  by (rule agent_ok_update_seen) (auto dest: agent_okD(3) simp: entry_ok_def evictable_def)

lemma trim_space_Nil [simp]: "trim_space [] = []"
  by (simp add: trim_space_def trim_left_space_def trim_right_space_def skip_runes.simps[of _ "[]"])

lemma tombstone_ok:
  assumes "agent_ok digest c" and "map_of (seen c) oid = None" and "trim_space oid \<noteq> ''''" and "ResultOperationID r = oid"
    and s: "saveOperationResult digest disk_ok r c = (Inr u, c1)" and "ex_done e" and "ex_persisted e = (state_dir c \<noteq> '''')"
  shows "agent_ok digest (c1\<lparr>seen := (oid, e) # seen c1\<rparr>)"
proof (rule agent_ok_add)
  show "agent_ok digest c1" using agent_ok_save[OF assms(1), of disk_ok r] s by simp
  show "map_of (seen c1) oid = None" using save_frame(1)[of digest disk_ok r c] s assms(2) by simp
  show "oid \<noteq> ''''" using assms(3) by auto
  show "entry_ok digest c1 (oid, e)"
    using save_stores[of digest disk_ok r c] save_frame(2)[of digest disk_ok r c] s assms(4,6,7)
    by (auto simp: entry_ok_def)
qed

lemma agent_ok_interrupt:
  assumes "agent_ok digest c"
  shows "agent_ok digest (snd (interruptOperation digest now disk_ok command c))"
proof -
  let ?oid = "TargetOperationID command"
  show ?thesis
  proof (cases "trim_space ?oid = [] \<or> \<not> CanInterruptOperation (TargetKind command) \<or> map_of (seen c) ?oid \<noteq> None
      \<or> loadOperationResult digest ?oid c \<noteq> Inr None")
    case True
    then show ?thesis using assms agent_ok_cancel[OF assms]
      by (auto simp: interruptOperation_def Let_def split: option.split sum.split)
  next
    case False
    define r where "r = \<lparr>ResultOperationID = ?oid, ResultStatus = ''cancelled'',
      ResultMessage = ''No active execution on Agent; pending or recovered operation cancelled'', ResultData = None\<rparr>"
    obtain sv c1 where s: "saveOperationResult digest disk_ok r c = (sv, c1)" by fastforce
    have dir: "state_dir c1 = state_dir c" using save_frame(2)[of digest disk_ok r c] s by simp
    have "ResultOperationID r = ?oid" by (simp add: r_def)
    note add = tombstone_ok[OF assms, of ?oid r disk_ok _ c1, OF _ _ this]
    show ?thesis
    proof (cases sv)
      case (Inl a)
      then have "snd (interruptOperation digest now disk_ok command c) = c1"
        using False s by (simp add: interruptOperation_def Let_def r_def)
      then show ?thesis using agent_ok_save[OF assms, of disk_ok r] s by simp
    next
      case (Inr b)
      then show ?thesis
        using False s by (simp add: interruptOperation_def Let_def r_def[symmetric]) (rule add; simp add: s dir)
    qed
  qed
qed

section \<open>Steps keep the invariant and what the Agent knows of an operation\<close>

text \<open>
  \<open>keeps c c'\<close>: no receipt is lost, and an operation with an entry in the cache still has it, or has
  a receipt.
\<close>

definition keeps :: "(string \<Rightarrow> string) \<Rightarrow> agent_client \<Rightarrow> agent_client \<Rightarrow> bool" where
  "keeps digest c c' \<longleftrightarrow> state_dir c' = state_dir c \<and> (\<forall>p. receipts c p \<noteq> None \<longrightarrow> receipts c' p \<noteq> None) \<and>
     (\<forall>i \<in> fst ` set (seen c). i \<in> fst ` set (seen c') \<or> state_dir c = '''' \<or> receipts c' (digest i) \<noteq> None)"

lemma keeps_refl [simp]: "keeps digest c c"
  by (simp add: keeps_def)

lemma keeps_trans:
  assumes "keeps digest a b" and "keeps digest b c"
  shows "keeps digest a c"
proof -
  have "i \<in> fst ` set (seen c) \<or> state_dir a = '''' \<or> receipts c (digest i) \<noteq> None" if "i \<in> fst ` set (seen a)" for i
    using assms that unfolding keeps_def by metis
  then show ?thesis using assms unfolding keeps_def by simp
qed

lemma keeps_same:
  "seen c' = seen c \<Longrightarrow> state_dir c' = state_dir c \<Longrightarrow> receipts c' = receipts c \<Longrightarrow> keeps digest c c'"
  by (simp add: keeps_def)

lemma keeps_queue [simp]: "keeps digest c (snd (queue_msg m c')) = keeps digest c c'"
  by (simp add: keeps_def)

lemma keeps_save: "keeps digest c (snd (saveOperationResult digest b r c))"
  by (simp add: keeps_def saveOperationResult_def)

lemma keeps_update [simp]: "keeps digest c (update_seen oid f c)"
  by (simp add: keeps_def)

lemma keeps_add: "keeps digest c (c\<lparr>seen := x # seen c\<rparr>)"
  by (auto simp: keeps_def)

lemma keeps_prune:
  assumes "agent_ok digest c"
  shows "keeps digest c (pruneCompletedOperations len now c)"
proof -
  note ok = agent_okD[OF assms]
  have "i \<in> fst ` set (prune_seen len now (seen c)) \<or> state_dir c = '''' \<or> receipts c (digest i) \<noteq> None"
    if i: "(i, e) \<in> set (seen c)" for i e
    using ok(3)[OF i] prune_seen_entries(3)[OF ok(1,2) i, of len now] by (force simp: entry_ok_def)
  then have "\<forall>i \<in> fst ` set (seen c). i \<in> fst ` set (prune_seen len now (seen c)) \<or> state_dir c = '''' \<or> receipts c (digest i) \<noteq> None"
    by (metis imageE prod.collapse)
  then show ?thesis by (simp add: keeps_def pruneCompletedOperations_def)
qed

lemma keeps_register:
  assumes "agent_ok digest c"
  shows "keeps digest c (snd (register_operation digest len now kind oid c))"
  using keeps_prune[OF assms, of len now] keeps_trans[OF keeps_prune[OF assms, of len now] keeps_add]
  by (auto simp: register_operation_def Let_def split: option.split sum.split)

lemma finish_operation_unfold:
  assumes "agent_ok digest c" and "ResultOperationID result = oid"
  obtains c2 where "agent_ok digest c2" "keeps digest c c2"
    "finish_operation digest len now disk_ok oid result c = snd (queue_msg (M_result result) (pruneCompletedOperations len now c2))"
proof -
  obtain sv c1 where s: "saveOperationResult digest disk_ok result c = (sv, c1)" by fastforce
  let ?c2 = "c1\<lparr>working := filter (\<lambda>i. i \<noteq> oid) (working c1)\<rparr>"
  let ?f = "\<lambda>e. e\<lparr>ex_result := result, ex_completed := Some now, ex_persisted := sv = Inr (), ex_done := True\<rparr>"
  have c1: "agent_ok digest c1" using agent_ok_save[OF assms(1), of disk_ok result] s by simp
  then have c2: "agent_ok digest ?c2" by (rule agent_ok_mono) auto
  have "entry_ok digest ?c2 (oid, ?f e)" for e
    using save_stores[of digest disk_ok result c] save_frame(2)[of digest disk_ok result c] s assms(2)
    by (auto simp: entry_ok_def evictable_def)
  then have ok: "agent_ok digest (update_seen oid ?f ?c2)" by (intro agent_ok_update_seen[OF c2]) auto
  have "keeps digest c c1" using keeps_save[of digest c disk_ok result] s by simp
  then have "keeps digest c (update_seen oid ?f ?c2)"
    by (rule keeps_trans[OF _ keeps_trans[OF _ keeps_update]]) (simp add: keeps_same)
  moreover have "finish_operation digest len now disk_ok oid result c
      = snd (queue_msg (M_result result) (pruneCompletedOperations len now (update_seen oid ?f ?c2)))"
    unfolding finish_operation_def s by (cases c1) (simp add: Let_def pruneCompletedOperations_def update_seen_def)
  ultimately show ?thesis by (rule that[OF ok])
qed

lemma finish_ok:
  assumes "agent_ok digest c" and "ResultOperationID result = oid"
  shows "agent_ok digest (finish_operation digest len now disk_ok oid result c)"
    and "keeps digest c (finish_operation digest len now disk_ok oid result c)"
proof -
  obtain c2 where c2: "agent_ok digest c2" "keeps digest c c2"
    "finish_operation digest len now disk_ok oid result c = snd (queue_msg (M_result result) (pruneCompletedOperations len now c2))"
    by (rule finish_operation_unfold[OF assms])
  show "agent_ok digest (finish_operation digest len now disk_ok oid result c)"
    unfolding c2(3) by (simp add: agent_ok_prune[OF c2(1)])
  show "keeps digest c (finish_operation digest len now disk_ok oid result c)"
    unfolding c2(3) using keeps_trans[OF c2(2) keeps_prune[OF c2(1)]] by simp
qed

lemma keeps_interrupt: "keeps digest c (snd (interruptOperation digest now disk_ok command c))"
proof -
  have "keeps digest c (c1\<lparr>seen := x # seen c1\<rparr>)" "keeps digest c c1"
    if "saveOperationResult digest disk_ok r c = (sv, c1)" for r sv c1 x
    using keeps_trans[OF _ keeps_add] keeps_save[of digest c disk_ok r] that by (metis snd_conv)+
  then show ?thesis
    by (auto simp: interruptOperation_def Let_def split: option.split sum.split prod.split)
qed

lemma reconcile_frame:
  "agent_ok digest c \<Longrightarrow> agent_ok digest (reconcile_one digest a l i c) \<and> keeps digest c (reconcile_one digest a l i c)"
  by (auto simp: reconcile_one_def split: option.split sum.split)

lemma reconcile_all:
  "agent_ok digest c \<Longrightarrow> agent_ok digest (foldl (\<lambda>c i. reconcile_one digest a l i c) c ids)
    \<and> keeps digest c (foldl (\<lambda>c i. reconcile_one digest a l i c) c ids)"
proof (induction ids arbitrary: c)
  case (Cons i ids)
  note one = reconcile_frame[OF Cons.prems, of a l i]
  show ?case using Cons.IH[OF one[THEN conjunct1]] keeps_trans[OF one[THEN conjunct2]] by simp
qed simp

lemma turn_frame:
  assumes "agent_ok digest c"
  shows "agent_ok digest (snd (interrupt_turn digest kinds u l i c)) \<and> keeps digest c (snd (interrupt_turn digest kinds u l i c))"
  using assms agent_ok_cancel[OF assms] by (auto simp: interrupt_turn_def split: option.split)

lemma activation_frame:
  assumes "agent_ok digest c"
  shows "agent_ok digest (activation_failed digest disk_ok oid message c) \<and> keeps digest c (activation_failed digest disk_ok oid message c)"
proof -
  let ?c = "c\<lparr>update_pending := False\<rparr>"
  have ok: "agent_ok digest ?c" by (rule agent_ok_mono[OF assms]) auto
  have "agent_ok digest (update_seen oid (\<lambda>e. e\<lparr>ex_result := r\<rparr>) (snd (saveOperationResult digest disk_ok r' ?c)))" for r r'
    by (rule agent_ok_update_seen[OF agent_ok_save[OF ok]])
       (use agent_okD(3)[OF agent_ok_save[OF ok, of disk_ok r']] in \<open>auto simp: entry_ok_def evictable_def\<close>)
  moreover have "keeps digest c (snd (saveOperationResult digest disk_ok r' ?c))" for r'
    by (rule keeps_trans[OF _ keeps_save]) (simp add: keeps_same)
  ultimately show ?thesis
    using keeps_trans[OF _ keeps_update] by (simp add: activation_failed_def Let_def)
qed

lemma stage_ok:
  assumes "agent_ok digest c" and "stage_guard c = Inr c'"
  shows "agent_ok digest c'"
proof (rule agent_okI)
  note ok = agent_okD[OF assms(1)]
  have c': "c' = c\<lparr>update_pending := True\<rparr>"
    and idle: "\<And>i e. (i, e) \<in> set (seen c) \<Longrightarrow> ex_kind e \<in> set update_blockers \<Longrightarrow> ex_done e"
    using assms(2) by (auto simp: stage_guard_def list_ex_iff split: if_splits)
  show "'''' \<notin> fst ` set (seen c')" "distinct (map fst (seen c'))" using ok(1,2) c' by simp_all
  show "entry_ok digest c' x" if "x \<in> set (seen c')" for x
    using that ok(3)[of x] c' by (simp add: entry_ok_def)
  show "worker_ok c' i" if "i \<in> set (working c')" for i
    using that ok(4)[of i] c' idle by (auto simp: worker_ok_def dest: map_of_SomeD)
qed

lemma blockers_checked: "k \<in> set update_blockers \<Longrightarrow> update_checked k"
  by (auto simp: update_blockers_def update_checked_def)

lemma body_ok:
  assumes "agent_ok digest c" and "map_of (seen c) oid = Some e" "\<not> ex_done e" "update_checked (ex_kind e) \<longrightarrow> \<not> update_pending c"
  shows "agent_ok digest (c\<lparr>working := oid # working c\<rparr>)"
proof (rule agent_okI)
  note ok = agent_okD[OF assms(1)]
  show "entry_ok digest (c\<lparr>working := oid # working c\<rparr>) x" if "x \<in> set (seen (c\<lparr>working := oid # working c\<rparr>))" for x
    using that ok(3)[of x] by (simp add: entry_ok_def)
  show "worker_ok (c\<lparr>working := oid # working c\<rparr>) i" if "i \<in> set (working (c\<lparr>working := oid # working c\<rparr>))" for i
    using that ok(4)[of i] assms(2-4) blockers_checked by (cases "i = oid") (auto simp: worker_ok_def)
qed (use agent_okD(1,2)[OF assms(1)] in simp_all)

lemma await_frame:
  "agent_ok digest c \<Longrightarrow> agent_ok digest (snd (await_interrupt oid c)) \<and> keeps digest c (snd (await_interrupt oid c))"
  by (auto simp: await_interrupt_def split: option.split)

lemma new_client_ok: "agent_ok digest (new_client d disk)"
  by (simp add: agent_ok_def new_client_def)

lemma step_ok:
  assumes "agent_step digest len c l c'" and ok: "agent_ok digest c"
  shows "agent_ok digest c' \<and> (l \<noteq> Restart \<longrightarrow> keeps digest c c')"
  using assms(1)
proof cases
  case (deliver now kind oid)
  then show ?thesis using agent_ok_register[OF ok, of len now kind oid] keeps_register[OF ok, of len now kind oid] by simp
next
  case (deliver_known now kind oid r)
  then show ?thesis using agent_ok_register[OF ok, of len now kind oid] keeps_register[OF ok, of len now kind oid] by simp
next
  case (finish oid e result err ctx data now disk_ok)
  then have "ResultOperationID result = oid" by (simp add: finish_result_def)
  then show ?thesis using finish_ok[OF ok] finish by simp
next
  case (body oid e)
  then show ?thesis using body_ok[OF ok] by (simp add: keeps_same)
next
  case (stage)
  then show ?thesis using stage_ok[OF ok] by (auto simp: stage_guard_def keeps_same split: if_splits)
next
  case unstage
  have "agent_ok digest (releaseAgentUpdate c)" by (rule agent_ok_mono[OF ok]) (auto simp: releaseAgentUpdate_def)
  then show ?thesis using unstage by (simp add: releaseAgentUpdate_def keeps_same)
next
  case (send m ms)
  have "agent_ok digest (c\<lparr>outbound := ms\<rparr>)" by (rule agent_ok_mono[OF ok]) auto
  then show ?thesis using send by (simp add: keeps_same)
qed (use ok in \<open>simp_all add: new_client_ok agent_ok_interrupt keeps_interrupt agent_ok_prune keeps_prune await_frame activation_frame
      reconcileClaudeOperations_def reconcileGeminiOperations_def reconcile_all interruptClaudeAndWait_def interruptGeminiAndWait_def turn_frame\<close>)

interpretation agent_system: invariant_system "\<lambda>c. \<exists>d disk. c = new_client d disk" "\<lambda>c c'. \<exists>l. agent_step digest len c l c'" "agent_ok digest"
  for digest len
  by unfold_locales (auto simp: new_client_ok dest: step_ok)

lemma run_steps: "agent_run digest len c ls c' \<Longrightarrow> (\<lambda>c c'. \<exists>l. agent_step digest len c l c')\<^sup>*\<^sup>* c c'"
  by (induction rule: agent_run.induct) (auto intro: converse_rtranclp_into_rtranclp)

lemma step_file:
  assumes "agent_step digest len c l c'" and "agent_ok digest c" and "receipts c p \<noteq> None"
  shows "receipts c' p \<noteq> None \<and> state_dir c' = state_dir c"
proof (cases "l = Restart")
  case True
  then have "c' = new_client (state_dir c) (receipts c)" using assms(1) by (auto elim: agent_step_Restart)
  then show ?thesis using assms(3) by (simp add: new_client_def)
next
  case False
  then show ?thesis using step_ok[OF assms(1,2)] assms(3) by (simp add: keeps_def)
qed

lemma started_fresh:
  assumes "agent_step digest len c (Start oid) c'" and "agent_ok digest c"
  shows "state_dir c \<noteq> '''' \<Longrightarrow> oid \<notin> fst ` set (seen c) \<and> receipts c (digest oid) = None" and "oid \<in> fst ` set (seen c')"
proof -
  obtain now kind where reg: "register_operation digest len now kind oid c = (Started, c')"
    using assms(1) by (rule agent_step_Start)
  then have "oid \<noteq> ''''" by (auto simp: register_operation_def)
  then have none: "map_of (prune_seen len now (seen c)) oid = None"
    and nofile: "loadOperationResult digest oid (pruneCompletedOperations len now c) = Inr None"
    and c': "c' = snd (queue_msg (M_started oid) (pruneCompletedOperations len now c\<lparr>seen := (oid, new_execution kind) # seen (pruneCompletedOperations len now c)\<rparr>))"
    using reg by (auto simp: register_operation_def Let_def pruneCompletedOperations_def split: option.splits sum.splits)
  show "oid \<in> fst ` set (seen c')" unfolding c' by simp
  show "oid \<notin> fst ` set (seen c) \<and> receipts c (digest oid) = None" if dir: "state_dir c \<noteq> ''''"
  proof -
    have nothing: "receipts c (digest oid) = None"
      using nofile dir by (auto simp: loadOperationResult_def pruneCompletedOperations_def split: option.splits receipt.splits if_splits)
    moreover have "oid \<notin> fst ` set (prune_seen len now (seen c))" using none by (simp add: map_of_eq_None_iff)
    ultimately show ?thesis
      using keeps_prune[OF assms(2), of len now] dir by (auto simp: keeps_def pruneCompletedOperations_def)
  qed
qed

text \<open>
  C27: An operation whose receipt file exists, readable or not, is never started again, whatever the
  Agent is sent afterwards and however often it restarts; a digest collision only refuses more.
\<close>

theorem completed_never_restarts:
  assumes "agent_ok digest c" and "state_dir c \<noteq> ''''" and "receipts c (digest oid) \<noteq> None"
    and "agent_run digest len c ls c'"
  shows "Start oid \<notin> set ls"
  using assms(4,1-3)
proof (induction rule: agent_run.induct)
  case (run_step c l c' ls c'')
  have "l \<noteq> Start oid" using started_fresh(1)[of digest len c oid c'] run_step.hyps(1) run_step.prems by auto
  then show ?case
    using run_step.IH step_ok[OF run_step.hyps(1) run_step.prems(1)] step_file[OF run_step.hyps(1) run_step.prems(1,3)] run_step.prems(2)
    by auto
qed simp

lemma known_never_starts:
  assumes "agent_ok digest c" and "state_dir c \<noteq> ''''" and "oid \<in> fst ` set (seen c) \<or> receipts c (digest oid) \<noteq> None"
    and "agent_run digest len c ls c'" and "Restart \<notin> set ls"
  shows "Start oid \<notin> set ls"
  using assms(4,1-3,5)
proof (induction rule: agent_run.induct)
  case (run_step c l c' ls c'')
  have "l \<noteq> Start oid" using started_fresh(1)[of digest len c oid c'] run_step.hyps(1) run_step.prems by auto
  moreover have "keeps digest c c'" "agent_ok digest c'"
    using step_ok[OF run_step.hyps(1) run_step.prems(1)] run_step.prems(4) by auto
  moreover from this have "oid \<in> fst ` set (seen c') \<or> receipts c' (digest oid) \<noteq> None"
    using run_step.prems(2,3) unfolding keeps_def by blast
  ultimately show ?case using run_step.IH run_step.prems(2,4) by (auto simp: keeps_def)
qed simp

text \<open>
  Between two restarts of an Agent with a state directory an operation is started at most once:
  neither redelivery nor the eviction of its execution from the cache starts it again.
\<close>

theorem started_at_most_once:
  assumes "agent_ok digest c" and "state_dir c \<noteq> ''''" and "agent_run digest len c ls c'" and "Restart \<notin> set ls"
  shows "count_list ls (Start oid) \<le> 1"
  using assms(3,1,2,4)
proof (induction rule: agent_run.induct)
  case (run_step c l c' ls c'')
  have ok: "agent_ok digest c'" and k: "keeps digest c c'"
    using step_ok[OF run_step.hyps(1) run_step.prems(1)] run_step.prems(3) by auto
  have dir: "state_dir c' \<noteq> ''''" using k run_step.prems(2) by (simp add: keeps_def)
  show ?case
  proof (cases "l = Start oid")
    case True
    then have "oid \<in> fst ` set (seen c')" using started_fresh(2)[of digest len c oid c'] run_step.hyps(1) run_step.prems(1) by simp
    then have "Start oid \<notin> set ls"
      using known_never_starts[OF ok dir _ run_step.hyps(2)] run_step.prems(3) by auto
    then show ?thesis using True by (simp add: count_notin)
  next
    case False
    then show ?thesis using run_step.IH[OF ok dir] run_step.prems(3) by auto
  qed
qed simp

text \<open>
  When the interruption of an operation that is not running is acknowledged, with a tombstone or
  with the result of an earlier run, the operation never starts afterwards, restarts included.
\<close>

theorem interrupted_never_starts:
  assumes "agent_ok digest c" and "state_dir c \<noteq> ''''"
    and "interruptOperation digest now disk_ok command c = (Answer result, c')"
    and "agent_run digest len c' ls c''"
  shows "Start (TargetOperationID command) \<notin> set ls"
proof -
  let ?oid = "TargetOperationID command"
  have ok: "agent_ok digest c'" and "state_dir c' = state_dir c"
    using agent_ok_interrupt[OF assms(1), of now disk_ok command] keeps_interrupt[of digest c now disk_ok command] assms(3)
    by (simp_all add: keeps_def)
  moreover have "receipts c' (digest ?oid) \<noteq> None"
    using assms(2,3)
    by (auto simp: interruptOperation_def saveOperationResult_def loadOperationResult_def Let_def
        split: option.splits sum.splits if_splits receipt.splits)
  ultimately show ?thesis using completed_never_restarts assms(2,4) by metis
qed

section \<open>The cache, the receipts and the update\<close>

text \<open>
  A prune keeps every execution that is active or has no receipt, drops every expired one, and
  leaves at most 128 completed executions and 16 MiB of their results; what it evicts for space is
  no younger than what it leaves.
\<close>

theorem prune_bounds_and_keeps:
  assumes "agent_ok digest c" and "c' = pruneCompletedOperations len now c"
  shows "(\<forall>x \<in> set (seen c). \<not> evictable (snd x) \<longrightarrow> x \<in> set (seen c')) \<and>
    (\<forall>x \<in> set (seen c'). x \<in> set (seen c) \<and> \<not> expired now (snd x)) \<and>
    int (length (completed_of (seen c'))) \<le> completedOperationLimit \<and>
    bytes_of len (seen c') \<le> completedOperationByteLimit \<and>
    (\<forall>x \<in> set (seen c) - set (seen c'). expired now (snd x) \<or>
       (\<forall>y \<in> set (seen c'). evictable (snd y) \<longrightarrow> the (ex_completed (snd x)) \<le> the (ex_completed (snd y))))"
proof -
  let ?kept = "filter (\<lambda>(_, e). \<not> expired now e) (seen c)"
  note ok = agent_okD[OF assms(1)]
  have k: "'''' \<notin> fst ` set ?kept" "distinct (map fst ?kept)"
    using ok(1,2) by (auto intro: distinct_map_filter)
  have s: "seen c' = evict_loop len (int (length (completed_of ?kept))) (bytes_of len ?kept) ?kept"
    using assms(2) by (simp add: pruneCompletedOperations_def prune_seen_def Let_def completed_of_def bytes_of_def)
  note e = evict_loop_keeps[OF k, of len "int (length (completed_of ?kept))" "bytes_of len ?kept", folded s]
  have in_kept: "x \<in> set ?kept \<longleftrightarrow> x \<in> set (seen c) \<and> \<not> expired now (snd x)" for x by (cases x) auto
  have live: "\<not> evictable (snd x) \<Longrightarrow> \<not> expired now (snd x)" for x :: "string \<times> operationExecution"
    by (simp add: expired_def)
  show ?thesis
  proof (intro conjI ballI)
    show "\<not> evictable (snd x) \<longrightarrow> x \<in> set (seen c')" if "x \<in> set (seen c)" for x
      using e[THEN conjunct2, THEN conjunct2, THEN conjunct1] in_kept[of x] live that by blast
    show "x \<in> set (seen c)" "\<not> expired now (snd x)" if "x \<in> set (seen c')" for x
      using e[THEN conjunct1] in_kept[of x] that by blast+
    show "int (length (completed_of (seen c'))) \<le> completedOperationLimit"
      "bytes_of len (seen c') \<le> completedOperationByteLimit"
      unfolding s by (rule evict_loop_bounds[OF k])+
    show "expired now (snd x) \<or> (\<forall>y \<in> set (seen c'). evictable (snd y) \<longrightarrow> the (ex_completed (snd x)) \<le> the (ex_completed (snd y)))"
      if "x \<in> set (seen c) - set (seen c')" for x
      using e[THEN conjunct2, THEN conjunct2, THEN conjunct2] in_kept[of x] that by blast
  qed
qed

text \<open>
  A saved receipt is read back as it was saved. An operation whose ID has the same digest reads an
  error, never another operation's result; the receipts of all others are as before.
\<close>

lemma receipt_roundtrip:
  assumes "state_dir c \<noteq> ''''" and "saveOperationResult digest disk_ok result c = (Inr (), c')"
  shows "loadOperationResult digest (ResultOperationID result) c' = Inr (Some result) \<and>
    (\<forall>oid. oid \<noteq> ResultOperationID result \<longrightarrow>
       (if digest oid = digest (ResultOperationID result) then \<exists>e. loadOperationResult digest oid c' = Inl e
        else loadOperationResult digest oid c' = loadOperationResult digest oid c))"
  using assms by (auto simp: saveOperationResult_def loadOperationResult_def split: if_splits)


section \<open>Concrete runs\<close>

definition sample_result :: OperationResult where
  "sample_result = \<lparr>ResultOperationID = ''a'', ResultStatus = ''succeeded'', ResultMessage = '''', ResultData = None\<rparr>"

definition sample_client :: agent_client where
  "sample_client = new_client ''/s'' [''a'' \<mapsto> Receipt sample_result]"

lemma evict_loop_Nil [simp]: "evict_loop len n b [] = []"
  by (simp add: evict_loop_step)

lemma sample_start:
  "agent_step id len sample_client (Start ''b'')
     (sample_client\<lparr>outbound := [M_started ''b''], seen := [(''b'', new_execution k)]\<rparr>)"
  by (rule agent_step.deliver[where now = 0 and kind = k])
     (simp add: register_operation_def Let_def pruneCompletedOperations_def prune_seen_def sample_client_def new_client_def
       loadOperationResult_def queue_msg_def outbound_limit_def)

lemma sample_run: "\<exists>c. agent_run id len sample_client [Start ''b''] c"
  by (blast intro: run_step run_refl sample_start)

lemma sample_ok: "agent_ok id sample_client" "state_dir sample_client \<noteq> ''''" "receipts sample_client (id ''a'') \<noteq> None"
  unfolding sample_client_def by (rule new_client_ok) (simp_all add: new_client_def)

lemma completed_never_restarts_witness:
  "\<exists>c. agent_run id (\<lambda>_. 0) sample_client [Start ''b''] c \<and> Start ''a'' \<notin> set [Start ''b'']"
  using sample_run completed_never_restarts[OF sample_ok] by blast

lemma started_at_most_once_witness:
  "\<exists>c. agent_run id (\<lambda>_. 0) sample_client [Start ''b''] c \<and> count_list [Start ''b''] (Start ''b'') \<le> 1"
proof -
  obtain c where c: "agent_run id (\<lambda>_. 0) sample_client [Start ''b''] c" using sample_run by blast
  then show ?thesis using started_at_most_once[OF sample_ok(1,2) c] by auto
qed

definition sample_interrupt :: OperationInterruptCommand where
  "sample_interrupt = \<lparr>TargetOperationID = ''a'', TargetKind = ''workspace.files''\<rparr>"

lemma interrupted_never_starts_witness:
  "interruptOperation id 0 True sample_interrupt sample_client
     = (Answer sample_result, sample_client\<lparr>outbound := [M_result sample_result]\<rparr>) \<and> Start ''a'' \<notin> set [Restart]"
proof -
  have t: "trim_space ''a'' \<noteq> ''''" by code_simp
  have i: "interruptOperation id 0 True sample_interrupt sample_client
      = (Answer sample_result, sample_client\<lparr>outbound := [M_result sample_result]\<rparr>)"
    using t by (simp add: interruptOperation_def sample_interrupt_def sample_client_def new_client_def CanInterruptOperation_def
      loadOperationResult_def sample_result_def queue_msg_def outbound_limit_def Let_def)
  have "agent_run id (\<lambda>_. 0) (sample_client\<lparr>outbound := [M_result sample_result]\<rparr>) [Restart] sample_client"
    by (rule run_step[OF _ run_refl]) (use agent_step.restart[of id "\<lambda>_. 0" "sample_client\<lparr>outbound := [M_result sample_result]\<rparr>"]
      in \<open>simp add: sample_client_def new_client_def\<close>)
  then show ?thesis using interrupted_never_starts[OF sample_ok(1,2) i] i by (simp add: sample_interrupt_def)
qed

lemma prune_bounds_and_keeps_witness:
  "int (length (completed_of (seen (pruneCompletedOperations (\<lambda>_. 0) 0 sample_client)))) \<le> completedOperationLimit"
  using prune_bounds_and_keeps[OF sample_ok(1) refl] by blast

text \<open>
  A fork of a Claude session checks for a pending update, but the update does not wait for it: it is
  not among the kinds that hold an update back, so a fork at work can meet a staged update.
\<close>

lemma update_meets_claude_fork:
  "\<exists>c ls. agent_run id (\<lambda>_. 0) (new_client ''/s'' Map.empty) ls c \<and> update_pending c \<and> ''f'' \<in> set (working c) \<and>
     map_option ex_kind (map_of (seen c) ''f'') = Some ''claude.thread.fork''"
proof -
  let ?c0 = "new_client ''/s'' Map.empty"
  let ?c1 = "?c0\<lparr>outbound := [M_started ''f''], seen := [(''f'', new_execution ''claude.thread.fork'')]\<rparr>"
  let ?c2 = "?c1\<lparr>working := ''f'' # working ?c1\<rparr>"
  let ?c3 = "?c2\<lparr>update_pending := True\<rparr>"
  have 1: "agent_step id (\<lambda>_. 0) ?c0 (Start ''f'') ?c1"
    by (rule agent_step.deliver[where now = 0 and kind = "''claude.thread.fork''"])
       (simp add: register_operation_def Let_def pruneCompletedOperations_def prune_seen_def new_client_def
         loadOperationResult_def queue_msg_def outbound_limit_def)
  have 2: "agent_step id (\<lambda>_. 0) ?c1 Quiet ?c2"
    by (rule agent_step.body[where e = "new_execution ''claude.thread.fork''"]) (simp_all add: new_execution_def new_client_def)
  have 3: "agent_step id (\<lambda>_. 0) ?c2 Quiet ?c3"
    by (rule agent_step.stage) (simp add: stage_guard_def new_client_def new_execution_def update_blockers_def)
  have "agent_run id (\<lambda>_. 0) ?c0 [Start ''f'', Quiet, Quiet] ?c3" by (intro run_step[OF 1] run_step[OF 2] run_step[OF 3] run_refl)
  then show ?thesis by (intro exI[of _ ?c3] exI) (auto simp: new_execution_def)
qed


section \<open>Reconnection\<close>

definition initialReconnectBackoff :: duration where "initialReconnectBackoff = ns_second"

definition reconnectBackoffAfterResult :: "duration \<Rightarrow> bool \<Rightarrow> duration" where
  "reconnectBackoffAfterResult current connected = (if connected then initialReconnectBackoff else current)"

text \<open>One turn of the reconnect loop: the delay before its jitter, and the backoff it leaves.\<close>

definition reconnect_turn :: "duration \<Rightarrow> bool \<Rightarrow> duration \<times> duration" where
  "reconnect_turn backoff connected =
     (let b = reconnectBackoffAfterResult backoff connected in (b, if b < 30 * ns_second then b * 2 else b))"

fun reconnect_delays :: "duration \<Rightarrow> bool list \<Rightarrow> duration list" where
  "reconnect_delays b [] = []"
| "reconnect_delays b (r # rs) = (let (d, b') = reconnect_turn b r in d # reconnect_delays b' rs)"

lemma reconnect_turn_bounds:
  assumes "ns_second \<le> b" and "b < 60 * ns_second" and "reconnect_turn b r = (d, b')"
  shows "ns_second \<le> d \<and> d < 60 * ns_second \<and> ns_second \<le> b' \<and> b' < 60 * ns_second"
  using assms by (auto simp: reconnect_turn_def reconnectBackoffAfterResult_def initialReconnectBackoff_def ns_units Let_def split: if_splits)

text \<open>
  Whatever the outcomes of its connections, the Agent waits at least a second and less than a
  minute (before jitter) between two attempts: it neither spins nor gives up.
\<close>

lemma reconnect_delay_bounds:
  "list_all (\<lambda>d. ns_second \<le> d \<and> d < 60 * ns_second) (reconnect_delays initialReconnectBackoff outcomes)"
proof -
  have all: "\<forall>d \<in> set (reconnect_delays b outcomes). ns_second \<le> d \<and> d < 60 * ns_second"
    if "ns_second \<le> b" "b < 60 * ns_second" for b
    using that
  proof (induction b outcomes rule: reconnect_delays.induct)
    case (2 b r rs)
    obtain d b' where t: "reconnect_turn b r = (d, b')" by fastforce
    note bounds = reconnect_turn_bounds[OF 2(2,3) t]
    then have "\<forall>d \<in> set (reconnect_delays b' rs). ns_second \<le> d \<and> d < 60 * ns_second"
      using 2(1)[OF t[symmetric] refl] by blast
    with bounds show ?case by (simp add: t)
  qed simp
  show ?thesis unfolding list_all_iff by (rule all) (simp_all add: initialReconnectBackoff_def ns_units)
qed

end
