(* ===== verification/Turn_Sessions.thy ===== *)
theory Turn_Sessions
  imports Codex_Threads Build_Version
begin

text \<open>
  The sessions of Gemini and Claude, internal/store/gemini.go, claude.go and gemini_goals.go: their
  tables, the joined view with the features of the Agent and CLI, the commands of a turn as JSON, and
  the operations that do not start a turn: creation, the attributes, deletion, the lists and the goals.

  A row holds the columns of its table; the options and the management columns of a Claude session,
  which are tables of their own with at most one row per session, are part of its row, empty without
  one. \<open>gemini_revision\<close> is the credential revision of the profile row of a server, \<open>None\<close> without a row.
\<close>

section \<open>Tables\<close>

record Session_row =
  se_id :: string
  se_workspace_id :: string
  se_session_id :: string
  se_title :: string
  se_model :: string
  se_mode :: string \<comment> \<open>\<open>approval_mode\<close>, \<open>permission_mode\<close>\<close>
  se_level :: string \<comment> \<open>\<open>thinking_level\<close>, \<open>effort\<close>\<close>
  se_status :: string
  se_operation_id :: string
  se_pinned_at :: "instant option"
  se_archived_at :: "instant option"
  se_created_at :: instant
  se_updated_at :: instant
  se_credential_revision :: string
  se_fork_snapshot_id :: string
  se_fork_session_id :: string

record GeminiGoal =
  g_id :: string
  g_thread_id :: string
  g_objective :: string
  g_images :: stored_text
  g_status :: string
  g_operation_id :: string
  g_continuations :: int
  g_max_continuations :: int
  g_max_seconds :: int
  g_report :: string
  g_evidence :: string
  g_message :: string
  g_created_at :: instant
  g_updated_at :: instant

record turn_db =
  base :: db
  gemini_threads :: "Session_row list"
  claude_threads :: "Session_row list"
  gemini_goals :: "GeminiGoal list"
  claude_cli :: "string \<Rightarrow> string" \<comment> \<open>\<open>server_claude_cli.version\<close>, empty without a row\<close>
  gemini_revision :: "string \<Rightarrow> string option"

definition ErrGeminiCredentialsBusy :: go_error where
  "ErrGeminiCredentialsBusy = Err ''finish active Gemini turns, installations and configuration changes first''"

definition ErrClaudeCredentialsBusy :: go_error where
  "ErrClaudeCredentialsBusy = Err ''finish active Claude turns, installations and configuration changes first''"

definition ErrGeminiGoalChanged :: go_error where
  "ErrGeminiGoalChanged = Err ''Gemini goal changed or cannot be resumed''"

text \<open>An update reports how many rows it selected.\<close>

definition update_rows :: "('r \<Rightarrow> bool) \<Rightarrow> ('r \<Rightarrow> 'r) \<Rightarrow> 'r list \<Rightarrow> nat \<times> 'r list" where
  "update_rows sel f rows = (length (filter sel rows), map (\<lambda>r. if sel r then f r else r) rows)"

lemma update_rows_keys:
  assumes "\<And>r. key (f r) = key r" and "update_rows sel f rows = (n, rows')"
  shows "map key rows' = map key rows"
  using assms(2) map_if_key[of key f sel rows, OF assms(1)] by (auto simp: update_rows_def)

text \<open>A turn of the session may still run: its operation is not settled.\<close>

definition operation_active :: "string \<Rightarrow> Operation list \<Rightarrow> bool" where
  "operation_active oid ops \<longleftrightarrow> list_ex (\<lambda>o1. o_id o1 = oid \<and> active o1) ops"

definition session_free :: "Operation list \<Rightarrow> Session_row \<Rightarrow> bool" where
  "session_free ops r \<longleftrightarrow> se_status r \<notin> {''queued'', ''running'', ''interrupting''} \<and>
     (se_status r \<noteq> ''interrupted'' \<or> \<not> operation_active (se_operation_id r) ops)"

section \<open>The joined view\<close>

record Session_view =
  v_row :: Session_row
  v_Path :: string
  v_ProjectID :: string
  v_ProjectName :: string
  v_ProjectPinnedAt :: "instant option"
  v_ProjectHiddenAt :: "instant option"
  v_ServerID :: string
  v_ServerName :: string
  v_ServerOnline :: bool
  v_AgentVersion :: string
  v_CLIVersion :: string
  v_CredentialRevision :: string
  v_RecoveryPending :: bool
  v_SteerSupported :: bool
  v_SteerReady :: bool
  v_InputSupported :: bool
  v_RewriteSupported :: bool
  v_SkillsSupported :: bool
  v_LevelSupported :: bool \<comment> \<open>\<open>ThinkingSupported\<close>, \<open>EffortSupported\<close>\<close>
  v_QuestionsSupported :: bool
  v_SteerImagesSupported :: bool
  v_SkillsManagementSupported :: bool
  v_GoalSupported :: bool
  v_PlanSupported :: bool
  v_ForkSupported :: bool

definition ServerOnlineGracePeriod :: duration where
  "ServerOnlineGracePeriod = 90 * ns_second"

definition server_online :: "instant \<Rightarrow> Server_row \<Rightarrow> bool" where
  "server_online now s \<longleftrightarrow> (case s_last_seen_at s of None \<Rightarrow> False | Some t \<Rightarrow> now - ServerOnlineGracePeriod < t)"

text \<open>The join of a session with its workspace, project and server, which must not be revoked.\<close>

definition session_join :: "(string \<Rightarrow> Server_row \<Rightarrow> string) \<Rightarrow> (string \<Rightarrow> string) \<Rightarrow> instant \<Rightarrow> turn_db \<Rightarrow> Session_row \<Rightarrow> Session_view option" where
  "session_join cli revision now s r =
     (let d = base s in
      case find (\<lambda>w. w_id w = se_workspace_id r) (workspaces d) of None \<Rightarrow> None | Some w \<Rightarrow>
      case find (\<lambda>v. s_id v = w_server_id w) (servers d) of None \<Rightarrow> None | Some v \<Rightarrow>
      case find (\<lambda>p. p_id p = w_project_id w) (projects d) of None \<Rightarrow> None | Some p \<Rightarrow>
        if s_revoked_at v \<noteq> None then None
        else (let ps = server_preference p (s_id v) d in
          Some \<lparr>v_row = r, v_Path = w_path w, v_ProjectID = w_project_id w, v_ProjectName = project_server_name ps p,
                v_ProjectPinnedAt = pp_pinned_at ps, v_ProjectHiddenAt = pp_hidden_at ps, v_ServerID = w_server_id w,
                v_ServerName = s_name v, v_ServerOnline = server_online now v, v_AgentVersion = s_agent_version v,
                v_CLIVersion = cli (s_id v) v, v_CredentialRevision = revision (s_id v),
                v_RecoveryPending = (se_status r = ''interrupted'' \<and> operation_active (se_operation_id r) (operations d)),
                v_SteerSupported = False, v_SteerReady = False, v_InputSupported = False, v_RewriteSupported = False,
                v_SkillsSupported = False, v_LevelSupported = False, v_QuestionsSupported = False,
                v_SteerImagesSupported = False, v_SkillsManagementSupported = False, v_GoalSupported = False,
                v_PlanSupported = False, v_ForkSupported = False\<rparr>))"

definition gemini_capabilities :: "Session_view \<Rightarrow> Session_view" where
  "gemini_capabilities v = v\<lparr>
     v_SteerSupported := SupportsGeminiSteering (v_AgentVersion v) (v_CLIVersion v),
     v_SteerImagesSupported := SupportsGeminiImageSteering (v_AgentVersion v) (v_CLIVersion v),
     v_SkillsManagementSupported := SupportsGeminiSkillManagement (v_AgentVersion v) (v_CLIVersion v),
     v_InputSupported := SupportsGeminiInput (v_AgentVersion v),
     v_LevelSupported := SupportsGeminiThinking (v_AgentVersion v),
     v_SkillsSupported := SupportsGeminiSkills (v_AgentVersion v) (v_CLIVersion v),
     v_GoalSupported := SupportsGeminiGoal (v_AgentVersion v) (v_CLIVersion v),
     v_PlanSupported := SupportsGeminiPlan (v_AgentVersion v) (v_CLIVersion v),
     v_ForkSupported := SupportsGeminiFork (v_AgentVersion v),
     v_RewriteSupported := SupportsGeminiRewrite (v_AgentVersion v)\<rparr>"

definition gemini_view :: "instant \<Rightarrow> turn_db \<Rightarrow> Session_row \<Rightarrow> Session_view option" where
  "gemini_view now s r =
     map_option gemini_capabilities (session_join (\<lambda>_. s_gemini_version) (\<lambda>i. or_empty (gemini_revision s i)) now s r)"

text \<open>One session also reports whether its running turn takes steering instructions.\<close>

definition get_GeminiThread :: "string \<Rightarrow> instant \<Rightarrow> turn_db \<Rightarrow> go_error + Session_view" where
  "get_GeminiThread i now s =
     try_then (find_row (\<lambda>v. se_id (v_row v) = i) (List.map_filter (gemini_view now s) (gemini_threads s))) (\<lambda>v.
       Inr (if v_SteerSupported v \<and> se_status (v_row v) = ''running''
            then v\<lparr>v_SteerReady := list_ex (\<lambda>e. StreamID e = i \<and> EventID e = se_operation_id (v_row v) @ '':steer-ready''
                     \<and> EventKind e = ''gemini.steer.ready'') (events (base s))\<rparr>
            else v))"

definition gemini_list_key :: "Session_view \<Rightarrow> (nat \<times> int) \<times> (nat \<times> int) \<times> int" where
  "gemini_list_key v = (newest_first (v_ProjectPinnedAt v), newest_first (se_pinned_at (v_row v)), - se_updated_at (v_row v))"

definition GeminiThreads :: "bool \<Rightarrow> instant \<Rightarrow> turn_db \<Rightarrow> Session_view list" where
  "GeminiThreads archived now s =
     take 200 (order_by gemini_list_key
       (filter (\<lambda>v. (se_archived_at (v_row v) \<noteq> None) = archived) (List.map_filter (gemini_view now s) (gemini_threads s))))"

text \<open>The steering state of a running Claude turn is the latest of two events.\<close>

definition claude_steer_ready :: "Session_row \<Rightarrow> db \<Rightarrow> bool" where
  "claude_steer_ready r d =
     (case latest_of [''claude.steer.ready'', ''claude.steer.closed''] (se_id r) d of
        None \<Rightarrow> False
      | Some e \<Rightarrow>
          (case EventPayload e of
             None \<Rightarrow> False
           | Some p \<Rightarrow>
               (case (str_field ''operation_id'' p, bool_field ''ready'' p) of
                  (Some oid, Some ready) \<Rightarrow> oid = se_operation_id r \<and> ready
                | _ \<Rightarrow> False)))"

definition claude_capabilities :: "db \<Rightarrow> Session_view \<Rightarrow> Session_view" where
  "claude_capabilities d v =
     (let steer = SupportsClaudeSteering (v_AgentVersion v) (v_CLIVersion v) in v\<lparr>
     v_SteerSupported := steer,
     v_SteerReady := steer \<and> se_status (v_row v) = ''running'' \<and> claude_steer_ready (v_row v) d,
     v_QuestionsSupported := SupportsClaudeQuestions (v_AgentVersion v) (v_CLIVersion v),
     v_RewriteSupported := SupportsClaudeRewrite (v_AgentVersion v),
     v_LevelSupported := SupportsClaudeEffort (v_AgentVersion v),
     v_SkillsSupported := SupportsClaudeSkills (v_AgentVersion v),
     v_InputSupported := SupportsClaudeInput (v_AgentVersion v)\<rparr>)"

definition claude_view :: "instant \<Rightarrow> turn_db \<Rightarrow> Session_row \<Rightarrow> Session_view option" where
  "claude_view now s r =
     map_option (claude_capabilities (base s)) (session_join (\<lambda>i _. claude_cli s i) (\<lambda>_. []) now s r)"

definition get_ClaudeThread :: "string \<Rightarrow> instant \<Rightarrow> turn_db \<Rightarrow> go_error + Session_view" where
  "get_ClaudeThread i now s =
     find_row (\<lambda>v. se_id (v_row v) = i) (List.map_filter (claude_view now s) (claude_threads s))"

definition ClaudeThreads :: "bool \<Rightarrow> instant \<Rightarrow> turn_db \<Rightarrow> Session_view list" where
  "ClaudeThreads archived now s =
     take 200 (order_by (\<lambda>v. (newest_first (se_pinned_at (v_row v)), - se_updated_at (v_row v)))
       (filter (\<lambda>v. (se_archived_at (v_row v) \<noteq> None) = archived) (List.map_filter (claude_view now s) (claude_threads s))))"

section \<open>Creation, attributes and deletion\<close>

text \<open>The \<open>INSERT ... SELECT\<close> of a new session takes its workspace, ready and on a server in use.\<close>

definition ready_workspace :: "string \<Rightarrow> db \<Rightarrow> Workspace_row option" where
  "ready_workspace i d =
     find (\<lambda>w. w_id w = i \<and> w_status w = ''ready'' \<and>
               list_ex (\<lambda>v. s_id v = w_server_id w \<and> s_revoked_at v = None) (servers d)) (workspaces d)"

definition new_session :: "string \<Rightarrow> string \<Rightarrow> string \<Rightarrow> string \<Rightarrow> string \<Rightarrow> string \<Rightarrow> string \<Rightarrow> instant \<Rightarrow> Session_row" where
  "new_session i workspaceID title model mode level revision now =
     \<lparr>se_id = i, se_workspace_id = workspaceID, se_session_id = [], se_title = title, se_model = model, se_mode = mode,
      se_level = level, se_status = ''idle'', se_operation_id = [], se_pinned_at = None, se_archived_at = None,
      se_created_at = now, se_updated_at = now, se_credential_revision = revision,
      se_fork_snapshot_id = [], se_fork_session_id = []\<rparr>"

definition CreateGeminiThread ::
    "string \<Rightarrow> string \<Rightarrow> string \<Rightarrow> string \<Rightarrow> string \<Rightarrow> instant \<Rightarrow> turn_db \<Rightarrow> go_error + Session_view \<times> turn_db" where
  "CreateGeminiThread workspaceID model mode level newID now s =
     (case ready_workspace workspaceID (base s) of
        None \<Rightarrow> Inl ErrNoRows
      | Some w \<Rightarrow>
          if newID \<in> set (map se_id (gemini_threads s)) then Inl ConstraintFailed
          else (let r = new_session newID workspaceID ''Gemini'' model mode level (or_empty (gemini_revision s (w_server_id w))) now;
                    s' = s\<lparr>gemini_threads := gemini_threads s @ [r], base := showProjectForNewThread workspaceID (base s)\<rparr>
                in try_then (get_GeminiThread newID now s') (\<lambda>v. Inr (v, s'))))"

definition CreateClaudeThread ::
    "string \<Rightarrow> string \<Rightarrow> string \<Rightarrow> string \<Rightarrow> string \<Rightarrow> instant \<Rightarrow> turn_db \<Rightarrow> go_error + Session_view \<times> turn_db" where
  "CreateClaudeThread workspaceID model mode effort newID now s =
     (case ready_workspace workspaceID (base s) of
        None \<Rightarrow> Inl ErrNoRows
      | Some w \<Rightarrow>
          if newID \<in> set (map se_id (claude_threads s)) then Inl ConstraintFailed
          else (let r = new_session newID workspaceID ''Claude'' model mode effort [] now;
                    s' = s\<lparr>claude_threads := claude_threads s @ [r], base := showProjectForNewThread workspaceID (base s)\<rparr>
                in try_then (get_ClaudeThread newID now s') (\<lambda>v. Inr (v, s'))))"

definition rename_session :: "Operation list \<Rightarrow> string \<Rightarrow> string \<Rightarrow> bool \<Rightarrow> instant \<Rightarrow> Session_row list \<Rightarrow> go_error + Session_row list" where
  "rename_session ops i title archived now rows =
     (case update_rows (\<lambda>r. se_id r = i \<and> session_free ops r)
             (\<lambda>r. r\<lparr>se_title := title, se_archived_at := at_if archived now, se_updated_at := now\<rparr>) rows of
        (n, rows') \<Rightarrow> if n \<noteq> 1 then Inl ErrThreadActive else Inr rows')"

definition UpdateGeminiThread :: "string \<Rightarrow> string \<Rightarrow> bool \<Rightarrow> instant \<Rightarrow> turn_db \<Rightarrow> go_error + turn_db" where
  "UpdateGeminiThread i title archived now s =
     try_then (rename_session (operations (base s)) i title archived now (gemini_threads s)) (\<lambda>rows. Inr (s\<lparr>gemini_threads := rows\<rparr>))"

definition UpdateClaudeThread :: "string \<Rightarrow> string \<Rightarrow> bool \<Rightarrow> instant \<Rightarrow> turn_db \<Rightarrow> go_error + turn_db" where
  "UpdateClaudeThread i title archived now s =
     try_then (rename_session (operations (base s)) i title archived now (claude_threads s)) (\<lambda>rows. Inr (s\<lparr>claude_threads := rows\<rparr>))"

text \<open>Deleting a session takes its events, its scheduled tasks and its goals with it.\<close>

definition delete_session :: "Operation list \<Rightarrow> string \<Rightarrow> Session_row list \<Rightarrow> go_error + Session_row list" where
  "delete_session ops i rows =
     (if length (filter (\<lambda>r. se_id r = i \<and> session_free ops r) rows) \<noteq> 1 then Inl ErrThreadActive
      else Inr (filter (\<lambda>r. \<not> (se_id r = i \<and> session_free ops r)) rows))"

definition forget_session :: "agent_kind \<Rightarrow> string \<Rightarrow> db \<Rightarrow> db" where
  "forget_session kind i d = d\<lparr>events := filter (\<lambda>e. StreamID e \<noteq> i) (events d),
     tasks := (tasks d)(kind := filter (\<lambda>k. k_thread_id k \<noteq> i) (tasks d kind))\<rparr>"

definition DeleteGeminiThread :: "string \<Rightarrow> turn_db \<Rightarrow> go_error + turn_db" where
  "DeleteGeminiThread i s =
     try_then (delete_session (operations (base s)) i (gemini_threads s)) (\<lambda>rows.
       Inr (s\<lparr>gemini_threads := rows, gemini_goals := filter (\<lambda>g. g_thread_id g \<noteq> i) (gemini_goals s),
              base := forget_session Gemini i (base s)\<rparr>))"

definition DeleteClaudeThread :: "string \<Rightarrow> turn_db \<Rightarrow> go_error + turn_db" where
  "DeleteClaudeThread i s =
     try_then (delete_session (operations (base s)) i (claude_threads s)) (\<lambda>rows.
       Inr (s\<lparr>claude_threads := rows, base := forget_session Claude i (base s)\<rparr>))"

section \<open>Delivery of turns\<close>

text \<open>
  The turns whose owner the control plane asks after, and the claim of a queued turn for its single
  delivery.
\<close>

definition unfinished_turns :: "string list \<Rightarrow> string \<Rightarrow> instant \<Rightarrow> db \<Rightarrow> string list" where
  "unfinished_turns kinds serverID now d =
     map o_id (order_by o_created_at (filter (\<lambda>o1. o_server_id o1 = serverID \<and> o_kind o1 \<in> set kinds \<and>
       (o_status o1 = ''running'' \<or> o_status o1 = ''delivered'' \<and>
          (case o_delivered_at o1 of None \<Rightarrow> False | Some t \<Rightarrow> t < now - 30 * ns_second))) (operations d)))"

definition gemini_turn_kinds :: "string list" where
  "gemini_turn_kinds = [''gemini.turn.start'', ''gemini.turn.rewrite'']"

definition UnfinishedGeminiOperations :: "string \<Rightarrow> instant \<Rightarrow> db \<Rightarrow> string list" where
  "UnfinishedGeminiOperations = unfinished_turns gemini_turn_kinds"

definition UnfinishedClaudeOperations :: "string \<Rightarrow> instant \<Rightarrow> db \<Rightarrow> string list" where
  "UnfinishedClaudeOperations = unfinished_turns [''claude.turn.start'']"

definition ClaimGeminiDelivery :: "string \<Rightarrow> instant \<Rightarrow> db \<Rightarrow> go_error + bool \<times> db" where
  "ClaimGeminiDelivery i now d =
     try_then (update_operations
         (\<lambda>o1. o_id o1 = i \<and> o_status o1 = ''queued'' \<and> o_kind o1 \<in> {''gemini.turn.start'', ''gemini.turn.rewrite'', ''claude.turn.start''})
         (\<lambda>o1. o1\<lparr>o_status := ''delivered'', o_delivered_at := Some now\<rparr>) d)
       (\<lambda>(n, d'). Inr (n = 1, d'))"

end
