(* ===== verification/Turn_Store.thy ===== *)
theory Turn_Store
  imports Turn_Sessions
begin

text \<open>
  The turns of Gemini and Claude sessions, internal/store/gemini.go, claude.go, claude_rewrite.go,
  gemini_goals.go and gemini_steering.go: the claim of a session and its workspace for a new turn or a
  rewrite, interruption, the confirmation that a lost process has stopped, completion, the commit of a
  rewrite and the goals. Every operation is one transaction: on an error the database is as before.

  \<open>rfc3339_text\<close> and \<open>rfc3339_ok\<close> print and check a time in the layout RFC3339Nano, \<open>uuid_ok\<close> is the
  check of the UUID package; new identifiers and the clock are arguments.
\<close>

section \<open>Commands of a turn\<close>

text \<open>\<open>None\<close> is the nil slice of images, which \<open>json.Marshal\<close> writes as null outside a struct.\<close>

type_synonym turn_images = "string list option"

definition image_list :: "turn_images \<Rightarrow> string list" where
  "image_list images = (case images of None \<Rightarrow> [] | Some xs \<Rightarrow> xs)"

definition encode_image :: "string \<Rightarrow> json" where
  "encode_image url = JObj [(''data_url'', JStr url)]"

definition encode_images :: "turn_images \<Rightarrow> json" where
  "encode_images images = (case images of None \<Rightarrow> JNull | Some xs \<Rightarrow> JArr (map encode_image xs))"

definition decode_image :: "json \<Rightarrow> string option" where
  "decode_image = str_field ''data_url''"

definition decode_images :: "json \<Rightarrow> turn_images option" where
  "decode_images d =
     (case d of JNull \<Rightarrow> Some None | JArr xs \<Rightarrow> map_option Some (decode_list decode_image xs) | _ \<Rightarrow> None)"

definition omit_bool :: "string \<Rightarrow> bool \<Rightarrow> (string \<times> json) list" where
  "omit_bool name b = (if b then [(name, JBool True)] else [])"

definition omit_list :: "string \<Rightarrow> json list \<Rightarrow> (string \<times> json) list" where
  "omit_list name xs = (if xs = [] then [] else [(name, JArr xs)])"

definition omit_obj :: "string \<Rightarrow> json option \<Rightarrow> (string \<times> json) list" where
  "omit_obj name d = (case d of None \<Rightarrow> [] | Some j \<Rightarrow> [(name, j)])"

record GeminiGoalCommand =
  gc_ID :: string
  gc_Objective :: string
  gc_Continuations :: int
  gc_MaxContinuations :: int
  gc_MaxSeconds :: int

record GeminiRewriteTarget =
  gr_EventID :: string
  gr_StartedAt :: string
  gr_Before :: string

record GeminiTurnCommand =
  gt_Goal :: "GeminiGoalCommand option"
  gt_Steering :: bool
  gt_SteeringContext :: "string list"
  gt_Interactive :: bool
  gt_Images :: turn_images
  gt_ThinkingLevel :: string
  gt_ThreadID :: string
  gt_Workspace :: string
  gt_SessionID :: string
  gt_Prompt :: string
  gt_Model :: string
  gt_ApprovalMode :: string
  gt_Rewrite :: "GeminiRewriteTarget option"

definition encode_goal :: "GeminiGoalCommand \<Rightarrow> json" where
  "encode_goal g = JObj [(''id'', JStr (gc_ID g)), (''objective'', JStr (gc_Objective g)),
     (''continuations'', JNum (gc_Continuations g) 0), (''max_continuations'', JNum (gc_MaxContinuations g) 0),
     (''max_seconds'', JNum (gc_MaxSeconds g) 0)]"

definition encode_gemini_rewrite :: "GeminiRewriteTarget \<Rightarrow> json" where
  "encode_gemini_rewrite r = JObj (str_entry ''event_id'' (gr_EventID r) @ str_entry ''started_at'' (gr_StartedAt r) @
     omit_str ''before'' (gr_Before r))"

definition encode_GeminiTurnCommand :: "GeminiTurnCommand \<Rightarrow> json" where
  "encode_GeminiTurnCommand c = JObj
     (omit_obj ''goal'' (map_option encode_goal (gt_Goal c)) @ omit_bool ''steering'' (gt_Steering c) @
      omit_list ''steering_context'' (map JStr (gt_SteeringContext c)) @ omit_bool ''interactive'' (gt_Interactive c) @
      omit_list ''images'' (map encode_image (image_list (gt_Images c))) @ omit_str ''thinking_level'' (gt_ThinkingLevel c) @
      str_entry ''thread_id'' (gt_ThreadID c) @ str_entry ''workspace'' (gt_Workspace c) @
      str_entry ''session_id'' (gt_SessionID c) @ str_entry ''prompt'' (gt_Prompt c) @ str_entry ''model'' (gt_Model c) @
      str_entry ''approval_mode'' (gt_ApprovalMode c) @ omit_obj ''rewrite'' (map_option encode_gemini_rewrite (gt_Rewrite c)))"

text \<open>A pointer to a struct: a missing entry and \<open>null\<close> are nil.\<close>

definition pointer_field :: "(json \<Rightarrow> 'a option) \<Rightarrow> string \<Rightarrow> json \<Rightarrow> 'a option option" where
  "pointer_field dec name d =
     (case raw_field name d of
        None \<Rightarrow> None
      | Some None \<Rightarrow> Some None
      | Some (Some JNull) \<Rightarrow> Some None
      | Some (Some v) \<Rightarrow> map_option Some (dec v))"

definition decode_goal :: "json \<Rightarrow> GeminiGoalCommand option" where
  "decode_goal d =
     (case (str_field ''id'' d, str_field ''objective'' d, int_field ''continuations'' d, int_field ''max_continuations'' d,
            int_field ''max_seconds'' d) of
        (Some i, Some ob, Some n, Some mn, Some ms) \<Rightarrow>
          Some \<lparr>gc_ID = i, gc_Objective = ob, gc_Continuations = n, gc_MaxContinuations = mn, gc_MaxSeconds = ms\<rparr>
      | _ \<Rightarrow> None)"

definition decode_gemini_rewrite :: "json \<Rightarrow> GeminiRewriteTarget option" where
  "decode_gemini_rewrite d =
     (case (str_field ''event_id'' d, str_field ''started_at'' d, str_field ''before'' d) of
        (Some e, Some s, Some b) \<Rightarrow> Some \<lparr>gr_EventID = e, gr_StartedAt = s, gr_Before = b\<rparr>
      | _ \<Rightarrow> None)"

definition decode_GeminiTurnCommand :: "json \<Rightarrow> GeminiTurnCommand option" where
  "decode_GeminiTurnCommand d =
     (case (pointer_field decode_goal ''goal'' d, bool_field ''steering'' d, array_field as_string ''steering_context'' d,
            bool_field ''interactive'' d, array_field decode_image ''images'' d, str_field ''thinking_level'' d) of
        (Some goal, Some steering, Some context, Some interactive, Some images, Some level) \<Rightarrow>
          (case (str_field ''thread_id'' d, str_field ''workspace'' d, str_field ''session_id'' d, str_field ''prompt'' d,
                 str_field ''model'' d, str_field ''approval_mode'' d, pointer_field decode_gemini_rewrite ''rewrite'' d) of
             (Some t, Some w, Some se, Some p, Some mo, Some ap, Some rw) \<Rightarrow>
               Some \<lparr>gt_Goal = goal, gt_Steering = steering, gt_SteeringContext = (case context of None \<Rightarrow> [] | Some xs \<Rightarrow> xs),
                     gt_Interactive = interactive, gt_Images = images, gt_ThinkingLevel = level, gt_ThreadID = t,
                     gt_Workspace = w, gt_SessionID = se, gt_Prompt = p, gt_Model = mo, gt_ApprovalMode = ap, gt_Rewrite = rw\<rparr>
           | _ \<Rightarrow> None)
      | _ \<Rightarrow> None)"

record ClaudeRewriteTarget =
  cr_EventID :: string
  cr_MessageID :: string
  cr_Prompt :: string
  cr_StartedAt :: string
  cr_Before :: string

record ClaudeTurnCommand =
  ct_Questions :: bool
  ct_Rewrite :: "ClaudeRewriteTarget option"
  ct_Steer :: bool
  ct_Images :: turn_images
  ct_ForkSnapshotID :: string
  ct_ForkSessionID :: string
  ct_ThreadID :: string
  ct_Workspace :: string
  ct_SessionID :: string
  ct_Prompt :: string
  ct_Model :: string
  ct_PermissionMode :: string
  ct_Effort :: string

definition encode_claude_rewrite :: "ClaudeRewriteTarget \<Rightarrow> json" where
  "encode_claude_rewrite r = JObj (str_entry ''event_id'' (cr_EventID r) @ str_entry ''message_id'' (cr_MessageID r) @
     str_entry ''prompt'' (cr_Prompt r) @ str_entry ''started_at'' (cr_StartedAt r) @ omit_str ''before'' (cr_Before r))"

definition encode_ClaudeTurnCommand :: "ClaudeTurnCommand \<Rightarrow> json" where
  "encode_ClaudeTurnCommand c = JObj
     (omit_bool ''questions'' (ct_Questions c) @ omit_obj ''rewrite'' (map_option encode_claude_rewrite (ct_Rewrite c)) @
      omit_bool ''steer'' (ct_Steer c) @ omit_list ''images'' (map encode_image (image_list (ct_Images c))) @
      omit_str ''fork_snapshot_id'' (ct_ForkSnapshotID c) @ omit_str ''fork_session_id'' (ct_ForkSessionID c) @
      str_entry ''thread_id'' (ct_ThreadID c) @ str_entry ''workspace'' (ct_Workspace c) @
      str_entry ''session_id'' (ct_SessionID c) @ str_entry ''prompt'' (ct_Prompt c) @ str_entry ''model'' (ct_Model c) @
      str_entry ''permission_mode'' (ct_PermissionMode c) @ omit_str ''effort'' (ct_Effort c))"

definition decode_claude_rewrite :: "json \<Rightarrow> ClaudeRewriteTarget option" where
  "decode_claude_rewrite d =
     (case (str_field ''event_id'' d, str_field ''message_id'' d, str_field ''prompt'' d, str_field ''started_at'' d,
            str_field ''before'' d) of
        (Some e, Some mi, Some p, Some s, Some b) \<Rightarrow>
          Some \<lparr>cr_EventID = e, cr_MessageID = mi, cr_Prompt = p, cr_StartedAt = s, cr_Before = b\<rparr>
      | _ \<Rightarrow> None)"

definition decode_ClaudeTurnCommand :: "json \<Rightarrow> ClaudeTurnCommand option" where
  "decode_ClaudeTurnCommand d =
     (case (bool_field ''questions'' d, pointer_field decode_claude_rewrite ''rewrite'' d, bool_field ''steer'' d,
            array_field decode_image ''images'' d, str_field ''fork_snapshot_id'' d, str_field ''fork_session_id'' d) of
        (Some q, Some rw, Some steer, Some images, Some fs, Some fi) \<Rightarrow>
          (case (str_field ''thread_id'' d, str_field ''workspace'' d, str_field ''session_id'' d, str_field ''prompt'' d,
                 str_field ''model'' d, str_field ''permission_mode'' d, str_field ''effort'' d) of
             (Some t, Some w, Some se, Some p, Some mo, Some pm, Some ef) \<Rightarrow>
               Some \<lparr>ct_Questions = q, ct_Rewrite = rw, ct_Steer = steer, ct_Images = images, ct_ForkSnapshotID = fs,
                     ct_ForkSessionID = fi, ct_ThreadID = t, ct_Workspace = w, ct_SessionID = se, ct_Prompt = p,
                     ct_Model = mo, ct_PermissionMode = pm, ct_Effort = ef\<rparr>
           | _ \<Rightarrow> None)
      | _ \<Rightarrow> None)"

section \<open>Goals\<close>

definition ValidGeminiGoalLimits :: "int \<Rightarrow> int \<Rightarrow> bool" where
  "ValidGeminiGoalLimits continuations seconds \<longleftrightarrow>
     1 \<le> continuations \<and> continuations \<le> 100 \<and> 60 \<le> seconds \<and> seconds \<le> 86400"

definition get_GeminiGoal :: "string \<Rightarrow> GeminiGoal list \<Rightarrow> GeminiGoal option" where
  "get_GeminiGoal threadID gs =
     (case order_by_desc g_created_at (sort_key g_id (filter (\<lambda>g. g_thread_id g = threadID) gs)) of
        [] \<Rightarrow> None | g # _ \<Rightarrow> Some g)"

text \<open>The partial unique index: one active goal per session.\<close>

definition goals_ok :: "GeminiGoal list \<Rightarrow> bool" where
  "goals_ok gs \<longleftrightarrow> distinct (map g_id gs) \<and> distinct (map g_thread_id (filter (\<lambda>g. g_status g = ''active'') gs))"

definition store_goals :: "GeminiGoal list \<Rightarrow> turn_db \<Rightarrow> go_error + turn_db" where
  "store_goals gs s = (if goals_ok gs then Inr (s\<lparr>gemini_goals := gs\<rparr>) else Inl ConstraintFailed)"

definition update_goals :: "(GeminiGoal \<Rightarrow> bool) \<Rightarrow> (GeminiGoal \<Rightarrow> GeminiGoal) \<Rightarrow> turn_db \<Rightarrow> go_error + nat \<times> turn_db" where
  "update_goals sel f s =
     (case update_rows sel f (gemini_goals s) of (n, gs) \<Rightarrow> try_then (store_goals gs s) (\<lambda>s'. Inr (n, s')))"

definition resumable :: "GeminiGoal \<Rightarrow> bool" where
  "resumable g \<longleftrightarrow> g_status g \<in> {''paused'', ''blocked''}"

text \<open>A goal without an ID is new and replaces the resumable ones; else the named goal is resumed.\<close>

definition claimGeminiGoal ::
    "string \<Rightarrow> string \<Rightarrow> GeminiGoalCommand \<Rightarrow> turn_images \<Rightarrow> string \<Rightarrow> instant \<Rightarrow> turn_db \<Rightarrow>
     go_error + (GeminiGoalCommand \<times> turn_images) \<times> turn_db" where
  "claimGeminiGoal threadID opID goal images newID now s =
     (if gc_ID goal = [] then
        (if trim_space (gc_Objective goal) = [] \<or> 262144 < length (gc_Objective goal)
         then Inl (Err ''invalid Gemini goal objective'')
         else try_then (update_goals (\<lambda>g. g_thread_id g = threadID \<and> resumable g)
                (\<lambda>g. g\<lparr>g_status := ''cancelled'', g_updated_at := now\<rparr>) s) (\<lambda>(_, s1).
              try_then (store_goals (gemini_goals s1 @
                  [\<lparr>g_id = newID, g_thread_id = threadID, g_objective = gc_Objective goal, g_images = JsonText (encode_images images),
                    g_status = ''active'', g_operation_id = opID, g_continuations = 0,
                    g_max_continuations = gc_MaxContinuations goal, g_max_seconds = gc_MaxSeconds goal,
                    g_report = [], g_evidence = [], g_message = [], g_created_at = now, g_updated_at = now\<rparr>]) s1) (\<lambda>s2.
              Inr ((goal\<lparr>gc_ID := newID\<rparr>, images), s2))))
      else case find (\<lambda>g. g_id g = gc_ID goal \<and> g_thread_id g = threadID) (gemini_goals s) of
        None \<Rightarrow> Inl ErrGeminiGoalChanged
      | Some existing \<Rightarrow>
          if \<not> resumable existing then Inl ErrGeminiGoalChanged
          else (case (case stored_json (g_images existing) of None \<Rightarrow> None | Some d \<Rightarrow> decode_images d) of
              None \<Rightarrow> Inl BadJSON
            | Some saved \<Rightarrow>
                try_then (update_goals (\<lambda>g. g_id g = gc_ID goal \<and> g_thread_id g = threadID \<and> resumable g)
                    (\<lambda>g. g\<lparr>g_status := ''active'', g_operation_id := opID, g_max_continuations := gc_MaxContinuations goal,
                           g_max_seconds := gc_MaxSeconds goal, g_report := [], g_evidence := [], g_message := [],
                           g_updated_at := now\<rparr>) s) (\<lambda>(n, s1).
                  if n \<noteq> 1 then Inl ErrGeminiGoalChanged
                  else Inr ((goal\<lparr>gc_Objective := g_objective existing, gc_Continuations := g_continuations existing\<rparr>, saved), s1))))"

record GeminiGoalProgress =
  gp_OperationID :: string
  gp_GoalID :: string
  gp_Continuations :: int
  gp_Report :: string
  gp_Evidence :: string

definition valid_progress :: "GeminiGoalProgress \<Rightarrow> bool" where
  "valid_progress p \<longleftrightarrow> \<not> (gp_GoalID p = [] \<or> gp_OperationID p = [] \<or> gp_Continuations p < 0 \<or>
     gp_Report p \<notin> {[], ''completed'', ''blocked''} \<or> 16000 < length (gp_Evidence p) \<or>
     gp_Report p \<noteq> [] \<and> trim_space (gp_Evidence p) = [])"

text \<open>A pending stop keeps the reports of the operation while it may still run.\<close>

definition stop_pending :: "GeminiGoal \<Rightarrow> turn_db \<Rightarrow> bool" where
  "stop_pending g s \<longleftrightarrow> g_status g \<in> {''paused'', ''cancelled''} \<and>
     list_ex (\<lambda>t. se_id t = g_thread_id g \<and> se_operation_id t = g_operation_id g \<and>
        se_status t \<in> {''interrupting'', ''interrupted''} \<and>
        list_ex (\<lambda>o1. o_id o1 = se_operation_id t \<and> o_status o1 \<in> {''delivered'', ''running''}) (operations (base s)))
       (gemini_threads s)"

definition UpdateGeminiGoalProgress :: "string \<Rightarrow> GeminiGoalProgress \<Rightarrow> instant \<Rightarrow> turn_db \<Rightarrow> go_error + turn_db" where
  "UpdateGeminiGoalProgress threadID p now s =
     (if \<not> valid_progress p then Inl (Err ''invalid Gemini goal progress'')
      else try_then (update_goals
          (\<lambda>g. g_id g = gp_GoalID p \<and> g_thread_id g = threadID \<and> g_operation_id g = gp_OperationID p \<and>
               g_continuations g \<le> gp_Continuations p \<and> (g_status g = ''active'' \<or> stop_pending g s))
          (\<lambda>g. g\<lparr>g_continuations := gp_Continuations p,
                 g_report := (if gp_Report p \<noteq> [] then gp_Report p else g_report g),
                 g_evidence := (if gp_Report p \<noteq> [] then gp_Evidence p else g_evidence g), g_updated_at := now\<rparr>) s)
        (\<lambda>(_, s'). Inr s'))"

definition CancelInactiveGeminiGoal :: "string \<Rightarrow> string \<Rightarrow> instant \<Rightarrow> turn_db \<Rightarrow> go_error + turn_db" where
  "CancelInactiveGeminiGoal threadID goalID now s =
     try_then (update_goals (\<lambda>g. g_id g = goalID \<and> g_thread_id g = threadID \<and> resumable g)
         (\<lambda>g. g\<lparr>g_status := ''cancelled'', g_updated_at := now\<rparr>) s)
       (\<lambda>(n, s'). if n \<noteq> 1 then Inl ErrGeminiGoalChanged else Inr s')"

section \<open>Rewrite targets and steering context\<close>

text \<open>
  The target of a Gemini rewrite is found by the Agent's own clock: the start of the turn of the edited
  message, and the start of the next other turn. The scan keeps the operation of the edited message
  once it is found.
\<close>

fun gemini_target_scan :: "string \<Rightarrow> string option \<Rightarrow> GeminiRewriteTarget \<Rightarrow> StreamEvent list \<Rightarrow> go_error + (string option \<times> GeminiRewriteTarget)" where
  "gemini_target_scan eventID found target [] = Inr (found, target)"
| "gemini_target_scan eventID found target (e # es) =
     (case (case EventPayload e of None \<Rightarrow> None | Some p \<Rightarrow>
              (case (str_field ''operation_id'' p, str_field ''timestamp'' p) of (Some a, Some b) \<Rightarrow> Some (a, b) | _ \<Rightarrow> None)) of
        None \<Rightarrow> Inl BadJSON
      | Some (oid, timestamp) \<Rightarrow>
          if EventID e = eventID \<and> (EventKind e \<noteq> ''gemini.user.message'' \<or> oid = []) then Inl ErrInvalidEditTarget
          else (let found = (if EventID e = eventID then Some oid else found) in
            case found of
              None \<Rightarrow> gemini_target_scan eventID None target es
            | Some operationID \<Rightarrow>
                if EventKind e \<noteq> ''gemini.init'' then gemini_target_scan eventID found target es
                else if oid = operationID \<and> gr_StartedAt target = []
                then gemini_target_scan eventID found (target\<lparr>gr_StartedAt := timestamp\<rparr>) es
                else if gr_StartedAt target \<noteq> [] \<and> oid \<noteq> operationID
                then Inr (found, target\<lparr>gr_Before := timestamp\<rparr>)
                else gemini_target_scan eventID found target es))"

definition geminiRewriteTarget :: "(string \<Rightarrow> bool) \<Rightarrow> string \<Rightarrow> string \<Rightarrow> db \<Rightarrow> go_error + GeminiRewriteTarget" where
  "geminiRewriteTarget rfc3339_ok threadID eventID d =
     try_then (gemini_target_scan eventID None \<lparr>gr_EventID = eventID, gr_StartedAt = [], gr_Before = []\<rparr>
         (order_by Sequence (filter (\<lambda>e. EventKind e \<in> {''gemini.user.message'', ''gemini.init''}) (stream_events threadID d))))
       (\<lambda>(found, target). if found = None \<or> gr_StartedAt target = [] \<or> \<not> rfc3339_ok (gr_StartedAt target)
                          then Inl ErrInvalidEditTarget else Inr target)"

definition claudeRewriteTarget ::
    "(instant \<Rightarrow> string) \<Rightarrow> (string \<Rightarrow> bool) \<Rightarrow> string \<Rightarrow> string \<Rightarrow> db \<Rightarrow> go_error + ClaudeRewriteTarget" where
  "claudeRewriteTarget rfc3339_text uuid_ok threadID eventID d =
     (case find (\<lambda>e. StreamID e = threadID \<and> EventID e = eventID \<and> EventKind e \<in> {''claude.user.message'', ''claude.steer.applied''}) (events d) of
        None \<Rightarrow> Inl ErrInvalidEditTarget
      | Some event \<Rightarrow>
          case (case EventPayload event of None \<Rightarrow> None | Some p \<Rightarrow>
                  (case (str_field ''text'' p, str_field ''operation_id'' p, str_field ''request_id'' p) of
                     (Some a, Some b, Some c) \<Rightarrow> Some (a, b, c) | _ \<Rightarrow> None)) of
            None \<Rightarrow> Inl ErrInvalidEditTarget
          | Some (prompt, oid, rid) \<Rightarrow>
              (let message = (if rid = [] then oid else rid) in
               if \<not> uuid_ok message then Inl ErrInvalidEditTarget
               else Inr \<lparr>cr_EventID = eventID, cr_MessageID = message, cr_Prompt = prompt, cr_StartedAt = rfc3339_text (OccurredAt event),
                  cr_Before = (case order_by Sequence (filter (\<lambda>e. Sequence event < Sequence e \<and> EventKind e = ''claude.user.message'')
                                      (stream_events threadID d)) of
                                 [] \<Rightarrow> [] | e # _ \<Rightarrow> rfc3339_text (OccurredAt e))\<rparr>))"

text \<open>
  The steering instructions of the last turn before a cutoff (0: none) that were applied, in the
  order in which they were queued.
\<close>

definition steer_text :: "StreamEvent \<Rightarrow> (string \<times> string) option" where
  "steer_text e =
     (case EventPayload e of None \<Rightarrow> None | Some p \<Rightarrow>
        (case (str_field ''request_id'' p, str_field ''text'' p) of (Some r, Some t) \<Rightarrow> Some (r, t) | _ \<Rightarrow> None))"

definition geminiSteeringContext :: "string \<Rightarrow> int \<Rightarrow> db \<Rightarrow> string list" where
  "geminiSteeringContext thread cutoff d =
     (let earlier = filter (\<lambda>e. cutoff = 0 \<or> Sequence e < cutoff) (stream_events thread d);
          turn = max_sequence (filter (\<lambda>e. EventKind e = ''gemini.user.message'') earlier);
          rows = order_by Sequence (filter (\<lambda>e. turn < Sequence e) earlier);
          queued = List.map_filter steer_text (filter (\<lambda>e. EventKind e = ''gemini.steer.queued'') rows);
          applied = map fst (List.map_filter steer_text (filter (\<lambda>e. EventKind e = ''gemini.steer.applied'') rows))
      in map (\<lambda>r. the (map_of (rev queued) r)) (filter (\<lambda>r. r \<in> set applied) (map fst queued)))"

section \<open>Queueing a turn\<close>

text \<open>Configuration of the server that excludes new turns.\<close>

definition configuring :: "string \<Rightarrow> string list \<Rightarrow> db \<Rightarrow> bool" where
  "configuring serverID kinds d \<longleftrightarrow>
     list_ex (\<lambda>o1. o_server_id o1 = serverID \<and> o_kind o1 \<in> set kinds \<and> active o1) (operations d)"

definition claimable :: "Operation list \<Rightarrow> string \<Rightarrow> Session_row \<Rightarrow> bool" where
  "claimable ops i r \<longleftrightarrow> se_id r = i \<and> se_archived_at r = None \<and> session_free ops r"

definition truncateGeminiTitle :: "string \<Rightarrow> string" where
  "truncateGeminiTitle prompt = (if prompt = [] then ''Gemini'' else first_runes 60 prompt)"

definition turn_row :: "string \<Rightarrow> Session_view \<Rightarrow> string \<Rightarrow> json \<Rightarrow> string \<Rightarrow> instant \<Rightarrow> Operation" where
  "turn_row opID thread kind payload key now =
     (queued_operation opID (v_ServerID thread) no_resource kind (JsonText payload) True key now)
       \<lparr>o_project_id := Some (v_ProjectID thread), o_workspace_id := Some (se_workspace_id (v_row thread))\<rparr>"

definition append_event :: "string \<Rightarrow> string \<Rightarrow> string \<Rightarrow> instant \<Rightarrow> json \<Rightarrow> db \<Rightarrow> go_error + StreamEvent \<times> db" where
  "append_event eventID threadID kind now payload d =
     (let e = \<lparr>EventID = eventID, StreamID = threadID, Sequence = max_sequence (stream_events threadID d) + 1,
               EventKind = kind, OccurredAt = now, EventPayload = Some payload\<rparr>
      in try_then (insert_event e d) (\<lambda>d'. Inr (e, d')))"

text \<open>The operation of a turn; a new message also becomes an event, a rewrite only when it is committed.\<close>

definition submit_turn ::
    "Operation \<Rightarrow> bool \<Rightarrow> string \<Rightarrow> string \<Rightarrow> string \<Rightarrow> json \<Rightarrow> instant \<Rightarrow> db \<Rightarrow> go_error + StreamEvent option \<times> db" where
  "submit_turn row rewrite newEventID threadID eventKind message now d =
     try_then (insert_operation row d) (\<lambda>d1.
       if rewrite then Inr (None, d1)
       else try_then (append_event newEventID threadID eventKind now message d1) (\<lambda>(e, d2). Inr (Some e, d2)))"

definition gemini_command ::
    "Session_view \<Rightarrow> Session_row \<Rightarrow> string \<Rightarrow> string \<Rightarrow> string \<Rightarrow> string \<Rightarrow> turn_images \<Rightarrow> GeminiGoalCommand option \<Rightarrow> bool \<Rightarrow>
     GeminiRewriteTarget option \<Rightarrow> string list \<Rightarrow> GeminiTurnCommand" where
  "gemini_command thread row prompt model mode level images goal interactive target context =
     \<lparr>gt_Goal = goal, gt_Steering = v_SteerSupported thread, gt_SteeringContext = context,
      gt_Interactive = interactive, gt_Images = images, gt_ThinkingLevel = level, gt_ThreadID = se_id (v_row thread),
      gt_Workspace = v_Path thread, gt_SessionID = se_session_id row, gt_Prompt = prompt, gt_Model = model,
      gt_ApprovalMode = mode, gt_Rewrite = target\<rparr>"

definition claude_command ::
    "Session_view \<Rightarrow> Session_row \<Rightarrow> string \<Rightarrow> string \<Rightarrow> string \<Rightarrow> string \<Rightarrow> turn_images \<Rightarrow> ClaudeRewriteTarget option \<Rightarrow> ClaudeTurnCommand" where
  "claude_command thread row prompt model mode effort images target =
     (let fresh = se_session_id row = [] in
      \<lparr>ct_Questions = v_QuestionsSupported thread, ct_Rewrite = target, ct_Steer = v_SteerSupported thread,
       ct_Images = images, ct_ForkSnapshotID = (if fresh then se_fork_snapshot_id (v_row thread) else []),
       ct_ForkSessionID = (if fresh then se_fork_session_id (v_row thread) else []), ct_ThreadID = se_id (v_row thread),
       ct_Workspace = v_Path thread, ct_SessionID = se_session_id row, ct_Prompt = prompt, ct_Model = model,
       ct_PermissionMode = mode, ct_Effort = effort\<rparr>)"

definition gemini_claim :: "Session_view \<Rightarrow> string \<Rightarrow> string \<Rightarrow> string \<Rightarrow> string \<Rightarrow> string \<Rightarrow> instant \<Rightarrow> turn_db \<Rightarrow> go_error + turn_db" where
  "gemini_claim thread prompt model mode level opID now s =
     (if configuring (v_ServerID thread) [''gemini.credentials.configure'', ''gemini.skills.manage'', ''cli.install'', ''agent.update''] (base s)
      then Inl ErrGeminiCredentialsBusy
      else case update_rows (claimable (operations (base s)) (se_id (v_row thread)))
          (\<lambda>r. r\<lparr>se_credential_revision := or_empty (case find (\<lambda>w. w_id w = se_workspace_id r) (workspaces (base s)) of
                    None \<Rightarrow> None | Some w \<Rightarrow> gemini_revision s (w_server_id w)),
                 se_status := ''queued'', se_operation_id := opID, se_model := model, se_mode := mode, se_level := level,
                 se_updated_at := now, se_title := (if se_title r = ''Gemini'' then truncateGeminiTitle prompt else se_title r)\<rparr>)
          (gemini_threads s) of
        (n, rows) \<Rightarrow> if n \<noteq> 1 then Inl ErrThreadActive else Inr (s\<lparr>gemini_threads := rows\<rparr>))"

definition gemini_goal_step ::
    "string \<Rightarrow> string \<Rightarrow> GeminiGoalCommand option \<Rightarrow> turn_images \<Rightarrow> string \<Rightarrow> instant \<Rightarrow> turn_db \<Rightarrow>
     go_error + (GeminiGoalCommand option \<times> turn_images) \<times> turn_db" where
  "gemini_goal_step threadID opID goal images newGoalID now s =
     (case goal of None \<Rightarrow> Inr ((None, images), s)
      | Some g \<Rightarrow> try_then (claimGeminiGoal threadID opID g images newGoalID now s) (\<lambda>((g', im), s'). Inr ((Some g', im), s')))"

definition gemini_rewrite_step :: "(string \<Rightarrow> bool) \<Rightarrow> string \<Rightarrow> string \<Rightarrow> db \<Rightarrow> go_error + GeminiRewriteTarget option" where
  "gemini_rewrite_step rfc3339_ok threadID editEventID d =
     (if editEventID = [] then Inr None
      else try_then (geminiRewriteTarget rfc3339_ok threadID editEventID d) (\<lambda>t. Inr (Some t)))"

definition gemini_context_step :: "bool \<Rightarrow> string \<Rightarrow> string \<Rightarrow> db \<Rightarrow> go_error + string list" where
  "gemini_context_step steering threadID editEventID d =
     (if \<not> steering then Inr []
      else if editEventID = [] then Inr (geminiSteeringContext threadID 0 d)
      else try_then (thread_event threadID editEventID d) (\<lambda>e. Inr (geminiSteeringContext threadID (Sequence e) d)))"

definition gemini_input_check :: "bool \<Rightarrow> GeminiGoalCommand option \<Rightarrow> turn_images \<Rightarrow> go_error + unit" where
  "gemini_input_check interactive goal images =
     (if goal \<noteq> None \<and> \<not> interactive then Inl (Err ''Gemini goal requires the interactive ACP protocol'')
      else if image_list images \<noteq> [] \<and> \<not> interactive then Inl (Err ''update Agent to support Gemini images'')
      else Inr ())"

definition queueGeminiTurn ::
    "(string \<Rightarrow> bool) \<Rightarrow> Session_view \<Rightarrow> string \<Rightarrow> string \<Rightarrow> string \<Rightarrow> string \<Rightarrow> turn_images \<Rightarrow> GeminiGoalCommand option \<Rightarrow> string \<Rightarrow>
     string \<Rightarrow> string \<Rightarrow> string \<Rightarrow> instant \<Rightarrow> turn_db \<Rightarrow> go_error + StreamEvent option \<times> turn_db" where
  "queueGeminiTurn rfc3339_ok thread prompt model mode editEventID images goal level opID newEventID newGoalID now s =
     (let threadID = se_id (v_row thread) in
      try_then (gemini_claim thread prompt model mode level opID now s) (\<lambda>s1.
      try_then (gemini_goal_step threadID opID goal images newGoalID now s1) (\<lambda>((goal', images'), s2).
      try_then (find_row (\<lambda>r. se_id r = threadID) (gemini_threads s2)) (\<lambda>row.
      try_then (find_row (\<lambda>v. s_id v = v_ServerID thread) (servers (base s2))) (\<lambda>server.
      let interactive = SupportsGeminiInput (s_agent_version server) in
      try_then (gemini_input_check interactive goal' images') (\<lambda>_.
      try_then (gemini_rewrite_step rfc3339_ok threadID editEventID (base s2)) (\<lambda>target.
      try_then (gemini_context_step (v_SteerSupported thread) threadID editEventID (base s2)) (\<lambda>context.
      try_then (submit_turn
          (turn_row opID thread (if editEventID = [] then ''gemini.turn.start'' else ''gemini.turn.rewrite'')
             (encode_GeminiTurnCommand (gemini_command thread row prompt model mode level images' goal' interactive target context))
             (''gemini:'' @ opID) now)
          (editEventID \<noteq> []) newEventID threadID ''gemini.user.message''
          (JObj [(''images'', encode_images images'), (''model'', JStr model), (''operation_id'', JStr opID), (''text'', JStr prompt),
                 (''thinking_level'', JStr level)]) now (base s2)) (\<lambda>(e, d).
      Inr (e, s2\<lparr>base := d\<rparr>))))))))))"

definition QueueGeminiGoal ::
    "(string \<Rightarrow> bool) \<Rightarrow> Session_view \<Rightarrow> string \<Rightarrow> string \<Rightarrow> string \<Rightarrow> string \<Rightarrow> turn_images \<Rightarrow> GeminiGoalCommand option \<Rightarrow>
     string \<Rightarrow> string \<Rightarrow> string \<Rightarrow> instant \<Rightarrow> turn_db \<Rightarrow> go_error + StreamEvent option \<times> turn_db" where
  "QueueGeminiGoal rfc3339_ok thread prompt model mode thinking images goal opID newEventID newGoalID now s =
     (case goal of
        None \<Rightarrow> Inl (Err ''invalid Gemini goal limits'')
      | Some g \<Rightarrow>
          if \<not> ValidGeminiGoalLimits (gc_MaxContinuations g) (gc_MaxSeconds g) then Inl (Err ''invalid Gemini goal limits'')
          else queueGeminiTurn rfc3339_ok thread prompt model mode [] images goal thinking opID newEventID newGoalID now s)"

text \<open>Claude: the title of an image without text is Image.\<close>

definition claude_title :: "string \<Rightarrow> string" where
  "claude_title prompt = (if prompt = [] then ''Image'' else first_runes 60 prompt)"

definition claude_claim :: "Session_view \<Rightarrow> string \<Rightarrow> string \<Rightarrow> string \<Rightarrow> string \<Rightarrow> string \<Rightarrow> instant \<Rightarrow> turn_db \<Rightarrow> go_error + turn_db" where
  "claude_claim thread prompt model mode effort opID now s =
     (if configuring (v_ServerID thread) [''claude.credentials.configure'', ''cli.install'', ''agent.update''] (base s)
      then Inl ErrClaudeCredentialsBusy
      else if length (filter (\<lambda>w. w_id w = se_workspace_id (v_row thread) \<and> w_status w = ''ready'') (workspaces (base s))) \<noteq> 1
      then Inl ErrThreadActive
      else case update_rows (claimable (operations (base s)) (se_id (v_row thread)))
          (\<lambda>r. r\<lparr>se_status := ''queued'', se_operation_id := opID, se_model := model, se_mode := mode, se_level := effort,
                 se_updated_at := now, se_title := (if se_title r = ''Claude'' then claude_title prompt else se_title r)\<rparr>)
          (claude_threads s) of
        (n, rows) \<Rightarrow> if n \<noteq> 1 then Inl ErrThreadActive else Inr (s\<lparr>claude_threads := rows\<rparr>))"

definition claude_rewrite_step ::
    "(instant \<Rightarrow> string) \<Rightarrow> (string \<Rightarrow> bool) \<Rightarrow> string \<Rightarrow> string \<Rightarrow> string \<Rightarrow> db \<Rightarrow> go_error + ClaudeRewriteTarget option" where
  "claude_rewrite_step rfc3339_text uuid_ok threadID editID sessionID d =
     (if editID = [] then Inr None
      else case claudeRewriteTarget rfc3339_text uuid_ok threadID editID d of
        Inl _ \<Rightarrow> Inl ErrInvalidEditTarget
      | Inr target \<Rightarrow> if sessionID = [] then Inl ErrInvalidEditTarget else Inr (Some target))"

definition queueClaudeInput ::
    "(instant \<Rightarrow> string) \<Rightarrow> (string \<Rightarrow> bool) \<Rightarrow> Session_view \<Rightarrow> string \<Rightarrow> string \<Rightarrow> string \<Rightarrow> string \<Rightarrow> string \<Rightarrow> turn_images \<Rightarrow>
     string \<Rightarrow> string \<Rightarrow> instant \<Rightarrow> turn_db \<Rightarrow> go_error + StreamEvent option \<times> turn_db" where
  "queueClaudeInput rfc3339_text uuid_ok thread editID prompt model mode effort images opID newEventID now s =
     (let threadID = se_id (v_row thread) in
      try_then (claude_claim thread prompt model mode effort opID now s) (\<lambda>s1.
      try_then (find_row (\<lambda>r. se_id r = threadID) (claude_threads s1)) (\<lambda>row.
      try_then (claude_rewrite_step rfc3339_text uuid_ok threadID editID (se_session_id row) (base s1)) (\<lambda>target.
      try_then (submit_turn
          (turn_row opID thread ''claude.turn.start''
             (encode_ClaudeTurnCommand (claude_command thread row prompt model mode effort images target)) (''claude:'' @ opID) now)
          (editID \<noteq> []) newEventID threadID ''claude.user.message''
          (JObj [(''images'', encode_images images), (''operation_id'', JStr opID), (''text'', JStr prompt)]) now (base s1)) (\<lambda>(e, d).
      Inr (e, s1\<lparr>base := d\<rparr>))))))"

section \<open>Interruption\<close>

text \<open>
  A turn that was not handed out yet is cancelled here; one in flight gets an interrupt operation, and
  its session and workspace stay claimed until the Agent confirms.
\<close>

definition end_task_runs :: "agent_kind \<Rightarrow> string \<Rightarrow> string \<Rightarrow> string option \<Rightarrow> instant \<Rightarrow> db \<Rightarrow> db" where
  "end_task_runs kind oid status message now d =
     d\<lparr>tasks := (tasks d)(kind := map (\<lambda>k. if k_last_operation_id k = oid \<and> k_last_run_status k \<in> {''queued'', ''running''}
        then k\<lparr>k_last_run_status := status, k_last_run_message := coalesce message (k_last_run_message k), k_updated_at := now\<rparr>
        else k) (tasks d kind))\<rparr>"

definition cancel_undelivered :: "string \<Rightarrow> instant \<Rightarrow> db \<Rightarrow> go_error + nat \<times> db" where
  "cancel_undelivered oid now d =
     update_operations (\<lambda>o1. o_id o1 = oid \<and> o_status o1 = ''queued'')
       (\<lambda>o1. o1\<lparr>o_status := ''cancelled'', o_completed_at := Some now\<rparr>) d"

definition interruptible :: "Operation list \<Rightarrow> string \<Rightarrow> string \<Rightarrow> Session_row \<Rightarrow> bool" where
  "interruptible ops i oid r \<longleftrightarrow> se_id r = i \<and> se_operation_id r = oid \<and>
     (se_status r \<in> {''queued'', ''running''} \<or>
      se_status r = ''interrupted'' \<and> list_ex (\<lambda>o1. o_id o1 = se_operation_id r \<and> o_status o1 \<in> {''delivered'', ''running''}) ops)"

definition mark_interrupted :: "Operation list \<Rightarrow> string \<Rightarrow> string \<Rightarrow> bool \<Rightarrow> instant \<Rightarrow> Session_row list \<Rightarrow> go_error + Session_row list" where
  "mark_interrupted ops i oid cancelled now rows =
     (case update_rows (interruptible ops i oid)
         (\<lambda>r. r\<lparr>se_status := (if cancelled then ''interrupted'' else ''interrupting''), se_updated_at := now\<rparr>) rows of
        (n, rows') \<Rightarrow> if n \<noteq> 1 then Inl ErrThreadActive else Inr rows')"

definition interrupt_turn_row :: "string \<Rightarrow> Session_view \<Rightarrow> string \<Rightarrow> string \<Rightarrow> string \<Rightarrow> bool \<Rightarrow> instant \<Rightarrow> Operation" where
  "interrupt_turn_row newID thread kind prefix oid recovery now =
     (queued_operation newID (v_ServerID thread) no_resource kind
        (JsonText (JObj (str_entry ''thread_id'' (se_id (v_row thread)) @ str_entry ''operation_id'' oid @ omit_bool ''recovery_pending'' recovery)))
        False (prefix @ newID) now)
       \<lparr>o_project_id := Some (v_ProjectID thread), o_workspace_id := Some (se_workspace_id (v_row thread))\<rparr>"

text \<open>The last step: a turn that was cancelled here needs no interrupt operation.\<close>

definition send_interrupt :: "bool \<Rightarrow> Operation \<Rightarrow> turn_db \<Rightarrow> go_error + turn_db" where
  "send_interrupt cancelled row s =
     (if cancelled then Inr s else try_then (insert_operation row (base s)) (\<lambda>d. Inr (s\<lparr>base := d\<rparr>)))"

definition InterruptGeminiTurn :: "Session_view \<Rightarrow> string \<Rightarrow> string \<Rightarrow> string \<Rightarrow> instant \<Rightarrow> turn_db \<Rightarrow> go_error + turn_db" where
  "InterruptGeminiTurn thread goalStatus goalID newID now s =
     (let i = se_id (v_row thread); oid = se_operation_id (v_row thread) in
      try_then (require (length (filter (\<lambda>o1. o_id o1 = oid \<and> active o1) (operations (base s))) = 1) ErrThreadActive) (\<lambda>_.
      try_then (cancel_undelivered oid now (base s)) (\<lambda>(n, d).
      try_then (find_row (\<lambda>r. se_id r = i \<and> se_operation_id r = oid) (gemini_threads s)) (\<lambda>previous.
      let d1 = (if n = 1 then end_task_runs Gemini oid ''cancelled'' None now d else d) in
      try_then (mark_interrupted (operations d1) i oid (n = 1) now (gemini_threads s)) (\<lambda>rows.
      try_then (require (goalStatus \<in> {''paused'', ''cancelled''}) (Err ''invalid Gemini goal action'')) (\<lambda>_.
      try_then (update_goals (\<lambda>g. g_thread_id g = i \<and> g_operation_id g = oid \<and> g_status g = ''active'' \<and> (goalID = [] \<or> g_id g = goalID))
          (\<lambda>g. g\<lparr>g_status := goalStatus, g_updated_at := now\<rparr>) (s\<lparr>base := d1, gemini_threads := rows\<rparr>)) (\<lambda>(m, s1).
      try_then (require (goalID = [] \<or> m = 1) ErrGeminiGoalChanged) (\<lambda>_.
      send_interrupt (n \<noteq> 0) (interrupt_turn_row newID thread ''gemini.turn.interrupt'' ''gemini-interrupt:'' oid
        (se_status previous = ''interrupted'') now) s1))))))))"

definition InterruptClaudeTurn :: "Session_view \<Rightarrow> string \<Rightarrow> instant \<Rightarrow> turn_db \<Rightarrow> go_error + turn_db" where
  "InterruptClaudeTurn thread newID now s =
     (let i = se_id (v_row thread); oid = se_operation_id (v_row thread) in
      try_then (require (length (filter (\<lambda>o1. o_id o1 = oid \<and> o_kind o1 = ''claude.turn.start'' \<and> active o1) (operations (base s))) = 1)
          ErrThreadActive) (\<lambda>_.
      try_then (cancel_undelivered oid now (base s)) (\<lambda>(n, d).
      let d1 = (if n = 1 then end_task_runs Claude oid ''cancelled'' (Some ''Cancelled before dispatch'') now d else d) in
      try_then (mark_interrupted (operations d1) i oid (n = 1) now (claude_threads s)) (\<lambda>rows.
      send_interrupt (n \<noteq> 0) (interrupt_turn_row newID thread ''claude.turn.interrupt'' ''claude-interrupt:'' oid
        (v_RecoveryPending thread) now) (s\<lparr>base := d1, claude_threads := rows\<rparr>)))))"

section \<open>Confirmation and completion\<close>

text \<open>A person confirms that a lost process has stopped: only for an interrupted session whose operation was handed out.\<close>

definition settle_confirmed :: "string \<Rightarrow> instant \<Rightarrow> db \<Rightarrow> go_error + db" where
  "settle_confirmed oid now d =
     try_then (update_operations (\<lambda>o1. o_id o1 = oid)
         (\<lambda>o1. o1\<lparr>o_status := ''cancelled'', o_result := Some ''Process exit confirmed by user'', o_completed_at := Some now\<rparr>) d)
       (\<lambda>(_, d'). Inr d')"

definition handed_out :: "string \<Rightarrow> string list \<Rightarrow> db \<Rightarrow> bool" where
  "handed_out oid kinds d \<longleftrightarrow>
     length (filter (\<lambda>o1. o_id o1 = oid \<and> o_kind o1 \<in> set kinds \<and> o_status o1 \<in> {''delivered'', ''running''}) (operations d)) = 1"

definition ConfirmGeminiStopped :: "string \<Rightarrow> string \<Rightarrow> instant \<Rightarrow> turn_db \<Rightarrow> go_error + StreamEvent \<times> turn_db" where
  "ConfirmGeminiStopped i oid now s =
     try_then (require (handed_out oid gemini_turn_kinds (base s)) ErrThreadActive) (\<lambda>_.
     try_then (require (length (filter (\<lambda>r. se_id r = i \<and> se_operation_id r = oid \<and> se_status r = ''interrupted'') (gemini_threads s)) = 1)
         ErrThreadActive) (\<lambda>_.
     try_then (settle_confirmed oid now (base s)) (\<lambda>d.
     try_then (update_goals (\<lambda>g. g_thread_id g = i \<and> g_operation_id g = oid \<and> g_status g = ''active'')
         (\<lambda>g. g\<lparr>g_status := ''blocked'', g_message := ''The previous process was confirmed stopped; resume the goal when ready.'',
                g_updated_at := now\<rparr>) (s\<lparr>base := end_task_runs Gemini oid ''cancelled'' None now d\<rparr>)) (\<lambda>(_, s1).
     try_then (append_event (oid @ '':completed'') i ''gemini.turn.completed'' now
         (JObj [(''operation_id'', JStr oid), (''status'', JStr ''interrupted'')]) (base s1)) (\<lambda>(e, d').
     Inr (e, s1\<lparr>base := d'\<rparr>))))))"

definition ConfirmClaudeStopped :: "string \<Rightarrow> string \<Rightarrow> instant \<Rightarrow> turn_db \<Rightarrow> go_error + turn_db" where
  "ConfirmClaudeStopped i oid now s =
     try_then (require (handed_out oid [''claude.turn.start''] (base s)) ErrThreadActive) (\<lambda>_.
     (case update_rows (\<lambda>r. se_id r = i \<and> se_operation_id r = oid \<and> se_status r = ''interrupted'')
         (\<lambda>r. r\<lparr>se_updated_at := now\<rparr>) (claude_threads s) of
       (n, rows) \<Rightarrow>
         try_then (require (n = 1) ErrThreadActive) (\<lambda>_.
         try_then (settle_confirmed oid now (base s)) (\<lambda>d.
         Inr (s\<lparr>claude_threads := rows, base := end_task_runs Claude oid ''cancelled'' (Some ''Process exit confirmed by user'') now d\<rparr>)))))"

text \<open>Only the result of the claimed operation ends a turn; a pending interruption wins over its status.\<close>

definition end_session_turn :: "string \<Rightarrow> string \<Rightarrow> string \<Rightarrow> instant \<Rightarrow> Session_row list \<Rightarrow> nat \<times> Session_row list" where
  "end_session_turn i oid status now rows =
     update_rows (\<lambda>r. se_id r = i \<and> se_operation_id r = oid)
       (\<lambda>r. r\<lparr>se_status := (if se_status r = ''interrupting'' then ''interrupted'' else status), se_updated_at := now\<rparr>) rows"

definition end_goal :: "string \<Rightarrow> instant \<Rightarrow> GeminiGoal \<Rightarrow> GeminiGoal" where
  "end_goal status now g =
     (let reached = status = ''idle'' \<and> g_report g = ''completed'' in
      g\<lparr>g_status := (if reached then ''completed'' else ''blocked''),
        g_message := (if reached then [] else if g_report g = ''blocked'' then g_evidence g
                      else ''Goal stopped before reporting completion; review the conversation before resuming.''),
        g_updated_at := now\<rparr>)"

definition CompleteGeminiTurn :: "string \<Rightarrow> string \<Rightarrow> string \<Rightarrow> instant \<Rightarrow> turn_db \<Rightarrow> go_error + turn_db" where
  "CompleteGeminiTurn i oid status now s =
     (case end_session_turn i oid status now (gemini_threads s) of
        (n, rows) \<Rightarrow>
          if n = 0 then Inr s
          else try_then (update_goals (\<lambda>g. g_thread_id g = i \<and> g_operation_id g = oid \<and> g_status g = ''active'') (end_goal status now)
                   (s\<lparr>gemini_threads := rows\<rparr>)) (\<lambda>(_, s'). Inr s'))"

section \<open>Committing a rewrite\<close>

text \<open>
  The transcript changes only when the CLI has loaded the kept prefix into a new session: the edited
  message and all that follows is replaced by the new message. A duplicate report changes nothing.
\<close>

definition holds_session :: "string \<Rightarrow> string \<Rightarrow> db \<Rightarrow> Session_row \<Rightarrow> bool" where
  "holds_session i oid d r \<longleftrightarrow> se_id r = i \<and> se_operation_id r = oid \<and>
     se_status r \<in> {''queued'', ''running'', ''interrupting'', ''interrupted''} \<and> operation_active oid (operations d)"

definition replace_suffix :: "string \<Rightarrow> string list \<Rightarrow> string \<Rightarrow> string \<Rightarrow> string \<Rightarrow> (int \<Rightarrow> json) \<Rightarrow> instant \<Rightarrow> db \<Rightarrow> go_error + StreamEvent \<times> db" where
  "replace_suffix i kinds editID replacementID kind payload now d =
     (case find (\<lambda>e. StreamID e = i \<and> EventID e = editID \<and> EventKind e \<in> set kinds) (events d) of
        None \<Rightarrow> Inl ErrInvalidEditTarget
      | Some target \<Rightarrow>
          (let last = max_sequence (stream_events i d);
               d1 = d\<lparr>events := filter (\<lambda>e. \<not> (StreamID e = i \<and> Sequence target \<le> Sequence e)) (events d)\<rparr>;
               event = \<lparr>EventID = replacementID, StreamID = i, Sequence = last + 1, EventKind = kind, OccurredAt = now,
                        EventPayload = Some (payload (Sequence target))\<rparr>
           in try_then (insert_event event d1) (\<lambda>d2. Inr (event, d2))))"

text \<open>The command of the operation, and the rewrite it asks for.\<close>

definition gemini_rewrite_of :: "Operation \<Rightarrow> go_error + GeminiTurnCommand" where
  "gemini_rewrite_of op =
     (case (case stored_json (o_payload op) of None \<Rightarrow> None | Some d \<Rightarrow> decode_GeminiTurnCommand d) of
        None \<Rightarrow> Inl BadJSON | Some command \<Rightarrow> Inr command)"

definition claude_rewrite_of :: "Operation \<Rightarrow> go_error + ClaudeTurnCommand" where
  "claude_rewrite_of op =
     (case (case stored_json (o_payload op) of None \<Rightarrow> None | Some d \<Rightarrow> decode_ClaudeTurnCommand d) of
        None \<Rightarrow> Inl ErrInvalidEditTarget | Some command \<Rightarrow> Inr command)"

text \<open>The replacement, unless it is there already.\<close>

definition replace_once ::
    "string \<Rightarrow> string list \<Rightarrow> string \<Rightarrow> string \<Rightarrow> string \<Rightarrow> (int \<Rightarrow> json) \<Rightarrow> instant \<Rightarrow> db \<Rightarrow> go_error + StreamEvent option \<times> db" where
  "replace_once i kinds editID replacementID kind payload now d =
     (if list_ex (\<lambda>e. StreamID e = i \<and> EventID e = replacementID) (events d) then Inr (None, d)
      else try_then (replace_suffix i kinds editID replacementID kind payload now d) (\<lambda>(e, d'). Inr (Some e, d')))"

definition CommitGeminiRewrite :: "string \<Rightarrow> string \<Rightarrow> string \<Rightarrow> instant \<Rightarrow> turn_db \<Rightarrow> go_error + StreamEvent option \<times> turn_db" where
  "CommitGeminiRewrite i oid sessionID now s =
     try_then (find_row (\<lambda>o1. o_id o1 = oid \<and> o_kind o1 = ''gemini.turn.rewrite'') (operations (base s))) (\<lambda>op.
     try_then (gemini_rewrite_of op) (\<lambda>command.
     try_then (require (gt_ThreadID command = i \<and> gt_Rewrite command \<noteq> None \<and> sessionID \<noteq> [] \<and> sessionID \<noteq> gt_SessionID command)
         ErrInvalidEditTarget) (\<lambda>_.
     (case update_rows (holds_session i oid (base s)) (\<lambda>r. r\<lparr>se_session_id := sessionID, se_updated_at := now\<rparr>) (gemini_threads s) of
       (n, rows) \<Rightarrow>
         try_then (require (n = 1) ErrThreadActive) (\<lambda>_.
         try_then (replace_once i [''gemini.user.message''] (gr_EventID (the (gt_Rewrite command))) (oid @ '':user'') ''gemini.user.message''
             (\<lambda>_. JObj [(''history_rewritten'', JBool True), (''images'', encode_images (gt_Images command)),
                        (''operation_id'', JStr oid), (''text'', JStr (gt_Prompt command))]) now (base s)) (\<lambda>(e, d).
         Inr (e, s\<lparr>gemini_threads := rows, base := d\<rparr>)))))))"

definition CommitClaudeRewrite ::
    "(string \<Rightarrow> bool) \<Rightarrow> string \<Rightarrow> string \<Rightarrow> string \<Rightarrow> instant \<Rightarrow> turn_db \<Rightarrow> go_error + StreamEvent option \<times> turn_db" where
  "CommitClaudeRewrite uuid_ok i oid sessionID now s =
     try_then (require (uuid_ok sessionID) ErrInvalidEditTarget) (\<lambda>_.
     try_then (require (length (filter (\<lambda>o1. o_id o1 = oid \<and> o_kind o1 = ''claude.turn.start'' \<and> active o1) (operations (base s))) = 1)
         ErrThreadActive) (\<lambda>_.
     try_then (find_row (\<lambda>o1. o_id o1 = oid \<and> o_kind o1 = ''claude.turn.start'') (operations (base s))) (\<lambda>op.
     try_then (claude_rewrite_of op) (\<lambda>command.
     try_then (require (ct_ThreadID command = i \<and> ct_Rewrite command \<noteq> None \<and> ct_SessionID command \<noteq> [] \<and> ct_SessionID command \<noteq> sessionID)
         ErrInvalidEditTarget) (\<lambda>_.
     (case update_rows (\<lambda>r. holds_session i oid (base s) r \<and> se_session_id r \<in> {ct_SessionID command, sessionID})
         (\<lambda>r. r\<lparr>se_session_id := sessionID, se_updated_at := now\<rparr>) (claude_threads s) of
       (n, rows) \<Rightarrow>
         try_then (require (n = 1) ErrThreadActive) (\<lambda>_.
         try_then (replace_once i [''claude.user.message'', ''claude.steer.applied''] (cr_EventID (the (ct_Rewrite command))) (oid @ '':user'')
             ''claude.user.message''
             (\<lambda>sequence. JObj [(''history_rewritten'', JBool True), (''images'', encode_images (ct_Images command)),
                (''operation_id'', JStr oid), (''replaced_sequence'', JNum sequence 0), (''text'', JStr (ct_Prompt command))])
             now (base s)) (\<lambda>(e, d).
         Inr (e, s\<lparr>base := d, claude_threads := (if e = None then rows else map (\<lambda>r. if se_id r = i
            then r\<lparr>se_fork_snapshot_id := [], se_fork_session_id := []\<rparr> else r) rows)\<rparr>)))))))))"

section \<open>What goals and events leave alone\<close>

lemma store_goals_frame:
  "store_goals gs s = Inr s' \<Longrightarrow> s' = s\<lparr>gemini_goals := gs\<rparr> \<and> goals_ok gs"
  by (auto simp: store_goals_def split: if_splits)

lemma update_goals_frame:
  assumes "update_goals sel f s = Inr (n, s')"
  shows "base s' = base s \<and> gemini_threads s' = gemini_threads s \<and> claude_threads s' = claude_threads s"
  using assms by (auto simp: update_goals_def try_then_Inr_iff split: prod.splits dest!: store_goals_frame)

lemma claim_goal_frame:
  assumes "claimGeminiGoal threadID opID goal images newID now s = Inr (x, s')"
  shows "base s' = base s \<and> gemini_threads s' = gemini_threads s \<and> claude_threads s' = claude_threads s"
  using assms
  by (auto simp: claimGeminiGoal_def try_then_Inr_iff split: if_splits option.splits
      dest!: store_goals_frame update_goals_frame)

lemma goal_step_frame:
  assumes "gemini_goal_step threadID opID goal images newID now s = Inr (x, s')"
  shows "base s' = base s \<and> gemini_threads s' = gemini_threads s \<and> claude_threads s' = claude_threads s"
  using assms
  by (auto simp: gemini_goal_step_def try_then_Inr_iff split: option.splits dest!: claim_goal_frame)

lemma append_event_frame:
  "append_event eid i k now p d = Inr (e, d') \<Longrightarrow> d' = d\<lparr>events := events d @ [e]\<rparr>"
  by (auto simp: append_event_def Let_def try_then_Inr_iff insert_event_def split: if_splits)

end
