(* ===== verification/Task_Store.thy ===== *)
theory Task_Store
  imports Turn_Store
begin

text \<open>
  The scheduled tasks, internal/store/scheduled_tasks.go: the view that joins a task with its session,
  workspace, project and server over the three tables, creation, change and deletion, the due tasks,
  the claim of a due task and the record of a run.
\<close>

section \<open>Views\<close>

record ScheduledTask =
  tv_row :: Task_row
  tv_AgentKind :: agent_kind
  tv_ThinkingLevel :: string
  tv_ThreadTitle :: string
  tv_WorkspaceID :: string
  tv_ProjectID :: string
  tv_ProjectName :: string
  tv_ServerName :: string
  tv_ServerStatus :: string
  tv_CodexThreadID :: string
  tv_WorkspacePath :: string

text \<open>The columns of a session that the view shows: title, workspace and native identifier.\<close>

definition task_session :: "agent_kind \<Rightarrow> string \<Rightarrow> turn_db \<Rightarrow> (string \<times> string \<times> string) option" where
  "task_session kind i s =
     (case kind of
        Codex \<Rightarrow> map_option (\<lambda>t. (t_title t, t_workspace_id t, t_codex_thread_id t)) (find (\<lambda>t. t_id t = i) (threads (base s)))
      | Gemini \<Rightarrow> map_option (\<lambda>t. (se_title t, se_workspace_id t, se_session_id t)) (find (\<lambda>t. se_id t = i) (gemini_threads s))
      | Claude \<Rightarrow> map_option (\<lambda>t. (se_title t, se_workspace_id t, se_session_id t)) (find (\<lambda>t. se_id t = i) (claude_threads s)))"

definition task_view :: "agent_kind \<Rightarrow> turn_db \<Rightarrow> Task_row \<Rightarrow> ScheduledTask option" where
  "task_view kind s k =
     (case task_session kind (k_thread_id k) s of None \<Rightarrow> None | Some (title, workspaceID, native) \<Rightarrow>
      case find (\<lambda>w. w_id w = workspaceID) (workspaces (base s)) of None \<Rightarrow> None | Some w \<Rightarrow>
      case find (\<lambda>p. p_id p = w_project_id w) (projects (base s)) of None \<Rightarrow> None | Some p \<Rightarrow>
      case find (\<lambda>v. s_id v = k_server_id k) (servers (base s)) of None \<Rightarrow> None | Some v \<Rightarrow>
        Some \<lparr>tv_row = k, tv_AgentKind = kind, tv_ThinkingLevel = (if kind = Gemini then k_thinking_level k else []),
              tv_ThreadTitle = title, tv_WorkspaceID = workspaceID, tv_ProjectID = w_project_id w, tv_ProjectName = p_name p,
              tv_ServerName = s_name v, tv_ServerStatus = s_status v, tv_CodexThreadID = native, tv_WorkspacePath = w_path w\<rparr>)"

definition views_of :: "agent_kind \<Rightarrow> turn_db \<Rightarrow> ScheduledTask list" where
  "views_of kind s = List.map_filter (task_view kind s) (tasks (base s) kind)"

definition scheduledTaskSelect :: "turn_db \<Rightarrow> ScheduledTask list" where
  "scheduledTaskSelect s = views_of Codex s @ views_of Gemini s @ views_of Claude s"

definition get_ScheduledTask :: "string \<Rightarrow> turn_db \<Rightarrow> go_error + ScheduledTask" where
  "get_ScheduledTask i s = find_row (\<lambda>v. k_id (tv_row v) = i) (scheduledTaskSelect s)"

definition task_list_key :: "ScheduledTask \<Rightarrow> nat \<times> int \<times> int" where
  "task_list_key v = (if k_enabled (tv_row v) then 0 else 1, k_next_run_at (tv_row v), - k_updated_at (tv_row v))"

definition ListScheduledTasks :: "turn_db \<Rightarrow> ScheduledTask list" where
  "ListScheduledTasks s = order_by task_list_key (scheduledTaskSelect s)"

definition task_due :: "instant \<Rightarrow> Task_row \<Rightarrow> bool" where
  "task_due now k \<longleftrightarrow> k_enabled k \<and> k_next_run_at k \<le> now"

definition DueScheduledTasks :: "instant \<Rightarrow> int \<Rightarrow> turn_db \<Rightarrow> ScheduledTask list" where
  "DueScheduledTasks now limit s =
     take (nat (if limit \<le> 0 \<or> limit > 100 then 100 else limit))
       (order_by (\<lambda>v. k_next_run_at (tv_row v)) (filter (\<lambda>v. task_due now (tv_row v)) (scheduledTaskSelect s)))"

section \<open>Changes\<close>

record ScheduledTaskInput =
  ti_ThinkingLevel :: string
  ti_AgentKind :: string
  ti_ThreadID :: string
  ti_Name :: string
  ti_Prompt :: string
  ti_Schedule :: string
  ti_Timezone :: string
  ti_Enabled :: bool
  ti_Model :: string
  ti_ReasoningEffort :: string
  ti_ApprovalMode :: string

definition scheduledTable :: "string \<Rightarrow> agent_kind" where
  "scheduledTable kind = (if kind = ''claude'' then Claude else if kind = ''gemini'' then Gemini else Codex)"

definition scheduledThread :: "string \<Rightarrow> string \<Rightarrow> instant \<Rightarrow> turn_db \<Rightarrow> go_error + string \<times> string" where
  "scheduledThread kind i now s =
     (if kind = ''claude'' then try_then (get_ClaudeThread i now s) (\<lambda>t. Inr (se_id (v_row t), v_ServerID t))
      else if kind = ''gemini'' then try_then (get_GeminiThread i now s) (\<lambda>t. Inr (se_id (v_row t), v_ServerID t))
      else if kind \<noteq> [] \<and> kind \<noteq> ''codex'' then Inl (Err ''invalid scheduled Agent kind'')
      else try_then (get_Thread i (base s)) (\<lambda>t. Inr (th_ID t, th_ServerID t)))"

definition update_tasks :: "agent_kind \<Rightarrow> (Task_row \<Rightarrow> bool) \<Rightarrow> (Task_row \<Rightarrow> Task_row) \<Rightarrow> turn_db \<Rightarrow> nat \<times> turn_db" where
  "update_tasks kind sel f s =
     (length (filter sel (tasks (base s) kind)),
      s\<lparr>base := (base s)\<lparr>tasks := (tasks (base s))(kind := map (\<lambda>k. if sel k then f k else k) (tasks (base s) kind))\<rparr>\<rparr>)"

definition task_of_input :: "ScheduledTaskInput \<Rightarrow> string \<Rightarrow> string \<Rightarrow> string \<Rightarrow> instant \<Rightarrow> instant \<Rightarrow> Task_row" where
  "task_of_input input i threadID serverID nextRunAt now =
     \<lparr>k_id = i, k_thread_id = threadID, k_server_id = serverID, k_name = ti_Name input, k_prompt = ti_Prompt input,
      k_schedule = ti_Schedule input, k_timezone = ti_Timezone input, k_enabled = ti_Enabled input, k_model = ti_Model input,
      k_reasoning_effort = ti_ReasoningEffort input, k_approval_mode = ti_ApprovalMode input,
      k_thinking_level = ti_ThinkingLevel input, k_next_run_at = nextRunAt, k_last_run_at = None, k_last_run_status = [],
      k_last_run_message = [], k_last_operation_id = [], k_created_at = now, k_updated_at = now\<rparr>"

definition CreateScheduledTask ::
    "ScheduledTaskInput \<Rightarrow> instant \<Rightarrow> string \<Rightarrow> instant \<Rightarrow> turn_db \<Rightarrow> go_error + ScheduledTask \<times> turn_db" where
  "CreateScheduledTask input nextRunAt newID now s =
     try_then (scheduledThread (ti_AgentKind input) (ti_ThreadID input) now s) (\<lambda>(threadID, serverID).
     try_then (require (trim_space (ti_Name input) \<noteq> [] \<and> trim_space (ti_Prompt input) \<noteq> [])
         (Err ''scheduled task name and prompt are required'')) (\<lambda>_.
     let kind = scheduledTable (ti_AgentKind input) in
     try_then (require (newID \<notin> set (map k_id (tasks (base s) kind))) ConstraintFailed) (\<lambda>_.
     let s' = s\<lparr>base := (base s)\<lparr>tasks := (tasks (base s))(kind := tasks (base s) kind @
                 [task_of_input input newID threadID serverID nextRunAt now])\<rparr>\<rparr> in
     try_then (get_ScheduledTask newID s') (\<lambda>v. Inr (v, s')))))"

definition UpdateScheduledTask ::
    "string \<Rightarrow> ScheduledTaskInput \<Rightarrow> instant \<Rightarrow> instant \<Rightarrow> turn_db \<Rightarrow> go_error + ScheduledTask \<times> turn_db" where
  "UpdateScheduledTask i input nextRunAt now s =
     try_then (scheduledThread (ti_AgentKind input) (ti_ThreadID input) now s) (\<lambda>(threadID, serverID).
     case update_tasks (scheduledTable (ti_AgentKind input)) (\<lambda>k. k_id k = i)
         (\<lambda>k. (task_of_input input i threadID serverID nextRunAt now)
            \<lparr>k_last_run_at := k_last_run_at k, k_last_run_status := k_last_run_status k, k_last_run_message := k_last_run_message k,
             k_last_operation_id := k_last_operation_id k, k_created_at := k_created_at k\<rparr>) s of
       (n, s') \<Rightarrow>
         try_then (require (n \<noteq> 0) ErrNoRows) (\<lambda>_.
         try_then (get_ScheduledTask i s') (\<lambda>v. Inr (v, s'))))"

definition DeleteScheduledTask :: "string \<Rightarrow> turn_db \<Rightarrow> go_error + turn_db" where
  "DeleteScheduledTask i s =
     try_then (get_ScheduledTask i s) (\<lambda>v.
     let kind = tv_AgentKind v in
     try_then (require (list_ex (\<lambda>k. k_id k = i) (tasks (base s) kind)) ErrNoRows) (\<lambda>_.
     Inr (s\<lparr>base := (base s)\<lparr>tasks := (tasks (base s))(kind := filter (\<lambda>k. k_id k \<noteq> i) (tasks (base s) kind))\<rparr>\<rparr>)))"

section \<open>Runs\<close>

text \<open>The next run is set only while the task is still due at the time that was read.\<close>

definition claimable_task :: "string \<Rightarrow> instant \<Rightarrow> Task_row \<Rightarrow> bool" where
  "claimable_task i expected k \<longleftrightarrow> k_id k = i \<and> k_enabled k \<and> k_next_run_at k \<le> expected + 1"

definition ClaimScheduledTask :: "string \<Rightarrow> instant \<Rightarrow> instant \<Rightarrow> instant \<Rightarrow> turn_db \<Rightarrow> go_error + bool \<times> turn_db" where
  "ClaimScheduledTask i expected next now s =
     try_then (get_ScheduledTask i s) (\<lambda>v.
     case update_tasks (tv_AgentKind v) (claimable_task i expected) (\<lambda>k. k\<lparr>k_next_run_at := next, k_updated_at := now\<rparr>) s of
       (n, s') \<Rightarrow> Inr (0 < n, s'))"

definition MarkScheduledTaskRun :: "string \<Rightarrow> string \<Rightarrow> string \<Rightarrow> string \<Rightarrow> instant \<Rightarrow> instant \<Rightarrow> turn_db \<Rightarrow> go_error + turn_db" where
  "MarkScheduledTaskRun i status message oid at now s =
     try_then (get_ScheduledTask i s) (\<lambda>v.
     Inr (snd (update_tasks (tv_AgentKind v) (\<lambda>k. k_id k = i)
       (\<lambda>k. k\<lparr>k_last_run_at := Some at, k_last_run_status := status, k_last_run_message := message, k_last_operation_id := oid,
              k_updated_at := now\<rparr>) s)))"

definition run_pending :: "Task_row \<Rightarrow> bool" where
  "run_pending k \<longleftrightarrow> k_last_run_status k \<in> {''queued'', ''running''}"

definition mark_pending :: "(Task_row \<Rightarrow> bool) \<Rightarrow> string \<Rightarrow> string \<Rightarrow> instant \<Rightarrow> agent_kind \<Rightarrow> turn_db \<Rightarrow> turn_db" where
  "mark_pending sel status message now kind s =
     snd (update_tasks kind (\<lambda>k. sel k \<and> run_pending k)
       (\<lambda>k. k\<lparr>k_last_run_status := status, k_last_run_message := message, k_updated_at := now\<rparr>) s)"

definition MarkScheduledTaskByOperation :: "string \<Rightarrow> string \<Rightarrow> string \<Rightarrow> instant \<Rightarrow> turn_db \<Rightarrow> turn_db" where
  "MarkScheduledTaskByOperation oid status message now s =
     (if trim_space oid = [] then s
      else fold (mark_pending (\<lambda>k. k_last_operation_id k = oid) status message now) [Codex, Gemini, Claude] s)"

definition MarkScheduledTaskByThread :: "string \<Rightarrow> string \<Rightarrow> string \<Rightarrow> instant \<Rightarrow> turn_db \<Rightarrow> turn_db" where
  "MarkScheduledTaskByThread threadID status message now s =
     (if trim_space threadID = [] then s
      else mark_pending (\<lambda>k. k_thread_id k = threadID) status message now Codex s)"

text \<open>The session that a Codex turn is for: payloads that cannot be read are skipped.\<close>

definition codex_turn_thread :: "Operation \<Rightarrow> string option" where
  "codex_turn_thread o1 =
     (case stored_json (o_payload o1) of None \<Rightarrow> None | Some p \<Rightarrow>
        (case (str_field ''thread_id'' p, nested_str ''start'' ''thread_id'' p) of
           (Some direct, Some nested) \<Rightarrow> Some (if o_kind o1 = ''codex.turn.rewrite'' then nested else direct)
         | _ \<Rightarrow> None))"

definition ActiveCodexTurnOperation :: "string \<Rightarrow> db \<Rightarrow> go_error + Operation" where
  "ActiveCodexTurnOperation threadID d =
     find_row (\<lambda>o1. codex_turn_thread o1 = Some threadID)
       (take 100 (order_by_desc o_created_at
          (filter (\<lambda>o1. o_kind o1 \<in> {''codex.turn.start'', ''codex.turn.rewrite''} \<and> active o1) (operations d))))"

end
