(* ===== verification/Scheduler.thy ===== *)
theory Scheduler
  imports Task_Store Cron_Schedule
begin

text \<open>
  The runner of scheduled tasks, internal/scheduler/scheduler.go, and the thinking levels of
  internal/geminiapi/thinking.go: a tick claims every due task by moving its next run and starts a turn
  of its session, or records why it did not. The statements of one start are separate transactions.

  Parameters: \<open>zones\<close> is the time zone database, \<open>error_text\<close> and \<open>schedule_text\<close> are the texts of
  errors, \<open>rfc3339\<close> prints a time and \<open>rfc3339_ok\<close> checks one. \<open>newOp\<close> and \<open>newEvent\<close> are the fresh
  identifiers of the turn and its message, \<open>clock\<close> is the time at which its statements run, \<open>now\<close> the
  time of the tick.
\<close>

section \<open>Thinking levels\<close>

text \<open>
  \<open>strings.ToLower\<close> as far as ASCII tests can see it: two letters outside ASCII have an ASCII lower
  case, the Kelvin sign and the dotted capital I; every other one stays outside ASCII.
\<close>

fun to_lower :: "string \<Rightarrow> string" where
  "to_lower [] = []"
| "to_lower (c # cs) =
     (if c = CHR 0xC4 \<and> cs \<noteq> [] \<and> hd cs = CHR 0xB0 then CHR ''i'' # to_lower (tl cs)
      else if c = CHR 0xE2 \<and> take 2 cs = [CHR 0x84, CHR 0xAA] then CHR ''k'' # to_lower (drop 2 cs)
      else if CHR ''A'' \<le> c \<and> c \<le> CHR ''Z'' then char_of (of_char c + 32 :: nat) # to_lower cs
      else c # to_lower cs)"

definition has_suffix :: "string \<Rightarrow> string \<Rightarrow> bool" where
  "has_suffix s p \<longleftrightarrow> has_prefix (rev s) (rev p)"

definition thinking_levels :: "string list" where
  "thinking_levels = [''minimal'', ''low'', ''medium'', ''high'']"

definition PresetThinkingLevel :: "string \<Rightarrow> string" where
  "PresetThinkingLevel model =
     (case find (\<lambda>level. has_suffix (to_lower model) (''-'' @ level)) thinking_levels of None \<Rightarrow> [] | Some level \<Rightarrow> level)"

definition ValidThinkingLevel :: "string \<Rightarrow> string \<Rightarrow> bool" where
  "ValidThinkingLevel model level \<longleftrightarrow>
     (if level = [] then True
      else if level \<notin> set thinking_levels then False
      else if PresetThinkingLevel model \<noteq> [] then level = PresetThinkingLevel model
      else (let m = to_lower model in
        if m = ''auto'' \<or> has_prefix m ''gemini-2.'' \<or> contains_str m ''-image'' then False
        else if has_prefix m ''gemini-3-pro'' \<and> level \<noteq> ''low'' \<and> level \<noteq> ''high'' then False
        else True))"

section \<open>Starting a task\<close>

text \<open>An error of the statement is ignored: it leaves the database as it was.\<close>

definition ignoring :: "turn_db \<Rightarrow> go_error + turn_db \<Rightarrow> turn_db" where
  "ignoring s r = (case r of Inl _ \<Rightarrow> s | Inr s' \<Rightarrow> s')"

definition mark_run :: "ScheduledTask \<Rightarrow> string \<Rightarrow> string \<Rightarrow> string \<Rightarrow> instant \<Rightarrow> instant \<Rightarrow> turn_db \<Rightarrow> turn_db" where
  "mark_run task status message oid now clock s =
     ignoring s (MarkScheduledTaskRun (k_id (tv_row task)) status message oid now clock s)"

definition normalizedApprovalMode :: "string \<Rightarrow> string" where
  "normalizedApprovalMode value =
     (let v = trim_space value in if v = ''untrusted'' \<or> v = ''never'' then v else ''on-request'')"

definition first_of :: "string \<Rightarrow> string \<Rightarrow> string" where
  "first_of a b = (if a = [] then b else a)"

text \<open>The operation that the event of a queued turn names.\<close>

definition event_operation :: "StreamEvent option \<Rightarrow> string" where
  "event_operation e =
     (case e of None \<Rightarrow> [] | Some ev \<Rightarrow>
        (case EventPayload ev of None \<Rightarrow> [] | Some p \<Rightarrow> or_empty (str_field ''operation_id'' p)))"

definition enqueueGemini ::
    "(string \<Rightarrow> bool) \<Rightarrow> ScheduledTask \<Rightarrow> string \<Rightarrow> string \<Rightarrow> instant \<Rightarrow> instant \<Rightarrow> turn_db \<Rightarrow> turn_db" where
  "enqueueGemini rfc3339_ok task newOp newEvent now clock s =
     (let k = tv_row task; skip = (\<lambda>status message. mark_run task status message [] now clock s) in
      case get_GeminiThread (k_thread_id k) clock s of
        Inl _ \<Rightarrow> skip ''failed'' ''Gemini session no longer exists''
      | Inr thread \<Rightarrow>
          if \<not> v_ServerOnline thread \<or> se_archived_at (v_row thread) \<noteq> None \<or> se_status (v_row thread) \<in> {''queued'', ''running'', ''interrupting''}
          then skip ''skipped'' ''Gemini session is offline, archived or active''
          else if \<not> SupportsGemini (v_AgentVersion thread) then skip ''failed'' ''update Gemini Agent first''
          else
            (let model = first_of (k_model k) (se_model (v_row thread));
                 mode = first_of (k_approval_mode k) (se_mode (v_row thread)) in
             if mode = ''yolo'' \<and> \<not> SupportsGeminiYolo (v_AgentVersion thread)
             then skip ''failed'' ''update Gemini Agent to 0.2.72 or newer to use Gemini without approvals''
             else
               (let level = (if tv_ThinkingLevel task \<noteq> [] then tv_ThinkingLevel task
                             else if ValidThinkingLevel model (se_level (v_row thread)) then se_level (v_row thread) else []) in
                if level \<noteq> [] \<and> \<not> SupportsGeminiThinking (v_AgentVersion thread)
                then skip ''failed'' ''update Gemini Agent to configure thinking''
                else case queueGeminiTurn rfc3339_ok thread (k_prompt k) model mode [] None None level newOp newEvent [] clock s of
                  Inl _ \<Rightarrow> skip ''skipped'' ''Gemini workspace is busy or unavailable''
                | Inr (event, s1) \<Rightarrow> mark_run task ''queued'' [] (event_operation event) now clock s1)))"

definition enqueueClaude ::
    "(instant \<Rightarrow> string) \<Rightarrow> (string \<Rightarrow> bool) \<Rightarrow> ScheduledTask \<Rightarrow> string \<Rightarrow> string \<Rightarrow> instant \<Rightarrow> instant \<Rightarrow> turn_db \<Rightarrow> turn_db" where
  "enqueueClaude rfc3339 uuid_ok task newOp newEvent now clock s =
     (let k = tv_row task; skip = (\<lambda>status message. mark_run task status message [] now clock s) in
      case get_ClaudeThread (k_thread_id k) clock s of
        Inl _ \<Rightarrow> skip ''failed'' ''Claude session no longer exists''
      | Inr t \<Rightarrow>
          if \<not> v_ServerOnline t \<or> se_archived_at (v_row t) \<noteq> None \<or> v_RecoveryPending t \<or> se_status (v_row t) \<in> {''queued'', ''running'', ''interrupting''}
          then skip ''skipped'' ''Claude session is offline, archived or active''
          else if \<not> SupportsClaudeInput (v_AgentVersion t) then skip ''failed'' ''update Claude Agent to 0.2.93''
          else case queueClaudeInput rfc3339 uuid_ok t [] (k_prompt k) (first_of (k_model k) (se_model (v_row t)))
                 (first_of (k_approval_mode k) (se_mode (v_row t))) (k_reasoning_effort k) None newOp newEvent clock s of
            Inl _ \<Rightarrow> skip ''skipped'' ''Claude workspace is busy or unavailable''
          | Inr (event, s1) \<Rightarrow> mark_run task ''queued'' [] (event_operation event) now clock s1)"

definition codex_command :: "Thread \<Rightarrow> ScheduledTask \<Rightarrow> StartTurnCommand" where
  "codex_command thread task =
     \<lparr>TurnThreadID = th_ID thread, TurnCodexThread = th_CodexThreadID thread, TurnWorkspaceID = th_WorkspaceID thread,
      TurnWorkspace = th_Path thread, TurnPrompt = k_prompt (tv_row task), TurnImages = [], TurnModel = k_model (tv_row task),
      TurnReasoningEffort = k_reasoning_effort (tv_row task), TurnApprovalMode = normalizedApprovalMode (k_approval_mode (tv_row task))\<rparr>"

definition idle_thread :: "string \<Rightarrow> instant \<Rightarrow> turn_db \<Rightarrow> turn_db" where
  "idle_thread i clock s = s\<lparr>base := SetThreadStatus i ''idle'' clock (base s)\<rparr>"

definition enqueue_codex ::
    "(go_error \<Rightarrow> string) \<Rightarrow> (instant \<Rightarrow> string) \<Rightarrow> ScheduledTask \<Rightarrow> string \<Rightarrow> string \<Rightarrow> instant \<Rightarrow> instant \<Rightarrow> turn_db \<Rightarrow> turn_db" where
  "enqueue_codex error_text rfc3339 task newOp newEvent now clock s =
     (let k = tv_row task; skip = (\<lambda>status message. mark_run task status message [] now clock s) in
      if tv_ServerStatus task \<noteq> ''online'' then skip ''skipped'' ''server is offline''
      else case get_Thread (k_thread_id k) (base s) of
        Inl e \<Rightarrow> skip ''failed'' (if e = ErrNoRows then ''Codex session no longer exists'' else error_text e)
      | Inr thread \<Rightarrow>
          if th_ArchivedAt thread \<noteq> None then skip ''skipped'' ''Codex session is archived''
          else case ClaimThreadForTurn (th_ID thread) clock (base s) of
            Inl e \<Rightarrow> (if e = ErrThreadActive then skip ''skipped'' ''Codex session is already active'' else skip ''failed'' (error_text e))
          | Inr d1 \<Rightarrow>
              (case QueueResourceOperation (th_ServerID thread) ''codex.turn.start'' (encode_StartTurnCommand (codex_command thread task))
                  (''codex-scheduled:'' @ k_id k @ '':'' @ rfc3339 now) \<lparr>ProjectID = [], WorkspaceID = [], ThreadID = th_ID thread\<rparr> False newOp clock d1 of
                Inl e \<Rightarrow> mark_run task ''failed'' (error_text e) [] now clock (idle_thread (th_ID thread) clock (s\<lparr>base := d1\<rparr>))
              | Inr (oid, d2) \<Rightarrow>
                  (case AddEvent newEvent clock \<lparr>EventID = [], StreamID = th_ID thread, Sequence = 0, EventKind = ''user.message'',
                       OccurredAt = zero_time, EventPayload = Some (JObj [(''scheduled_task_id'', JStr (k_id k)), (''text'', JStr (k_prompt k))])\<rparr> d2 of
                     Inl e \<Rightarrow> mark_run task ''failed'' (error_text e) oid now clock
                       (idle_thread (th_ID thread) clock (s\<lparr>base :=
                          (case CancelOperation oid ''could not record scheduled Codex prompt'' clock d2 of Inl _ \<Rightarrow> d2 | Inr (_, d3) \<Rightarrow> d3)\<rparr>))
                   | Inr (_, d3) \<Rightarrow> mark_run task ''queued'' [] oid now clock (s\<lparr>base := d3\<rparr>))))"

definition enqueue ::
    "(go_error \<Rightarrow> string) \<Rightarrow> (instant \<Rightarrow> string) \<Rightarrow> (string \<Rightarrow> bool) \<Rightarrow> (string \<Rightarrow> bool) \<Rightarrow> ScheduledTask \<Rightarrow> string \<Rightarrow> string \<Rightarrow>
     instant \<Rightarrow> instant \<Rightarrow> turn_db \<Rightarrow> turn_db" where
  "enqueue error_text rfc3339 rfc3339_ok uuid_ok task newOp newEvent now clock s =
     (case tv_AgentKind task of
        Claude \<Rightarrow> enqueueClaude rfc3339 uuid_ok task newOp newEvent now clock s
      | Gemini \<Rightarrow> enqueueGemini rfc3339_ok task newOp newEvent now clock s
      | Codex \<Rightarrow> enqueue_codex error_text rfc3339 task newOp newEvent now clock s)"

section \<open>The tick\<close>

text \<open>The next run of a task; the search always ends, so the last case does not occur.\<close>

definition next_run :: "(string \<Rightarrow> location option) \<Rightarrow> Task_row \<Rightarrow> instant \<Rightarrow> schedule_error + instant" where
  "next_run zones k now = (case Next zones (k_schedule k) (k_timezone k) now of Some r \<Rightarrow> r | None \<Rightarrow> Inl NoMatchingTime)"

record tick_env =
  env_zones :: "string \<Rightarrow> location option"
  env_error_text :: "go_error \<Rightarrow> string"
  env_schedule_text :: "schedule_error \<Rightarrow> string"
  env_rfc3339 :: "instant \<Rightarrow> string"
  env_rfc3339_ok :: "string \<Rightarrow> bool"
  env_uuid_ok :: "string \<Rightarrow> bool"
  env_newOp :: "nat \<Rightarrow> string"
  env_newEvent :: "nat \<Rightarrow> string"
  env_clock :: "nat \<Rightarrow> instant"

definition run_task :: "tick_env \<Rightarrow> instant \<Rightarrow> nat \<Rightarrow> ScheduledTask \<Rightarrow> turn_db \<Rightarrow> turn_db" where
  "run_task env now n task s =
     (let k = tv_row task; clock = env_clock env n in
      case next_run (env_zones env) k now of
        Inl e \<Rightarrow> mark_run task ''failed'' (env_schedule_text env e) [] now clock s
      | Inr next \<Rightarrow>
          (case ClaimScheduledTask (k_id k) (k_next_run_at k) next clock s of
             Inl _ \<Rightarrow> s
           | Inr (claimed, s1) \<Rightarrow>
               if \<not> claimed then s1
               else enqueue (env_error_text env) (env_rfc3339 env) (env_rfc3339_ok env) (env_uuid_ok env) task
                      (env_newOp env n) (env_newEvent env n) now clock s1))"

fun run_tasks :: "tick_env \<Rightarrow> instant \<Rightarrow> nat \<Rightarrow> ScheduledTask list \<Rightarrow> turn_db \<Rightarrow> turn_db" where
  "run_tasks env now n [] s = s"
| "run_tasks env now n (task # rest) s = run_tasks env now (Suc n) rest (run_task env now n task s)"

definition tick :: "tick_env \<Rightarrow> instant \<Rightarrow> turn_db \<Rightarrow> turn_db" where
  "tick env now s = run_tasks env now 0 (DueScheduledTasks now 100 s) s"

end
