(* ===== verification/Scheduler_Runs.thy ===== *)
theory Scheduler_Runs
  imports Scheduler
begin

text \<open>
  The properties of scheduled runs: a due time is claimed at most once, however many runners work on
  the same database, and a tick moves every due task to its next run and records an outcome.
\<close>

section \<open>What starting a task leaves alone\<close>

definition task_keys :: "Task_row \<Rightarrow> string \<times> string \<times> string \<times> bool \<times> string \<times> string" where
  "task_keys k = (k_id k, k_thread_id k, k_server_id k, k_enabled k, k_schedule k, k_timezone k)"

definition session_keys :: "Session_row \<Rightarrow> string \<times> string" where
  "session_keys r = (se_id r, se_workspace_id r)"

text \<open>Everything that the joined view of the tasks rests on; \<open>times_kept\<close> adds the next runs.\<close>

definition plain :: "db \<Rightarrow> db \<Rightarrow> bool" where
  "plain d d' \<longleftrightarrow> servers d' = servers d \<and> projects d' = projects d \<and> workspaces d' = workspaces d \<and>
     map (\<lambda>t. (t_id t, t_workspace_id t)) (threads d') = map (\<lambda>t. (t_id t, t_workspace_id t)) (threads d)"

definition joins_kept :: "turn_db \<Rightarrow> turn_db \<Rightarrow> bool" where
  "joins_kept s s' \<longleftrightarrow> plain (base s) (base s') \<and>
     (\<forall>kind. map task_keys (tasks (base s') kind) = map task_keys (tasks (base s) kind)) \<and>
     map session_keys (gemini_threads s') = map session_keys (gemini_threads s) \<and>
     map session_keys (claude_threads s') = map session_keys (claude_threads s)"

definition times_kept :: "turn_db \<Rightarrow> turn_db \<Rightarrow> bool" where
  "times_kept s s' \<longleftrightarrow> joins_kept s s' \<and> (\<forall>kind. map k_next_run_at (tasks (base s') kind) = map k_next_run_at (tasks (base s) kind))"

lemma plain_refl [simp]: "plain d d"
  by (simp add: plain_def)

lemma plain_trans: "plain a b \<Longrightarrow> plain b c \<Longrightarrow> plain a c"
  by (simp add: plain_def)

lemma joins_refl [simp]: "joins_kept s s"
  by (simp add: joins_kept_def)

lemma joins_trans: "joins_kept a b \<Longrightarrow> joins_kept b c \<Longrightarrow> joins_kept a c"
  unfolding joins_kept_def using plain_trans by metis

lemma times_refl [simp]: "times_kept s s"
  by (simp add: times_kept_def)

lemma times_trans: "times_kept a b \<Longrightarrow> times_kept b c \<Longrightarrow> times_kept a c"
  unfolding times_kept_def using joins_trans by metis

lemma times_joins: "times_kept s s' \<Longrightarrow> joins_kept s s'"
  by (simp add: times_kept_def)

lemma map_update_keys:
  assumes "\<And>x. key (f x) = key x"
  shows "map key (map (\<lambda>x. if P x then f x else x) xs) = map key xs"
  using assms by simp

lemma update_tasks_joins:
  assumes "update_tasks kind sel f s = (n, s')" and "\<And>k. task_keys (f k) = task_keys k"
  shows "joins_kept s s'"
  using assms by (auto simp: update_tasks_def joins_kept_def plain_def)

lemma update_tasks_times:
  assumes "update_tasks kind sel f s = (n, s')" and "\<And>k. task_keys (f k) = task_keys k" and "\<And>k. k_next_run_at (f k) = k_next_run_at k"
  shows "times_kept s s'"
  using assms by (auto simp: times_kept_def update_tasks_joins) (auto simp: update_tasks_def)

lemma mark_pending_times: "times_kept s (mark_pending sel status message now kind s)"
  unfolding mark_pending_def
  by (rule update_tasks_times[OF prod.collapse[symmetric]]) (simp_all add: task_keys_def)

lemma mark_operation_times: "times_kept s (MarkScheduledTaskByOperation oid status message now s)"
  by (simp add: MarkScheduledTaskByOperation_def) (meson times_trans mark_pending_times)

lemma mark_thread_times: "times_kept s (MarkScheduledTaskByThread i status message now s)"
  by (simp add: MarkScheduledTaskByThread_def mark_pending_times)

lemma MarkRun_times:
  assumes "MarkScheduledTaskRun i status message oid at now s = Inr s'"
  shows "times_kept s s'"
proof -
  obtain v where v: "s' = snd (update_tasks (tv_AgentKind (v :: ScheduledTask)) (\<lambda>k. k_id k = i)
       (\<lambda>k. k\<lparr>k_last_run_at := Some at, k_last_run_status := status, k_last_run_message := message, k_last_operation_id := oid,
              k_updated_at := now\<rparr>) s)"
    using assms unfolding MarkScheduledTaskRun_def try_then_Inr_iff sum.inject by (elim exE conjE) (rule that, erule sym)
  show ?thesis unfolding v by (rule update_tasks_times[OF prod.collapse[symmetric]]) (simp_all add: task_keys_def)
qed

section \<open>Starting a task keeps the schedule\<close>

definition quiet :: "db \<Rightarrow> db \<Rightarrow> bool" where
  "quiet d d' \<longleftrightarrow> plain d d' \<and> tasks d' = tasks d"

lemma quiet_refl [simp]: "quiet d d"
  by (simp add: quiet_def)

lemma quiet_trans: "quiet a b \<Longrightarrow> quiet b c \<Longrightarrow> quiet a c"
  unfolding quiet_def using plain_trans by metis

lemma quiet_times:
  assumes "quiet (base s) (base s')" and "map session_keys (gemini_threads s') = map session_keys (gemini_threads s)"
    and "map session_keys (claude_threads s') = map session_keys (claude_threads s)"
  shows "times_kept s s'"
  using assms by (simp add: quiet_def times_kept_def joins_kept_def)

lemma quiet_base: "quiet (base s) d \<Longrightarrow> times_kept s (s\<lparr>base := d\<rparr>)"
  by (rule quiet_times) simp_all

lemma quiet_update_operations: "update_operations sel f d = Inr (n, d') \<Longrightarrow> quiet d d'"
  by (auto simp: update_operations_Inr quiet_def plain_def)

lemma quiet_insert: "insert_operation row d = Inr d' \<Longrightarrow> quiet d d'"
  by (auto simp: insert_operation_Inr appended_def quiet_def plain_def)

lemma quiet_queue_insert: "queue_insert row w d = Inr (i, d') \<Longrightarrow> quiet d d'"
  by (drule queue_insert_cases) (auto simp: appended_def quiet_def plain_def)

lemma quiet_queue: "QueueResourceOperation srv kind p key res w newID now d = Inr (i, d') \<Longrightarrow> quiet d d'"
  by (auto simp: QueueResourceOperation_def queueOperationPayload_def try_then_Inr_iff split: sum.splits if_splits
      dest: quiet_queue_insert)

lemma quiet_cancel: "CancelOperation i m now d = Inr (c, d') \<Longrightarrow> quiet d d'"
  by (auto simp: CancelOperation_def try_then_Inr_iff dest: quiet_update_operations)

lemma quiet_AddEvent: "AddEvent i now e d = Inr (e', d') \<Longrightarrow> quiet d d'"
  by (auto simp: AddEvent_def Let_def try_then_Inr_iff quiet_def plain_def split: if_splits)

lemma quiet_append_event: "append_event eid i k now p d = Inr (e, d') \<Longrightarrow> quiet d d'"
  by (auto dest!: append_event_frame simp: quiet_def plain_def)

lemma quiet_threads: "update_threads sel f d = (n, d') \<Longrightarrow> (\<And>t. t_id (f t) = t_id t \<and> t_workspace_id (f t) = t_workspace_id t) \<Longrightarrow> quiet d d'"
  by (auto simp: update_threads_def quiet_def plain_def)

lemma quiet_claim_thread: "ClaimThreadForTurn i now d = Inr d' \<Longrightarrow> quiet d d'"
  by (auto simp: ClaimThreadForTurn_def split: prod.splits if_splits dest: quiet_threads)

lemma quiet_status: "quiet d (SetThreadStatus i st now d)"
  unfolding SetThreadStatus_def by (rule quiet_threads[OF prod.collapse[symmetric]]) simp

lemma quiet_submit: "submit_turn row rw eid i k m now d = Inr (e, d') \<Longrightarrow> quiet d d'"
  by (auto simp: submit_turn_def try_then_Inr_iff split: if_splits dest!: quiet_insert quiet_append_event intro: quiet_trans)

lemma mark_run_times: "times_kept s (mark_run task status message oid now clock s)"
  by (auto simp: mark_run_def ignoring_def split: sum.split dest: MarkRun_times)

lemma update_rows_session_keys:
  "update_rows sel f rows = (n, rows') \<Longrightarrow> (\<And>r. session_keys (f r) = session_keys r) \<Longrightarrow> map session_keys rows' = map session_keys rows"
  by (rule update_rows_keys)

lemma gemini_claim_keys:
  "gemini_claim thread prompt model mode level opID now s = Inr s' \<Longrightarrow> base s' = base s \<and>
   map session_keys (gemini_threads s') = map session_keys (gemini_threads s) \<and> claude_threads s' = claude_threads s"
  by (auto simp: gemini_claim_def update_rows_def session_keys_def split: if_splits prod.splits)

lemma claude_claim_keys:
  "claude_claim thread prompt model mode level opID now s = Inr s' \<Longrightarrow> base s' = base s \<and>
   map session_keys (claude_threads s') = map session_keys (claude_threads s) \<and> gemini_threads s' = gemini_threads s"
  by (auto simp: claude_claim_def update_rows_def session_keys_def split: if_splits prod.splits)

lemma queue_gemini_times:
  assumes "queueGeminiTurn ok thread prompt model mode edit images goal level opID newEventID newGoalID now s = Inr (e, s')"
  shows "times_kept s s'"
proof -
  let ?i = "se_id (v_row thread)"
  obtain s1 a c where claim: "gemini_claim thread prompt model mode level opID now s = Inr s1"
    and step: "gemini_goal_step ?i opID goal images newGoalID now s1 = Inr a"
    and sub: "\<exists>row k m. submit_turn row (edit \<noteq> []) newEventID ?i k m now (base (snd a)) = Inr c"
    and res: "Inr (fst c, (snd a)\<lparr>base := snd c\<rparr>) = (Inr (e, s') :: go_error + _)"
    using assms unfolding queueGeminiTurn_def Let_def case_prod_unfold try_then_Inr_iff
    by (elim exE conjE) (rule that; (assumption | (intro exI, assumption)))
  note keys = gemini_claim_keys[OF claim]
  note goal = goal_step_frame[of ?i opID goal images newGoalID now s1 "fst a" "snd a", unfolded prod.collapse, OF step]
  have "quiet (base s) (snd c)" using sub quiet_submit[of _ _ _ _ _ _ _ _ "fst c" "snd c"] keys goal by auto
  then show ?thesis using res keys goal by (intro quiet_times) auto
qed

lemma queue_claude_times:
  assumes "queueClaudeInput txt ok thread edit prompt model mode effort images opID newEventID now s = Inr (e, s')"
  shows "times_kept s s'"
proof -
  let ?i = "se_id (v_row thread)"
  obtain s1 c where claim: "claude_claim thread prompt model mode effort opID now s = Inr s1"
    and sub: "\<exists>row k m. submit_turn row (edit \<noteq> []) newEventID ?i k m now (base s1) = Inr c"
    and res: "Inr (fst c, s1\<lparr>base := snd c\<rparr>) = (Inr (e, s') :: go_error + _)"
    using assms unfolding queueClaudeInput_def Let_def case_prod_unfold try_then_Inr_iff
    by (elim exE conjE) (rule that; (assumption | (intro exI, assumption)))
  note keys = claude_claim_keys[OF claim]
  have "quiet (base s) (snd c)" using sub quiet_submit[of _ _ _ _ _ _ _ _ "fst c" "snd c"] keys by auto
  then show ?thesis using res keys by (intro quiet_times) auto
qed

lemma enqueueGemini_times: "times_kept s (enqueueGemini ok task newOp newEvent now clock s)"
  by (auto simp: enqueueGemini_def Let_def mark_run_times split: sum.split intro: times_trans[OF queue_gemini_times mark_run_times])

lemma enqueueClaude_times: "times_kept s (enqueueClaude txt ok task newOp newEvent now clock s)"
  by (auto simp: enqueueClaude_def Let_def mark_run_times split: sum.split intro: times_trans[OF queue_claude_times mark_run_times])

lemma quiet_then_mark: "quiet (base s) d \<Longrightarrow> times_kept s (mark_run task status message oid now clock (s\<lparr>base := d\<rparr>))"
  by (rule times_trans[OF quiet_base mark_run_times])

lemma quiet_then_idle: "quiet (base s) d \<Longrightarrow> times_kept s (mark_run task status message oid now clock (idle_thread i clock (s\<lparr>base := d\<rparr>)))"
  using quiet_then_mark[of s "SetThreadStatus i ''idle'' clock d"] quiet_trans[OF _ quiet_status] by (simp add: idle_thread_def)

lemma enqueue_codex_times: "times_kept s (enqueue_codex et txt task newOp newEvent now clock s)"
proof -
  have claimed: "quiet (base s) d1" if "ClaimThreadForTurn i clock (base s) = Inr d1" for i d1
    using that by (rule quiet_claim_thread)
  have queued: "quiet (base s) d2"
    if "ClaimThreadForTurn i clock (base s) = Inr d1" "QueueResourceOperation srv k p key res False newOp clock d1 = Inr (oid, d2)"
    for i d1 srv k p key res oid d2
    using claimed[OF that(1)] quiet_queue[OF that(2)] by (rule quiet_trans)
  have told: "quiet (base s) d3"
    if "quiet (base s) d2" "AddEvent newEvent clock e d2 = Inr (e', d3)" for d2 e e' d3
    using that(1) quiet_AddEvent[OF that(2)] by (rule quiet_trans)
  have cancelled: "quiet (base s) (case CancelOperation oid m clock d2 of Inl _ \<Rightarrow> d2 | Inr (_, d3) \<Rightarrow> d3)"
    if "quiet (base s) d2" for d2 oid m
    using that by (auto split: sum.split dest: quiet_cancel intro: quiet_trans)
  show ?thesis
    unfolding enqueue_codex_def Let_def
    by (auto simp: mark_run_times split: sum.split intro!: quiet_then_mark quiet_then_idle cancelled
        intro: claimed queued told quiet_trans[OF queued quiet_cancel])
qed

lemma enqueue_times: "times_kept s (enqueue et txt ok uok task newOp newEvent now clock s)"
  by (simp add: enqueue_def enqueue_codex_times enqueueGemini_times enqueueClaude_times split: agent_kind.split)

section \<open>The view of a task\<close>

definition view_keys :: "ScheduledTask \<Rightarrow> string \<times> agent_kind" where
  "view_keys v = (k_id (tv_row v), tv_AgentKind v)"

lemma find_map_keys:
  assumes "map key ys = map key xs" and "\<And>x. P x = Q (key x)" and "\<And>y. R y = Q (key y)"
  shows "rel_option (\<lambda>x y. key x = key y) (find P xs) (find R ys)"
  using assms(1)
proof (induction xs arbitrary: ys)
  case (Cons x xs)
  then obtain y ys' where ys: "ys = y # ys'" "key y = key x" "map key ys' = map key xs" by auto
  then show ?case using Cons.IH[OF ys(3)] assms(2)[of x] assms(3)[of y] by auto
qed simp

lemma find_kept:
  assumes "map key ys = map key xs" and "\<And>x. P x = Q (key x)" and "\<And>x. k x = h (key x)"
  shows "map_option k (find P ys) = map_option k (find P xs)"
  using find_map_keys[OF assms(1), of P Q P] assms(2,3) by (cases "find P xs"; cases "find P ys") auto

lemma task_session_kept:
  assumes "joins_kept s s'"
  shows "map_option (fst \<circ> snd) (task_session kind i s') = map_option (fst \<circ> snd) (task_session kind i s)"
proof (cases kind)
  case Codex
  have "map_option t_workspace_id (find (\<lambda>t. t_id t = i) (threads (base s'))) = map_option t_workspace_id (find (\<lambda>t. t_id t = i) (threads (base s)))"
    by (rule find_kept[of "\<lambda>t. (t_id t, t_workspace_id t)" _ _ _ "\<lambda>p. fst p = i" _ snd]) (use assms in \<open>simp_all add: joins_kept_def plain_def\<close>)
  then show ?thesis by (simp add: Codex task_session_def option.map_comp comp_def)
next
  case Gemini
  have "map_option se_workspace_id (find (\<lambda>t. se_id t = i) (gemini_threads s')) = map_option se_workspace_id (find (\<lambda>t. se_id t = i) (gemini_threads s))"
    by (rule find_kept[of session_keys _ _ _ "\<lambda>p. fst p = i" _ snd]) (use assms in \<open>simp_all add: joins_kept_def session_keys_def\<close>)
  then show ?thesis by (simp add: Gemini task_session_def option.map_comp comp_def)
next
  case Claude
  have "map_option se_workspace_id (find (\<lambda>t. se_id t = i) (claude_threads s')) = map_option se_workspace_id (find (\<lambda>t. se_id t = i) (claude_threads s))"
    by (rule find_kept[of session_keys _ _ _ "\<lambda>p. fst p = i" _ snd]) (use assms in \<open>simp_all add: joins_kept_def session_keys_def\<close>)
  then show ?thesis by (simp add: Claude task_session_def option.map_comp comp_def)
qed

text \<open>Whether a task is in the view depends on what is kept only.\<close>

definition in_view :: "string option \<Rightarrow> db \<Rightarrow> string \<Rightarrow> bool" where
  "in_view workspace d serverID \<longleftrightarrow>
     (case workspace of None \<Rightarrow> False | Some wid \<Rightarrow>
      case find (\<lambda>w. w_id w = wid) (workspaces d) of None \<Rightarrow> False | Some w \<Rightarrow>
      find (\<lambda>p. p_id p = w_project_id w) (projects d) \<noteq> None \<and> find (\<lambda>v. s_id v = serverID) (servers d) \<noteq> None)"

lemma task_view_in:
  "map_option view_keys (task_view kind s k) =
   (if in_view (map_option (fst \<circ> snd) (task_session kind (k_thread_id k) s)) (base s) (k_server_id k) then Some (k_id k, kind) else None)"
  by (cases "task_session kind (k_thread_id k) s") (auto simp: task_view_def in_view_def view_keys_def split: option.split)

lemma task_view_kept:
  assumes "joins_kept s s'" and "task_keys k = task_keys k'"
  shows "map_option view_keys (task_view kind s' k') = map_option view_keys (task_view kind s k)"
proof -
  have same: "k_id k' = k_id k" "k_thread_id k' = k_thread_id k" "k_server_id k' = k_server_id k"
    using assms(2) by (auto simp: task_keys_def)
  have "in_view w (base s') i = in_view w (base s) i" for w i
    using assms(1) by (simp add: in_view_def joins_kept_def plain_def split: option.split)
  then show ?thesis unfolding task_view_in same task_session_kept[OF assms(1)] by simp
qed

lemma map_filter_kept:
  assumes "map key ys = map key xs" and "\<And>x y. key x = key y \<Longrightarrow> map_option h (g y) = map_option h (f x)"
  shows "map h (List.map_filter g ys) = map h (List.map_filter f xs)"
  using assms(1)
proof (induction xs arbitrary: ys)
  case (Cons x xs)
  then obtain y ys' where ys: "ys = y # ys'" "key y = key x" "map key ys' = map key xs" by auto
  have "map_option h (g y) = map_option h (f x)" by (rule assms(2)) (simp add: ys)
  then show ?case using Cons.IH[OF ys(3)] ys(1) by (cases "g y"; cases "f x") (simp_all add: List.map_filter_simps)
qed (simp add: List.map_filter_simps)

lemma views_kept:
  assumes "joins_kept s s'"
  shows "map view_keys (scheduledTaskSelect s') = map view_keys (scheduledTaskSelect s)"
proof -
  have "map view_keys (views_of kind s') = map view_keys (views_of kind s)" for kind
    unfolding views_of_def
    by (rule map_filter_kept[of task_keys]) (use assms in \<open>auto simp: joins_kept_def intro: task_view_kept[OF assms]\<close>)
  then show ?thesis by (simp add: scheduledTaskSelect_def)
qed

lemma get_task_kept:
  assumes "joins_kept s s'" and "get_ScheduledTask i s = Inr v"
  shows "\<exists>v'. get_ScheduledTask i s' = Inr v' \<and> tv_AgentKind v' = tv_AgentKind v"
proof -
  have "rel_option (\<lambda>x y. view_keys x = view_keys y)
      (find (\<lambda>v. k_id (tv_row v) = i) (scheduledTaskSelect s)) (find (\<lambda>v. k_id (tv_row v) = i) (scheduledTaskSelect s'))"
    by (rule find_map_keys[OF views_kept[OF assms(1)], of _ "\<lambda>p. fst p = i"]) (simp_all add: view_keys_def)
  then show ?thesis
    using assms(2) unfolding get_ScheduledTask_def find_row_def
    by (cases "find (\<lambda>v. k_id (tv_row v) = i) (scheduledTaskSelect s')") (auto simp: view_keys_def split: option.splits)
qed

section \<open>Claims of concurrent runners\<close>

text \<open>
  The transactions of any number of runners and of the gateway on the tasks, in the order in which the
  database runs them. A claim names the time the task was due at when it was read, and its next run.
\<close>

datatype task_action =
    ClaimRun string instant instant instant
  | RecordRun string string string string instant instant
  | RecordOperation string string string instant
  | RecordThread string string string instant
  | StartRun ScheduledTask string string instant instant

fun perform :: "tick_env \<Rightarrow> task_action \<Rightarrow> turn_db \<Rightarrow> bool \<times> turn_db" where
  "perform env (ClaimRun i expected next clock) s =
     (case ClaimScheduledTask i expected next clock s of Inl _ \<Rightarrow> (False, s) | Inr r \<Rightarrow> r)"
| "perform env (RecordRun i status message oid at clock) s = (False, ignoring s (MarkScheduledTaskRun i status message oid at clock s))"
| "perform env (RecordOperation oid status message clock) s = (False, MarkScheduledTaskByOperation oid status message clock s)"
| "perform env (RecordThread i status message clock) s = (False, MarkScheduledTaskByThread i status message clock s)"
| "perform env (StartRun task newOp newEvent now clock) s =
     (False, enqueue (env_error_text env) (env_rfc3339 env) (env_rfc3339_ok env) (env_uuid_ok env) task newOp newEvent now clock s)"

fun claims :: "tick_env \<Rightarrow> string \<Rightarrow> instant \<Rightarrow> task_action list \<Rightarrow> turn_db \<Rightarrow> nat" where
  "claims env i e [] s = 0"
| "claims env i e (a # as) s =
     (if (case a of ClaimRun j e' _ _ \<Rightarrow> j = i \<and> e' = e | _ \<Rightarrow> False) \<and> fst (perform env a s) then 1 else 0)
     + claims env i e as (snd (perform env a s))"

definition ahead :: "task_action \<Rightarrow> bool" where
  "ahead a \<longleftrightarrow> (case a of ClaimRun _ expected next _ \<Rightarrow> expected + 1 < next | _ \<Rightarrow> True)"

definition spent :: "agent_kind \<Rightarrow> string \<Rightarrow> instant \<Rightarrow> turn_db \<Rightarrow> bool" where
  "spent kind i e s \<longleftrightarrow> (\<forall>k \<in> set (tasks (base s) kind). k_id k = i \<and> k_enabled k \<longrightarrow> e + 1 < k_next_run_at k)"

lemma claim_Inr:
  assumes "ClaimScheduledTask i e n c s = Inr (b, s')"
  obtains v where "get_ScheduledTask i s = Inr v" and "b = list_ex (claimable_task i e) (tasks (base s) (tv_AgentKind v))"
    and "update_tasks (tv_AgentKind v) (claimable_task i e) (\<lambda>k. k\<lparr>k_next_run_at := n, k_updated_at := c\<rparr>) s
      = (length (filter (claimable_task i e) (tasks (base s) (tv_AgentKind v))), s')"
proof -
  obtain v where v: "get_ScheduledTask i s = Inr v"
    "Inr (0 < fst (update_tasks (tv_AgentKind v) (claimable_task i e) (\<lambda>k. k\<lparr>k_next_run_at := n, k_updated_at := c\<rparr>) s),
       snd (update_tasks (tv_AgentKind v) (claimable_task i e) (\<lambda>k. k\<lparr>k_next_run_at := n, k_updated_at := c\<rparr>) s)) = (Inr (b, s') :: go_error + _)"
    using assms unfolding ClaimScheduledTask_def try_then_Inr_iff case_prod_unfold by (elim exE conjE) (rule that)
  have "(0 < length (filter P xs)) = list_ex P xs" for P and xs :: "Task_row list" by (induction xs) auto
  then show ?thesis by (intro that[OF v(1)]) (use v(2) in \<open>auto simp: update_tasks_def\<close>)
qed

lemma claim_joins: "ClaimScheduledTask i e n c s = Inr (b, s') \<Longrightarrow> joins_kept s s'"
  by (erule claim_Inr) (erule update_tasks_joins, simp add: task_keys_def)

lemma perform_joins: "joins_kept s (snd (perform env a s))"
  by (cases a) (auto simp: ignoring_def mark_operation_times mark_thread_times enqueue_times
      intro: times_joins MarkRun_times split: sum.split dest: claim_joins)

lemma perform_times: "(case a of ClaimRun _ _ _ _ \<Rightarrow> False | _ \<Rightarrow> True) \<Longrightarrow> times_kept s (snd (perform env a s))"
  by (cases a) (auto simp: ignoring_def mark_operation_times mark_thread_times enqueue_times
      intro: MarkRun_times split: sum.split)

lemma paired_rows:
  assumes "map f ys = map f xs" and "map g ys = map g xs" and "y \<in> set ys"
  shows "\<exists>x \<in> set xs. f x = f y \<and> g x = g y"
proof -
  obtain j where j: "j < length ys" "ys ! j = y" using assms(3) by (auto simp: in_set_conv_nth)
  have len: "length xs = length ys" using assms(1) by (metis length_map)
  have "f (xs ! j) = f y" "g (xs ! j) = g y"
    using assms(1,2) j len by (metis nth_map)+
  then show ?thesis using j(1) len by (metis nth_mem)
qed

lemma times_row:
  assumes "times_kept s s'" and "k' \<in> set (tasks (base s') kind)"
  shows "\<exists>k \<in> set (tasks (base s) kind). task_keys k = task_keys k' \<and> k_next_run_at k = k_next_run_at k'"
  by (rule paired_rows[OF _ _ assms(2)]) (use assms(1) in \<open>auto simp: times_kept_def joins_kept_def\<close>)

lemma spent_times:
  assumes "spent kind i e s" and "times_kept s s'"
  shows "spent kind i e s'"
  unfolding spent_def
proof (intro ballI impI)
  fix k' assume "k' \<in> set (tasks (base s') kind)" and k': "k_id k' = i \<and> k_enabled k'"
  then obtain k where "k \<in> set (tasks (base s) kind)" "task_keys k = task_keys k'" "k_next_run_at k = k_next_run_at k'"
    using times_row[OF assms(2)] by blast
  then show "e + 1 < k_next_run_at k'" using assms(1) k' by (auto simp: spent_def task_keys_def)
qed

lemma spent_claimed:
  assumes "get_ScheduledTask i s = Inr v" and "ClaimScheduledTask i e n c s = Inr (True, s')" and "e + 1 < n"
  shows "spent (tv_AgentKind v) i e s'"
proof (rule claim_Inr[OF assms(2)])
  fix v'
  assume "get_ScheduledTask i s = Inr v'"
    and "update_tasks (tv_AgentKind v') (claimable_task i e) (\<lambda>k. k\<lparr>k_next_run_at := n, k_updated_at := c\<rparr>) s
      = (length (filter (claimable_task i e) (tasks (base s) (tv_AgentKind v'))), s')"
  then have "tasks (base s') (tv_AgentKind v) = map (\<lambda>k. if claimable_task i e k then k\<lparr>k_next_run_at := n, k_updated_at := c\<rparr> else k)
      (tasks (base s) (tv_AgentKind v))" using assms(1) by (auto simp: update_tasks_def)
  then have t: "set (tasks (base s') (tv_AgentKind v)) = (\<lambda>k. if claimable_task i e k then k\<lparr>k_next_run_at := n, k_updated_at := c\<rparr> else k) `
      set (tasks (base s) (tv_AgentKind v))" by simp
  show ?thesis unfolding spent_def t ball_simps using assms(3) by (simp add: claimable_task_def not_le)
qed

lemma spent_refuses:
  assumes "spent (tv_AgentKind v) i e s" and "get_ScheduledTask i s = Inr v" and "ClaimScheduledTask i e n c s = Inr (b, s')"
  shows "\<not> b"
proof (rule claim_Inr[OF assms(3)])
  fix v'
  assume "get_ScheduledTask i s = Inr v'" and b: "b = list_ex (claimable_task i e) (tasks (base s) (tv_AgentKind v'))"
  then have "v' = v" using assms(2) by simp
  then show ?thesis using assms(1) unfolding b list_ex_iff spent_def claimable_task_def by fastforce
qed

lemma spent_other_claim:
  assumes "spent kind i e s" and "ClaimScheduledTask j e' n c s = Inr (b, s')" and "e' + 1 < n"
  shows "spent kind i e s'"
proof (rule claim_Inr[OF assms(2)])
  fix v
  assume u: "update_tasks (tv_AgentKind v) (claimable_task j e') (\<lambda>k. k\<lparr>k_next_run_at := n, k_updated_at := c\<rparr>) s
      = (length (filter (claimable_task j e') (tasks (base s) (tv_AgentKind v))), s')"
  show ?thesis
    unfolding spent_def
  proof (intro ballI impI)
    fix k' assume k': "k' \<in> set (tasks (base s') kind)" "k_id k' = i \<and> k_enabled k'"
    then obtain k where k: "k \<in> set (tasks (base s) kind)"
      "k' = k \<or> claimable_task j e' k \<and> k' = k\<lparr>k_next_run_at := n, k_updated_at := c\<rparr>"
      using u by (auto simp: update_tasks_def split: if_splits)
    then have "e + 1 < k_next_run_at k" using assms(1) k'(2) by (auto simp: spent_def)
    then show "e + 1 < k_next_run_at k'" using k(2) assms(3) by (auto simp: claimable_task_def)
  qed
qed

lemma perform_spent:
  assumes "spent kind i e s" and "ahead a"
  shows "spent kind i e (snd (perform env a s))"
proof (cases a)
  case (ClaimRun j e' n c)
  then show ?thesis
    using assms spent_other_claim[of kind i e s j e' n c] by (auto simp: ahead_def split: sum.split)
qed (rule spent_times[OF assms(1) perform_times], simp)+

lemma claims_spent:
  assumes "spent (tv_AgentKind v) i e s" and "get_ScheduledTask i s = Inr v" and "list_all ahead as"
  shows "claims env i e as s = 0"
  using assms
proof (induction "as" arbitrary: s v)
  case (Cons a rest)
  obtain v' where v': "get_ScheduledTask i (snd (perform env a s)) = Inr v'" "tv_AgentKind v' = tv_AgentKind v"
    using get_task_kept[OF perform_joins Cons.prems(2)] by blast
  have "claims env i e rest (snd (perform env a s)) = 0"
    using Cons.IH[of v'] v' perform_spent[OF Cons.prems(1)] Cons.prems(3) by simp
  moreover have "\<not> fst (perform env a s)" if "a = ClaimRun i e n c" for n c
    using that spent_refuses[OF Cons.prems(1,2)] by (auto split: sum.split)
  ultimately show ?case by (cases a) auto
qed simp

text \<open>
  C31: A scheduled run is started by one runner only: whatever runners share the database and however
  their transactions and those of the gateway interleave, among all the claims of a task at the time
  it was due at most one succeeds, when every claim moves the task past that time.
\<close>

theorem due_time_claimed_once:
  assumes "list_all ahead as"
  shows "claims env i e as s \<le> 1"
  using assms
proof (induction "as" arbitrary: s)
  case (Cons a rest)
  have rest: "claims env i e rest (snd (perform env a s)) \<le> 1" using Cons by simp
  show ?case
  proof (cases "(case a of ClaimRun j e' _ _ \<Rightarrow> j = i \<and> e' = e | _ \<Rightarrow> False) \<and> fst (perform env a s)")
    case True
    then obtain n c where a: "a = ClaimRun i e n c" by (cases a) auto
    then obtain s' where c: "ClaimScheduledTask i e n c s = Inr (True, s')" using True by (auto split: sum.splits)
    then obtain v where v: "get_ScheduledTask i s = Inr v" by (rule claim_Inr)
    have "spent (tv_AgentKind v) i e s'" using spent_claimed[OF v c] Cons.prems a by (simp add: ahead_def)
    moreover obtain v' where "get_ScheduledTask i s' = Inr v'" "tv_AgentKind v' = tv_AgentKind v"
      using get_task_kept[OF claim_joins[OF c] v] by blast
    ultimately have "claims env i e rest s' = 0" using claims_spent[of v'] Cons.prems by simp
    then show ?thesis using a c by simp
  next
    case False
    then show ?thesis using rest by (simp only: claims.simps if_False add_0_left)
  qed
qed simp

section \<open>One start\<close>

text \<open>
  Every start ends with the record of its run: before it, the tasks are as they were. \<open>started\<close> says
  that a recorded operation is in the queue.
\<close>

definition same_tasks :: "turn_db \<Rightarrow> turn_db \<Rightarrow> bool" where
  "same_tasks s s' \<longleftrightarrow> joins_kept s s' \<and> tasks (base s') = tasks (base s)"

definition started :: "string \<Rightarrow> string \<Rightarrow> turn_db \<Rightarrow> bool" where
  "started status oid s \<longleftrightarrow> status \<in> {''failed'', ''skipped''} \<or> status = ''queued'' \<and> oid \<in> o_id ` set (operations (base s))"

definition recorded_start :: "ScheduledTask \<Rightarrow> instant \<Rightarrow> turn_db \<Rightarrow> turn_db \<Rightarrow> bool" where
  "recorded_start task now s s' \<longleftrightarrow>
     (\<exists>status message oid clock s''. s' = mark_run task status message oid now clock s'' \<and> same_tasks s s'' \<and> started status oid s'')"

lemma recorded_startI:
  "same_tasks s s'' \<Longrightarrow> started status oid s'' \<Longrightarrow> recorded_start task now s (mark_run task status message oid now clock s'')"
  unfolding recorded_start_def by blast

lemma same_tasks_refl [simp]: "same_tasks s s"
  by (simp add: same_tasks_def)

lemma started_simps [simp]: "started ''failed'' oid s" "started ''skipped'' oid s"
  "started ''queued'' oid s \<longleftrightarrow> oid \<in> o_id ` set (operations (base s))"
  by (simp_all add: started_def)

lemma quiet_same: "quiet (base s) d \<Longrightarrow> same_tasks s (s\<lparr>base := d\<rparr>)"
  using times_joins[OF quiet_base] by (simp add: same_tasks_def quiet_def)

lemma quiet_sessions_same:
  "quiet (base s) (base s') \<Longrightarrow> map session_keys (gemini_threads s') = map session_keys (gemini_threads s) \<Longrightarrow>
   map session_keys (claude_threads s') = map session_keys (claude_threads s) \<Longrightarrow> same_tasks s s'"
  using times_joins[OF quiet_times] by (simp add: same_tasks_def quiet_def)

lemma submit_turn_new:
  assumes "submit_turn row False eid i k m now d = Inr (e, d')"
  shows "o_id row \<in> o_id ` set (operations d') \<and> (\<exists>ev. e = Some ev \<and> EventPayload ev = Some m)"
  using assms
  by (auto simp: submit_turn_def try_then_Inr_iff insert_operation_Inr appended_def append_event_def Let_def insert_event_def split: if_splits)

lemma submit_turn_Some:
  assumes "submit_turn row False eid i k m now d = Inr c"
  obtains ev where "o_id row \<in> o_id ` set (operations (snd c))" and "fst c = Some ev" and "EventPayload ev = Some m"
  using submit_turn_new[of row eid i k m now d "fst c" "snd c"] assms by auto

lemma turn_row_id [simp]: "o_id (turn_row i th k p key now) = i"
  by (simp add: turn_row_def)

lemma queue_gemini_start:
  assumes "queueGeminiTurn ok thread prompt model mode [] images goal level opID newEventID newGoalID now s = Inr (e, s')"
  shows "same_tasks s s' \<and> started ''queued'' (event_operation e) s'"
proof -
  let ?i = "se_id (v_row thread)"
  obtain s1 a c where claim: "gemini_claim thread prompt model mode level opID now s = Inr s1"
    and step: "gemini_goal_step ?i opID goal images newGoalID now s1 = Inr a"
    and sub: "\<exists>row im. o_id row = opID \<and> submit_turn row False newEventID ?i ''gemini.user.message''
         (JObj [(''images'', im), (''model'', JStr model), (''operation_id'', JStr opID), (''text'', JStr prompt),
                 (''thinking_level'', JStr level)]) now (base (snd a)) = Inr c"
    and res: "Inr (fst c, (snd a)\<lparr>base := snd c\<rparr>) = (Inr (e, s') :: go_error + _)"
    using assms unfolding queueGeminiTurn_def Let_def case_prod_unfold try_then_Inr_iff
    by (elim exE conjE) (rule that; (assumption | (intro exI conjI, rule turn_row_id, simp only: simp_thms)))
  note keys = gemini_claim_keys[OF claim]
  note goal = goal_step_frame[of ?i opID goal images newGoalID now s1 "fst a" "snd a", unfolded prod.collapse, OF step]
  have "quiet (base s) (snd c)" using sub quiet_submit[of _ _ _ _ _ _ _ _ "fst c" "snd c"] keys goal by auto
  then have "same_tasks s s'" using res keys goal by (intro quiet_sessions_same) auto
  moreover obtain row im where row: "o_id row = opID"
    and new: "submit_turn row False newEventID ?i ''gemini.user.message''
         (JObj [(''images'', im), (''model'', JStr model), (''operation_id'', JStr opID), (''text'', JStr prompt),
                 (''thinking_level'', JStr level)]) now (base (snd a)) = Inr c"
    using sub by (elim exE conjE) (rule that)
  obtain ev where ev: "o_id row \<in> o_id ` set (operations (snd c))" "fst c = Some ev" "EventPayload ev = Some (JObj [(''images'', im), (''model'', JStr model), (''operation_id'', JStr opID), (''text'', JStr prompt),
                 (''thinking_level'', JStr level)])"
    by (rule submit_turn_Some[OF new])
  moreover have "e = Some ev" "operations (base s') = operations (snd c)" using res ev(2) by auto
  then have "event_operation e = opID \<and> opID \<in> o_id ` set (operations (base s'))"
    using row ev(1,3) by (simp add: event_operation_def str_field_def scalar_field_def)
  ultimately show ?thesis by simp
qed

lemma queue_claude_start:
  assumes "queueClaudeInput txt ok thread [] prompt model mode effort images opID newEventID now s = Inr (e, s')"
  shows "same_tasks s s' \<and> started ''queued'' (event_operation e) s'"
proof -
  let ?i = "se_id (v_row thread)"
  obtain s1 c where claim: "claude_claim thread prompt model mode effort opID now s = Inr s1"
    and sub: "\<exists>row. o_id row = opID \<and> submit_turn row False newEventID ?i ''claude.user.message''
         (JObj [(''images'', encode_images images), (''operation_id'', JStr opID), (''text'', JStr prompt)]) now (base s1) = Inr c"
    and res: "Inr (fst c, s1\<lparr>base := snd c\<rparr>) = (Inr (e, s') :: go_error + _)"
    using assms unfolding queueClaudeInput_def Let_def case_prod_unfold try_then_Inr_iff
    by (elim exE conjE) (rule that; (assumption | (intro exI conjI, rule turn_row_id, simp only: simp_thms)))
  note keys = claude_claim_keys[OF claim]
  have "quiet (base s) (snd c)" using sub quiet_submit[of _ _ _ _ _ _ _ _ "fst c" "snd c"] keys by auto
  then have "same_tasks s s'" using res keys by (intro quiet_sessions_same) auto
  moreover obtain row where row: "o_id row = opID"
    and new: "submit_turn row False newEventID ?i ''claude.user.message''
         (JObj [(''images'', encode_images images), (''operation_id'', JStr opID), (''text'', JStr prompt)]) now (base s1) = Inr c"
    using sub by (elim exE conjE) (rule that)
  obtain ev where ev: "o_id row \<in> o_id ` set (operations (snd c))" "fst c = Some ev" "EventPayload ev = Some (JObj [(''images'', encode_images images), (''operation_id'', JStr opID), (''text'', JStr prompt)])"
    by (rule submit_turn_Some[OF new])
  moreover have "e = Some ev" "operations (base s') = operations (snd c)" using res ev(2) by auto
  then have "event_operation e = opID \<and> opID \<in> o_id ` set (operations (base s'))"
    using row ev(1,3) by (simp add: event_operation_def str_field_def scalar_field_def)
  ultimately show ?thesis by simp
qed

lemma recorded_pair:
  "(\<And>e. r = Inl e \<Longrightarrow> recorded_start t n s (f e)) \<Longrightarrow> (\<And>a b. r = Inr (a, b) \<Longrightarrow> recorded_start t n s (h a b)) \<Longrightarrow>
   recorded_start t n s (case r of Inl e \<Rightarrow> f e | Inr x \<Rightarrow> (case x of (a, b) \<Rightarrow> h a b))"
  by (auto split: sum.split prod.split)

lemma recorded_sum:
  "(\<And>e. r = Inl e \<Longrightarrow> recorded_start t n s (f e)) \<Longrightarrow> (\<And>x. r = Inr x \<Longrightarrow> recorded_start t n s (g x)) \<Longrightarrow>
   recorded_start t n s (case r of Inl e \<Rightarrow> f e | Inr x \<Rightarrow> g x)"
  by (simp split: sum.split)

lemma recorded_if: "recorded_start t n s u \<Longrightarrow> recorded_start t n s v \<Longrightarrow> recorded_start t n s (if c then u else v)"
  by simp

lemmas recorded_cases = recorded_if recorded_pair recorded_sum

lemma recorded_skip:
  "recorded_start t n s (mark_run t ''failed'' m oid n c s)"
  "recorded_start t n s (mark_run t ''skipped'' m oid n c s)"
  by (rule recorded_startI; simp)+

lemma enqueueGemini_recorded: "recorded_start task now s (enqueueGemini ok task newOp newEvent now clock s)"
  unfolding enqueueGemini_def Let_def
  by (intro recorded_cases recorded_skip recorded_startI; drule queue_gemini_start; simp)

lemma enqueueClaude_recorded: "recorded_start task now s (enqueueClaude txt ok task newOp newEvent now clock s)"
  unfolding enqueueClaude_def Let_def
  by (intro recorded_cases recorded_skip recorded_startI; drule queue_claude_start; simp)

lemma queue_insert_names: "queue_insert row w d = Inr (i, d') \<Longrightarrow> i \<in> o_id ` set (operations d')"
  by (drule queue_insert_cases) (auto simp: appended_def dest: operation_by_key_Inr)

lemma queue_names: "QueueResourceOperation srv kind p key res w newID now d = Inr (i, d') \<Longrightarrow> i \<in> o_id ` set (operations d')"
  by (auto simp: QueueResourceOperation_def queueOperationPayload_def try_then_Inr_iff split: sum.splits if_splits
      dest: queue_insert_names operation_by_key_Inr)

lemma AddEvent_operations: "AddEvent i now e d = Inr (e', d') \<Longrightarrow> operations d' = operations d"
  by (auto simp: AddEvent_def Let_def try_then_Inr_iff split: if_splits)

lemma idle_same: "quiet (base s) d \<Longrightarrow> same_tasks s (idle_thread i clock (s\<lparr>base := d\<rparr>))"
  using quiet_same[OF quiet_trans[OF _ quiet_status]] by (simp add: idle_thread_def)

lemma quiet_cancelled:
  "quiet a d2 \<Longrightarrow> quiet a (case CancelOperation oid m clock d2 of Inl _ \<Rightarrow> d2 | Inr (_, d3) \<Rightarrow> d3)"
  by (auto split: sum.split dest: quiet_cancel intro: quiet_trans)

lemma enqueue_codex_recorded: "recorded_start task now s (enqueue_codex et txt task newOp newEvent now clock s)"
proof -
  have queued: "quiet (base s) d2"
    if "ClaimThreadForTurn i clock (base s) = Inr d1" "QueueResourceOperation srv k p key res False newOp clock d1 = Inr (oid, d2)"
    for i d1 srv k p key res oid d2
    using quiet_claim_thread[OF that(1)] quiet_queue[OF that(2)] by (rule quiet_trans)
  have told: "same_tasks s (s\<lparr>base := d3\<rparr>) \<and> started ''queued'' oid (s\<lparr>base := d3\<rparr>)"
    if "ClaimThreadForTurn i clock (base s) = Inr d1" "QueueResourceOperation srv k p key res False newOp clock d1 = Inr (oid, d2)"
      "AddEvent newEvent clock e d2 = Inr (e', d3)"
    for i d1 srv k p key res oid d2 e e' d3
    using quiet_same[OF quiet_trans[OF queued[OF that(1,2)] quiet_AddEvent[OF that(3)]]] queue_names[OF that(2)] AddEvent_operations[OF that(3)]
    by simp
  show ?thesis
    unfolding enqueue_codex_def Let_def
    by (intro recorded_cases recorded_skip recorded_startI idle_same quiet_cancelled started_simps(1);
        (erule quiet_claim_thread | erule queued, assumption | (drule told, assumption, assumption, simp)))
qed

lemma enqueue_recorded: "recorded_start task now s (enqueue et txt ok uok task newOp newEvent now clock s)"
  by (simp add: enqueue_def enqueue_codex_recorded enqueueGemini_recorded enqueueClaude_recorded split: agent_kind.split)

definition record_of :: "string \<Rightarrow> string \<Rightarrow> string \<Rightarrow> instant \<Rightarrow> instant \<Rightarrow> Task_row \<Rightarrow> Task_row" where
  "record_of status message oid at now k =
     k\<lparr>k_last_run_at := Some at, k_last_run_status := status, k_last_run_message := message, k_last_operation_id := oid, k_updated_at := now\<rparr>"

lemma mark_run_tasks:
  "tasks (base (mark_run task status message oid now clock s)) kind =
   (case get_ScheduledTask (k_id (tv_row task)) s of
      Inl _ \<Rightarrow> tasks (base s) kind
    | Inr v \<Rightarrow> if kind = tv_AgentKind v
        then map (\<lambda>k. if k_id k = k_id (tv_row task) then record_of status message oid now clock k else k) (tasks (base s) kind)
        else tasks (base s) kind)"
  by (auto simp: mark_run_def ignoring_def MarkScheduledTaskRun_def update_tasks_def record_of_def split: sum.split)

lemma mark_run_operations [simp]: "operations (base (mark_run task status message oid now clock s)) = operations (base s)"
  by (auto simp: mark_run_def ignoring_def MarkScheduledTaskRun_def update_tasks_def try_then_Inr_iff split: sum.split)

lemma mark_run_other:
  "k \<in> set (tasks (base s) kind) \<Longrightarrow> k_id k \<noteq> k_id (tv_row task) \<Longrightarrow>
   k \<in> set (tasks (base (mark_run task status message oid now clock s)) kind)"
  unfolding mark_run_tasks by (auto split: sum.split)

lemma start_record:
  assumes "get_ScheduledTask (k_id (tv_row task)) s = Inr v" and "k \<in> set (tasks (base s) (tv_AgentKind v))"
    and "k_id k = k_id (tv_row task)"
    and "s' = enqueue error_text rfc3339 rfc3339_ok uuid_ok task newOp newEvent now clock s"
  shows "\<exists>status message oid at. record_of status message oid now at k \<in> set (tasks (base s') (tv_AgentKind v)) \<and>
    (status \<in> {''failed'', ''skipped''} \<or> status = ''queued'' \<and> oid \<in> o_id ` set (operations (base s')))"
proof -
  obtain status message oid at s'' where s': "s' = mark_run task status message oid now at s''" "same_tasks s s''" "started status oid s''"
    using enqueue_recorded[of task now s error_text rfc3339 rfc3339_ok uuid_ok newOp newEvent clock] assms(4)
    unfolding recorded_start_def by (elim exE conjE) (rule that, simp)
  obtain v'' where v'': "get_ScheduledTask (k_id (tv_row task)) s'' = Inr v''" "tv_AgentKind v'' = tv_AgentKind v"
    using get_task_kept[of s s''] s'(2) assms(1) unfolding same_tasks_def by blast
  have "k \<in> set (tasks (base s'') (tv_AgentKind v))" using s'(2) assms(2) by (simp add: same_tasks_def)
  then have "record_of status message oid now at k \<in> set (tasks (base s') (tv_AgentKind v))"
    unfolding s'(1) mark_run_tasks using v'' assms(3) by (auto intro: rev_image_eqI)
  moreover have "status \<in> {''failed'', ''skipped''} \<or> status = ''queued'' \<and> oid \<in> o_id ` set (operations (base s'))"
    using s' by (simp add: started_def)
  ultimately show ?thesis by blast
qed

text \<open>
  Every start of a scheduled task leaves a record on its row, at the time of the tick: failed,
  skipped, or queued with the identifier of an operation that is in the queue, whatever the state of
  the session, the workspace and the Agent.
\<close>

theorem start_is_recorded:
  assumes "get_ScheduledTask (k_id (tv_row task)) s = Inr v" and "k \<in> set (tasks (base s) (tv_AgentKind v))"
    and "k_id k = k_id (tv_row task)"
    and "s' = enqueue error_text rfc3339 rfc3339_ok uuid_ok task newOp newEvent now clock s"
  shows "\<exists>status message oid at. record_of status message oid now at k \<in> set (tasks (base s') (tv_AgentKind v)) \<and>
    (status \<in> {''failed'', ''skipped''} \<or> status = ''queued'' \<and> oid \<in> o_id ` set (operations (base s')))"
  by (rule start_record[OF assms])

section \<open>A tick\<close>

lemma enqueue_other:
  assumes "k \<in> set (tasks (base s) kind)" and "k_id k \<noteq> k_id (tv_row task)"
  shows "k \<in> set (tasks (base (enqueue et txt ok uok task newOp newEvent now clock s)) kind)"
proof -
  obtain status message oid at s'' where "enqueue et txt ok uok task newOp newEvent now clock s = mark_run task status message oid now at s''"
    "same_tasks s s''"
    using enqueue_recorded[of task now s et "txt" ok uok newOp newEvent clock] unfolding recorded_start_def by (elim exE conjE) (rule that)
  then show ?thesis using assms by (simp add: same_tasks_def mark_run_other)
qed

lemma claim_other:
  assumes "ClaimScheduledTask i e n c s = Inr (b, s')" and "k \<in> set (tasks (base s) kind)" and "k_id k \<noteq> i"
  shows "k \<in> set (tasks (base s') kind)"
proof (rule claim_Inr[OF assms(1)])
  fix v
  assume "update_tasks (tv_AgentKind v) (claimable_task i e) (\<lambda>k. k\<lparr>k_next_run_at := n, k_updated_at := c\<rparr>) s
      = (length (filter (claimable_task i e) (tasks (base s) (tv_AgentKind v))), s')"
  then have "s' = s\<lparr>base := (base s)\<lparr>tasks := (tasks (base s))(tv_AgentKind v :=
      map (\<lambda>k. if claimable_task i e k then k\<lparr>k_next_run_at := n, k_updated_at := c\<rparr> else k) (tasks (base s) (tv_AgentKind v)))\<rparr>\<rparr>"
    by (simp add: update_tasks_def)
  then show ?thesis using assms(2,3) by (auto simp: claimable_task_def intro: rev_image_eqI)
qed

lemma run_task_joins: "joins_kept s (run_task env now n task s)"
  by (auto simp: run_task_def Let_def times_joins mark_run_times split: sum.split
      intro: joins_trans[OF claim_joins times_joins[OF enqueue_times]] claim_joins)

lemma run_task_other:
  "k \<in> set (tasks (base s) kind) \<Longrightarrow> k_id k \<noteq> k_id (tv_row task) \<Longrightarrow> k \<in> set (tasks (base (run_task env now n task s)) kind)"
  by (auto simp: run_task_def Let_def split: sum.split intro: mark_run_other enqueue_other claim_other)

lemma run_tasks_other:
  "k \<in> set (tasks (base s) kind) \<Longrightarrow> k_id k \<notin> (k_id \<circ> tv_row) ` set vs \<Longrightarrow> k \<in> set (tasks (base (run_tasks env now n vs s)) kind)"
  by (induction env now n vs s rule: run_tasks.induct) (auto intro: run_task_other)

text \<open>The row of a task after its own run.\<close>

definition moved :: "instant \<Rightarrow> instant \<Rightarrow> Task_row \<Rightarrow> Task_row \<Rightarrow> bool" where
  "moved now next k k' \<longleftrightarrow> k_id k' = k_id k \<and> k_next_run_at k' = next \<and> k_last_run_at k' = Some now \<and>
     k_last_run_status k' \<in> {''failed'', ''skipped'', ''queued''}"

lemma run_task_own:
  assumes "get_ScheduledTask (k_id (tv_row task)) s = Inr v" and "tv_row task \<in> set (tasks (base s) (tv_AgentKind v))"
    and "k_enabled (tv_row task)" and "next_run (env_zones env) (tv_row task) now = Inr next"
  shows "\<exists>k' \<in> set (tasks (base (run_task env now n task s)) (tv_AgentKind v)). moved now next (tv_row task) k'"
proof -
  let ?k = "tv_row task" and ?c = "env_clock env n"
  let ?K = "?k\<lparr>k_next_run_at := next, k_updated_at := ?c\<rparr>"
  have due: "claimable_task (k_id ?k) (k_next_run_at ?k) ?k" using assms(3) by (simp add: claimable_task_def)
  have "list_ex (claimable_task (k_id ?k) (k_next_run_at ?k)) (tasks (base s) (tv_AgentKind v))"
    using due assms(2) by (auto simp: list_ex_iff)
  then obtain s1 where c: "ClaimScheduledTask (k_id ?k) (k_next_run_at ?k) next ?c s = Inr (True, s1)"
    and t1: "tasks (base s1) (tv_AgentKind v) = map (\<lambda>k. if claimable_task (k_id ?k) (k_next_run_at ?k) k
        then k\<lparr>k_next_run_at := next, k_updated_at := ?c\<rparr> else k) (tasks (base s) (tv_AgentKind v))"
    using assms(1) by (auto simp: ClaimScheduledTask_def update_tasks_def list_ex_iff filter_empty_conv)
  have K: "?K \<in> set (tasks (base s1) (tv_AgentKind v))" using due assms(2) unfolding t1 by (auto intro: rev_image_eqI)
  obtain v1 where v1: "get_ScheduledTask (k_id ?k) s1 = Inr v1" "tv_AgentKind v1 = tv_AgentKind v"
    using get_task_kept[OF claim_joins[OF c] assms(1)] by blast
  let ?s' = "enqueue (env_error_text env) (env_rfc3339 env) (env_rfc3339_ok env) (env_uuid_ok env) task (env_newOp env n) (env_newEvent env n) now ?c s1"
  obtain status message oid at where "record_of status message oid now at ?K \<in> set (tasks (base ?s') (tv_AgentKind v))"
    "status \<in> {''failed'', ''skipped''} \<or> status = ''queued'' \<and> oid \<in> o_id ` set (operations (base ?s'))"
    using start_record[OF v1(1) K[folded v1(2)] _ refl, of now "env_error_text env" "env_rfc3339 env" "env_rfc3339_ok env"
        "env_uuid_ok env" "env_newOp env n" "env_newEvent env n" ?c] unfolding v1(2) by auto
  moreover have "run_task env now n task s = ?s'" using assms(4) c by (simp add: run_task_def Let_def)
  ultimately show ?thesis by (intro bexI[of _ "record_of status message oid now at ?K"]) (auto simp: moved_def record_of_def)
qed

lemma run_tasks_own:
  assumes "v \<in> set vs" and "distinct (map (k_id \<circ> tv_row) vs)" and "get_ScheduledTask (k_id (tv_row v)) s = Inr w"
    and "tv_row v \<in> set (tasks (base s) (tv_AgentKind w))" and "k_enabled (tv_row v)"
    and "next_run (env_zones env) (tv_row v) now = Inr next"
  shows "\<exists>k' \<in> set (tasks (base (run_tasks env now n vs s)) (tv_AgentKind w)). moved now next (tv_row v) k'"
  using assms
proof (induction vs arbitrary: n s w)
  case (Cons a vs)
  let ?s = "run_task env now n a s"
  show ?case
  proof (cases "v = a")
    case True
    then obtain k' where k': "k' \<in> set (tasks (base ?s) (tv_AgentKind w))" "moved now next (tv_row v) k'"
      using run_task_own[of v s w env now "next" n] Cons.prems by blast
    moreover have "k_id k' \<notin> (k_id \<circ> tv_row) ` set vs" using k'(2) Cons.prems(2) True by (auto simp: moved_def)
    ultimately show ?thesis using run_tasks_other[of k' ?s] by auto
  next
    case False
    then have v: "v \<in> set vs" using Cons.prems(1) by simp
    then have "(k_id \<circ> tv_row) v \<in> set (map (k_id \<circ> tv_row) vs)" unfolding set_map by (rule imageI)
    then have other: "k_id (tv_row v) \<noteq> k_id (tv_row a)" using Cons.prems(2) by auto
    obtain w' where w': "get_ScheduledTask (k_id (tv_row v)) ?s = Inr w'" "tv_AgentKind w' = tv_AgentKind w"
      using get_task_kept[OF run_task_joins Cons.prems(3)] by blast
    have "tv_row v \<in> set (tasks (base ?s) (tv_AgentKind w'))"
      unfolding w'(2) by (rule run_task_other[OF Cons.prems(4) other])
    from Cons.IH[OF v _ w'(1) this Cons.prems(5,6), of "Suc n"] Cons.prems(2) show ?thesis by (simp add: w'(2))
  qed
qed simp

lemma view_row:
  assumes "v \<in> set (scheduledTaskSelect s)"
  shows "tv_row v \<in> set (tasks (base s) (tv_AgentKind v))"
proof -
  have "tv_row v = k \<and> tv_AgentKind v = kind" if "task_view kind s k = Some v" for kind k
    using that by (auto simp: task_view_def split: option.splits)
  then show ?thesis
    using assms by (auto simp: scheduledTaskSelect_def views_of_def List.map_filter_def)
qed

lemma get_of_view:
  assumes "v \<in> set (scheduledTaskSelect s)" and "distinct (map (k_id \<circ> tv_row) (scheduledTaskSelect s))"
  shows "get_ScheduledTask (k_id (tv_row v)) s = Inr v"
proof -
  obtain w where w: "find (\<lambda>w. k_id (tv_row w) = k_id (tv_row v)) (scheduledTaskSelect s) = Some w"
    using assms(1) by (cases "find (\<lambda>w. k_id (tv_row w) = k_id (tv_row v)) (scheduledTaskSelect s)") (auto simp: find_None_iff)
  then have "w \<in> set (scheduledTaskSelect s) \<and> k_id (tv_row w) = k_id (tv_row v)" by (rule find_Some_mem)
  then have "w = v" using assms by (auto simp: distinct_map inj_on_def)
  then show ?thesis using w by (simp add: get_ScheduledTask_def find_row_def)
qed

lemma due_sub:
  "set (DueScheduledTasks now limit s) \<subseteq> {v \<in> set (scheduledTaskSelect s). k_enabled (tv_row v) \<and> k_next_run_at (tv_row v) \<le> now}"
  unfolding DueScheduledTasks_def by (auto dest!: in_set_takeD simp: task_due_def)

lemma due_distinct:
  assumes "distinct (map (k_id \<circ> tv_row) (scheduledTaskSelect s))"
  shows "distinct (map (k_id \<circ> tv_row) (DueScheduledTasks now limit s))"
proof -
  let ?xs = "filter (\<lambda>v. task_due now (tv_row v)) (scheduledTaskSelect s)"
  have "distinct (map (k_id \<circ> tv_row) ?xs)" using assms by (rule distinct_map_filter)
  then have "distinct (map (k_id \<circ> tv_row) (order_by (\<lambda>v. k_next_run_at (tv_row v)) ?xs))"
    by (simp add: order_by_def distinct_map)
  then show ?thesis unfolding DueScheduledTasks_def by (simp only: take_map[symmetric] distinct_take)
qed


section \<open>Witnesses\<close>

definition sample_task :: Task_row where
  "sample_task = \<lparr>k_id = ''k1'', k_thread_id = ''t1'', k_server_id = ''s1'', k_name = ''nightly'', k_prompt = ''check'',
     k_schedule = ''*/5 * * * *'', k_timezone = [], k_enabled = True, k_model = [], k_reasoning_effort = [], k_approval_mode = [],
     k_thinking_level = [], k_next_run_at = 0, k_last_run_at = None, k_last_run_status = [], k_last_run_message = [],
     k_last_operation_id = [], k_created_at = 0, k_updated_at = 0\<rparr>"

definition sample_tasks :: turn_db where
  "sample_tasks = \<lparr>base = sample_db\<lparr>threads := [\<lparr>t_id = ''t1'', t_workspace_id = ''w1'', t_codex_thread_id = ''c1'', t_title = ''wio'',
       t_status = ''idle'', t_pinned_at = None, t_archived_at = None, t_last_sequence = 0, t_created_at = 0, t_updated_at = 0\<rparr>],
       tasks := (\<lambda>_. [])(Codex := [sample_task])\<rparr>,
     gemini_threads = [], claude_threads = [], gemini_goals = [], claude_cli = (\<lambda>_. []), gemini_revision = (\<lambda>_. None)\<rparr>"

definition sample_env :: tick_env where
  "sample_env = \<lparr>env_zones = (\<lambda>_. None), env_error_text = (\<lambda>_. []), env_schedule_text = (\<lambda>_. []), env_rfc3339 = (\<lambda>_. ''now''),
     env_rfc3339_ok = (\<lambda>_. True), env_uuid_ok = (\<lambda>_. True), env_newOp = (\<lambda>_. ''o1''), env_newEvent = (\<lambda>_. ''e1''), env_clock = (\<lambda>_. 2)\<rparr>"

definition sample_view :: ScheduledTask where
  "sample_view = \<lparr>tv_row = sample_task, tv_AgentKind = Codex, tv_ThinkingLevel = [], tv_ThreadTitle = ''wio'', tv_WorkspaceID = ''w1'',
     tv_ProjectID = ''p1'', tv_ProjectName = ''wio'', tv_ServerName = ''host'', tv_ServerStatus = ''online'', tv_CodexThreadID = ''c1'',
     tv_WorkspacePath = ''/srv/wio''\<rparr>"

lemma sample_views: "scheduledTaskSelect sample_tasks = [sample_view]"
  by (simp add: scheduledTaskSelect_def views_of_def task_view_def task_session_def sample_tasks_def sample_db_def empty_db_def
      sample_task_def sample_view_def List.map_filter_simps)

lemma sample_next: "next_run (env_zones sample_env) sample_task 1 = Inr 300000000000"
proof -
  have "Next (\<lambda>_. None) ''*/5 * * * *'' '''' 1 = Some (Inr 300000000000)" by code_simp
  then show ?thesis by (simp add: next_run_def sample_env_def sample_task_def)
qed

lemma due_time_claimed_once_witness:
  "claims sample_env ''k1'' 0 [ClaimRun ''k1'' 0 300000000000 1, RecordRun ''k1'' ''queued'' [] ''o1'' 1 1, ClaimRun ''k1'' 0 300000000000 2] sample_tasks = 1"
proof -
  let ?as = "[ClaimRun ''k1'' 0 300000000000 1, RecordRun ''k1'' ''queued'' [] ''o1'' 1 1, ClaimRun ''k1'' 0 300000000000 2]"
  have g: "get_ScheduledTask ''k1'' sample_tasks = Inr sample_view"
    by (simp add: get_ScheduledTask_def find_row_def sample_views) (simp add: sample_view_def sample_task_def)
  have "fst (perform sample_env (ClaimRun ''k1'' 0 300000000000 1) sample_tasks)"
    by (simp add: ClaimScheduledTask_def g update_tasks_def)
      (simp add: sample_view_def sample_tasks_def sample_task_def claimable_task_def)
  then have "1 \<le> claims sample_env ''k1'' 0 ?as sample_tasks" by simp
  moreover have "claims sample_env ''k1'' 0 ?as sample_tasks \<le> 1" by (rule due_time_claimed_once) (simp add: ahead_def)
  ultimately show ?thesis by linarith
qed

lemma start_is_recorded_witness:
  "\<exists>status message oid at. record_of status message oid 1 at sample_task
      \<in> set (tasks (base (enqueue (\<lambda>_. []) (\<lambda>_. ''now'') (\<lambda>_. True) (\<lambda>_. True) sample_view ''o1'' ''e1'' 1 2 sample_tasks)) Codex)"
proof -
  have g: "get_ScheduledTask (k_id (tv_row sample_view)) sample_tasks = Inr sample_view"
    by (simp add: get_ScheduledTask_def find_row_def sample_views)
  have k: "tv_AgentKind sample_view = Codex" "sample_task \<in> set (tasks (base sample_tasks) Codex)" "k_id sample_task = k_id (tv_row sample_view)"
    by (simp_all add: sample_view_def sample_tasks_def)
  show ?thesis
    using start_is_recorded[OF g _ k(3) refl, of 1 "\<lambda>_. []" "\<lambda>_. ''now''" "\<lambda>_. True" "\<lambda>_. True" "''o1''" "''e1''" 2] k(2) unfolding k(1) by blast
qed


end
