(* ===== verification/Turn_Gateway.thy ===== *)
theory Turn_Gateway
  imports Task_Store
begin

text \<open>
  The gateway's handlers of Gemini and Claude sessions, internal/agentgateway/gemini.go and claude.go:
  the events of a turn, the results of its operations and the reports of ownership. A handler is a
  sequence of transactions: on an error the earlier ones stay. Its state is the database with the
  events handed to the hub, in order; \<open>newID\<close> and \<open>clock\<close> are the fresh identifier and the time of its
  statements, \<open>uuid_ok\<close> the check of the UUID package.
\<close>

section \<open>Sequences of transactions\<close>

type_synonym gateway = "turn_db \<times> StreamEvent list"
type_synonym 'a effect = "gateway \<Rightarrow> (go_error + 'a) \<times> gateway"

definition pure_effect :: "'a \<Rightarrow> 'a effect" where
  "pure_effect a g = (Inr a, g)"

definition fail_effect :: "go_error \<Rightarrow> 'a effect" where
  "fail_effect e g = (Inl e, g)"

definition and_then :: "'a effect \<Rightarrow> ('a \<Rightarrow> 'b effect) \<Rightarrow> 'b effect" where
  "and_then m f g = (case m g of (Inl e, g') \<Rightarrow> (Inl e, g') | (Inr a, g') \<Rightarrow> f a g')"

text \<open>A read, one transaction, and a value computed without the database.\<close>

definition ask :: "(turn_db \<Rightarrow> go_error + 'a) \<Rightarrow> 'a effect" where
  "ask q g = (q (fst g), g)"

definition commit :: "(turn_db \<Rightarrow> go_error + 'a \<times> turn_db) \<Rightarrow> 'a effect" where
  "commit t g = (case t (fst g) of Inl e \<Rightarrow> (Inl e, g) | Inr (a, s') \<Rightarrow> (Inr a, (s', snd g)))"

definition value_of :: "go_error + 'a \<Rightarrow> 'a effect" where
  "value_of r g = (r, g)"

definition hub_publish :: "StreamEvent \<Rightarrow> unit effect" where
  "hub_publish e g = (Inr (), (fst g, snd g @ [e]))"

definition on_base :: "(db \<Rightarrow> go_error + 'a \<times> db) \<Rightarrow> turn_db \<Rightarrow> go_error + 'a \<times> turn_db" where
  "on_base t s = try_then (t (base s)) (\<lambda>(a, d). Inr (a, s\<lparr>base := d\<rparr>))"

definition publish :: "string \<Rightarrow> instant \<Rightarrow> StreamEvent \<Rightarrow> unit effect" where
  "publish newID clock event = and_then (commit (on_base (AddEvent newID clock event))) hub_publish"

definition new_event :: "string \<Rightarrow> string \<Rightarrow> string \<Rightarrow> raw_message \<Rightarrow> StreamEvent" where
  "new_event eid sid kind payload =
     \<lparr>EventID = eid, StreamID = sid, Sequence = 0, EventKind = kind, OccurredAt = zero_time, EventPayload = payload\<rparr>"

section \<open>Documents of the Agent\<close>

definition decode_payload :: "raw_message \<Rightarrow> (json \<Rightarrow> 'a option) \<Rightarrow> go_error + 'a" where
  "decode_payload raw dec = (case (case raw of None \<Rightarrow> None | Some d \<Rightarrow> dec d) of None \<Rightarrow> Inl BadJSON | Some a \<Rightarrow> Inr a)"

definition strs3 :: "string \<Rightarrow> string \<Rightarrow> string \<Rightarrow> json \<Rightarrow> (string \<times> string \<times> string) option" where
  "strs3 a b c d = (case (str_field a d, str_field b d, str_field c d) of (Some x, Some y, Some z) \<Rightarrow> Some (x, y, z) | _ \<Rightarrow> None)"

text \<open>\<open>GeminiInterruptCommand\<close>, \<open>ClaudeInterruptCommand\<close>: thread, operation, recovery pending.\<close>

definition decode_interrupt :: "json \<Rightarrow> (string \<times> string \<times> bool) option" where
  "decode_interrupt d =
     (case (str_field ''thread_id'' d, str_field ''operation_id'' d, bool_field ''recovery_pending'' d) of
        (Some t, Some oid, Some r) \<Rightarrow> Some (t, oid, r) | _ \<Rightarrow> None)"

text \<open>\<open>GeminiInterruptResult\<close>: the receipt that the process of an operation has stopped.\<close>

definition stop_confirmed :: "raw_message option \<Rightarrow> string \<Rightarrow> bool" where
  "stop_confirmed raw oid =
     (case raw of Some (Some d) \<Rightarrow> bool_field ''stopped'' d = Some True \<and> str_field ''operation_id'' d = Some oid | _ \<Rightarrow> False)"

record SteerCommand =
  sc_ThreadID :: string
  sc_OperationID :: string
  sc_RequestID :: string
  sc_Prompt :: string
  sc_Images :: turn_images

definition decode_steer :: "json \<Rightarrow> SteerCommand option" where
  "decode_steer d =
     (case (strs3 ''thread_id'' ''operation_id'' ''request_id'' d, str_field ''prompt'' d, array_field decode_image ''images'' d) of
        (Some (t, oid, r), Some p, Some im) \<Rightarrow>
          Some \<lparr>sc_ThreadID = t, sc_OperationID = oid, sc_RequestID = r, sc_Prompt = p, sc_Images = im\<rparr>
      | _ \<Rightarrow> None)"

definition encode_steer :: "SteerCommand \<Rightarrow> json" where
  "encode_steer c = JObj (str_entry ''thread_id'' (sc_ThreadID c) @ str_entry ''operation_id'' (sc_OperationID c) @
     str_entry ''request_id'' (sc_RequestID c) @ str_entry ''prompt'' (sc_Prompt c) @
     omit_list ''images'' (map encode_image (image_list (sc_Images c))))"

definition payload_of :: "Operation \<Rightarrow> raw_message" where
  "payload_of o1 = stored_json (o_payload o1)"

definition ClaudeOwnershipLostMessage :: string where
  "ClaudeOwnershipLostMessage = ''Agent no longer owns this Claude task; verify the old CLI process before recovering the session''"

definition GeminiOwnershipLostMessage :: string where
  "GeminiOwnershipLostMessage = ''Agent no longer owns this Gemini task; it may have restarted. Verify the old CLI process before recovering the session''"

definition ClaudeSteerUnconfirmedMessage :: string where
  "ClaudeSteerUnconfirmedMessage = ''Claude did not confirm the instruction; check its delivery status before sending it again''"

section \<open>Transactions on sessions\<close>

text \<open>The first event of the CLI: its session, and the turn runs unless it is being interrupted.\<close>

definition bind_session :: "string \<Rightarrow> string \<Rightarrow> string \<Rightarrow> instant \<Rightarrow> db \<Rightarrow> Session_row list \<Rightarrow> Session_row list" where
  "bind_session i oid sessionID now d rows =
     snd (update_rows (holds_session i oid d)
       (\<lambda>r. r\<lparr>se_session_id := sessionID,
              se_status := (if se_status r \<in> {''interrupting'', ''interrupted''} then se_status r else ''running''),
              se_updated_at := now\<rparr>) rows)"

definition bind_gemini :: "string \<Rightarrow> string \<Rightarrow> string \<Rightarrow> instant \<Rightarrow> turn_db \<Rightarrow> go_error + unit \<times> turn_db" where
  "bind_gemini i oid sessionID now s = Inr ((), s\<lparr>gemini_threads := bind_session i oid sessionID now (base s) (gemini_threads s)\<rparr>)"

definition bind_claude :: "string \<Rightarrow> string \<Rightarrow> string \<Rightarrow> instant \<Rightarrow> turn_db \<Rightarrow> go_error + unit \<times> turn_db" where
  "bind_claude i oid sessionID now s = Inr ((), s\<lparr>claude_threads := bind_session i oid sessionID now (base s) (claude_threads s)\<rparr>)"

definition set_gemini_mode :: "string \<Rightarrow> string \<Rightarrow> string \<Rightarrow> instant \<Rightarrow> turn_db \<Rightarrow> go_error + unit \<times> turn_db" where
  "set_gemini_mode i oid mode now s = Inr ((), s\<lparr>gemini_threads :=
     snd (update_rows (holds_session i oid (base s)) (\<lambda>r. r\<lparr>se_mode := mode, se_updated_at := now\<rparr>) (gemini_threads s))\<rparr>)"

text \<open>An interruption that failed gives the turn back.\<close>

definition still_interrupting :: "string \<Rightarrow> string \<Rightarrow> Session_row \<Rightarrow> bool" where
  "still_interrupting i oid r \<longleftrightarrow> se_id r = i \<and> se_operation_id r = oid \<and> se_status r = ''interrupting''"

definition undo_claude_interrupt :: "string \<Rightarrow> string \<Rightarrow> bool \<Rightarrow> instant \<Rightarrow> turn_db \<Rightarrow> go_error + unit \<times> turn_db" where
  "undo_claude_interrupt i oid recovery now s = Inr ((), s\<lparr>claude_threads :=
     snd (update_rows (still_interrupting i oid)
       (\<lambda>r. r\<lparr>se_status := (if recovery then ''interrupted'' else ''running''), se_updated_at := now\<rparr>) (claude_threads s))\<rparr>)"

definition reactivate_goal :: "string \<Rightarrow> string \<Rightarrow> instant \<Rightarrow> turn_db \<Rightarrow> go_error + turn_db" where
  "reactivate_goal i oid now s =
     try_then (update_goals (\<lambda>g. g_thread_id g = i \<and> g_operation_id g = oid \<and> g_status g \<in> {''paused'', ''cancelled''})
         (\<lambda>g. g\<lparr>g_status := ''active'', g_updated_at := now\<rparr>) s) (\<lambda>(_, s'). Inr s')"

definition undo_gemini_interrupt :: "string \<Rightarrow> string \<Rightarrow> bool \<Rightarrow> instant \<Rightarrow> turn_db \<Rightarrow> go_error + unit \<times> turn_db" where
  "undo_gemini_interrupt i oid recovery now s =
     (case update_rows (still_interrupting i oid)
         (\<lambda>r. r\<lparr>se_status := (if recovery then ''interrupted'' else ''running'')\<rparr>) (gemini_threads s) of
       (n, rows) \<Rightarrow>
         let s1 = s\<lparr>gemini_threads := rows\<rparr> in
         try_then (if n = 1 \<and> \<not> recovery then reactivate_goal i oid now s1 else Inr s1) (\<lambda>s2. Inr ((), s2)))"

text \<open>A turn ends: \<open>RETURNING status\<close>, the status of the row after the update.\<close>

definition end_claude_turn :: "string \<Rightarrow> string \<Rightarrow> string \<Rightarrow> instant \<Rightarrow> turn_db \<Rightarrow> go_error + string \<times> turn_db" where
  "end_claude_turn i oid status now s =
     (case end_session_turn i oid status now (claude_threads s) of
       (n, rows) \<Rightarrow>
         try_then (find_row (\<lambda>r. se_id r = i \<and> se_operation_id r = oid) rows) (\<lambda>r. Inr (se_status r, s\<lparr>claude_threads := rows\<rparr>)))"

text \<open>
  The Agent reports that it lost or still has the process of a turn that was handed out. The result is
  whether a session changed.
\<close>

definition ownership_rows :: "string \<Rightarrow> string \<Rightarrow> bool \<Rightarrow> instant \<Rightarrow> Session_row list \<Rightarrow> nat \<times> Session_row list" where
  "ownership_rows i oid alive now rows =
     update_rows (\<lambda>r. se_id r = i \<and> se_operation_id r = oid \<and>
         (if alive then se_status r = ''interrupted'' else se_status r \<in> {''queued'', ''running'', ''interrupting''}))
       (\<lambda>r. r\<lparr>se_status := (if alive then ''running'' else ''interrupted''), se_updated_at := now\<rparr>) rows"

definition owned_by :: "string \<Rightarrow> string \<Rightarrow> db \<Rightarrow> bool" where
  "owned_by oid serverID d \<longleftrightarrow>
     list_ex (\<lambda>o1. o_id o1 = oid \<and> o_server_id o1 = serverID \<and> o_status o1 \<in> {''delivered'', ''running''}) (operations d)"

definition claude_ownership :: "string \<Rightarrow> string \<Rightarrow> string \<Rightarrow> bool \<Rightarrow> instant \<Rightarrow> turn_db \<Rightarrow> go_error + bool \<times> turn_db" where
  "claude_ownership serverID i oid alive now s =
     (if \<not> owned_by oid serverID (base s) then Inr (False, s)
      else case ownership_rows i oid alive now (claude_threads s) of
        (n, rows) \<Rightarrow> Inr (n \<noteq> 0, if n = 0 then s else s\<lparr>claude_threads := rows\<rparr>))"

definition ownership_payload :: "string \<Rightarrow> bool \<Rightarrow> json" where
  "ownership_payload oid alive = JObj [(''operation_id'', JStr oid), (''recovery_pending'', JBool (\<not> alive)),
     (''status'', JStr (if alive then ''running'' else ''interrupted''))]"

definition gemini_ownership :: "string \<Rightarrow> string \<Rightarrow> string \<Rightarrow> bool \<Rightarrow> string \<Rightarrow> instant \<Rightarrow> turn_db \<Rightarrow> go_error + StreamEvent option \<times> turn_db" where
  "gemini_ownership serverID i oid alive newID now s =
     (if \<not> owned_by oid serverID (base s) then Inr (None, s)
      else case ownership_rows i oid alive now (gemini_threads s) of
        (n, rows) \<Rightarrow>
          if n = 0 then Inr (None, s)
          else (let s1 = s\<lparr>gemini_threads := rows\<rparr> in
            try_then (if alive then reactivate_goal i oid now s1 else Inr s1) (\<lambda>s2.
            try_then (append_event newID i (if alive then ''gemini.turn.ownership_active'' else ''gemini.turn.ownership_lost'') now
                (ownership_payload oid alive) (base s2)) (\<lambda>(e, d). Inr (Some e, s2\<lparr>base := d\<rparr>)))))"

section \<open>Events of a turn\<close>

text \<open>Events are taken while the turn is under way, or its process may still run.\<close>

definition under_way :: "Session_view \<Rightarrow> bool" where
  "under_way v \<longleftrightarrow> se_status (v_row v) \<in> {''queued'', ''running'', ''interrupting''} \<or> v_RecoveryPending v"

definition redacted_event :: "StreamEvent \<Rightarrow> StreamEvent" where
  "redacted_event e = e\<lparr>EventPayload := RedactJSON (EventPayload e)\<rparr>"

definition gemini_event_kinds :: "string list" where
  "gemini_event_kinds = [''gemini.message'', ''gemini.activity'', ''gemini.commands'', ''gemini.tool_use'', ''gemini.tool_result'',
     ''gemini.error'', ''gemini.result'', ''gemini.question'', ''gemini.question.answered'', ''gemini.steer.ready'',
     ''gemini.steer.applied'', ''gemini.goal.progress'', ''gemini.goal.usage'', ''gemini.goal.diagnostic'']"

definition gemini_event_check :: "string \<Rightarrow> string \<Rightarrow> string \<Rightarrow> go_error + unit" where
  "gemini_event_check kind sessionID mode =
     (if kind = ''gemini.init''
      then require (sessionID \<noteq> [] \<and> length sessionID \<le> 128) (Err ''invalid Gemini session id'')
      else if kind = ''gemini.mode''
      then require (mode \<in> {''default'', ''auto_edit'', ''yolo'', ''plan''}) (Err ''invalid Gemini approval mode update'')
      else require (kind \<in> set gemini_event_kinds) (Err ''unsupported Gemini event''))"

definition decode_progress :: "json \<Rightarrow> GeminiGoalProgress option" where
  "decode_progress d =
     (case (strs3 ''operation_id'' ''goal_id'' ''report'' d, int_field ''continuations'' d, str_field ''evidence'' d) of
        (Some (oid, gid, report), Some n, Some evidence) \<Rightarrow>
          Some \<lparr>gp_OperationID = oid, gp_GoalID = gid, gp_Continuations = n, gp_Report = report, gp_Evidence = evidence\<rparr>
      | _ \<Rightarrow> None)"

definition publish_replacement :: "StreamEvent option \<Rightarrow> unit effect" where
  "publish_replacement e = (case e of None \<Rightarrow> pure_effect () | Some r \<Rightarrow> hub_publish r)"

definition gemini_init :: "string \<Rightarrow> string \<Rightarrow> string \<Rightarrow> instant \<Rightarrow> unit effect" where
  "gemini_init i oid sessionID clock =
     and_then (ask (\<lambda>s. operation_row oid (base s))) (\<lambda>operation.
     and_then (if o_kind operation = ''gemini.turn.rewrite''
       then and_then (commit (CommitGeminiRewrite i oid sessionID clock)) publish_replacement else pure_effect ()) (\<lambda>_.
     commit (bind_gemini i oid sessionID clock)))"

definition gemini_progress :: "string \<Rightarrow> raw_message \<Rightarrow> instant \<Rightarrow> unit effect" where
  "gemini_progress i raw clock =
     and_then (value_of (decode_payload raw decode_progress)) (\<lambda>p.
     commit (\<lambda>s. try_then (UpdateGeminiGoalProgress i p clock s) (\<lambda>s'. Inr ((), s'))))"

definition handleGeminiEvent :: "string \<Rightarrow> StreamEvent \<Rightarrow> string \<Rightarrow> instant \<Rightarrow> unit effect" where
  "handleGeminiEvent serverID event newID clock =
     and_then (ask (get_GeminiThread (StreamID event) clock)) (\<lambda>thread.
     and_then (value_of (require (v_ServerID thread = serverID) (Err ''Gemini event server mismatch''))) (\<lambda>_.
     and_then (value_of (decode_payload (EventPayload event) (strs3 ''operation_id'' ''session_id'' ''approval_mode''))) (\<lambda>(oid, sessionID, mode).
     if oid = [] \<or> oid \<noteq> se_operation_id (v_row thread) then pure_effect ()
     else and_then (value_of (gemini_event_check (EventKind event) sessionID mode)) (\<lambda>_.
     if \<not> under_way thread then pure_effect ()
     else (let redacted = redacted_event event; i = se_id (v_row thread) in
       and_then (if EventKind event = ''gemini.init'' then gemini_init i oid sessionID clock
                 else if EventKind event = ''gemini.mode'' then commit (set_gemini_mode i oid mode clock)
                 else if EventKind event = ''gemini.goal.progress'' then gemini_progress i (EventPayload redacted) clock
                 else pure_effect ()) (\<lambda>_.
       publish newID clock redacted))))))"

definition claude_event_kinds :: "string list" where
  "claude_event_kinds = [''claude.steer.ready'', ''claude.steer.closed'', ''claude.compaction.started'', ''claude.compaction.completed'',
     ''claude.compaction.failed'', ''claude.question'', ''claude.question.answered'', ''claude.question.cancelled'', ''claude.message'',
     ''claude.tool_use'', ''claude.tool_result'', ''claude.notice'', ''claude.result'']"

text \<open>The session that the CLI reports: the one of the row, or a new one that is not the source of a fork.\<close>

definition claude_session_ok :: "(string \<Rightarrow> bool) \<Rightarrow> Session_row \<Rightarrow> string \<Rightarrow> bool" where
  "claude_session_ok uuid_ok r sessionID \<longleftrightarrow> uuid_ok sessionID \<and>
     \<not> (se_session_id r \<noteq> [] \<and> se_session_id r \<noteq> sessionID) \<and>
     \<not> (se_session_id r = [] \<and> se_fork_session_id r \<noteq> [] \<and> se_fork_session_id r = sessionID)"

definition claude_init_command :: "string \<Rightarrow> Operation \<Rightarrow> go_error + ClaudeTurnCommand" where
  "claude_init_command serverID op =
     (case decode_payload (payload_of op) decode_ClaudeTurnCommand of
        Inl _ \<Rightarrow> Inl (Err ''invalid Claude init operation'')
      | Inr command \<Rightarrow>
          if o_kind op \<noteq> ''claude.turn.start'' \<or> o_server_id op \<noteq> serverID then Inl (Err ''invalid Claude init operation'')
          else Inr command)"

text \<open>
  The result says whether the event goes on. A rewrite whose session is no longer claimed is dropped
  silently; a committed one makes the reported session the session of the row.
\<close>

definition claude_rewrite_committed :: "(string \<Rightarrow> bool) \<Rightarrow> string \<Rightarrow> string \<Rightarrow> string \<Rightarrow> instant \<Rightarrow> bool effect" where
  "claude_rewrite_committed uuid_ok i oid sessionID clock g =
     (case commit (CommitClaudeRewrite uuid_ok i oid sessionID clock) g of
        (Inl e, g') \<Rightarrow> (if e = ErrThreadActive then Inr False else Inl e, g')
      | (Inr r, g') \<Rightarrow> and_then (publish_replacement r) (\<lambda>_. pure_effect True) g')"

definition claude_init :: "(string \<Rightarrow> bool) \<Rightarrow> string \<Rightarrow> Session_row \<Rightarrow> string \<Rightarrow> string \<Rightarrow> instant \<Rightarrow> bool effect" where
  "claude_init uuid_ok serverID row oid sessionID clock =
     and_then (ask (\<lambda>s. operation_row oid (base s))) (\<lambda>op.
     and_then (value_of (claude_init_command serverID op)) (\<lambda>command.
     and_then (if ct_Rewrite command \<noteq> None then claude_rewrite_committed uuid_ok (se_id row) (o_id op) sessionID clock else pure_effect True) (\<lambda>go.
     if \<not> go then pure_effect False
     else (let r = (if ct_Rewrite command \<noteq> None then row\<lparr>se_session_id := sessionID\<rparr> else row) in
       and_then (value_of (require (claude_session_ok uuid_ok r sessionID) (Err ''invalid Claude session ID''))) (\<lambda>_.
       and_then (commit (bind_claude (se_id row) oid sessionID clock)) (\<lambda>_.
       and_then (commit (\<lambda>s. Inr ((), MarkScheduledTaskByOperation oid ''running'' [] clock s))) (\<lambda>_.
       pure_effect True)))))))"

text \<open>The steering command of a request, and the event that reports it.\<close>

definition ClaudeSteerCommand :: "string \<Rightarrow> string \<Rightarrow> db \<Rightarrow> go_error + SteerCommand" where
  "ClaudeSteerCommand threadID requestID d =
     try_then (find_row (\<lambda>o1. o_kind o1 = ''claude.turn.steer'' \<and> o_idempotency_key o1 = ''claude-steer:'' @ threadID @ '':'' @ requestID) (operations d))
       (\<lambda>o1. decode_payload (payload_of o1) decode_steer)"

definition claude_steer_event :: "string \<Rightarrow> string \<Rightarrow> SteerCommand \<Rightarrow> StreamEvent \<Rightarrow> StreamEvent" where
  "claude_steer_event i requestID c event = event\<lparr>
     EventID := ''claude-steer:'' @ i @ '':'' @ requestID @ '':'' @ EventKind event,
     EventPayload := Some (JObj
       ((if EventKind event = ''claude.steer.applied'' then [(''images'', encode_images (sc_Images c))] else []) @
        (if EventKind event = ''claude.steer.unconfirmed'' then [(''message'', JStr ClaudeSteerUnconfirmedMessage)] else []) @
        [(''operation_id'', JStr (sc_OperationID c)), (''request_id'', JStr (sc_RequestID c))] @
        (if EventKind event = ''claude.steer.applied'' then [(''text'', JStr (sc_Prompt c))] else [])))\<rparr>"

text \<open>What the kind of the event asks for: \<open>None\<close> ends the handler without an error.\<close>

definition claude_event_step :: "(string \<Rightarrow> bool) \<Rightarrow> string \<Rightarrow> Session_row \<Rightarrow> StreamEvent \<Rightarrow> string \<Rightarrow> string \<Rightarrow> string \<Rightarrow> instant \<Rightarrow> StreamEvent option effect" where
  "claude_event_step uuid_ok serverID row event oid sessionID requestID clock =
     (if EventKind event = ''claude.init''
      then and_then (claude_init uuid_ok serverID row oid sessionID clock) (\<lambda>go. pure_effect (if go then Some event else None))
      else if EventKind event \<in> {''claude.steer.accepted'', ''claude.steer.applied'', ''claude.steer.unconfirmed''}
      then (\<lambda>g. case ClaudeSteerCommand (se_id row) requestID (base (fst g)) of
              Inl _ \<Rightarrow> (Inr None, g)
            | Inr c \<Rightarrow> (Inr (if sc_ThreadID c \<noteq> se_id row \<or> sc_OperationID c \<noteq> oid then None
                              else Some (claude_steer_event (se_id row) requestID c event)), g))
      else if EventKind event \<in> set claude_event_kinds then pure_effect (Some event)
      else fail_effect (Err ''unsupported Claude event''))"

definition handleClaudeEvent :: "(string \<Rightarrow> bool) \<Rightarrow> string \<Rightarrow> StreamEvent \<Rightarrow> string \<Rightarrow> instant \<Rightarrow> unit effect" where
  "handleClaudeEvent uuid_ok serverID event newID clock =
     and_then (ask (get_ClaudeThread (StreamID event) clock)) (\<lambda>thread.
     and_then (value_of (require (v_ServerID thread = serverID) (Err ''Claude event server mismatch''))) (\<lambda>_.
     and_then (value_of (decode_payload (EventPayload event) (strs3 ''operation_id'' ''session_id'' ''request_id''))) (\<lambda>(oid, sessionID, requestID).
     if oid = [] \<or> oid \<noteq> se_operation_id (v_row thread) then pure_effect ()
     else and_then (claude_event_step uuid_ok serverID (v_row thread) event oid sessionID requestID clock) (\<lambda>next.
     case next of
       None \<Rightarrow> pure_effect ()
     | Some e \<Rightarrow> if \<not> under_way thread then pure_effect () else publish newID clock (redacted_event e)))))"

section \<open>Results of operations\<close>

definition redacted_new :: "string \<Rightarrow> string \<Rightarrow> string \<Rightarrow> (string \<times> json) list \<Rightarrow> StreamEvent" where
  "redacted_new eid sid kind entries = new_event eid sid kind (RedactJSON (Some (JObj entries)))"

text \<open>The status of a session after a turn, from the result and, for Gemini, a pending interruption.\<close>

definition claude_turn_status :: "string \<Rightarrow> string" where
  "claude_turn_status status =
     (if status = ''cancelled'' \<or> status = ''interrupted'' then ''interrupted''
      else if status \<noteq> ''succeeded'' then ''failed'' else ''idle'')"

definition gemini_turn_status :: "string \<Rightarrow> OperationResult \<Rightarrow> string" where
  "gemini_turn_status session r =
     (if session = ''interrupting'' \<or> ResultStatus r = ''interrupted'' \<or> ResultStatus r = ''cancelled'' \<or>
         ResultStatus r = ''failed'' \<and> ResultMessage r = ''context canceled'' then ''interrupted''
      else if ResultStatus r \<noteq> ''succeeded'' then ''failed'' else ''idle'')"

definition claude_turn_completed :: "Operation \<Rightarrow> OperationResult \<Rightarrow> string \<Rightarrow> instant \<Rightarrow> unit effect" where
  "claude_turn_completed op r newID clock =
     and_then (value_of (decode_payload (payload_of op) decode_ClaudeTurnCommand)) (\<lambda>command g.
     case commit (end_claude_turn (ct_ThreadID command) (o_id op) (claude_turn_status (ResultStatus r)) clock) g of
       (Inl e, g') \<Rightarrow> (if e = ErrNoRows then Inr () else Inl e, g')
     | (Inr status, g') \<Rightarrow>
         and_then (commit (\<lambda>s. Inr ((), MarkScheduledTaskByOperation (o_id op) (ResultStatus r) (ResultMessage r) clock s))) (\<lambda>_.
         publish newID clock (redacted_new (o_id op @ '':completed'') (ct_ThreadID command) ''claude.turn.completed''
           [(''message'', JStr (ResultMessage r)), (''operation_id'', JStr (o_id op)), (''status'', JStr status)])) g')"

definition claude_steer_failed :: "Operation \<Rightarrow> OperationResult \<Rightarrow> string \<Rightarrow> instant \<Rightarrow> unit effect" where
  "claude_steer_failed op r newID clock =
     and_then (value_of (decode_payload (payload_of op) decode_steer)) (\<lambda>c.
     let kind = (if ResultMessage r = ClaudeSteerUnconfirmedMessage then ''claude.steer.unconfirmed'' else ''claude.steer.rejected'') in
     publish newID clock (redacted_new (''claude-steer:'' @ sc_ThreadID c @ '':'' @ sc_RequestID c @ '':'' @ kind) (sc_ThreadID c) kind
       [(''message'', JStr (ResultMessage r)), (''operation_id'', JStr (sc_OperationID c)), (''request_id'', JStr (sc_RequestID c))]))"

definition updateClaudeOwnership :: "string \<Rightarrow> string \<Rightarrow> bool \<Rightarrow> string \<Rightarrow> instant \<Rightarrow> unit effect" where
  "updateClaudeOwnership serverID oid alive newID clock =
     and_then (ask (\<lambda>s. operation_row oid (base s))) (\<lambda>op.
     and_then (value_of (require (o_server_id op = serverID \<and> o_kind op = ''claude.turn.start'') (Err ''Claude ownership check operation mismatch''))) (\<lambda>_.
     and_then (value_of (decode_payload (payload_of op) decode_ClaudeTurnCommand)) (\<lambda>command.
     and_then (commit (claude_ownership serverID (ct_ThreadID command) oid alive clock)) (\<lambda>changed.
     if \<not> changed then pure_effect ()
     else publish newID clock (new_event [] (ct_ThreadID command) ''claude.turn.ownership'' (Some (ownership_payload oid alive)))))))"

definition stopped_result :: "string \<Rightarrow> string \<Rightarrow> OperationResult" where
  "stopped_result oid message = \<lparr>ResultOperationID = oid, ResultStatus = ''cancelled'', ResultMessage = message, ResultData = None\<rparr>"

text \<open>
  \<open>rest\<close> is the handler for the original operation of an interruption. It is called with a cancelled
  result, for which this branch is not taken again.
\<close>

definition claude_interrupted ::
    "(Operation \<Rightarrow> OperationResult \<Rightarrow> unit effect) \<Rightarrow> Operation \<Rightarrow> OperationResult \<Rightarrow> string \<Rightarrow> instant \<Rightarrow> unit effect" where
  "claude_interrupted rest op r newID clock =
     and_then (value_of (decode_payload (payload_of op) decode_interrupt)) (\<lambda>(i, oid, recovery).
     if ResultStatus r = ''succeeded'' then
       (if \<not> stop_confirmed (ResultData r) oid then pure_effect ()
        else and_then (ask (\<lambda>s. operation_row oid (base s))) (\<lambda>original.
          let stopped = stopped_result oid ''Claude process terminated'' in
          and_then (commit (on_base (CompleteOperationIfActive stopped clock))) (\<lambda>claimed.
          if \<not> claimed then pure_effect () else rest original stopped)))
     else if ResultMessage r = ClaudeOwnershipLostMessage then updateClaudeOwnership (o_server_id op) oid False newID clock
     else and_then (commit (undo_claude_interrupt i oid recovery clock)) (\<lambda>_.
       publish newID clock (new_event (o_id op @ '':interrupt-failed'') i ''claude.notice'' (Some (JObj [(''operation_id'', JStr oid),
         (''text'', JStr ''Could not confirm Claude process termination; the task may still be running.'')])))))"

definition claude_completed ::
    "(Operation \<Rightarrow> OperationResult \<Rightarrow> unit effect) \<Rightarrow> string \<Rightarrow> instant \<Rightarrow> Operation \<Rightarrow> OperationResult \<Rightarrow> unit effect" where
  "claude_completed rest newID clock op r =
     (if o_kind op = ''claude.question.answer'' then pure_effect ()
      else if o_kind op = ''claude.turn.steer''
      then (if ResultStatus r = ''succeeded'' then pure_effect () else claude_steer_failed op r newID clock)
      else if o_kind op = ''claude.turn.interrupt'' then claude_interrupted rest op r newID clock
      else claude_turn_completed op r newID clock)"

definition completeClaudeOperation :: "string \<Rightarrow> instant \<Rightarrow> Operation \<Rightarrow> OperationResult \<Rightarrow> unit effect" where
  "completeClaudeOperation newID clock = claude_completed (claude_completed (\<lambda>_ _. pure_effect ()) newID clock) newID clock"

text \<open>Gemini: the interruption of a session that is no longer interrupting changes nothing.\<close>

definition updateGeminiOwnership :: "string \<Rightarrow> string \<Rightarrow> bool \<Rightarrow> string \<Rightarrow> instant \<Rightarrow> unit effect" where
  "updateGeminiOwnership serverID oid alive newID clock =
     and_then (ask (\<lambda>s. operation_row oid (base s))) (\<lambda>op.
     and_then (value_of (require (o_server_id op = serverID \<and> o_kind op \<in> set gemini_turn_kinds) (Err ''Gemini ownership check operation mismatch''))) (\<lambda>_.
     and_then (value_of (decode_payload (payload_of op) decode_GeminiTurnCommand)) (\<lambda>command.
     and_then (commit (gemini_ownership serverID (gt_ThreadID command) oid alive newID clock)) publish_replacement)))"

definition markGeminiOwnershipLost :: "string \<Rightarrow> string \<Rightarrow> string \<Rightarrow> instant \<Rightarrow> unit effect" where
  "markGeminiOwnershipLost serverID oid = updateGeminiOwnership serverID oid False"

definition markGeminiOwnershipActive :: "string \<Rightarrow> string \<Rightarrow> string \<Rightarrow> instant \<Rightarrow> unit effect" where
  "markGeminiOwnershipActive serverID oid = updateGeminiOwnership serverID oid True"

definition gemini_turn_completed :: "Operation \<Rightarrow> OperationResult \<Rightarrow> string \<Rightarrow> instant \<Rightarrow> unit effect" where
  "gemini_turn_completed op r newID clock =
     and_then (value_of (decode_payload (payload_of op) decode_GeminiTurnCommand)) (\<lambda>command.
     and_then (ask (get_GeminiThread (gt_ThreadID command) clock)) (\<lambda>thread.
     if se_operation_id (v_row thread) \<noteq> o_id op then pure_effect ()
     else (let status = gemini_turn_status (se_status (v_row thread)) r in
       and_then (commit (\<lambda>s. try_then (CompleteGeminiTurn (gt_ThreadID command) (o_id op) status clock s) (\<lambda>s'. Inr ((), s')))) (\<lambda>_.
       and_then (commit (\<lambda>s. Inr ((), MarkScheduledTaskByOperation (o_id op)
           (if status = ''interrupted'' then ''cancelled'' else ResultStatus r) (ResultMessage r) clock s))) (\<lambda>_.
       publish newID clock (redacted_new (o_id op @ '':completed'') (gt_ThreadID command) ''gemini.turn.completed''
         [(''message'', JStr (ResultMessage r)), (''operation_id'', JStr (o_id op)), (''status'', JStr status)]))))))"

definition gemini_steer_failed :: "Operation \<Rightarrow> OperationResult \<Rightarrow> string \<Rightarrow> instant \<Rightarrow> unit effect" where
  "gemini_steer_failed op r newID clock =
     and_then (value_of (decode_payload (payload_of op) decode_steer)) (\<lambda>c.
     publish newID clock (redacted_new (o_id op @ '':rejected'') (sc_ThreadID c) ''gemini.steer.rejected''
       [(''message'', JStr (ResultMessage r)), (''operation_id'', JStr (sc_OperationID c)), (''request_id'', JStr (sc_RequestID c))]))"

definition gemini_interrupted ::
    "(Operation \<Rightarrow> OperationResult \<Rightarrow> unit effect) \<Rightarrow> Operation \<Rightarrow> OperationResult \<Rightarrow> string \<Rightarrow> instant \<Rightarrow> unit effect" where
  "gemini_interrupted rest op r newID clock =
     and_then (value_of (decode_payload (payload_of op) decode_interrupt)) (\<lambda>(i, oid, recovery).
     if ResultStatus r = ''succeeded'' then
       (if \<not> stop_confirmed (ResultData r) oid then pure_effect ()
        else and_then (ask (get_GeminiThread i clock)) (\<lambda>thread.
          if se_operation_id (v_row thread) \<noteq> oid \<or> se_status (v_row thread) \<noteq> ''interrupting'' then pure_effect ()
          else and_then (ask (\<lambda>s. operation_row oid (base s))) (\<lambda>original.
            let stopped = stopped_result oid ''Gemini process terminated'' in
            and_then (commit (on_base (\<lambda>d. try_then (CompleteOperation stopped clock d) (\<lambda>d'. Inr ((), d'))))) (\<lambda>_.
            and_then (ask (\<lambda>s. operation_row oid (base s))) (\<lambda>completed.
            if o_status completed \<noteq> ''cancelled'' then pure_effect () else rest original stopped)))))
     else if ResultMessage r = GeminiOwnershipLostMessage then markGeminiOwnershipLost (o_server_id op) oid newID clock
     else and_then (commit (undo_gemini_interrupt i oid recovery clock)) (\<lambda>_.
       publish newID clock (redacted_new (o_id op @ '':interrupt-failed'') i ''gemini.error''
         [(''message'', JStr (ResultMessage r)), (''operation_id'', JStr oid), (''severity'', JStr ''error'')])))"

definition gemini_completed ::
    "(Operation \<Rightarrow> OperationResult \<Rightarrow> unit effect) \<Rightarrow> string \<Rightarrow> instant \<Rightarrow> Operation \<Rightarrow> OperationResult \<Rightarrow> unit effect" where
  "gemini_completed rest newID clock op r =
     (if o_kind op = ''gemini.turn.steer''
      then (if ResultStatus r = ''succeeded'' then pure_effect () else gemini_steer_failed op r newID clock)
      else if o_kind op = ''gemini.turn.interrupt'' then gemini_interrupted rest op r newID clock
      else gemini_turn_completed op r newID clock)"

definition completeGeminiOperation :: "string \<Rightarrow> instant \<Rightarrow> Operation \<Rightarrow> OperationResult \<Rightarrow> unit effect" where
  "completeGeminiOperation newID clock = gemini_completed (gemini_completed (\<lambda>_ _. pure_effect ()) newID clock) newID clock"

section \<open>Messages of the Agent\<close>

definition operation_started :: "string \<Rightarrow> string \<Rightarrow> instant \<Rightarrow> unit effect" where
  "operation_started serverID oid clock =
     and_then (ask (\<lambda>s. operation_row oid (base s))) (\<lambda>op.
     and_then (value_of (require (o_server_id op = serverID) (Err ''operation start server mismatch''))) (\<lambda>_.
     if \<not> active op then pure_effect ()
     else commit (on_base (\<lambda>d. try_then (MarkRunning (o_id op) clock d) (\<lambda>d'. Inr ((), d'))))))"

text \<open>
  The result of an operation of a Gemini or Claude session: a result that arrives after the operation
  is settled is dropped; an interrupted turn is stored as cancelled.
\<close>

definition session_turn_kinds :: "string list" where
  "session_turn_kinds = gemini_turn_kinds @ [''claude.turn.start'']"

definition turn_interrupted :: "Operation \<Rightarrow> OperationResult \<Rightarrow> bool" where
  "turn_interrupted op r \<longleftrightarrow> o_kind op \<in> set session_turn_kinds \<and>
     (ResultStatus r = ''interrupted'' \<or> ResultStatus r = ''cancelled'' \<or>
      ResultStatus r = ''failed'' \<and> ResultMessage r = ''context canceled'')"

text \<open>The event of the result; its document keeps the data of the result.\<close>

definition encode_result :: "OperationResult \<Rightarrow> json" where
  "encode_result r = JObj (str_entry ''operation_id'' (ResultOperationID r) @ str_entry ''status'' (ResultStatus r) @
     omit_str ''message'' (ResultMessage r) @ (case ResultData r of Some (Some d) \<Rightarrow> [(''data'', d)] | _ \<Rightarrow> []))"

definition session_result :: "string \<Rightarrow> OperationResult \<Rightarrow> string \<Rightarrow> string \<Rightarrow> instant \<Rightarrow> unit effect" where
  "session_result serverID r0 newID newID2 clock =
     and_then (ask (\<lambda>s. operation_row (ResultOperationID r0) (base s))) (\<lambda>op.
     and_then (value_of (require (o_server_id op = serverID) (Err ''operation result server mismatch''))) (\<lambda>_.
     if \<not> active op then pure_effect ()
     else (let interrupted = turn_interrupted op r0;
               r = (if interrupted then r0\<lparr>ResultStatus := ''cancelled''\<rparr> else r0);
               claim = interrupted \<or> o_kind op = ''claude.turn.start'' in
       and_then (commit (on_base (CompleteOperationIfActive r clock))) (\<lambda>claimed.
       if claim \<and> \<not> claimed then pure_effect ()
       else and_then (ask (\<lambda>s. operation_row (ResultOperationID r) (base s))) (\<lambda>updated.
       if o_status updated = ''cancelled'' \<and> \<not> claim then pure_effect ()
       else and_then (if o_kind op \<in> set (gemini_turn_kinds @ [''gemini.turn.interrupt'', ''gemini.turn.steer''])
           then completeGeminiOperation newID clock op r else pure_effect ()) (\<lambda>_.
         and_then (if o_kind op \<in> {''claude.turn.start'', ''claude.turn.interrupt'', ''claude.turn.steer'', ''claude.question.answer''}
           then completeClaudeOperation newID clock op r else pure_effect ()) (\<lambda>_.
         publish newID2 clock (new_event [] serverID (''operation.'' @ ResultStatus r) (RedactJSON (Some (encode_result r)))))))))))"

end
