(* ===== verification/Turn_Ownership.thy ===== *)
theory Turn_Ownership
  imports Turn_Gateway
begin

text \<open>
  The ownership of turns: \<open>turn_step\<close> is the relation of all modelled transitions of the sessions of
  Gemini and Claude and of the operation queue, and in every state it reaches a session has at most
  one turn that is not settled, the one its row names.
\<close>

section \<open>Turns of a session\<close>

text \<open>The session of a turn is the thread that its payload names.\<close>

definition turn_thread :: "Operation \<Rightarrow> string option" where
  "turn_thread o1 = (case stored_json (o_payload o1) of None \<Rightarrow> None | Some d \<Rightarrow> str_field ''thread_id'' d)"

definition live_turn :: "string list \<Rightarrow> string \<Rightarrow> Operation \<Rightarrow> bool" where
  "live_turn kinds i o1 \<longleftrightarrow> active o1 \<and> o_kind o1 \<in> set kinds \<and> turn_thread o1 = Some i"

definition owning :: "string list" where
  "owning = [''queued'', ''running'', ''interrupting'', ''interrupted'']"

definition owns :: "string \<Rightarrow> string \<Rightarrow> Session_row \<Rightarrow> bool" where
  "owns i oid r \<longleftrightarrow> se_id r = i \<and> se_operation_id r = oid \<and> se_status r \<in> set owning"

definition turns_owned :: "string list \<Rightarrow> Session_row list \<Rightarrow> Operation list \<Rightarrow> bool" where
  "turns_owned kinds rows ops \<longleftrightarrow> distinct (map se_id rows) \<and>
     (\<forall>o1 \<in> set ops. \<forall>i. live_turn kinds i o1 \<longrightarrow> list_ex (owns i (o_id o1)) rows)"

lemma turns_ownedI:
  assumes "distinct (map se_id rows)" and "\<And>o1 i. o1 \<in> set ops \<Longrightarrow> live_turn kinds i o1 \<Longrightarrow> \<exists>r \<in> set rows. owns i (o_id o1) r"
  shows "turns_owned kinds rows ops"
  using assms by (auto simp: turns_owned_def list_ex_iff)

lemma turns_ownedD:
  assumes "turns_owned kinds rows ops"
  shows "distinct (map se_id rows)"
    and "o1 \<in> set ops \<Longrightarrow> live_turn kinds i o1 \<Longrightarrow> \<exists>r \<in> set rows. owns i (o_id o1) r"
  using assms by (auto simp: turns_owned_def list_ex_iff)

lemma same_row: "distinct (map se_id rows) \<Longrightarrow> r \<in> set rows \<Longrightarrow> r' \<in> set rows \<Longrightarrow> se_id r = se_id r' \<Longrightarrow> r = r'"
  by (metis distinct_map inj_onD)

text \<open>Operations change: none that is live is new.\<close>

lemma owned_ops:
  assumes "turns_owned kinds rows ops"
    and "\<And>o' i. o' \<in> set ops' \<Longrightarrow> live_turn kinds i o' \<Longrightarrow> \<exists>o1 \<in> set ops. o_id o1 = o_id o' \<and> live_turn kinds i o1"
  shows "turns_owned kinds rows ops'"
proof (rule turns_ownedI[OF turns_ownedD(1)[OF assms(1)]])
  fix o' i
  assume "o' \<in> set ops'" "live_turn kinds i o'"
  then obtain o1 where "o1 \<in> set ops" "o_id o1 = o_id o'" "live_turn kinds i o1" using assms(2) by blast
  then show "\<exists>r \<in> set rows. owns i (o_id o') r" using turns_ownedD(2)[OF assms(1), of o1 i] by simp
qed

lemma owned_kept:
  assumes "turns_owned kinds rows ops" and "\<And>o1. row_kept o1 (f o1)"
  shows "turns_owned kinds rows (map f ops)"
proof (rule owned_ops[OF assms(1)])
  fix o' i
  assume "o' \<in> set (map f ops)" and live: "live_turn kinds i o'"
  then obtain o1 where o1: "o1 \<in> set ops" "o' = f o1" by auto
  have "live_turn kinds i o1" "o_id o1 = o_id o'"
    using assms(2)[of o1] live o1(2) by (auto simp: row_kept_def live_turn_def turn_thread_def)
  then show "\<exists>o1 \<in> set ops. o_id o1 = o_id o' \<and> live_turn kinds i o1" using o1(1) by blast
qed

lemma owned_rewritten: "turns_owned kinds rows (operations d) \<Longrightarrow> rewritten d d' \<Longrightarrow> turns_owned kinds rows (operations d')"
  unfolding rewritten_def using owned_kept by metis

lemma owned_append:
  "turns_owned kinds rows ops \<Longrightarrow> o_kind o' \<notin> set kinds \<Longrightarrow> turns_owned kinds rows (ops @ [o'])"
  by (rule owned_ops) (auto simp: live_turn_def)

text \<open>Rows change: a row stays an owner, or its operation is settled.\<close>

lemma owned_rows:
  assumes "turns_owned kinds rows ops" and "update_rows sel f rows = (n, rows')"
    and "\<And>r. se_id (f r) = se_id r" and "\<And>r. se_operation_id (f r) = se_operation_id r"
    and "\<And>r. r \<in> set rows \<Longrightarrow> sel r \<Longrightarrow> se_status r \<in> set owning \<Longrightarrow>
           se_status (f r) \<in> set owning \<or> \<not> operation_active (se_operation_id r) ops"
  shows "turns_owned kinds rows' ops"
proof (rule turns_ownedI)
  have rows': "rows' = map (\<lambda>r. if sel r then f r else r) rows" using assms(2) by (simp add: update_rows_def)
  show "distinct (map se_id rows')"
    using update_rows_keys[of se_id f sel rows n rows', OF assms(3,2)] turns_ownedD(1)[OF assms(1)] by simp
  fix o1 i
  assume o1: "o1 \<in> set ops" "live_turn kinds i o1"
  then obtain r where r: "r \<in> set rows" "owns i (o_id o1) r" using turns_ownedD(2)[OF assms(1)] by blast
  have "operation_active (se_operation_id r) ops"
    using o1 r(2) by (auto simp: operation_active_def list_ex_iff live_turn_def owns_def)
  then have "owns i (o_id o1) (if sel r then f r else r)" using r assms(3,4) assms(5)[OF r(1)] by (auto simp: owns_def)
  moreover have "(if sel r then f r else r) \<in> set rows'" using r(1) unfolding rows' set_map by (rule imageI)
  ultimately show "\<exists>r' \<in> set rows'. owns i (o_id o1) r'" by blast
qed

text \<open>A session that is free has no live turn, so it may be claimed or deleted.\<close>

lemma free_no_live:
  assumes "turns_owned kinds rows ops" and "r \<in> set rows" and "session_free ops r" and "o1 \<in> set ops"
  shows "\<not> live_turn kinds (se_id r) o1"
proof
  assume live: "live_turn kinds (se_id r) o1"
  then obtain r' where r': "r' \<in> set rows" "owns (se_id r) (o_id o1) r'"
    using turns_ownedD(2)[OF assms(1,4)] by blast
  then have "r' = r" using same_row[OF turns_ownedD(1)[OF assms(1)] r'(1) assms(2)] by (simp add: owns_def)
  moreover have "operation_active (o_id o1) ops" using live assms(4) by (auto simp: operation_active_def list_ex_iff live_turn_def)
  ultimately show False using r'(2) assms(3) by (auto simp: owns_def owning_def session_free_def)
qed

lemma owned_claim:
  assumes "turns_owned kinds rows ops" and "update_rows (claimable ops i) f rows = (n, rows')" and "n = 1"
    and "\<And>r. se_id (f r) = se_id r" and "\<And>r. se_operation_id (f r) = o_id new" and "\<And>r. se_status (f r) = ''queued''"
    and "turn_thread new = Some i"
  shows "turns_owned kinds rows' (ops @ [new])"
proof (rule turns_ownedI)
  have rows': "rows' = map (\<lambda>r. if claimable ops i r then f r else r) rows"
    and "length (filter (claimable ops i) rows) = 1" using assms(2,3) by (simp_all add: update_rows_def)
  then have "filter (claimable ops i) rows \<noteq> []" by auto
  then obtain r0 where r0: "r0 \<in> set rows" "claimable ops i r0" unfolding filter_empty_conv by blast
  have i: "se_id r0 = i" "session_free ops r0" using r0(2) by (auto simp: claimable_def)
  show "distinct (map se_id rows')"
    using update_rows_keys[of se_id f "claimable ops i" rows n rows', OF assms(4,2)] turns_ownedD(1)[OF assms(1)] by simp
  fix o1 j
  assume o1: "o1 \<in> set (ops @ [new])" "live_turn kinds j o1"
  show "\<exists>r \<in> set rows'. owns j (o_id o1) r"
  proof (cases "o1 = new")
    case True
    then have "j = i" using o1(2) assms(7) by (simp add: live_turn_def)
    then have "owns j (o_id o1) (f r0)" using True i assms(4,5,6) by (simp add: owns_def owning_def)
    moreover have "f r0 \<in> set rows'" using r0 unfolding rows' set_map by (intro rev_image_eqI[of r0]) auto
    ultimately show ?thesis by blast
  next
    case False
    then have old: "o1 \<in> set ops" using o1(1) by auto
    then obtain r where r: "r \<in> set rows" "owns j (o_id o1) r" using turns_ownedD(2)[OF assms(1)] o1(2) by blast
    have "\<not> claimable ops i r"
    proof
      assume c: "claimable ops i r"
      then have "\<not> live_turn kinds (se_id r) o1" using free_no_live[OF assms(1) r(1) _ old] by (simp add: claimable_def)
      then show False using o1(2) r(2) by (simp add: owns_def)
    qed
    then have "r \<in> set rows'" using r(1) unfolding rows' set_map by (intro rev_image_eqI[of r]) auto
    then show ?thesis using r(2) by blast
  qed
qed

lemma owned_delete:
  assumes "turns_owned kinds rows ops" and "delete_session ops i rows = Inr rows'"
  shows "turns_owned kinds rows' ops"
proof (rule turns_ownedI)
  have rows': "rows' = filter (\<lambda>r. \<not> (se_id r = i \<and> session_free ops r)) rows"
    using assms(2) by (auto simp: delete_session_def split: if_splits)
  show "distinct (map se_id rows')" unfolding rows' by (rule distinct_map_filter) (rule turns_ownedD(1)[OF assms(1)])
  fix o1 j
  assume o1: "o1 \<in> set ops" "live_turn kinds j o1"
  then obtain r where r: "r \<in> set rows" "owns j (o_id o1) r" using turns_ownedD(2)[OF assms(1)] by blast
  then have "\<not> session_free ops r" using free_no_live[OF assms(1) r(1) _ o1(1)] o1(2) by (auto simp: owns_def)
  then show "\<exists>r \<in> set rows'. owns j (o_id o1) r" using r unfolding rows' by auto
qed

lemma owned_rename:
  assumes "turns_owned kinds rows ops" and "rename_session ops i title archived now rows = Inr rows'"
  shows "turns_owned kinds rows' ops"
proof -
  obtain n where u: "update_rows (\<lambda>r. se_id r = i \<and> session_free ops r)
      (\<lambda>r. r\<lparr>se_title := title, se_archived_at := at_if archived now, se_updated_at := now\<rparr>) rows = (n, rows')"
    using assms(2) by (auto simp: rename_session_def split: prod.splits if_splits)
  show ?thesis by (rule owned_rows[OF assms(1) u]) auto
qed

section \<open>Queueing\<close>

lemma scalar_entries_append:
  "scalar_entries dec name acc (xs @ ys) = (case scalar_entries dec name acc xs of None \<Rightarrow> None | Some a \<Rightarrow> scalar_entries dec name a ys)"
  by (induction dec name acc xs rule: scalar_entries.induct) (auto split: option.split)

lemma scalar_entries_other:
  "(\<And>k v. (k, v) \<in> set xs \<Longrightarrow> fold_name k \<noteq> fold_name name) \<Longrightarrow> scalar_entries dec name acc xs = Some acc"
  by (induction dec name acc xs rule: scalar_entries.induct) auto

lemma omit_entries:
  "fold_name k \<noteq> fold_name name \<Longrightarrow> scalar_entries dec name acc (omit_str k v) = Some acc"
  "fold_name k \<noteq> fold_name name \<Longrightarrow> scalar_entries dec name acc (omit_bool k b) = Some acc"
  "fold_name k \<noteq> fold_name name \<Longrightarrow> scalar_entries dec name acc (omit_list k l) = Some acc"
  "fold_name k \<noteq> fold_name name \<Longrightarrow> scalar_entries dec name acc (omit_obj k ob) = Some acc"
  "fold_name k \<noteq> fold_name name \<Longrightarrow> scalar_entries dec name acc (str_entry k v) = Some acc"
  by (rule scalar_entries_other; auto simp: omit_str_def omit_bool_def omit_list_def omit_obj_def str_entry_def
        split: if_splits option.splits)+

lemma str_entry_found: "scalar_entries as_string name acc (str_entry name v) = Some v"
  by (simp add: str_entry_def)

lemma gemini_thread_field: "str_field ''thread_id'' (encode_GeminiTurnCommand c) = Some (gt_ThreadID c)"
  by (simp add: str_field_def scalar_field_def encode_GeminiTurnCommand_def scalar_entries_append omit_entries str_entry_found
      del: append_assoc)

lemma claude_thread_field: "str_field ''thread_id'' (encode_ClaudeTurnCommand c) = Some (ct_ThreadID c)"
  by (simp add: str_field_def scalar_field_def encode_ClaudeTurnCommand_def scalar_entries_append omit_entries str_entry_found
      del: append_assoc)

lemma turn_row_sel [simp]:
  "o_id (turn_row i th k p key now) = i" "o_kind (turn_row i th k p key now) = k"
  "o_payload (turn_row i th k p key now) = JsonText p" "o_workspace_write (turn_row i th k p key now) = True"
  "o_workspace_id (turn_row i th k p key now) = Some (se_workspace_id (v_row th))"
  "o_status (turn_row i th k p key now) = ''queued''"
  by (simp_all add: turn_row_def)

lemma gemini_claim_Inr:
  assumes "gemini_claim thread prompt model mode level opID now s = Inr s'"
  shows "\<exists>f rows. update_rows (claimable (operations (base s)) (se_id (v_row thread))) f (gemini_threads s) = (1, rows) \<and>
    s' = s\<lparr>gemini_threads := rows\<rparr> \<and> (\<forall>r. se_id (f r) = se_id r \<and> se_operation_id (f r) = opID \<and> se_status (f r) = ''queued'')"
  using assms by (auto simp: gemini_claim_def split: if_splits prod.splits) (intro exI conjI, assumption, auto)

lemma claude_claim_Inr:
  assumes "claude_claim thread prompt model mode level opID now s = Inr s'"
  shows "\<exists>f rows. update_rows (claimable (operations (base s)) (se_id (v_row thread))) f (claude_threads s) = (1, rows) \<and>
    s' = s\<lparr>claude_threads := rows\<rparr> \<and> (\<forall>r. se_id (f r) = se_id r \<and> se_operation_id (f r) = opID \<and> se_status (f r) = ''queued'')"
  using assms by (auto simp: claude_claim_def split: if_splits prod.splits) (intro exI conjI, assumption, auto)

lemma submit_turn_frame:
  assumes "submit_turn row rewrite eid i k m now d = Inr (e, d')"
  shows "operations d' = operations d @ [row]" and "operations_ok d (operations d @ [row])"
  using assms
  by (auto simp: submit_turn_def try_then_Inr_iff insert_operation_Inr appended_def split: if_splits prod.splits dest!: append_event_frame)

lemma command_thread [simp]:
  "gt_ThreadID (gemini_command th row p m mo l im g it tg cx) = se_id (v_row th)"
  "ct_ThreadID (claude_command th row p m mo l im ct) = se_id (v_row th)"
  by (simp_all add: gemini_command_def claude_command_def Let_def)

text \<open>What queueing a turn adds: the claim, and one operation for the session.\<close>

lemma queueGeminiTurn_Inr:
  assumes "queueGeminiTurn ok thread prompt model mode edit images goal level opID newEventID newGoalID now s = Inr (e, s')"
  obtains s1 row where "gemini_claim thread prompt model mode level opID now s = Inr s1"
    "gemini_threads s' = gemini_threads s1" "claude_threads s' = claude_threads s1"
    "operations (base s') = operations (base s) @ [row]" "operations_ok (base s) (operations (base s) @ [row])"
    "o_id row = opID" "o_kind row \<in> set gemini_turn_kinds" "turn_thread row = Some (se_id (v_row thread))" "active_write row"
proof -
  let ?i = "se_id (v_row thread)"
  obtain s1 a r it tg cx c where claim: "gemini_claim thread prompt model mode level opID now s = Inr s1"
    and step: "gemini_goal_step ?i opID goal images newGoalID now s1 = Inr a"
    and sub: "submit_turn (turn_row opID thread (if edit = [] then ''gemini.turn.start'' else ''gemini.turn.rewrite'')
         (encode_GeminiTurnCommand (gemini_command thread r prompt model mode level (snd (fst a)) (fst (fst a)) it tg cx)) (''gemini:'' @ opID) now)
         (edit \<noteq> []) newEventID ?i ''gemini.user.message''
         (JObj [(''images'', encode_images (snd (fst a))), (''model'', JStr model), (''operation_id'', JStr opID), (''text'', JStr prompt),
                 (''thinking_level'', JStr level)]) now (base (snd a)) = Inr c"
    and res: "Inr (fst c, (snd a)\<lparr>base := snd c\<rparr>) = (Inr (e, s') :: go_error + _)"
    using assms unfolding queueGeminiTurn_def Let_def case_prod_unfold try_then_Inr_iff
    by (elim exE conjE) (rule that; assumption)
  note frame = goal_step_frame[of ?i opID goal images newGoalID now s1 "fst a" "snd a", unfolded prod.collapse, OF step]
  note fs = submit_turn_frame[of _ _ _ _ _ _ _ _ "fst c" "snd c", unfolded prod.collapse, OF sub]
  have b: "base s1 = base s" using gemini_claim_Inr[OF claim] by auto
  have s': "s' = (snd a)\<lparr>base := snd c\<rparr>" using res by simp
  let ?row = "turn_row opID thread (if edit = [] then ''gemini.turn.start'' else ''gemini.turn.rewrite'')
         (encode_GeminiTurnCommand (gemini_command thread r prompt model mode level (snd (fst a)) (fst (fst a)) it tg cx)) (''gemini:'' @ opID) now"
  show ?thesis
    by (rule that[OF claim, of ?row])
      (use frame fs b s' in \<open>simp_all add: turn_thread_def gemini_thread_field active_write_def active_def active_statuses_def gemini_turn_kinds_def\<close>)
qed

lemma queueClaudeInput_Inr:
  assumes "queueClaudeInput txt ok thread edit prompt model mode effort images opID newEventID now s = Inr (e, s')"
  obtains s1 row where "claude_claim thread prompt model mode effort opID now s = Inr s1"
    "claude_threads s' = claude_threads s1" "gemini_threads s' = gemini_threads s1"
    "operations (base s') = operations (base s) @ [row]" "operations_ok (base s) (operations (base s) @ [row])"
    "o_id row = opID" "o_kind row = ''claude.turn.start''" "turn_thread row = Some (se_id (v_row thread))" "active_write row"
proof -
  let ?i = "se_id (v_row thread)"
  obtain s1 r tg c where claim: "claude_claim thread prompt model mode effort opID now s = Inr s1"
    and sub: "submit_turn (turn_row opID thread ''claude.turn.start''
         (encode_ClaudeTurnCommand (claude_command thread r prompt model mode effort images tg)) (''claude:'' @ opID) now)
         (edit \<noteq> []) newEventID ?i ''claude.user.message''
         (JObj [(''images'', encode_images images), (''operation_id'', JStr opID), (''text'', JStr prompt)]) now (base s1) = Inr c"
    and res: "Inr (fst c, s1\<lparr>base := snd c\<rparr>) = (Inr (e, s') :: go_error + _)"
    using assms unfolding queueClaudeInput_def Let_def case_prod_unfold try_then_Inr_iff
    by (elim exE conjE) (rule that; assumption)
  note fs = submit_turn_frame[of _ _ _ _ _ _ _ _ "fst c" "snd c", unfolded prod.collapse, OF sub]
  have b: "base s1 = base s" using claude_claim_Inr[OF claim] by auto
  have s': "s' = s1\<lparr>base := snd c\<rparr>" using res by simp
  let ?row = "turn_row opID thread ''claude.turn.start''
         (encode_ClaudeTurnCommand (claude_command thread r prompt model mode effort images tg)) (''claude:'' @ opID) now"
  show ?thesis
    by (rule that[OF claim, of ?row])
      (use fs b s' in \<open>simp_all add: turn_thread_def claude_thread_field active_write_def active_def active_statuses_def\<close>)
qed

section \<open>The transitions\<close>

text \<open>
  The transactions of the store and of the gateway's handlers, in any order. A turn ends after its
  operation is settled (\<open>complete_gemini\<close>, \<open>complete_claude\<close>), and turns are queued by the operations of this
  component only (\<open>others\<close>: no other component queues an operation of their kinds).
\<close>

definition claude_turn_kinds :: "string list" where
  "claude_turn_kinds = [''claude.turn.start'']"

inductive turn_step :: "turn_db \<Rightarrow> turn_db \<Rightarrow> bool" where
  create_gemini: "CreateGeminiThread w model mode level newID now s = Inr (v, s') \<Longrightarrow> turn_step s s'"
| create_claude: "CreateClaudeThread w model mode level newID now s = Inr (v, s') \<Longrightarrow> turn_step s s'"
| queue_gemini: "queueGeminiTurn ok thread prompt model mode edit images goal level opID newEventID newGoalID now s = Inr (e, s') \<Longrightarrow> turn_step s s'"
| queue_claude: "queueClaudeInput txt ok thread edit prompt model mode effort images opID newEventID now s = Inr (e, s') \<Longrightarrow> turn_step s s'"
| interrupt_gemini: "InterruptGeminiTurn thread goalStatus goalID newID now s = Inr s' \<Longrightarrow> turn_step s s'"
| interrupt_claude: "InterruptClaudeTurn thread newID now s = Inr s' \<Longrightarrow> turn_step s s'"
| confirm_gemini: "ConfirmGeminiStopped i oid now s = Inr (e, s') \<Longrightarrow> turn_step s s'"
| confirm_claude: "ConfirmClaudeStopped i oid now s = Inr s' \<Longrightarrow> turn_step s s'"
| complete_gemini: "CompleteGeminiTurn i oid status now s = Inr s' \<Longrightarrow> \<not> operation_active oid (operations (base s)) \<Longrightarrow> turn_step s s'"
| complete_claude: "end_claude_turn i oid status now s = Inr (st, s') \<Longrightarrow> \<not> operation_active oid (operations (base s)) \<Longrightarrow> turn_step s s'"
| bind_gemini_session: "bind_gemini i oid sessionID now s = Inr (u, s') \<Longrightarrow> turn_step s s'"
| bind_claude_session: "bind_claude i oid sessionID now s = Inr (u, s') \<Longrightarrow> turn_step s s'"
| gemini_mode: "set_gemini_mode i oid mode now s = Inr (u, s') \<Longrightarrow> turn_step s s'"
| undo_gemini: "undo_gemini_interrupt i oid recovery now s = Inr (u, s') \<Longrightarrow> turn_step s s'"
| undo_claude: "undo_claude_interrupt i oid recovery now s = Inr (u, s') \<Longrightarrow> turn_step s s'"
| owner_gemini: "gemini_ownership serverID i oid alive newID now s = Inr (e, s') \<Longrightarrow> turn_step s s'"
| owner_claude: "claude_ownership serverID i oid alive now s = Inr (b, s') \<Longrightarrow> turn_step s s'"
| task_record: "turn_step s (MarkScheduledTaskByOperation oid status message now s)"
| event: "AddEvent newID now e (base s) = Inr (e', d) \<Longrightarrow> turn_step s (s\<lparr>base := d\<rparr>)"
| update_gemini: "UpdateGeminiThread i title archived now s = Inr s' \<Longrightarrow> turn_step s s'"
| update_claude: "UpdateClaudeThread i title archived now s = Inr s' \<Longrightarrow> turn_step s s'"
| delete_gemini: "DeleteGeminiThread i s = Inr s' \<Longrightarrow> turn_step s s'"
| delete_claude: "DeleteClaudeThread i s = Inr s' \<Longrightarrow> turn_step s s'"
| commit_gemini: "CommitGeminiRewrite i oid sessionID now s = Inr (c, s') \<Longrightarrow> turn_step s s'"
| commit_claude: "CommitClaudeRewrite ok i oid sessionID now s = Inr (c, s') \<Longrightarrow> turn_step s s'"
| goal_progress: "UpdateGeminiGoalProgress i p now s = Inr s' \<Longrightarrow> turn_step s s'"
| goal_cancel: "CancelInactiveGeminiGoal i goalID now s = Inr s' \<Longrightarrow> turn_step s s'"
| claim: "ClaimGeminiDelivery oid now (base s) = Inr (b, d) \<Longrightarrow> turn_step s (s\<lparr>base := d\<rparr>)"
| others: "op_step (base s) d \<Longrightarrow> (\<And>o1. o1 \<in> set (operations d) \<Longrightarrow> o_kind o1 \<in> set (gemini_turn_kinds @ claude_turn_kinds) \<Longrightarrow>
    o_id o1 \<in> o_id ` set (operations (base s))) \<Longrightarrow> turn_step s (s\<lparr>base := d\<rparr>)"

section \<open>The invariant\<close>

definition turns_ok :: "turn_db \<Rightarrow> bool" where
  "turns_ok s \<longleftrightarrow> turns_owned gemini_turn_kinds (gemini_threads s) (operations (base s)) \<and>
     turns_owned claude_turn_kinds (claude_threads s) (operations (base s)) \<and> distinct (map o_id (operations (base s)))"

lemma turns_okI:
  assumes "turns_owned gemini_turn_kinds (gemini_threads s) (operations (base s))"
    and "turns_owned claude_turn_kinds (claude_threads s) (operations (base s))" and "distinct (map o_id (operations (base s)))"
  shows "turns_ok s"
  using assms by (simp add: turns_ok_def)

lemma turns_okD:
  assumes "turns_ok s"
  shows "turns_owned gemini_turn_kinds (gemini_threads s) (operations (base s))"
    and "turns_owned claude_turn_kinds (claude_threads s) (operations (base s))" and "distinct (map o_id (operations (base s)))"
  using assms by (simp_all add: turns_ok_def)

lemma turns_ok_same:
  "turns_ok s \<Longrightarrow> gemini_threads s' = gemini_threads s \<Longrightarrow> claude_threads s' = claude_threads s \<Longrightarrow>
   operations (base s') = operations (base s) \<Longrightarrow> turns_ok s'"
  by (simp add: turns_ok_def)

lemma show_project_operations [simp]: "operations (showProjectForNewThread w d) = operations d"
  by (auto simp: showProjectForNewThread_def Let_def split: option.split)

lemma owned_create:
  assumes "turns_owned kinds rows ops" and "se_id r \<notin> set (map se_id rows)"
  shows "turns_owned kinds (rows @ [r]) ops"
  using assms by (auto simp: turns_owned_def)

text \<open>Settling operations in place keeps their identity and makes none live.\<close>

lemma turns_ok_settle:
  assumes "turns_ok s" and "update_operations sel f (base s) = Inr (n, d)"
    and "\<And>o1. o_id (f o1) = o_id o1" and "\<And>o1. sel o1 \<Longrightarrow> \<not> active (f o1)"
  shows "turns_ok (s\<lparr>base := d\<rparr>)"
proof -
  have ops: "operations d = map (\<lambda>o1. if sel o1 then f o1 else o1) (operations (base s))"
    using assms(2) by (auto simp: update_operations_Inr)
  have live: "\<exists>o1 \<in> set (operations (base s)). o_id o1 = o_id o' \<and> live_turn kinds i o1"
    if "o' \<in> set (operations d)" "live_turn kinds i o'" for o' kinds i
    using that assms(4) unfolding ops by (auto simp: live_turn_def split: if_splits)
  have "map o_id (operations d) = map o_id (operations (base s))"
    unfolding ops by (rule map_if_key) (rule assms(3))
  then show ?thesis
    using owned_ops[OF turns_okD(1)[OF assms(1)] live] owned_ops[OF turns_okD(2)[OF assms(1)] live] turns_okD(3)[OF assms(1)]
    by (intro turns_okI) simp_all
qed

lemma turns_ok_append:
  assumes "turns_ok s" and "insert_operation row (base s) = Inr d"
    and "o_kind row \<notin> set gemini_turn_kinds" and "o_kind row \<notin> set claude_turn_kinds"
  shows "turns_ok (s\<lparr>base := d\<rparr>)"
proof -
  have ap: "operations d = operations (base s) @ [row]" "operations_ok (base s) (operations (base s) @ [row])"
    using assms(2) by (simp_all add: insert_operation_Inr appended_def)
  show ?thesis
    using owned_append[OF turns_okD(1)[OF assms(1)] assms(3)] owned_append[OF turns_okD(2)[OF assms(1)] assms(4)] ap
    by (intro turns_okI) (simp_all add: operations_ok_def)
qed

lemma turns_ok_rewritten:
  assumes "turns_ok s" and "rewritten (base s) d"
  shows "turns_ok (s\<lparr>base := d\<rparr>)"
proof -
  obtain f where f: "operations d = map f (operations (base s))" "\<And>o1. row_kept o1 (f o1)"
    using assms(2) by (auto simp: rewritten_def)
  have "map o_id (operations d) = map o_id (operations (base s))"
    using f(2) unfolding f(1) by (simp add: row_kept_def)
  then have "distinct (map o_id (operations d))" using turns_okD(3)[OF assms(1)] by (simp only:)
  then show ?thesis
    using owned_kept[OF turns_okD(1)[OF assms(1)] f(2)] owned_kept[OF turns_okD(2)[OF assms(1)] f(2)] f(1)
    by (intro turns_okI) simp_all
qed

lemma turns_ok_gemini_rows:
  "turns_ok s \<Longrightarrow> turns_owned gemini_turn_kinds rows (operations (base s)) \<Longrightarrow> turns_ok (s\<lparr>gemini_threads := rows\<rparr>)"
  by (simp add: turns_ok_def)

lemma turns_ok_claude_rows:
  "turns_ok s \<Longrightarrow> turns_owned claude_turn_kinds rows (operations (base s)) \<Longrightarrow> turns_ok (s\<lparr>claude_threads := rows\<rparr>)"
  by (simp add: turns_ok_def)

lemma other_kinds: "k \<in> set gemini_turn_kinds \<Longrightarrow> k \<notin> set claude_turn_kinds"
  by (auto simp: gemini_turn_kinds_def claude_turn_kinds_def)

lemma queue_gemini_ok:
  assumes "turns_ok s" and "queueGeminiTurn ok thread prompt model mode edit images goal level opID newEventID newGoalID now s = Inr (e, s')"
  shows "turns_ok s'"
proof -
  from assms(2) obtain s1 row where q: "gemini_claim thread prompt model mode level opID now s = Inr s1"
    "gemini_threads s' = gemini_threads s1" "claude_threads s' = claude_threads s1"
    "operations (base s') = operations (base s) @ [row]" "operations_ok (base s) (operations (base s) @ [row])"
    "o_id row = opID" "o_kind row \<in> set gemini_turn_kinds" "turn_thread row = Some (se_id (v_row thread))" "active_write row"
    by (rule queueGeminiTurn_Inr)
  obtain f rows where c: "update_rows (claimable (operations (base s)) (se_id (v_row thread))) f (gemini_threads s) = (1, rows)"
    "s1 = s\<lparr>gemini_threads := rows\<rparr>" "\<forall>r. se_id (f r) = se_id r \<and> se_operation_id (f r) = opID \<and> se_status (f r) = ''queued''"
    using gemini_claim_Inr[OF q(1)] by (elim exE conjE) (rule that)
  have "turns_owned gemini_turn_kinds rows (operations (base s) @ [row])"
    by (rule owned_claim[OF turns_okD(1)[OF assms(1)] c(1) refl _ _ _ q(8)]) (simp_all add: c(3) q(6))
  then show ?thesis
    using q c(2) owned_append[OF turns_okD(2)[OF assms(1)] other_kinds[OF q(7)]] by (intro turns_okI) (simp_all add: operations_ok_def)
qed

lemma queue_claude_ok:
  assumes "turns_ok s" and "queueClaudeInput txt ok thread edit prompt model mode effort images opID newEventID now s = Inr (e, s')"
  shows "turns_ok s'"
proof -
  from assms(2) obtain s1 row where q: "claude_claim thread prompt model mode effort opID now s = Inr s1"
    "claude_threads s' = claude_threads s1" "gemini_threads s' = gemini_threads s1"
    "operations (base s') = operations (base s) @ [row]" "operations_ok (base s) (operations (base s) @ [row])"
    "o_id row = opID" "o_kind row = ''claude.turn.start''" "turn_thread row = Some (se_id (v_row thread))" "active_write row"
    by (rule queueClaudeInput_Inr)
  obtain f rows where c: "update_rows (claimable (operations (base s)) (se_id (v_row thread))) f (claude_threads s) = (1, rows)"
    "s1 = s\<lparr>claude_threads := rows\<rparr>" "\<forall>r. se_id (f r) = se_id r \<and> se_operation_id (f r) = opID \<and> se_status (f r) = ''queued''"
    using claude_claim_Inr[OF q(1)] by (elim exE conjE) (rule that)
  have "turns_owned claude_turn_kinds rows (operations (base s) @ [row])"
    by (rule owned_claim[OF turns_okD(2)[OF assms(1)] c(1) refl _ _ _ q(8)]) (simp_all add: c(3) q(6))
  moreover have "o_kind row \<notin> set gemini_turn_kinds" using q(7) by (simp add: gemini_turn_kinds_def)
  ultimately show ?thesis
    using q c(2) owned_append[OF turns_okD(1)[OF assms(1)], of row] by (intro turns_okI) (simp_all add: operations_ok_def)
qed

section \<open>Preservation by every transition\<close>

lemma end_tasks_operations [simp]: "operations (end_task_runs kind oid st msg now d) = operations d"
  by (simp add: end_task_runs_def)

lemma forget_operations [simp]: "operations (forget_session kind i d) = operations d"
  by (simp add: forget_session_def)

lemma cancel_undelivered_ok:
  assumes "turns_ok s" and "cancel_undelivered oid now (base s) = Inr (n, d)"
  shows "turns_ok (s\<lparr>base := d\<rparr>)"
  using assms(2) unfolding cancel_undelivered_def
  by (rule turns_ok_settle[OF assms(1), where f = "\<lambda>o1. o1\<lparr>o_status := ''cancelled'', o_completed_at := Some now\<rparr>"])
    (simp_all add: active_def active_statuses_def)

lemma settle_confirmed_ok:
  assumes "turns_ok s" and "settle_confirmed oid now (base s) = Inr d"
  shows "turns_ok (s\<lparr>base := d\<rparr>)"
proof -
  obtain n where "update_operations (\<lambda>o1. o_id o1 = oid)
      (\<lambda>o1. o1\<lparr>o_status := ''cancelled'', o_result := Some ''Process exit confirmed by user'', o_completed_at := Some now\<rparr>) (base s) = Inr (n, d)"
    using assms(2) by (auto simp: settle_confirmed_def try_then_Inr_iff)
  from turns_ok_settle[OF assms(1) this] show ?thesis by (simp add: active_def active_statuses_def)
qed

lemma mark_interrupted_owned:
  assumes "turns_owned kinds rows ops" and "mark_interrupted ops i oid c now rows = Inr rows'"
  shows "turns_owned kinds rows' ops"
proof -
  obtain n where u: "update_rows (interruptible ops i oid)
      (\<lambda>r. r\<lparr>se_status := (if c then ''interrupted'' else ''interrupting''), se_updated_at := now\<rparr>) rows = (n, rows')"
    using assms(2) by (auto simp: mark_interrupted_def split: prod.splits if_splits)
  show ?thesis by (rule owned_rows[OF assms(1) u]) (auto simp: owning_def)
qed

lemma interrupt_row_kind [simp]: "o_kind (interrupt_turn_row i th k p oid rec now) = k"
  by (simp add: interrupt_turn_row_def)

lemma send_interrupt_ok:
  assumes "turns_ok s" and "send_interrupt c (interrupt_turn_row i th k p oid rec now) s = Inr s'"
    and "k \<notin> set gemini_turn_kinds" and "k \<notin> set claude_turn_kinds"
  shows "turns_ok s'"
  using assms turns_ok_append[OF assms(1), of "interrupt_turn_row i th k p oid rec now"]
  by (auto simp: send_interrupt_def try_then_Inr_iff split: if_splits)

lemma goals_ok_turns:
  assumes "turns_ok s" and "update_goals sel f s = Inr (n, s')"
  shows "turns_ok s'"
  using update_goals_frame[OF assms(2)] turns_ok_same[OF assms(1)] by simp

text \<open>The statements of an interruption and of a confirmation, by name.\<close>

abbreviation undispatched :: "agent_kind \<Rightarrow> string \<Rightarrow> string option \<Rightarrow> instant \<Rightarrow> nat \<times> db \<Rightarrow> db" where
  "undispatched k oid msg now a \<equiv> if fst a = 1 then end_task_runs k oid ''cancelled'' msg now (snd a) else snd a"

lemma InterruptGeminiTurn_Inr:
  assumes "InterruptGeminiTurn thread goalStatus goalID newID now s = Inr s'"
  obtains a rows g and p :: Session_row where "cancel_undelivered (se_operation_id (v_row thread)) now (base s) = Inr a"
    "mark_interrupted (operations (undispatched Gemini (se_operation_id (v_row thread)) None now a)) (se_id (v_row thread))
       (se_operation_id (v_row thread)) (fst a = 1) now (gemini_threads s) = Inr rows"
    "update_goals (\<lambda>g. g_thread_id g = se_id (v_row thread) \<and> g_operation_id g = se_operation_id (v_row thread) \<and>
         g_status g = ''active'' \<and> (goalID = [] \<or> g_id g = goalID))
       (\<lambda>g. g\<lparr>g_status := goalStatus, g_updated_at := now\<rparr>)
       (s\<lparr>base := undispatched Gemini (se_operation_id (v_row thread)) None now a, gemini_threads := rows\<rparr>) = Inr g"
    "send_interrupt (fst a \<noteq> 0) (interrupt_turn_row newID thread ''gemini.turn.interrupt'' ''gemini-interrupt:''
       (se_operation_id (v_row thread)) (se_status p = ''interrupted'') now) (snd g) = Inr s'"
  using assms unfolding InterruptGeminiTurn_def Let_def case_prod_unfold try_then_Inr_iff
  by (elim exE conjE) (rule that; assumption)

lemma InterruptClaudeTurn_Inr:
  assumes "InterruptClaudeTurn thread newID now s = Inr s'"
  obtains a rows where "cancel_undelivered (se_operation_id (v_row thread)) now (base s) = Inr a"
    "mark_interrupted (operations (undispatched Claude (se_operation_id (v_row thread)) (Some ''Cancelled before dispatch'') now a))
       (se_id (v_row thread)) (se_operation_id (v_row thread)) (fst a = 1) now (claude_threads s) = Inr rows"
    "send_interrupt (fst a \<noteq> 0) (interrupt_turn_row newID thread ''claude.turn.interrupt'' ''claude-interrupt:''
       (se_operation_id (v_row thread)) (v_RecoveryPending thread) now)
       (s\<lparr>base := undispatched Claude (se_operation_id (v_row thread)) (Some ''Cancelled before dispatch'') now a, claude_threads := rows\<rparr>) = Inr s'"
  using assms unfolding InterruptClaudeTurn_def Let_def case_prod_unfold try_then_Inr_iff
  by (elim exE conjE) (rule that; assumption)

lemma ConfirmGeminiStopped_Inr:
  assumes "ConfirmGeminiStopped i oid now s = Inr (e, s')"
  obtains d g c where "settle_confirmed oid now (base s) = Inr d"
    "update_goals (\<lambda>g. g_thread_id g = i \<and> g_operation_id g = oid \<and> g_status g = ''active'')
       (\<lambda>g. g\<lparr>g_status := ''blocked'', g_message := ''The previous process was confirmed stopped; resume the goal when ready.'',
              g_updated_at := now\<rparr>) (s\<lparr>base := end_task_runs Gemini oid ''cancelled'' None now d\<rparr>) = Inr g"
    "append_event (oid @ '':completed'') i ''gemini.turn.completed'' now
       (JObj [(''operation_id'', JStr oid), (''status'', JStr ''interrupted'')]) (base (snd g)) = Inr c"
    "Inr (fst c, (snd g)\<lparr>base := snd c\<rparr>) = (Inr (e, s') :: go_error + _)"
  using assms unfolding ConfirmGeminiStopped_def Let_def case_prod_unfold try_then_Inr_iff
  by (elim exE conjE) (rule that; assumption)

lemma gemini_ownership_Inr:
  assumes "gemini_ownership serverID i oid alive newID now s = Inr (e, s')"
    and "s1 = s\<lparr>gemini_threads := snd (ownership_rows i oid alive now (gemini_threads s))\<rparr>"
  obtains "s' = s"
  | s2 c where "s2 = s1 \<or> reactivate_goal i oid now s1 = Inr s2"
      "append_event newID i (if alive then ''gemini.turn.ownership_active'' else ''gemini.turn.ownership_lost'') now
         (ownership_payload oid alive) (base s2) = Inr c" "s' = s2\<lparr>base := snd c\<rparr>"
proof -
  have "s' = s \<or> (\<exists>s2 c. (s2 = s1 \<or> reactivate_goal i oid now s1 = Inr s2) \<and>
      append_event newID i (if alive then ''gemini.turn.ownership_active'' else ''gemini.turn.ownership_lost'') now
        (ownership_payload oid alive) (base s2) = Inr c \<and> s' = s2\<lparr>base := snd c\<rparr>)"
    using assms unfolding gemini_ownership_def Let_def case_prod_unfold by (auto simp: try_then_Inr_iff split: if_splits)
  then show thesis by (elim disjE[of "s' = s"] exE conjE) (rule that; assumption)+
qed

lemma interrupt_gemini_ok:
  assumes "turns_ok s" and "InterruptGeminiTurn thread goalStatus goalID newID now s = Inr s'"
  shows "turns_ok s'"
proof -
  let ?oid = "se_operation_id (v_row thread)"
  from assms(2) obtain a rows g and p :: Session_row where a: "cancel_undelivered ?oid now (base s) = Inr a"
    and rows: "mark_interrupted (operations (undispatched Gemini ?oid None now a)) (se_id (v_row thread)) ?oid (fst a = 1) now (gemini_threads s) = Inr rows"
    and g: "update_goals (\<lambda>g. g_thread_id g = se_id (v_row thread) \<and> g_operation_id g = ?oid \<and> g_status g = ''active'' \<and> (goalID = [] \<or> g_id g = goalID))
          (\<lambda>g. g\<lparr>g_status := goalStatus, g_updated_at := now\<rparr>)
          (s\<lparr>base := undispatched Gemini ?oid None now a, gemini_threads := rows\<rparr>) = Inr g"
    and snd: "send_interrupt (fst a \<noteq> 0) (interrupt_turn_row newID thread ''gemini.turn.interrupt'' ''gemini-interrupt:'' ?oid
        (se_status p = ''interrupted'') now) (snd g) = Inr s'"
    by (rule InterruptGeminiTurn_Inr)
  let ?d1 = "undispatched Gemini ?oid None now a"
  have d1: "turns_ok (s\<lparr>base := ?d1\<rparr>)"
    by (rule turns_ok_same[OF cancel_undelivered_ok[OF assms(1), of ?oid now "fst a" "snd a"]]) (simp_all add: a)
  then have "turns_owned gemini_turn_kinds rows (operations ?d1)"
    using mark_interrupted_owned[OF _ rows] by (simp add: turns_ok_def)
  then have "turns_ok (s\<lparr>base := ?d1, gemini_threads := rows\<rparr>)" using turns_ok_gemini_rows[OF d1, of rows] by simp
  then have "turns_ok (snd g)" using goals_ok_turns[of _ _ _ "fst g" "snd g"] g by simp
  then show ?thesis by (rule send_interrupt_ok[OF _ snd]) (simp_all add: gemini_turn_kinds_def claude_turn_kinds_def)
qed

lemma interrupt_claude_ok:
  assumes "turns_ok s" and "InterruptClaudeTurn thread newID now s = Inr s'"
  shows "turns_ok s'"
proof -
  let ?oid = "se_operation_id (v_row thread)" and ?msg = "Some ''Cancelled before dispatch''"
  from assms(2) obtain a rows where a: "cancel_undelivered ?oid now (base s) = Inr a"
    and rows: "mark_interrupted (operations (undispatched Claude ?oid ?msg now a)) (se_id (v_row thread)) ?oid (fst a = 1) now (claude_threads s) = Inr rows"
    and snd: "send_interrupt (fst a \<noteq> 0) (interrupt_turn_row newID thread ''claude.turn.interrupt'' ''claude-interrupt:'' ?oid
        (v_RecoveryPending thread) now) (s\<lparr>base := undispatched Claude ?oid ?msg now a, claude_threads := rows\<rparr>) = Inr s'"
    by (rule InterruptClaudeTurn_Inr)
  let ?d1 = "undispatched Claude ?oid ?msg now a"
  have d1: "turns_ok (s\<lparr>base := ?d1\<rparr>)"
    by (rule turns_ok_same[OF cancel_undelivered_ok[OF assms(1), of ?oid now "fst a" "snd a"]]) (simp_all add: a)
  then have "turns_owned claude_turn_kinds rows (operations ?d1)"
    using mark_interrupted_owned[OF _ rows] by (simp add: turns_ok_def)
  then have "turns_ok (s\<lparr>base := ?d1, claude_threads := rows\<rparr>)" using turns_ok_claude_rows[OF d1, of rows] by simp
  then show ?thesis by (rule send_interrupt_ok[OF _ snd]) (simp_all add: gemini_turn_kinds_def claude_turn_kinds_def)
qed

lemma confirm_gemini_ok:
  assumes "turns_ok s" and "ConfirmGeminiStopped i oid now s = Inr (e, s')"
  shows "turns_ok s'"
  using assms(2)
proof (rule ConfirmGeminiStopped_Inr)
  fix d g c
  assume d: "settle_confirmed oid now (base s) = Inr d"
    and g: "update_goals (\<lambda>g. g_thread_id g = i \<and> g_operation_id g = oid \<and> g_status g = ''active'')
         (\<lambda>g. g\<lparr>g_status := ''blocked'', g_message := ''The previous process was confirmed stopped; resume the goal when ready.'',
                g_updated_at := now\<rparr>) (s\<lparr>base := end_task_runs Gemini oid ''cancelled'' None now d\<rparr>) = Inr g"
    and c: "append_event (oid @ '':completed'') i ''gemini.turn.completed'' now
         (JObj [(''operation_id'', JStr oid), (''status'', JStr ''interrupted'')]) (base (snd g)) = Inr c"
    and res: "Inr (fst c, (snd g)\<lparr>base := snd c\<rparr>) = (Inr (e, s') :: go_error + _)"
  have "turns_ok (s\<lparr>base := end_task_runs Gemini oid ''cancelled'' None now d\<rparr>)"
    by (rule turns_ok_same[OF settle_confirmed_ok[OF assms(1) d]]) simp_all
  then have "turns_ok (snd g)" using goals_ok_turns[of _ _ _ "fst g" "snd g"] g by simp
  then show ?thesis
    using res append_event_frame[of _ _ _ _ _ _ "fst c" "snd c", unfolded prod.collapse, OF c] by (auto elim: turns_ok_same)
qed

lemma confirm_claude_ok:
  assumes "turns_ok s" and "ConfirmClaudeStopped i oid now s = Inr s'"
  shows "turns_ok s'"
proof -
  define a where a: "a = update_rows (\<lambda>r. se_id r = i \<and> se_operation_id r = oid \<and> se_status r = ''interrupted'')
         (\<lambda>r. r\<lparr>se_updated_at := now\<rparr>) (claude_threads s)"
  obtain d where d: "settle_confirmed oid now (base s) = Inr d"
    and s': "s' = s\<lparr>claude_threads := snd a, base := end_task_runs Claude oid ''cancelled'' (Some ''Process exit confirmed by user'') now d\<rparr>"
    using assms(2) unfolding ConfirmClaudeStopped_def Let_def case_prod_unfold try_then_Inr_iff a by auto
  have u: "update_rows (\<lambda>r. se_id r = i \<and> se_operation_id r = oid \<and> se_status r = ''interrupted'')
         (\<lambda>r. r\<lparr>se_updated_at := now\<rparr>) (claude_threads s) = (fst a, snd a)" by (simp add: a)
  have "turns_owned claude_turn_kinds (snd a) (operations (base s))"
    by (rule owned_rows[OF turns_okD(2)[OF assms(1)] u]) simp_all
  then have "turns_ok (s\<lparr>claude_threads := snd a\<rparr>)" by (rule turns_ok_claude_rows[OF assms(1)])
  then have "turns_ok (s\<lparr>claude_threads := snd a, base := d\<rparr>)" by (rule settle_confirmed_ok[where oid = oid and now = now]) (simp add: d)
  then show ?thesis unfolding s' by (rule turns_ok_same) simp_all
qed

lemma end_session_turn_owned:
  assumes "turns_owned kinds rows ops" and "end_session_turn i oid st now rows = (n, rows')" and "\<not> operation_active oid ops"
  shows "turns_owned kinds rows' ops"
  by (rule owned_rows[OF assms(1) assms(2)[unfolded end_session_turn_def]]) (auto simp: assms(3))

lemma complete_gemini_ok:
  assumes "turns_ok s" and "CompleteGeminiTurn i oid status now s = Inr s'" and "\<not> operation_active oid (operations (base s))"
  shows "turns_ok s'"
proof -
  obtain n rows where rows: "end_session_turn i oid status now (gemini_threads s) = (n, rows)" by fastforce
  have "turns_ok (s\<lparr>gemini_threads := rows\<rparr>)"
    by (rule turns_ok_gemini_rows[OF assms(1) end_session_turn_owned[OF turns_okD(1)[OF assms(1)] rows assms(3)]])
  then show ?thesis
    using assms(1,2) rows by (auto simp: CompleteGeminiTurn_def try_then_Inr_iff split: if_splits intro: goals_ok_turns)
qed

lemma create_ok:
  "turns_ok s \<Longrightarrow> CreateGeminiThread w model mode level newID now s = Inr (v, s') \<Longrightarrow> turns_ok s'"
  "turns_ok s \<Longrightarrow> CreateClaudeThread w model mode level newID now s = Inr (v, s') \<Longrightarrow> turns_ok s'"
  by (auto simp: CreateGeminiThread_def CreateClaudeThread_def Let_def try_then_Inr_iff turns_ok_def new_session_def
      split: option.splits if_splits intro!: owned_create)

lemma rename_ok:
  "turns_ok s \<Longrightarrow> UpdateGeminiThread i title archived now s = Inr s' \<Longrightarrow> turns_ok s'"
  "turns_ok s \<Longrightarrow> UpdateClaudeThread i title archived now s = Inr s' \<Longrightarrow> turns_ok s'"
  by (auto simp: UpdateGeminiThread_def UpdateClaudeThread_def try_then_Inr_iff turns_ok_def intro: owned_rename)

lemma delete_ok:
  "turns_ok s \<Longrightarrow> DeleteGeminiThread i s = Inr s' \<Longrightarrow> turns_ok s'"
  "turns_ok s \<Longrightarrow> DeleteClaudeThread i s = Inr s' \<Longrightarrow> turns_ok s'"
  by (auto simp: DeleteGeminiThread_def DeleteClaudeThread_def try_then_Inr_iff turns_ok_def intro: owned_delete)

lemma replace_once_operations:
  "replace_once i kinds editID newID kind payload now d = Inr (e, d') \<Longrightarrow> operations d' = operations d"
  by (auto simp: replace_once_def replace_suffix_def Let_def try_then_Inr_iff insert_event_def split: if_splits option.splits)

lemma session_rows_owned:
  assumes "turns_owned kinds rows ops" and "update_rows sel (\<lambda>r. r\<lparr>se_session_id := x, se_updated_at := now\<rparr>) rows = (n, rows')"
  shows "turns_owned kinds rows' ops"
  by (rule owned_rows[OF assms]) auto

lemma commit_gemini_ok:
  assumes "turns_ok s" and "CommitGeminiRewrite i oid sessionID now s = Inr (c, s')"
  shows "turns_ok s'"
proof -
  obtain a e and command :: GeminiTurnCommand where
    rows: "update_rows (holds_session i oid (base s)) (\<lambda>r. r\<lparr>se_session_id := sessionID, se_updated_at := now\<rparr>) (gemini_threads s) = a"
    and e: "replace_once i [''gemini.user.message''] (gr_EventID (the (gt_Rewrite command))) (oid @ '':user'') ''gemini.user.message''
             (\<lambda>_. JObj [(''history_rewritten'', JBool True), (''images'', encode_images (gt_Images command)),
                        (''operation_id'', JStr oid), (''text'', JStr (gt_Prompt command))]) now (base s) = Inr e"
    and res: "Inr (fst e, s\<lparr>gemini_threads := snd a, base := snd e\<rparr>) = (Inr (c, s') :: go_error + _)"
    using assms(2) unfolding CommitGeminiRewrite_def Let_def case_prod_unfold try_then_Inr_iff
    by (elim exE conjE) (rule that[OF refl]; assumption)
  have "turns_owned gemini_turn_kinds (snd a) (operations (base s))"
    by (rule session_rows_owned[OF turns_okD(1)[OF assms(1)], of _ _ _ "fst a"]) (use rows in simp)
  then have "turns_ok (s\<lparr>gemini_threads := snd a\<rparr>)" by (rule turns_ok_gemini_rows[OF assms(1)])
  then show ?thesis
    using res replace_once_operations[of _ _ _ _ _ _ _ _ "fst e" "snd e", unfolded prod.collapse, OF e] by (auto elim: turns_ok_same)
qed

lemma owned_map:
  assumes "turns_owned kinds rows ops" and "\<And>r. se_id (f r) = se_id r" and "\<And>r. se_operation_id (f r) = se_operation_id r"
    and "\<And>r. se_status (f r) = se_status r"
  shows "turns_owned kinds (map (\<lambda>r. if P r then f r else r) rows) ops"
  by (rule owned_rows[OF assms(1), of P f]) (simp_all add: update_rows_def assms)

lemma commit_claude_ok:
  assumes "turns_ok s" and "CommitClaudeRewrite ok i oid sessionID now s = Inr (c, s')"
  shows "turns_ok s'"
proof -
  obtain a e and command :: ClaudeTurnCommand where
    rows: "update_rows (\<lambda>r. holds_session i oid (base s) r \<and> se_session_id r \<in> {ct_SessionID command, sessionID})
         (\<lambda>r. r\<lparr>se_session_id := sessionID, se_updated_at := now\<rparr>) (claude_threads s) = a"
    and e: "replace_once i [''claude.user.message'', ''claude.steer.applied''] (cr_EventID (the (ct_Rewrite command))) (oid @ '':user'')
             ''claude.user.message''
             (\<lambda>sequence. JObj [(''history_rewritten'', JBool True), (''images'', encode_images (ct_Images command)),
                (''operation_id'', JStr oid), (''replaced_sequence'', JNum sequence 0), (''text'', JStr (ct_Prompt command))])
             now (base s) = Inr e"
    and res: "Inr (fst e, s\<lparr>base := snd e, claude_threads := (if fst e = None then snd a else map (\<lambda>r. if se_id r = i
            then r\<lparr>se_fork_snapshot_id := [], se_fork_session_id := []\<rparr> else r) (snd a))\<rparr>) = (Inr (c, s') :: go_error + _)"
    using assms(2) unfolding CommitClaudeRewrite_def Let_def case_prod_unfold try_then_Inr_iff
    by (elim exE conjE) (rule that[OF refl]; assumption)
  have "turns_owned claude_turn_kinds (snd a) (operations (base s))"
    by (rule session_rows_owned[OF turns_okD(2)[OF assms(1)], of _ _ _ "fst a"]) (use rows in simp)
  then have "turns_owned claude_turn_kinds (claude_threads s') (operations (base s))"
    using res owned_map[of _ "snd a" _ "\<lambda>r. r\<lparr>se_fork_snapshot_id := [], se_fork_session_id := []\<rparr>" "\<lambda>r. se_id r = i"] by auto
  moreover have "operations (base s') = operations (base s)" "gemini_threads s' = gemini_threads s"
    using res replace_once_operations[of _ _ _ _ _ _ _ _ "fst e" "snd e", unfolded prod.collapse, OF e] by auto
  ultimately show ?thesis using assms(1) by (simp add: turns_ok_def)
qed

lemma session_map_ok:
  assumes "turns_owned kinds rows ops" and "\<And>r. se_id (f r) = se_id r" and "\<And>r. se_operation_id (f r) = se_operation_id r"
    and "\<And>r. sel r \<Longrightarrow> se_status r \<in> set owning \<Longrightarrow> se_status (f r) \<in> set owning"
  shows "turns_owned kinds (snd (update_rows sel f rows)) ops"
  by (rule owned_rows[OF assms(1) prod.collapse[symmetric]]) (use assms in auto)

lemma bind_session_owned: "turns_owned kinds rows ops \<Longrightarrow> turns_owned kinds (bind_session i oid sessionID now d rows) ops"
  unfolding bind_session_def by (rule session_map_ok) (auto simp: owning_def)

lemma bind_ok:
  "turns_ok s \<Longrightarrow> bind_gemini i oid sessionID now s = Inr (u, s') \<Longrightarrow> turns_ok s'"
  "turns_ok s \<Longrightarrow> bind_claude i oid sessionID now s = Inr (u, s') \<Longrightarrow> turns_ok s'"
  by (auto simp: bind_gemini_def bind_claude_def turns_ok_def intro: bind_session_owned)

lemma mode_owned:
  "turns_owned kinds rows ops \<Longrightarrow> turns_owned kinds (snd (update_rows sel (\<lambda>r. r\<lparr>se_mode := mode, se_updated_at := now\<rparr>) rows)) ops"
  by (rule session_map_ok) simp_all

lemma mode_ok: "turns_ok s \<Longrightarrow> set_gemini_mode i oid mode now s = Inr (u, s') \<Longrightarrow> turns_ok s'"
  by (auto simp: set_gemini_mode_def turns_ok_def intro: mode_owned)

lemma undo_owned:
  "turns_owned kinds rows ops \<Longrightarrow> st \<in> set owning \<Longrightarrow>
   turns_owned kinds (snd (update_rows sel (\<lambda>r. r\<lparr>se_status := st, se_updated_at := now\<rparr>) rows)) ops"
  by (rule session_map_ok) simp_all

lemma undo_claude_ok: "turns_ok s \<Longrightarrow> undo_claude_interrupt i oid recovery now s = Inr (u, s') \<Longrightarrow> turns_ok s'"
  using undo_owned[of claude_turn_kinds "claude_threads s" "operations (base s)" "if recovery then ''interrupted'' else ''running''"]
  by (auto simp: undo_claude_interrupt_def turns_ok_def owning_def)

lemma reactivate_ok: "turns_ok s \<Longrightarrow> reactivate_goal i oid now s = Inr s' \<Longrightarrow> turns_ok s'"
  by (auto simp: reactivate_goal_def try_then_Inr_iff intro: goals_ok_turns)

lemma undo_gemini_ok:
  assumes "turns_ok s" and "undo_gemini_interrupt i oid recovery now s = Inr (u, s')"
  shows "turns_ok s'"
proof -
  let ?f = "\<lambda>r. r\<lparr>se_status := (if recovery then ''interrupted'' else ''running'')\<rparr>"
  have "turns_owned gemini_turn_kinds (snd (update_rows (still_interrupting i oid) ?f (gemini_threads s))) (operations (base s))"
    by (rule session_map_ok[OF turns_okD(1)[OF assms(1)]]) (auto simp: owning_def)
  then have "turns_ok (s\<lparr>gemini_threads := snd (update_rows (still_interrupting i oid) ?f (gemini_threads s))\<rparr>)"
    by (rule turns_ok_gemini_rows[OF assms(1)])
  then show ?thesis
    using assms(2) unfolding undo_gemini_interrupt_def Let_def case_prod_unfold try_then_Inr_iff
    by (auto split: if_splits intro: reactivate_ok)
qed

lemma ownership_owned:
  "turns_owned kinds rows ops \<Longrightarrow> turns_owned kinds (snd (ownership_rows i oid alive now rows)) ops"
  unfolding ownership_rows_def by (rule session_map_ok) (auto simp: owning_def)

lemma owner_claude_ok: "turns_ok s \<Longrightarrow> claude_ownership serverID i oid alive now s = Inr (b, s') \<Longrightarrow> turns_ok s'"
  by (auto simp: claude_ownership_def case_prod_unfold turns_ok_def intro: ownership_owned split: if_splits)

lemma owner_gemini_ok:
  assumes "turns_ok s" and "gemini_ownership serverID i oid alive newID now s = Inr (e, s')"
  shows "turns_ok s'"
proof -
  let ?s1 = "s\<lparr>gemini_threads := snd (ownership_rows i oid alive now (gemini_threads s))\<rparr>"
  have s1: "turns_ok ?s1" by (rule turns_ok_gemini_rows[OF assms(1) ownership_owned[OF turns_okD(1)[OF assms(1)]]])
  show ?thesis
    using assms(2) refl
  proof (rule gemini_ownership_Inr)
    assume "s' = s"
    then show ?thesis using assms(1) by simp
  next
    fix s2 c
    assume s2: "s2 = ?s1 \<or> reactivate_goal i oid now ?s1 = Inr s2"
      and c: "append_event newID i (if alive then ''gemini.turn.ownership_active'' else ''gemini.turn.ownership_lost'') now
        (ownership_payload oid alive) (base s2) = Inr c" and s': "s' = s2\<lparr>base := snd c\<rparr>"
    have "turns_ok s2" using s1 s2 reactivate_ok by blast
    then show ?thesis
      unfolding s' by (rule turns_ok_same)
        (use append_event_frame[of _ _ _ _ _ _ "fst c" "snd c", unfolded prod.collapse, OF c] in simp_all)
  qed
qed

lemma end_claude_ok:
  assumes "turns_ok s" and "end_claude_turn i oid status now s = Inr (st, s')" and "\<not> operation_active oid (operations (base s))"
  shows "turns_ok s'"
proof -
  obtain n rows where rows: "end_session_turn i oid status now (claude_threads s) = (n, rows)" by fastforce
  have "turns_ok (s\<lparr>claude_threads := rows\<rparr>)"
    by (rule turns_ok_claude_rows[OF assms(1) end_session_turn_owned[OF turns_okD(2)[OF assms(1)] rows assms(3)]])
  then show ?thesis using assms(2) rows by (auto simp: end_claude_turn_def try_then_Inr_iff)
qed

lemma mark_pending_frame:
  "operations (base (mark_pending sel st m now kind s)) = operations (base s)"
  "gemini_threads (mark_pending sel st m now kind s) = gemini_threads s"
  "claude_threads (mark_pending sel st m now kind s) = claude_threads s"
  by (simp_all add: mark_pending_def update_tasks_def)

lemma task_record_ok: "turns_ok s \<Longrightarrow> turns_ok (MarkScheduledTaskByOperation oid status message now s)"
  by (erule turns_ok_same) (simp_all add: MarkScheduledTaskByOperation_def mark_pending_frame)

lemma event_ok: "turns_ok s \<Longrightarrow> AddEvent newID now e (base s) = Inr (e', d) \<Longrightarrow> turns_ok (s\<lparr>base := d\<rparr>)"
  by (erule turns_ok_same) (auto simp: AddEvent_def Let_def try_then_Inr_iff split: if_splits)

lemma goal_steps_ok:
  "turns_ok s \<Longrightarrow> UpdateGeminiGoalProgress i p now s = Inr s' \<Longrightarrow> turns_ok s'"
  "turns_ok s \<Longrightarrow> CancelInactiveGeminiGoal i goalID now s = Inr s' \<Longrightarrow> turns_ok s'"
  by (auto simp: UpdateGeminiGoalProgress_def CancelInactiveGeminiGoal_def try_then_Inr_iff split: if_splits intro: goals_ok_turns)

lemma delivery_ok:
  assumes "turns_ok s" and "ClaimGeminiDelivery oid now (base s) = Inr (b, d)"
  shows "turns_ok (s\<lparr>base := d\<rparr>)"
proof -
  have "rewritten (base s) d"
    using assms(2) by (auto simp: ClaimGeminiDelivery_def try_then_Inr_iff elim!: rewritten_update intro: row_kept_active queued_active)
  then show ?thesis by (rule turns_ok_rewritten[OF assms(1)])
qed

lemma others_ok:
  assumes "turns_ok s" and "op_step (base s) d"
    and "\<And>o1. o1 \<in> set (operations d) \<Longrightarrow> o_kind o1 \<in> set (gemini_turn_kinds @ claude_turn_kinds) \<Longrightarrow> o_id o1 \<in> o_id ` set (operations (base s))"
  shows "turns_ok (s\<lparr>base := d\<rparr>)"
  using op_step_cases[OF assms(2)]
proof (elim disjE exE conjE)
  fix row
  assume row: "appended row (base s) d"
  then have "o_id row \<notin> o_id ` set (operations (base s))" "row \<in> set (operations d)"
    by (auto simp: appended_def operations_ok_def)
  then have "o_kind row \<notin> set (gemini_turn_kinds @ claude_turn_kinds)" using assms(3) by blast
  then show ?thesis using turns_ok_append[OF assms(1), of row d] row by (simp add: insert_operation_Inr)
qed (rule turns_ok_rewritten[OF assms(1)])

lemma turn_step_ok:
  assumes "turn_step s s'" and "turns_ok s"
  shows "turns_ok s'"
  using assms
proof (induction rule: turn_step.induct)
  case others
  then show ?case using others_ok by blast
qed (blast intro: create_ok queue_gemini_ok queue_claude_ok interrupt_gemini_ok interrupt_claude_ok confirm_gemini_ok
    confirm_claude_ok complete_gemini_ok end_claude_ok bind_ok mode_ok undo_gemini_ok undo_claude_ok owner_gemini_ok owner_claude_ok
    task_record_ok event_ok rename_ok delete_ok commit_gemini_ok commit_claude_ok goal_steps_ok delivery_ok)+

section \<open>One live turn per session\<close>

text \<open>A database without sessions and operations; its servers, projects and workspaces are arbitrary.\<close>

definition fresh_turns :: "turn_db \<Rightarrow> bool" where
  "fresh_turns s \<longleftrightarrow> operations (base s) = [] \<and> gemini_threads s = [] \<and> claude_threads s = []"

lemma fresh_ok: "fresh_turns s \<Longrightarrow> turns_ok s"
  by (simp add: fresh_turns_def turns_ok_def turns_owned_def)

interpretation turn_system: invariant_system fresh_turns turn_step turns_ok
  by unfold_locales (erule fresh_ok, erule turn_step_ok)

lemma one_live_turn:
  assumes "turns_owned kinds rows ops" and "distinct (map o_id ops)" and "o1 \<in> set ops" and "o2 \<in> set ops"
    and "live_turn kinds i o1" and "live_turn kinds i o2"
  shows "o1 = o2 \<and> (\<exists>r \<in> set rows. owns i (o_id o1) r)"
proof -
  obtain r1 r2 where r: "r1 \<in> set rows" "owns i (o_id o1) r1" "r2 \<in> set rows" "owns i (o_id o2) r2"
    using turns_ownedD(2)[OF assms(1)] assms(3-6) by meson
  then have "r1 = r2" using same_row[OF turns_ownedD(1)[OF assms(1)]] by (simp add: owns_def)
  then have "o_id o1 = o_id o2" using r by (simp add: owns_def)
  then have "o1 = o2" using assms(2-4) by (auto simp: distinct_map inj_on_def)
  then show ?thesis using r by blast
qed

text \<open>
  C29: A session of Gemini or Claude never has two turns at once: in every state that any sequence of
  creations, turns, rewrites, interruptions, confirmations, results, ownership reports, deletions and
  operations of other components reaches, two turns of one session that are queued, delivered or
  running are the same, and the row of the session names it.
\<close>

theorem one_live_turn_per_session:
  assumes "fresh_turns s" and "rtranclp turn_step s s'"
    and "(kinds, rows) \<in> {(gemini_turn_kinds, gemini_threads s'), (claude_turn_kinds, claude_threads s')}"
    and "o1 \<in> set (operations (base s'))" and "o2 \<in> set (operations (base s'))"
    and "live_turn kinds i o1" and "live_turn kinds i o2"
  shows "o1 = o2 \<and> (\<exists>r \<in> set rows. owns i (o_id o1) r)"
proof -
  have ok: "turns_ok s'" by (rule turn_system.inv_reachable[OF assms(2,1)])
  then have "turns_owned kinds rows (operations (base s'))" using assms(3) turns_okD(1,2)[OF ok] by auto
  then show ?thesis by (rule one_live_turn[OF _ turns_okD(3)[OF ok] assms(4-7)])
qed

section \<open>Sample\<close>

definition sample_turns :: turn_db where
  "sample_turns = \<lparr>base = sample_db, gemini_threads = [], claude_threads = [], gemini_goals = [], claude_cli = (\<lambda>_. ''2.1.300''),
     gemini_revision = (\<lambda>_. Some ''r1'')\<rparr>"

definition first_session :: "go_error + Session_view \<times> turn_db" where
  "first_session = CreateGeminiThread ''w1'' ''auto'' ''default'' [] ''g1'' 1 sample_turns"

definition first_turn :: "go_error + StreamEvent option \<times> turn_db" where
  "first_turn = try_then first_session (\<lambda>(v, s). queueGeminiTurn (\<lambda>_. True) v ''hello'' ''auto'' ''default'' [] None None [] ''o1'' ''e1'' [] 2 s)"

lemma case_Inr: "(case x of Inl _ \<Rightarrow> False | Inr r \<Rightarrow> P r) \<Longrightarrow> \<exists>r. x = Inr r \<and> P r"
  by (cases x) simp_all

lemma first_turn_queued:
  obtains e s where "first_turn = Inr (e, s)" and "map o_id (operations (base s)) = [''o1'']"
    and "list_all (live_turn gemini_turn_kinds ''g1'') (operations (base s))"
proof -
  have "case first_turn of Inl _ \<Rightarrow> False | Inr r \<Rightarrow> map o_id (operations (base (snd r))) = [''o1''] \<and>
      list_all (live_turn gemini_turn_kinds ''g1'') (operations (base (snd r)))"
    by code_simp
  from case_Inr[OF this] obtain r where "first_turn = Inr r" "map o_id (operations (base (snd r))) = [''o1'']"
    "list_all (live_turn gemini_turn_kinds ''g1'') (operations (base (snd r)))"
    by (elim exE conjE) (rule that)
  then show ?thesis by (intro that[of "fst r" "snd r"]) simp_all
qed

lemma sample_turn_run:
  assumes "first_turn = Inr (e, s)"
  shows "rtranclp turn_step sample_turns s"
proof -
  obtain r where r: "first_session = Inr r"
    and s: "queueGeminiTurn (\<lambda>_. True) (fst r) ''hello'' ''auto'' ''default'' [] None None [] ''o1'' ''e1'' [] 2 (snd r) = Inr (e, s)"
    using assms unfolding first_turn_def try_then_Inr_iff case_prod_unfold by (elim exE conjE) (rule that)
  have "turn_step sample_turns (snd r)"
    by (rule create_gemini[of "''w1''" "''auto''" "''default''" "[]" "''g1''" 1 _ "fst r"]) (use r in \<open>simp add: first_session_def\<close>)
  moreover have "turn_step (snd r) s" using s by (rule queue_gemini)
  ultimately show ?thesis by simp
qed

lemma one_live_turn_per_session_witness:
  "\<exists>s o1. rtranclp turn_step sample_turns s \<and> operations (base s) = [o1] \<and> live_turn gemini_turn_kinds ''g1'' o1 \<and>
     (\<exists>r \<in> set (gemini_threads s). owns ''g1'' ''o1'' r)"
proof -
  obtain e s where t: "first_turn = Inr (e, s)" and ids: "map o_id (operations (base s)) = [''o1'']"
    and live: "list_all (live_turn gemini_turn_kinds ''g1'') (operations (base s))"
    by (rule first_turn_queued)
  obtain o1 where o1: "operations (base s) = [o1]" "o_id o1 = ''o1''" using ids by (cases "operations (base s)") auto
  have run: "rtranclp turn_step sample_turns s" by (rule sample_turn_run[OF t])
  have "o1 = o1 \<and> (\<exists>r \<in> set (gemini_threads s). owns ''g1'' (o_id o1) r)"
    by (rule one_live_turn_per_session[OF _ run, of gemini_turn_kinds])
      (use live o1 in \<open>simp_all add: fresh_turns_def sample_turns_def sample_db_def empty_db_def\<close>)
  then show ?thesis using run o1 live by auto
qed

end
