(* ===== verification/Gateway_Runs.thy ===== *)
theory Gateway_Runs
  imports Turn_Ownership
begin

text \<open>
  The handlers of the gateway refine the transition system of the sessions: every execution of a
  handler, with any document the Agent sends, is a sequence of its transitions. \<open>triple\<close> is a Hoare
  logic for sequences of transactions: from a state with \<open>P\<close> the handler makes transitions only, and
  when it returns a value the state has \<open>Q\<close>.
\<close>

section \<open>Triples\<close>

definition triple :: "(turn_db \<Rightarrow> bool) \<Rightarrow> 'a effect \<Rightarrow> ('a \<Rightarrow> turn_db \<Rightarrow> bool) \<Rightarrow> bool" where
  "triple P m Q \<longleftrightarrow> (\<forall>g. P (fst g) \<longrightarrow> rtranclp turn_step (fst g) (fst (snd (m g))) \<and>
     (\<forall>a. fst (m g) = Inr a \<longrightarrow> Q a (fst (snd (m g)))))"

named_theorems triples "rules for the triples of handlers"

abbreviation anything :: "'a \<Rightarrow> turn_db \<Rightarrow> bool" where
  "anything \<equiv> \<lambda>_ _. True"

abbreviation anywhere :: "turn_db \<Rightarrow> bool" where
  "anywhere \<equiv> \<lambda>_. True"

lemma tripleI:
  assumes "\<And>g r g'. P (fst g) \<Longrightarrow> m g = (r, g') \<Longrightarrow> rtranclp turn_step (fst g) (fst g') \<and> (\<forall>a. r = Inr a \<longrightarrow> Q a (fst g'))"
  shows "triple P m Q"
  unfolding triple_def using assms[OF _ prod.collapse[symmetric]] by blast

lemma tripleD:
  assumes "triple P m Q" and "P (fst g)" and "m g = (r, g')"
  shows "rtranclp turn_step (fst g) (fst g')" and "r = Inr a \<Longrightarrow> Q a (fst g')"
  using assms(1)[unfolded triple_def, rule_format, OF assms(2)] assms(3) by simp_all

lemma triple_and_then:
  assumes "triple P m Q" and "\<And>a. triple (Q a) (f a) R"
  shows "triple P (and_then m f) R"
proof (rule tripleI)
  fix g r g'
  assume P: "P (fst g)" and run: "and_then m f g = (r, g')"
  obtain r1 g1 where m: "m g = (r1, g1)" by (rule prod.exhaust)
  show "rtranclp turn_step (fst g) (fst g') \<and> (\<forall>b. r = Inr b \<longrightarrow> R b (fst g'))"
  proof (cases r1)
    case (Inl e)
    then show ?thesis using tripleD(1)[OF assms(1) P m] run m by (auto simp: and_then_def)
  next
    case (Inr a)
    then have f: "f a g1 = (r, g')" using run m by (simp add: and_then_def)
    note q = tripleD(2)[OF assms(1) P m Inr]
    show ?thesis
      using rtranclp_trans[OF tripleD(1)[OF assms(1) P m] tripleD(1)[OF assms(2) q f]] tripleD(2)[OF assms(2) q f] by blast
  qed
qed

text \<open>
  The rules for a sequence, by its first part: a read and a value keep the state, after a transaction
  nothing is known.
\<close>

lemma triple_ask [triples]:
  assumes "\<And>a. triple P (f a) R"
  shows "triple P (and_then (ask q) f) R"
  by (rule triple_and_then[of P _ "\<lambda>a. P"]) (simp_all add: triple_def[of P "ask q"] ask_def assms)

lemma triple_value_of [triples]:
  assumes "\<And>a. r = Inr a \<Longrightarrow> triple P (f a) R"
  shows "triple P (and_then (value_of r) f) R"
proof (rule triple_and_then[of P _ "\<lambda>a s. P s \<and> r = Inr a"])
  show "triple P (value_of r) (\<lambda>a s. P s \<and> r = Inr a)" by (simp add: triple_def value_of_def)
  show "triple (\<lambda>s. P s \<and> r = Inr a) (f a) R" for a using assms[of a] by (simp add: triple_def)
qed

lemma triple_seq:
  assumes "triple P m anything" and "\<And>a. triple anywhere (f a) R"
  shows "triple P (and_then m f) R"
  by (rule triple_and_then[OF assms(1)]) (rule assms(2))

lemma triple_pure [triples]: "triple P (pure_effect a) anything"
  by (simp add: triple_def pure_effect_def)

lemma triple_fail [triples]: "triple P (fail_effect e) anything"
  by (simp add: triple_def fail_effect_def)

lemma triple_hub [triples]: "triple P (hub_publish e) anything"
  by (simp add: triple_def hub_publish_def)

lemma triple_if [triples]: "(b \<Longrightarrow> triple P m Q) \<Longrightarrow> (\<not> b \<Longrightarrow> triple P n Q) \<Longrightarrow> triple P (if b then m else n) Q"
  by simp

lemma triple_commit:
  assumes "\<And>s a s'. P s \<Longrightarrow> t s = Inr (a, s') \<Longrightarrow> rtranclp turn_step s s' \<and> Q a s'"
  shows "triple P (commit t) Q"
  using assms by (auto simp: triple_def commit_def split: sum.split)

lemma triple_weaken: "triple P m Q \<Longrightarrow> (\<And>s. P' s \<Longrightarrow> P s) \<Longrightarrow> (\<And>a s. Q a s \<Longrightarrow> Q' a s) \<Longrightarrow> triple P' m Q'"
  by (auto simp: triple_def)

text \<open>A transaction that is a transition, from any state.\<close>

lemma triple_step:
  assumes "\<And>s a s'. t s = Inr (a, s') \<Longrightarrow> turn_step s s'"
  shows "triple P (commit t) anything"
  by (rule triple_commit) (use assms in blast)

lemma triple_publish [triples]: "triple P (publish newID clock event) anything"
proof -
  have "triple P (commit (on_base (AddEvent newID clock event))) anything"
    by (rule triple_step) (auto simp: on_base_def try_then_Inr_iff intro: turn_step.event)
  then show ?thesis unfolding publish_def by (rule triple_seq) (rule triple_hub)
qed

lemma triple_replacement [triples]: "triple P (publish_replacement e) anything"
  by (auto simp: publish_replacement_def split: option.split intro: triples)

lemma triple_record [triples]: "triple P (commit (\<lambda>s. Inr ((), MarkScheduledTaskByOperation oid status message clock s))) anything"
  by (rule triple_step) (auto intro: task_record)

lemma triple_transactions [triples]:
  "triple P (commit (CommitGeminiRewrite i oid sessionID clock)) anything"
  "triple P (commit (CommitClaudeRewrite ok i oid sessionID clock)) anything"
  "triple P (commit (bind_gemini i oid sessionID clock)) anything"
  "triple P (commit (bind_claude i oid sessionID clock)) anything"
  "triple P (commit (set_gemini_mode i oid mode clock)) anything"
  "triple P (commit (undo_gemini_interrupt i oid recovery clock)) anything"
  "triple P (commit (undo_claude_interrupt i oid recovery clock)) anything"
  "triple P (commit (gemini_ownership serverID i oid alive newID clock)) anything"
  "triple P (commit (claude_ownership serverID i oid alive clock)) anything"
  "triple P (commit (\<lambda>s. try_then (UpdateGeminiGoalProgress i p clock s) (\<lambda>s'. Inr ((), s')))) anything"
  by (rule triple_step; (auto simp: try_then_Inr_iff intro: turn_step.intros; fail))+

section \<open>Events and ownership\<close>

lemma triple_pair [triples]: "(\<And>a b. p = (a, b) \<Longrightarrow> triple P (f a b) Q) \<Longrightarrow> triple P (case p of (a, b) \<Rightarrow> f a b) Q"
  by (simp split: prod.split)

lemma triple_gemini_init [triples]: "triple P (gemini_init i oid sessionID clock) anything"
  unfolding gemini_init_def by (intro triples triple_seq)

lemma triple_gemini_progress [triples]: "triple P (gemini_progress i raw clock) anything"
  unfolding gemini_progress_def by (intro triples triple_seq)

lemma gemini_event_runs: "triple P (handleGeminiEvent serverID event newID clock) anything"
  unfolding handleGeminiEvent_def Let_def by (intro triples triple_seq)

lemma triple_claude_rewrite [triples]: "triple P (claude_rewrite_committed uuid_ok i oid sessionID clock) anything"
proof (rule tripleI)
  fix g r g'
  assume run: "claude_rewrite_committed uuid_ok i oid sessionID clock g = (r, g')"
  obtain r1 g1 where m: "commit (CommitClaudeRewrite uuid_ok i oid sessionID clock) g = (r1, g1)" by (rule prod.exhaust)
  have "triple anywhere (commit (CommitClaudeRewrite uuid_ok i oid sessionID clock)) anything" by (rule triple_transactions)
  then have first: "rtranclp turn_step (fst g) (fst g1)" using m by (rule tripleD(1)[OF _ TrueI])
  have "fst g' = fst g1"
    using run m by (auto simp: claude_rewrite_committed_def and_then_def publish_replacement_def pure_effect_def hub_publish_def
        split: sum.splits option.splits)
  then show "rtranclp turn_step (fst g) (fst g') \<and> (\<forall>a. r = Inr a \<longrightarrow> True)" using first by simp
qed

lemma triple_claude_init [triples]: "triple P (claude_init uuid_ok serverID row oid sessionID clock) anything"
  unfolding claude_init_def Let_def by (intro triples triple_seq)

lemma triple_pure_branch [triples]: "triple P (\<lambda>g. case q (fst g) of Inl _ \<Rightarrow> (Inr a, g) | Inr c \<Rightarrow> (Inr (f c), g)) anything"
  by (auto simp: triple_def split: sum.split)

lemma triple_claude_event_step [triples]: "triple P (claude_event_step uuid_ok serverID row event oid sessionID requestID clock) anything"
  unfolding claude_event_step_def by (intro triples triple_seq)

lemma triple_option [triples]:
  "(x = None \<Longrightarrow> triple P m Q) \<Longrightarrow> (\<And>a. x = Some a \<Longrightarrow> triple P (f a) Q) \<Longrightarrow> triple P (case x of None \<Rightarrow> m | Some a \<Rightarrow> f a) Q"
  by (simp split: option.split)

lemma claude_event_runs: "triple P (handleClaudeEvent uuid_ok serverID event newID clock) anything"
  unfolding handleClaudeEvent_def Let_def by (intro triples triple_seq)

lemma claude_ownership_runs [triples]: "triple P (updateClaudeOwnership serverID oid alive newID clock) anything"
  unfolding updateClaudeOwnership_def by (intro triples triple_seq)

lemma gemini_ownership_runs [triples]: "triple P (updateGeminiOwnership serverID oid alive newID clock) anything"
  unfolding updateGeminiOwnership_def by (intro triples triple_seq)

section \<open>Results\<close>

definition settled :: "string \<Rightarrow> turn_db \<Rightarrow> bool" where
  "settled oid s \<longleftrightarrow> \<not> operation_active oid (operations (base s))"

lemma step_rewritten:
  assumes "op_step (base s) d" and "rewritten (base s) d"
  shows "turn_step s (s\<lparr>base := d\<rparr>)"
proof (rule others[OF assms(1)])
  fix o1
  assume "o1 \<in> set (operations d)"
  then show "o_id o1 \<in> o_id ` set (operations (base s))"
    using assms(2) by (auto simp: rewritten_def row_kept_def)
qed

lemma completed_settled:
  assumes "CompleteOperationIfActive r now d = Inr (b, d')" and "ResultStatus r \<notin> set active_statuses"
  shows "\<not> operation_active (ResultOperationID r) (operations d')"
proof -
  obtain data n where u: "update_operations (\<lambda>o1. o_id o1 = ResultOperationID r \<and> active o1)
      (finish (ResultStatus r) (ResultMessage r) data now) d = Inr (n, d')"
    using assms(1) by (auto simp: CompleteOperationIfActive_def try_then_Inr_iff)
  show ?thesis
    using u assms(2) by (auto simp: update_operations_Inr operation_active_def list_ex_iff active_def finish_def split: if_splits)
qed

lemma triple_complete:
  assumes "ResultStatus r \<notin> set active_statuses"
  shows "triple P (commit (on_base (CompleteOperationIfActive r now))) (\<lambda>_. settled (ResultOperationID r))"
proof (rule triple_commit)
  fix s a s'
  assume "on_base (CompleteOperationIfActive r now) s = Inr (a, s')"
  then obtain d where c: "CompleteOperationIfActive r now (base s) = Inr (a, d)" and s': "s' = s\<lparr>base := d\<rparr>"
    by (auto simp: on_base_def try_then_Inr_iff)
  have "turn_step s s'" unfolding s' by (rule step_rewritten[OF op_step.complete[OF c] Complete_rewritten[OF c]])
  then show "rtranclp turn_step s s' \<and> settled (ResultOperationID r) s'"
    using completed_settled[OF c assms] by (simp add: s' settled_def)
qed

lemma triple_complete_plain:
  assumes "ResultStatus r \<notin> set active_statuses"
  shows "triple P (commit (on_base (\<lambda>d. try_then (CompleteOperation r now d) (\<lambda>d'. Inr ((), d'))))) (\<lambda>_. settled (ResultOperationID r))"
proof (rule triple_commit)
  fix s a s'
  assume "on_base (\<lambda>d. try_then (CompleteOperation r now d) (\<lambda>d'. Inr ((), d'))) s = Inr (a, s')"
  then obtain b d where c: "CompleteOperationIfActive r now (base s) = Inr (b, d)" and s': "s' = s\<lparr>base := d\<rparr>"
    by (auto simp: on_base_def CompleteOperation_def try_then_Inr_iff)
  have "turn_step s s'" unfolding s' by (rule step_rewritten[OF op_step.complete[OF c] Complete_rewritten[OF c]])
  then show "rtranclp turn_step s s' \<and> settled (ResultOperationID r) s'"
    using completed_settled[OF c assms] by (simp add: s' settled_def)
qed

lemma triple_end_gemini [triples]:
  "triple (settled oid) (commit (\<lambda>s. try_then (CompleteGeminiTurn i oid status clock s) (\<lambda>s'. Inr ((), s')))) anything"
  by (rule triple_commit) (auto simp: try_then_Inr_iff settled_def intro: complete_gemini)

lemma triple_end_claude:
  "triple (settled oid) (commit (end_claude_turn i oid status clock)) anything"
  by (rule triple_commit) (auto simp: settled_def intro: complete_claude)

lemma triple_steer_failed [triples]:
  "triple P (claude_steer_failed op r newID clock) anything" "triple P (gemini_steer_failed op r newID clock) anything"
  unfolding claude_steer_failed_def gemini_steer_failed_def Let_def by (intro triples triple_seq)+

lemma gemini_turn_runs [triples]: "triple (settled (o_id op)) (gemini_turn_completed op r newID clock) anything"
  unfolding gemini_turn_completed_def Let_def by (intro triples triple_seq)

lemma triple_end_claude_case:
  assumes "\<And>status. triple anywhere (f status) anything"
  shows "triple (settled oid) (\<lambda>g. case commit (end_claude_turn i oid st clock) g of
     (Inl e, g') \<Rightarrow> (if e = ErrNoRows then Inr () else Inl e, g')
   | (Inr status, g') \<Rightarrow> f status g') anything"
proof (rule tripleI)
  let ?m = "commit (end_claude_turn i oid st clock)"
  fix g r g'
  assume P: "settled oid (fst g)" and run: "(case ?m g of
     (Inl e, g') \<Rightarrow> (if e = ErrNoRows then Inr () else Inl e, g')
   | (Inr status, g') \<Rightarrow> f status g') = (r, g')"
  obtain r1 g1 where m: "?m g = (r1, g1)" by (rule prod.exhaust)
  note first = tripleD(1)[OF triple_end_claude P m]
  show "rtranclp turn_step (fst g) (fst g') \<and> (\<forall>a. r = Inr a \<longrightarrow> True)"
  proof (cases r1)
    case (Inl e)
    then show ?thesis using run m first by auto
  next
    case (Inr status)
    then have "f status g1 = (r, g')" using run m by simp
    then have "rtranclp turn_step (fst g1) (fst g')" by (rule tripleD(1)[OF assms TrueI])
    then show ?thesis using first by auto
  qed
qed

lemma claude_turn_runs [triples]: "triple (settled (o_id op)) (claude_turn_completed op r newID clock) anything"
  unfolding claude_turn_completed_def
  by (rule triple_value_of, rule triple_end_claude_case) (intro triples triple_seq)

text \<open>
  An interruption that succeeded settles the turn it was for, with a cancelled result, and hands the turn
  to the handler of turns.
\<close>

lemma triple_ask_row:
  assumes "\<And>op. o_id op = oid \<Longrightarrow> triple P (f op) R"
  shows "triple P (and_then (ask (\<lambda>s. operation_row oid (base s))) f) R"
proof (rule triple_and_then[of P _ "\<lambda>op s. P s \<and> o_id op = oid"])
  show "triple P (ask (\<lambda>s. operation_row oid (base s))) (\<lambda>op s. P s \<and> o_id op = oid)"
    by (auto simp: triple_def ask_def operation_row_def dest: find_row_Inr)
  show "triple (\<lambda>s. P s \<and> o_id op = oid) (f op) R" for op using assms[of op] by (simp add: triple_def)
qed

lemma stopped_settles:
  "ResultStatus (stopped_result oid m) \<notin> set active_statuses" "ResultOperationID (stopped_result oid m) = oid"
  by (simp_all add: stopped_result_def active_statuses_def)

lemma claude_interrupted_runs:
  assumes "\<And>op r. triple (settled (o_id op)) (rest op r) anything"
  shows "triple P (claude_interrupted rest op r newID clock) anything"
proof -
  have stop: "triple P (commit (on_base (CompleteOperationIfActive (stopped_result oid m) clock))) (\<lambda>_. settled oid)" for P oid m
    using triple_complete[OF stopped_settles(1)] by (simp add: stopped_settles(2))
  have branch: "triple P (and_then (commit (on_base (CompleteOperationIfActive (stopped_result oid m) clock)))
      (\<lambda>claimed. if \<not> claimed then pure_effect () else rest op1 (stopped_result oid m))) anything"
    if "o_id op1 = oid" for P oid m op1
    using that by (intro triple_and_then[OF stop] triples) (use assms[of op1] in simp)
  show ?thesis
    unfolding claude_interrupted_def Let_def
    by (intro triples triple_ask_row branch triple_seq; assumption)
qed

lemma gemini_interrupted_runs:
  assumes "\<And>op r. triple (settled (o_id op)) (rest op r) anything"
  shows "triple P (gemini_interrupted rest op r newID clock) anything"
proof -
  have stop: "triple P (commit (on_base (\<lambda>d. try_then (CompleteOperation (stopped_result oid m) clock d) (\<lambda>d'. Inr ((), d')))))
      (\<lambda>_. settled oid)" for P oid m
    using triple_complete_plain[OF stopped_settles(1)] by (simp add: stopped_settles(2))
  have branch: "triple P (and_then (commit (on_base (\<lambda>d. try_then (CompleteOperation (stopped_result oid m) clock d) (\<lambda>d'. Inr ((), d')))))
      (\<lambda>_. and_then (ask (\<lambda>s. operation_row oid (base s))) (\<lambda>completed.
        if o_status completed \<noteq> ''cancelled'' then pure_effect () else rest op1 (stopped_result oid m)))) anything"
    if "o_id op1 = oid" for P oid m op1
    using that by (intro triple_and_then[OF stop] triples) (use assms[of op1] in simp)
  have read: "triple P (and_then (ask (get_GeminiThread i clock)) f) anything" if "\<And>v. triple P (f v) anything" for P i and f :: "Session_view \<Rightarrow> unit effect"
    by (rule triple_ask) (rule that)
  show ?thesis
    unfolding gemini_interrupted_def Let_def markGeminiOwnershipLost_def
    by (intro triple_value_of triple_pair triple_if triple_pure read triple_ask_row branch triple_seq triple_transactions triple_publish
        gemini_ownership_runs; assumption)
qed

lemma claude_completed_runs:
  assumes "\<And>op r. triple (settled (o_id op)) (rest op r) anything"
  shows "triple (settled (o_id op)) (claude_completed rest newID clock op r) anything"
  unfolding claude_completed_def by (intro triples claude_interrupted_runs assms)

lemma gemini_completed_runs:
  assumes "\<And>op r. triple (settled (o_id op)) (rest op r) anything"
  shows "triple (settled (o_id op)) (gemini_completed rest newID clock op r) anything"
  unfolding gemini_completed_def by (intro triples gemini_interrupted_runs assms)

lemma completed_runs [triples]:
  "triple (settled (o_id op)) (completeClaudeOperation newID clock op r) anything"
  "triple (settled (o_id op)) (completeGeminiOperation newID clock op r) anything"
  unfolding completeClaudeOperation_def completeGeminiOperation_def
  by (intro claude_completed_runs gemini_completed_runs triple_pure)+

section \<open>Messages\<close>

lemma started_runs: "triple P (operation_started serverID oid clock) anything"
proof -
  have mark: "triple P (commit (on_base (\<lambda>d. try_then (MarkRunning i clock d) (\<lambda>d'. Inr ((), d'))))) anything" for P i
    by (rule triple_step) (auto simp: on_base_def try_then_Inr_iff intro: step_rewritten op_step.start MarkRunning_rewritten)
  show ?thesis unfolding operation_started_def by (intro triples mark)
qed

text \<open>Only one of the two handlers runs: the kinds they are for are disjoint.\<close>

lemma triple_either:
  assumes "triple P m anything" and "triple P n anything" and "\<not> (a \<and> b)" and "triple anywhere k anything"
  shows "triple P (and_then (if a then m else pure_effect ()) (\<lambda>_. and_then (if b then n else pure_effect ()) (\<lambda>_. k))) anything"
proof -
  have skip: "and_then (pure_effect ()) f = f ()" for f :: "unit \<Rightarrow> 'z effect"
    by (simp add: and_then_def pure_effect_def fun_eq_iff)
  have k: "triple Q k anything" for Q using assms(4) by (simp add: triple_def)
  show ?thesis
    using assms(3) by (cases a; cases b) (auto simp: skip intro!: k triple_seq assms(1,2))
qed

lemma result_runs:
  assumes "ResultStatus r \<notin> set active_statuses"
  shows "triple P (session_result serverID r newID newID2 clock) anything"
proof -
  have claimed: "triple P (commit (on_base (CompleteOperationIfActive r1 clock))) (\<lambda>_. settled (ResultOperationID r))"
    if "r1 = (if b then r\<lparr>ResultStatus := ''cancelled''\<rparr> else r)" for P r1 b
    using triple_complete[of r1 P clock] assms that by (auto simp: active_statuses_def split: if_splits)
  have kinds: "\<not> (k \<in> set (gemini_turn_kinds @ [''gemini.turn.interrupt'', ''gemini.turn.steer'']) \<and>
     k \<in> {''claude.turn.start'', ''claude.turn.interrupt'', ''claude.turn.steer'', ''claude.question.answer''})" for k
    by (auto simp: gemini_turn_kinds_def)
  have handlers: "triple (settled (ResultOperationID r)) (completeClaudeOperation newID clock op r1) anything"
    "triple (settled (ResultOperationID r)) (completeGeminiOperation newID clock op r1) anything" if "o_id op = ResultOperationID r" for op r1
    using completed_runs[of op newID clock r1] that by simp_all
  show ?thesis
    unfolding session_result_def Let_def
    by (rule triple_ask_row, intro triple_value_of triple_if triple_pure,
        rule triple_and_then[OF claimed[OF refl]], intro triple_if triple_pure triple_ask triple_either handlers kinds triple_publish)
qed

text \<open>
  The messages of the Agent about sessions of Gemini and Claude, as the gateway's dispatch hands them to
  the handlers. A result must carry a final status: the code stores the status it is sent.
\<close>

datatype turn_message =
    GeminiEvent StreamEvent
  | ClaudeEvent StreamEvent
  | ClaudeOwnership string bool
  | GeminiOwnershipLost string
  | GeminiOwnershipActive string
  | OperationStarted string
  | SessionResult OperationResult

fun handle_turn_message :: "(string \<Rightarrow> bool) \<Rightarrow> string \<Rightarrow> string \<Rightarrow> string \<Rightarrow> instant \<Rightarrow> turn_message \<Rightarrow> unit effect" where
  "handle_turn_message uuid_ok serverID newID newID2 clock (GeminiEvent e) = handleGeminiEvent serverID e newID clock"
| "handle_turn_message uuid_ok serverID newID newID2 clock (ClaudeEvent e) = handleClaudeEvent uuid_ok serverID e newID clock"
| "handle_turn_message uuid_ok serverID newID newID2 clock (ClaudeOwnership oid alive) = updateClaudeOwnership serverID oid alive newID clock"
| "handle_turn_message uuid_ok serverID newID newID2 clock (GeminiOwnershipLost oid) = markGeminiOwnershipLost serverID oid newID clock"
| "handle_turn_message uuid_ok serverID newID newID2 clock (GeminiOwnershipActive oid) = markGeminiOwnershipActive serverID oid newID clock"
| "handle_turn_message uuid_ok serverID newID newID2 clock (OperationStarted oid) = operation_started serverID oid clock"
| "handle_turn_message uuid_ok serverID newID newID2 clock (SessionResult r) = session_result serverID r newID newID2 clock"

fun final_result :: "turn_message \<Rightarrow> bool" where
  "final_result (SessionResult r) = (ResultStatus r \<notin> set active_statuses)"
| "final_result _ = True"

lemma message_runs:
  "final_result msg \<Longrightarrow> triple anywhere (handle_turn_message uuid_ok serverID newID newID2 clock msg) anything"
  by (cases msg) (auto simp: markGeminiOwnershipLost_def markGeminiOwnershipActive_def
      intro: gemini_event_runs claude_event_runs claude_ownership_runs gemini_ownership_runs started_runs result_runs)


text \<open>A turn whose payload cannot be read: its operation is settled, and then the handler fails.\<close>

definition bad_turn :: turn_db where
  "bad_turn = sample_turns\<lparr>base := sample_db\<lparr>operations := [sample_row\<lparr>o_kind := ''claude.turn.start'', o_payload := OtherText ''{''\<rparr>]\<rparr>\<rparr>"

definition bad_turn_ends :: "(go_error + unit) \<times> gateway" where
  "bad_turn_ends = handle_turn_message (\<lambda>_. True) ''s1'' ''e2'' ''e3'' 5 (SessionResult (stopped_result ''o1'' ''stopped'')) (bad_turn, [])"

lemma bad_turn_evaluated:
  "fst bad_turn_ends = Inl BadJSON" "map o_status (operations (base (fst (snd bad_turn_ends)))) = [''cancelled'']"
  by code_simp+


end
