(* ===== verification/Gateway_Delivery.thy ===== *)
theory Gateway_Delivery
  imports Gateway_Runs
begin

text \<open>
  The delivery of operations to an Agent, \<open>flush\<close> of internal/agentgateway/gateway.go: the pending
  operations of the Agent's server are sent in order, a turn of a CLI after it was claimed, any other
  operation before it is marked. \<open>vault\<close> opens an encrypted payload, \<open>send\<close> is the error of the stream
  for an envelope, \<open>fresh\<close> gives the identifier of an operation that is queued on the way.
\<close>

section \<open>Commands of Codex turns\<close>

text \<open>A field that is a struct: a missing entry and \<open>null\<close> leave it at its zero value.\<close>

definition struct_in :: "(json \<Rightarrow> 'a option) \<Rightarrow> 'a \<Rightarrow> string \<Rightarrow> json \<Rightarrow> 'a option" where
  "struct_in dec zero name d = map_option (\<lambda>v. case v of None \<Rightarrow> zero | Some a \<Rightarrow> a) (pointer_field dec name d)"

definition zero_start :: StartTurnCommand where
  "zero_start = \<lparr>TurnThreadID = [], TurnCodexThread = [], TurnWorkspaceID = [], TurnWorkspace = [], TurnPrompt = [],
     TurnImages = [], TurnModel = [], TurnReasoningEffort = [], TurnApprovalMode = []\<rparr>"

definition decode_StartTurnCommand :: "json \<Rightarrow> StartTurnCommand option" where
  "decode_StartTurnCommand d =
     (case (str_field ''thread_id'' d, str_field ''codex_thread_id'' d, str_field ''workspace_id'' d, str_field ''workspace'' d,
            str_field ''prompt'' d) of
        (Some t, Some ct, Some wi, Some w, Some p) \<Rightarrow>
          (case (array_field decode_image ''images'' d, str_field ''model'' d, str_field ''reasoning_effort'' d, str_field ''approval_mode'' d) of
             (Some im, Some mo, Some re, Some ap) \<Rightarrow>
               Some \<lparr>TurnThreadID = t, TurnCodexThread = ct, TurnWorkspaceID = wi, TurnWorkspace = w, TurnPrompt = p,
                     TurnImages = (case im of None \<Rightarrow> [] | Some xs \<Rightarrow> xs), TurnModel = mo, TurnReasoningEffort = re, TurnApprovalMode = ap\<rparr>
           | _ \<Rightarrow> None)
      | _ \<Rightarrow> None)"

definition decode_RewriteTurnCommand :: "json \<Rightarrow> RewriteTurnCommand option" where
  "decode_RewriteTurnCommand d =
     (case (struct_in decode_StartTurnCommand zero_start ''start'' d, int_field ''num_turns'' d, str_field ''edit_event_id'' d,
            str_field ''replacement_event_id'' d, raw_field ''replacement_payload'' d, int_field ''cutoff_sequence'' d) of
        (Some s, Some n, Some e, Some r, Some p, Some c) \<Rightarrow>
          if 0 \<le> n \<and> n < 2 ^ 32
          then Some \<lparr>RewriteStart = s, NumTurns = nat n, EditEventID = e, ReplacementEventID = r, ReplacementPayload = p, CutoffSequence = c\<rparr>
          else None
      | _ \<Rightarrow> None)"

text \<open>\<open>InterruptTurnCommand\<close> as the delivery writes it: without a turn, best effort.\<close>

definition best_effort_command :: "StartTurnCommand \<Rightarrow> json" where
  "best_effort_command c = JObj [(''thread_id'', JStr (TurnThreadID c)), (''codex_thread_id'', JStr (TurnCodexThread c)), (''best_effort'', JBool True)]"

definition codex_turn_start :: "Operation \<Rightarrow> go_error + StartTurnCommand" where
  "codex_turn_start op =
     (if o_kind op = ''codex.turn.start'' then decode_payload (payload_of op) decode_StartTurnCommand
      else try_then (decode_payload (payload_of op) decode_RewriteTurnCommand) (\<lambda>c. Inr (RewriteStart c)))"

definition isCodexTurnOperation :: "string \<Rightarrow> bool" where
  "isCodexTurnOperation kind \<longleftrightarrow> kind = ''codex.turn.start'' \<or> kind = ''codex.turn.rewrite''"

definition queueBestEffortInterrupt :: "string \<Rightarrow> Operation \<Rightarrow> string \<Rightarrow> instant \<Rightarrow> db \<Rightarrow> go_error + db" where
  "queueBestEffortInterrupt serverID op newID now d =
     (if \<not> isCodexTurnOperation (o_kind op) then Inr d
      else try_then (codex_turn_start op) (\<lambda>c.
        try_then (require (TurnThreadID c \<noteq> []) (Err ''Codex turn operation has no thread id'')) (\<lambda>_.
        try_then (QueueResourceOperation serverID ''codex.turn.interrupt'' (best_effort_command c) (''codex-cancel:'' @ o_id op)
          \<lparr>ProjectID = or_empty (o_project_id op), WorkspaceID = or_empty (o_workspace_id op), ThreadID = or_empty (o_thread_id op)\<rparr>
          False newID now d) (\<lambda>(_, d'). Inr d'))))"

section \<open>One operation\<close>

record ControlEnvelope =
  EnvelopeOperationID :: string
  EnvelopeKind :: string
  CreatedAtUnixMS :: int
  EnvelopePayload :: raw_message

definition envelope :: "Operation \<Rightarrow> raw_message \<Rightarrow> ControlEnvelope" where
  "envelope op payload = \<lparr>EnvelopeOperationID = o_id op, EnvelopeKind = o_kind op,
     CreatedAtUnixMS = o_created_at op div 1000000, EnvelopePayload = payload\<rparr>"

text \<open>\<open>None\<close>: the payload is encrypted and the vault does not open it.\<close>

definition open_payload :: "(string \<Rightarrow> raw_message option) \<Rightarrow> Operation \<Rightarrow> raw_message option" where
  "open_payload vault op =
     (case o_payload op of
        OtherText t \<Rightarrow> if has_prefix t ''v1:'' then vault t else Some None
      | JsonText d \<Rightarrow> Some (Some d))"

definition gemini_cancel :: "string \<Rightarrow> Operation \<Rightarrow> string \<Rightarrow> instant \<Rightarrow> db \<Rightarrow> go_error + db" where
  "gemini_cancel serverID op newID now d =
     try_then (decode_payload (payload_of op) decode_GeminiTurnCommand) (\<lambda>c.
     try_then (QueueResourceOperation serverID ''gemini.turn.interrupt''
       (JObj (str_entry ''thread_id'' (gt_ThreadID c) @ str_entry ''operation_id'' (o_id op))) (''gemini-cancel:'' @ o_id op)
       \<lparr>ProjectID = or_empty (o_project_id op), WorkspaceID = or_empty (o_workspace_id op), ThreadID = []\<rparr>
       False newID now d) (\<lambda>(_, d'). Inr d'))"

text \<open>
  After the delivery: a turn that was cancelled while it was sent is interrupted. The error of the
  interruption of a Codex turn is logged only.
\<close>

definition was_cancelled :: "Operation \<Rightarrow> db \<Rightarrow> bool" where
  "was_cancelled op d = (case operation_row (o_id op) d of Inr u \<Rightarrow> o_status u = ''cancelled'' | Inl _ \<Rightarrow> False)"

definition after_delivery :: "string \<Rightarrow> Operation \<Rightarrow> string \<Rightarrow> instant \<Rightarrow> db \<Rightarrow> go_error + db" where
  "after_delivery serverID op newID now d =
     (if isCodexTurnOperation (o_kind op) \<and> was_cancelled op d
      then (case queueBestEffortInterrupt serverID op newID now d of Inl _ \<Rightarrow> Inr d | Inr d' \<Rightarrow> Inr d')
      else if o_kind op \<in> set gemini_turn_kinds \<and> was_cancelled op d
      then gemini_cancel serverID op newID now d
      else Inr d)"

text \<open>\<open>Some e\<close> ends the connection.\<close>

type_synonym flushed = "go_error option \<times> turn_db \<times> ControlEnvelope list"

definition deliver_sent :: "string \<Rightarrow> Operation \<Rightarrow> string \<Rightarrow> instant \<Rightarrow> turn_db \<Rightarrow> ControlEnvelope list \<Rightarrow> flushed" where
  "deliver_sent serverID op newID now s w =
     (case (if o_kind op \<in> set claimed_turn_kinds then Inr (base s) else MarkDelivered (o_id op) now (base s)) of
        Inl _ \<Rightarrow> (None, s, w)
      | Inr d \<Rightarrow> (case after_delivery serverID op newID now d of
          Inl e \<Rightarrow> (Some e, s\<lparr>base := d\<rparr>, w)
        | Inr d' \<Rightarrow> (None, s\<lparr>base := d'\<rparr>, w)))"

definition claim_delivery :: "Operation \<Rightarrow> instant \<Rightarrow> db \<Rightarrow> go_error + bool \<times> db" where
  "claim_delivery op now d = (if o_kind op \<in> set claimed_turn_kinds then ClaimGeminiDelivery (o_id op) now d else Inr (True, d))"

definition deliver_one ::
    "(string \<Rightarrow> raw_message option) \<Rightarrow> (ControlEnvelope \<Rightarrow> go_error option) \<Rightarrow> string \<Rightarrow> (Operation \<Rightarrow> string) \<Rightarrow> instant \<Rightarrow>
     Operation \<Rightarrow> turn_db \<Rightarrow> ControlEnvelope list \<Rightarrow> flushed" where
  "deliver_one vault send serverID fresh now op s w =
     (case open_payload vault op of
        None \<Rightarrow> (None, s, w)
      | Some payload \<Rightarrow> (case claim_delivery op now (base s) of
          Inl e \<Rightarrow> (Some e, s, w)
        | Inr (claimed, d) \<Rightarrow>
            if \<not> claimed then (None, s\<lparr>base := d\<rparr>, w)
            else (case send (envelope op payload) of
                Some e \<Rightarrow> (Some e, s\<lparr>base := d\<rparr>, w)
              | None \<Rightarrow> deliver_sent serverID op (fresh op) now (s\<lparr>base := d\<rparr>) (w @ [envelope op payload]))))"

fun deliver_all ::
    "(string \<Rightarrow> raw_message option) \<Rightarrow> (ControlEnvelope \<Rightarrow> go_error option) \<Rightarrow> string \<Rightarrow> (Operation \<Rightarrow> string) \<Rightarrow> instant \<Rightarrow>
     Operation list \<Rightarrow> turn_db \<Rightarrow> ControlEnvelope list \<Rightarrow> flushed" where
  "deliver_all vault send serverID fresh now [] s w = (None, s, w)"
| "deliver_all vault send serverID fresh now (op # ops) s w =
     (case deliver_one vault send serverID fresh now op s w of
        (Some e, s', w') \<Rightarrow> (Some e, s', w')
      | (None, s', w') \<Rightarrow> deliver_all vault send serverID fresh now ops s' w')"

definition flush ::
    "(string \<Rightarrow> raw_message option) \<Rightarrow> (ControlEnvelope \<Rightarrow> go_error option) \<Rightarrow> string \<Rightarrow> (Operation \<Rightarrow> string) \<Rightarrow> instant \<Rightarrow>
     turn_db \<Rightarrow> ControlEnvelope list \<Rightarrow> flushed" where
  "flush vault send serverID fresh now s w =
     deliver_all vault send serverID fresh now (PendingOperations serverID now (base s)) s w"

section \<open>Handed out for good\<close>

text \<open>
  A turn that has left the queue never returns to it, whatever the sessions, the operations of other
  components and the Agents do, as long as no Agent reports the status of a queued operation as a result.
\<close>

definition handed_on :: "string \<Rightarrow> Operation list \<Rightarrow> bool" where
  "handed_on i ops \<longleftrightarrow> list_ex (\<lambda>o1. o_id o1 = i \<and> o_kind o1 \<in> set claimed_turn_kinds \<and> o_status o1 \<noteq> ''queued'') ops"

definition stores_queued :: "db \<Rightarrow> db \<Rightarrow> bool" where
  "stores_queued d d' \<longleftrightarrow> d' \<noteq> d \<and> (\<exists>r now c. ResultStatus r = ''queued'' \<and> CompleteOperationIfActive r now d = Inr (c, d'))"

definition later :: "Operation list \<Rightarrow> Operation list \<Rightarrow> bool" where
  "later ops ops' \<longleftrightarrow> (\<forall>i. handed_on i ops \<longrightarrow> handed_on i ops')"

lemma later_refl [simp]: "later ops ops"
  by (simp add: later_def)

lemma later_trans: "later a b \<Longrightarrow> later b c \<Longrightarrow> later a c"
  by (simp add: later_def)

lemma later_append: "later ops (ops @ xs)"
  by (simp add: later_def handed_on_def)

lemma later_map:
  assumes "\<And>o1. o1 \<in> set ops \<Longrightarrow> o_id (f o1) = o_id o1 \<and> o_kind (f o1) = o_kind o1"
    and "\<And>o1. o1 \<in> set ops \<Longrightarrow> o_kind o1 \<in> set claimed_turn_kinds \<Longrightarrow> o_status o1 \<noteq> ''queued'' \<Longrightarrow> o_status (f o1) \<noteq> ''queued''"
  shows "later ops (map f ops)"
  using assms by (fastforce simp: later_def handed_on_def list_ex_iff)

lemma later_update:
  assumes "update_operations sel f d = Inr (n, d')"
    and "\<And>o1. o_id (f o1) = o_id o1 \<and> o_kind (f o1) = o_kind o1"
    and "\<And>o1. sel o1 \<Longrightarrow> o_kind o1 \<in> set claimed_turn_kinds \<Longrightarrow> o_status (f o1) \<noteq> ''queued''"
  shows "later (operations d) (operations d')"
  using assms(1) assms(2,3) by (auto simp: update_operations_Inr intro!: later_map split: if_split_asm)

lemma later_appended: "appended row d d' \<Longrightarrow> later (operations d) (operations d')"
  by (simp add: appended_def later_append)

lemma later_same: "operations d' = operations d \<Longrightarrow> later (operations d) (operations d')"
  by simp

lemma later_queue: "queueOperationPayload srv kind payload key res wr newID now d = Inr (i, d') \<Longrightarrow> later (operations d) (operations d')"
  using queue_cases[of srv kind payload key res wr newID now d i d'] by (auto intro: later_appended)

lemma later_complete:
  "CompleteOperationIfActive r now d = Inr (c, d') \<Longrightarrow> ResultStatus r \<noteq> ''queued'' \<Longrightarrow> later (operations d) (operations d')"
  by (auto simp: CompleteOperationIfActive_def try_then_Inr_iff finish_def elim!: later_update)

lemma later_scan: "CompleteWorkspaceFileScan op1 ws r now d = Inr (c, d') \<Longrightarrow> later (operations d) (operations d')"
proof -
  assume a: "CompleteWorkspaceFileScan op1 ws r now d = Inr (c, d')"
  have up: "upsert_snapshot tab row upd e = Inr e' \<Longrightarrow> operations e' = operations e" for tab row upd e e'
    by (auto simp: upsert_snapshot_def update_snapshots_def split: if_splits)
  obtain data n e where u: "update_operations (\<lambda>o1. o_id o1 = o_id op1 \<and> o_kind o1 = ''workspace.files'' \<and> active o1)
      (finish (ResultStatus r) (ResultMessage r) data now) d = Inr (n, e)" and "operations d' = operations e \<or> d' = d"
    using a up by (auto simp: CompleteWorkspaceFileScan_def try_then_Inr_iff split: if_splits)
  moreover have "later (operations d) (operations e)"
    by (rule later_update[OF u]) (auto simp: finish_def claimed_turn_kinds_def)
  ultimately show ?thesis by auto
qed

lemma later_interrupted: "CompleteInterruptedOperation op1 r now d = Inr (c, d') \<Longrightarrow> later (operations d) (operations d')"
proof -
  assume a: "CompleteInterruptedOperation op1 r now d = Inr (c, d')"
  have fin: "later (operations d) (operations e)"
    if "update_operations sel (finish ''cancelled'' m x now) d = Inr (n, e)" for sel m x n e
    by (rule later_update[OF that]) (auto simp: finish_def)
  show ?thesis
    using a by (auto simp: CompleteInterruptedOperation_def try_then_Inr_iff update_snapshots_def
        split: if_splits option.splits dest: later_scan fin)
qed

lemma later_op_step:
  assumes "op_step d d'" and "\<not> stores_queued d d'"
  shows "later (operations d) (operations d')"
  using assms(1)
proof cases
  case (queue srv kind payload key res wr newID now i)
  then show ?thesis using later_queue by blast
next
  case (queue_late newID srv res kind payload wr key now i)
  from queue_insert_cases[OF queue_late(1)] show ?thesis by (auto intro: later_appended)
next
  case (deliver i now)
  then show ?thesis by (auto simp: MarkDelivered_def try_then_Inr_iff elim!: later_update)
next
  case (start i now)
  then show ?thesis by (auto simp: MarkRunning_def try_then_Inr_iff elim!: later_update)
next
  case (complete r now changed)
  then show ?thesis using assms(2) later_complete[OF complete] later_refl unfolding stores_queued_def by metis
next
  case (cancel i message now changed)
  then show ?thesis by (auto simp: CancelOperation_def try_then_Inr_iff elim!: later_update)
next
  case (interrupt i newID now j)
  from interrupt_cases[OF interrupt(1)] show ?thesis by (auto intro: later_appended)
next
  case (interrupted op1 r now changed)
  then show ?thesis by (rule later_interrupted)
next
  case (expire now)
  then show ?thesis by (auto simp: ExpireWorkspaceFileScans_def Let_def try_then_Inr_iff update_snapshots_def elim!: later_update)
next
  case (scanned op1 ws r now changed)
  then show ?thesis by (rule later_scan)
qed

text \<open>The transitions of the sessions.\<close>

lemma cancel_later: "cancel_undelivered oid now d = Inr (n, d') \<Longrightarrow> later (operations d) (operations d')"
  unfolding cancel_undelivered_def by (erule later_update) simp_all

lemma confirm_later: "settle_confirmed oid now d = Inr d' \<Longrightarrow> later (operations d) (operations d')"
  by (auto simp: settle_confirmed_def try_then_Inr_iff elim!: later_update)

lemma send_interrupt_later: "send_interrupt b row s = Inr s' \<Longrightarrow> later (operations (base s)) (operations (base s'))"
  by (auto simp: send_interrupt_def try_then_Inr_iff insert_operation_Inr split: if_splits intro: later_appended)

lemma undispatched_operations [simp]: "operations (undispatched k oid msg now a) = operations (snd a)"
  by simp

lemma interrupt_gemini_later:
  assumes "InterruptGeminiTurn thread goalStatus goalID newID now s = Inr s'"
  shows "later (operations (base s)) (operations (base s'))"
  using assms
proof (rule InterruptGeminiTurn_Inr)
  let ?oid = "se_operation_id (v_row thread)"
  fix a rows g and p :: Session_row
  assume a: "cancel_undelivered ?oid now (base s) = Inr a"
    and g: "update_goals (\<lambda>g. g_thread_id g = se_id (v_row thread) \<and> g_operation_id g = ?oid \<and> g_status g = ''active'' \<and> (goalID = [] \<or> g_id g = goalID))
          (\<lambda>g. g\<lparr>g_status := goalStatus, g_updated_at := now\<rparr>)
          (s\<lparr>base := undispatched Gemini ?oid None now a, gemini_threads := rows\<rparr>) = Inr g"
    and snd: "send_interrupt (fst a \<noteq> 0) (interrupt_turn_row newID thread ''gemini.turn.interrupt'' ''gemini-interrupt:'' ?oid
        (se_status p = ''interrupted'') now) (snd g) = Inr s'"
  have "later (operations (base s)) (operations (snd a))" using cancel_later[of _ _ _ "fst a" "snd a"] a by simp
  moreover have "operations (base (snd g)) = operations (snd a)" using update_goals_frame[of _ _ _ "fst g" "snd g"] g by auto
  ultimately show ?thesis using send_interrupt_later[OF snd] later_trans by simp
qed

lemma interrupt_claude_later:
  assumes "InterruptClaudeTurn thread newID now s = Inr s'"
  shows "later (operations (base s)) (operations (base s'))"
  using assms
proof (rule InterruptClaudeTurn_Inr)
  let ?oid = "se_operation_id (v_row thread)" and ?msg = "Some ''Cancelled before dispatch''"
  fix a rows
  assume a: "cancel_undelivered ?oid now (base s) = Inr a"
    and snd: "send_interrupt (fst a \<noteq> 0) (interrupt_turn_row newID thread ''claude.turn.interrupt'' ''claude-interrupt:'' ?oid
        (v_RecoveryPending thread) now) (s\<lparr>base := undispatched Claude ?oid ?msg now a, claude_threads := rows\<rparr>) = Inr s'"
  have "later (operations (base s)) (operations (snd a))" using cancel_later[of _ _ _ "fst a" "snd a"] a by simp
  then show ?thesis by (rule later_trans) (use send_interrupt_later[OF snd] in \<open>simp split: if_splits\<close>)
qed

lemma confirm_gemini_later:
  assumes "ConfirmGeminiStopped i oid now s = Inr (e, s')"
  shows "later (operations (base s)) (operations (base s'))"
  using assms
proof (rule ConfirmGeminiStopped_Inr)
  fix d g c
  assume d: "settle_confirmed oid now (base s) = Inr d"
    and g: "update_goals (\<lambda>g. g_thread_id g = i \<and> g_operation_id g = oid \<and> g_status g = ''active'')
         (\<lambda>g. g\<lparr>g_status := ''blocked'', g_message := ''The previous process was confirmed stopped; resume the goal when ready.'',
                g_updated_at := now\<rparr>) (s\<lparr>base := end_task_runs Gemini oid ''cancelled'' None now d\<rparr>) = Inr g"
    and c: "append_event (oid @ '':completed'') i ''gemini.turn.completed'' now
         (JObj [(''operation_id'', JStr oid), (''status'', JStr ''interrupted'')]) (base (snd g)) = Inr c"
    and res: "Inr (fst c, (snd g)\<lparr>base := snd c\<rparr>) = (Inr (e, s') :: go_error + _)"
  have "operations (base (snd g)) = operations d" using update_goals_frame[of _ _ _ "fst g" "snd g"] g by auto
  moreover have "operations (base s') = operations (base (snd g))"
    using res append_event_frame[of _ _ _ _ _ _ "fst c" "snd c", unfolded prod.collapse, OF c] by auto
  ultimately show ?thesis using confirm_later[OF d] by simp
qed

lemma confirm_claude_later: "ConfirmClaudeStopped i oid now s = Inr s' \<Longrightarrow> later (operations (base s)) (operations (base s'))"
  unfolding ConfirmClaudeStopped_def Let_def case_prod_unfold try_then_Inr_iff by (auto dest: confirm_later)

lemma rewrite_operations:
  "CommitGeminiRewrite i oid sessionID now s = Inr (c, s') \<Longrightarrow> operations (base s') = operations (base s)"
  "CommitClaudeRewrite ok i oid sessionID now s = Inr (c, s') \<Longrightarrow> operations (base s') = operations (base s)"
  unfolding CommitGeminiRewrite_def CommitClaudeRewrite_def Let_def case_prod_unfold try_then_Inr_iff
  by (auto dest: replace_once_operations[of _ _ _ _ _ _ _ _ "fst x" "snd x" for x, unfolded prod.collapse])

lemma goals_operations:
  "update_goals sel f s = Inr (n, s') \<Longrightarrow> operations (base s') = operations (base s)"
  "reactivate_goal i oid now s = Inr s' \<Longrightarrow> operations (base s') = operations (base s)"
  by (auto simp: reactivate_goal_def try_then_Inr_iff dest: update_goals_frame)

lemma goal_step_operations:
  "UpdateGeminiGoalProgress i p now s = Inr s' \<Longrightarrow> operations (base s') = operations (base s)"
  "CancelInactiveGeminiGoal i goalID now s = Inr s' \<Longrightarrow> operations (base s') = operations (base s)"
  by (auto simp: UpdateGeminiGoalProgress_def CancelInactiveGeminiGoal_def try_then_Inr_iff split: if_splits dest: goals_operations(1))

lemma ownership_operations:
  assumes "gemini_ownership serverID i oid alive newID now s = Inr (e, s')"
  shows "operations (base s') = operations (base s)"
  using assms refl
proof (rule gemini_ownership_Inr)
  let ?s1 = "s\<lparr>gemini_threads := snd (ownership_rows i oid alive now (gemini_threads s))\<rparr>"
  fix s2 c
  assume s2: "s2 = ?s1 \<or> reactivate_goal i oid now ?s1 = Inr s2"
    and c: "append_event newID i (if alive then ''gemini.turn.ownership_active'' else ''gemini.turn.ownership_lost'') now
        (ownership_payload oid alive) (base s2) = Inr c" and s': "s' = s2\<lparr>base := snd c\<rparr>"
  have "operations (base s2) = operations (base s)" using s2 goals_operations(2)[of i oid now ?s1 s2] by auto
  then show ?thesis
    using append_event_frame[of _ _ _ _ _ _ "fst c" "snd c", unfolded prod.collapse, OF c] by (simp add: s')
qed simp

lemma later_turn_step:
  assumes "turn_step s s'" and "\<not> stores_queued (base s) (base s')"
  shows "later (operations (base s)) (operations (base s'))"
  using assms
proof (induction rule: turn_step.induct)
  case (create_gemini w model mode level newID now s v s')
  then show ?case by (auto simp: CreateGeminiThread_def Let_def try_then_Inr_iff split: option.splits if_splits)
next
  case (create_claude w model mode level newID now s v s')
  then show ?case by (auto simp: CreateClaudeThread_def Let_def try_then_Inr_iff split: option.splits if_splits)
next
  case (queue_gemini ok thread prompt model mode edit images goal level opID newEventID newGoalID now s e s')
  from queue_gemini(1) show ?case by (rule queueGeminiTurn_Inr) (simp add: later_append)
next
  case (queue_claude fmt ok thread edit prompt model mode effort images opID newEventID now s e s')
  from queue_claude(1) show ?case by (rule queueClaudeInput_Inr) (simp add: later_append)
next
  case (claim oid now s b d)
  then show ?case by (auto simp: ClaimGeminiDelivery_def try_then_Inr_iff elim!: later_update)
next
  case (others s d)
  then show ?case using later_op_step by simp
next
  case (event newID now e s e' d)
  then have "operations d = operations (base s)" by (auto simp: AddEvent_def Let_def try_then_Inr_iff split: if_splits)
  then show ?case by simp
next
  case (complete_gemini i oid status now s s')
  then show ?case by (auto simp: CompleteGeminiTurn_def Let_def case_prod_unfold try_then_Inr_iff split: if_splits dest: goals_operations(1))
next
  case (undo_gemini i oid recovery now s u s')
  then show ?case
    unfolding undo_gemini_interrupt_def Let_def case_prod_unfold try_then_Inr_iff by (auto split: if_splits dest: goals_operations(2))
qed (auto simp: end_claude_turn_def bind_gemini_def bind_claude_def set_gemini_mode_def undo_claude_interrupt_def claude_ownership_def
      UpdateGeminiThread_def UpdateClaudeThread_def DeleteGeminiThread_def DeleteClaudeThread_def case_prod_unfold Let_def try_then_Inr_iff
      MarkScheduledTaskByOperation_def mark_pending_frame rewrite_operations goal_step_operations ownership_operations
    split: if_splits sum.splits
    intro: later_same interrupt_gemini_later interrupt_claude_later confirm_gemini_later confirm_claude_later)

section \<open>Connections\<close>

text \<open>
  Any number of connections deliver at the same time: of several Agents, and of one Agent that reconnects
  while the control plane still serves its old stream. A connection holds the operations it has read, or
  a turn that it has claimed and not yet sent; it may be lost at any moment, also right after an envelope
  was sent. Between its statements everything else happens in any order (\<open>elsewhere\<close>).
\<close>

datatype phase = Idle | Pending "Operation list" | Holding Operation "Operation list"

record delivery =
  dl_store :: turn_db
  dl_wire :: "ControlEnvelope list"
  dl_conns :: "nat \<Rightarrow> phase"

definition now_at :: "nat \<Rightarrow> phase \<Rightarrow> delivery \<Rightarrow> delivery" where
  "now_at c ph s = s\<lparr>dl_conns := (dl_conns s)(c := ph)\<rparr>"

inductive delivery_step :: "(string \<Rightarrow> raw_message option) \<Rightarrow> delivery \<Rightarrow> delivery \<Rightarrow> bool" for vault where
  elsewhere: "turn_step (dl_store s) t \<Longrightarrow> \<not> stores_queued (base (dl_store s)) (base t) \<Longrightarrow> delivery_step vault s (s\<lparr>dl_store := t\<rparr>)"
| fetch: "dl_conns s c = Idle \<Longrightarrow> delivery_step vault s (now_at c (Pending (PendingOperations serverID now (base (dl_store s)))) s)"
| unreadable: "dl_conns s c = Pending (op # ops) \<Longrightarrow> open_payload vault op = None \<Longrightarrow> delivery_step vault s (now_at c (Pending ops) s)"
| claimed: "dl_conns s c = Pending (op # ops) \<Longrightarrow> o_kind op \<in> set claimed_turn_kinds \<Longrightarrow>
    ClaimGeminiDelivery (o_id op) now (base (dl_store s)) = Inr (b, d) \<Longrightarrow>
    delivery_step vault s (now_at c (if b then Holding op ops else Pending ops) (s\<lparr>dl_store := (dl_store s)\<lparr>base := d\<rparr>\<rparr>))"
| send_turn: "dl_conns s c = Holding op ops \<Longrightarrow> open_payload vault op = Some p \<Longrightarrow>
    delivery_step vault s (now_at c (Pending ops) (s\<lparr>dl_wire := dl_wire s @ [envelope op p]\<rparr>))"
| send_other: "dl_conns s c = Pending (op # ops) \<Longrightarrow> o_kind op \<notin> set claimed_turn_kinds \<Longrightarrow> open_payload vault op = Some p \<Longrightarrow>
    delivery_step vault s (now_at c (Pending ops) (s\<lparr>dl_wire := dl_wire s @ [envelope op p]\<rparr>))"
| lost: "delivery_step vault s (now_at c Idle s)"

definition sent_turns :: "ControlEnvelope list \<Rightarrow> string list" where
  "sent_turns w = map EnvelopeOperationID (filter (\<lambda>e. EnvelopeKind e \<in> set claimed_turn_kinds) w)"

definition holds :: "delivery \<Rightarrow> nat \<Rightarrow> string \<Rightarrow> bool" where
  "holds s c i \<longleftrightarrow> (case dl_conns s c of Holding op ops \<Rightarrow> o_id op = i | _ \<Rightarrow> False)"

text \<open>
  The invariant: a turn that was sent or is held has left the queue; nothing is sent twice, held twice,
  or held after it was sent.
\<close>

definition delivery_ok :: "delivery \<Rightarrow> bool" where
  "delivery_ok s \<longleftrightarrow> turns_ok (dl_store s) \<and> distinct (sent_turns (dl_wire s)) \<and>
     (\<forall>i \<in> set (sent_turns (dl_wire s)). handed_on i (operations (base (dl_store s)))) \<and>
     (\<forall>c i. holds s c i \<longrightarrow> handed_on i (operations (base (dl_store s))) \<and> i \<notin> set (sent_turns (dl_wire s))) \<and>
     (\<forall>c c' i. holds s c i \<and> holds s c' i \<longrightarrow> c = c') \<and>
     (\<forall>c op ops. dl_conns s c = Holding op ops \<longrightarrow> o_kind op \<in> set claimed_turn_kinds)"

definition no_delivery :: "delivery \<Rightarrow> bool" where
  "no_delivery s \<longleftrightarrow> fresh_turns (dl_store s) \<and> dl_wire s = [] \<and> (\<forall>c. dl_conns s c = Idle)"

lemma delivery_fresh: "no_delivery s \<Longrightarrow> delivery_ok s"
  by (simp add: no_delivery_def delivery_ok_def fresh_ok sent_turns_def holds_def)

lemma now_at_sel [simp]:
  "dl_store (now_at c ph s) = dl_store s" "dl_wire (now_at c ph s) = dl_wire s" "dl_conns (now_at c ph s) = (dl_conns s)(c := ph)"
  by (simp_all add: now_at_def)

lemma holds_now_at:
  "holds (now_at c ph s) c' i = (if c' = c then (case ph of Holding op ops \<Rightarrow> o_id op = i | _ \<Rightarrow> False) else holds s c' i)"
  by (simp add: holds_def now_at_def)

lemma holds_frame [simp]: "holds (s\<lparr>dl_store := t\<rparr>) = holds s" "holds (s\<lparr>dl_wire := w\<rparr>) = holds s"
  by (simp_all add: holds_def fun_eq_iff)

text \<open>A claim that succeeds takes the turn from the queue: it was there, and no one had it.\<close>

lemma claim_takes:
  assumes "ClaimGeminiDelivery i now d = Inr (True, d')" and "distinct (map o_id (operations d))"
  shows "\<not> handed_on i (operations d)" and "handed_on i (operations d')"
proof -
  let ?sel = "\<lambda>o1. o_id o1 = i \<and> o_status o1 = ''queued'' \<and> o_kind o1 \<in> {''gemini.turn.start'', ''gemini.turn.rewrite'', ''claude.turn.start''}"
  obtain n where u: "update_operations ?sel (\<lambda>o1. o1\<lparr>o_status := ''delivered'', o_delivered_at := Some now\<rparr>) d = Inr (n, d')" and "n = 1"
    using assms(1) by (auto simp: ClaimGeminiDelivery_def try_then_Inr_iff)
  then have "length (filter ?sel (operations d)) = 1" and ops: "operations d' = map (\<lambda>o1. if ?sel o1 then o1\<lparr>o_status := ''delivered'', o_delivered_at := Some now\<rparr> else o1) (operations d)"
    by (simp_all add: update_operations_Inr)
  then have "filter ?sel (operations d) \<noteq> []" by auto
  then obtain o1 where o1: "o1 \<in> set (operations d)" "?sel o1" unfolding filter_empty_conv by blast
  have "o2 = o1" if "o2 \<in> set (operations d)" "o_id o2 = i" for o2
    using that o1 assms(2) by (metis distinct_map inj_onD)
  then show "\<not> handed_on i (operations d)" using o1(2) by (auto simp: handed_on_def list_ex_iff)
  have "o1\<lparr>o_status := ''delivered'', o_delivered_at := Some now\<rparr> \<in> set (operations d')"
    using o1 unfolding ops set_map by (intro rev_image_eqI[of o1]) auto
  then show "handed_on i (operations d')"
    using o1(2) unfolding handed_on_def list_ex_iff by (intro bexI) (auto simp: claimed_turn_kinds_def)
qed

lemma claim_later: "ClaimGeminiDelivery i now d = Inr (b, d') \<Longrightarrow> later (operations d) (operations d')"
  by (auto simp: ClaimGeminiDelivery_def try_then_Inr_iff elim!: later_update)

lemma sent_turns_snoc:
  "sent_turns (w @ [envelope op p]) = sent_turns w @ (if o_kind op \<in> set claimed_turn_kinds then [o_id op] else [])"
  by (simp add: sent_turns_def envelope_def)

text \<open>A connection that holds nothing new keeps the invariant, and so does a step elsewhere.\<close>

lemma delivery_okI:
  assumes "turns_ok (dl_store s)" and "distinct (sent_turns (dl_wire s))"
    and "\<And>i. i \<in> set (sent_turns (dl_wire s)) \<Longrightarrow> handed_on i (operations (base (dl_store s)))"
    and "\<And>c i. holds s c i \<Longrightarrow> handed_on i (operations (base (dl_store s))) \<and> i \<notin> set (sent_turns (dl_wire s))"
    and "\<And>c c' i. holds s c i \<Longrightarrow> holds s c' i \<Longrightarrow> c = c'"
    and "\<And>c op ops. dl_conns s c = Holding op ops \<Longrightarrow> o_kind op \<in> set claimed_turn_kinds"
  shows "delivery_ok s"
  unfolding delivery_ok_def using assms by blast

lemma delivery_okD:
  assumes "delivery_ok s"
  shows "turns_ok (dl_store s)" and "distinct (sent_turns (dl_wire s))"
    and "i \<in> set (sent_turns (dl_wire s)) \<Longrightarrow> handed_on i (operations (base (dl_store s)))"
    and "holds s c i \<Longrightarrow> handed_on i (operations (base (dl_store s)))" and "holds s c i \<Longrightarrow> i \<notin> set (sent_turns (dl_wire s))"
    and "holds s c i \<Longrightarrow> holds s c' i \<Longrightarrow> c = c'"
    and "dl_conns s c = Holding op ops \<Longrightarrow> o_kind op \<in> set claimed_turn_kinds"
  using assms unfolding delivery_ok_def by blast+

lemma delivery_release:
  assumes "delivery_ok s" and "\<forall>op ops. ph \<noteq> Holding op ops"
  shows "delivery_ok (now_at c ph s)"
proof -
  have h: "holds s c' i" if "holds (now_at c ph s) c' i" for c' i
    using that assms(2) by (auto simp: holds_now_at split: if_splits phase.splits)
  note D = delivery_okD[OF assms(1)]
  show ?thesis
  proof (rule delivery_okI)
    fix c' c'' i
    assume "holds (now_at c ph s) c' i" "holds (now_at c ph s) c'' i"
    then show "c' = c''" by (rule D(6)[OF h h])
  qed (use D(1,2,3) D(4,5)[OF h] D(7) assms(2) in \<open>auto split: if_splits\<close>)
qed

lemma delivery_elsewhere:
  assumes "delivery_ok s" and "turns_ok t" and "later (operations (base (dl_store s))) (operations (base t))"
  shows "delivery_ok (s\<lparr>dl_store := t\<rparr>)"
  using assms unfolding delivery_ok_def later_def by (simp add: holds_def)

lemma delivery_claimed:
  assumes "delivery_ok s" and "o_kind op \<in> set claimed_turn_kinds"
    and "ClaimGeminiDelivery (o_id op) now (base (dl_store s)) = Inr (True, d)"
  shows "delivery_ok (now_at c (Holding op ops) (s\<lparr>dl_store := (dl_store s)\<lparr>base := d\<rparr>\<rparr>))"
proof -
  let ?d0 = "base (dl_store s)"
  have ok: "turns_ok (dl_store s)" using assms(1) by (simp add: delivery_ok_def)
  note new = claim_takes[OF assms(3) turns_okD(3)[OF ok]]
  have later: "later (operations ?d0) (operations d)" by (rule claim_later[OF assms(3)])
  have "turns_ok ((dl_store s)\<lparr>base := d\<rparr>)" by (rule Turn_Ownership.delivery_ok[OF ok assms(3)])
  moreover have "\<not> holds s c' (o_id op)" "o_id op \<notin> set (sent_turns (dl_wire s))" for c'
    using assms(1) new(1) by (auto simp: delivery_ok_def)
  ultimately show ?thesis
    using assms(2) new(2) later delivery_okD[OF assms(1)] unfolding later_def
    by (intro delivery_okI) (auto simp: holds_now_at split: if_splits)
qed

lemma delivery_sent:
  assumes "delivery_ok s" and "dl_conns s c = Holding op ops"
  shows "delivery_ok (now_at c (Pending ops) (s\<lparr>dl_wire := dl_wire s @ [envelope op p]\<rparr>))"
proof -
  have h: "holds s c (o_id op)" using assms(2) by (simp add: holds_def)
  have kind: "o_kind op \<in> set claimed_turn_kinds" by (rule delivery_okD(7)[OF assms])
  have "\<not> holds s c' (o_id op)" if "c' \<noteq> c" for c'
    using delivery_okD(6)[OF assms(1) _ h] that by blast
  then show ?thesis
    using delivery_okD[OF assms(1)] delivery_okD(4,5)[OF assms(1) h] kind
    by (intro delivery_okI) (auto simp: sent_turns_snoc holds_now_at split: if_splits)
qed

lemma delivery_other:
  assumes "delivery_ok s" and "o_kind op \<notin> set claimed_turn_kinds"
  shows "delivery_ok (s\<lparr>dl_wire := dl_wire s @ [envelope op p]\<rparr>)"
  using assms unfolding delivery_ok_def by (simp add: sent_turns_snoc)

lemma delivery_step_ok:
  assumes "delivery_step vault s s'" and "delivery_ok s"
  shows "delivery_ok s'"
  using assms
proof (induction rule: delivery_step.induct)
  case (elsewhere s t)
  then have "turns_ok t" using turn_step_ok by (simp add: delivery_ok_def)
  then show ?case using delivery_elsewhere[OF elsewhere(3)] later_turn_step[OF elsewhere(1,2)] by blast
next
  case (claimed s c op ops now b d)
  show ?case
  proof (cases b)
    case True
    then show ?thesis using delivery_claimed[OF claimed(4,2)] claimed(3) by simp
  next
    case False
    have "turns_ok ((dl_store s)\<lparr>base := d\<rparr>)"
      using Turn_Ownership.delivery_ok[OF _ claimed(3)] claimed(4) by (simp add: delivery_ok_def)
    from delivery_release[OF delivery_elsewhere[OF claimed(4) this]] False show ?thesis
      using claim_later[OF claimed(3)] by simp
  qed
next
  case (send_other s c op ops p)
  then show ?case using delivery_release[OF delivery_other] by blast
qed (auto intro: delivery_release delivery_sent)

interpretation delivery_system: invariant_system no_delivery "delivery_step vault" delivery_ok for vault
  by unfold_locales (erule delivery_fresh, erule delivery_step_ok)


section \<open>Delivery is a run\<close>

text \<open>A transition of the queue that settles nothing by a result.\<close>

lemma queue_elsewhere:
  assumes "op_step (base (dl_store s)) d" and "\<not> stores_queued (base (dl_store s)) d"
    and "\<And>o1. o1 \<in> set (operations d) \<Longrightarrow> o_kind o1 \<in> set (gemini_turn_kinds @ claude_turn_kinds) \<Longrightarrow>
      o_id o1 \<in> o_id ` set (operations (base (dl_store s)))"
  shows "delivery_step vault s (s\<lparr>dl_store := (dl_store s)\<lparr>base := d\<rparr>\<rparr>)"
  by (rule elsewhere[OF others[OF assms(1,3)]]) (simp_all add: assms(2))

lemma finish_settled [simp]: "o_status (finish st m x now o1) = st"
  by (simp add: finish_def)

lemma complete_lists:
  assumes "CompleteOperationIfActive r now d = Inr (c, d')"
  shows "\<exists>f. operations d' = map f (operations d) \<and> (\<forall>o1. f o1 = o1 \<or> o_status (f o1) = ResultStatus r)"
    and "operations d' = operations d \<Longrightarrow> d' = d"
proof -
  obtain data n where u: "update_operations (\<lambda>o1. o_id o1 = ResultOperationID r \<and> active o1)
      (finish (ResultStatus r) (ResultMessage r) data now) d = Inr (n, d')"
    using assms by (auto simp: CompleteOperationIfActive_def try_then_Inr_iff)
  show "\<exists>f. operations d' = map f (operations d) \<and> (\<forall>o1. f o1 = o1 \<or> o_status (f o1) = ResultStatus r)"
    by (rule exI[of _ "\<lambda>o1. if o_id o1 = ResultOperationID r \<and> active o1 then finish (ResultStatus r) (ResultMessage r) data now o1 else o1"])
      (use u in \<open>simp add: update_operations_Inr\<close>)
  show "d' = d" if "operations d' = operations d" using u that by (simp add: update_operations_Inr)
qed

lemma delivered_not_queued:
  assumes "MarkDelivered i now d = Inr d'"
  shows "\<not> stores_queued d d'"
proof
  assume q: "stores_queued d d'"
  then obtain r at c where r: "ResultStatus r = ''queued''" "CompleteOperationIfActive r at d = Inr (c, d')" and ne: "d' \<noteq> d"
    unfolding stores_queued_def by blast
  obtain f where f: "operations d' = map f (operations d)" "\<forall>o1. f o1 = o1 \<or> o_status (f o1) = ''queued''"
    using complete_lists(1)[OF r(2)] r(1) by auto
  let ?g = "\<lambda>o1. if o_id o1 = i \<and> o_status o1 = ''queued'' then o1\<lparr>o_status := ''delivered'', o_delivered_at := Some now\<rparr> else o1"
  have g: "operations d' = map ?g (operations d)" "d' = d\<lparr>operations := operations d'\<rparr>"
    using assms by (auto simp: MarkDelivered_def try_then_Inr_iff update_operations_Inr)
  have "?g o1 = o1" if "o1 \<in> set (operations d)" for o1
  proof -
    have "f o1 = ?g o1" using f(1) g(1) that by (simp add: map_eq_conv)
    then show ?thesis using f(2)[rule_format, of o1] by (auto split: if_splits)
  qed
  then have "operations d' = operations d" unfolding g(1) by (simp add: map_idI)
  then show False using g(2) ne by simp
qed

lemma appended_not_queued: "appended row d d' \<Longrightarrow> \<not> stores_queued d d'"
proof
  assume a: "appended row d d'" and "stores_queued d d'"
  then obtain r at c where "CompleteOperationIfActive r at d = Inr (c, d')" unfolding stores_queued_def by blast
  from complete_lists(1)[OF this] have "length (operations d') = length (operations d)" by auto
  then show False using a by (simp add: appended_def)
qed

lemma same_not_queued: "operations d' = operations d \<Longrightarrow> \<not> stores_queued d d'"
  unfolding stores_queued_def using complete_lists(2) by blast

definition reaches :: "(string \<Rightarrow> raw_message option) \<Rightarrow> delivery \<Rightarrow> delivery \<Rightarrow> bool" where
  "reaches vault = rtranclp (delivery_step vault)"

lemma mark_reaches:
  assumes "MarkDelivered i now (base (dl_store s)) = Inr d"
  shows "reaches vault s (s\<lparr>dl_store := (dl_store s)\<lparr>base := d\<rparr>\<rparr>)"
  unfolding reaches_def
proof (rule r_into_rtranclp, rule queue_elsewhere[OF op_step.deliver[OF assms] delivered_not_queued[OF assms]])
  fix o1
  assume "o1 \<in> set (operations d)"
  then show "o_id o1 \<in> o_id ` set (operations (base (dl_store s)))"
    using MarkDelivered_rewritten[OF assms] by (auto simp: rewritten_def row_kept_def)
qed

lemma queue_reaches:
  assumes "QueueResourceOperation srv kind payload key res False newID now (base (dl_store s)) = Inr (i, d)"
    and "kind \<notin> set (gemini_turn_kinds @ claude_turn_kinds)" and "kind \<noteq> ''operation.interrupt''" and "uuid_like newID"
  shows "reaches vault s (s\<lparr>dl_store := (dl_store s)\<lparr>base := d\<rparr>\<rparr>)"
proof -
  note q = assms(1)[unfolded QueueResourceOperation_def]
  from queue_cases[OF q] show ?thesis
  proof (elim disjE exE conjE)
    assume "d = base (dl_store s)"
    then show ?thesis by (simp add: reaches_def)
  next
    fix r
    assume a: "appended (queued_operation newID srv r kind (JsonText payload) False key now) (base (dl_store s)) d"
    have "delivery_step vault s (s\<lparr>dl_store := (dl_store s)\<lparr>base := d\<rparr>\<rparr>)"
      by (rule queue_elsewhere[OF op_step.queue[OF q assms(3,4)] appended_not_queued[OF a]])
        (use a assms(2) in \<open>auto simp: appended_def\<close>)
    then show ?thesis by (simp add: reaches_def)
  qed
qed

lemma cancel_reaches:
  assumes "uuid_like newID"
  shows "queueBestEffortInterrupt srv op newID now (base (dl_store s)) = Inr d \<Longrightarrow> reaches vault s (s\<lparr>dl_store := (dl_store s)\<lparr>base := d\<rparr>\<rparr>)"
    and "gemini_cancel srv op newID now (base (dl_store s)) = Inr d \<Longrightarrow> reaches vault s (s\<lparr>dl_store := (dl_store s)\<lparr>base := d\<rparr>\<rparr>)"
proof -
  have stay: "reaches vault s (s\<lparr>dl_store := (dl_store s)\<lparr>base := base (dl_store s)\<rparr>\<rparr>)" by (simp add: reaches_def)
  show "queueBestEffortInterrupt srv op newID now (base (dl_store s)) = Inr d \<Longrightarrow> reaches vault s (s\<lparr>dl_store := (dl_store s)\<lparr>base := d\<rparr>\<rparr>)"
    using stay by (auto simp: queueBestEffortInterrupt_def try_then_Inr_iff gemini_turn_kinds_def claude_turn_kinds_def assms
        split: if_splits elim!: queue_reaches)
  show "gemini_cancel srv op newID now (base (dl_store s)) = Inr d \<Longrightarrow> reaches vault s (s\<lparr>dl_store := (dl_store s)\<lparr>base := d\<rparr>\<rparr>)"
    by (auto simp: gemini_cancel_def try_then_Inr_iff gemini_turn_kinds_def claude_turn_kinds_def assms elim!: queue_reaches)
qed

lemma after_reaches:
  assumes "after_delivery srv op newID now (base (dl_store s)) = Inr d" and "uuid_like newID"
  shows "reaches vault s (s\<lparr>dl_store := (dl_store s)\<lparr>base := d\<rparr>\<rparr>)"
  using assms(1) cancel_reaches[OF assms(2)]
  by (auto simp: after_delivery_def reaches_def split: if_splits sum.splits)

lemma reaches_trans: "reaches vault a b \<Longrightarrow> reaches vault b c \<Longrightarrow> reaches vault a c"
  by (simp add: reaches_def)

lemma reaches_step: "delivery_step vault a b \<Longrightarrow> reaches vault b c \<Longrightarrow> reaches vault a c"
  by (simp add: reaches_def converse_rtranclp_into_rtranclp)

lemma now_at_commute: "now_at c ph (s\<lparr>dl_store := t\<rparr>) = (now_at c ph s)\<lparr>dl_store := t\<rparr>"
  by (simp add: now_at_def)

lemma after_pair:
  assumes "(case after_delivery srv op newID now d of Inl e \<Rightarrow> (Some e, t\<lparr>base := d\<rparr>, w) | Inr d' \<Rightarrow> (None, t\<lparr>base := d'\<rparr>, w)) = (e, t', w')"
    and "base (dl_store s) = d" and "dl_store s = t" and "uuid_like newID"
  shows "reaches vault s (s\<lparr>dl_store := t'\<rparr>) \<and> w' = w"
proof (cases "after_delivery srv op newID now d")
  case (Inl x)
  then have "t' = dl_store s" "w' = w" using assms(1-3) by auto
  then show ?thesis by (simp add: reaches_def)
next
  case (Inr d')
  then have "t' = (dl_store s)\<lparr>base := d'\<rparr>" "w' = w" using assms(1,3) by auto
  then show ?thesis using after_reaches[of srv op newID now s d'] Inr assms(2,4) by simp
qed

lemma deliver_sent_reaches:
  assumes "deliver_sent srv op newID now (dl_store s) w = (e, t, w')" and "uuid_like newID"
  shows "reaches vault s (s\<lparr>dl_store := t\<rparr>) \<and> w' = w"
proof (cases "o_kind op \<in> set claimed_turn_kinds")
  case True
  then show ?thesis using assms by (intro after_pair[where srv = srv and op = op and newID = newID and now = now]) (auto simp: deliver_sent_def)
next
  case False
  show ?thesis
  proof (cases "MarkDelivered (o_id op) now (base (dl_store s))")
    case (Inl x)
    then show ?thesis using assms(1) False by (auto simp: deliver_sent_def reaches_def)
  next
    case (Inr d)
    let ?s1 = "s\<lparr>dl_store := (dl_store s)\<lparr>base := d\<rparr>\<rparr>"
    have "reaches vault ?s1 (?s1\<lparr>dl_store := t\<rparr>) \<and> w' = w"
      by (rule after_pair[where srv = srv and op = op and newID = newID and now = now and d = d and t = "dl_store ?s1" and e = e]) (use assms False Inr in \<open>simp_all add: deliver_sent_def cong: sum.case_cong\<close>)
    then show ?thesis using reaches_trans[OF mark_reaches[OF Inr]] by simp
  qed
qed

lemma deliver_one_reaches:
  assumes "deliver_one vault send srv fresh now op (dl_store s) (dl_wire s) = (e, t, w)"
    and "dl_conns s c = Pending (op # ops)" and "uuid_like (fresh op)"
  shows "\<exists>ph. reaches vault s (now_at c ph (s\<lparr>dl_store := t, dl_wire := w\<rparr>)) \<and> (e = None \<longrightarrow> ph = Pending ops)"
proof (cases "open_payload vault op")
  case None
  then have "e = None" "t = dl_store s" "w = dl_wire s" using assms(1) by (simp_all add: deliver_one_def)
  then show ?thesis using unreadable[OF assms(2) None] by (auto simp: reaches_def intro!: exI[of _ "Pending ops"])
next
  case (Some p)
  let ?turn = "o_kind op \<in> set claimed_turn_kinds"
  have stay: "now_at c (Pending (op # ops)) s = s" using assms(2) by (simp add: now_at_def fun_upd_idem)
  show ?thesis
  proof (cases "claim_delivery op now (base (dl_store s))")
    case (Inl x)
    then have "e = Some x" "t = dl_store s" "w = dl_wire s" using assms(1) Some by (simp_all add: deliver_one_def)
    then show ?thesis using stay by (intro exI[of _ "Pending (op # ops)"]) (simp add: reaches_def)
  next
    case (Inr bd)
    obtain b d where bd: "bd = (b, d)" by (rule prod.exhaust)
    let ?ph = "if b then (if ?turn then Holding op ops else Pending (op # ops)) else Pending ops"
    let ?s1 = "now_at c ?ph (s\<lparr>dl_store := (dl_store s)\<lparr>base := d\<rparr>\<rparr>)"
    have got: "reaches vault s ?s1"
    proof (cases ?turn)
      case True
      then have "ClaimGeminiDelivery (o_id op) now (base (dl_store s)) = Inr (b, d)" using Inr bd by (simp add: claim_delivery_def)
      from claimed[OF assms(2) True this, of vault] show ?thesis using True by (cases b) (simp_all add: reaches_def r_into_rtranclp)
    next
      case False
      then have "b" "d = base (dl_store s)" using Inr bd by (simp_all add: claim_delivery_def)
      then show ?thesis using stay False by (simp add: reaches_def)
    qed
    show ?thesis
    proof (cases "b \<and> send (envelope op p) = None")
      case False
      then have "t = (dl_store s)\<lparr>base := d\<rparr>" "w = dl_wire s" "b \<Longrightarrow> e \<noteq> None"
        using assms(1) Some Inr bd by (auto simp: deliver_one_def split: if_splits option.splits dest: sym[of "Some _"])
      then show ?thesis using got False by (intro exI[of _ ?ph]) auto
    next
      case True
      let ?s2 = "now_at c (Pending ops) (?s1\<lparr>dl_wire := dl_wire s @ [envelope op p]\<rparr>)"
      have sent: "delivery_step vault ?s1 ?s2"
      proof (cases ?turn)
        case True
        show ?thesis using send_turn[of ?s1 c op ops vault p] True \<open>b \<and> _\<close> Some by simp
      next
        case False
        show ?thesis using send_other[of ?s1 c op ops vault p] False \<open>b \<and> _\<close> Some by simp
      qed
      have "deliver_sent srv op (fresh op) now (dl_store ?s2) (dl_wire ?s2) = (e, t, w)"
        using assms(1) Some Inr bd True by (simp add: deliver_one_def)
      from deliver_sent_reaches[OF this assms(3)] have "reaches vault ?s2 (?s2\<lparr>dl_store := t\<rparr>)" "w = dl_wire ?s2" by auto
      then have "reaches vault s (?s2\<lparr>dl_store := t\<rparr>)" using reaches_trans[OF got reaches_step[OF sent]] by blast
      moreover have "?s2\<lparr>dl_store := t\<rparr> = now_at c (Pending ops) (s\<lparr>dl_store := t, dl_wire := w\<rparr>)"
        using \<open>w = dl_wire ?s2\<close> by (simp add: now_at_def)
      ultimately show ?thesis by auto
    qed
  qed
qed

lemma deliver_all_reaches:
  assumes "deliver_all vault send srv fresh now ops (dl_store s) (dl_wire s) = (e, t, w)"
    and "dl_conns s c = Pending ops" and "\<forall>op. uuid_like (fresh op)"
  shows "reaches vault s (now_at c Idle (s\<lparr>dl_store := t, dl_wire := w\<rparr>))"
  using assms(1,2)
proof (induction ops arbitrary: s)
  case Nil
  then have "t = dl_store s" "w = dl_wire s" by simp_all
  then show ?case using lost[of vault s c] by (simp add: reaches_def r_into_rtranclp)
next
  case (Cons op ops)
  obtain e1 t1 w1 where one: "deliver_one vault send srv fresh now op (dl_store s) (dl_wire s) = (e1, t1, w1)" by (rule prod_cases3)
  from deliver_one_reaches[OF one Cons.prems(2)] assms(3) obtain ph where
    ph: "reaches vault s (now_at c ph (s\<lparr>dl_store := t1, dl_wire := w1\<rparr>))" "e1 = None \<longrightarrow> ph = Pending ops" by blast
  let ?s1 = "now_at c ph (s\<lparr>dl_store := t1, dl_wire := w1\<rparr>)"
  show ?case
  proof (cases e1)
    case None
    then have "reaches vault ?s1 (now_at c Idle (?s1\<lparr>dl_store := t, dl_wire := w\<rparr>))"
      using Cons.prems(1) one ph(2) by (intro Cons.IH) simp_all
    then show ?thesis using reaches_trans[OF ph(1)] by (simp add: now_at_def)
  next
    case (Some x)
    then have "t = t1" "w = w1" using Cons.prems(1) one by simp_all
    moreover have "reaches vault ?s1 (now_at c Idle ?s1)" using lost[of vault ?s1 c] by (simp add: reaches_def r_into_rtranclp)
    ultimately show ?thesis using reaches_trans[OF ph(1)] by (simp add: now_at_def)
  qed
qed


lemma flush_reaches:
  assumes "flush vault send srv fresh now (dl_store s) (dl_wire s) = (e, t, w)"
    and "dl_conns s c = Idle" and "\<forall>op. uuid_like (fresh op)"
  shows "reaches vault s (s\<lparr>dl_store := t, dl_wire := w\<rparr>)"
proof -
  let ?ops = "PendingOperations srv now (base (dl_store s))"
  have "reaches vault (now_at c (Pending ?ops) s) (now_at c Idle ((now_at c (Pending ?ops) s)\<lparr>dl_store := t, dl_wire := w\<rparr>))"
    using assms(1) by (intro deliver_all_reaches[OF _ _ assms(3), of vault send srv now ?ops]) (simp_all add: flush_def)
  then have "reaches vault s (now_at c Idle ((now_at c (Pending ?ops) s)\<lparr>dl_store := t, dl_wire := w\<rparr>))"
    by (rule reaches_step[OF fetch[where vault = vault, OF assms(2)]])
  moreover have "now_at c Idle ((now_at c (Pending ?ops) s)\<lparr>dl_store := t, dl_wire := w\<rparr>) = s\<lparr>dl_store := t, dl_wire := w\<rparr>"
    using assms(2) by (simp add: now_at_def fun_upd_idem)
  ultimately show ?thesis by simp
qed

text \<open>
  C18: A turn of a CLI is sent to its Agent at most once, in every interleaving of any number of
  connections, losses of connections, users, scheduled tasks and results: no identifier of a turn is
  twice on the wire, and a turn that is still queued, which an interruption cancels without asking the
  Agent, was never sent.
\<close>

theorem turn_sent_at_most_once:
  assumes "no_delivery s" and "rtranclp (delivery_step vault) s s'"
  shows "distinct (sent_turns (dl_wire s')) \<and>
    (\<forall>o1 \<in> set (operations (base (dl_store s'))). o_status o1 = ''queued'' \<longrightarrow> o_id o1 \<notin> set (sent_turns (dl_wire s')))"
proof -
  have ok: "delivery_ok s'" by (rule delivery_system.inv_reachable[OF assms(2,1)])
  have "o_status o1 \<noteq> ''queued''" if mem: "o1 \<in> set (operations (base (dl_store s')))" and sent: "o_id o1 \<in> set (sent_turns (dl_wire s'))" for o1
  proof -
    obtain o2 where "o2 \<in> set (operations (base (dl_store s')))" "o_id o2 = o_id o1" "o_status o2 \<noteq> ''queued''"
      using delivery_okD(3)[OF ok sent] by (auto simp: handed_on_def list_ex_iff)
    then have "o2 = o1" using mem turns_okD(3)[OF delivery_okD(1)[OF ok]] by (metis distinct_map inj_onD)
    then show ?thesis using \<open>o_status o2 \<noteq> _\<close> by simp
  qed
  then show ?thesis using delivery_okD(2)[OF ok] by blast
qed

text \<open>
  What one connection does in a whole \<open>flush\<close>, wherever it ends on an error, is a run of the system
  of connections: its statements are transitions, so what holds of every run holds of the code's loop.
\<close>

theorem flush_is_a_run:
  assumes "dl_conns s c = Idle" and "\<forall>op. uuid_like (fresh op)"
    and "flush vault send serverID fresh now (dl_store s) (dl_wire s) = (e, t, w)"
  shows "rtranclp (delivery_step vault) s (s\<lparr>dl_store := t, dl_wire := w\<rparr>)"
  using flush_reaches[OF assms(3,1,2)] by (simp add: reaches_def)

section \<open>Sample\<close>

abbreviation sample_flush :: "turn_db \<Rightarrow> flushed" where
  "sample_flush s \<equiv> flush (\<lambda>_. None) (\<lambda>_. None) ''s1'' (\<lambda>_. ''u1'') 3 s []"

definition at_rest :: "turn_db \<Rightarrow> delivery" where
  "at_rest s = \<lparr>dl_store = s, dl_wire = [], dl_conns = (\<lambda>_. Idle)\<rparr>"

lemma first_turn_sent:
  obtains e s where "first_turn = Inr (e, s)" "sent_turns (snd (snd (sample_flush s))) = [''o1'']"
proof -
  have "case first_turn of Inl _ \<Rightarrow> False | Inr p \<Rightarrow> sent_turns (snd (snd (sample_flush (snd p)))) = [''o1'']"
    by code_simp
  from case_Inr[OF this] obtain p where "first_turn = Inr p" "sent_turns (snd (snd (sample_flush (snd p)))) = [''o1'']"
    by (elim exE conjE) (rule that)
  then show ?thesis by (intro that[of "fst p" "snd p"]) simp_all
qed

lemma first_turn_reached:
  assumes "first_turn = Inr (e, s)"
  shows "reaches vault (at_rest sample_turns) (at_rest s)"
proof -
  obtain r where r: "first_session = Inr r"
    and q: "queueGeminiTurn (\<lambda>_. True) (fst r) ''hello'' ''auto'' ''default'' [] None None [] ''o1'' ''e1'' [] 2 (snd r) = Inr (e, s)"
    using assms unfolding first_turn_def try_then_Inr_iff case_prod_unfold by (elim exE conjE) (rule that)
  have c: "CreateGeminiThread ''w1'' ''auto'' ''default'' [] ''g1'' 1 sample_turns = Inr (fst r, snd r)" using r by (simp add: first_session_def)
  then have "operations (base (snd r)) = operations (base sample_turns)"
    by (auto simp: CreateGeminiThread_def Let_def try_then_Inr_iff split: option.splits if_splits)
  from same_not_queued[OF this] elsewhere[of "at_rest sample_turns" "snd r" vault] create_gemini[OF c]
  have 1: "delivery_step vault (at_rest sample_turns) (at_rest (snd r))" by (simp add: at_rest_def)
  from q have "\<not> stores_queued (base (snd r)) (base s)"
    by (rule queueGeminiTurn_Inr) (auto simp: stores_queued_def dest!: complete_lists(1) arg_cong[of _ _ length])
  from elsewhere[of "at_rest (snd r)" s vault] this queue_gemini[OF q]
  have 2: "delivery_step vault (at_rest (snd r)) (at_rest s)" by (simp add: at_rest_def)
  show ?thesis using 1 2 by (simp add: reaches_def)
qed

lemma turn_sent_at_most_once_witness:
  "\<exists>s. rtranclp (delivery_step (\<lambda>_. None)) (at_rest sample_turns) s \<and> sent_turns (dl_wire s) = [''o1''] \<and> distinct (sent_turns (dl_wire s))"
proof -
  obtain e s where t: "first_turn = Inr (e, s)" and w: "sent_turns (snd (snd (sample_flush s))) = [''o1'']" by (rule first_turn_sent)
  obtain e' t' w' where f: "sample_flush s = (e', t', w')" by (rule prod_cases3)
  let ?s = "(at_rest s)\<lparr>dl_store := t', dl_wire := w'\<rparr>"
  have "reaches (\<lambda>_. None) (at_rest s) ?s"
    by (rule flush_reaches[where send = "\<lambda>_. None" and srv = "''s1''" and fresh = "\<lambda>_. ''u1''" and now = 3 and c = 0])
      (use f in \<open>simp_all add: at_rest_def uuid_like_def\<close>)
  then have run: "rtranclp (delivery_step (\<lambda>_. None)) (at_rest sample_turns) ?s"
    using reaches_trans[OF first_turn_reached[OF t]] by (simp add: reaches_def)
  have "no_delivery (at_rest sample_turns)"
    by (simp add: no_delivery_def at_rest_def fresh_turns_def sample_turns_def sample_db_def empty_db_def)
  from turn_sent_at_most_once[OF this run] show ?thesis using run w f by auto
qed

lemma flush_is_a_run_witness:
  "\<exists>s s'. rtranclp (delivery_step (\<lambda>_. None)) s s' \<and> sent_turns (dl_wire s) = [] \<and> sent_turns (dl_wire s') = [''o1'']"
proof -
  obtain e s where t: "first_turn = Inr (e, s)" and w: "sent_turns (snd (snd (sample_flush s))) = [''o1'']" by (rule first_turn_sent)
  obtain e' t' w' where f: "sample_flush s = (e', t', w')" by (rule prod_cases3)
  have "rtranclp (delivery_step (\<lambda>_. None)) (at_rest s) ((at_rest s)\<lparr>dl_store := t', dl_wire := w'\<rparr>)"
    by (rule flush_is_a_run[where send = "\<lambda>_. None" and serverID = "''s1''" and fresh = "\<lambda>_. ''u1''" and now = 3 and c = 0])
      (use f in \<open>simp_all add: at_rest_def uuid_like_def\<close>)
  moreover have "sent_turns (dl_wire (at_rest s)) = []" "sent_turns (dl_wire ((at_rest s)\<lparr>dl_store := t', dl_wire := w'\<rparr>)) = [''o1'']"
    using w f by (simp_all add: at_rest_def sent_turns_def)
  ultimately show ?thesis by blast
qed

end
