(* ===== verification/Gateway_Codex.thy ===== *)
theory Gateway_Codex
  imports Gateway_Delivery
begin

text \<open>
  The gateway's handlers of Codex sessions, internal/agentgateway/gateway.go and usage.go: the events of a
  session and the results of its operations, with the decision of an approval, internal/store/resources.go.
  \<open>raw_text\<close> is the text of a document that is no string, as \<open>json.RawMessage\<close> keeps it. The alerts that
  a result may open are the subject of \<open>Gateway_Alerts\<close>.
\<close>

section \<open>Titles\<close>

text \<open>\<open>strings.TrimLeft\<close> and \<open>strings.Trim\<close> with a set of ASCII characters.\<close>

definition trim_left_set :: "string \<Rightarrow> string \<Rightarrow> string" where
  "trim_left_set cs s = dropWhile (\<lambda>c. c \<in> set cs) s"

definition trim_set :: "string \<Rightarrow> string \<Rightarrow> string" where
  "trim_set cs s = rev (dropWhile (\<lambda>c. c \<in> set cs) (rev (dropWhile (\<lambda>c. c \<in> set cs) s)))"

definition title_of_line :: "string \<Rightarrow> string" where
  "title_of_line line =
     (let t = trim_space line in
      if t = [] \<or> has_prefix t ''```'' then []
      else trim_space (trim_set ''`*_'' (trim_space (trim_left_set ''#>*- '' t))))"

definition shortened_title :: "string \<Rightarrow> string" where
  "shortened_title t = (if 48 < length (str_runes t) then trim_space (first_runes 48 t) @ ''...'' else t)"

fun title_scan :: "string list \<Rightarrow> string" where
  "title_scan [] = []"
| "title_scan (line # ls) =
     (if title_of_line line = [] then title_scan ls else shortened_title (title_of_line line))"

definition firstResponseTitle :: "string \<Rightarrow> string" where
  "firstResponseTitle text = title_scan (split_on (CHR 0x0A) text)"

text \<open>The text of an agent message; the empty text is that of any other item.\<close>

definition response_text :: "StreamEvent \<Rightarrow> string" where
  "response_text e =
     (case EventPayload e of None \<Rightarrow> [] | Some p \<Rightarrow>
       (case (nested_str ''item'' ''type'' p, nested_str ''item'' ''text'' p) of
          (Some ty, Some text) \<Rightarrow> if ty = ''agentMessage'' then text else []
        | _ \<Rightarrow> []))"

definition recent_items :: "string \<Rightarrow> db \<Rightarrow> StreamEvent list" where
  "recent_items threadID d =
     take 100 (order_by_desc Sequence (filter (\<lambda>e. EventKind e = ''codex.item.completed'') (stream_events threadID d)))"

fun response_scan :: "StreamEvent list \<Rightarrow> string" where
  "response_scan [] = []"
| "response_scan (e # es) =
     (if firstResponseTitle (response_text e) = [] then response_scan es else firstResponseTitle (response_text e))"

definition setThreadTitleFromFirstResponse :: "string \<Rightarrow> instant \<Rightarrow> db \<Rightarrow> db" where
  "setThreadTitleFromFirstResponse threadID now d =
     (let title = response_scan (recent_items threadID d) in
      if title = [] then d else SetThreadTitleIfDefault threadID title now d)"

definition updateThreadTitle :: "StreamEvent \<Rightarrow> instant \<Rightarrow> db \<Rightarrow> db" where
  "updateThreadTitle event now d =
     (case (case EventPayload event of None \<Rightarrow> None | Some p \<Rightarrow> pointer_field as_string ''threadName'' p) of
        Some (Some name) \<Rightarrow> if trim_space name = [] then d else SetThreadTitle (StreamID event) (trim_space name) now d
      | _ \<Rightarrow> d)"

section \<open>Events\<close>

definition usage_count :: "string \<Rightarrow> string \<Rightarrow> json \<Rightarrow> (string \<times> json) list option" where
  "usage_count name key sums =
     map_option (\<lambda>v. case v of None \<Rightarrow> [] | Some n \<Rightarrow> if 0 \<le> n then [(key, JNum n 0)] else []) (pointer_field as_int name sums)"

definition codexUsagePayload :: "raw_message \<Rightarrow> raw_message" where
  "codexUsagePayload raw =
     (case (case raw of None \<Rightarrow> None | Some d \<Rightarrow> (case struct_field ''tokenUsage'' d of None \<Rightarrow> None | Some u \<Rightarrow> struct_field ''total'' u)) of
        None \<Rightarrow> Some (JObj [])
      | Some sums \<Rightarrow>
          (case (usage_count ''inputTokens'' ''input_tokens'' sums, usage_count ''outputTokens'' ''output_tokens'' sums) of
             (Some i, Some out) \<Rightarrow> Some (JObj [(''usage'', JObj (i @ out))])
           | _ \<Rightarrow> Some (JObj [])))"

text \<open>A request that is asked again with another detail is pending again.\<close>

definition renewed_approval :: "string \<Rightarrow> stored_text \<Rightarrow> instant \<Rightarrow> Approval_row \<Rightarrow> Approval_row" where
  "renewed_approval kind detail expires a =
     (if a_detail a = detail then a
      else a\<lparr>a_kind := kind, a_detail := detail, a_status := ''pending'', a_expires_at := expires, a_resolved_at := None, a_decision := None\<rparr>)"

definition store_approval :: "string \<Rightarrow> string \<Rightarrow> string \<Rightarrow> stored_text \<Rightarrow> string \<Rightarrow> instant \<Rightarrow> db \<Rightarrow> go_error + db" where
  "store_approval threadID requestID kind detail newID expires d =
     (if list_ex (\<lambda>a. a_thread_id a = threadID \<and> a_request_id a = requestID) (approvals d)
      then Inr (d\<lparr>approvals := map (\<lambda>a. if a_thread_id a = threadID \<and> a_request_id a = requestID
                then renewed_approval kind detail expires a else a) (approvals d)\<rparr>)
      else if newID \<in> set (map a_id (approvals d)) \<or> threadID \<notin> set (map t_id (threads d)) then Inl ConstraintFailed
      else Inr (d\<lparr>approvals := approvals d @ [\<lparr>a_id = newID, a_thread_id = threadID, a_request_id = requestID, a_kind = kind,
             a_detail = detail, a_status = ''pending'', a_expires_at = expires, a_resolved_at = None, a_decision = None\<rparr>]\<rparr>))"

definition upsertApproval :: "StreamEvent \<Rightarrow> string \<Rightarrow> instant \<Rightarrow> db \<Rightarrow> go_error + db" where
  "upsertApproval event newID now d =
     (case EventPayload event of None \<Rightarrow> Inr d | Some p \<Rightarrow>
       (case (str_field ''request_id'' p, str_field ''kind'' p, raw_field ''detail'' p) of
          (Some requestID, Some kind, Some detail) \<Rightarrow>
            if requestID = [] then Inr d
            else store_approval (StreamID event) requestID kind (JsonText (coalesce detail p)) newID (now + 900 * ns_second) d
        | _ \<Rightarrow> Inr d))"

definition bindCodexThread :: "StreamEvent \<Rightarrow> instant \<Rightarrow> db \<Rightarrow> db" where
  "bindCodexThread event now d =
     (case (case EventPayload event of None \<Rightarrow> None | Some p \<Rightarrow> str_field ''codex_thread_id'' p) of
        None \<Rightarrow> d
      | Some i \<Rightarrow> if i = [] then d
                  else snd (update_threads (\<lambda>t. t_id t = StreamID event) (\<lambda>t. t\<lparr>t_codex_thread_id := i, t_updated_at := now\<rparr>) d))"

text \<open>The Agent reports that a server request was resolved: a string identifier, or the text of any other.\<close>

definition resolved_request :: "(json \<Rightarrow> string) \<Rightarrow> raw_message \<Rightarrow> go_error + string" where
  "resolved_request raw_text raw =
     (case (case raw of None \<Rightarrow> None | Some p \<Rightarrow> raw_field ''requestId'' p) of
        None \<Rightarrow> Inl BadJSON
      | Some None \<Rightarrow> Inr []
      | Some (Some JNull) \<Rightarrow> Inr []
      | Some (Some (JStr s)) \<Rightarrow> Inr s
      | Some (Some v) \<Rightarrow> Inr (raw_text v))"

definition resolve_request :: "string \<Rightarrow> string \<Rightarrow> instant \<Rightarrow> db \<Rightarrow> db" where
  "resolve_request threadID requestID now d =
     d\<lparr>approvals := map (\<lambda>a. if a_thread_id a = threadID \<and> a_request_id a = requestID \<and> a_status a = ''pending''
         then a\<lparr>a_status := ''resolved'', a_decision := Some ''cancelled'', a_resolved_at := Some now\<rparr> else a) (approvals d)\<rparr>"

definition completedTurnStatus :: "raw_message \<Rightarrow> string" where
  "completedTurnStatus raw =
     (case (case raw of None \<Rightarrow> None | Some p \<Rightarrow> nested_str ''turn'' ''status'' p) of
        None \<Rightarrow> ''failed''
      | Some status \<Rightarrow>
          if status = ''completed'' then ''idle''
          else if status \<in> {''interrupted'', ''cancelled'', ''failed''}
          then (if status = ''cancelled'' then ''interrupted'' else status)
          else ''failed'')"

definition scheduledTurnStatus :: "string \<Rightarrow> string" where
  "scheduledTurnStatus status =
     (if status = ''idle'' then ''succeeded'' else if status = ''interrupted'' then ''cancelled'' else ''failed'')"

definition error_message :: "json option \<Rightarrow> string" where
  "error_message err =
     (case err of
        None \<Rightarrow> []
      | Some (JStr s) \<Rightarrow> s
      | Some v \<Rightarrow> (case str_field ''message'' v of None \<Rightarrow> [] | Some m \<Rightarrow> m))"

definition scheduledTurnMessage :: "raw_message \<Rightarrow> string" where
  "scheduledTurnMessage raw =
     (case raw of None \<Rightarrow> [] | Some p \<Rightarrow>
       (case (raw_field ''error'' p, str_field ''text'' p, str_field ''message'' p) of
          (Some err, Some text, Some message) \<Rightarrow>
            if text \<noteq> [] then text else if message \<noteq> [] then message else error_message err
        | _ \<Rightarrow> []))"

section \<open>An event of the Agent\<close>

text \<open>Steps whose errors the code drops, and steps that cannot fail.\<close>

definition attempt :: "unit effect \<Rightarrow> unit effect" where
  "attempt m g = (Inr (), snd (m g))"

definition change :: "(db \<Rightarrow> db) \<Rightarrow> unit effect" where
  "change f = commit (\<lambda>s. Inr ((), s\<lparr>base := f (base s)\<rparr>))"

definition task_status :: "string \<Rightarrow> string \<Rightarrow> string \<Rightarrow> instant \<Rightarrow> unit effect" where
  "task_status threadID status message clock = commit (\<lambda>s. Inr ((), MarkScheduledTaskByThread threadID status message clock s))"

definition skip_if :: "bool \<Rightarrow> unit effect \<Rightarrow> unit effect" where
  "skip_if b m = (if b then pure_effect () else m)"

definition acceptCodexTurn :: "StreamEvent \<Rightarrow> instant \<Rightarrow> unit effect" where
  "acceptCodexTurn event clock =
     and_then (value_of (decode_payload (EventPayload event) (strs3 ''codex_thread_id'' ''edit_event_id'' ''replacement_event_id''))) (\<lambda>(codexID, editID, newID).
     and_then (value_of (decode_payload (EventPayload event) (raw_field ''replacement_payload''))) (\<lambda>replacement.
     and_then (value_of (decode_payload (EventPayload event) (int_field ''cutoff_sequence''))) (\<lambda>cutoff.
     and_then (value_of (require (codexID \<noteq> []) (Err ''accepted Codex turn has no thread id''))) (\<lambda>_.
     if editID = [] \<and> newID = [] then change (bindCodexThread event clock)
     else if editID = [] \<or> newID = [] \<or> replacement = None
     then fail_effect (Err ''accepted Codex rewrite has incomplete commit metadata'')
     else and_then (commit (on_base (CommitThreadRewrite (StreamID event) codexID editID newID replacement cutoff clock))) (\<lambda>(e, changed).
       if changed then hub_publish e else pure_effect ())))))"

definition end_codex_turn :: "string \<Rightarrow> string \<Rightarrow> string \<Rightarrow> string \<Rightarrow> instant \<Rightarrow> unit effect" where
  "end_codex_turn threadID status taskStatus message clock =
     and_then (change (SetThreadStatus threadID status clock)) (\<lambda>_.
     and_then (task_status threadID taskStatus message clock) (\<lambda>_.
     change (ResolvePendingApprovals threadID ''cancelled'' clock)))"

definition is_approval :: "string \<Rightarrow> bool" where
  "is_approval kind \<longleftrightarrow> contains_str kind ''approval.requested''"

text \<open>What the kinds of the event ask for before it is published; a turn that begins is published at once.\<close>

definition codex_event_steps :: "(json \<Rightarrow> string) \<Rightarrow> StreamEvent \<Rightarrow> string \<Rightarrow> instant \<Rightarrow> unit effect" where
  "codex_event_steps raw_text event newID clock =
     and_then (skip_if (\<not> is_approval (EventKind event))
       (attempt (commit (on_base (\<lambda>d. try_then (upsertApproval event newID clock d) (\<lambda>d'. Inr ((), d'))))))) (\<lambda>_.
     and_then (skip_if (EventKind event \<noteq> ''thread.bound'') (change (bindCodexThread event clock))) (\<lambda>_.
     and_then (skip_if (EventKind event \<noteq> ''codex.serverRequest.resolved'')
       (and_then (value_of (resolved_request raw_text (EventPayload event))) (\<lambda>i. change (resolve_request (StreamID event) i clock)))) (\<lambda>_.
     skip_if (EventKind event \<noteq> ''codex.thread.name.updated'') (change (updateThreadTitle event clock)))))"

definition codex_turn_began :: "StreamEvent \<Rightarrow> string \<Rightarrow> instant \<Rightarrow> unit effect" where
  "codex_turn_began event newID clock =
     and_then (skip_if (EventKind event \<noteq> ''turn.accepted'') (acceptCodexTurn event clock)) (\<lambda>_.
     and_then (commit (on_base (AddEvent newID clock event))) (\<lambda>saved.
     and_then (change (SetThreadStatus (StreamID event) ''running'' clock)) (\<lambda>_.
     and_then (task_status (StreamID event) ''running'' [] clock) (\<lambda>_.
     hub_publish saved))))"

definition codex_turn_ended :: "StreamEvent \<Rightarrow> instant \<Rightarrow> unit effect" where
  "codex_turn_ended event clock =
     and_then (skip_if (EventKind event \<notin> {''codex.turn.completed'', ''codex.turn.cancelled''})
       (and_then (change (setThreadTitleFromFirstResponse (StreamID event) clock)) (\<lambda>_.
        let status = (if EventKind event = ''codex.turn.cancelled'' then ''interrupted'' else completedTurnStatus (EventPayload event)) in
        end_codex_turn (StreamID event) status (scheduledTurnStatus status) (scheduledTurnMessage (EventPayload event)) clock))) (\<lambda>_.
     skip_if (EventKind event \<noteq> ''codex.turn.failed'')
       (end_codex_turn (StreamID event) ''failed'' ''failed'' (scheduledTurnMessage (EventPayload event)) clock))"

definition stored_payload :: "StreamEvent \<Rightarrow> StreamEvent" where
  "stored_payload event = event\<lparr>EventPayload := RedactJSON
     (if EventKind event = ''codex.thread.tokenUsage.updated'' then codexUsagePayload (EventPayload event) else EventPayload event)\<rparr>"

definition handleCodexEvent :: "(json \<Rightarrow> string) \<Rightarrow> string \<Rightarrow> StreamEvent \<Rightarrow> string \<Rightarrow> instant \<Rightarrow> unit effect" where
  "handleCodexEvent raw_text serverID event0 newID clock =
     and_then (ask (\<lambda>s. get_Thread (StreamID event0) (base s))) (\<lambda>thread.
     and_then (value_of (require (th_ServerID thread = serverID) (Err ''Agent event server mismatch''))) (\<lambda>_.
     let event = stored_payload event0 in
     and_then (ask (\<lambda>s. Inr (EventKind event \<noteq> ''user.message'' \<and> HasPendingTurnCancellation (StreamID event) (base s)))) (\<lambda>cancelled.
     if cancelled then pure_effect ()
     else and_then (codex_event_steps raw_text event newID clock) (\<lambda>_.
     if EventKind event \<in> {''codex.turn.started'', ''turn.accepted''} then codex_turn_began event newID clock
     else and_then (codex_turn_ended event clock) (\<lambda>_. publish newID clock event)))))"

section \<open>Results of operations\<close>

text \<open>The session of a control command: the whole command has to decode.\<close>

definition strings_decode :: "string list \<Rightarrow> json \<Rightarrow> bool" where
  "strings_decode names d \<longleftrightarrow> list_all (\<lambda>n. str_field n d \<noteq> None) names"

definition thread_if :: "bool \<Rightarrow> json \<Rightarrow> string option" where
  "thread_if ok d = (if ok then str_field ''thread_id'' d else None)"

definition decode_SteerTurnCommand :: "json \<Rightarrow> string option" where
  "decode_SteerTurnCommand d =
     thread_if (strings_decode [''codex_thread_id'', ''expected_turn_id'', ''prompt''] d \<and> array_field decode_image ''images'' d \<noteq> None) d"

definition decode_InterruptTurnCommand :: "json \<Rightarrow> string option" where
  "decode_InterruptTurnCommand d =
     thread_if (strings_decode [''codex_thread_id'', ''turn_id''] d \<and> bool_field ''best_effort'' d \<noteq> None) d"

definition decode_CodexSnapshotCommand :: "json \<Rightarrow> string option" where
  "decode_CodexSnapshotCommand d =
     thread_if (strings_decode [''scope_type'', ''scope_id'', ''codex_thread_id'', ''workspace'', ''codex_version''] d) d"

text \<open>The answers are a map of structs with a list of strings each.\<close>

definition answers_decode :: "json \<Rightarrow> bool" where
  "answers_decode v =
     (case v of
        JNull \<Rightarrow> True
      | JObj kvs \<Rightarrow> list_all (\<lambda>(_, a). a = JNull \<or> array_field as_string ''answers'' a \<noteq> None) kvs
      | _ \<Rightarrow> False)"

definition decode_ApprovalDecisionCommand :: "json \<Rightarrow> string option" where
  "decode_ApprovalDecisionCommand d =
     thread_if (strings_decode [''request_id'', ''decision''] d \<and>
       (case raw_field ''answers'' d of None \<Rightarrow> False | Some None \<Rightarrow> True | Some (Some v) \<Rightarrow> answers_decode v)) d"

definition control_command :: "Operation \<Rightarrow> go_error + string \<times> string" where
  "control_command op =
     (if o_kind op = ''codex.turn.steer''
      then try_then (decode_payload (payload_of op) decode_SteerTurnCommand) (\<lambda>t. Inr (t, ''codex.steer.failed''))
      else if o_kind op = ''codex.turn.interrupt''
      then try_then (decode_payload (payload_of op) decode_InterruptTurnCommand) (\<lambda>t. Inr (t, ''codex.interrupt.failed''))
      else if o_kind op = ''codex.approval''
      then try_then (decode_payload (payload_of op) decode_ApprovalDecisionCommand) (\<lambda>t. Inr (t, ''codex.approval.failed''))
      else if o_kind op = ''codex.thread.compact''
      then try_then (decode_payload (payload_of op) decode_CodexSnapshotCommand) (\<lambda>t. Inr (t, ''codex.compact.failed''))
      else Inr ([], []))"

definition noActiveCodexTurn :: "string \<Rightarrow> bool" where
  "noActiveCodexTurn message \<longleftrightarrow>
     (let m = to_lower message in
      contains_str m ''no active turn'' \<or> contains_str m ''turn not found'' \<or> contains_str m ''thread not found'')"

definition failure_event :: "string \<Rightarrow> string \<Rightarrow> string \<Rightarrow> OperationResult \<Rightarrow> StreamEvent" where
  "failure_event suffix threadID kind r =
     new_event (ResultOperationID r @ suffix) threadID kind
       (RedactJSON (Some (JObj [(''operation_id'', JStr (ResultOperationID r)), (''text'', JStr (ResultMessage r))])))"

definition inactive_event :: "string \<Rightarrow> OperationResult \<Rightarrow> StreamEvent" where
  "inactive_event threadID r =
     new_event (ResultOperationID r @ '':turn-cancelled'') threadID ''codex.turn.cancelled''
       (RedactJSON (Some (JObj [(''operation_id'', JStr (ResultOperationID r)), (''source'', JStr ''control''),
          (''text'', JStr ''Codex turn was already inactive; the session was marked interrupted'')])))"

definition failCodexControlOperation :: "Operation \<Rightarrow> OperationResult \<Rightarrow> string \<Rightarrow> instant \<Rightarrow> unit effect" where
  "failCodexControlOperation op r newID clock =
     and_then (value_of (control_command op)) (\<lambda>(threadID, kind).
     and_then (value_of (require (threadID \<noteq> []) (Err ''failed Codex control operation has no thread id''))) (\<lambda>_.
     if o_kind op = ''codex.turn.interrupt'' \<and> noActiveCodexTurn (ResultMessage r)
     then and_then (end_codex_turn threadID ''interrupted'' ''cancelled'' (ResultMessage r) clock) (\<lambda>_.
          publish newID clock (inactive_event threadID r))
     else publish newID clock (failure_event '':control-failed'' threadID kind r)))"

definition failCodexTurn :: "Operation \<Rightarrow> OperationResult \<Rightarrow> string \<Rightarrow> instant \<Rightarrow> unit effect" where
  "failCodexTurn op r newID clock =
     and_then (value_of (if o_kind op = ''codex.turn.rewrite''
         then try_then (decode_payload (payload_of op) decode_RewriteTurnCommand) (\<lambda>c. Inr (TurnThreadID (RewriteStart c)))
         else try_then (decode_payload (payload_of op) decode_StartTurnCommand) (\<lambda>c. Inr (TurnThreadID c)))) (\<lambda>threadID.
     and_then (value_of (require (threadID \<noteq> []) (Err ''Codex turn operation has no thread id''))) (\<lambda>_.
     and_then (change (SetThreadStatus threadID ''failed'' clock)) (\<lambda>_.
     and_then (commit (\<lambda>s. Inr ((), MarkScheduledTaskByOperation (ResultOperationID r) ''failed'' (ResultMessage r) clock s))) (\<lambda>_.
     publish newID clock (failure_event '':turn-failed'' threadID ''codex.turn.failed'' r)))))"

text \<open>A finished fork is committed; \<open>err_text\<close> is the text of an error.\<close>

definition decode_ForkThreadCommand :: "json \<Rightarrow> ForkThreadCommand option" where
  "decode_ForkThreadCommand d =
     (case (strs3 ''source_thread_id'' ''target_thread_id'' ''codex_thread_id'' d, strs3 ''workspace_id'' ''workspace'' ''title'' d,
            str_field ''last_turn_id'' d, int_field ''cutoff_sequence'' d) of
        (Some (src, tgt, cx), Some (wi, w, title), Some lt, Some cutoff) \<Rightarrow>
          Some \<lparr>SourceThreadID = src, TargetThreadID = tgt, ForkCodexThread = cx, ForkWorkspaceID = wi, ForkWorkspace = w,
                ForkTitle = title, ForkLastTurnID = lt, ForkCutoffSequence = cutoff\<rparr>
      | _ \<Rightarrow> None)"

definition decode_ForkThreadResult :: "json \<Rightarrow> ForkThreadResult option" where
  "decode_ForkThreadResult d =
     (case (str_field ''codex_thread_id'' d, str_field ''last_turn_id'' d) of
        (Some cx, Some lt) \<Rightarrow> Some \<lparr>ResultCodexThread = cx, ResultLastTurnID = lt\<rparr> | _ \<Rightarrow> None)"

definition result_document :: "OperationResult \<Rightarrow> raw_message" where
  "result_document r = (case ResultData r of None \<Rightarrow> None | Some raw \<Rightarrow> raw)"

definition failed_result :: "string \<Rightarrow> OperationResult \<Rightarrow> OperationResult" where
  "failed_result message r = r\<lparr>ResultStatus := ''failed'', ResultMessage := message\<rparr>"

definition fork_outcome ::
    "(go_error \<Rightarrow> string) \<Rightarrow> (nat \<Rightarrow> string) \<Rightarrow> Operation \<Rightarrow> OperationResult \<Rightarrow> instant \<Rightarrow> OperationResult effect" where
  "fork_outcome err_text newIDs op r clock =
     and_then (value_of (decode_payload (payload_of op) decode_ForkThreadCommand)) (\<lambda>c.
     and_then (value_of (decode_payload (result_document r) decode_ForkThreadResult)) (\<lambda>fork.
     case ValidateThreadForkResult c fork of
       Some e \<Rightarrow> pure_effect (failed_result (err_text e) r)
     | None \<Rightarrow> (\<lambda>g. case CommitThreadFork c (ResultCodexThread fork) newIDs clock (base (fst g)) of
           Inl e \<Rightarrow> (Inr (failed_result (''could not persist fork: '' @ err_text e) r), g)
         | Inr d \<Rightarrow> (Inr r, ((fst g)\<lparr>base := d\<rparr>, snd g)))))"

text \<open>
  After the completion: the operation is read again, and a cancellation that came first keeps the result
  from having any effect.
\<close>

definition codex_result_effects :: "Operation \<Rightarrow> OperationResult \<Rightarrow> string \<Rightarrow> instant \<Rightarrow> unit effect" where
  "codex_result_effects op r newID clock =
     and_then (skip_if (\<not> (isCodexTurnOperation (o_kind op) \<and> ResultStatus r = ''succeeded''))
       (commit (\<lambda>s. Inr ((), MarkScheduledTaskByOperation (ResultOperationID r) ''running'' [] clock s)))) (\<lambda>_.
     and_then (skip_if (\<not> (isCodexTurnOperation (o_kind op) \<and> ResultStatus r = ''failed'')) (failCodexTurn op r newID clock)) (\<lambda>_.
     skip_if (\<not> (o_kind op \<in> {''codex.turn.interrupt'', ''codex.turn.steer'', ''codex.approval'', ''codex.thread.compact''} \<and>
                ResultStatus r = ''failed''))
       (failCodexControlOperation op r newID clock)))"

definition publishOperationResult :: "string \<Rightarrow> OperationResult \<Rightarrow> string \<Rightarrow> instant \<Rightarrow> unit effect" where
  "publishOperationResult serverID r newID clock =
     publish newID clock (new_event [] serverID (''operation.'' @ ResultStatus r) (RedactJSON (Some (encode_result r))))"

definition codex_result ::
    "(go_error \<Rightarrow> string) \<Rightarrow> (nat \<Rightarrow> string) \<Rightarrow> string \<Rightarrow> OperationResult \<Rightarrow> string \<Rightarrow> string \<Rightarrow> instant \<Rightarrow> unit effect" where
  "codex_result err_text newIDs serverID r0 newID newID2 clock =
     and_then (ask (\<lambda>s. operation_row (ResultOperationID r0) (base s))) (\<lambda>op.
     and_then (value_of (require (o_server_id op = serverID) (Err ''operation result server mismatch''))) (\<lambda>_.
     if \<not> active op then pure_effect ()
     else and_then (if o_kind op = ''codex.thread.fork'' \<and> ResultStatus r0 = ''succeeded''
                    then fork_outcome err_text newIDs op r0 clock else pure_effect r0) (\<lambda>r.
       and_then (commit (on_base (\<lambda>d. try_then (CompleteOperation r clock d) (\<lambda>d'. Inr ((), d'))))) (\<lambda>_.
       and_then (ask (\<lambda>s. operation_row (ResultOperationID r) (base s))) (\<lambda>updated.
       if o_status updated = ''cancelled'' then pure_effect ()
       else and_then (codex_result_effects op r newID clock) (\<lambda>_.
            publishOperationResult serverID r newID2 clock))))))"

section \<open>Decisions\<close>

record ApprovalDecisionCommand =
  ad_ThreadID :: string
  ad_RequestID :: string
  ad_Decision :: string
  ad_Answers :: "(string \<times> string list) list"

definition encode_ApprovalDecisionCommand :: "ApprovalDecisionCommand \<Rightarrow> json" where
  "encode_ApprovalDecisionCommand c = JObj
     (str_entry ''thread_id'' (ad_ThreadID c) @ str_entry ''request_id'' (ad_RequestID c) @ str_entry ''decision'' (ad_Decision c) @
      (if ad_Answers c = [] then []
       else [(''answers'', JObj (map (\<lambda>(k, xs). (k, JObj [(''answers'', JArr (map JStr xs))])) (object_map [] (ad_Answers c))))]))"

definition ErrApprovalResolved :: go_error where
  "ErrApprovalResolved = Err ''approval was already resolved''"

definition approval_row :: "string \<Rightarrow> string \<Rightarrow> string \<Rightarrow> ApprovalDecisionCommand \<Rightarrow> instant \<Rightarrow> Operation" where
  "approval_row newID serverID approvalID c now =
     (queued_operation newID serverID no_resource ''codex.approval'' (JsonText (encode_ApprovalDecisionCommand c)) False
        (''approval:'' @ approvalID) now)\<lparr>o_thread_id := Some (ad_ThreadID c)\<rparr>"

definition ResolveApprovalAndQueue ::
    "string \<Rightarrow> string \<Rightarrow> string \<Rightarrow> ApprovalDecisionCommand \<Rightarrow> string \<Rightarrow> instant \<Rightarrow> db \<Rightarrow> go_error + string \<times> db" where
  "ResolveApprovalAndQueue approvalID serverID decision c newID now d =
     (let sel = (\<lambda>a. a_id a = approvalID \<and> a_status a = ''pending'') in
      try_then (require (length (filter sel (approvals d)) = 1) ErrApprovalResolved) (\<lambda>_.
      try_then (insert_operation (approval_row newID serverID approvalID c now)
         (d\<lparr>approvals := map (\<lambda>a. if sel a
            then a\<lparr>a_status := ''resolved'', a_decision := Some decision, a_resolved_at := Some now\<rparr> else a) (approvals d)\<rparr>))
        (\<lambda>d'. Inr (newID, d'))))"

end
