(* ===== verification/Codex_Runs.thy ===== *)
theory Codex_Runs
  imports Gateway_Codex
begin

text \<open>
  What the gateway's handlers of Codex sessions do to the database: the handlers as steps of relations
  between states (\<open>effect_relation\<close>), the isolation of sessions, the end of turns and the drop of the
  events of a cancelled turn.
\<close>

section \<open>Effects that stay in a relation\<close>

definition effect_in :: "(turn_db \<Rightarrow> turn_db \<Rightarrow> bool) \<Rightarrow> 'a effect \<Rightarrow> bool" where
  "effect_in R m \<longleftrightarrow> (\<forall>g. R (fst g) (fst (snd (m g))))"

lemma effect_inI: "(\<And>s h. R s (fst (snd (m (s, h))))) \<Longrightarrow> effect_in R m"
  by (simp add: effect_in_def split_paired_All)

lemma effect_inD: "effect_in R m \<Longrightarrow> m g = (r, g') \<Longrightarrow> R (fst g) (fst g')"
  unfolding effect_in_def by (metis snd_conv)

text \<open>The contract of a relation that handlers can be shown to respect, transaction by transaction.\<close>

locale effect_relation =
  fixes R :: "turn_db \<Rightarrow> turn_db \<Rightarrow> bool"
  assumes rel_refl: "R s s"
    and rel_trans: "R a b \<Longrightarrow> R b c \<Longrightarrow> R a c"
begin

lemma rel_value_of: "effect_in R (value_of v)"
  by (rule effect_inI) (simp add: value_of_def rel_refl)

lemma rel_ask: "effect_in R (ask q)"
  by (rule effect_inI) (simp add: ask_def rel_refl)

lemma rel_pure: "effect_in R (pure_effect a)"
  by (rule effect_inI) (simp add: pure_effect_def rel_refl)

lemma rel_fail: "effect_in R (fail_effect e)"
  by (rule effect_inI) (simp add: fail_effect_def rel_refl)

lemma rel_hub: "effect_in R (hub_publish e)"
  by (rule effect_inI) (simp add: hub_publish_def rel_refl)

lemma rel_and_then:
  assumes "effect_in R m" and "\<And>a. effect_in R (f a)"
  shows "effect_in R (and_then m f)"
proof (rule effect_inI)
  fix s h
  obtain r g' where m: "m (s, h) = (r, g')" by (rule prod.exhaust)
  from effect_inD[OF assms(1) m] have first: "R s (fst g')" by simp
  show "R s (fst (snd (and_then m f (s, h))))"
  proof (cases r)
    case (Inl e)
    then show ?thesis using m first by (simp add: and_then_def)
  next
    case (Inr a)
    obtain r2 g2 where f: "f a g' = (r2, g2)" by (rule prod.exhaust)
    show ?thesis using rel_trans[OF first effect_inD[OF assms(2) f]] m Inr f by (simp add: and_then_def)
  qed
qed

lemma rel_commit:
  assumes "\<And>s a s'. t s = Inr (a, s') \<Longrightarrow> R s s'"
  shows "effect_in R (commit t)"
  using assms by (auto simp: commit_def rel_refl intro!: effect_inI split: sum.split)

lemma rel_change:
  assumes "\<And>s. R s (s\<lparr>base := f (base s)\<rparr>)"
  shows "effect_in R (change f)"
  unfolding change_def by (rule rel_commit) (auto simp: assms)

lemma rel_if: "effect_in R m \<Longrightarrow> effect_in R n \<Longrightarrow> effect_in R (if b then m else n)"
  by simp

lemma rel_skip: "effect_in R m \<Longrightarrow> effect_in R (skip_if b m)"
  by (simp add: skip_if_def rel_pure)

lemma rel_attempt: "effect_in R m \<Longrightarrow> effect_in R (attempt m)"
  by (simp add: attempt_def effect_in_def)

lemma rel_pair: "(\<And>a b. effect_in R (f a b)) \<Longrightarrow> effect_in R (case p of (a, b) \<Rightarrow> f a b)"
  by (simp split: prod.split)

lemmas rel_effects = rel_value_of rel_ask rel_pure rel_fail rel_hub rel_if rel_skip rel_attempt rel_pair

end

section \<open>Isolation\<close>

text \<open>
  Nothing but one session changes: its row, its events, its approvals and the scheduled tasks that use it.
\<close>

definition rest_of :: "turn_db \<Rightarrow> turn_db" where
  "rest_of s = s\<lparr>base := (base s)\<lparr>threads := [], events := [], approvals := [], tasks := (tasks (base s))(Codex := [])\<rparr>\<rparr>"

definition same_elsewhere :: "string \<Rightarrow> turn_db \<Rightarrow> turn_db \<Rightarrow> bool" where
  "same_elsewhere i s s' \<longleftrightarrow> rest_of s' = rest_of s \<and>
     filter (\<lambda>t. t_id t \<noteq> i) (threads (base s')) = filter (\<lambda>t. t_id t \<noteq> i) (threads (base s)) \<and>
     filter (\<lambda>e. StreamID e \<noteq> i) (events (base s')) = filter (\<lambda>e. StreamID e \<noteq> i) (events (base s)) \<and>
     filter (\<lambda>a. a_thread_id a \<noteq> i) (approvals (base s')) = filter (\<lambda>a. a_thread_id a \<noteq> i) (approvals (base s)) \<and>
     filter (\<lambda>k. k_thread_id k \<noteq> i) (tasks (base s') Codex) = filter (\<lambda>k. k_thread_id k \<noteq> i) (tasks (base s) Codex)"

lemma rest_of_base [simp]:
  "rest_of (s\<lparr>base := (base s)\<lparr>threads := x\<rparr>\<rparr>) = rest_of s"
  "rest_of (s\<lparr>base := (base s)\<lparr>events := y\<rparr>\<rparr>) = rest_of s"
  "rest_of (s\<lparr>base := (base s)\<lparr>approvals := z\<rparr>\<rparr>) = rest_of s"
  "rest_of (s\<lparr>base := (base s)\<lparr>tasks := (tasks (base s))(Codex := w)\<rparr>\<rparr>) = rest_of s"
  by (simp_all add: rest_of_def)

interpretation elsewhere: effect_relation "same_elsewhere i" for i
  by unfold_locales (simp_all add: same_elsewhere_def)

text \<open>A change of the rows of one session only.\<close>

lemma filter_map_keep:
  "(\<And>x. sel x \<Longrightarrow> \<not> P x \<and> \<not> P (f x)) \<Longrightarrow> filter P (map (\<lambda>x. if sel x then f x else x) xs) = filter P xs"
  by (induction xs) auto

lemma elsewhere_threads:
  "(\<And>t. sel t \<Longrightarrow> t_id t = i) \<Longrightarrow> (\<And>t. t_id (f t) = t_id t) \<Longrightarrow>
   same_elsewhere i s (s\<lparr>base := snd (update_threads sel f (base s))\<rparr>)"
  by (auto simp: same_elsewhere_def update_threads_def intro!: filter_map_keep)

lemma elsewhere_approvals:
  "(\<And>a. sel a \<Longrightarrow> a_thread_id a = i) \<Longrightarrow> (\<And>a. a_thread_id (f a) = a_thread_id a) \<Longrightarrow>
   same_elsewhere i s (s\<lparr>base := (base s)\<lparr>approvals := map (\<lambda>a. if sel a then f a else a) (approvals (base s))\<rparr>\<rparr>)"
  by (auto simp: same_elsewhere_def intro!: filter_map_keep)

lemma elsewhere_events:
  "filter (\<lambda>e. StreamID e \<noteq> i) es = filter (\<lambda>e. StreamID e \<noteq> i) (events (base s)) \<Longrightarrow>
   same_elsewhere i s (s\<lparr>base := (base s)\<lparr>events := es\<rparr>\<rparr>)"
  by (simp add: same_elsewhere_def)

lemma elsewhere_mark: "same_elsewhere i s (MarkScheduledTaskByThread i status message now s)"
  by (auto simp: MarkScheduledTaskByThread_def mark_pending_def update_tasks_def same_elsewhere_def intro!: filter_map_keep)

lemma elsewhere_status: "effect_in (same_elsewhere i) (change (SetThreadStatus i status now))"
  by (rule elsewhere.rel_change) (auto simp: SetThreadStatus_def intro!: elsewhere_threads)

lemma elsewhere_bind: "StreamID e = i \<Longrightarrow> effect_in (same_elsewhere i) (change (bindCodexThread e now))"
  by (rule elsewhere.rel_change)
    (auto simp: bindCodexThread_def elsewhere.rel_refl split: option.split intro!: elsewhere_threads)

lemma elsewhere_title: "StreamID e = i \<Longrightarrow> effect_in (same_elsewhere i) (change (updateThreadTitle e now))"
  by (rule elsewhere.rel_change)
    (auto simp: updateThreadTitle_def SetThreadTitle_def elsewhere.rel_refl split: option.split intro!: elsewhere_threads)

lemma elsewhere_first_title: "effect_in (same_elsewhere i) (change (setThreadTitleFromFirstResponse i now))"
  by (rule elsewhere.rel_change)
    (auto simp: setThreadTitleFromFirstResponse_def SetThreadTitleIfDefault_def Let_def elsewhere.rel_refl intro!: elsewhere_threads)

lemma elsewhere_resolve_all: "effect_in (same_elsewhere i) (change (ResolvePendingApprovals i decision now))"
  by (rule elsewhere.rel_change) (auto simp: ResolvePendingApprovals_def intro!: elsewhere_approvals)

lemma elsewhere_resolve: "effect_in (same_elsewhere i) (change (resolve_request i r now))"
  by (rule elsewhere.rel_change) (auto simp: resolve_request_def intro!: elsewhere_approvals)

lemma elsewhere_tasks: "effect_in (same_elsewhere i) (task_status i status message now)"
  unfolding task_status_def by (rule elsewhere.rel_commit) (auto simp: elsewhere_mark)

lemma elsewhere_approval:
  "StreamID e = i \<Longrightarrow>
   effect_in (same_elsewhere i) (commit (on_base (\<lambda>d. try_then (upsertApproval e newID now d) (\<lambda>d'. Inr ((), d')))))"
  by (rule elsewhere.rel_commit)
    (auto simp: on_base_def try_then_Inr_iff upsertApproval_def store_approval_def renewed_approval_def elsewhere.rel_refl
      split: option.splits if_splits intro!: elsewhere_approvals; auto simp: same_elsewhere_def)

lemma elsewhere_add: "StreamID e = i \<Longrightarrow> effect_in (same_elsewhere i) (commit (on_base (AddEvent newID now e)))"
  by (rule elsewhere.rel_commit)
    (auto simp: on_base_def try_then_Inr_iff dest!: AddEvent_cases intro!: elsewhere_events elsewhere.rel_refl)

lemma elsewhere_rewrite: "effect_in (same_elsewhere i) (commit (on_base (CommitThreadRewrite i cx edit new p cutoff now)))"
proof (rule elsewhere.rel_commit)
  fix s c s'
  assume "on_base (CommitThreadRewrite i cx edit new p cutoff now) s = Inr (c, s')"
  then obtain d where c: "CommitThreadRewrite i cx edit new p cutoff now (base s) = Inr (c, d)" and s': "s' = s\<lparr>base := d\<rparr>"
    by (auto simp: on_base_def try_then_Inr_iff)
  have step: "same_elsewhere i s (s\<lparr>base := snd (update_threads sel f ((base s)\<lparr>events := es\<rparr>))\<rparr>)"
    if "\<forall>t. sel t \<longrightarrow> t_id t = i" and "\<forall>t. t_id (f t) = t_id t"
      and "filter (\<lambda>e. StreamID e \<noteq> i) es = filter (\<lambda>e. StreamID e \<noteq> i) (events (base s))" for sel f es
    using elsewhere.rel_trans[OF elsewhere_events[OF that(3)] elsewhere_threads[of sel i f]] that(1,2) by simp
  have cut: "filter (\<lambda>e. StreamID e \<noteq> i) (filter (\<lambda>e. \<not> (StreamID e = i \<and> Q e)) es) = filter (\<lambda>e. StreamID e \<noteq> i) es" for Q es
    by (induction es) auto
  show "same_elsewhere i s s'"
    using c unfolding s' CommitThreadRewrite_def Let_def
    by (auto simp: try_then_Inr_iff insert_event_def elsewhere.rel_refl cut
        simp del: filter_filter de_Morgan_conj not_le split: sum.splits if_splits intro!: step)
qed

lemma elsewhere_accept: "StreamID e = i \<Longrightarrow> effect_in (same_elsewhere i) (acceptCodexTurn e now)"
  unfolding acceptCodexTurn_def
  by (intro elsewhere.rel_and_then elsewhere.rel_effects elsewhere_bind)
    (auto intro!: elsewhere.rel_and_then elsewhere.rel_effects elsewhere_rewrite)

lemma elsewhere_steps: "StreamID e = i \<Longrightarrow> effect_in (same_elsewhere i) (codex_event_steps raw_text e newID now)"
  unfolding codex_event_steps_def
  by (intro elsewhere.rel_and_then elsewhere.rel_effects elsewhere_approval elsewhere_bind elsewhere_title)
    (auto intro!: elsewhere_resolve)

lemma elsewhere_began: "StreamID e = i \<Longrightarrow> effect_in (same_elsewhere i) (codex_turn_began e newID now)"
  unfolding codex_turn_began_def
  by (intro elsewhere.rel_and_then elsewhere.rel_effects elsewhere_accept elsewhere_add)
    (auto intro!: elsewhere_status elsewhere_tasks)

lemma elsewhere_end: "effect_in (same_elsewhere i) (end_codex_turn i status task message now)"
  unfolding end_codex_turn_def by (intro elsewhere.rel_and_then elsewhere_status elsewhere_tasks elsewhere_resolve_all)

lemma elsewhere_ended: "StreamID e = i \<Longrightarrow> effect_in (same_elsewhere i) (codex_turn_ended e now)"
  unfolding codex_turn_ended_def Let_def
  by (intro elsewhere.rel_and_then elsewhere.rel_effects) (auto intro!: elsewhere_first_title elsewhere_end)

lemma elsewhere_publish: "StreamID e = i \<Longrightarrow> effect_in (same_elsewhere i) (publish newID now e)"
  unfolding publish_def by (intro elsewhere.rel_and_then elsewhere_add elsewhere.rel_hub)

lemma stored_payload_sel [simp]: "StreamID (stored_payload e) = StreamID e" "EventKind (stored_payload e) = EventKind e"
  by (simp_all add: stored_payload_def)

lemma elsewhere_event: "effect_in (same_elsewhere (StreamID e)) (handleCodexEvent raw_text serverID e newID now)"
  unfolding handleCodexEvent_def Let_def
  by (intro elsewhere.rel_and_then elsewhere.rel_effects elsewhere_steps elsewhere_began elsewhere_ended elsewhere_publish) simp_all

text \<open>An event of another Agent's session is refused before anything happens.\<close>

lemma foreign_event_refused:
  assumes "\<And>v. get_Thread (StreamID e) (base s) = Inr v \<Longrightarrow> th_ServerID v \<noteq> serverID"
  shows "handleCodexEvent raw_text serverID e newID now (s, h) = (Inl err, s', h') \<Longrightarrow> s' = s \<and> h' = h"
    and "\<exists>err. handleCodexEvent raw_text serverID e newID now (s, h) = (Inl err, s, h)"
proof -
  show "\<exists>err. handleCodexEvent raw_text serverID e newID now (s, h) = (Inl err, s, h)"
    using assms by (cases "get_Thread (StreamID e) (base s)")
      (auto simp: handleCodexEvent_def and_then_def ask_def value_of_def require_def)
  then show "handleCodexEvent raw_text serverID e newID now (s, h) = (Inl err, s', h') \<Longrightarrow> s' = s \<and> h' = h"
    by auto
qed

text \<open>
  C22: An Agent can change nothing but the session its event names, and only when that session runs on
  its own server: every other row of every table stays as it was, whatever the event contains; an event
  for a session of another server is refused and changes and publishes nothing.
\<close>

theorem codex_event_isolated:
  assumes "handleCodexEvent raw_text serverID e newID now (s, h) = (r, s', h')"
  shows "same_elsewhere (StreamID e) s s' \<and>
    (r = Inr () \<or> s' \<noteq> s \<or> h' \<noteq> h \<longrightarrow> (\<exists>v. get_Thread (StreamID e) (base s) = Inr v \<and> th_ServerID v = serverID))"
proof -
  have "same_elsewhere (StreamID e) s s'"
    using effect_inD[OF elsewhere_event assms] by simp
  moreover have "\<exists>v. get_Thread (StreamID e) (base s) = Inr v \<and> th_ServerID v = serverID" if "r = Inr () \<or> s' \<noteq> s \<or> h' \<noteq> h"
  proof (rule ccontr)
    assume "\<not> ?thesis"
    then obtain err where "handleCodexEvent raw_text serverID e newID now (s, h) = (Inl err, s, h)"
      using foreign_event_refused(2)[of e s serverID raw_text newID now h] by blast
    then show False using assms that by simp
  qed
  ultimately show ?thesis by blast
qed

section \<open>The end of a turn\<close>

text \<open>Nothing of a turn is left: the session can take the next one, nothing waits for a decision.\<close>

definition turn_over :: "string \<Rightarrow> turn_db \<Rightarrow> bool" where
  "turn_over i s \<longleftrightarrow>
     (\<forall>t \<in> set (threads (base s)). t_id t = i \<longrightarrow> t_status t \<in> {''idle'', ''interrupted'', ''failed''}) \<and>
     (\<forall>a \<in> set (approvals (base s)). a_thread_id a = i \<longrightarrow> a_status a \<noteq> ''pending'') \<and>
     (\<forall>k \<in> set (tasks (base s) Codex). k_thread_id k = i \<longrightarrow> \<not> run_pending k)"

lemma mark_thread_frame [simp]:
  "threads (base (MarkScheduledTaskByThread i status message now s)) = threads (base s)"
  "approvals (base (MarkScheduledTaskByThread i status message now s)) = approvals (base s)"
  "events (base (MarkScheduledTaskByThread i status message now s)) = events (base s)"
  by (simp_all add: MarkScheduledTaskByThread_def mark_pending_def update_tasks_def)

definition ended :: "string \<Rightarrow> string \<Rightarrow> string \<Rightarrow> string \<Rightarrow> instant \<Rightarrow> turn_db \<Rightarrow> turn_db" where
  "ended i status task message now s =
     (let s2 = MarkScheduledTaskByThread i task message now (s\<lparr>base := SetThreadStatus i status now (base s)\<rparr>) in
      s2\<lparr>base := ResolvePendingApprovals i ''cancelled'' now (base s2)\<rparr>)"

lemma end_codex_turn_eq: "end_codex_turn i status task message now (s, h) = (Inr (), ended i status task message now s, h)"
  by (simp add: end_codex_turn_def and_then_def change_def commit_def task_status_def ended_def Let_def)

lemma ended_lists:
  "threads (base (ended i status task message now s)) =
     map (\<lambda>t. if t_id t = i then t\<lparr>t_status := status, t_updated_at := now\<rparr> else t) (threads (base s))"
  "events (base (ended i status task message now s)) = events (base s)"
  "approvals (base (ended i status task message now s)) =
     map (\<lambda>a. if a_thread_id a = i \<and> a_status a = ''pending''
            then a\<lparr>a_status := ''resolved'', a_decision := Some ''cancelled'', a_resolved_at := Some now\<rparr> else a) (approvals (base s))"
  by (simp_all add: ended_def Let_def ResolvePendingApprovals_def SetThreadStatus_def update_threads_def)

lemma ended_tasks:
  "trim_space i \<noteq> [] \<Longrightarrow> tasks (base (ended i status task message now s)) Codex =
     map (\<lambda>k. if k_thread_id k = i \<and> run_pending k
            then k\<lparr>k_last_run_status := task, k_last_run_message := message, k_updated_at := now\<rparr> else k) (tasks (base s) Codex)"
  by (simp add: ended_def Let_def ResolvePendingApprovals_def SetThreadStatus_def update_threads_def
      MarkScheduledTaskByThread_def mark_pending_def update_tasks_def)

lemma ended_over:
  assumes "trim_space i \<noteq> []" and "status \<in> {''idle'', ''interrupted'', ''failed''}" and "task \<notin> {''queued'', ''running''}"
  shows "turn_over i (ended i status task message now s)"
proof -
  have over: "\<not> run_pending (k\<lparr>k_last_run_status := task, k_last_run_message := message, k_updated_at := now\<rparr>)" for k
    using assms(3) by (simp add: run_pending_def)
  have "\<forall>k \<in> set (tasks (base (ended i status task message now s)) Codex). k_thread_id k = i \<longrightarrow> \<not> run_pending k"
    unfolding ended_tasks[OF assms(1)] by (simp add: over del: if_image_distrib)
  moreover have "\<forall>t \<in> set (threads (base (ended i status task message now s))). t_id t = i \<longrightarrow> t_status t \<in> S" if "status \<in> S" for S
    unfolding ended_lists using that by (simp del: if_image_distrib)
  note this[OF assms(2)]
  moreover have "\<forall>a \<in> set (approvals (base (ended i status task message now s))). a_thread_id a = i \<longrightarrow> a_status a \<noteq> ''pending''"
    unfolding ended_lists by (simp del: if_image_distrib)
  ultimately show ?thesis unfolding turn_over_def by blast
qed

text \<open>Adding the event afterwards changes none of this.\<close>

lemma publish_frame:
  assumes "publish newID now e (s, h) = (r, s', h')"
  shows "\<exists>es. s' = s\<lparr>base := (base s)\<lparr>events := es\<rparr>\<rparr>"
proof -
  have "\<exists>es. s = s\<lparr>base := (base s)\<lparr>events := es\<rparr>\<rparr>" by (rule exI[of _ "events (base s)"]) simp
  then show ?thesis
    using assms by (auto simp: publish_def and_then_def commit_def on_base_def hub_publish_def try_then_Inr_iff
        split: sum.splits dest!: AddEvent_cases)
qed

lemma turn_over_events [simp]: "turn_over i (s\<lparr>base := (base s)\<lparr>events := es\<rparr>\<rparr>) \<longleftrightarrow> turn_over i s"
  by (simp add: turn_over_def)

lemma completed_statuses:
  "completedTurnStatus p \<in> {''idle'', ''interrupted'', ''failed''}"
  "scheduledTurnStatus st \<notin> {''queued'', ''running''}"
  by (auto simp: completedTurnStatus_def scheduledTurnStatus_def split: option.split)

definition turn_end_kinds :: "string list" where
  "turn_end_kinds = [''codex.turn.completed'', ''codex.turn.cancelled'', ''codex.turn.failed'']"

lemma turn_ended_over:
  assumes "EventKind e \<in> set turn_end_kinds" and "trim_space (StreamID e) \<noteq> []"
    and "codex_turn_ended e now (s, h) = (r, s', h')"
  shows "r = Inr () \<and> turn_over (StreamID e) s'"
proof (cases "EventKind e = ''codex.turn.failed''")
  case True
  then have "(r, s') = (Inr (), ended (StreamID e) ''failed'' ''failed'' (scheduledTurnMessage (EventPayload e)) now s)"
    using assms(3) by (simp add: codex_turn_ended_def skip_if_def and_then_def pure_effect_def end_codex_turn_eq)
  then show ?thesis using ended_over[OF assms(2)] by simp
next
  case False
  let ?status = "if EventKind e = ''codex.turn.cancelled'' then ''interrupted'' else completedTurnStatus (EventPayload e)"
  let ?s = "s\<lparr>base := setThreadTitleFromFirstResponse (StreamID e) now (base s)\<rparr>"
  have "\<exists>m. (r, s') = (Inr (), ended (StreamID e) ?status (scheduledTurnStatus ?status) m now ?s)"
    using assms(1,3) False
    by (auto simp: codex_turn_ended_def skip_if_def and_then_def pure_effect_def end_codex_turn_eq change_def commit_def Let_def turn_end_kinds_def)
  then show ?thesis using ended_over[OF assms(2), of ?status "scheduledTurnStatus ?status"] completed_statuses by auto
qed

lemma end_kinds:
  assumes "kind \<in> set turn_end_kinds"
  shows "\<not> is_approval kind" "kind \<notin> {''thread.bound'', ''codex.serverRequest.resolved'', ''codex.thread.name.updated''}"
    "kind \<notin> {''codex.turn.started'', ''turn.accepted''}" "kind \<noteq> ''user.message''"
  using assms by (auto simp: is_approval_def turn_end_kinds_def has_prefix_def)

lemma steps_cases:
  assumes "codex_event_steps raw_text e newID now (s, h) = (r, g)" and "EventKind e \<in> set turn_end_kinds"
  shows "r = Inr ()"
  using assms(1) end_kinds(1,2)[OF assms(2)] by (simp add: codex_event_steps_def skip_if_def and_then_def pure_effect_def)

lemma turn_end_runs:
  assumes "EventKind e \<in> set turn_end_kinds" and "trim_space (StreamID e) \<noteq> []"
    and "get_Thread (StreamID e) (base s) = Inr v" and "th_ServerID v = serverID"
    and "\<not> HasPendingTurnCancellation (StreamID e) (base s)"
    and "handleCodexEvent raw_text serverID e newID now (s, h) = (r, s', h')"
  shows "turn_over (StreamID e) s'"
proof -
  let ?e = "stored_payload e"
  obtain r1 g1 where steps: "codex_event_steps raw_text ?e newID now (s, h) = (r1, g1)" by (rule prod.exhaust)
  obtain r2 s2 h2 where ended: "codex_turn_ended ?e now g1 = (r2, s2, h2)" by (rule prod_cases3)
  have r1: "r1 = Inr ()" using steps_cases[OF steps] assms(1) by simp
  have over: "r2 = Inr () \<and> turn_over (StreamID e) s2"
    using turn_ended_over[of ?e now "fst g1" "snd g1" r2 s2 h2] assms(1,2) ended by simp
  note kinds = end_kinds(3,4)[OF assms(1)]
  have "publish newID now ?e (s2, h2) = (r, s', h')"
    using assms(3-6) steps r1 ended over kinds
    by (simp add: handleCodexEvent_def and_then_def ask_def value_of_def require_def Let_def)
  then show ?thesis using publish_frame[of newID now ?e s2 h2 r s' h'] over by auto
qed

lemma turn_over_claim:
  assumes "turn_over i s" and "t \<in> set (threads (base s))" and "t_id t = i"
  shows "\<exists>d. ClaimThreadForTurn i now (base s) = Inr d"
proof -
  have "t_status t \<in> {''idle'', ''interrupted'', ''failed''}" using assms unfolding turn_over_def by blast
  then have "\<not> busy t" by (auto simp: busy_def)
  then have "filter (\<lambda>t. t_id t = i \<and> \<not> busy t) (threads (base s)) \<noteq> []" using assms(2,3) by (auto simp: filter_empty_conv)
  then show ?thesis by (simp add: ClaimThreadForTurn_def update_threads_def)
qed


section \<open>Events of a cancelled turn\<close>

definition handle_events :: "(json \<Rightarrow> string) \<Rightarrow> string \<Rightarrow> (StreamEvent \<times> string \<times> instant) list \<Rightarrow> gateway \<Rightarrow> gateway" where
  "handle_events raw_text serverID es g = fold (\<lambda>(e, newID, now) g. snd (handleCodexEvent raw_text serverID e newID now g)) es g"

lemma cancelled_event_dropped:
  assumes "HasPendingTurnCancellation (StreamID e) (base (fst g))" and "EventKind e \<noteq> ''user.message''"
  shows "snd (handleCodexEvent raw_text serverID e newID now g) = g"
  using assms by (auto simp: handleCodexEvent_def and_then_def ask_def value_of_def require_def pure_effect_def Let_def split: sum.splits)

lemma late_events_dropped:
  assumes "HasPendingTurnCancellation i (base (fst g))"
    and "\<forall>(e, newID, now) \<in> set es. StreamID e = i \<and> EventKind e \<noteq> ''user.message''"
  shows "handle_events raw_text serverID es g = g"
  using assms(2)
proof (induction es)
  case (Cons x es)
  then show ?case
    using cancelled_event_dropped[of "fst x" g raw_text serverID "fst (snd x)" "snd (snd x)"] assms(1)
    by (auto simp: handle_events_def case_prod_unfold)
qed (simp add: handle_events_def)

text \<open>The newest event of a stream is the one that was just added.\<close>

lemma insort_key_last: "f a \<le> f x \<Longrightarrow> insort_key f a (ys @ [x]) = insort_key f a ys @ [x]"
  by (induction ys) auto

lemma sort_key_last: "\<forall>y \<in> set ys. f y \<le> f x \<Longrightarrow> sort_key f (ys @ [x]) = sort_key f ys @ [x]"
  by (induction ys) (auto simp: insort_key_last)

lemma added_is_latest:
  assumes "AddEvent newID now e d = Inr (e', d')" and "EventID e \<noteq> []" and "Sequence e = 0"
    and "\<forall>r \<in> set (events d). EventID r \<noteq> EventID e" and "EventKind e \<in> set kinds"
  shows "latest_of kinds (StreamID e) d' = Some e' \<and> EventKind e' = EventKind e \<and> EventPayload e' = EventPayload e"
proof -
  have e': "e' = prepare_event newID now d e" and d': "d' = d\<lparr>events := events d @ [e']\<rparr>"
    using AddEvent_cases[OF assms(1)] assms(1,2,4) by (auto simp: AddEvent_def Let_def try_then_Inr_iff split: if_splits)
  have "\<forall>r \<in> set (stream_events (StreamID e) d). Sequence r \<le> Sequence e'"
    using max_sequence_ge[of _ "stream_events (StreamID e) d"] by (force simp: e' prepare_sequence assms(3))
  then have "sort_key Sequence (filter (\<lambda>r. EventKind r \<in> set kinds) (stream_events (StreamID e) d) @ [e'])
      = sort_key Sequence (filter (\<lambda>r. EventKind r \<in> set kinds) (stream_events (StreamID e) d)) @ [e']"
    by (intro sort_key_last) auto
  then show ?thesis using assms(5) by (simp add: latest_of_def order_by_desc_def d' stream_events_def e')
qed

lemma inactive_event_control:
  "EventPayload (inactive_event i r) = Some p \<Longrightarrow> str_field ''source'' p = Some ''control''"
  by (auto simp: inactive_event_def new_event_def RedactJSON_def str_field_def scalar_field_def kept_counter_def hidden_key_def
      secretKeys_def usage_counters_def has_prefix_def lower_char_def)

lemma inactive_event_sel [simp]:
  "EventID (inactive_event i r) = ResultOperationID r @ '':turn-cancelled''" "StreamID (inactive_event i r) = i"
  "EventKind (inactive_event i r) = ''codex.turn.cancelled''" "Sequence (inactive_event i r) = 0"
  "\<exists>p. EventPayload (inactive_event i r) = Some p"
  by (simp_all add: inactive_event_def new_event_def RedactJSON_def)

lemma inactive_published_cancels:
  assumes "publish newID now (inactive_event i r) (s, h) = (Inr (), s', h')"
    and "\<forall>e \<in> set (events (base s)). EventID e \<noteq> ResultOperationID r @ '':turn-cancelled''"
  shows "HasPendingTurnCancellation i (base s')"
proof -
  obtain e' d where a: "AddEvent newID now (inactive_event i r) (base s) = Inr (e', d)" and s': "s' = s\<lparr>base := d\<rparr>"
    using assms(1) by (auto simp: publish_def and_then_def commit_def on_base_def hub_publish_def try_then_Inr_iff split: sum.splits)
  obtain p where p: "EventPayload (inactive_event i r) = Some p" using inactive_event_sel(5) by blast
  from added_is_latest[OF a, where kinds = "[''user.message'', ''codex.turn.cancelled'']"] assms(2)
  have "latest_of [''user.message'', ''codex.turn.cancelled''] i d = Some e'" "EventKind e' = ''codex.turn.cancelled''" "EventPayload e' = Some p"
    by (simp_all add: p)
  then show ?thesis using inactive_event_control[OF p] by (simp add: HasPendingTurnCancellation_def s')
qed

lemma trim_space_empty [simp]: "trim_space [] = []"
  by (simp add: trim_space_def trim_left_space_def trim_right_space_def skip_runes.simps)

text \<open>
  When the Agent has lost the turn that the user interrupts, the interruption is final: its failed
  result ends the turn (the session is interrupted, nothing is pending) and leaves a cancellation as the
  newest mark of the session, so no sequence of late events of that turn changes the database or reaches
  a browser before the user sends the next message.
\<close>

theorem inactive_interrupt_final:
  assumes "o_kind op = ''codex.turn.interrupt''" and "noActiveCodexTurn (ResultMessage r)"
    and "control_command op = Inr (i, kind)" and "trim_space i \<noteq> []"
    and "\<forall>e \<in> set (events (base s)). EventID e \<noteq> ResultOperationID r @ '':turn-cancelled''"
    and "failCodexControlOperation op r newID now (s, h) = (Inr (), s', h')"
    and "\<forall>(e, eid, at) \<in> set es. StreamID e = i \<and> EventKind e \<noteq> ''user.message''"
  shows "turn_over i s' \<and> handle_events raw_text serverID es (s', h') = (s', h')"
proof -
  let ?s = "ended i ''interrupted'' ''cancelled'' (ResultMessage r) now s"
  have "i \<noteq> []" using assms(4) by auto
  then have p: "publish newID now (inactive_event i r) (?s, h) = (Inr (), s', h')"
    using assms(1-3,6) by (simp add: failCodexControlOperation_def and_then_def value_of_def require_def end_codex_turn_eq)
  have "turn_over i ?s" by (rule ended_over[OF assms(4)]) simp_all
  then have "turn_over i s'" using publish_frame[OF p] by auto
  moreover have "HasPendingTurnCancellation i (base s')"
    by (rule inactive_published_cancels[OF p]) (simp add: ended_lists assms(5))
  ultimately show ?thesis using late_events_dropped[of i "(s', h')" es] assms(7) by simp
qed

section \<open>Titles\<close>

lemma skip_runes_suffix: "\<exists>a. s = a @ skip_runes spaces s"
proof (induction spaces s rule: skip_runes.induct)
  case (1 spaces s)
  show ?case
  proof (cases "s = [] \<or> space_len spaces s = 0")
    case True
    then show ?thesis by (simp add: skip_runes.simps)
  next
    case False
    then obtain a where "drop (space_len spaces s) s = a @ skip_runes spaces (drop (space_len spaces s) s)"
      using 1[OF False] by (elim exE)
    then have "s = (take (space_len spaces s) s @ a) @ skip_runes spaces s"
      using False append_take_drop_id[of "space_len spaces s" s] by (simp add: skip_runes.simps[of spaces s])
    then show ?thesis by blast
  qed
qed

lemma trim_space_sub: "\<exists>a b. s = a @ trim_space s @ b"
proof -
  obtain a where a: "s = a @ trim_left_space s" using skip_runes_suffix[of s all_spaces] by (auto simp: trim_left_space_def)
  obtain b where "rev (trim_left_space s) = b @ skip_runes (map rev all_spaces) (rev (trim_left_space s))"
    using skip_runes_suffix by blast
  then have "trim_left_space s = trim_space s @ rev b"
    unfolding trim_space_def trim_right_space_def by (metis rev_append rev_rev_ident)
  then show ?thesis using a by metis
qed

lemma trim_space_set: "set (trim_space s) \<subseteq> set s" and trim_space_length: "length (trim_space s) \<le> length s"
proof -
  obtain a b where "s = a @ trim_space s @ b" using trim_space_sub by blast
  then have "set s = set (a @ trim_space s @ b)" "length s = length (a @ trim_space s @ b)" by simp_all
  then show "set (trim_space s) \<subseteq> set s" "length (trim_space s) \<le> length s" by auto
qed

lemma trim_set_set: "set (trim_set cs s) \<subseteq> set s" "set (trim_left_set cs s) \<subseteq> set s"
  by (auto simp: trim_set_def trim_left_set_def dest!: set_dropWhileD)

lemma title_of_line_set: "set (title_of_line line) \<subseteq> set line"
  using trim_space_set[of line] trim_space_set[of "trim_left_set ''#>*- '' (trim_space line)"] trim_set_set(2)[of "''#>*- ''" "trim_space line"]
    trim_space_set[of "trim_set ''`*_'' (trim_space (trim_left_set ''#>*- '' (trim_space line)))"]
    trim_set_set(1)[of "''`*_''" "trim_space (trim_left_set ''#>*- '' (trim_space line))"]
  unfolding title_of_line_def Let_def by (simp split: if_split) blast

lemma str_runes_length: "length s \<le> 4 * length (str_runes s)"
proof (induction s rule: str_runes.induct)
  case (1 s)
  have "rune_width s \<le> 4" by (auto simp: rune_width_def split: list.split)
  then show ?case using 1 by (cases "s = []"; cases "rune_width s = 0") (auto simp: str_runes.simps[of s])
qed

lemma str_runes_set: "r \<in> set (str_runes s) \<Longrightarrow> set r \<subseteq> set s \<union> {CHR 0xEF, CHR 0xBF, CHR 0xBD}"
proof (induction s rule: str_runes.induct)
  case (1 s)
  show ?case
  proof (cases "s = [] \<or> rune_width s = 0")
    case True
    then have "r = [CHR 0xEF, CHR 0xBF, CHR 0xBD] \<or> s \<noteq> [] \<and> r \<in> set (str_runes (drop 1 s))"
      using 1(3) by (auto simp: str_runes.simps[of s] split: if_splits)
    then show ?thesis using 1(1) True set_drop_subset[of 1 s] by fastforce
  next
    case False
    then have "r = take (rune_width s) s \<or> r \<in> set (str_runes (drop (rune_width s) s))"
      using 1(3) by (simp add: str_runes.simps[of s])
    then show ?thesis using 1(2) False set_drop_subset[of "rune_width s" s] set_take_subset[of "rune_width s" s] by blast
  qed
qed

lemma first_runes_set: "set (first_runes n s) \<subseteq> set s \<union> {CHR 0xEF, CHR 0xBF, CHR 0xBD}"
  using str_runes_set by (fastforce simp: first_runes_def dest: in_set_takeD)

lemma shortened_title_length: "length (shortened_title t) \<le> 195"
  using str_runes_length[of t] first_runes_length[of 48 t] trim_space_length[of "first_runes 48 t"]
  by (simp add: shortened_title_def)

lemma shortened_title_set: "CHR 0x0A \<notin> set t \<Longrightarrow> CHR 0x0A \<notin> set (shortened_title t)"
  using first_runes_set[of 48 t] trim_space_set[of "first_runes 48 t"] by (auto simp: shortened_title_def)

lemma title_scan_shape:
  "length (title_scan ls) \<le> 195 \<and> (title_scan ls = [] \<longleftrightarrow> (\<forall>line \<in> set ls. title_of_line line = []))"
  using shortened_title_length by (induction ls) (auto simp: shortened_title_def)

lemma title_scan_line: "(\<And>line. line \<in> set ls \<Longrightarrow> CHR 0x0A \<notin> set line) \<Longrightarrow> CHR 0x0A \<notin> set (title_scan ls)"
  using title_of_line_set shortened_title_set by (induction ls) (auto simp: subset_iff)

text \<open>
  The title taken from a reply is one line of at most 195 bytes (48 characters and three dots), and it
  is empty only when no line of the reply has any text besides its markup.
\<close>

theorem response_title_bounded:
  "length (firstResponseTitle text) \<le> 195 \<and> CHR 0x0A \<notin> set (firstResponseTitle text) \<and>
   (firstResponseTitle text = [] \<longleftrightarrow> (\<forall>line \<in> set (split_on (CHR 0x0A) text). title_of_line line = []))"
  using title_scan_shape title_scan_line[OF split_on_no_sep] by (simp add: firstResponseTitle_def)

section \<open>Sample\<close>

definition codex_session :: turn_db where
  "codex_session = sample_turns\<lparr>base := session_db\<lparr>approvals :=
     [\<lparr>a_id = ''p'', a_thread_id = ''t'', a_request_id = ''0'', a_kind = ''exec'', a_detail = JsonText JNull, a_status = ''pending'',
       a_expires_at = 900, a_resolved_at = None, a_decision = None\<rparr>]\<rparr>\<rparr>"

definition turn_done :: StreamEvent where
  "turn_done = new_event ''z'' ''t'' ''codex.turn.completed'' (Some (JObj [(''turn'', JObj [(''status'', JStr ''completed'')])]))"

definition lost_interrupt :: Operation where
  "lost_interrupt = sample_row\<lparr>o_kind := ''codex.turn.interrupt'',
     o_payload := JsonText (JObj [(''thread_id'', JStr ''t''), (''codex_thread_id'', JStr ''c'')])\<rparr>"

definition lost_result :: OperationResult where
  "lost_result = \<lparr>ResultOperationID = ''o1'', ResultStatus = ''failed'', ResultMessage = ''Thread not found'', ResultData = None\<rparr>"

lemma sample_thread_id: "trim_space ''t'' \<noteq> []"
  by code_simp

lemma sample_session_view:
  "\<exists>v. get_Thread ''t'' (base codex_session) = Inr v \<and> th_ServerID v = ''s1''"
proof -
  have "case get_Thread ''t'' (base codex_session) of Inl _ \<Rightarrow> False | Inr v \<Rightarrow> th_ServerID v = ''s1''" by code_simp
  from case_Inr[OF this] show ?thesis .
qed

lemma sample_turn_end:
  assumes "handleCodexEvent (\<lambda>_. []) ''s1'' turn_done ''n'' 9 (codex_session, []) = (r, s, h)"
  shows "turn_over ''t'' s" and "\<not> turn_over ''t'' codex_session"
proof -
  obtain v where v: "get_Thread ''t'' (base codex_session) = Inr v" "th_ServerID v = ''s1''" using sample_session_view by blast
  have id: "StreamID turn_done = ''t''" and kind: "EventKind turn_done \<in> set turn_end_kinds"
    by (simp_all add: turn_done_def new_event_def turn_end_kinds_def)
  have "\<not> HasPendingTurnCancellation ''t'' (base codex_session)" by code_simp
  then show "turn_over ''t'' s" using turn_end_runs[OF kind _ _ v(2) _ assms] v(1) sample_thread_id by (simp add: id)
  show "\<not> turn_over ''t'' codex_session" by (simp add: turn_over_def codex_session_def)
qed

lemma codex_event_isolated_witness:
  "\<exists>r s h. handleCodexEvent (\<lambda>_. []) ''s1'' turn_done ''n'' 9 (codex_session, []) = (r, s, h) \<and> s \<noteq> codex_session \<and>
     same_elsewhere ''t'' codex_session s"
proof -
  obtain r s h where run: "handleCodexEvent (\<lambda>_. []) ''s1'' turn_done ''n'' 9 (codex_session, []) = (r, s, h)" by (rule prod_cases3)
  have "s \<noteq> codex_session" using sample_turn_end[OF run] by auto
  then show ?thesis using codex_event_isolated[OF run] run by (auto simp: turn_done_def new_event_def)
qed


lemma sample_lost_interrupt:
  "control_command lost_interrupt = Inr (''t'', ''codex.interrupt.failed'')" "noActiveCodexTurn (ResultMessage lost_result)"
  "o_kind lost_interrupt = ''codex.turn.interrupt''"
  "\<forall>e \<in> set (events (base codex_session)). EventID e \<noteq> ResultOperationID lost_result @ '':turn-cancelled''"
  by code_simp+

lemma inactive_interrupt_final_witness:
  "\<exists>s h. failCodexControlOperation lost_interrupt lost_result ''n'' 9 (codex_session, []) = (Inr (), s, h) \<and> turn_over ''t'' s \<and>
     handle_events (\<lambda>_. []) ''s1'' [(turn_done, ''m'', 10)] (s, h) = (s, h)"
proof -
  obtain r s h where run: "failCodexControlOperation lost_interrupt lost_result ''n'' 9 (codex_session, []) = (r, s, h)" by (rule prod_cases3)
  let ?s = "ended ''t'' ''interrupted'' ''cancelled'' (ResultMessage lost_result) 9 codex_session"
  have "publish ''n'' 9 (inactive_event ''t'' lost_result) (?s, []) = (r, s, h)"
    using run sample_lost_interrupt(1-3) by (simp add: failCodexControlOperation_def and_then_def value_of_def require_def end_codex_turn_eq)
  moreover have "\<not> event_conflict (prepare_event ''n'' 9 (base ?s) (inactive_event ''t'' lost_result)) (base ?s)"
    using sample_lost_interrupt(4) by code_simp
  ultimately have r: "r = Inr ()"
    by (auto simp: publish_def and_then_def commit_def on_base_def hub_publish_def AddEvent_def Let_def)
  have "\<forall>(e, eid, at) \<in> set [(turn_done, ''m'', 10)]. StreamID e = ''t'' \<and> EventKind e \<noteq> ''user.message''"
    by (simp add: turn_done_def new_event_def)
  then show ?thesis
    using inactive_interrupt_final[where es = "[(turn_done, ''m'', 10)]",
        OF sample_lost_interrupt(3,2,1) sample_thread_id sample_lost_interrupt(4) run[unfolded r]] run r by blast
qed

end
