(* ===== verification/Approvals.thy ===== *)
theory Approvals
  imports Codex_Runs
begin

text \<open>
  The decision of a request of a Codex session: the answers of the user are checked against the questions
  of the request, internal/protocol/user_input.go, and the decision is stored and queued for the Agent,
  \<open>decideApproval\<close> of internal/httpapi/resources.go. The audit entry is not modelled.
\<close>

section \<open>Answers\<close>

record UserInputQuestion =
  q_ID :: string
  q_MultiSelect :: bool
  q_IsOther :: bool
  q_Labels :: "string list"

definition decode_option :: "json \<Rightarrow> string option" where
  "decode_option d =
     (case (str_field ''label'' d, str_field ''description'' d) of (Some l, Some _) \<Rightarrow> Some l | _ \<Rightarrow> None)"

definition decode_question :: "json \<Rightarrow> UserInputQuestion option" where
  "decode_question d =
     (case (bool_field ''multiSelect'' d, strs3 ''id'' ''header'' ''question'' d, bool_field ''isOther'' d,
            bool_field ''isSecret'' d, array_field decode_option ''options'' d) of
        (Some multi, Some (i, _, _), Some other, Some _, Some options) \<Rightarrow>
          Some \<lparr>q_ID = i, q_MultiSelect = multi, q_IsOther = other, q_Labels = (case options of None \<Rightarrow> [] | Some ls \<Rightarrow> ls)\<rparr>
      | _ \<Rightarrow> None)"

definition decode_questions :: "raw_message \<Rightarrow> UserInputQuestion list option" where
  "decode_questions detail =
     (case (case detail of None \<Rightarrow> None | Some d \<Rightarrow> array_field decode_question ''questions'' d) of
        None \<Rightarrow> None
      | Some None \<Rightarrow> Some []
      | Some (Some qs) \<Rightarrow> Some qs)"

text \<open>The answers of the request, \<open>map[string]UserInputAnswer\<close>: no key twice.\<close>

type_synonym answers = "(string \<times> string list) list"

fun check_values :: "UserInputQuestion \<Rightarrow> string list \<Rightarrow> string list \<Rightarrow> string + unit" where
  "check_values q seen [] = Inr ()"
| "check_values q seen (v # vs) =
     (if trim_space v = [] \<or> 16384 < length v \<or> v \<in> set seen then Inl ''invalid or duplicate answer''
      else if q_Labels q \<noteq> [] \<and> \<not> q_IsOther q \<and> v \<notin> set (q_Labels q) then Inl ''select one of the offered options''
      else check_values q (v # seen) vs)"

fun check_questions :: "answers \<Rightarrow> UserInputQuestion list \<Rightarrow> string + unit" where
  "check_questions ans [] = Inr ()"
| "check_questions ans (q # qs) =
     (case map_of ans (q_ID q) of
        None \<Rightarrow> Inl ''answer every question; only multi-select questions accept multiple answers''
      | Some vs \<Rightarrow>
          if vs = [] \<or> 13 < length vs \<or> (\<not> q_MultiSelect q \<and> length vs \<noteq> 1)
          then Inl ''answer every question; only multi-select questions accept multiple answers''
          else try_then (check_values q [] vs) (\<lambda>_. check_questions ans qs))"

definition ValidateUserInputAnswers :: "raw_message \<Rightarrow> answers \<Rightarrow> string + unit" where
  "ValidateUserInputAnswers detail ans =
     (case decode_questions detail of
        None \<Rightarrow> Inl ''answer every requested question''
      | Some qs \<Rightarrow>
          if qs = [] \<or> length ans \<noteq> length qs then Inl ''answer every requested question''
          else check_questions ans qs)"

section \<open>The decision\<close>

definition UserInputRequestMethod :: string where
  "UserInputRequestMethod = ''item/tool/requestUserInput''"

datatype http_error = HttpError nat string

definition refuse :: "nat \<Rightarrow> string \<Rightarrow> go_error + 'a \<Rightarrow> http_error + 'a" where
  "refuse code msg r = (case r of Inl _ \<Rightarrow> Inl (HttpError code msg) | Inr a \<Rightarrow> Inr a)"

text \<open>The request that can still be decided, with the server of its session.\<close>

definition pending_approval :: "string \<Rightarrow> instant \<Rightarrow> db \<Rightarrow> go_error + Approval_row \<times> string" where
  "pending_approval i now d =
     try_then (find_row (\<lambda>a. a_id a = i \<and> a_status a = ''pending'' \<and> now < a_expires_at a) (approvals d)) (\<lambda>a.
     try_then (find_row (\<lambda>t. t_id t = a_thread_id a) (threads d)) (\<lambda>t.
     try_then (find_row (\<lambda>w. w_id w = t_workspace_id t) (workspaces d)) (\<lambda>w. Inr (a, w_server_id w))))"

definition decision_fits :: "Approval_row \<Rightarrow> string \<Rightarrow> answers \<Rightarrow> http_error + unit" where
  "decision_fits a decision ans =
     (if a_kind a = UserInputRequestMethod
      then (if decision \<noteq> ''answered'' then Inl (HttpError 400 ''user input requires answers'')
            else (case ValidateUserInputAnswers (stored_json (a_detail a)) ans of
                Inl m \<Rightarrow> Inl (HttpError 400 m) | Inr _ \<Rightarrow> Inr ()))
      else if decision = ''answered'' \<or> ans \<noteq> [] then Inl (HttpError 400 ''approval requires an approval decision'')
      else Inr ())"

definition decision_answer :: "go_error + 'a \<Rightarrow> http_error + 'a" where
  "decision_answer r =
     (case r of
        Inl e \<Rightarrow> Inl (if e = ErrApprovalResolved then HttpError 409 ''approval was already resolved''
                     else HttpError 500 ''could not send approval decision'')
      | Inr a \<Rightarrow> Inr a)"

definition decideApproval :: "string \<Rightarrow> string \<Rightarrow> answers \<Rightarrow> string \<Rightarrow> instant \<Rightarrow> db \<Rightarrow> http_error + string \<times> db" where
  "decideApproval i decision ans newID now d =
     (if decision \<notin> {''approved'', ''denied'', ''answered''} then Inl (HttpError 400 ''decision must be approved or denied'')
      else try_then (refuse 404 ''pending approval not found'' (pending_approval i now d)) (\<lambda>(a, serverID).
        try_then (decision_fits a decision ans) (\<lambda>_.
        decision_answer (ResolveApprovalAndQueue (a_id a) serverID decision
            \<lparr>ad_ThreadID = a_thread_id a, ad_RequestID = a_request_id a, ad_Decision = decision, ad_Answers = ans\<rparr> newID now d))))"

section \<open>Answers that fit\<close>

text \<open>The specification: an answer of the type its question asks for, and one for every question.\<close>

definition well_answered :: "UserInputQuestion \<Rightarrow> string list \<Rightarrow> bool" where
  "well_answered q vs \<longleftrightarrow> vs \<noteq> [] \<and> length vs \<le> 13 \<and> (q_MultiSelect q \<or> length vs = 1) \<and> distinct vs \<and>
     (\<forall>v \<in> set vs. trim_space v \<noteq> [] \<and> length v \<le> 16384 \<and> (q_Labels q = [] \<or> q_IsOther q \<or> v \<in> set (q_Labels q)))"

definition answers_fit :: "UserInputQuestion list \<Rightarrow> answers \<Rightarrow> bool" where
  "answers_fit qs ans \<longleftrightarrow> qs \<noteq> [] \<and> set (map fst ans) = set (map q_ID qs) \<and>
     (\<forall>q \<in> set qs. \<exists>vs. (q_ID q, vs) \<in> set ans \<and> well_answered q vs)"

lemma check_values_Inr:
  "check_values q seen vs = Inr () \<longleftrightarrow> distinct vs \<and> set vs \<inter> set seen = {} \<and>
     (\<forall>v \<in> set vs. trim_space v \<noteq> [] \<and> length v \<le> 16384 \<and> (q_Labels q = [] \<or> q_IsOther q \<or> v \<in> set (q_Labels q)))"
  by (induction vs arbitrary: seen) auto

lemma check_questions_Inr:
  "check_questions ans qs = Inr () \<longleftrightarrow> (\<forall>q \<in> set qs. \<exists>vs. map_of ans (q_ID q) = Some vs \<and> well_answered q vs)"
  by (induction qs) (auto simp: try_then_Inr_iff check_values_Inr well_answered_def split: option.split)

lemma same_keys:
  assumes "distinct (map fst ans)" and "distinct (map q_ID qs)" and "set (map q_ID qs) \<subseteq> set (map fst ans)"
  shows "length ans = length qs \<longleftrightarrow> set (map fst ans) = set (map q_ID qs)"
proof
  assume "length ans = length qs"
  then have "card (set (map fst ans)) = card (set (map q_ID qs))" using distinct_card[OF assms(1)] distinct_card[OF assms(2)] by simp
  then show "set (map fst ans) = set (map q_ID qs)" using card_subset_eq[OF _ assms(3)] by simp
next
  assume "set (map fst ans) = set (map q_ID qs)"
  then show "length ans = length qs" using distinct_card[OF assms(1)] distinct_card[OF assms(2)] by simp
qed

text \<open>
  C35: The check of the user's answers accepts exactly the answers that fit the request: a request with
  questions, an answer for every question and for nothing else, and each answer of the type its question
  asks for, one value or several, none blank, too long or twice, and from the offered options unless the
  question is open.
\<close>

theorem answers_accepted_iff:
  assumes "decode_questions detail = Some qs" and "distinct (map q_ID qs)" and "distinct (map fst ans)"
  shows "ValidateUserInputAnswers detail ans = Inr () \<longleftrightarrow> answers_fit qs ans"
proof -
  have key: "map_of ans k = Some vs \<longleftrightarrow> (k, vs) \<in> set ans" for k vs
    using map_of_eq_Some_iff[OF assms(3)] .
  have "set (map q_ID qs) \<subseteq> set (map fst ans)" if "\<forall>q \<in> set qs. \<exists>vs. (q_ID q, vs) \<in> set ans \<and> well_answered q vs"
    using that by force
  then show ?thesis
    using same_keys[OF assms(3,2)] by (auto simp: ValidateUserInputAnswers_def assms(1) answers_fit_def check_questions_Inr key)
qed

section \<open>Decisions are final\<close>

lemma pending_approval_Inr:
  assumes "pending_approval i now d = Inr (a, serverID)"
  shows "a \<in> set (approvals d)" "a_id a = i" "a_status a = ''pending''" "now < a_expires_at a"
    and "\<exists>t \<in> set (threads d). t_id t = a_thread_id a \<and> (\<exists>w \<in> set (workspaces d). w_id w = t_workspace_id t \<and> w_server_id w = serverID)"
  using assms by (auto simp: pending_approval_def try_then_Inr_iff dest!: find_row_Inr)

lemma refuse_Inr [simp]: "refuse code msg r = Inr a \<longleftrightarrow> r = Inr a"
  by (cases r) (auto simp: refuse_def)

lemma decision_answer_Inr [simp]: "decision_answer r = Inr a \<longleftrightarrow> r = Inr a"
  by (cases r) (auto simp: decision_answer_def)

definition decided :: "string \<Rightarrow> string \<Rightarrow> instant \<Rightarrow> db \<Rightarrow> Approval_row list" where
  "decided i decision now d = map (\<lambda>a. if a_id a = i \<and> a_status a = ''pending''
     then a\<lparr>a_status := ''resolved'', a_decision := Some decision, a_resolved_at := Some now\<rparr> else a) (approvals d)"

lemma resolve_Inr:
  assumes "ResolveApprovalAndQueue i serverID decision c newID now d = Inr (oid, d')"
  shows "d' = d\<lparr>approvals := decided i decision now d, operations := operations d @ [approval_row newID serverID i c now]\<rparr>"
    and "oid = newID" and "length (filter (\<lambda>a. a_id a = i \<and> a_status a = ''pending'') (approvals d)) = 1"
  using assms by (auto simp: ResolveApprovalAndQueue_def Let_def try_then_Inr_iff insert_operation_def store_operations_def decided_def
      split: if_splits)

lemma decide_Inr:
  assumes "decideApproval i decision ans newID now d = Inr (oid, d')"
  obtains a serverID where "pending_approval i now d = Inr (a, serverID)" "decision_fits a decision ans = Inr ()"
    "ResolveApprovalAndQueue i serverID decision
       \<lparr>ad_ThreadID = a_thread_id a, ad_RequestID = a_request_id a, ad_Decision = decision, ad_Answers = ans\<rparr> newID now d = Inr (oid, d')"
proof -
  obtain a serverID where p: "pending_approval i now d = Inr (a, serverID)" and f: "decision_fits a decision ans = Inr ()"
    and r: "ResolveApprovalAndQueue (a_id a) serverID decision
       \<lparr>ad_ThreadID = a_thread_id a, ad_RequestID = a_request_id a, ad_Decision = decision, ad_Answers = ans\<rparr> newID now d = Inr (oid, d')"
    using assms unfolding decideApproval_def by (auto simp: try_then_Inr_iff simp del: insert_iff split: if_split_asm)
  then show ?thesis using that pending_approval_Inr(2)[OF p] by simp
qed

lemma decided_row:
  assumes "b \<in> set (decided i decision now d)"
  shows "\<exists>a \<in> set (approvals d). a_id b = a_id a \<and> (a_id a = i \<and> a_status a = ''pending'' \<longrightarrow> a_status b = ''resolved'' \<and> a_decision b = Some decision) \<and>
    (\<not> (a_id a = i \<and> a_status a = ''pending'') \<longrightarrow> b = a)"
  using assms unfolding decided_def by (auto simp del: if_image_distrib split: if_splits)

lemma not_pending_refused:
  assumes "\<forall>a \<in> set (approvals d). a_id a = i \<longrightarrow> a_status a \<noteq> ''pending''"
  shows "\<exists>code msg. decideApproval i decision ans newID now d = Inl (HttpError code msg)"
proof (cases "decideApproval i decision ans newID now d")
  case (Inl e)
  then show ?thesis by (cases e) auto
next
  case (Inr r)
  then obtain a srv where "pending_approval i now d = Inr (a, srv)" by (cases r) (auto elim: decide_Inr)
  then show ?thesis using assms pending_approval_Inr[of i now d a srv] by blast
qed

text \<open>
  C23: An accepted decision is the last one: it was made for a request of a session on the server it is sent
  to, still waiting and not expired, and it fits the request; it resolves the request with this decision,
  queues one operation with it and leaves every other request alone, and until the request is opened again
  every further decision of it is refused.
\<close>

theorem decision_is_final:
  assumes "distinct (map a_id (approvals d))" and "decideApproval i decision ans newID now d = Inr (oid, d')"
  shows "(\<exists>a serverID. pending_approval i now d = Inr (a, serverID) \<and> decision_fits a decision ans = Inr () \<and>
      operations d' = operations d @ [approval_row newID serverID i
        \<lparr>ad_ThreadID = a_thread_id a, ad_RequestID = a_request_id a, ad_Decision = decision, ad_Answers = ans\<rparr> now]) \<and>
    (\<forall>b \<in> set (approvals d'). a_id b = i \<longrightarrow> a_status b = ''resolved'' \<and> a_decision b = Some decision) \<and>
    filter (\<lambda>a. a_id a \<noteq> i) (approvals d') = filter (\<lambda>a. a_id a \<noteq> i) (approvals d) \<and>
    (\<forall>decision2 ans2 newID2 now2. \<exists>code msg. decideApproval i decision2 ans2 newID2 now2 d' = Inl (HttpError code msg))"
proof -
  obtain a srv where p: "pending_approval i now d = Inr (a, srv)" and f: "decision_fits a decision ans = Inr ()"
    and r: "ResolveApprovalAndQueue i srv decision
       \<lparr>ad_ThreadID = a_thread_id a, ad_RequestID = a_request_id a, ad_Decision = decision, ad_Answers = ans\<rparr> newID now d = Inr (oid, d')"
    using assms(2) by (rule decide_Inr)
  note d' = resolve_Inr(1)[OF r]
  have only: "x = a" if "x \<in> set (approvals d)" "a_id x = i" for x
    using that pending_approval_Inr(1,2)[OF p] assms(1) by (metis distinct_map inj_onD)
  have final: "\<forall>b \<in> set (approvals d'). a_id b = i \<longrightarrow> a_status b = ''resolved'' \<and> a_decision b = Some decision"
  proof (intro ballI impI)
    fix b
    assume "b \<in> set (approvals d')" and i: "a_id b = i"
    then obtain x where x: "x \<in> set (approvals d)" "a_id b = a_id x"
      and upd: "a_id x = i \<and> a_status x = ''pending'' \<longrightarrow> a_status b = ''resolved'' \<and> a_decision b = Some decision"
      using decided_row[of b i decision now d] by (auto simp: d')
    have "x = a" using only[OF x(1)] x(2) i by simp
    then show "a_status b = ''resolved'' \<and> a_decision b = Some decision" using upd x(2) i pending_approval_Inr(3)[OF p] by simp
  qed
  moreover have "filter (\<lambda>a. a_id a \<noteq> i) (approvals d') = filter (\<lambda>a. a_id a \<noteq> i) (approvals d)"
    unfolding d' decided_def by simp (rule filter_map_keep, simp)
  moreover have "\<exists>code msg. decideApproval i decision2 ans2 newID2 now2 d' = Inl (HttpError code msg)" for decision2 ans2 newID2 now2
    using not_pending_refused[of d' i decision2 ans2 newID2 now2] final by simp
  ultimately show ?thesis using p f d' final by auto
qed

lemma unique_filter:
  assumes "distinct (map f xs)" and "x \<in> set xs" and "P x" and same: "\<forall>y. P y \<longrightarrow> f y = f x"
  shows "filter P xs = [x]"
  using assms(1,2)
proof (induction xs)
  case (Cons y ys)
  show ?case
  proof (cases "y = x")
    case True
    have "\<not> P z" if "z \<in> set ys" for z
      using that True Cons.prems(1) same by (metis distinct.simps(2) imageI list.set_map list.simps(9))
    then show ?thesis using True assms(3) by (simp add: filter_empty_conv)
  next
    case False
    then have x: "x \<in> set ys" using Cons.prems(2) by simp
    moreover have "\<not> P y" using x Cons.prems(1) same by (metis distinct.simps(2) imageI list.set_map list.simps(9))
    ultimately show ?thesis using Cons by simp
  qed
qed simp

text \<open>
  C24: A request that the Agent opens again is lost: request numbers are used again by later turns, and the
  row of the request goes back to waiting, but its decision is queued under a key that the first decision
  has taken. However often and whatever the user decides, the decision fails with status 500, the
  transaction is rolled back and the Agent never hears of it.
\<close>

theorem reopened_request_stuck:
  assumes "decideApproval i decision ans newID now d = Inr (oid, d')"
    and "\<forall>o1 \<in> set (operations d'). \<exists>o2 \<in> set (operations d''). o_idempotency_key o2 = o_idempotency_key o1"
    and "distinct (map a_id (approvals d''))" and "pending_approval i now2 d'' = Inr (b, serverID2)"
    and "decision2 \<in> {''approved'', ''denied'', ''answered''}" and "decision_fits b decision2 ans2 = Inr ()"
  shows "decideApproval i decision2 ans2 newID2 now2 d'' = Inl (HttpError 500 ''could not send approval decision'')"
proof -
  obtain a srv where "pending_approval i now d = Inr (a, srv)" "decision_fits a decision ans = Inr ()"
    and r: "ResolveApprovalAndQueue i srv decision
       \<lparr>ad_ThreadID = a_thread_id a, ad_RequestID = a_request_id a, ad_Decision = decision, ad_Answers = ans\<rparr> newID now d = Inr (oid, d')"
    using assms(1) by (rule decide_Inr)
  have key: "o_idempotency_key (approval_row x y i c z) = ''approval:'' @ i" for x y c z
    by (simp add: approval_row_def)
  have "\<exists>o2 \<in> set (operations d''). o_idempotency_key o2 = ''approval:'' @ i"
    using assms(2) resolve_Inr(1)[OF r] key by auto
  then have taken: "insert_operation (approval_row newID2 srv2 i c now2) (d''\<lparr>approvals := as\<rparr>) = Inl ConstraintFailed" for srv2 c as
    by (force simp: insert_operation_def store_operations_def operations_ok_def key)
  note b = pending_approval_Inr[OF assms(4)]
  have "filter (\<lambda>a. a_id a = i \<and> a_status a = ''pending'') (approvals d'') = [b]"
    by (rule unique_filter[OF assms(3) b(1)]) (use b(2,3) in auto)
  then have "ResolveApprovalAndQueue i srv2 decision2 c newID2 now2 d'' = Inl ConstraintFailed" for srv2 c
    by (simp add: ResolveApprovalAndQueue_def Let_def taken require_def)
  then show ?thesis
    using assms(5) by (simp add: decideApproval_def refuse_def decision_answer_def assms(4,6) b(2) ErrApprovalResolved_def)
qed

section \<open>Sample\<close>

definition asked_again :: StreamEvent where
  "asked_again = new_event [] ''t'' ''approval.requested''
     (Some (JObj [(''request_id'', JStr ''0''), (''kind'', JStr ''exec''), (''detail'', JStr ''ps aux'')]))"

definition sample_question :: json where
  "sample_question = JObj [(''questions'', JArr [JObj [(''id'', JStr ''q''), (''options'', JArr [JObj [(''label'', JStr ''yes'')]])]])]"

lemma sample_approval:
  "pending_approval ''p'' 9 (base codex_session) = Inr (hd (approvals (base codex_session)), ''s1'')"
  by (simp add: pending_approval_def find_row_def codex_session_def session_db_def sample_db_def empty_db_def sample_thread_def)

lemma sample_decision:
  obtains oid d where "decideApproval ''p'' ''approved'' [] ''x1'' 9 (base codex_session) = Inr (oid, d)"
    "map a_id (approvals d) = [''p'']" "map a_status (approvals d) = [''resolved'']" "map a_thread_id (approvals d) = [''t'']"
    "map a_request_id (approvals d) = [''0'']" "map a_detail (approvals d) = [JsonText JNull]"
    "threads d = threads (base codex_session)" "workspaces d = workspaces (base codex_session)"
proof -
  let ?d = "base codex_session"
  have fits: "decision_fits (hd (approvals ?d)) ''approved'' [] = Inr ()"
    by (simp add: decision_fits_def codex_session_def UserInputRequestMethod_def)
  have len: "length (filter (\<lambda>a. a_id a = ''p'' \<and> a_status a = ''pending'') (approvals ?d)) = 1"
    by (simp add: codex_session_def)
  have row: "operations_ok (?d\<lparr>approvals := as\<rparr>) [approval_row ''x1'' ''s1'' ''p'' c 9]" if "ad_ThreadID c = ''t''" for as c
    using that by (simp add: operations_ok_def operation_refs_def refers_def approval_row_def active_write_def waiting_import_def
        nullif_empty_def no_resource_def codex_session_def session_db_def sample_db_def empty_db_def sample_thread_def)
  have "operations ?d = []" and hd: "a_thread_id (hd (approvals ?d)) = ''t''" "a_id (hd (approvals ?d)) = ''p''"
    by (simp_all add: codex_session_def session_db_def sample_db_def empty_db_def)
  then have "\<exists>d. decideApproval ''p'' ''approved'' [] ''x1'' 9 ?d = Inr (''x1'', d)"
    unfolding decideApproval_def
    by (simp add: sample_approval refuse_def fits ResolveApprovalAndQueue_def Let_def len require_def insert_operation_def store_operations_def row
        decision_answer_def)
  then obtain d where d: "decideApproval ''p'' ''approved'' [] ''x1'' 9 ?d = Inr (''x1'', d)" by blast
  then obtain c srv where "ResolveApprovalAndQueue ''p'' srv ''approved'' c ''x1'' 9 ?d = Inr (''x1'', d)" by (rule decide_Inr)
  from resolve_Inr(1)[OF this] show ?thesis
    by (intro that[OF d]) (simp_all add: decided_def codex_session_def)
qed

lemma decision_is_final_witness:
  "\<exists>oid d. decideApproval ''p'' ''approved'' [] ''x1'' 9 (base codex_session) = Inr (oid, d) \<and>
     (\<forall>b \<in> set (approvals d). a_id b = ''p'' \<longrightarrow> a_status b = ''resolved'' \<and> a_decision b = Some ''approved'')"
proof -
  obtain oid d where d: "decideApproval ''p'' ''approved'' [] ''x1'' 9 (base codex_session) = Inr (oid, d)" by (rule sample_decision)
  have "distinct (map a_id (approvals (base codex_session)))" by (simp add: codex_session_def)
  from decision_is_final[OF this d] show ?thesis using d by blast
qed

text \<open>The Agent uses the number of the request again, with another command.\<close>

lemma sample_asked_again:
  assumes "map a_id (approvals d) = [''p'']" "map a_thread_id (approvals d) = [''t'']"
    "map a_request_id (approvals d) = [''0'']" "map a_detail (approvals d) = [JsonText JNull]"
    "threads d = threads (base codex_session)" "workspaces d = workspaces (base codex_session)"
  obtains d2 b where "upsertApproval asked_again ''p2'' 20 d = Inr d2" "operations d2 = operations d" "map a_id (approvals d2) = [''p'']"
    "map a_status (approvals d2) = [''pending'']" "pending_approval ''p'' 30 d2 = Inr (b, ''s1'')" "decision_fits b ''denied'' [] = Inr ()"
proof -
  obtain a where a: "approvals d = [a]" "a_id a = ''p''" "a_thread_id a = ''t''" "a_request_id a = ''0''" "a_detail a = JsonText JNull"
    using assms(1-4) by (cases "approvals d") auto
  let ?b = "renewed_approval ''exec'' (JsonText (JStr ''ps aux'')) (20 + 900 * ns_second) a"
  let ?d2 = "d\<lparr>approvals := [?b]\<rparr>"
  have up: "upsertApproval asked_again ''p2'' 20 d = Inr ?d2"
    using a by (simp add: upsertApproval_def asked_again_def new_event_def str_field_def scalar_field_def raw_field_def json_entry_def store_approval_def)
  have b: "a_id ?b = ''p''" "a_status ?b = ''pending''" "a_thread_id ?b = ''t''" "a_kind ?b = ''exec''" "a_expires_at ?b = 20 + 900 * ns_second"
    using a by (simp_all add: renewed_approval_def)
  have "pending_approval ''p'' 30 ?d2 = Inr (?b, ''s1'')"
    using b assms(5,6) by (simp add: pending_approval_def find_row_def codex_session_def session_db_def sample_db_def empty_db_def sample_thread_def ns_second_def)
  moreover have "decision_fits ?b ''denied'' [] = Inr ()" using b by (simp add: decision_fits_def UserInputRequestMethod_def)
  ultimately show ?thesis using that[OF up, of ?b] b by simp
qed

lemma reopened_request_stuck_witness:
  "\<exists>oid d d2. decideApproval ''p'' ''approved'' [] ''x1'' 9 (base codex_session) = Inr (oid, d) \<and>
     upsertApproval asked_again ''p2'' 20 d = Inr d2 \<and> map a_status (approvals d2) = [''pending''] \<and>
     decideApproval ''p'' ''denied'' [] ''x2'' 30 d2 = Inl (HttpError 500 ''could not send approval decision'')"
proof -
  obtain oid d where d: "decideApproval ''p'' ''approved'' [] ''x1'' 9 (base codex_session) = Inr (oid, d)"
    and rows: "map a_id (approvals d) = [''p'']" "map a_status (approvals d) = [''resolved'']" "map a_thread_id (approvals d) = [''t'']"
    "map a_request_id (approvals d) = [''0'']" "map a_detail (approvals d) = [JsonText JNull]"
    "threads d = threads (base codex_session)" "workspaces d = workspaces (base codex_session)" by (rule sample_decision)
  from rows(1,3-7) obtain d2 b where d2: "upsertApproval asked_again ''p2'' 20 d = Inr d2" "operations d2 = operations d"
      "map a_id (approvals d2) = [''p'']" "map a_status (approvals d2) = [''pending'']"
    and b: "pending_approval ''p'' 30 d2 = Inr (b, ''s1'')" "decision_fits b ''denied'' [] = Inr ()" by (rule sample_asked_again)
  have "\<forall>o1 \<in> set (operations d). \<exists>o2 \<in> set (operations d2). o_idempotency_key o2 = o_idempotency_key o1" using d2(2) by auto
  moreover have "distinct (map a_id (approvals d2))" unfolding d2(3) by simp
  ultimately have "decideApproval ''p'' ''denied'' [] ''x2'' 30 d2 = Inl (HttpError 500 ''could not send approval decision'')"
    using reopened_request_stuck[OF d _ _ b(1) _ b(2)] by simp
  with d d2(1,4) show ?thesis by (intro exI conjI)
qed

lemma sample_questions:
  "decode_questions (Some sample_question) = Some [\<lparr>q_ID = ''q'', q_MultiSelect = False, q_IsOther = False, q_Labels = [''yes'']\<rparr>]"
  by (simp add: decode_questions_def sample_question_def array_field_def raw_field_def json_entry_def decode_question_def decode_option_def
      strs3_def str_field_def bool_field_def scalar_field_def)

lemma answers_accepted_iff_witness:
  "ValidateUserInputAnswers (Some sample_question) [(''q'', [''yes''])] = Inr () \<and>
   ValidateUserInputAnswers (Some sample_question) [(''q'', [''no''])] \<noteq> Inr ()"
proof -
  have blank: "trim_space ''yes'' \<noteq> []" by code_simp
  have "ValidateUserInputAnswers (Some sample_question) [(''q'', [v])] = Inr () \<longleftrightarrow>
      answers_fit [\<lparr>q_ID = ''q'', q_MultiSelect = False, q_IsOther = False, q_Labels = [''yes'']\<rparr>] [(''q'', [v])]" for v
    by (rule answers_accepted_iff[OF sample_questions]) simp_all
  then show ?thesis using blank by (simp add: answers_fit_def well_answered_def)
qed

end
