(* ===== verification/Gateway_Alerts.thy ===== *)
theory Gateway_Alerts
  imports Gateway_Codex Complex_Main
begin

text \<open>
  The alerts of the gateway, \<open>evaluateMetrics\<close> and \<open>evaluateOperationLatency\<close> of
  internal/agentgateway/gateway.go: the third breach in a row opens an alert, a value in bounds resolves it.
  The counters are in the memory of the gateway and start at zero with it, the alerts are a table; errors of
  its statements are dropped. A value of the Agent is a finite \<open>float64\<close>, here the rational it stands for.
\<close>

section \<open>State\<close>

record Alert_row =
  al_id :: string
  al_server_id :: string
  al_kind :: string
  al_severity :: string
  al_title :: string
  al_detail :: string
  al_status :: string
  al_resolved_at :: "instant option"

text \<open>A counter that is missing in the map of maps reads as zero.\<close>

record monitor =
  mo_servers :: "string list"
  mo_alerts :: "Alert_row list"
  metricBreaches :: "string \<Rightarrow> string \<Rightarrow> nat"

definition open_for :: "string \<Rightarrow> string \<Rightarrow> Alert_row \<Rightarrow> bool" where
  "open_for srv kind a \<longleftrightarrow> al_server_id a = srv \<and> al_kind a = kind \<and> al_status a = ''open''"

definition resolve_alerts :: "string \<Rightarrow> string \<Rightarrow> instant \<Rightarrow> monitor \<Rightarrow> monitor" where
  "resolve_alerts srv kind now m = m\<lparr>mo_alerts := map (\<lambda>a. if open_for srv kind a
     then a\<lparr>al_status := ''resolved'', al_resolved_at := Some now\<rparr> else a) (mo_alerts m)\<rparr>"

definition set_breaches :: "string \<Rightarrow> string \<Rightarrow> nat \<Rightarrow> monitor \<Rightarrow> monitor" where
  "set_breaches srv kind n m = m\<lparr>metricBreaches := (metricBreaches m)(srv := (metricBreaches m srv)(kind := n))\<rparr>"

text \<open>An insertion that violates the primary key or has no server is dropped.\<close>

definition open_alert :: "string \<Rightarrow> string \<Rightarrow> string \<Rightarrow> string \<Rightarrow> string \<Rightarrow> string \<Rightarrow> monitor \<Rightarrow> monitor" where
  "open_alert newID srv kind severity title detail m =
     (if list_ex (open_for srv kind) (mo_alerts m) \<or> newID \<in> set (map al_id (mo_alerts m)) \<or> srv \<notin> set (mo_servers m) then m
      else m\<lparr>mo_alerts := mo_alerts m @ [\<lparr>al_id = newID, al_server_id = srv, al_kind = kind, al_severity = severity,
             al_title = title, al_detail = detail, al_status = ''open'', al_resolved_at = None\<rparr>]\<rparr>)"

section \<open>Metrics\<close>

record Metrics =
  CPUPercent :: rat
  MemoryPercent :: rat
  DiskPercent :: rat

definition metric_kinds :: "string list" where
  "metric_kinds = [''cpu_high'', ''memory_high'', ''disk_high'']"

definition metric_hit :: "Metrics \<Rightarrow> string \<Rightarrow> bool" where
  "metric_hit m kind =
     (if kind = ''cpu_high'' then 90 \<le> CPUPercent m else if kind = ''memory_high'' then 90 \<le> MemoryPercent m else 90 \<le> DiskPercent m)"

definition metric_severity :: "string \<Rightarrow> string" where
  "metric_severity kind = (if kind = ''disk_high'' then ''critical'' else ''warning'')"

definition metric_title :: "string \<Rightarrow> string" where
  "metric_title kind =
     (if kind = ''cpu_high'' then ''CPU usage above 90%'' else if kind = ''memory_high'' then ''Memory usage above 90%''
      else ''Disk usage above 90%'')"

definition metric_step :: "string \<Rightarrow> string \<Rightarrow> instant \<Rightarrow> string \<Rightarrow> bool \<Rightarrow> string \<Rightarrow> monitor \<Rightarrow> monitor" where
  "metric_step newID detail now srv hit kind m =
     (let m1 = (if hit then set_breaches srv kind (metricBreaches m srv kind + 1) m
                else resolve_alerts srv kind now (set_breaches srv kind 0 m)) in
      if metricBreaches m1 srv kind = 3 then open_alert newID srv kind (metric_severity kind) (metric_title kind) detail m1 else m1)"

text \<open>The loop over the map of checks takes them in any order.\<close>

definition evaluateMetrics :: "(string \<Rightarrow> string) \<Rightarrow> string list \<Rightarrow> instant \<Rightarrow> string \<Rightarrow> Metrics \<Rightarrow> monitor \<Rightarrow> monitor" where
  "evaluateMetrics newID order now srv values m =
     fold (\<lambda>kind. metric_step (newID kind) [] now srv (metric_hit values kind) kind) order m"

section \<open>Latency\<close>

text \<open>\<open>Duration.Milliseconds\<close> cuts toward zero.\<close>

definition milliseconds :: "duration \<Rightarrow> int" where
  "milliseconds t = sgn t * (\<bar>t\<bar> div 1000000)"

definition latency_kinds :: "string list" where
  "latency_kinds = [''agent_queue_latency'', ''agent_execution_latency'']"

definition queue_wait :: "Operation \<Rightarrow> instant \<Rightarrow> duration" where
  "queue_wait op delivered = delivered - o_created_at op"

definition execution_time :: "Operation \<Rightarrow> instant \<Rightarrow> instant \<Rightarrow> duration" where
  "execution_time op delivered now =
     (let start = (case o_started_at op of None \<Rightarrow> delivered | Some t \<Rightarrow> t) in
      case o_completed_at op of None \<Rightarrow> now - start | Some t \<Rightarrow> t - start)"

definition latency_hit :: "Operation \<Rightarrow> instant \<Rightarrow> instant \<Rightarrow> string \<Rightarrow> bool" where
  "latency_hit op delivered now kind =
     (if kind = ''agent_queue_latency'' then 2 * ns_second \<le> queue_wait op delivered
      else 30 * ns_second \<le> execution_time op delivered now)"

definition latency_title :: "string \<Rightarrow> string" where
  "latency_title kind =
     (if kind = ''agent_queue_latency'' then ''Agent queue wait above 2 seconds'' else ''Agent execution above 30 seconds'')"

definition latency_detail :: "Operation \<Rightarrow> instant \<Rightarrow> instant \<Rightarrow> string" where
  "latency_detail op delivered now =
     ''operation='' @ o_kind op @ '' queue_wait_ms='' @ decimal (milliseconds (queue_wait op delivered)) @
     '' execution_ms='' @ decimal (milliseconds (execution_time op delivered now))"

definition latency_step :: "string \<Rightarrow> string \<Rightarrow> instant \<Rightarrow> string \<Rightarrow> bool \<Rightarrow> string \<Rightarrow> monitor \<Rightarrow> monitor" where
  "latency_step newID detail now srv hit kind m =
     (if \<not> hit
      then (let m1 = set_breaches srv kind 0 m in
            if 0 < metricBreaches m srv kind then resolve_alerts srv kind now m1 else m1)
      else (let m1 = set_breaches srv kind (metricBreaches m srv kind + 1) m in
            if metricBreaches m1 srv kind \<noteq> 3 then m1
            else open_alert newID srv kind ''warning'' (latency_title kind) detail m1))"

definition evaluateOperationLatency :: "(string \<Rightarrow> string) \<Rightarrow> string list \<Rightarrow> instant \<Rightarrow> string \<Rightarrow> Operation \<Rightarrow> monitor \<Rightarrow> monitor" where
  "evaluateOperationLatency newID order now srv op m =
     (case o_delivered_at op of
        None \<Rightarrow> m
      | Some delivered \<Rightarrow>
          fold (\<lambda>kind. latency_step (newID kind) (latency_detail op delivered now) now srv (latency_hit op delivered now kind) kind) order m)"

section \<open>The contract of a check\<close>

text \<open>
  A check counts, and while its counter and its alert agree (\<open>agrees\<close>: exactly one open alert from the third
  breach on, none before) a breach and a value in bounds keep them so; nothing of other checks changes.
\<close>

definition open_count :: "string \<Rightarrow> string \<Rightarrow> monitor \<Rightarrow> nat" where
  "open_count srv kind m = length (filter (open_for srv kind) (mo_alerts m))"

definition agrees :: "monitor \<Rightarrow> bool" where
  "agrees m \<longleftrightarrow> (\<forall>srv kind. open_count srv kind m = (if 3 \<le> metricBreaches m srv kind then 1 else 0))"

definition fresh_for :: "string \<Rightarrow> string \<Rightarrow> monitor \<Rightarrow> bool" where
  "fresh_for newID srv m \<longleftrightarrow> newID \<notin> set (map al_id (mo_alerts m)) \<and> srv \<in> set (mo_servers m)"

definition counted :: "string \<Rightarrow> string \<Rightarrow> bool \<Rightarrow> monitor \<Rightarrow> monitor \<Rightarrow> bool" where
  "counted srv kind hit m m' \<longleftrightarrow> mo_servers m' = mo_servers m \<and>
     metricBreaches m' = (metricBreaches m)(srv := (metricBreaches m srv)(kind := if hit then metricBreaches m srv kind + 1 else 0))"

type_synonym check_of = "string \<Rightarrow> string \<Rightarrow> instant \<Rightarrow> string \<Rightarrow> bool \<Rightarrow> string \<Rightarrow> monitor \<Rightarrow> monitor"

definition evaluation :: "check_of \<Rightarrow> (string \<Rightarrow> string) \<Rightarrow> string \<Rightarrow> string list \<Rightarrow> instant \<Rightarrow> string \<Rightarrow> (string \<Rightarrow> bool) \<Rightarrow> monitor \<Rightarrow> monitor" where
  "evaluation step newID detail order now srv hit m = fold (\<lambda>kind. step (newID kind) detail now srv (hit kind) kind) order m"

lemma disjoint_sub: "A \<subseteq> B \<Longrightarrow> C \<inter> B = {} \<Longrightarrow> C \<inter> A = {}"
  by blast

lemma disjoint_insert_sub: "A \<subseteq> insert x B \<Longrightarrow> x \<notin> C \<Longrightarrow> C \<inter> B = {} \<Longrightarrow> C \<inter> A = {}"
  by blast

locale check =
  fixes step :: check_of
  assumes step_counts: "counted srv kind hit m (step newID detail now srv hit kind m)"
    and step_agrees: "agrees m \<Longrightarrow> fresh_for newID srv m \<Longrightarrow> agrees (step newID detail now srv hit kind m)"
    and step_ids: "set (map al_id (mo_alerts (step newID detail now srv hit kind m))) \<subseteq> insert newID (set (map al_id (mo_alerts m)))"
begin

lemma evaluation_servers: "mo_servers (evaluation step newID detail order now srv hit m) = mo_servers m"
  using step_counts by (induction order arbitrary: m) (simp_all add: evaluation_def counted_def)

lemma evaluation_ids:
  "set (map al_id (mo_alerts (evaluation step newID detail order now srv hit m))) \<subseteq> newID ` set order \<union> set (map al_id (mo_alerts m))"
proof (induction order arbitrary: m)
  case (Cons kind order)
  let ?m = "step (newID kind) detail now srv (hit kind) kind m"
  show ?case
    using Cons.IH[of ?m] step_ids[of "newID kind" detail now srv "hit kind" kind m] by (auto simp: evaluation_def)
qed (simp add: evaluation_def)

lemma evaluation_agrees:
  assumes "agrees m" and "srv \<in> set (mo_servers m)" and "distinct (map newID order)"
    and "newID ` set order \<inter> set (map al_id (mo_alerts m)) = {}"
  shows "agrees (evaluation step newID detail order now srv hit m)"
  using assms
proof (induction order arbitrary: m)
  case (Cons kind order)
  let ?m = "step (newID kind) detail now srv (hit kind) kind m"
  have "agrees ?m" using Cons.prems by (intro step_agrees) (auto simp: fresh_for_def)
  moreover have "srv \<in> set (mo_servers ?m)" using step_counts Cons.prems(2) by (simp add: counted_def)
  moreover have "newID ` set order \<inter> set (map al_id (mo_alerts ?m)) = {}"
    by (rule disjoint_insert_sub[OF step_ids]) (use Cons.prems(3,4) in auto)
  ultimately show ?case using Cons.IH[of ?m] Cons.prems(3) by (simp add: evaluation_def)
qed (simp add: evaluation_def)

text \<open>Whatever the order, every check of the evaluation counts once and no other counter moves.\<close>

lemma evaluation_breaches:
  "distinct order \<Longrightarrow> metricBreaches (evaluation step newID detail order now srv hit m) srv' kind =
     (if srv' = srv \<and> kind \<in> set order then (if hit kind then metricBreaches m srv kind + 1 else 0) else metricBreaches m srv' kind)"
proof (induction order arbitrary: m)
  case (Cons k order)
  let ?m = "step (newID k) detail now srv (hit k) k m"
  show ?case using Cons.IH[of ?m] Cons.prems step_counts[of srv k "hit k" m] by (simp add: evaluation_def counted_def)
qed (simp add: evaluation_def)

end

section \<open>Both checks keep the contract\<close>

lemma resolve_alerts_sel [simp]:
  "mo_servers (resolve_alerts srv kind now m) = mo_servers m" "metricBreaches (resolve_alerts srv kind now m) = metricBreaches m"
  "map al_id (mo_alerts (resolve_alerts srv kind now m)) = map al_id (mo_alerts m)"
  by (simp_all add: resolve_alerts_def)

lemma set_breaches_sel [simp]:
  "mo_servers (set_breaches srv kind n m) = mo_servers m" "mo_alerts (set_breaches srv kind n m) = mo_alerts m"
  "metricBreaches (set_breaches srv kind n m) = (metricBreaches m)(srv := (metricBreaches m srv)(kind := n))"
  by (simp_all add: set_breaches_def)

lemma open_alert_sel [simp]:
  "mo_servers (open_alert newID srv kind sev title detail m) = mo_servers m"
  "metricBreaches (open_alert newID srv kind sev title detail m) = metricBreaches m"
  by (simp_all add: open_alert_def)

lemma open_alert_ids:
  "mo_alerts m1 = mo_alerts m \<Longrightarrow>
   set (map al_id (mo_alerts (open_alert newID srv kind sev title detail m1))) \<subseteq> insert newID (set (map al_id (mo_alerts m)))"
  by (auto simp: open_alert_def)

lemma open_count_set [simp]: "open_count srv kind (set_breaches s k n m) = open_count srv kind m"
  by (simp add: open_count_def)

lemma resolve_open_for:
  "open_for srv kind (if open_for s k a then a\<lparr>al_status := ''resolved'', al_resolved_at := t\<rparr> else a) \<longleftrightarrow>
   open_for srv kind a \<and> \<not> (srv = s \<and> kind = k)"
proof (cases "open_for s k a")
  case True
  then show ?thesis by (auto simp: open_for_def)
next
  case False
  then show ?thesis by (auto simp: open_for_def)
qed

lemma open_count_resolve: "open_count srv kind (resolve_alerts s k now m) = (if srv = s \<and> kind = k then 0 else open_count srv kind m)"
  by (simp add: open_count_def resolve_alerts_def filter_map comp_def resolve_open_for)

lemma open_count_open:
  assumes "fresh_for newID srv m"
  shows "open_count s k (open_alert newID srv kind sev title detail m) =
    (if s = srv \<and> k = kind \<and> open_count srv kind m = 0 then 1 else open_count s k m)"
  using assms by (auto simp: open_count_def open_alert_def fresh_for_def open_for_def list_ex_iff filter_empty_conv)

lemma fresh_for_set [simp]: "fresh_for newID srv (set_breaches s k n m) = fresh_for newID srv m"
  by (simp add: fresh_for_def)

lemma agrees_after:
  assumes "agrees m" and "counted srv kind hit m m'"
    and "\<And>s k. s \<noteq> srv \<or> k \<noteq> kind \<Longrightarrow> open_count s k m' = open_count s k m"
    and "open_count srv kind m' = (if hit \<and> 2 \<le> metricBreaches m srv kind then 1 else 0)"
  shows "agrees m'"
  unfolding agrees_def
proof (intro allI)
  fix s k
  show "open_count s k m' = (if 3 \<le> metricBreaches m' s k then 1 else 0)"
  proof (cases "s = srv \<and> k = kind")
    case True
    then show ?thesis using assms(2,4) by (auto simp: counted_def)
  next
    case False
    then have "metricBreaches m' s k = metricBreaches m s k" using assms(2) by (auto simp: counted_def)
    then show ?thesis using False assms(1,3) by (simp add: agrees_def)
  qed
qed

lemma agrees_open: "agrees m \<Longrightarrow> open_count srv kind m = (if 3 \<le> metricBreaches m srv kind then 1 else 0)"
  by (simp add: agrees_def)

lemma metric_counted: "counted srv kind hit m (metric_step newID detail now srv hit kind m)"
  by (simp add: metric_step_def Let_def counted_def)

lemma latency_counted: "counted srv kind hit m (latency_step newID detail now srv hit kind m)"
  by (simp add: latency_step_def Let_def counted_def)

lemma metric_open:
  assumes "agrees m" and "fresh_for newID srv m"
  shows "open_count s k (metric_step newID detail now srv hit kind m) =
    (if s = srv \<and> k = kind then (if hit \<and> 2 \<le> metricBreaches m srv kind then 1 else 0) else open_count s k m)"
proof (cases hit)
  case True
  then show ?thesis
    using assms(2) by (simp add: metric_step_def Let_def open_count_open agrees_open[OF assms(1)])
next
  case False
  then show ?thesis by (simp add: metric_step_def Let_def open_count_resolve)
qed

lemma latency_open:
  assumes "agrees m" and "fresh_for newID srv m"
  shows "open_count s k (latency_step newID detail now srv hit kind m) =
    (if s = srv \<and> k = kind then (if hit \<and> 2 \<le> metricBreaches m srv kind then 1 else 0) else open_count s k m)"
proof (cases hit)
  case True
  then show ?thesis
    using assms(2) by (simp add: latency_step_def Let_def open_count_open agrees_open[OF assms(1)])
next
  case False
  then show ?thesis by (simp add: latency_step_def Let_def open_count_resolve agrees_open[OF assms(1)])
qed

interpretation metric: check metric_step
proof
  show "counted srv kind hit m (metric_step newID detail now srv hit kind m)" for srv kind hit m newID detail now
    by (rule metric_counted)
  show "set (map al_id (mo_alerts (metric_step newID detail now srv hit kind m))) \<subseteq> insert newID (set (map al_id (mo_alerts m)))"
    for srv kind hit m newID detail now
    by (simp add: metric_step_def Let_def open_alert_ids subset_insertI del: set_map)
  show "agrees (metric_step newID detail now srv hit kind m)" if "agrees m" "fresh_for newID srv m" for srv kind hit m newID detail now
    by (rule agrees_after[OF that(1) metric_counted]) (auto simp: metric_open[OF that])
qed

interpretation latency: check latency_step
proof
  show "counted srv kind hit m (latency_step newID detail now srv hit kind m)" for srv kind hit m newID detail now
    by (rule latency_counted)
  show "set (map al_id (mo_alerts (latency_step newID detail now srv hit kind m))) \<subseteq> insert newID (set (map al_id (mo_alerts m)))"
    for srv kind hit m newID detail now
    by (simp add: latency_step_def Let_def open_alert_ids subset_insertI del: set_map)
  show "agrees (latency_step newID detail now srv hit kind m)" if "agrees m" "fresh_for newID srv m" for srv kind hit m newID detail now
    by (rule agrees_after[OF that(1) latency_counted]) (auto simp: latency_open[OF that])
qed

section \<open>Alerts and the history\<close>

text \<open>
  What the gateway is told: samples of the metrics of a server and results of its operations, each with the
  order of the checks, the identifiers of new alerts and the time of the evaluation.
\<close>

datatype observation = Sample string Metrics | Finished string Operation

type_synonym evaluated = "observation \<times> string list \<times> (string \<Rightarrow> string) \<times> instant"

fun observe :: "evaluated \<Rightarrow> monitor \<Rightarrow> monitor" where
  "observe (Sample srv v, order, newID, now) m = evaluateMetrics newID order now srv v m"
| "observe (Finished srv op, order, newID, now) m = evaluateOperationLatency newID order now srv op m"

text \<open>The specification looks at the history only: the value of a check in an observation, and how many breaches end it.\<close>

fun observed :: "string \<Rightarrow> string \<Rightarrow> evaluated \<Rightarrow> bool option" where
  "observed srv kind (Sample s v, order, newID, now) =
     (if s = srv \<and> kind \<in> set metric_kinds then Some (metric_hit v kind) else None)"
| "observed srv kind (Finished s op, order, newID, now) =
     (case o_delivered_at op of
        None \<Rightarrow> None
      | Some t \<Rightarrow> if s = srv \<and> kind \<in> set latency_kinds then Some (latency_hit op t now kind) else None)"

definition streak :: "string \<Rightarrow> string \<Rightarrow> evaluated list \<Rightarrow> nat" where
  "streak srv kind es = length (takeWhile id (rev (List.map_filter (observed srv kind) es)))"

fun server_of :: "observation \<Rightarrow> string" where
  "server_of (Sample s v) = s"
| "server_of (Finished s op) = s"

fun kinds_of :: "observation \<Rightarrow> string list" where
  "kinds_of (Sample s v) = metric_kinds"
| "kinds_of (Finished s op) = latency_kinds"

definition ids_of :: "evaluated \<Rightarrow> string list" where
  "ids_of e = (case e of (ob, order, newID, now) \<Rightarrow> map newID order)"

definition possible :: "string list \<Rightarrow> evaluated \<Rightarrow> bool" where
  "possible known e \<longleftrightarrow> (case e of (ob, order, newID, now) \<Rightarrow> server_of ob \<in> set known \<and> distinct order \<and> set order = set (kinds_of ob))"

lemma streak_snoc:
  "streak srv kind (es @ [e]) = (case observed srv kind e of None \<Rightarrow> streak srv kind es | Some hit \<Rightarrow> if hit then streak srv kind es + 1 else 0)"
  by (simp add: streak_def List.map_filter_def split: option.split)

lemma observe_evaluation:
  "observe (Sample srv v, order, newID, now) m = evaluation metric_step newID [] order now srv (metric_hit v) m"
  "o_delivered_at op = Some t \<Longrightarrow>
   observe (Finished srv op, order, newID, now) m = evaluation latency_step newID (latency_detail op t now) order now srv (latency_hit op t now) m"
  "o_delivered_at op = None \<Longrightarrow> observe (Finished srv op, order, newID, now) m = m"
  by (simp_all add: evaluateMetrics_def evaluateOperationLatency_def evaluation_def)

lemma observe_step:
  assumes "possible (mo_servers m) e" and "agrees m" and "distinct (ids_of e)" and "set (ids_of e) \<inter> set (map al_id (mo_alerts m)) = {}"
  shows "agrees (observe e m) \<and> mo_servers (observe e m) = mo_servers m \<and>
    set (map al_id (mo_alerts (observe e m))) \<subseteq> set (ids_of e) \<union> set (map al_id (mo_alerts m)) \<and>
    metricBreaches (observe e m) srv kind =
      (case observed srv kind e of None \<Rightarrow> metricBreaches m srv kind | Some hit \<Rightarrow> if hit then metricBreaches m srv kind + 1 else 0)"
proof -
  obtain ob order newID now where e: "e = (ob, order, newID, now)" by (rule prod_cases4)
  have order: "distinct order" "set order = set (kinds_of ob)" and srv: "server_of ob \<in> set (mo_servers m)"
    using assms(1) by (auto simp: possible_def e)
  have ids: "distinct (map newID order)" "newID ` set order \<inter> set (map al_id (mo_alerts m)) = {}"
    using assms(3,4) by (simp_all add: ids_of_def e)
  show ?thesis
  proof (cases ob)
    case (Sample s v)
    show ?thesis
      using metric.evaluation_agrees[OF assms(2) _ ids, where srv = s and detail = "[]" and now = now and hit = "metric_hit v"] srv order
        metric.evaluation_servers metric.evaluation_breaches[OF order(1)]
        metric.evaluation_ids[of newID "[]" order now s "metric_hit v" m]
      by (auto simp: e Sample observe_evaluation(1) ids_of_def simp del: observe.simps)
  next
    case (Finished s op)
    show ?thesis
    proof (cases "o_delivered_at op")
      case None
      then show ?thesis using assms(2) by (simp add: e Finished observe_evaluation(3) del: observe.simps)
    next
      case (Some t)
      show ?thesis
        using latency.evaluation_agrees[OF assms(2) _ ids, where srv = s and detail = "latency_detail op t now" and now = now and hit = "latency_hit op t now"]
          srv order latency.evaluation_servers latency.evaluation_breaches[OF order(1)]
          latency.evaluation_ids[of newID "latency_detail op t now" order now s "latency_hit op t now" m]
        by (auto simp: e Finished Some observe_evaluation(2)[OF Some] ids_of_def simp del: observe.simps)
    qed
  qed
qed

definition started :: "string list \<Rightarrow> Alert_row list \<Rightarrow> monitor" where
  "started known rows = \<lparr>mo_servers = known, mo_alerts = rows, metricBreaches = (\<lambda>_ _. 0)\<rparr>"

definition told :: "evaluated list \<Rightarrow> monitor \<Rightarrow> monitor" where
  "told es m = fold observe es m"

lemma told_snoc [simp]: "told (es @ [e]) m = observe e (told es m)" and told_Nil [simp]: "told [] m = m"
  by (simp_all add: told_def)

lemma told_invariant:
  assumes "\<forall>e \<in> set es. possible known e" and "distinct (concat (map ids_of es))"
  shows "agrees (told es (started known [])) \<and> mo_servers (told es (started known [])) = known \<and>
    set (map al_id (mo_alerts (told es (started known [])))) \<subseteq> set (concat (map ids_of es)) \<and>
    (\<forall>srv kind. metricBreaches (told es (started known [])) srv kind = streak srv kind es)"
  using assms
proof (induction es rule: rev_induct)
  case Nil
  then show ?case by (simp add: started_def agrees_def open_count_def streak_def List.map_filter_def)
next
  case (snoc e es)
  let ?m = "told es (started known [])"
  have IH: "agrees ?m" "mo_servers ?m = known" "set (map al_id (mo_alerts ?m)) \<subseteq> set (concat (map ids_of es))"
    "\<forall>srv kind. metricBreaches ?m srv kind = streak srv kind es"
    using snoc.IH snoc.prems by (simp_all del: set_map set_concat)
  have "possible (mo_servers ?m) e" using snoc.prems(1) IH(2) by simp
  moreover have "distinct (ids_of e)" using snoc.prems(2) by simp
  moreover have "set (ids_of e) \<inter> set (map al_id (mo_alerts ?m)) = {}"
    by (rule disjoint_sub[OF IH(3)]) (use snoc.prems(2) in auto)
  ultimately have step: "agrees (observe e ?m) \<and> mo_servers (observe e ?m) = mo_servers ?m \<and>
    set (map al_id (mo_alerts (observe e ?m))) \<subseteq> set (ids_of e) \<union> set (map al_id (mo_alerts ?m)) \<and>
    metricBreaches (observe e ?m) srv kind =
      (case observed srv kind e of None \<Rightarrow> metricBreaches ?m srv kind | Some hit \<Rightarrow> if hit then metricBreaches ?m srv kind + 1 else 0)"
    for srv kind
    by (intro observe_step IH(1))
  then have "metricBreaches (observe e ?m) srv kind = streak srv kind (es @ [e])" for srv kind
    using IH(4) by (simp add: streak_snoc split: option.split)
  moreover have "set (map al_id (mo_alerts (observe e ?m))) \<subseteq> set (concat (map ids_of (es @ [e])))"
    using subset_trans[OF step[THEN conjunct2, THEN conjunct2, THEN conjunct1] Un_mono[OF subset_refl IH(3)]]
    by (simp del: set_map add: Un_commute)
  ultimately show ?case using step IH(2) by (simp del: set_map set_concat)
qed

text \<open>
  C25: The alerts are what the history says: after any sequence of metric samples and results of operations
  of any servers, evaluated in any order of the checks since the gateway started, a check of a server has
  exactly one open alert when the last three or more of its values were breaches, and none otherwise.
\<close>

theorem alerts_follow_history:
  assumes "\<forall>e \<in> set es. possible known e" and "distinct (concat (map ids_of es))"
  shows "open_count srv kind (told es (started known [])) = (if 3 \<le> streak srv kind es then 1 else 0)"
  using told_invariant[OF assms] by (simp add: agrees_def)

section \<open>Restarts\<close>

text \<open>What one step does to the alerts of any check, without assuming that counters and alerts agree.\<close>

lemma open_count_open_other:
  "s \<noteq> srv \<or> k \<noteq> kind \<Longrightarrow> open_count s k (open_alert newID srv kind sev title detail m) = open_count s k m"
  by (auto simp: open_count_def open_alert_def open_for_def)

lemma step_other:
  assumes "s \<noteq> srv \<or> k \<noteq> kind"
  shows "open_count s k (metric_step newID detail now srv hit kind m) = open_count s k m"
    and "open_count s k (latency_step newID detail now srv hit kind m) = open_count s k m"
  using assms by (auto simp: metric_step_def latency_step_def Let_def open_count_open_other open_count_resolve)

lemma evaluation_other:
  assumes "\<And>newID detail now srv hit kind m. s \<noteq> srv \<or> k \<noteq> kind \<Longrightarrow> open_count s k (step newID detail now srv hit kind m) = open_count s k m"
    and "s \<noteq> srv \<or> k \<notin> set order"
  shows "open_count s k (evaluation step newID detail order now srv hit m) = open_count s k m"
  using assms(2) by (induction order arbitrary: m) (auto simp: evaluation_def assms(1))

lemma latency_in_bounds:
  assumes "distinct order" and "\<not> hit k" and "metricBreaches m srv k = 0"
  shows "open_count srv k (evaluation latency_step newID detail order now srv hit m) = open_count srv k m"
  using assms(1,3)
proof (induction order arbitrary: m)
  case (Cons kind order)
  let ?m = "latency_step (newID kind) detail now srv (hit kind) kind m"
  have "open_count srv k ?m = open_count srv k m"
    using step_other(2)[of srv srv k kind] assms(2) Cons.prems(2) by (cases "kind = k") (auto simp: latency_step_def Let_def)
  moreover have "metricBreaches ?m srv k = 0"
    using latency_counted[of srv kind "hit kind" m] Cons.prems(2) assms(2) by (auto simp: counted_def)
  ultimately show ?case using Cons.IH[of ?m] Cons.prems(1) by (simp add: evaluation_def)
qed (simp add: evaluation_def)

lemma kinds_apart: "kind \<in> set latency_kinds \<Longrightarrow> kind \<notin> set metric_kinds"
  by (auto simp: latency_kinds_def metric_kinds_def)

lemma observe_in_bounds:
  assumes "kind \<in> set latency_kinds" and "possible known e" and "observed srv kind e \<noteq> Some True" and "metricBreaches m srv kind = 0"
  shows "open_count srv kind (observe e m) = open_count srv kind m \<and> metricBreaches (observe e m) srv kind = 0"
proof -
  obtain ob order newID now where e: "e = (ob, order, newID, now)" by (rule prod_cases4)
  have order: "distinct order" "set order = set (kinds_of ob)" using assms(2) by (auto simp: possible_def e)
  show ?thesis
  proof (cases ob)
    case (Sample s v)
    have "kind \<notin> set order" using kinds_apart[OF assms(1)] order(2) by (simp add: Sample)
    then show ?thesis
      using assms(4) evaluation_other[of srv kind metric_step s order, OF step_other(1)] metric.evaluation_breaches[OF order(1)]
      by (simp add: e Sample observe_evaluation(1) del: observe.simps)
  next
    case (Finished s op)
    show ?thesis
    proof (cases "o_delivered_at op")
      case None
      then show ?thesis using assms(4) by (simp add: e Finished observe_evaluation(3) del: observe.simps)
    next
      case (Some t)
      have "\<not> latency_hit op t now kind" if "s = srv" using assms(1,3) that by (simp add: e Finished Some)
      then show ?thesis
        using assms(4) evaluation_other[of srv kind latency_step s order, OF step_other(2)] latency.evaluation_breaches[OF order(1)]
          latency_in_bounds[OF order(1), where k = kind and srv = srv and m = m and hit = "latency_hit op t now"]
        by (cases "s = srv") (simp_all add: e Finished observe_evaluation(2)[OF Some] del: observe.simps)
    qed
  qed
qed

text \<open>
  A restart of the gateway loses the counters but not the alerts, and then an open alert of latency is
  stuck: however many operations finish in time, on whatever servers, the alert is never resolved, because
  the code resolves it only when the lost counter is positive.
\<close>

theorem latency_alert_stuck_after_restart:
  assumes "kind \<in> set latency_kinds" and "\<forall>e \<in> set es. possible known e \<and> observed srv kind e \<noteq> Some True"
  shows "open_count srv kind (told es (started known rows)) = open_count srv kind (started known rows)"
proof -
  have "open_count srv kind (told es (started known rows)) = open_count srv kind (started known rows) \<and>
      metricBreaches (told es (started known rows)) srv kind = 0"
    using assms(2)
  proof (induction es rule: rev_induct)
    case Nil
    then show ?case by (simp add: started_def)
  next
    case (snoc e es)
    then show ?case using observe_in_bounds[OF assms(1), of known e srv "told es (started known rows)"] by simp
  qed
  then show ?thesis by simp
qed

section \<open>Sample\<close>

definition hot :: "nat \<Rightarrow> evaluated" where
  "hot n = (Sample ''s1'' \<lparr>CPUPercent = 95, MemoryPercent = 10, DiskPercent = 10\<rparr>, metric_kinds, (\<lambda>kind. replicate n CHR ''x'' @ kind), int n)"

lemma hot_ids: "distinct (concat (map ids_of [hot 1, hot 2, hot 3]))"
  by (simp add: hot_def ids_of_def metric_kinds_def numeral_eq_Suc)

lemma alerts_follow_history_witness:
  "open_count ''s1'' ''cpu_high'' (told [hot 1, hot 2, hot 3] (started [''s1''] [])) = 1 \<and>
   open_count ''s1'' ''disk_high'' (told [hot 1, hot 2, hot 3] (started [''s1''] [])) = 0"
proof -
  have run: "\<forall>e \<in> set [hot 1, hot 2, hot 3]. possible [''s1''] e" by (simp add: hot_def possible_def metric_kinds_def)
  have "streak ''s1'' ''cpu_high'' [hot 1, hot 2, hot 3] = 3" "streak ''s1'' ''disk_high'' [hot 1, hot 2, hot 3] = 0"
    by (auto simp: streak_def List.map_filter_def hot_def metric_kinds_def metric_hit_def)
  then show ?thesis using alerts_follow_history[OF run hot_ids] by simp
qed

definition slow_alert :: Alert_row where
  "slow_alert = \<lparr>al_id = ''a'', al_server_id = ''s1'', al_kind = ''agent_execution_latency'', al_severity = ''warning'', al_title = [],
     al_detail = [], al_status = ''open'', al_resolved_at = None\<rparr>"

definition fast_result :: evaluated where
  "fast_result = (Finished ''s1'' (sample_row\<lparr>o_delivered_at := Some 1, o_completed_at := Some 2\<rparr>), latency_kinds, (\<lambda>kind. kind), 3)"

lemma latency_alert_stuck_after_restart_witness:
  "open_count ''s1'' ''agent_execution_latency'' (told (replicate 5 fast_result) (started [''s1''] [slow_alert])) = 1"
proof -
  have "possible [''s1''] fast_result \<and> observed ''s1'' ''agent_execution_latency'' fast_result \<noteq> Some True"
    by (simp add: fast_result_def possible_def latency_kinds_def latency_hit_def execution_time_def sample_row_def ns_second_def split: option.split)
  then have "open_count ''s1'' ''agent_execution_latency'' (told (replicate 5 fast_result) (started [''s1''] [slow_alert])) =
      open_count ''s1'' ''agent_execution_latency'' (started [''s1''] [slow_alert])"
    by (intro latency_alert_stuck_after_restart[where known = "[''s1'']"]) (simp_all add: latency_kinds_def)
  then show ?thesis by (simp add: open_count_def started_def slow_alert_def open_for_def)
qed

end
