(* ===== verification/Go_Path.thy ===== *)
theory Go_Path
  imports Go_Strings "HOL-Library.Sublist"
begin

text \<open>
  The parts of Go's \<open>path/filepath\<close> that the agent's path checks use, for a Unix host:
  \<open>IsAbs\<close>, \<open>Clean\<close>, \<open>Join\<close>, \<open>Dir\<close>, \<open>Base\<close>, \<open>Abs\<close> and \<open>Rel\<close>. A path is a string; the functions work
  on its elements, the pieces between slashes. \<open>path_str\<close> writes the absolute path with given
  elements; the lemmas show that the lexical operations on cleaned absolute paths are the list
  operations on elements, and that "the relative path does not climb" is the prefix order.
\<close>

section \<open>Elements\<close>

definition is_abs :: "string \<Rightarrow> bool" where
  "is_abs p = has_prefix p ''/''"

fun join_slash :: "string list \<Rightarrow> string" where
  "join_slash [] = []"
| "join_slash [x] = x"
| "join_slash (x # y # ys) = x @ CHR ''/'' # join_slash (y # ys)"

definition plain_name :: "string \<Rightarrow> bool" where
  "plain_name e = (e \<noteq> [] \<and> CHR ''/'' \<notin> set e \<and> e \<noteq> ''.'' \<and> e \<noteq> ''..'')"

definition path_elems :: "string \<Rightarrow> string list" where
  "path_elems p = filter (\<lambda>e. e \<noteq> [] \<and> e \<noteq> ''.'') (split_on (CHR ''/'') p)"

text \<open>The elements that \<open>Clean\<close> keeps, newest first; \<open>..\<close> takes one back, except at the front.\<close>

definition clean_step :: "bool \<Rightarrow> string list \<Rightarrow> string \<Rightarrow> string list" where
  "clean_step rooted acc e =
     (if e = ''..'' then
        (case acc of
           [] \<Rightarrow> if rooted then [] else [''..'']
         | x # xs \<Rightarrow> if x = ''..'' then ''..'' # acc else xs)
      else e # acc)"

definition clean_elems :: "bool \<Rightarrow> string list \<Rightarrow> string list" where
  "clean_elems rooted es = rev (foldl (clean_step rooted) [] es)"

section \<open>The functions\<close>

definition path_str :: "string list \<Rightarrow> string" where
  "path_str es = CHR ''/'' # join_slash es"

definition path_clean :: "string \<Rightarrow> string" where
  "path_clean p =
     (let es = clean_elems (is_abs p) (path_elems p)
      in if is_abs p then path_str es else if es = [] then ''.'' else join_slash es)"

definition path_join :: "string list \<Rightarrow> string" where
  "path_join ps =
     (case filter (\<lambda>p. p \<noteq> []) ps of [] \<Rightarrow> [] | qs \<Rightarrow> path_clean (join_slash qs))"

definition path_dir :: "string \<Rightarrow> string" where
  "path_dir p = path_clean (rev (dropWhile (\<lambda>c. c \<noteq> CHR ''/'') (rev p)))"

definition path_base :: "string \<Rightarrow> string" where
  "path_base p =
     (if p = [] then ''.''
      else let q = rev (dropWhile (\<lambda>c. c = CHR ''/'') (rev p)) in
        if q = [] then ''/'' else last (split_on (CHR ''/'') q))"

definition path_abs :: "string \<Rightarrow> string \<Rightarrow> string" where
  "path_abs cwd p = (if is_abs p then path_clean p else path_join [cwd, p])"

text \<open>
  \<open>Rel\<close> compares the cleaned paths word by word. When words of the base are left, it goes up once
  for each of them; it fails when the first of them is \<open>..\<close>, whose name nobody knows.
\<close>

definition rel_split :: "string \<Rightarrow> string list" where
  "rel_split p = (if p = [] then [] else if p = ''/'' then [[]] else split_on (CHR ''/'') p)"

fun rel_words :: "string list \<Rightarrow> string list \<Rightarrow> string list option" where
  "rel_words [] ts = Some ts"
| "rel_words (b # bs) [] = Some (replicate (length (b # bs)) ''..'')"
| "rel_words (b # bs) (t # ts) =
     (if b = t then rel_words bs ts
      else if b = ''..'' then None
      else Some (replicate (length (b # bs)) ''..'' @ t # ts))"

definition path_rel :: "string \<Rightarrow> string \<Rightarrow> string option" where
  "path_rel base targ =
     (let b = path_clean base; t = path_clean targ in
      if t = b then Some ''.''
      else let b' = (if b = ''.'' then [] else b) in
        if is_abs b' \<noteq> is_abs t then None
        else map_option join_slash (rel_words (rel_split b') (rel_split t)))"

text \<open>The test the agent uses everywhere: the relative path does not start by going up.\<close>

definition climbs :: "string \<Rightarrow> bool" where
  "climbs relative = (relative = ''..'' \<or> has_prefix relative ''../'')"

section \<open>Elements of joined paths\<close>

lemma split_join [simp]:
  "es \<noteq> [] \<Longrightarrow> \<forall>e\<in>set es. CHR ''/'' \<notin> set e \<Longrightarrow> split_on (CHR ''/'') (join_slash es) = es"
  by (induction es rule: join_slash.induct) (auto simp: split_on_append split_on_absent)

lemma plain_no_slash: "\<forall>e\<in>set es. plain_name e \<Longrightarrow> \<forall>e\<in>set es. CHR ''/'' \<notin> set e"
  by (auto simp: plain_name_def)

lemma is_abs_path_str [simp]: "is_abs (path_str es)"
  by (simp add: is_abs_def path_str_def has_prefix_def)

lemma path_elems_str [simp]: "\<forall>e\<in>set es. plain_name e \<Longrightarrow> path_elems (path_str es) = es"
  by (cases "es = []")
    (auto simp: path_elems_def path_str_def plain_no_slash plain_name_def filter_id_conv)

lemma path_elems_no_slash: "e \<in> set (path_elems p) \<Longrightarrow> e \<noteq> [] \<and> e \<noteq> ''.'' \<and> CHR ''/'' \<notin> set e"
  by (auto simp: path_elems_def dest: split_on_no_sep)

lemma foldl_clean_plain:
  "\<forall>e\<in>set es. plain_name e \<Longrightarrow> foldl (clean_step r) acc es = rev es @ acc"
  by (induction es arbitrary: acc) (auto simp: clean_step_def plain_name_def)

lemma clean_elems_plain [simp]: "\<forall>e\<in>set es. plain_name e \<Longrightarrow> clean_elems r es = es"
  by (simp add: clean_elems_def foldl_clean_plain)

lemma clean_step_rooted:
  "\<lbrakk>\<forall>x\<in>set acc. plain_name x; e \<noteq> [] \<and> e \<noteq> ''.'' \<and> CHR ''/'' \<notin> set e\<rbrakk>
    \<Longrightarrow> \<forall>x\<in>set (clean_step True acc e). plain_name x"
  by (cases acc) (simp_all add: clean_step_def plain_name_def)

lemma clean_elems_rooted:
  assumes "\<forall>e\<in>set es. e \<noteq> [] \<and> e \<noteq> ''.'' \<and> CHR ''/'' \<notin> set e"
  shows "\<forall>e\<in>set (clean_elems True es). plain_name e"
proof -
  have "\<forall>e\<in>set acc. plain_name e \<Longrightarrow> \<forall>e\<in>set (foldl (clean_step True) acc es). plain_name e" for acc
    using assms
  proof (induction es arbitrary: acc)
    case (Cons e es)
    have "\<forall>x\<in>set (clean_step True acc e). plain_name x"
      using Cons.prems by (intro clean_step_rooted) simp_all
    with Cons show ?case by simp
  qed simp
  from this [of "[]"] show ?thesis by (simp add: clean_elems_def)
qed

text \<open>The elements of a cleaned absolute path.\<close>

definition abs_elems :: "string \<Rightarrow> string list" where
  "abs_elems p = clean_elems True (path_elems p)"

lemma abs_elems_plain [simp]: "\<forall>e\<in>set (abs_elems p). plain_name e"
  unfolding abs_elems_def by (rule clean_elems_rooted) (blast dest: path_elems_no_slash)

lemma abs_elems_path_str [simp]: "\<forall>e\<in>set es. plain_name e \<Longrightarrow> abs_elems (path_str es) = es"
  by (simp add: abs_elems_def)

lemma path_clean_abs: "is_abs p \<Longrightarrow> path_clean p = path_str (abs_elems p)"
  by (simp add: path_clean_def abs_elems_def Let_def)

lemma path_clean_str [simp]: "\<forall>e\<in>set es. plain_name e \<Longrightarrow> path_clean (path_str es) = path_str es"
  by (simp add: path_clean_abs)

lemma path_str_inj:
  "\<lbrakk>\<forall>e\<in>set es. plain_name e; \<forall>e\<in>set fs. plain_name e\<rbrakk> \<Longrightarrow> path_str es = path_str fs \<longleftrightarrow> es = fs"
  by (rule iffI) (drule arg_cong [where f = path_elems], simp_all)

section \<open>The relative path of absolute paths\<close>

lemma join_slash_nonempty: "\<lbrakk>es \<noteq> []; hd es \<noteq> []\<rbrakk> \<Longrightarrow> join_slash es \<noteq> []"
  by (cases es rule: join_slash.cases) simp_all

lemma rel_split_str: "\<forall>e\<in>set es. plain_name e \<Longrightarrow> rel_split (path_str es) = [] # es"
proof (cases "es = []")
  case False
  assume plain: "\<forall>e\<in>set es. plain_name e"
  have "split_on (CHR ''/'') (join_slash es) = es"
    by (rule split_join [OF False plain_no_slash [OF plain]])
  moreover have "hd es \<noteq> []" using plain False by (cases es) (simp_all add: plain_name_def)
  then have "join_slash es \<noteq> []" using False by (rule join_slash_nonempty [rotated])
  ultimately show ?thesis by (simp add: rel_split_def path_str_def)
qed (simp add: rel_split_def path_str_def)

lemma rel_words_prefix: "prefix bs ts \<Longrightarrow> rel_words bs ts = Some (drop (length bs) ts)"
  by (induction bs ts rule: rel_words.induct) auto

lemma rel_words_up:
  "\<lbrakk>\<not> prefix bs ts; \<forall>e\<in>set bs. plain_name e\<rbrakk>
    \<Longrightarrow> \<exists>us. rel_words bs ts = Some (''..'' # us)"
  by (induction bs ts rule: rel_words.induct) (auto simp: plain_name_def)

lemma climbs_join:
  assumes "\<forall>e\<in>set es. CHR ''/'' \<notin> set e" "es \<noteq> []"
  shows "climbs (join_slash es) \<longleftrightarrow> hd es = ''..''"
proof
  assume "hd es = ''..''"
  then show "climbs (join_slash es)"
    using assms by (cases es rule: join_slash.cases) (auto simp: climbs_def has_prefix_def)
next
  assume *: "climbs (join_slash es)"
  show "hd es = ''..''"
  proof (cases "join_slash es = ''..''")
    case True
    then have "split_on (CHR ''/'') (join_slash es) = [''..'']" by simp
    then show ?thesis using split_join [OF assms(2,1)] by simp
  next
    case False
    with * obtain t where "join_slash es = ''..'' @ CHR ''/'' # t"
      by (auto simp: climbs_def has_prefix_iff)
    then have "split_on (CHR ''/'') (join_slash es) = ''..'' # split_on (CHR ''/'') t"
      by (simp add: split_on_append)
    then show ?thesis using split_join [OF assms(2,1)] by simp
  qed
qed

lemma path_rel_climbs:
  assumes "is_abs root" "is_abs child"
  shows "(\<exists>r. path_rel root child = Some r \<and> \<not> climbs r) \<longleftrightarrow> prefix (abs_elems root) (abs_elems child)"
proof -
  define bs ts where "bs = abs_elems root" and "ts = abs_elems child"
  have pl: "\<forall>e\<in>set bs. plain_name e" "\<forall>e\<in>set ts. plain_name e" by (simp_all add: bs_def ts_def)
  have cl: "path_clean root = path_str bs" "path_clean child = path_str ts"
    using assms by (simp_all add: path_clean_abs bs_def ts_def)
  have nd: "path_str bs \<noteq> ''.''" by (simp add: path_str_def)
  have rel: "path_rel root child = (if ts = bs then Some ''.'' else map_option join_slash (rel_words bs ts))"
    using pl nd by (auto simp: path_rel_def cl Let_def path_str_inj rel_split_str)
  show ?thesis
  proof (cases "prefix bs ts")
    case True
    show ?thesis
    proof (cases "ts = bs")
      case False
      define us where "us = drop (length bs) ts"
      have us: "us \<noteq> []" "\<forall>e\<in>set us. plain_name e"
        using True False pl(2) by (auto simp: us_def prefix_def)
      then have "\<not> climbs (join_slash us)"
        by (subst climbs_join) (auto simp: plain_name_def)
      then show ?thesis using True False rel_words_prefix [OF True]
        by (simp add: rel us_def flip: bs_def ts_def)
    qed (simp add: rel climbs_def has_prefix_def flip: bs_def ts_def)
  next
    case False
    then obtain us where us: "rel_words bs ts = Some (''..'' # us)"
      using rel_words_up pl(1) by blast
    have "climbs (join_slash (''..'' # us))"
      by (cases us) (simp_all add: climbs_def has_prefix_def)
    then show ?thesis using False us by (auto simp: rel simp flip: bs_def ts_def)
  qed
qed

section \<open>Joining to an absolute path\<close>

lemma split_on_slash:
  "split_on sep (s @ sep # t) = split_on sep s @ split_on sep t"
proof (induction s)
  case (Cons c s)
  then show ?case by (cases "split_on sep s") auto
qed simp

lemma path_elems_slash: "path_elems (s @ CHR ''/'' # t) = path_elems s @ path_elems t"
  by (simp add: path_elems_def split_on_slash)

lemma path_join_elems:
  assumes "\<forall>e\<in>set es. plain_name e" "p \<noteq> []"
  shows "path_join [path_str es, p] = path_str (clean_elems True (es @ path_elems p))"
proof -
  have join: "path_join [path_str es, p] = path_clean (path_str es @ CHR ''/'' # p)"
    using assms(2) by (simp add: path_join_def path_str_def)
  have "is_abs (path_str es @ CHR ''/'' # p)" by (simp add: is_abs_def path_str_def has_prefix_def)
  moreover have "path_elems (path_str es @ CHR ''/'' # p) = es @ path_elems p"
    using assms(1) by (simp add: path_elems_slash)
  ultimately show ?thesis by (simp add: join path_clean_abs abs_elems_def)
qed

lemma path_elems_plain [simp]: "plain_name x \<Longrightarrow> path_elems x = [x]"
  by (simp add: plain_name_def path_elems_def split_on_absent)

lemma path_join_plain [simp]:
  "\<lbrakk>\<forall>e\<in>set es. plain_name e; plain_name x\<rbrakk> \<Longrightarrow> path_join [path_str es, x] = path_str (es @ [x])"
  by (subst path_join_elems) (auto simp: plain_name_def [of "[]"])

lemma is_abs_clean: "is_abs p \<Longrightarrow> is_abs (path_clean p)"
  by (simp add: path_clean_abs)

lemma is_abs_join:
  assumes "is_abs p"
  shows "is_abs (path_join [p, q])"
proof -
  have "path_join [p, q] = path_clean (if q = [] then p else p @ CHR ''/'' # q)"
    using assms by (cases p) (simp_all add: path_join_def is_abs_def has_prefix_def)
  moreover have "is_abs (if q = [] then p else p @ CHR ''/'' # q)"
    using assms by (auto simp: is_abs_def has_prefix_iff)
  ultimately show ?thesis by (simp add: is_abs_clean)
qed

lemma is_abs_path_abs: "is_abs cwd \<Longrightarrow> is_abs (path_abs cwd p)"
  by (simp add: path_abs_def is_abs_clean is_abs_join)

lemma path_abs_str:
  assumes "is_abs cwd"
  shows "path_abs cwd p = path_str (abs_elems (path_abs cwd p))"
proof -
  have "\<exists>x. is_abs x \<and> path_abs cwd p = path_clean x"
  proof (cases "is_abs p")
    case False
    have "path_join [cwd, p] = path_clean (if p = [] then cwd else cwd @ CHR ''/'' # p)"
      using assms by (cases cwd) (simp_all add: path_join_def is_abs_def has_prefix_def)
    moreover have "is_abs (if p = [] then cwd else cwd @ CHR ''/'' # p)"
      using assms by (auto simp: is_abs_def has_prefix_iff)
    ultimately show ?thesis using False unfolding path_abs_def by metis
  qed (auto simp: path_abs_def)
  then obtain x where "is_abs x" "path_abs cwd p = path_clean x" by blast
  then show ?thesis by (simp add: path_clean_abs)
qed

lemma path_elems_join:
  assumes "es \<noteq> []" "\<forall>e\<in>set es. plain_name e"
  shows "path_elems (join_slash es) = es"
  using assms split_join [OF assms(1) plain_no_slash [OF assms(2)]]
  by (simp add: path_elems_def filter_id_conv plain_name_def)

lemma relative_join:
  assumes "es \<noteq> []" "\<forall>e\<in>set es. plain_name e"
  shows "\<not> is_abs (join_slash es)" "path_clean (join_slash es) = join_slash es"
    "join_slash es \<noteq> ''.''" "\<not> climbs (join_slash es)" "join_slash es \<noteq> []"
proof -
  have sp: "split_on (CHR ''/'') (join_slash es) = es"
    by (rule split_join [OF assms(1) plain_no_slash [OF assms(2)]])
  have hd: "hd es \<noteq> []" "hd es \<noteq> ''..''" using assms by (cases es; simp add: plain_name_def)+
  show na: "\<not> is_abs (join_slash es)"
  proof
    assume "is_abs (join_slash es)"
    then obtain t where "join_slash es = CHR ''/'' # t" by (auto simp: is_abs_def has_prefix_iff)
    then have "hd es = []" using sp by (cases es) auto
    then show False using hd by simp
  qed
  show "path_clean (join_slash es) = join_slash es"
    using assms na by (simp add: path_clean_def path_elems_join)
  show "join_slash es \<noteq> ''.''"
  proof
    assume dot: "join_slash es = ''.''"
    have "split_on (CHR ''/'') ''.'' = [''.'']" by simp
    then have "es = [''.'']" using sp dot by simp
    then show False using assms(2) by (simp add: plain_name_def)
  qed
  show "\<not> climbs (join_slash es)"
    using climbs_join [OF plain_no_slash [OF assms(2)] assms(1)] hd by simp
  show "join_slash es \<noteq> []" by (rule join_slash_nonempty [OF assms(1) hd(1)])
qed

end
