(* ===== verification/File_Tree.thy ===== *)
theory File_Tree
  imports Go_Path
begin

text \<open>
  A Unix file tree as the agent sees it: a map from element lists (the path from the root) to nodes,
  with symbolic links resolved the way the kernel and \<open>filepath.EvalSymlinks\<close> resolve them, and the
  calls of package \<open>os\<close> that the program uses on it. Every call is atomic. The only errors modelled
  are those that the shape of the tree causes; permissions are not. The lemmas show what a resolved
  path looks like, that growing a tree keeps what resolved before, and that the operations keep a
  tree well formed.
\<close>

section \<open>Trees and errors\<close>

text \<open>A regular file has its permission bits and its content; \<open>Special\<close> is a device or a socket.\<close>

datatype node = Directory | Regular nat string | Link string | Special

type_synonym file_tree = "string list \<Rightarrow> node option"

text \<open>
  \<open>Absent p\<close> and \<open>ENOENT\<close> are both \<open>os.ErrNotExist\<close>: only the last name is missing (it would be at
  \<open>p\<close>), or one before it. \<open>Refused\<close> is an error the program makes itself.
\<close>

datatype fs_error = Absent "string list" | ENOENT | ENOTDIR | EISDIR | ELOOP | EEXIST | EINVAL | EIO | Cancelled
  | Refused string

fun not_exist :: "fs_error \<Rightarrow> bool" where
  "not_exist (Absent p) = True"
| "not_exist ENOENT = True"
| "not_exist _ = False"

definition tree_ok :: "file_tree \<Rightarrow> bool" where
  "tree_ok fs \<longleftrightarrow>
     fs [] = Some Directory \<and>
     (\<forall>p x. fs (p @ [x]) \<noteq> None \<longrightarrow> fs p = Some Directory \<and> plain_name x)"

section \<open>Path resolution\<close>

text \<open>The elements of a path for the kernel: a repeated or trailing slash is a dot.\<close>

definition kernel_elems :: "string \<Rightarrow> string list" where
  "kernel_elems p = map (\<lambda>e. if e = [] then ''.'' else e) (split_on (CHR ''/'') p)"

text \<open>
  From the directory \<open>at\<close> along the given elements, through at most \<open>n\<close> links; the last element is
  followed when it is a link only if \<open>follow\<close> says so.
\<close>

function walk :: "file_tree \<Rightarrow> nat \<Rightarrow> bool \<Rightarrow> string list \<Rightarrow> string list \<Rightarrow> fs_error + string list" where
  "walk fs n follow at [] = Inr at"
| "walk fs n follow at (e # rest) =
     (if fs at \<noteq> Some Directory then Inl ENOTDIR
      else if e = ''.'' then walk fs n follow at rest
      else if e = ''..'' then walk fs n follow (butlast at) rest
      else case fs (at @ [e]) of
          None \<Rightarrow> Inl (if rest = [] then Absent (at @ [e]) else ENOENT)
        | Some (Link target) \<Rightarrow>
            if rest = [] \<and> \<not> follow then Inr (at @ [e])
            else if n = 0 then Inl ELOOP
            else walk fs (n - 1) follow (if is_abs target then [] else at) (kernel_elems target @ rest)
        | Some _ \<Rightarrow> walk fs n follow (at @ [e]) rest)"
  by pat_completeness auto
termination
  by (relation "measures [\<lambda>(fs, n, follow, at, es). n, \<lambda>(fs, n, follow, at, es). length es]") auto

declare walk.simps(2) [simp del]

text \<open>The kernel follows at most 40 links, \<open>EvalSymlinks\<close> at most 255.\<close>

definition locate :: "file_tree \<Rightarrow> bool \<Rightarrow> string \<Rightarrow> fs_error + string list" where
  "locate fs follow p = walk fs 40 follow [] (path_elems p)"

definition node_at :: "file_tree \<Rightarrow> bool \<Rightarrow> string \<Rightarrow> fs_error + node" where
  "node_at fs follow p =
     (case locate fs follow p of
        Inl e \<Rightarrow> Inl e
      | Inr q \<Rightarrow> (case fs q of None \<Rightarrow> Inl ENOENT | Some x \<Rightarrow> Inr x))"

abbreviation stat :: "file_tree \<Rightarrow> string \<Rightarrow> fs_error + node" where
  "stat fs p \<equiv> node_at fs True p"

abbreviation lstat :: "file_tree \<Rightarrow> string \<Rightarrow> fs_error + node" where
  "lstat fs p \<equiv> node_at fs False p"

definition eval_symlinks :: "file_tree \<Rightarrow> string \<Rightarrow> fs_error + string" where
  "eval_symlinks fs p = map_sum id path_str (walk fs 255 True [] (path_elems p))"

section \<open>Changes\<close>

definition mkdir :: "string \<Rightarrow> file_tree \<Rightarrow> fs_error + file_tree" where
  "mkdir p fs =
     (case locate fs False p of
        Inl (Absent q) \<Rightarrow> Inr (fs(q \<mapsto> Directory))
      | Inl e \<Rightarrow> Inl e
      | Inr q \<Rightarrow> Inl EEXIST)"

text \<open>\<open>os.MkdirAll\<close> on the elements of a cleaned absolute path.\<close>

function mkdir_all :: "string list \<Rightarrow> file_tree \<Rightarrow> (fs_error + unit) \<times> file_tree" where
  "mkdir_all es fs =
     (case stat fs (path_str es) of
        Inr Directory \<Rightarrow> (Inr (), fs)
      | Inr _ \<Rightarrow> (Inl ENOTDIR, fs)
      | Inl _ \<Rightarrow>
          (case (if es = [] then (Inr (), fs) else mkdir_all (butlast es) fs) of
             (Inl e, fs1) \<Rightarrow> (Inl e, fs1)
           | (Inr _, fs1) \<Rightarrow>
               (case mkdir (path_str es) fs1 of
                  Inr fs2 \<Rightarrow> (Inr (), fs2)
                | Inl e \<Rightarrow>
                    (if lstat fs1 (path_str es) = Inr Directory then Inr () else Inl e, fs1))))"
  by pat_completeness auto
termination by (relation "measure (\<lambda>(es, fs). length es)") auto

declare mkdir_all.simps [simp del]

text \<open>Opening with \<open>O_CREATE|O_EXCL\<close> makes a new file or fails.\<close>

definition create_new :: "nat \<Rightarrow> string \<Rightarrow> file_tree \<Rightarrow> fs_error + (string list \<times> file_tree)" where
  "create_new mode p fs =
     (case locate fs False p of
        Inl (Absent q) \<Rightarrow> Inr (q, fs(q \<mapsto> Regular mode []))
      | Inl e \<Rightarrow> Inl e
      | Inr q \<Rightarrow> Inl EEXIST)"

text \<open>
  \<open>os.CreateTemp\<close> puts random numbers in the place of the star of the pattern until the name is
  free; its files have mode 0600, which is 384. The result is the name of the file, where the open
  file is, and the tree.
\<close>

fun create_temp ::
  "string \<Rightarrow> string \<Rightarrow> nat list \<Rightarrow> file_tree \<Rightarrow> fs_error + (string \<times> string list \<times> file_tree)" where
  "create_temp parent stem [] fs = Inl EEXIST"
| "create_temp parent stem (n # draws) fs =
     (let p = path_join [parent, stem @ decimal_digits n] in
      case create_new 384 p fs of
        Inl EEXIST \<Rightarrow> create_temp parent stem draws fs
      | Inl e \<Rightarrow> Inl e
      | Inr (q, fs') \<Rightarrow> Inr (p, q, fs'))"

text \<open>\<open>os.WriteFile\<close> creates the file or cuts and overwrites it, through links.\<close>

definition write_file :: "string \<Rightarrow> string \<Rightarrow> nat \<Rightarrow> file_tree \<Rightarrow> fs_error + file_tree" where
  "write_file p content mode fs =
     (case locate fs True p of
        Inl (Absent q) \<Rightarrow> Inr (fs(q \<mapsto> Regular mode content))
      | Inl e \<Rightarrow> Inl e
      | Inr q \<Rightarrow>
          (case fs q of
             Some (Regular m c) \<Rightarrow> Inr (fs(q \<mapsto> Regular m content))
           | Some Special \<Rightarrow> Inr fs
           | _ \<Rightarrow> Inl EISDIR))"

text \<open>
  \<open>os.Link\<close> and \<open>os.Rename\<close> of the regular file at \<open>q\<close>: linking never replaces an entry, renaming
  replaces whatever is not a directory. The temporary name of a linked file is removed right after,
  so the two names of one file are never told apart.
\<close>

definition link_to :: "string \<Rightarrow> string \<Rightarrow> file_tree \<Rightarrow> fs_error + file_tree" where
  "link_to source p fs =
     (case lstat fs source of
        Inl e \<Rightarrow> Inl e
      | Inr x \<Rightarrow>
          (case locate fs False p of
             Inl (Absent t) \<Rightarrow> Inr (fs(t \<mapsto> x))
           | Inl e \<Rightarrow> Inl e
           | Inr t \<Rightarrow> Inl EEXIST))"

definition rename_to :: "string \<Rightarrow> string \<Rightarrow> file_tree \<Rightarrow> fs_error + file_tree" where
  "rename_to source p fs =
     (case locate fs False source of
        Inl e \<Rightarrow> Inl e
      | Inr q \<Rightarrow>
          (case locate fs False p of
             Inl (Absent t) \<Rightarrow> Inr ((fs(q := None))(t := fs q))
           | Inl e \<Rightarrow> Inl e
           | Inr t \<Rightarrow>
               if fs t = Some Directory then Inl EISDIR
               else if t = q then Inr fs
               else Inr ((fs(q := None))(t := fs q))))"

text \<open>\<open>os.Remove\<close> of a file, whatever the answer.\<close>

definition remove_file :: "string \<Rightarrow> file_tree \<Rightarrow> file_tree" where
  "remove_file p fs =
     (case locate fs False p of
        Inl e \<Rightarrow> fs
      | Inr q \<Rightarrow> if fs q = Some Directory then fs else fs(q := None))"

section \<open>What resolution finds\<close>

lemma tree_ok_root: "tree_ok fs \<Longrightarrow> fs [] = Some Directory"
  by (simp add: tree_ok_def)

lemma tree_ok_parent: "\<lbrakk>tree_ok fs; fs (p @ [x]) \<noteq> None\<rbrakk> \<Longrightarrow> fs p = Some Directory \<and> plain_name x"
  unfolding tree_ok_def by blast

lemma tree_ok_butlast: "\<lbrakk>tree_ok fs; fs p = Some Directory\<rbrakk> \<Longrightarrow> fs (butlast p) = Some Directory"
  by (cases p rule: rev_cases) (auto dest: tree_ok_parent)

lemma tree_ok_above:
  assumes "tree_ok fs" "fs (p @ q) \<noteq> None" "q \<noteq> []"
  shows "fs p = Some Directory"
  using assms(2,3)
proof (induction q rule: rev_induct)
  case (snoc x q)
  have "fs (p @ q) = Some Directory" using tree_ok_parent [OF assms(1), of "p @ q" x] snoc.prems by simp
  then show ?case using snoc.IH by (cases q) auto
qed simp

lemma tree_ok_plain: "\<lbrakk>tree_ok fs; fs p \<noteq> None\<rbrakk> \<Longrightarrow> \<forall>e\<in>set p. plain_name e"
proof (induction p rule: rev_induct)
  case (snoc x p)
  then show ?case using tree_ok_parent [OF snoc.prems] by auto
qed simp

lemma kernel_elems_names: "e \<in> set (kernel_elems p) \<Longrightarrow> e \<noteq> [] \<and> CHR ''/'' \<notin> set e"
  by (auto simp: kernel_elems_def dest: split_on_no_sep)

text \<open>A resolved path exists, and is not a link when links are followed.\<close>

lemma walk_finds:
  assumes "tree_ok fs" "walk fs n follow at es = Inr p" "fs at = Some x" "follow \<Longrightarrow> \<forall>t. x \<noteq> Link t"
  shows "\<exists>y. fs p = Some y \<and> (follow \<longrightarrow> (\<forall>t. y \<noteq> Link t))"
  using assms
proof (induction fs n follow "at" es arbitrary: x rule: walk.induct)
  case (2 fs n follow "at" e rest)
  from "2.prems"(2) have d: "fs at = Some Directory" by (simp add: walk.simps(2) split: if_splits)
  have up: "fs (butlast at) = Some Directory" "fs [] = Some Directory"
    using "2.prems"(1) d by (blast dest: tree_ok_butlast tree_ok_root)+
  consider "e = ''.''" | "e = ''..''"
    | t where "e \<noteq> ''.''" "e \<noteq> ''..''" "fs (at @ [e]) = Some (Link t)"
    | y where "e \<noteq> ''.''" "e \<noteq> ''..''" "fs (at @ [e]) = Some y" "\<forall>t. y \<noteq> Link t"
    | "e \<noteq> ''.''" "e \<noteq> ''..''" "fs (at @ [e]) = None"
    by (cases "fs (at @ [e])") auto
  then show ?case
  proof cases
    case (3 t)
    then show ?thesis using "2.prems"(2) d up "2.IH"(5) "2.prems"(1)
      by (auto simp: walk.simps(2) split: if_splits)
  next
    case (4 y)
    then have "walk fs n follow (at @ [e]) rest = Inr p"
      using "2.prems"(2) d by (cases y) (simp_all add: walk.simps(2))
    then show ?thesis
      using "2.IH"(3,4,6) [where x = y] "2.prems"(1) d 4 by (cases y) blast+
  qed (use "2.prems"(2) d up "2.IH"(1,2) "2.prems"(1) in \<open>simp_all add: walk.simps(2)\<close>)
qed auto

lemma walk_enter:
  "\<lbrakk>fs at = Some Directory; e \<noteq> ''.''; e \<noteq> ''..''; fs (at @ [e]) = Some y; \<forall>t. y \<noteq> Link t\<rbrakk>
    \<Longrightarrow> walk fs n follow at (e # rest) = walk fs n follow (at @ [e]) rest"
  by (cases y) (simp_all add: walk.simps(2))

lemma walk_link:
  "\<lbrakk>fs at = Some Directory; e \<noteq> ''.''; e \<noteq> ''..''; fs (at @ [e]) = Some (Link t)\<rbrakk>
    \<Longrightarrow> walk fs n follow at (e # rest) =
      (if rest = [] \<and> \<not> follow then Inr (at @ [e])
       else if n = 0 then Inl ELOOP
       else walk fs (n - 1) follow (if is_abs t then [] else at) (kernel_elems t @ rest))"
  by (simp add: walk.simps(2))

text \<open>
  A tree grows when its directories and links stay what they are and its files stay files: then
  every path that resolved still resolves to the same place.
\<close>

fun same_kind :: "node \<Rightarrow> node \<Rightarrow> bool" where
  "same_kind (Regular m c) y = (\<exists>m' c'. y = Regular m' c')"
| "same_kind x y = (x = y)"

lemma same_kind_refl [simp]: "same_kind x x"
  by (cases x) simp_all

lemma same_kind_link: "same_kind x y \<Longrightarrow> (\<exists>t. y = Link t) \<longleftrightarrow> (\<exists>t. x = Link t)"
  by (cases x) auto

definition grows :: "file_tree \<Rightarrow> file_tree \<Rightarrow> bool" where
  "grows fs fs' \<longleftrightarrow> (\<forall>q x. fs q = Some x \<longrightarrow> (\<exists>y. fs' q = Some y \<and> same_kind x y))"

lemma growsD: "\<lbrakk>grows fs fs'; fs q = Some x\<rbrakk> \<Longrightarrow> \<exists>y. fs' q = Some y \<and> same_kind x y"
  by (simp add: grows_def)

lemma grows_dir: "\<lbrakk>grows fs fs'; fs q = Some Directory\<rbrakk> \<Longrightarrow> fs' q = Some Directory"
  using growsD by fastforce

lemma grows_link: "\<lbrakk>grows fs fs'; fs q = Some (Link t)\<rbrakk> \<Longrightarrow> fs' q = Some (Link t)"
  using growsD by fastforce

lemma walk_grows:
  assumes "grows fs fs'" "walk fs n follow at es = Inr p"
  shows "walk fs' n follow at es = Inr p"
  using assms
proof (induction fs n follow "at" es rule: walk.induct)
  case (2 fs n follow "at" e rest)
  from "2.prems"(2) have d: "fs at = Some Directory" by (simp add: walk.simps(2) split: if_splits)
  have d': "fs' at = Some Directory" by (rule grows_dir [OF "2.prems"(1) d])
  consider "e = ''.''" | "e = ''..''"
    | t where "e \<noteq> ''.''" "e \<noteq> ''..''" "fs (at @ [e]) = Some (Link t)"
    | y where "e \<noteq> ''.''" "e \<noteq> ''..''" "fs (at @ [e]) = Some y" "\<forall>t. y \<noteq> Link t"
    | "e \<noteq> ''.''" "e \<noteq> ''..''" "fs (at @ [e]) = None"
    by (cases "fs (at @ [e])") auto
  then show ?case
  proof cases
    case (3 t)
    then show ?thesis
      using "2.prems"(2) d d' "2.IH"(5) "2.prems"(1) grows_link [OF "2.prems"(1) 3(3)]
      by (auto simp: walk_link split: if_splits)
  next
    case (4 y)
    obtain y' where y': "fs' (at @ [e]) = Some y'" "same_kind y y'"
      using growsD [OF "2.prems"(1) 4(3)] by blast
    have "\<forall>t. y' \<noteq> Link t" using same_kind_link [OF y'(2)] 4(4) by blast
    then have "walk fs' n follow at (e # rest) = walk fs' n follow (at @ [e]) rest"
      using d' 4(1,2) y'(1) by (intro walk_enter) simp_all
    moreover have "walk fs n follow (at @ [e]) rest = Inr p"
      using "2.prems"(2) d 4 by (simp add: walk_enter)
    ultimately show ?thesis
      using "2.IH"(3,4,6) "2.prems"(1) d 4 by (cases y) simp_all
  qed (use "2.prems"(2) d d' "2.IH"(1,2) "2.prems"(1) in \<open>simp_all add: walk.simps(2)\<close>)
qed auto

text \<open>When only the last name is missing, the directory that would hold it exists.\<close>

lemma walk_absent:
  assumes "tree_ok fs" "walk fs n follow at es = Inl (Absent q)"
    "\<forall>e\<in>set es. e \<noteq> [] \<and> CHR ''/'' \<notin> set e"
  shows "\<exists>d x. q = d @ [x] \<and> fs d = Some Directory \<and> fs q = None \<and> plain_name x"
  using assms
proof (induction fs n follow "at" es rule: walk.induct)
  case (2 fs n follow "at" e rest)
  from "2.prems"(2) have d: "fs at = Some Directory" by (simp add: walk.simps(2) split: if_splits)
  consider "e = ''.''" | "e = ''..''"
    | t where "e \<noteq> ''.''" "e \<noteq> ''..''" "fs (at @ [e]) = Some (Link t)"
    | y where "e \<noteq> ''.''" "e \<noteq> ''..''" "fs (at @ [e]) = Some y" "\<forall>t. y \<noteq> Link t"
    | "e \<noteq> ''.''" "e \<noteq> ''..''" "fs (at @ [e]) = None"
    by (cases "fs (at @ [e])") auto
  then show ?case
  proof cases
    case (3 t)
    have names: "\<forall>e\<in>set (kernel_elems t @ rest). e \<noteq> [] \<and> CHR ''/'' \<notin> set e"
      using "2.prems"(3) kernel_elems_names by auto
    show ?thesis
      using "2.prems"(1,2) d 3 names "2.IH"(5) by (simp add: walk_link split: if_splits)
  next
    case (4 y)
    then have "walk fs n follow (at @ [e]) rest = Inl (Absent q)"
      using "2.prems"(2) d by (simp add: walk_enter)
    then show ?thesis
      using "2.IH"(3,4,6) "2.prems"(1,3) d 4 by (cases y) simp_all
  next
    case 5
    then show ?thesis
      using "2.prems"(2,3) d by (auto simp: walk.simps(2) plain_name_def split: if_splits)
  qed (use "2.prems" d "2.IH"(1,2) in \<open>simp_all add: walk.simps(2)\<close>)
qed simp

text \<open>A path without links resolves to itself.\<close>

lemma walk_real:
  assumes "tree_ok fs" "fs (at @ es) = Some x" "follow \<Longrightarrow> \<forall>t. x \<noteq> Link t" "fs at = Some Directory"
  shows "walk fs n follow at es = Inr (at @ es)"
  using assms(2,4)
proof (induction es arbitrary: "at")
  case (Cons e es)
  have pl: "plain_name e" using tree_ok_plain [OF assms(1), of "at @ e # es"] Cons.prems by simp
  then have e: "e \<noteq> ''.''" "e \<noteq> ''..''" by (simp_all add: plain_name_def)
  show ?case
  proof (cases es)
    case Nil
    then show ?thesis
    proof (cases x)
      case (Link t)
      then show ?thesis using Nil Cons.prems e assms(3) by (cases follow) (simp_all add: walk_link)
    qed (use Nil Cons.prems e in \<open>simp_all add: walk_enter\<close>)
  next
    case (Cons f fs')
    have "fs (at @ [e]) = Some Directory"
      using tree_ok_above [OF assms(1), of "at @ [e]" es] Cons.prems Cons by simp
    then show ?thesis using Cons.IH [of "at @ [e]"] Cons.prems e by (simp add: walk_enter)
  qed
qed simp

lemma walk_missing:
  assumes "tree_ok fs" "fs (at @ es) = Some Directory" "fs at = Some Directory" "plain_name x"
    "fs (at @ es @ [x]) = None"
  shows "walk fs n follow at (es @ [x]) = Inl (Absent (at @ es @ [x]))"
  using assms(2,3,5)
proof (induction es arbitrary: "at")
  case Nil
  then show ?case using assms(4) by (simp add: walk.simps(2) plain_name_def)
next
  case (Cons e es)
  have pl: "plain_name e" using tree_ok_plain [OF assms(1), of "at @ e # es"] Cons.prems by simp
  then have e: "e \<noteq> ''.''" "e \<noteq> ''..''" by (simp_all add: plain_name_def)
  have "fs (at @ [e]) = Some Directory"
    using tree_ok_above [OF assms(1), of "at @ [e]" es] Cons.prems by (cases es) simp_all
  then show ?case using Cons.IH [of "at @ [e]"] Cons.prems e by (simp add: walk_enter)
qed

lemma path_elems_names: "\<forall>e\<in>set (path_elems p). e \<noteq> [] \<and> CHR ''/'' \<notin> set e"
  by (blast dest: path_elems_no_slash)

lemma locate_finds:
  "\<lbrakk>tree_ok fs; locate fs follow p = Inr q\<rbrakk>
    \<Longrightarrow> \<exists>y. fs q = Some y \<and> (follow \<longrightarrow> (\<forall>t. y \<noteq> Link t))"
  unfolding locate_def by (rule walk_finds) (auto simp: tree_ok_root)

lemma locate_absent:
  "\<lbrakk>tree_ok fs; locate fs follow p = Inl (Absent q)\<rbrakk>
    \<Longrightarrow> \<exists>d x. q = d @ [x] \<and> fs d = Some Directory \<and> fs q = None \<and> plain_name x"
  unfolding locate_def by (rule walk_absent [OF _ _ path_elems_names])

lemma locate_real:
  assumes "tree_ok fs" "fs q = Some x" "\<not> follow \<or> (\<forall>t. x \<noteq> Link t)"
  shows "locate fs follow (path_str q) = Inr q"
  using walk_real [of fs "[]" q x follow 40] assms tree_ok_plain [OF assms(1), of q] tree_ok_root
  by (simp add: locate_def)

lemma locate_missing:
  assumes "tree_ok fs" "fs d = Some Directory" "plain_name x" "fs (d @ [x]) = None"
  shows "locate fs follow (path_str (d @ [x])) = Inl (Absent (d @ [x]))"
proof -
  have "\<forall>e\<in>set d. plain_name e" by (rule tree_ok_plain [OF assms(1)]) (simp add: assms(2))
  then have "\<forall>e\<in>set (d @ [x]). plain_name e" using assms(3) by simp
  then have "path_elems (path_str (d @ [x])) = d @ [x]" by (rule path_elems_str)
  then show ?thesis
    using walk_missing [of fs "[]" d x 40 follow] assms tree_ok_root [OF assms(1)]
    by (simp add: locate_def)
qed

lemma node_at_real:
  "\<lbrakk>tree_ok fs; fs q = Some x; \<not> follow \<or> (\<forall>t. x \<noteq> Link t)\<rbrakk> \<Longrightarrow> node_at fs follow (path_str q) = Inr x"
  by (simp add: node_at_def locate_real)

lemma node_at_missing:
  "\<lbrakk>tree_ok fs; fs d = Some Directory; plain_name x; fs (d @ [x]) = None\<rbrakk>
    \<Longrightarrow> node_at fs follow (path_str (d @ [x])) = Inl (Absent (d @ [x]))"
  by (simp add: node_at_def locate_missing)

text \<open>\<open>EvalSymlinks\<close> gives the real path of something that exists.\<close>

lemma eval_symlinks_real:
  assumes "tree_ok fs" "eval_symlinks fs p = Inr r"
  shows "\<exists>q x. r = path_str q \<and> fs q = Some x \<and> (\<forall>t. x \<noteq> Link t) \<and> (\<forall>e\<in>set q. plain_name e)"
proof -
  from assms(2) obtain q where q: "walk fs 255 True [] (path_elems p) = Inr q" "r = path_str q"
    by (cases "walk fs 255 True [] (path_elems p)") (auto simp: eval_symlinks_def)
  have "\<exists>x. fs q = Some x \<and> (True \<longrightarrow> (\<forall>t. x \<noteq> Link t))"
    by (rule walk_finds [OF assms(1) q(1) tree_ok_root [OF assms(1)]]) simp
  then show ?thesis using q(2) tree_ok_plain [OF assms(1), of q] by blast
qed

lemma eval_symlinks_self:
  assumes "tree_ok fs" "fs q = Some x" "\<forall>t. x \<noteq> Link t"
  shows "eval_symlinks fs (path_str q) = Inr (path_str q)"
proof -
  have "\<forall>e\<in>set q. plain_name e" by (rule tree_ok_plain [OF assms(1)]) (simp add: assms(2))
  moreover have "walk fs 255 True [] q = Inr q"
    using walk_real [of fs "[]" q x True 255] assms tree_ok_root [OF assms(1)] by simp
  ultimately show ?thesis by (simp add: eval_symlinks_def)
qed

lemma eval_symlinks_grows:
  "\<lbrakk>grows fs fs'; eval_symlinks fs p = Inr r\<rbrakk> \<Longrightarrow> eval_symlinks fs' p = Inr r"
  by (cases "walk fs 255 True [] (path_elems p)") (auto simp: eval_symlinks_def dest: walk_grows)

section \<open>Well-formedness\<close>

lemma tree_ok_leaf: "\<lbrakk>tree_ok fs; fs q \<noteq> Some Directory\<rbrakk> \<Longrightarrow> fs (q @ [x]) = None"
  unfolding tree_ok_def by blast

lemma tree_ok_insert:
  assumes "tree_ok fs" "fs d = Some Directory" "plain_name x" "fs (d @ [x]) \<noteq> Some Directory"
  shows "tree_ok (fs(d @ [x] \<mapsto> y))"
  unfolding tree_ok_def
proof (intro conjI allI impI)
  fix p z
  assume p: "(fs(d @ [x] \<mapsto> y)) (p @ [z]) \<noteq> None"
  have "p @ [z] = d @ [x] \<or> fs (p @ [z]) \<noteq> None" using p by (auto split: if_splits)
  then have "fs p = Some Directory \<and> plain_name z" using assms(2,3) tree_ok_parent [OF assms(1)] by auto
  moreover from this have "p \<noteq> d @ [x]" using assms(4) by auto
  ultimately show "(fs(d @ [x] \<mapsto> y)) p = Some Directory" "plain_name z" by simp_all
qed (simp add: tree_ok_root [OF assms(1)])

lemma tree_ok_remove:
  assumes "tree_ok fs" "fs q \<noteq> Some Directory"
  shows "tree_ok (fs(q := None))"
  unfolding tree_ok_def
proof (intro conjI allI impI)
  show "(fs(q := None)) [] = Some Directory" using assms tree_ok_root by fastforce
  fix p z
  assume "(fs(q := None)) (p @ [z]) \<noteq> None"
  then have "fs (p @ [z]) \<noteq> None" by (auto split: if_splits)
  then have "fs p = Some Directory \<and> plain_name z" by (rule tree_ok_parent [OF assms(1)])
  then show "(fs(q := None)) p = Some Directory" "plain_name z" using assms(2) by auto
qed

lemma tree_ok_set:
  assumes "tree_ok fs" "fs q = Some z" "z \<noteq> Directory"
  shows "tree_ok (fs(q \<mapsto> y))"
proof (cases q rule: rev_cases)
  case Nil
  then show ?thesis using assms tree_ok_root by fastforce
next
  case (snoc d x)
  then show ?thesis using tree_ok_insert [of fs d x y] tree_ok_parent [OF assms(1), of d x] assms by simp
qed

lemma tree_ok_absent:
  "\<lbrakk>tree_ok fs; locate fs follow p = Inl (Absent q)\<rbrakk> \<Longrightarrow> tree_ok (fs(q \<mapsto> y))"
  using tree_ok_insert by (fastforce dest: locate_absent)

lemma tree_ok_mkdir: "\<lbrakk>tree_ok fs; mkdir p fs = Inr fs'\<rbrakk> \<Longrightarrow> tree_ok fs'"
  by (auto simp: mkdir_def tree_ok_absent split: sum.splits fs_error.splits)

lemma tree_ok_create_new: "\<lbrakk>tree_ok fs; create_new m p fs = Inr (q, fs')\<rbrakk> \<Longrightarrow> tree_ok fs'"
  by (auto simp: create_new_def tree_ok_absent split: sum.splits fs_error.splits)

lemma tree_ok_remove_file: "tree_ok fs \<Longrightarrow> tree_ok (remove_file q fs)"
  by (auto simp: remove_file_def intro: tree_ok_remove split: sum.split)

lemma tree_ok_write_file: "\<lbrakk>tree_ok fs; write_file p c m fs = Inr fs'\<rbrakk> \<Longrightarrow> tree_ok fs'"
  by (auto simp: write_file_def tree_ok_absent intro: tree_ok_set
      split: sum.splits fs_error.splits option.splits node.splits)

lemma tree_ok_link_to: "\<lbrakk>tree_ok fs; link_to q p fs = Inr fs'\<rbrakk> \<Longrightarrow> tree_ok fs'"
  by (auto simp: link_to_def tree_ok_absent split: sum.splits fs_error.splits)

lemma create_temp_new:
  assumes "create_temp parent stem draws fs = Inr (p, q, fs')"
  shows "\<exists>n \<in> set draws. p = path_join [parent, stem @ decimal_digits n]
    \<and> locate fs False p = Inl (Absent q) \<and> fs' = fs(q \<mapsto> Regular 384 [])"
  using assms
proof (induction draws)
  case (Cons n ns)
  then show ?case
    by (cases "locate fs False (path_join [parent, stem @ decimal_digits n])")
      (auto simp: create_new_def Let_def split: sum.splits fs_error.splits)
qed simp

lemma plain_temp_name:
  assumes "stem \<noteq> []" "CHR ''/'' \<notin> set stem" "hd stem \<noteq> CHR ''.'' \<or> 3 \<le> length stem"
  shows "plain_name (stem @ decimal_digits n)"
proof -
  have "CHR ''/'' \<notin> set (decimal_digits n)" using decimal_digits_set [of n] by auto
  moreover have "stem @ decimal_digits n \<noteq> ''.''" "stem @ decimal_digits n \<noteq> ''..''"
    using assms(1,3) by (auto simp: append_eq_Cons_conv)
  ultimately show ?thesis using assms by (simp add: plain_name_def)
qed

text \<open>What the calls do at a name in a directory that is reached without links.\<close>

lemma locate_name:
  assumes "tree_ok fs" "fs d = Some Directory" "plain_name x"
  shows "locate fs False (path_str (d @ [x])) =
    (if fs (d @ [x]) = None then Inl (Absent (d @ [x])) else Inr (d @ [x]))"
  using assms locate_missing [of fs d x False] locate_real [of fs "d @ [x]" _ False] by auto

lemma lstat_name:
  assumes "tree_ok fs" "fs d = Some Directory" "plain_name x"
  shows "lstat fs (path_str (d @ [x])) =
    (case fs (d @ [x]) of None \<Rightarrow> Inl (Absent (d @ [x])) | Some y \<Rightarrow> Inr y)"
  by (simp add: node_at_def locate_name [OF assms] split: option.split)

lemma mkdir_name:
  assumes "tree_ok fs" "fs d = Some Directory" "plain_name x"
  shows "mkdir (path_str (d @ [x])) fs =
    (if fs (d @ [x]) = None then Inr (fs(d @ [x] \<mapsto> Directory)) else Inl EEXIST)"
  by (simp add: mkdir_def locate_name [OF assms])

lemma remove_name:
  assumes "tree_ok fs" "fs d = Some Directory" "plain_name x"
  shows "remove_file (path_str (d @ [x])) fs =
    (if fs (d @ [x]) = Some Directory then fs else fs(d @ [x] := None))"
  by (auto simp: remove_file_def locate_name [OF assms])

lemma link_names:
  assumes "tree_ok fs" "fs d = Some Directory" "plain_name x" "plain_name t"
  shows "link_to (path_str (d @ [t])) (path_str (d @ [x])) fs =
    (case fs (d @ [t]) of
       None \<Rightarrow> Inl (Absent (d @ [t]))
     | Some y \<Rightarrow> if fs (d @ [x]) = None then Inr (fs(d @ [x] \<mapsto> y)) else Inl EEXIST)"
  using assms by (auto simp: link_to_def lstat_name locate_name split: option.split)

lemma rename_names:
  assumes "tree_ok fs" "fs d = Some Directory" "plain_name x" "plain_name t"
  shows "rename_to (path_str (d @ [t])) (path_str (d @ [x])) fs =
    (if fs (d @ [t]) = None then Inl (Absent (d @ [t]))
     else if fs (d @ [x]) = Some Directory then Inl EISDIR
     else if x = t then Inr fs
     else Inr (fs(d @ [t] := None, d @ [x] := fs (d @ [t]))))"
  using assms by (auto simp: rename_to_def locate_name)

end
