(* ===== verification/Git_Command.thy ===== *)
theory Git_Command
  imports File_Tree
begin

text \<open>
  How the agent runs git on the repositories of a server (\<open>internal/gitrepository\<close>): the command
  line, the checks that a path names the root of a work tree below a managed root, and the removal of
  a managed project. Git is not part of the program: it is a function of the command line and the
  file tree, whose answer is an error (or none), an output and a new tree. The state of an operation
  is the tree with the list of the commands run so far.
\<close>

section \<open>Operations\<close>

datatype op_error = Said string | Wrapped string op_error | System fs_error

type_synonym git = "string list \<Rightarrow> file_tree \<Rightarrow> (string option \<times> string) \<times> file_tree"

record disk =
  tree :: file_tree
  ran :: "string list list"

type_synonym 'a operation = "disk \<Rightarrow> (op_error + 'a) \<times> disk"

definition give :: "'a \<Rightarrow> 'a operation" where
  "give a s = (Inr a, s)"

definition refuse_op :: "op_error \<Rightarrow> 'a operation" where
  "refuse_op e s = (Inl e, s)"

definition andThen :: "'a operation \<Rightarrow> ('a \<Rightarrow> 'b operation) \<Rightarrow> 'b operation" where
  "andThen m f s = (case m s of (Inl e, s1) \<Rightarrow> (Inl e, s1) | (Inr a, s1) \<Rightarrow> f a s1)"

text \<open>The outcome of an operation as a value; a result that needs the tree only; a wrapped error.\<close>

definition outcome :: "'a operation \<Rightarrow> (op_error + 'a) operation" where
  "outcome m s = (case m s of (r, s1) \<Rightarrow> (Inr r, s1))"

definition on_tree :: "(file_tree \<Rightarrow> op_error + 'a) \<Rightarrow> 'a operation" where
  "on_tree f s = (f (tree s), s)"

definition wrap :: "string \<Rightarrow> 'a operation \<Rightarrow> 'a operation" where
  "wrap context m s = (case m s of (Inl e, s1) \<Rightarrow> (Inl (Wrapped context e), s1) | r \<Rightarrow> r)"

definition check :: "bool \<Rightarrow> string \<Rightarrow> unit operation" where
  "check b message = (if b then give () else refuse_op (Said message))"

definition os :: "fs_error + 'a \<Rightarrow> op_error + 'a" where
  "os r = map_sum System id r"

section \<open>Running git\<close>

definition gitCommandArguments :: "string \<Rightarrow> string list \<Rightarrow> string list" where
  "gitCommandArguments directory args =
     (if directory = [] then args
      else [''-c'', ''safe.directory='' @ directory, ''-C'', directory] @ args)"

definition runGit :: "git \<Rightarrow> string \<Rightarrow> string list \<Rightarrow> (string option \<times> string) operation" where
  "runGit git directory args s =
     (let command = gitCommandArguments directory args;
          (answer, t) = git command (tree s)
      in (Inr answer, s\<lparr>tree := t, ran := ran s @ [command]\<rparr>))"

definition cleanGitError :: "string \<Rightarrow> string \<Rightarrow> string" where
  "cleanGitError output err =
     (let message = trim_space output;
          message = (if message = [] then err else message)
      in take 4096 message)"

text \<open>The usual way to run git: its output, or an error with the given beginning.\<close>

definition gitOutput :: "git \<Rightarrow> string \<Rightarrow> string \<Rightarrow> string list \<Rightarrow> string operation" where
  "gitOutput git context directory args =
     andThen (runGit git directory args) (\<lambda>(err, output).
       case err of
         None \<Rightarrow> give output
       | Some e \<Rightarrow> refuse_op (Said (context @ '': '' @ cleanGitError output e)))"

section \<open>Text\<close>

text \<open>\<open>unicode.IsControl\<close>: U+0000 to U+001F and U+007F to U+009F.\<close>

definition is_control :: "string \<Rightarrow> bool" where
  "is_control r =
     (case r of
        [a] \<Rightarrow> of_char a < (32 :: nat) \<or> of_char a = (127 :: nat)
      | [a, b] \<Rightarrow> a = CHR 0xC2 \<and> byte_in 128 159 b
      | _ \<Rightarrow> False)"

definition containsControl :: "string \<Rightarrow> bool" where
  "containsControl value = (\<exists>r\<in>set (str_runes value). is_control r)"

definition containsWhitespaceOrControl :: "string \<Rightarrow> bool" where
  "containsWhitespaceOrControl value =
     (\<exists>r\<in>set (str_runes value). is_control r \<or> r \<in> set all_spaces)"

definition isObjectID :: "string \<Rightarrow> bool" where
  "isObjectID value \<longleftrightarrow>
     length value \<in> {40, 64} \<and> (\<forall>c\<in>set value. c \<in> set ''0123456789abcdef'')"

definition trim_suffix_char :: "char \<Rightarrow> string \<Rightarrow> string" where
  "trim_suffix_char c s = (if s \<noteq> [] \<and> last s = c then butlast s else s)"

definition splitLines :: "string \<Rightarrow> string list" where
  "splitLines output =
     filter (\<lambda>line. line \<noteq> [])
       (map (trim_suffix_char (CHR 0x0D)) (split_on (CHR 0x0A) (trim_space output)))"

section \<open>Paths\<close>

definition root_real :: "file_tree \<Rightarrow> string \<Rightarrow> string option" where
  "root_real t root =
     (let root = trim_space root in
      if root = [] \<or> \<not> is_abs root then None
      else case eval_symlinks t (path_clean root) of
          Inl _ \<Rightarrow> None
        | Inr real \<Rightarrow> if stat t real = Inr Directory then Some real else None)"

definition insideManagedRoot :: "string \<Rightarrow> string list \<Rightarrow> file_tree \<Rightarrow> bool" where
  "insideManagedRoot path managedRoots t =
     (\<exists>root\<in>set managedRoots.
        case root_real t root of
          None \<Rightarrow> False
        | Some real \<Rightarrow>
            (case path_rel real path of None \<Rightarrow> False | Some relative \<Rightarrow> \<not> climbs relative))"

definition cleanAbsolutePath :: "string \<Rightarrow> op_error + string" where
  "cleanAbsolutePath path =
     (let path = trim_space path in
      if path = [] \<or> \<not> is_abs path then Inl (Said ''path must be absolute'')
      else Inr (path_clean path))"

definition allowedExistingPath :: "string \<Rightarrow> string list \<Rightarrow> file_tree \<Rightarrow> op_error + string" where
  "allowedExistingPath path managedRoots t =
     try_then (cleanAbsolutePath path) (\<lambda>path.
     try_then (os (eval_symlinks t path)) (\<lambda>path.
     try_then (os (stat t path)) (\<lambda>info.
       if info \<noteq> Directory then Inl (Said ''path must be a directory'')
       else if \<not> insideManagedRoot path managedRoots t then Inl (Said ''path is outside managed roots'')
       else Inr path)))"

definition allowedNewPath :: "string \<Rightarrow> string list \<Rightarrow> file_tree \<Rightarrow> op_error + string" where
  "allowedNewPath path managedRoots t =
     try_then (cleanAbsolutePath path) (\<lambda>path.
       case lstat t path of
         Inr _ \<Rightarrow> Inl (Said ''repository path already exists'')
       | Inl e \<Rightarrow>
           if \<not> not_exist e then Inl (System e)
           else case eval_symlinks t (path_dir path) of
               Inl _ \<Rightarrow> Inl (Said ''repository parent directory must exist'')
             | Inr parent \<Rightarrow>
                 if stat t parent \<noteq> Inr Directory
                 then Inl (Said ''repository parent path must be a directory'')
                 else
                   let path = path_join [parent, path_base path] in
                   if \<not> insideManagedRoot path managedRoots t
                   then Inl (Said ''path is outside managed roots'')
                   else Inr path)"

text \<open>
  \<open>os.SameFile\<close> of two directories. A directory has one place in the tree, so they are the same when
  both paths lead there.
\<close>

definition same_directory :: "string \<Rightarrow> string \<Rightarrow> file_tree \<Rightarrow> op_error + bool" where
  "same_directory p q t =
     try_then (os (stat t p)) (\<lambda>_. try_then (os (stat t q)) (\<lambda>_. Inr (locate t True p = locate t True q)))"

definition resolveRepository :: "git \<Rightarrow> string \<Rightarrow> string list \<Rightarrow> string \<Rightarrow> string operation" where
  "resolveRepository git cwd managedRoots path =
     andThen (wrap ''invalid repository path'' (on_tree (allowedExistingPath path managedRoots))) (\<lambda>path.
     andThen (gitOutput git ''path is not a Git worktree'' path [''rev-parse'', ''--show-toplevel'']) (\<lambda>output.
     andThen (wrap ''resolve Git worktree root'' (on_tree (\<lambda>t.
       os (eval_symlinks t (path_abs cwd (path_clean (trim_space output))))))) (\<lambda>topLevel.
     andThen (on_tree (same_directory path topLevel)) (\<lambda>same.
       if same then give path
       else refuse_op (Said ''repository path must be the Git worktree root'')))))"

section \<open>Deleting a managed project\<close>

record DeleteResult =
  dr_path :: string
  dr_deleted :: bool

text \<open>\<open>os.RemoveAll\<close> of a real path.\<close>

definition remove_all :: "string \<Rightarrow> file_tree \<Rightarrow> file_tree" where
  "remove_all p t =
     (case locate t False p of Inl _ \<Rightarrow> t | Inr q \<Rightarrow> (\<lambda>x. if prefix q x then None else t x))"

definition resolveManagedRoot :: "string \<Rightarrow> file_tree \<Rightarrow> op_error + string" where
  "resolveManagedRoot root t =
     (case cleanAbsolutePath root of
        Inl e \<Rightarrow> Inl (Wrapped ''invalid clone root'' e)
      | Inr root \<Rightarrow>
          (case eval_symlinks t root of
             Inl e \<Rightarrow> Inl (Wrapped ''resolve clone root'' (System e))
           | Inr resolved \<Rightarrow>
               (case stat t resolved of
                  Inl e \<Rightarrow> Inl (Wrapped ''inspect clone root'' (System e))
                | Inr Directory \<Rightarrow> Inr resolved
                | Inr _ \<Rightarrow> Inl (Said ''clone root must be a directory''))))"

definition requireStrictDescendant :: "string \<Rightarrow> string \<Rightarrow> string \<Rightarrow> op_error + unit" where
  "requireStrictDescendant cwd root path =
     (case path_rel (path_abs cwd (path_clean root)) (path_abs cwd (path_clean path)) of
        None \<Rightarrow> Inl (Said ''project path must be a strict descendant of the configured clone root'')
      | Some relative \<Rightarrow>
          require (relative \<noteq> ''.'' \<and> \<not> climbs relative)
            (Said ''project path must be a strict descendant of the configured clone root''))"

text \<open>The path is there: it must be the real root of a work tree that carries the marker of the project.\<close>

definition delete_existing ::
  "git \<Rightarrow> string \<Rightarrow> bool \<Rightarrow> string \<Rightarrow> string \<Rightarrow> string \<Rightarrow> node \<Rightarrow> DeleteResult operation" where
  "delete_existing git cwd cancelled projectID root path info =
     andThen (wrap ''resolve project path'' (on_tree (\<lambda>t. os (eval_symlinks t path)))) (\<lambda>resolved.
     andThen (on_tree (\<lambda>t. requireStrictDescendant cwd root resolved)) (\<lambda>_.
     andThen (check (info = Directory) ''project path must be a directory'') (\<lambda>_.
     andThen (resolveRepository git cwd [root] resolved) (\<lambda>resolved.
     andThen (runGit git resolved [''config'', ''--local'', ''--get'', ''wio.projectId'']) (\<lambda>(err, marker).
     andThen (check (err = None) ''project repository is missing the Wio project marker'') (\<lambda>_.
     andThen (check (trim_space marker = projectID)
       ''project repository marker does not match project ID'') (\<lambda>_ s.
       if cancelled then (Inl (System Cancelled), s)
       else (Inr \<lparr>dr_path = resolved, dr_deleted = True\<rparr>,
         s\<lparr>tree := remove_all resolved (tree s)\<rparr>))))))))"

definition delete_missing :: "string \<Rightarrow> string \<Rightarrow> string \<Rightarrow> DeleteResult operation" where
  "delete_missing cwd root path =
     andThen (wrap ''resolve project parent'' (on_tree (\<lambda>t. os (eval_symlinks t (path_dir path))))) (\<lambda>parent.
       let candidate = path_join [parent, path_base path] in
       andThen (on_tree (\<lambda>t. requireStrictDescendant cwd root candidate)) (\<lambda>_.
         give \<lparr>dr_path = candidate, dr_deleted = False\<rparr>))"

definition DeleteManagedProject ::
  "git \<Rightarrow> string \<Rightarrow> bool \<Rightarrow> string \<Rightarrow> string \<Rightarrow> string \<Rightarrow> DeleteResult operation" where
  "DeleteManagedProject git cwd cancelled projectID repositoryPath managedRoot =
     (let projectID = trim_space projectID in
      andThen (check (projectID \<noteq> []) ''project ID is required'') (\<lambda>_.
      andThen (check (\<not> containsControl projectID) ''project ID contains control characters'') (\<lambda>_.
      andThen (on_tree (resolveManagedRoot managedRoot)) (\<lambda>root.
      andThen (on_tree (\<lambda>t. cleanAbsolutePath repositoryPath)) (\<lambda>path.
      andThen (on_tree (\<lambda>t. Inr (lstat t path))) (\<lambda>info.
        case info of
          Inr x \<Rightarrow> delete_existing git cwd cancelled projectID root path x
        | Inl e \<Rightarrow>
            if not_exist e then delete_missing cwd root path
            else refuse_op (Wrapped ''inspect project path'' (System e))))))))"

section \<open>Operations that leave the tree alone\<close>

definition quiet :: "'a operation \<Rightarrow> bool" where
  "quiet m \<longleftrightarrow> (\<forall>s. tree (snd (m s)) = tree s)"

lemma quiet_basic [simp]: "quiet (give a)" "quiet (refuse_op e)" "quiet (on_tree f)" "quiet (check b message)"
  by (simp_all add: quiet_def give_def refuse_op_def on_tree_def check_def)

lemma quiet_wrap [simp]: "quiet m \<Longrightarrow> quiet (wrap context m)"
  by (auto simp: quiet_def wrap_def split: prod.split sum.split) (metis snd_conv)+

lemma quiet_andThen: "\<lbrakk>quiet m; \<forall>a. quiet (f a)\<rbrakk> \<Longrightarrow> quiet (andThen m f)"
  by (auto simp: quiet_def andThen_def split: prod.split sum.split) (metis snd_conv)+

text \<open>When a quiet first step is followed by a change, it succeeded and the rest made the change.\<close>

lemma andThen_changed:
  assumes "tree (snd (andThen m f s)) \<noteq> tree s" "quiet m"
  shows "\<exists>a s1. m s = (Inr a, s1) \<and> tree s1 = tree s \<and> andThen m f s = f a s1"
proof (cases "m s")
  case (Pair r s1)
  moreover have "tree s1 = tree s" using assms(2) Pair by (metis quiet_def snd_conv)
  ultimately show ?thesis using assms(1) by (cases r) (auto simp: andThen_def)
qed

lemma andThen_Inr:
  "andThen m f s = (Inr b, s') \<longleftrightarrow> (\<exists>a s1. m s = (Inr a, s1) \<and> f a s1 = (Inr b, s'))"
  by (auto simp: andThen_def split: prod.split sum.split)

lemma check_Inr [simp]: "check b message s = (Inr u, s') \<longleftrightarrow> b \<and> s' = s"
  by (auto simp: check_def give_def refuse_op_def)

lemma on_tree_Inr [simp]: "on_tree f s = (Inr a, s') \<longleftrightarrow> f (tree s) = Inr a \<and> s' = s"
  by (auto simp: on_tree_def)

lemma wrap_Inr [simp]: "wrap context m s = (Inr a, s') \<longleftrightarrow> m s = (Inr a, s')"
  by (auto simp: wrap_def split: prod.split sum.split)

lemma give_Inr [simp]: "give a s = (Inr b, s') \<longleftrightarrow> b = a \<and> s' = s"
  by (auto simp: give_def)

lemma refuse_op_Inr [simp]: "refuse_op e s \<noteq> (Inr b, s')"
  by (simp add: refuse_op_def)

lemma os_Inr [simp]: "os r = Inr a \<longleftrightarrow> r = Inr a"
  by (cases r) (simp_all add: os_def)

lemma runGit_Inr:
  "runGit git d args s = (r, s') \<longleftrightarrow>
    r = Inr (fst (git (gitCommandArguments d args) (tree s))) \<and>
    s' = s\<lparr>tree := snd (git (gitCommandArguments d args) (tree s)), ran := ran s @ [gitCommandArguments d args]\<rparr>"
  by (auto simp: runGit_def Let_def split: prod.split)

lemma gitOutput_Inr:
  "gitOutput git context d args s = (Inr output, s') \<longleftrightarrow> runGit git d args s = (Inr (None, output), s')"
  by (auto simp: gitOutput_def andThen_Inr split: prod.split option.split)

section \<open>Managed roots\<close>

lemma cleanAbsolutePath_Inr:
  "cleanAbsolutePath p = Inr q \<Longrightarrow> is_abs q \<and> q = path_str (abs_elems (trim_space p))"
  by (auto simp: cleanAbsolutePath_def Let_def path_clean_abs split: if_splits)

lemma root_real_dir:
  assumes "tree_ok t" "root_real t root = Some real"
  shows "\<exists>r. real = path_str r \<and> t r = Some Directory \<and> (\<forall>e\<in>set r. plain_name e)"
proof -
  have ev: "eval_symlinks t (path_clean (trim_space root)) = Inr real" and st: "stat t real = Inr Directory"
    using assms(2) by (auto simp: root_real_def Let_def split: if_splits sum.splits)
  obtain r x where r: "real = path_str r" "t r = Some x" "\<forall>l. x \<noteq> Link l" "\<forall>e\<in>set r. plain_name e"
    using eval_symlinks_real [OF assms(1) ev] by blast
  have "stat t (path_str r) = Inr x" using assms(1) r(2,3) by (intro node_at_real) simp_all
  then show ?thesis using r st by auto
qed

text \<open>A path that exists and is allowed is the real path of a directory at or below a real root.\<close>

lemma insideManagedRoot_prefix:
  assumes "tree_ok t" "\<forall>e\<in>set p. plain_name e"
  shows "insideManagedRoot (path_str p) roots t \<longleftrightarrow>
    (\<exists>root\<in>set roots. \<exists>r. root_real t root = Some (path_str r) \<and> (\<forall>e\<in>set r. plain_name e) \<and> prefix r p)"
proof
  assume "insideManagedRoot (path_str p) roots t"
  then obtain root real relative where *: "root \<in> set roots" "root_real t root = Some real"
    "path_rel real (path_str p) = Some relative" "\<not> climbs relative"
    by (auto simp: insideManagedRoot_def split: option.splits)
  obtain r where "real = path_str r" "\<forall>e\<in>set r. plain_name e"
    using root_real_dir [OF assms(1) *(2)] by blast
  then show "\<exists>root\<in>set roots. \<exists>r. root_real t root = Some (path_str r) \<and> (\<forall>e\<in>set r. plain_name e) \<and> prefix r p"
    using * path_rel_climbs [of real "path_str p"] assms(2) by auto
next
  assume "\<exists>root\<in>set roots. \<exists>r. root_real t root = Some (path_str r) \<and> (\<forall>e\<in>set r. plain_name e) \<and> prefix r p"
  then obtain root r where *: "root \<in> set roots" "root_real t root = Some (path_str r)"
    "\<forall>e\<in>set r. plain_name e" "prefix r p" by blast
  then have "\<exists>x. path_rel (path_str r) (path_str p) = Some x \<and> \<not> climbs x"
    using path_rel_climbs [of "path_str r" "path_str p"] assms(2) by simp
  then show "insideManagedRoot (path_str p) roots t"
    using *(1,2) by (force simp: insideManagedRoot_def)
qed

lemma allowedExisting_real:
  assumes "tree_ok t" "allowedExistingPath p roots t = Inr q"
  shows "\<exists>e root r. q = path_str e \<and> t e = Some Directory \<and> (\<forall>x\<in>set e. plain_name x)
    \<and> root \<in> set roots \<and> root_real t root = Some (path_str r) \<and> prefix r e"
proof -
  from assms(2) obtain c where ev: "eval_symlinks t c = Inr q" and st: "stat t q = Inr Directory"
    and inside: "insideManagedRoot q roots t"
    by (auto simp: allowedExistingPath_def try_then_Inr_iff split: if_splits)
  obtain e x where e: "q = path_str e" "t e = Some x" "\<forall>l. x \<noteq> Link l" "\<forall>x\<in>set e. plain_name x"
    using eval_symlinks_real [OF assms(1) ev] by blast
  have "stat t (path_str e) = Inr x" using assms(1) e(2,3) by (intro node_at_real) simp_all
  then have "t e = Some Directory" using st e(1,2) by simp
  then show ?thesis using e insideManagedRoot_prefix [OF assms(1) e(4)] inside by auto
qed

section \<open>What a deletion removes\<close>

lemma path_rel_dot:
  assumes "\<forall>e\<in>set r. plain_name e" "\<forall>e\<in>set p. plain_name e"
  shows "(\<exists>x. path_rel (path_str r) (path_str p) = Some x \<and> x \<noteq> ''.'' \<and> \<not> climbs x) \<longleftrightarrow> strict_prefix r p"
proof (cases "p = r")
  case True
  then show ?thesis using assms by (simp add: path_rel_def Let_def)
next
  case False
  have prefix: "(\<exists>x. path_rel (path_str r) (path_str p) = Some x \<and> \<not> climbs x) \<longleftrightarrow> prefix r p"
    using path_rel_climbs [of "path_str r" "path_str p"] assms by simp
  have "x \<noteq> ''.''" if x: "path_rel (path_str r) (path_str p) = Some x" "prefix r p" for x
  proof -
    obtain us where us: "p = r @ us" "us \<noteq> []" using x(2) False by (auto simp: prefix_def)
    have "path_str r \<noteq> ''.''" by (simp add: path_str_def)
    then have "x = join_slash us"
      using x(1) assms us rel_words_prefix [of r p]
      by (auto simp: path_rel_def Let_def path_str_inj rel_split_str)
    then show ?thesis using relative_join(3) [of us] us assms(2) by simp
  qed
  then show ?thesis using prefix False by (auto simp: strict_prefix_def)
qed

lemma requireStrictDescendant_iff:
  assumes "\<forall>e\<in>set r. plain_name e" "\<forall>e\<in>set p. plain_name e"
  shows "requireStrictDescendant cwd (path_str r) (path_str p) = Inr u \<longleftrightarrow> strict_prefix r p"
  using path_rel_dot [OF assms] assms
  by (auto simp: requireStrictDescendant_def path_abs_def split: option.split)

lemma resolveManagedRoot_real:
  assumes "tree_ok t" "resolveManagedRoot root t = Inr real"
  shows "\<exists>r. real = path_str r \<and> t r = Some Directory \<and> (\<forall>e\<in>set r. plain_name e)"
proof -
  from assms(2) obtain c where ev: "eval_symlinks t c = Inr real" and st: "stat t real = Inr Directory"
    by (auto simp: resolveManagedRoot_def split: sum.splits node.splits)
  obtain r x where r: "real = path_str r" "t r = Some x" "\<forall>l. x \<noteq> Link l" "\<forall>e\<in>set r. plain_name e"
    using eval_symlinks_real [OF assms(1) ev] by blast
  have "stat t (path_str r) = Inr x" using assms(1) r(2,3) by (intro node_at_real) simp_all
  then show ?thesis using r st by auto
qed

text \<open>A command that only asks: git leaves the tree as it is.\<close>

definition only_asks :: "git \<Rightarrow> string list \<Rightarrow> bool" where
  "only_asks git args \<longleftrightarrow> (\<forall>d t. snd (git (gitCommandArguments d args) t) = t)"

lemma quiet_runGit [simp]: "only_asks git args \<Longrightarrow> quiet (runGit git d args)"
  by (auto simp: only_asks_def quiet_def runGit_def Let_def split: prod.split) (metis snd_conv)+

lemma quiet_gitOutput [simp]: "only_asks git args \<Longrightarrow> quiet (gitOutput git context d args)"
  unfolding gitOutput_def by (rule quiet_andThen) (auto split: option.split)

lemma quiet_resolveRepository [simp]:
  "only_asks git [''rev-parse'', ''--show-toplevel''] \<Longrightarrow> quiet (resolveRepository git cwd roots path)"
  unfolding resolveRepository_def by (intro quiet_andThen allI) auto

lemma resolveRepository_Inr:
  assumes "resolveRepository git cwd roots path s = (Inr p, s')"
  shows "allowedExistingPath path roots (tree s) = Inr p"
  using assms by (auto simp: resolveRepository_def andThen_Inr gitOutput_Inr split: if_splits)

text \<open>An operation that changes the tree only when it succeeds.\<close>

definition fails_quietly :: "'a operation \<Rightarrow> bool" where
  "fails_quietly m \<longleftrightarrow> (\<forall>s e s'. m s = (Inl e, s') \<longrightarrow> tree s' = tree s)"

lemma quiet_fails [simp]: "quiet m \<Longrightarrow> fails_quietly m"
  unfolding quiet_def fails_quietly_def by (metis snd_conv)

lemma fails_quietly_andThen:
  assumes "quiet m" "\<forall>a. fails_quietly (f a)"
  shows "fails_quietly (andThen m f)"
  unfolding fails_quietly_def
proof (intro allI impI)
  fix s e s'
  assume run: "andThen m f s = (Inl e, s')"
  show "tree s' = tree s"
  proof (cases "m s")
    case (Pair r s1)
    have "tree s1 = tree s" using assms(1) Pair by (metis quiet_def snd_conv)
    moreover have "tree s' = tree s1"
      using run Pair assms(2) unfolding fails_quietly_def by (cases r) (auto simp: andThen_def)
    ultimately show ?thesis by simp
  qed
qed

lemma delete_fails_quietly:
  assumes "only_asks git [''rev-parse'', ''--show-toplevel'']"
    "only_asks git [''config'', ''--local'', ''--get'', ''wio.projectId'']"
  shows "fails_quietly (DeleteManagedProject git cwd cancelled projectID repositoryPath managedRoot)"
proof -
  have "fails_quietly (delete_existing git cwd cancelled i root path x)" for i root path x
    unfolding delete_existing_def using assms
    by (intro fails_quietly_andThen allI) (auto split: prod.split, auto simp: fails_quietly_def andThen_def check_def give_def refuse_op_def
        split: prod.splits sum.splits if_splits)
  moreover have "quiet (delete_missing cwd root path)" for root path
    unfolding delete_missing_def Let_def by (intro quiet_andThen allI) auto
  ultimately show ?thesis
    unfolding DeleteManagedProject_def Let_def
    by (intro fails_quietly_andThen allI) (auto split: sum.split)
qed

lemma delete_missing_Inr:
  "delete_missing cwd root path s = (Inr a, s') \<Longrightarrow> s' = s"
  by (auto simp: delete_missing_def andThen_Inr Let_def)

lemma delete_existing_Inr:
  assumes "delete_existing git cwd cancelled i root path x s = (Inr a, s')"
  shows "\<exists>resolved p output s1 s2. requireStrictDescendant cwd root resolved = Inr ()
    \<and> eval_symlinks (tree s) path = Inr resolved
    \<and> resolveRepository git cwd [root] resolved s = (Inr p, s1)
    \<and> runGit git p [''config'', ''--local'', ''--get'', ''wio.projectId''] s1 = (Inr (None, output), s2)
    \<and> trim_space output = i
    \<and> a = \<lparr>dr_path = p, dr_deleted = True\<rparr> \<and> s' = s2\<lparr>tree := remove_all p (tree s2)\<rparr>"
  using assms by (auto simp: delete_existing_def andThen_Inr split: if_splits)


section \<open>Two clone roots\<close>

text \<open>Git for one project: it names its work tree and its marker, and changes nothing.\<close>

definition answering :: "string \<Rightarrow> string \<Rightarrow> git" where
  "answering toplevel marker args t =
     (if ''--show-toplevel'' \<in> set args then (None, toplevel)
      else if ''wio.projectId'' \<in> set args then (None, marker)
      else (Some ''exit status 1'', []), t)"

lemma answering_asks: "only_asks (answering toplevel marker) args"
  by (simp add: only_asks_def answering_def)

definition clone_root :: disk where
  "clone_root = \<lparr>tree = [[] \<mapsto> Directory, [''r''] \<mapsto> Directory, [''r'', ''p''] \<mapsto> Directory], ran = []\<rparr>"

lemma clone_root_ok: "tree_ok (tree clone_root)"
proof -
  have w: "plain_name ''r''" "plain_name ''p''" by (simp_all add: plain_name_def)
  have "tree_ok [[] \<mapsto> Directory]" by (simp add: tree_ok_def)
  then have "tree_ok [[] \<mapsto> Directory, [] @ [''r''] \<mapsto> Directory]" by (rule tree_ok_insert) (simp_all add: w)
  then have "tree_ok [[] \<mapsto> Directory, [''r''] \<mapsto> Directory, [''r''] @ [''p''] \<mapsto> Directory]"
    by (intro tree_ok_insert) (simp_all add: w)
  then show ?thesis by (simp add: clone_root_def)
qed


definition blank_root :: disk where
  "blank_root = \<lparr>tree = [[] \<mapsto> Directory, [''r''] \<mapsto> Directory, [''r'', '' ''] \<mapsto> Directory], ran = []\<rparr>"

text \<open>
  White space at the end of a name defeats the rule that a project lies strictly below the clone
  root. The path is trimmed again after that check, so a request for a directory named by a space
  deletes the clone root itself, when the root is a work tree with the marker of the project.
\<close>

theorem blank_name_deletes_root:
  "fst (DeleteManagedProject (answering ''/r'' ''p1'') ''/'' False ''p1'' ''/r/ /'' ''/r'' blank_root)
    = Inr \<lparr>dr_path = ''/r'', dr_deleted = True\<rparr>
   \<and> tree (snd (DeleteManagedProject (answering ''/r'' ''p1'') ''/'' False ''p1'' ''/r/ /'' ''/r'' blank_root)) [''r''] = None"
  by code_simp

end
