(* ===== verification/Workspace_Files.thy ===== *)
theory Workspace_Files
  imports File_Tree
begin

text \<open>
  The agent's access to the files of a workspace (\<open>internal/scanner/scanner.go\<close> and
  \<open>internal/scanner/write.go\<close>): the check that a workspace lies in a configured root, reading one
  file for a preview, and creating or editing one. What other processes do to the tree between two
  steps of a write, the numbers that \<open>os.CreateTemp\<close> draws, SHA-256 and the failures of the disk
  are part of the \<open>host\<close>.
\<close>

section \<open>The host\<close>

record host =
  working_dir :: string
  ctx_done :: "nat \<Rightarrow> bool"
  disk_fails :: bool
  world :: "nat \<Rightarrow> file_tree \<Rightarrow> file_tree"
  temp_draws :: "nat list"
  sha256_hex :: "string \<Rightarrow> string"

text \<open>\<open>utf8.Valid\<close>.\<close>

function valid_utf8 :: "string \<Rightarrow> bool" where
  "valid_utf8 s =
     (if s = [] then True
      else if rune_width s = 0 then False
      else valid_utf8 (drop (rune_width s) s))"
  by pat_completeness auto
termination by (relation "measure length") auto

declare valid_utf8.simps [simp del]

section \<open>Workspaces\<close>

definition within :: "string \<Rightarrow> string \<Rightarrow> bool" where
  "within root child =
     (case path_rel root child of None \<Rightarrow> False | Some relative \<Rightarrow> \<not> climbs relative)"

definition allowed_root :: "host \<Rightarrow> file_tree \<Rightarrow> string \<Rightarrow> string" where
  "allowed_root h fs candidate =
     (let c = path_abs (working_dir h) (path_clean candidate)
      in case eval_symlinks fs c of Inr resolved \<Rightarrow> resolved | Inl _ \<Rightarrow> c)"

definition ResolveWorkspaceRoot :: "host \<Rightarrow> string \<Rightarrow> string list \<Rightarrow> file_tree \<Rightarrow> fs_error + string" where
  "ResolveWorkspaceRoot h root allowedRoots fs =
     try_then (eval_symlinks fs (path_abs (working_dir h) (path_clean root))) (\<lambda>root.
     try_then (stat fs root) (\<lambda>info.
       if info \<noteq> Directory then Inl (Refused ''workspace path is not a directory'')
       else if \<exists>candidate\<in>set allowedRoots. within (allowed_root h fs candidate) root then Inr root
       else Inl (Refused ''workspace path is outside the configured scan roots'')))"

section \<open>Reading\<close>

record preview =
  pv_path :: string
  pv_content :: string
  pv_size :: nat
  pv_truncated :: bool

text \<open>After a cut, at most four bytes (\<open>utf8.UTFMax\<close>) are dropped to end on a whole rune.\<close>

fun cut_to_rune :: "nat \<Rightarrow> string \<Rightarrow> string" where
  "cut_to_rune 0 data = data"
| "cut_to_rune (Suc k) data =
     (if data \<noteq> [] \<and> \<not> valid_utf8 data then cut_to_rune k (butlast data) else data)"

definition preview_text :: "nat \<Rightarrow> string \<Rightarrow> fs_error + (string \<times> bool)" where
  "preview_text limit content =
     (let data = take (limit + 1) content;
          truncated = length data > limit;
          text = (if truncated then cut_to_rune 4 (take limit data) else data)
      in if CHR 0x00 \<in> set text \<or> \<not> valid_utf8 text
         then Inl (Refused ''file preview only supports UTF-8 text files'')
         else Inr (text, truncated))"

definition ReadWorkspaceFile ::
  "host \<Rightarrow> string \<Rightarrow> string \<Rightarrow> string list \<Rightarrow> int \<Rightarrow> file_tree \<Rightarrow> fs_error + preview" where
  "ReadWorkspaceFile h root relative allowedRoots limit fs =
     (let limit = (if limit \<le> 0 then 1024 * 1024 else nat limit) in
      try_then (ResolveWorkspaceRoot h root allowedRoots fs) (\<lambda>root.
        let clean = path_clean (trim_space relative) in
        if clean = ''.'' \<or> is_abs clean \<or> climbs clean
        then Inl (Refused ''file path must stay inside the workspace'')
        else try_then (eval_symlinks fs (path_join [root, clean])) (\<lambda>target.
          if \<not> within root target then Inl (Refused ''file path resolves outside the workspace'')
          else try_then (stat fs target) (\<lambda>info.
            case info of
              Regular mode content \<Rightarrow>
                if ctx_done h 0 then Inl Cancelled
                else try_then (preview_text limit content) (\<lambda>(text, truncated).
                  Inr \<lparr>pv_path = clean, pv_content = text, pv_size = length content,
                    pv_truncated = truncated\<rparr>)
            | _ \<Rightarrow> Inl (Refused ''file preview only supports regular files'')))))"

section \<open>Writing\<close>

record write_command =
  w_root :: string
  w_path :: string
  w_content :: string
  w_expected_hash :: string
  w_create :: bool

definition MaxWorkspaceFileBytes :: nat where
  "MaxWorkspaceFileBytes = 1024 * 1024"

definition write_parts :: "string \<Rightarrow> string list option" where
  "write_parts path =
     (let relative = map (\<lambda>c. if c = CHR 0x5C then CHR ''/'' else c) path;
          parts = split_on (CHR ''/'') relative
      in if relative = [] \<or> has_prefix relative ''/'' \<or> CHR '':'' \<in> set relative \<or> CHR 0x00 \<in> set relative
         then None
         else if \<exists>part\<in>set parts. part = [] \<or> part = ''.'' \<or> part = ''..'' \<or> map lower_char part = ''.git''
         then None
         else Some parts)"

text \<open>One round of the loop over the parents: the entry of \<open>parent\<close> must be a directory, and is made when it may be.\<close>

definition enter_parent :: "bool \<Rightarrow> string \<Rightarrow> file_tree \<Rightarrow> (fs_error + unit) \<times> file_tree" where
  "enter_parent create parent fs =
     (let (info, fs1) =
        (case lstat fs parent of
           Inr x \<Rightarrow> (Inr x, fs)
         | Inl e \<Rightarrow>
             if not_exist e \<and> create
             then (case mkdir parent fs of
                     Inr fs1 \<Rightarrow> (lstat fs1 parent, fs1)
                   | Inl e' \<Rightarrow> if e' = EEXIST then (lstat fs parent, fs) else (Inl e', fs))
             else (Inl e, fs))
      in case info of
           Inl e \<Rightarrow> (Inl e, fs1)
         | Inr Directory \<Rightarrow> (Inr (), fs1)
         | Inr _ \<Rightarrow> (Inl (Refused ''file parent must be a directory, not a symbolic link''), fs1))"

fun open_parents ::
  "bool \<Rightarrow> string \<Rightarrow> string list \<Rightarrow> file_tree \<Rightarrow> (fs_error + string) \<times> file_tree" where
  "open_parents create parent [] fs = (Inr parent, fs)"
| "open_parents create parent (part # parts) fs =
     (case enter_parent create (path_join [parent, part]) fs of
        (Inl e, fs1) \<Rightarrow> (Inl e, fs1)
      | (Inr _, fs1) \<Rightarrow> open_parents create (path_join [parent, part]) parts fs1)"

definition checkOriginal :: "host \<Rightarrow> write_command \<Rightarrow> string \<Rightarrow> file_tree \<Rightarrow> fs_error + nat" where
  "checkOriginal h command target fs =
     try_then (lstat fs target) (\<lambda>info.
       case info of
         Regular mode content \<Rightarrow>
           if length content > MaxWorkspaceFileBytes then Inl (Refused ''file exceeds the 1 MiB limit'')
           else if w_expected_hash command = [] \<or> sha256_hex h content \<noteq> w_expected_hash command
           then Inl (Refused ''file changed since preview; refresh it before editing again'')
           else Inr mode
       | _ \<Rightarrow> Inl (Refused ''only regular files can be edited''))"

text \<open>The last step gives the finished temporary file its name.\<close>

definition publish :: "host \<Rightarrow> write_command \<Rightarrow> string \<Rightarrow> string \<Rightarrow> file_tree \<Rightarrow> (fs_error + unit) \<times> file_tree" where
  "publish h command temporary target fs =
     (if w_create command
      then (case link_to temporary target fs of
              Inl e \<Rightarrow>
                (Inl (if e = EEXIST then Refused ''file already exists; choose another path'' else e), fs)
            | Inr fs1 \<Rightarrow> (Inr (), fs1))
      else (case checkOriginal h command target fs of
              Inl e \<Rightarrow> (Inl e, fs)
            | Inr mode \<Rightarrow>
                (case rename_to temporary target fs of
                   Inl e \<Rightarrow> (Inl e, fs)
                 | Inr fs1 \<Rightarrow> (Inr (), fs1))))"

definition write_temporary ::
  "host \<Rightarrow> write_command \<Rightarrow> string \<Rightarrow> string \<Rightarrow> nat \<Rightarrow> file_tree \<Rightarrow> (fs_error + unit) \<times> file_tree" where
  "write_temporary h command parent target mode fs =
     (case create_temp parent ''.wio-write-'' (temp_draws h) fs of
        Inl e \<Rightarrow> (Inl e, fs)
      | Inr (temporary, open_file, fs1) \<Rightarrow>
          if disk_fails h then (Inl EIO, remove_file temporary fs1)
          else
            let fs2 = world h 1 (fs1(open_file \<mapsto> Regular mode (w_content command)));
                (r, fs3) = (if ctx_done h 2 then (Inl Cancelled, fs2)
                            else publish h command temporary target fs2)
            in (r, remove_file temporary fs3))"

text \<open>A new file has mode 0644, which is 420; an edit keeps the mode of the original.\<close>

definition WriteWorkspaceFile ::
  "host \<Rightarrow> write_command \<Rightarrow> string list \<Rightarrow> file_tree \<Rightarrow> (fs_error + unit) \<times> file_tree" where
  "WriteWorkspaceFile h command allowedRoots fs =
     (if ctx_done h 0 then (Inl Cancelled, fs)
      else if length (w_content command) > MaxWorkspaceFileBytes
      then (Inl (Refused ''file exceeds the 1 MiB limit''), fs)
      else case ResolveWorkspaceRoot h (w_root command) allowedRoots fs of
        Inl e \<Rightarrow> (Inl e, fs)
      | Inr root \<Rightarrow>
          (case write_parts (w_path command) of
             None \<Rightarrow> (Inl (Refused ''invalid workspace file path''), fs)
           | Some parts \<Rightarrow>
               (case open_parents (w_create command) root (butlast parts) fs of
                  (Inl e, fs1) \<Rightarrow> (Inl e, fs1)
                | (Inr parent, fs1) \<Rightarrow>
                    let target = path_join [parent, last parts] in
                    (case (if w_create command then Inr 420 else checkOriginal h command target fs1) of
                       Inl e \<Rightarrow> (Inl e, fs1)
                     | Inr mode \<Rightarrow>
                         if ctx_done h 1 then (Inl Cancelled, fs1)
                         else write_temporary h command parent target mode (world h 0 fs1)))))"

section \<open>The lexical check is the prefix order\<close>

lemma within_prefix:
  "\<lbrakk>is_abs root; is_abs child\<rbrakk> \<Longrightarrow> within root child \<longleftrightarrow> prefix (abs_elems root) (abs_elems child)"
  using path_rel_climbs [of root child] by (auto simp: within_def split: option.split)

lemma within_str:
  "\<lbrakk>\<forall>e\<in>set r. plain_name e; \<forall>e\<in>set q. plain_name e\<rbrakk> \<Longrightarrow> within (path_str r) (path_str q) \<longleftrightarrow> prefix r q"
  by (simp add: within_prefix)

lemma is_abs_allowed_root:
  assumes "is_abs (working_dir h)"
  shows "is_abs (allowed_root h fs c)"
proof (cases "eval_symlinks fs (path_abs (working_dir h) (path_clean c))")
  case (Inl e)
  then show ?thesis by (simp add: allowed_root_def is_abs_path_abs [OF assms])
next
  case (Inr r)
  then have "is_abs r"
    by (cases "walk fs 255 True [] (path_elems (path_abs (working_dir h) (path_clean c)))")
      (auto simp: eval_symlinks_def)
  then show ?thesis by (simp add: allowed_root_def Inr)
qed

text \<open>A workspace root is the real path of a directory below an allowed root.\<close>

lemma workspace_root_real:
  assumes ok: "tree_ok fs" and cwd: "is_abs (working_dir h)"
    and root: "ResolveWorkspaceRoot h p roots fs = Inr root"
  shows "\<exists>r c. root = path_str r \<and> fs r = Some Directory \<and> (\<forall>e\<in>set r. plain_name e)
    \<and> c \<in> set roots \<and> prefix (abs_elems (allowed_root h fs c)) r"
proof -
  from root have ev: "eval_symlinks fs (path_abs (working_dir h) (path_clean p)) = Inr root"
    and st: "stat fs root = Inr Directory"
    and "\<exists>c\<in>set roots. within (allowed_root h fs c) root"
    by (auto simp: ResolveWorkspaceRoot_def try_then_Inr_iff split: if_splits)
  then obtain c where c: "c \<in> set roots" "within (allowed_root h fs c) root" by blast
  obtain r x where r: "root = path_str r" "fs r = Some x" "\<forall>t. x \<noteq> Link t" "\<forall>e\<in>set r. plain_name e"
    using eval_symlinks_real [OF ok ev] by blast
  have "stat fs (path_str r) = Inr x" using ok r(2,3) by (intro node_at_real) simp_all
  then have "x = Directory" using st r(1) by simp
  then show ?thesis using c r is_abs_allowed_root [OF cwd] by (auto simp: within_prefix)
qed

lemma valid_parts:
  assumes "write_parts p = Some parts"
  shows "parts \<noteq> []" "\<forall>e\<in>set parts. plain_name e \<and> map lower_char e \<noteq> ''.git''"
  using assms split_on_no_sep by (auto simp: write_parts_def Let_def plain_name_def split: if_splits)

section \<open>A preview comes from inside the workspace\<close>

lemma cut_to_rune_prefix: "prefix (cut_to_rune k s) s"
proof (induction k arbitrary: s)
  case (Suc k)
  have "prefix (butlast s) s" by (cases s rule: rev_cases) simp_all
  then show ?case using Suc.IH [of "butlast s"] by (auto intro: prefix_order.trans)
qed simp

lemma preview_text_prefix:
  assumes "preview_text limit content = Inr (shown, truncated)"
  shows "prefix shown content" "length shown \<le> limit" "valid_utf8 shown" "truncated \<longleftrightarrow> limit < length content"
    "\<not> truncated \<Longrightarrow> shown = content"
proof -
  have cut: "prefix (cut_to_rune 4 (take limit content)) (take limit content)"
    by (rule cut_to_rune_prefix)
  have shown: "shown = (if limit < length content then cut_to_rune 4 (take limit content) else content)"
    and "truncated \<longleftrightarrow> limit < length content" "valid_utf8 shown"
    using assms by (auto simp: preview_text_def Let_def min_def split: if_splits)
  then show "truncated \<longleftrightarrow> limit < length content" "valid_utf8 shown" "\<not> truncated \<Longrightarrow> shown = content"
    by auto
  have "prefix (take limit content) content" by (rule take_is_prefix)
  then show "prefix shown content" using cut shown by (auto intro: prefix_order.trans)
  show "length shown \<le> limit" using prefix_length_le [OF cut] shown by auto
qed

lemma read_confined:
  assumes ok: "tree_ok fs" and cwd: "is_abs (working_dir h)"
    and read: "ReadWorkspaceFile h root relative roots limit fs = Inr pv"
  shows "\<exists>r q mode content. ResolveWorkspaceRoot h root roots fs = Inr (path_str r)
    \<and> prefix r q \<and> fs q = Some (Regular mode content)
    \<and> prefix (pv_content pv) content \<and> pv_size pv = length content"
proof -
  let ?limit = "if limit \<le> 0 then 1024 * 1024 else nat limit"
  let ?clean = "path_clean (trim_space relative)"
  from read obtain base target info where
    base: "ResolveWorkspaceRoot h root roots fs = Inr base"
    and target: "eval_symlinks fs (path_join [base, ?clean]) = Inr target"
    and inside: "within base target"
    and info: "stat fs target = Inr info"
    and result: "(case info of
        Regular mode content \<Rightarrow>
          if ctx_done h 0 then Inl Cancelled
          else try_then (preview_text ?limit content) (\<lambda>(shown, truncated).
            Inr \<lparr>pv_path = ?clean, pv_content = shown, pv_size = length content,
              pv_truncated = truncated\<rparr>)
      | _ \<Rightarrow> Inl (Refused ''file preview only supports regular files'')) = Inr pv"
    by (auto simp: ReadWorkspaceFile_def Let_def try_then_Inr_iff split: if_splits)
  obtain mode content shown truncated where
    reg: "info = Regular mode content" and shown: "preview_text ?limit content = Inr (shown, truncated)"
    and pv: "pv = \<lparr>pv_path = ?clean, pv_content = shown, pv_size = length content, pv_truncated = truncated\<rparr>"
    using result by (auto simp: try_then_Inr_iff split: node.splits if_splits)
  obtain r where r: "base = path_str r" "\<forall>e\<in>set r. plain_name e"
    using workspace_root_real [OF ok cwd base] by blast
  obtain q x where q: "target = path_str q" "fs q = Some x" "\<forall>t. x \<noteq> Link t" "\<forall>e\<in>set q. plain_name e"
    using eval_symlinks_real [OF ok target] by blast
  have "stat fs (path_str q) = Inr x" using ok q(2,3) by (intro node_at_real) simp_all
  then have "x = Regular mode content" using info reg q(1) by simp
  then show ?thesis
    using base r q inside preview_text_prefix(1) [OF shown] pv by (auto simp: within_str)
qed

section \<open>A write stays inside the workspace\<close>

lemma enter_parent_name:
  assumes "tree_ok fs" "fs d = Some Directory" "plain_name x"
  shows "enter_parent create (path_str (d @ [x])) fs =
    (case fs (d @ [x]) of
       None \<Rightarrow> if create then (Inr (), fs(d @ [x] \<mapsto> Directory)) else (Inl (Absent (d @ [x])), fs)
     | Some Directory \<Rightarrow> (Inr (), fs)
     | Some _ \<Rightarrow> (Inl (Refused ''file parent must be a directory, not a symbolic link''), fs))"
proof (cases "fs (d @ [x])")
  case None
  have "tree_ok (fs(d @ [x] \<mapsto> Directory))" using assms None by (intro tree_ok_insert) simp_all
  then have "lstat (fs(d @ [x] \<mapsto> Directory)) (path_str (d @ [x])) = Inr Directory"
    by (rule node_at_real) simp_all
  then show ?thesis by (simp add: enter_parent_def lstat_name [OF assms] mkdir_name [OF assms] None)
next
  case (Some y)
  then show ?thesis by (cases y) (simp_all add: enter_parent_def lstat_name [OF assms])
qed

text \<open>The parents that are made are the only change, and the last of them is a directory.\<close>

definition new_parents :: "string list \<Rightarrow> string list \<Rightarrow> file_tree \<Rightarrow> file_tree \<Rightarrow> bool" where
  "new_parents d p fs fs' \<longleftrightarrow>
     (\<forall>q. fs' q \<noteq> fs q \<longrightarrow> fs q = None \<and> fs' q = Some Directory \<and> strict_prefix d q \<and> prefix q p)"

lemma new_parentsD:
  "\<lbrakk>new_parents d p fs fs'; fs' q \<noteq> fs q\<rbrakk>
    \<Longrightarrow> fs q = None \<and> fs' q = Some Directory \<and> strict_prefix d q \<and> prefix q p"
  unfolding new_parents_def by blast

lemma open_parents_real:
  assumes "tree_ok fs" "fs d = Some Directory" "\<forall>e\<in>set parts. plain_name e"
    "open_parents create (path_str d) parts fs = (r, fs')"
  shows "tree_ok fs'" "new_parents d (d @ parts) fs fs'"
    "\<not> create \<Longrightarrow> fs' = fs"
    "r = Inr parent \<Longrightarrow> parent = path_str (d @ parts) \<and> fs' (d @ parts) = Some Directory"
proof -
  have "tree_ok fs' \<and> new_parents d (d @ parts) fs fs' \<and> (\<not> create \<longrightarrow> fs' = fs)
    \<and> (\<forall>parent. r = Inr parent \<longrightarrow> parent = path_str (d @ parts) \<and> fs' (d @ parts) = Some Directory)"
    using assms
  proof (induction parts arbitrary: d fs)
    case Nil
    then show ?case by (auto simp: new_parents_def)
  next
    case (Cons x parts)
    have d: "\<forall>e\<in>set d. plain_name e" by (rule tree_ok_plain [OF Cons.prems(1)]) (simp add: Cons.prems(2))
    have x: "plain_name x" using Cons.prems(3) by simp
    note enter = enter_parent_name [OF Cons.prems(1,2) x]
    have join: "path_join [path_str d, x] = path_str (d @ [x])" using d x by simp
    show ?case
    proof (cases "fs (d @ [x])")
      case None
      define fs1 where "fs1 = fs(d @ [x] \<mapsto> Directory)"
      have at: "fs1 (d @ [x]) = Some Directory" "\<forall>q. q \<noteq> d @ [x] \<longrightarrow> fs1 q = fs q"
        by (simp_all add: fs1_def)
      show ?thesis
      proof (cases create)
        case True
        have ok: "tree_ok fs1" unfolding fs1_def using Cons.prems(1,2) x None by (intro tree_ok_insert) simp_all
        have "open_parents create (path_str (d @ [x])) parts fs1 = (r, fs')"
          using Cons.prems(4) by (simp add: join enter None True fs1_def)
        from Cons.IH [OF ok at(1) _ this] Cons.prems(3)
        have IH: "tree_ok fs'" "new_parents (d @ [x]) (d @ x # parts) fs1 fs'"
          "\<forall>parent. r = Inr parent \<longrightarrow> parent = path_str (d @ x # parts) \<and> fs' (d @ x # parts) = Some Directory"
          by auto
        have "fs' (d @ [x]) = Some Directory"
          using IH(2) at(1) unfolding new_parents_def by (metis prefix_order.less_irrefl)
        then have "fs' q \<noteq> fs q \<Longrightarrow> fs q = None \<and> fs' q = Some Directory \<and> strict_prefix d q
            \<and> prefix q (d @ x # parts)" for q
          using new_parentsD [OF IH(2), of q] None at(2)
          by (cases "q = d @ [x]") (auto simp: strict_prefix_def dest: append_prefixD)
        then have "new_parents d (d @ x # parts) fs fs'" by (simp add: new_parents_def)
        then show ?thesis using IH True by simp
      next
        case False
        then show ?thesis using Cons.prems by (auto simp: join enter None new_parents_def)
      qed
    next
      case (Some y)
      show ?thesis
      proof (cases "y = Directory")
        case True
        have "open_parents create (path_str (d @ [x])) parts fs = (r, fs')"
          using Cons.prems(4) by (simp add: join enter Some True)
        from Cons.IH [OF Cons.prems(1) _ _ this] Cons.prems(3) Some True
        show ?thesis by (auto simp: new_parents_def strict_prefix_def dest: append_prefixD)
      next
        case False
        then have "fs' = fs \<and> (\<exists>e. r = Inl e)" using Cons.prems(4) by (cases y) (auto simp: join enter Some)
        then show ?thesis using Cons.prems(1) by (auto simp: new_parents_def)
      qed
    qed
  qed
  then show "tree_ok fs'" "new_parents d (d @ parts) fs fs'" "\<not> create \<Longrightarrow> fs' = fs"
    "r = Inr parent \<Longrightarrow> parent = path_str (d @ parts) \<and> fs' (d @ parts) = Some Directory" by auto
qed

lemma checkOriginal_name:
  assumes "tree_ok fs" "fs d = Some Directory" "plain_name x"
  shows "checkOriginal h command (path_str (d @ [x])) fs = Inr mode \<longleftrightarrow>
    (\<exists>content. fs (d @ [x]) = Some (Regular mode content) \<and> length content \<le> MaxWorkspaceFileBytes
      \<and> w_expected_hash command \<noteq> [] \<and> sha256_hex h content = w_expected_hash command)"
  by (cases "fs (d @ [x])")
    (auto simp: checkOriginal_def lstat_name [OF assms] split: node.splits)

text \<open>What the last step may find under the target's name for the write to succeed.\<close>

definition may_publish :: "host \<Rightarrow> write_command \<Rightarrow> node option \<Rightarrow> bool" where
  "may_publish h command entry \<longleftrightarrow>
     (if w_create command then entry = None
      else \<exists>mode content. entry = Some (Regular mode content)
        \<and> length content \<le> MaxWorkspaceFileBytes
        \<and> w_expected_hash command \<noteq> [] \<and> sha256_hex h content = w_expected_hash command)"

lemma publish_names:
  assumes ok: "tree_ok fs" "fs d = Some Directory" and names: "plain_name x" "plain_name t" "x \<noteq> t"
    and temp: "fs (d @ [t]) = Some f"
    and run: "publish h command (path_str (d @ [t])) (path_str (d @ [x])) fs = (r, fs')"
  shows "if may_publish h command (fs (d @ [x]))
    then r = Inr () \<and> (fs' = fs(d @ [x] \<mapsto> f) \<or> fs' = fs(d @ [t] := None, d @ [x] \<mapsto> f))
    else (\<exists>e. r = Inl e) \<and> fs' = fs"
proof (cases "w_create command")
  case True
  then show ?thesis
    using run temp by (auto simp: publish_def may_publish_def link_names [OF ok names(1,2)])
next
  case False
  note orig = checkOriginal_name [OF ok names(1), of h command]
  show ?thesis
  proof (cases "checkOriginal h command (path_str (d @ [x])) fs")
    case (Inl e)
    then have "\<not> may_publish h command (fs (d @ [x]))"
      using orig False by (auto simp: may_publish_def)
    then show ?thesis using run Inl False by (auto simp: publish_def)
  next
    case (Inr m)
    then have "may_publish h command (fs (d @ [x]))" "fs (d @ [x]) \<noteq> Some Directory"
      using orig False by (auto simp: may_publish_def)
    then show ?thesis
      using run Inr False temp names(3) by (auto simp: publish_def rename_names [OF ok names(1,2)])
  qed
qed

text \<open>The temporary file is gone at the end, whatever happened.\<close>

lemma remove_published:
  assumes "tree_ok fs" "fs d = Some Directory" "plain_name x" "plain_name t" "x \<noteq> t"
    "fs (d @ [t]) = Some (Regular m c)"
    "fs' = fs \<or> fs (d @ [x]) \<noteq> Some Directory \<and>
      fs' \<in> {fs(d @ [x] \<mapsto> Regular m c), fs(d @ [t] := None, d @ [x] \<mapsto> Regular m c)}"
  shows "remove_file (path_str (d @ [t])) fs' = fs'(d @ [t] := None)"
proof -
  have "tree_ok fs'"
  proof (cases "fs' = fs")
    case False
    then have "fs (d @ [x]) \<noteq> Some Directory" using assms(7) by blast
    then have ok: "tree_ok (fs(d @ [x] \<mapsto> Regular m c))" using assms(1-3) by (intro tree_ok_insert)
    then have "tree_ok (fs(d @ [x] \<mapsto> Regular m c, d @ [t] := None))"
      by (rule tree_ok_remove) (use assms(5,6) in simp)
    then have "tree_ok (fs(d @ [t] := None, d @ [x] \<mapsto> Regular m c))"
      using assms(5) by (simp add: fun_upd_twist)
    then show ?thesis using ok assms(7) False by auto
  qed (simp add: assms(1))
  moreover have "fs' d = Some Directory" "fs' (d @ [t]) \<noteq> Some Directory" using assms(2,5,6,7) by auto
  ultimately show ?thesis using assms(4) by (simp add: remove_name)
qed

text \<open>
  What another process may do while the temporary file is written: nothing, or put a file of its own
  at the target.
\<close>

definition overwrite :: "string list \<Rightarrow> (nat \<times> string) option \<Rightarrow> file_tree \<Rightarrow> file_tree" where
  "overwrite p other fs = (case other of None \<Rightarrow> fs | Some (m, c) \<Rightarrow> fs(p \<mapsto> Regular m c))"

lemma overwrite_other: "q \<noteq> p \<Longrightarrow> overwrite p other fs q = fs q"
  by (simp add: overwrite_def split: option.split)

lemma overwrite_upd: "q \<noteq> p \<Longrightarrow> overwrite p other (fs(q := y)) = (overwrite p other fs)(q := y)"
  by (auto simp: overwrite_def fun_upd_twist split: option.split)

lemma tree_ok_overwrite:
  "\<lbrakk>tree_ok fs; fs d = Some Directory; plain_name x; fs (d @ [x]) \<noteq> Some Directory\<rbrakk>
    \<Longrightarrow> tree_ok (overwrite (d @ [x]) other fs)"
  by (auto simp: overwrite_def tree_ok_insert split: option.split)

definition temp_name :: "string \<Rightarrow> bool" where
  "temp_name x \<longleftrightarrow> has_prefix x ''.wio-write-''"

lemma write_temporary_result:
  assumes ok: "tree_ok fs" "fs d = Some Directory" "plain_name x" "\<not> temp_name x"
    and entry: "other \<noteq> None \<Longrightarrow> fs (d @ [x]) \<noteq> Some Directory"
    and other: "world h 1 = overwrite (d @ [x]) other"
    and run: "write_temporary h command (path_str d) (path_str (d @ [x])) mode fs = (r, fs')"
  shows "r = Inr () \<and> may_publish h command (overwrite (d @ [x]) other fs (d @ [x]))
      \<and> fs' = fs(d @ [x] \<mapsto> Regular mode (w_content command))
    \<or> (\<exists>e. r = Inl e) \<and> (fs' = fs \<or> fs' = overwrite (d @ [x]) other fs)"
proof (cases "create_temp (path_str d) ''.wio-write-'' (temp_draws h) fs")
  case (Inl e)
  then show ?thesis using run by (auto simp: write_temporary_def)
next
  case (Inr a)
  obtain p q fs1 where a: "a = (p, q, fs1)" by (cases a)
  obtain n where n: "p = path_join [path_str d, ''.wio-write-'' @ decimal_digits n]"
    "locate fs False p = Inl (Absent q)" "fs1 = fs(q \<mapsto> Regular 384 [])"
    using create_temp_new Inr a by blast
  define t where "t = ''.wio-write-'' @ decimal_digits n"
  have t: "plain_name t" unfolding t_def by (rule plain_temp_name) simp_all
  have xt: "x \<noteq> t" using ok(4) by (auto simp: temp_name_def t_def has_prefix_def)
  have d: "\<forall>e\<in>set d. plain_name e" by (rule tree_ok_plain [OF ok(1)]) (simp add: ok(2))
  have p: "p = path_str (d @ [t])" unfolding n(1) t_def [symmetric] using d t by (rule path_join_plain)
  have q: "q = d @ [t]" and free: "fs (d @ [t]) = None"
    using n(2) locate_name [OF ok(1,2) t] by (auto simp: p split: if_splits)
  let ?f = "Regular mode (w_content command)"
  let ?E = "overwrite (d @ [x]) other fs"
  let ?W = "?E(d @ [t] \<mapsto> ?f)"
  have E: "tree_ok ?E" "?E d = Some Directory" "?E (d @ [t]) = None"
    using ok(1-3) entry free xt
    by (auto simp: overwrite_def tree_ok_insert split: option.split)
  have W: "tree_ok ?W" "?W d = Some Directory" "?W (d @ [t]) = Some ?f" "?W (d @ [x]) = ?E (d @ [x])"
    using E t xt by (simp_all add: tree_ok_insert)
  have world: "world h 1 (fs1(q \<mapsto> ?f)) = ?W"
    unfolding other n(3) q using xt by (simp add: overwrite_upd)
  have gone: "remove_file p (fs(d @ [t] \<mapsto> y)) = fs" if "y \<noteq> Directory" for y
    using ok(1,2) t free that by (simp add: p remove_name tree_ok_insert fun_upd_idem)
  have clear: "remove_file p fs3 = fs3(d @ [t] := None)"
    if "fs3 = ?W \<or> ?W (d @ [x]) \<noteq> Some Directory \<and>
      fs3 \<in> {?W(d @ [x] \<mapsto> ?f), ?W(d @ [t] := None, d @ [x] \<mapsto> ?f)}" for fs3
    unfolding p by (rule remove_published [OF W(1,2) ok(3) t xt W(3) that])
  have undo: "?W(d @ [t] := None) = ?E" using E(3) by (simp add: fun_upd_idem)
  show ?thesis
  proof (cases "disk_fails h")
    case True
    then show ?thesis using run gone by (auto simp: write_temporary_def Inr a n(3) q)
  next
    case False
    show ?thesis
    proof (cases "ctx_done h 2")
      case True
      then have "r = Inl Cancelled" "fs' = remove_file p ?W"
        using run False world by (auto simp: write_temporary_def Inr a Let_def)
      then show ?thesis using clear [of ?W] undo by simp
    next
      case live: False
      obtain r' fs3 where pub: "publish h command (path_str (d @ [t])) (path_str (d @ [x])) ?W = (r', fs3)"
        by (cases "publish h command (path_str (d @ [t])) (path_str (d @ [x])) ?W")
      have res: "r = r'" "fs' = remove_file p fs3"
        using run False live world pub by (auto simp: write_temporary_def Inr a Let_def p)
      note outcome = publish_names [OF W(1,2) ok(3) t xt W(3) pub]
      show ?thesis
      proof (cases "may_publish h command (?W (d @ [x]))")
        case True
        then have "r' = Inr ()" "fs3 \<in> {?W(d @ [x] \<mapsto> ?f), ?W(d @ [t] := None, d @ [x] \<mapsto> ?f)}"
          using outcome by auto
        moreover have "?W (d @ [x]) \<noteq> Some Directory"
          using True by (auto simp: may_publish_def split: if_splits)
        moreover from calculation have "remove_file p fs3 = ?E(d @ [x] \<mapsto> ?f)"
          using clear [of fs3] undo xt by (auto simp: fun_upd_twist)
        moreover have "?E(d @ [x] \<mapsto> ?f) = fs(d @ [x] \<mapsto> ?f)"
          by (auto simp: overwrite_def split: option.split)
        ultimately show ?thesis using res True W(4) by auto
      next
        case False
        then have "\<exists>e. r' = Inl e" "fs3 = ?W" using outcome by auto
        then show ?thesis using res clear [of ?W] undo by auto
      qed
    qed
  qed
qed

lemma write_result:
  assumes ok: "tree_ok fs" and cwd: "is_abs (working_dir h)"
    and root: "ResolveWorkspaceRoot h (w_root command) roots fs = Inr (path_str r)"
    and parts: "write_parts (w_path command) = Some parts" "\<not> temp_name (last parts)"
    and world: "world h 0 = (\<lambda>t. t)" "world h 1 = overwrite (r @ parts) other"
    and other: "other \<noteq> None \<Longrightarrow> fs (r @ parts) \<noteq> Some Directory"
    and plain: "\<forall>e\<in>set r. plain_name e"
    and run: "WriteWorkspaceFile h command roots fs = (res, fs')"
  obtains fs1 where "tree_ok fs1" "new_parents r (r @ butlast parts) fs fs1" "\<not> w_create command \<Longrightarrow> fs1 = fs"
    and "res = Inr () \<and> fs1 (r @ butlast parts) = Some Directory
        \<and> may_publish h command (overwrite (r @ parts) other fs1 (r @ parts))
        \<and> (\<exists>mode. fs' = fs1(r @ parts \<mapsto> Regular mode (w_content command)))
      \<or> (\<exists>e. res = Inl e) \<and> (fs' = fs1 \<or> fs' = overwrite (r @ parts) other fs1)"
proof (cases "ctx_done h 0 \<or> length (w_content command) > MaxWorkspaceFileBytes")
  case True
  then have "fs' = fs \<and> (\<exists>e. res = Inl e)" using run by (auto simp: WriteWorkspaceFile_def split: if_splits)
  then show ?thesis using that [of fs] ok by (simp add: new_parents_def)
next
  case False
  obtain d x where dx: "parts = d @ [x]" using valid_parts(1) [OF parts(1)] by (cases parts rule: rev_cases) auto
  have names: "\<forall>e\<in>set d. plain_name e" "plain_name x" using valid_parts(2) [OF parts(1)] dx by auto
  have dir: "fs r = Some Directory"
    using workspace_root_real [OF ok cwd root] plain by (auto simp: path_str_inj)
  obtain ro fs1 where op: "open_parents (w_create command) (path_str r) d fs = (ro, fs1)"
    by (cases "open_parents (w_create command) (path_str r) d fs")
  note made = open_parents_real [OF ok dir names(1) op]
  have body: "(case (ro, fs1) of
        (Inl e, fs1) \<Rightarrow> (Inl e, fs1)
      | (Inr parent, fs1) \<Rightarrow>
          let target = path_join [parent, x] in
          (case (if w_create command then Inr 420 else checkOriginal h command target fs1) of
             Inl e \<Rightarrow> (Inl e, fs1)
           | Inr mode \<Rightarrow>
               if ctx_done h 1 then (Inl Cancelled, fs1)
               else write_temporary h command parent target mode (world h 0 fs1))) = (res, fs')"
    using run False by (simp add: WriteWorkspaceFile_def root parts(1) dx op cong: sum.case_cong)
  show ?thesis
  proof (cases ro)
    case (Inl e)
    then have "fs' = fs1 \<and> res = Inl e" using body by auto
    then show ?thesis using that [of fs1] made dx by simp
  next
    case (Inr parent)
    have parent: "parent = path_str (r @ d)" "fs1 (r @ d) = Some Directory" using made(4) [OF Inr] by auto
    have target: "path_join [parent, x] = path_str (r @ d @ [x])"
    proof -
      have "\<forall>e\<in>set (r @ d). plain_name e" using plain names(1) by auto
      then have "path_join [path_str (r @ d), x] = path_str ((r @ d) @ [x])"
        using names(2) by (rule path_join_plain)
      then show ?thesis by (simp add: parent(1))
    qed
    let ?mode = "if w_create command then Inr 420 else checkOriginal h command (path_str (r @ d @ [x])) fs1"
    show ?thesis
    proof (cases "\<exists>mode. ?mode = Inr mode \<and> \<not> ctx_done h 1")
      case False
      then have "fs' = fs1 \<and> (\<exists>e. res = Inl e)"
        using body Inr target
        by (cases ?mode) (auto simp: Let_def split: if_splits)
      then show ?thesis using that [of fs1] made dx by simp
    next
      case True
      then obtain mode where mode: "?mode = Inr mode" "\<not> ctx_done h 1" by blast
      have wt: "write_temporary h command (path_str (r @ d)) (path_str ((r @ d) @ [x])) mode fs1 = (res, fs')"
        using body Inr target mode world(1) parent(1) by (simp add: Let_def cong: sum.case_cong if_cong)
      have "fs1 (r @ d @ [x]) = fs (r @ d @ [x])"
        using new_parentsD [OF made(2), of "r @ d @ [x]"] by fastforce
      then have "other \<noteq> None \<Longrightarrow> fs1 ((r @ d) @ [x]) \<noteq> Some Directory" using other dx by simp
      then show ?thesis
        using that [of fs1] made(1-3) dx parent(2)
          write_temporary_result [OF made(1) parent(2) names(2) _ _ _ wt, of other] parts(2) world(2) by auto
    qed
  qed
qed

lemma write_outcome:
  assumes "tree_ok fs" "is_abs (working_dir h)"
    and "ResolveWorkspaceRoot h (w_root command) roots fs = Inr (path_str r)"
    and "write_parts (w_path command) = Some parts" "\<not> temp_name (last parts)"
    and "world h 0 = (\<lambda>t. t)" "world h 1 = overwrite (r @ parts) other"
    and "other \<noteq> None \<Longrightarrow> fs (r @ parts) \<noteq> Some Directory"
    and "\<forall>e\<in>set r. plain_name e"
    and "WriteWorkspaceFile h command roots fs = (res, fs')"
  shows "\<exists>fs1. tree_ok fs1 \<and> new_parents r (r @ butlast parts) fs fs1
    \<and> (res = Inr () \<and> fs1 (r @ butlast parts) = Some Directory
        \<and> may_publish h command (overwrite (r @ parts) other fs1 (r @ parts))
        \<and> (\<exists>mode. fs' = fs1(r @ parts \<mapsto> Regular mode (w_content command)))
      \<or> (\<exists>e. res = Inl e) \<and> (fs' = fs1 \<or> fs' = overwrite (r @ parts) other fs1))"
  by (rule write_result [OF assms]) blast+

section \<open>Reading back what was written\<close>

lemma ResolveWorkspaceRoot_grows:
  assumes ok: "tree_ok fs" "grows fs fs'" and cwd: "is_abs (working_dir h)"
    and root: "ResolveWorkspaceRoot h p roots fs = Inr (path_str r)" and plain: "\<forall>e\<in>set r. plain_name e"
  shows "ResolveWorkspaceRoot h p roots fs' = Inr (path_str r)"
proof -
  obtain r' c where r': "path_str r = path_str r'" "fs r' = Some Directory" "\<forall>e\<in>set r'. plain_name e"
    "c \<in> set roots" "prefix (abs_elems (allowed_root h fs c)) r'"
    using workspace_root_real [OF ok(1) cwd root] by blast
  then have r: "fs r = Some Directory" "prefix (abs_elems (allowed_root h fs c)) r"
    using plain by (simp_all add: path_str_inj)
  define a where "a = path_abs (working_dir h) (path_clean c)"
  have a: "a = path_str (abs_elems a)" unfolding a_def by (rule path_abs_str [OF cwd])
  have "\<exists>q. eval_symlinks fs a = Inr q"
  proof (cases "eval_symlinks fs a")
    case (Inl e)
    then have "prefix (abs_elems a) r" using r(2) by (simp add: allowed_root_def a_def)
    then obtain s where s: "r = abs_elems a @ s" by (auto simp: prefix_def)
    have "fs (abs_elems a) = Some Directory"
      using r(1) tree_ok_above [OF ok(1), of "abs_elems a" s] s by (cases s) simp_all
    then have "eval_symlinks fs (path_str (abs_elems a)) = Inr (path_str (abs_elems a))"
      by (rule eval_symlinks_self [OF ok(1)]) simp
    then show ?thesis using a by metis
  qed simp
  then have "allowed_root h fs' c = allowed_root h fs c"
    using eval_symlinks_grows [OF ok(2)] by (auto simp: allowed_root_def a_def Let_def)
  then have "within (allowed_root h fs' c) (path_str r)"
    using r(2) plain is_abs_allowed_root [OF cwd] by (simp add: within_prefix)
  moreover have "eval_symlinks fs' (path_abs (working_dir h) (path_clean p)) = Inr (path_str r)"
    using root eval_symlinks_grows [OF ok(2)]
    by (auto simp: ResolveWorkspaceRoot_def try_then_Inr_iff split: if_splits)
  moreover have "stat fs (path_str r) = Inr Directory"
    using ok(1) r(1) by (intro node_at_real) simp_all
  then have "stat fs' (path_str r) = Inr Directory"
    using walk_grows [OF ok(2)] grows_dir [OF ok(2)] r(1)
    by (auto simp: node_at_def locate_def split: sum.splits option.splits)
  ultimately show ?thesis using r'(4) by (auto simp: ResolveWorkspaceRoot_def)
qed

lemma read_regular:
  assumes ok: "tree_ok fs" and root: "ResolveWorkspaceRoot h p roots fs = Inr (path_str r)"
    and plain: "\<forall>e\<in>set (r @ parts). plain_name e" "parts \<noteq> []"
    and trimmed: "trim_space (join_slash parts) = join_slash parts"
    and entry: "fs (r @ parts) = Some (Regular mode content)" and live: "\<not> ctx_done h 0"
    and shown: "valid_utf8 content" "CHR 0x00 \<notin> set content"
      "length content \<le> (if limit \<le> 0 then 1024 * 1024 else nat limit)"
  shows "ReadWorkspaceFile h p (join_slash parts) roots limit fs =
    Inr \<lparr>pv_path = join_slash parts, pv_content = content, pv_size = length content, pv_truncated = False\<rparr>"
proof -
  have parts: "\<forall>e\<in>set parts. plain_name e" "\<forall>e\<in>set r. plain_name e" using plain(1) by auto
  note rel = relative_join [OF plain(2) parts(1)]
  have join: "path_join [path_str r, join_slash parts] = path_str (r @ parts)"
    using plain(1) path_join_elems [OF parts(2) rel(5)] path_elems_join [OF plain(2) parts(1)] by simp
  have ev: "eval_symlinks fs (path_str (r @ parts)) = Inr (path_str (r @ parts))"
    by (rule eval_symlinks_self [OF ok entry]) simp
  have st: "stat fs (path_str (r @ parts)) = Inr (Regular mode content)"
    by (rule node_at_real [OF ok entry]) simp
  have "within (path_str r) (path_str (r @ parts))" using within_str [OF parts(2) plain(1)] by simp
  moreover have "preview_text (if limit \<le> 0 then 1024 * 1024 else nat limit) content = Inr (content, False)"
    using shown by (simp add: preview_text_def Let_def)
  ultimately show ?thesis
    using live by (simp add: ReadWorkspaceFile_def root trimmed rel join ev st Let_def del: One_nat_def)
qed

section \<open>The promises of a write\<close>

text \<open>
  C15: Previewing a file never leaves the workspace: whatever links the tree has, a preview that
  succeeds shows the beginning of a regular file whose real path lies below the real path of the
  workspace, and the workspace lies below an allowed root.
\<close>

theorem preview_inside:
  assumes "tree_ok fs" "is_abs (working_dir h)"
    and "ReadWorkspaceFile h root relative roots limit fs = Inr pv"
  shows "\<exists>r q mode content c. ResolveWorkspaceRoot h root roots fs = Inr (path_str r)
    \<and> c \<in> set roots \<and> prefix (abs_elems (allowed_root h fs c)) r
    \<and> prefix r q \<and> fs q = Some (Regular mode content)
    \<and> prefix (pv_content pv) content \<and> pv_size pv = length content"
proof -
  obtain r q mode content where *: "ResolveWorkspaceRoot h root roots fs = Inr (path_str r)"
    "prefix r q" "fs q = Some (Regular mode content)" "prefix (pv_content pv) content"
    "pv_size pv = length content"
    using read_confined [OF assms] by blast
  obtain r' c where "path_str r = path_str r'" "\<forall>e\<in>set r'. plain_name e" "c \<in> set roots"
    "prefix (abs_elems (allowed_root h fs c)) r'"
    using workspace_root_real [OF assms(1,2) *(1)] by blast
  moreover obtain t where "q = r @ t" using *(2) by (auto simp: prefix_def)
  then have "\<forall>e\<in>set r. plain_name e" using tree_ok_plain [OF assms(1), of q] *(3) by simp
  ultimately have "c \<in> set roots" "prefix (abs_elems (allowed_root h fs c)) r"
    by (simp_all add: path_str_inj)
  with * show ?thesis by blast
qed

text \<open>
  C14: When no other process interferes, a write changes nothing but the target, which gets the
  content, and missing directories on the way to it; all of them lie below the real path of an
  allowed workspace and none of the names added to it is \<open>.git\<close> in any spelling.
\<close>

theorem write_inside:
  assumes "tree_ok fs" "is_abs (working_dir h)" "world h = (\<lambda>k t. t)"
    and "\<forall>parts. write_parts (w_path command) = Some parts \<longrightarrow> \<not> temp_name (last parts)"
    and change: "snd (WriteWorkspaceFile h command roots fs) q \<noteq> fs q"
  shows "\<exists>r parts. ResolveWorkspaceRoot h (w_root command) roots fs = Inr (path_str r)
    \<and> write_parts (w_path command) = Some parts \<and> (\<forall>e\<in>set parts. map lower_char e \<noteq> ''.git'')
    \<and> strict_prefix r q
    \<and> (if q = r @ parts
       then \<exists>mode. snd (WriteWorkspaceFile h command roots fs) q = Some (Regular mode (w_content command))
       else prefix q (r @ parts) \<and> fs q = None
         \<and> snd (WriteWorkspaceFile h command roots fs) q = Some Directory)"
proof -
  obtain res fs' where run: "WriteWorkspaceFile h command roots fs = (res, fs')"
    by (cases "WriteWorkspaceFile h command roots fs")
  have "\<exists>root parts. ResolveWorkspaceRoot h (w_root command) roots fs = Inr root \<and> write_parts (w_path command) = Some parts"
    using change by (auto simp: WriteWorkspaceFile_def split: if_splits sum.splits option.splits)
  then obtain r parts where root: "ResolveWorkspaceRoot h (w_root command) roots fs = Inr (path_str r)"
    and plain: "\<forall>e\<in>set r. plain_name e" and parts: "write_parts (w_path command) = Some parts"
    using workspace_root_real [OF assms(1,2)] by blast
  have quiet: "world h 0 = (\<lambda>t. t)" "world h 1 = overwrite (r @ parts) None"
    using assms(3) by (simp_all add: overwrite_def fun_eq_iff)
  obtain fs1 where fs1: "new_parents r (r @ butlast parts) fs fs1"
    and out: "(\<exists>mode. fs' = fs1(r @ parts \<mapsto> Regular mode (w_content command))) \<or> fs' = fs1"
    using write_outcome [OF assms(1,2) root parts _ quiet _ plain run] assms(4) parts
    unfolding overwrite_def by auto
  have shorter: "prefix (r @ butlast parts) (r @ parts)" by (cases parts rule: rev_cases) simp_all
  have below: "\<not> prefix (r @ parts) (r @ butlast parts)"
    using valid_parts(1) [OF parts] by (cases parts rule: rev_cases) (auto dest: prefix_length_le)
  have strict: "strict_prefix r (r @ parts)" using valid_parts(1) [OF parts] by (simp add: strict_prefix_def)
  show ?thesis
  proof (intro exI conjI)
    show "strict_prefix r q"
      using strict out change new_parentsD [OF fs1, of q] by (cases "q = r @ parts") (auto simp: run)
    show "if q = r @ parts
       then \<exists>mode. snd (WriteWorkspaceFile h command roots fs) q = Some (Regular mode (w_content command))
       else prefix q (r @ parts) \<and> fs q = None
         \<and> snd (WriteWorkspaceFile h command roots fs) q = Some Directory"
    proof (cases "q = r @ parts")
      case True
      then show ?thesis using out change new_parentsD [OF fs1, of q] below by (auto simp: run)
    next
      case False
      then have "fs1 q \<noteq> fs q" "fs' q = fs1 q" using out change by (auto simp: run)
      then show ?thesis
        using False new_parentsD [OF fs1, of q] prefix_order.trans [OF _ shorter, of q] by (simp add: run)
    qed
  qed (use root parts valid_parts(2) [OF parts] in auto)
qed



section \<open>A small workspace\<close>

definition sample_tree :: file_tree where
  "sample_tree =
     [[] \<mapsto> Directory, [''w''] \<mapsto> Directory, [''w'', ''a''] \<mapsto> Regular 420 ''old'', [''l''] \<mapsto> Link ''w'']"

definition sample_host :: host where
  "sample_host = \<lparr>working_dir = ''/'', ctx_done = (\<lambda>k. False), disk_fails = False,
    world = (\<lambda>k t. t), temp_draws = [7], sha256_hex = (\<lambda>s. s)\<rparr>"

definition sample_create :: write_command where
  "sample_create = \<lparr>w_root = ''/l'', w_path = ''b'', w_content = ''new'', w_expected_hash = [], w_create = True\<rparr>"

lemma sample_tree_ok: "tree_ok sample_tree"
proof -
  have w: "plain_name ''w''" "plain_name ''a''" "plain_name ''l''" by (simp_all add: plain_name_def)
  have "tree_ok [[] \<mapsto> Directory]" by (simp add: tree_ok_def)
  then have "tree_ok [[] \<mapsto> Directory, [] @ [''w''] \<mapsto> Directory]" by (rule tree_ok_insert) (simp_all add: w)
  then have "tree_ok [[] \<mapsto> Directory, [''w''] \<mapsto> Directory, [''w''] @ [''a''] \<mapsto> Regular 420 ''old'']"
    by (intro tree_ok_insert) (simp_all add: w)
  then have "tree_ok [[] \<mapsto> Directory, [''w''] \<mapsto> Directory, [''w'', ''a''] \<mapsto> Regular 420 ''old'',
      [] @ [''l''] \<mapsto> Link ''w'']"
    by (intro tree_ok_insert) (simp_all add: w)
  then show ?thesis by (simp add: sample_tree_def)
qed

lemma sample_quiet: "world sample_host = (\<lambda>k t. t)" "is_abs (working_dir sample_host)" "\<not> ctx_done sample_host 0"
  by (simp_all add: sample_host_def is_abs_def has_prefix_def)

lemma sample_root: "ResolveWorkspaceRoot sample_host ''/l'' [''/w''] sample_tree = Inr ''/w''"
  by code_simp

lemma sample_read: "ReadWorkspaceFile sample_host ''/l'' ''a'' [''/w''] 8 sample_tree =
    Inr \<lparr>pv_path = ''a'', pv_content = ''old'', pv_size = 3, pv_truncated = False\<rparr>"
  by code_simp

lemma sample_temporary:
  "fst (write_temporary sample_host sample_create ''/w'' ''/w/b'' 420 sample_tree) = Inr ()"
  by code_simp

lemma sample_parts: "write_parts (w_path sample_create) = Some [''b'']"
  by code_simp

lemma sample_write:
  "WriteWorkspaceFile sample_host sample_create [''/w''] sample_tree =
    write_temporary sample_host sample_create ''/w'' ''/w/b'' 420 sample_tree"
proof -
  have "path_join [''/w'', ''b''] = ''/w/b''" by code_simp
  moreover have "w_root sample_create = ''/l''" "w_create sample_create" "length (w_content sample_create) = 3"
    by (simp_all add: sample_create_def)
  ultimately show ?thesis
    using sample_root sample_parts sample_quiet(1,3)
    by (simp add: WriteWorkspaceFile_def MaxWorkspaceFileBytes_def sample_host_def)
qed

lemma sample_written:
  "fst (WriteWorkspaceFile sample_host sample_create [''/w''] sample_tree) = Inr ()"
  by (simp add: sample_write sample_temporary)
theorem preview_inside_witness:
  "\<exists>r q mode content c. ResolveWorkspaceRoot sample_host ''/l'' [''/w''] sample_tree = Inr (path_str r)
    \<and> c \<in> set [''/w''] \<and> prefix (abs_elems (allowed_root sample_host sample_tree c)) r
    \<and> prefix r q \<and> sample_tree q = Some (Regular mode content)
    \<and> prefix ''old'' content \<and> 3 = length content"
  using preview_inside [OF sample_tree_ok sample_quiet(2) sample_read] by simp


theorem write_inside_witness:
  "\<exists>r parts. ResolveWorkspaceRoot sample_host ''/l'' [''/w''] sample_tree = Inr (path_str r)
    \<and> write_parts ''b'' = Some parts \<and> (\<forall>e\<in>set parts. map lower_char e \<noteq> ''.git'')
    \<and> strict_prefix r [''w'', ''b'']
    \<and> (if [''w'', ''b''] = r @ parts
       then \<exists>mode. snd (WriteWorkspaceFile sample_host sample_create [''/w''] sample_tree) [''w'', ''b'']
         = Some (Regular mode ''new'')
       else prefix [''w'', ''b''] (r @ parts) \<and> sample_tree [''w'', ''b''] = None
         \<and> snd (WriteWorkspaceFile sample_host sample_create [''/w''] sample_tree) [''w'', ''b''] = Some Directory)"
proof -
  have "snd (WriteWorkspaceFile sample_host sample_create [''/w''] sample_tree) [''w'', ''b'']
      = Some (Regular 420 ''new'')" "sample_tree [''w'', ''b''] = None"
    unfolding sample_write by code_simp+
  then have change: "snd (WriteWorkspaceFile sample_host sample_create [''/w''] sample_tree) [''w'', ''b'']
      \<noteq> sample_tree [''w'', ''b'']" by simp
  have "\<forall>parts. write_parts (w_path sample_create) = Some parts \<longrightarrow> \<not> temp_name (last parts)"
    by (simp add: sample_parts temp_name_def has_prefix_def)
  moreover have "w_root sample_create = ''/l''" "w_path sample_create = ''b''" "w_content sample_create = ''new''"
    by (simp_all add: sample_create_def)
  ultimately show ?thesis
    using write_inside [OF sample_tree_ok sample_quiet(2,1) _ change] by (simp only:)
qed

definition busy_host :: host where
  "busy_host = sample_host\<lparr>world := (\<lambda>k. if k = 1 then overwrite [''w'', ''b''] (Some (420, ''other'')) else (\<lambda>t. t))\<rparr>"


section \<open>Every text has a preview\<close>

lemma rune_width_cases:
  assumes "rune_width s \<noteq> 0"
  obtains a t where "s = a # t" "rune_width s = 1" "\<And>u. rune_width (a # u) = 1"
  | a b t where "s = a # b # t" "rune_width s = 2" "\<And>u. rune_width (a # b # u) = 2"
  | a b c t where "s = a # b # c # t" "rune_width s = 3" "\<And>u. rune_width (a # b # c # u) = 3"
  | a b c e t where "s = a # b # c # e # t" "rune_width s = 4" "\<And>u. rune_width (a # b # c # e # u) = 4"
proof (cases s)
  case Nil
  then show ?thesis using assms by (simp add: rune_width_def)
next
  case (Cons a t)
  consider "byte_in 0 127 a" | "\<not> byte_in 0 127 a" "byte_in 194 223 a"
    | "\<not> byte_in 0 127 a" "\<not> byte_in 194 223 a" "byte_in 224 239 a"
    | "\<not> byte_in 0 127 a" "\<not> byte_in 194 223 a" "\<not> byte_in 224 239 a" "byte_in 240 244 a"
    using assms by (auto simp: rune_width_def Cons split: if_splits)
  then show ?thesis
  proof cases
    case 1
    then show ?thesis using that(1) [of a t] by (simp add: rune_width_def Cons)
  next
    case 2
    then obtain b u where "t = b # u" "continuation b"
      using assms by (auto simp: rune_width_def Cons split: list.splits if_splits)
    then show ?thesis using that(2) [of a b u] 2 by (simp add: rune_width_def Cons)
  next
    case 3
    then obtain b c u where "t = b # c # u" "second_byte a b" "continuation c"
      using assms by (auto simp: rune_width_def Cons split: list.splits if_splits)
    then show ?thesis using that(3) [of a b c u] 3 by (simp add: rune_width_def Cons)
  next
    case 4
    then obtain b c e u where "t = b # c # e # u" "second_byte a b" "continuation c" "continuation e"
      using assms by (auto simp: rune_width_def Cons split: list.splits if_splits)
    then show ?thesis using that(4) [of a b c e u] 4 by (simp add: rune_width_def Cons)
  qed
qed

lemma rune_width_take:
  assumes "rune_width s \<noteq> 0"
  shows "rune_width (take (rune_width s) s @ x) = rune_width s"
  using assms by (rule rune_width_cases) (simp_all add: numeral_eq_Suc)

lemma rune_width_le_4: "rune_width s \<le> 4"
  by (auto simp: rune_width_def split: list.split)

lemma valid_utf8_Nil [simp]: "valid_utf8 []"
  by (simp add: valid_utf8.simps)

lemma valid_utf8_cons_rune:
  assumes "rune_width s \<noteq> 0" "valid_utf8 x"
  shows "valid_utf8 (take (rune_width s) s @ x)"
proof -
  have w: "rune_width (take (rune_width s) s @ x) = rune_width s" by (rule rune_width_take [OF assms(1)])
  have l: "length (take (rune_width s) s) = rune_width s" using rune_width_le [of s] by simp
  then have "drop (rune_width s) (take (rune_width s) s @ x) = x" by simp
  then show ?thesis using w assms by (subst valid_utf8.simps) (auto simp: w)
qed

lemma valid_utf8_cut:
  "\<lbrakk>valid_utf8 s; n \<le> length s\<rbrakk> \<Longrightarrow> \<exists>j\<le>3. j \<le> n \<and> valid_utf8 (take (n - j) s)"
proof (induction s arbitrary: n rule: valid_utf8.induct)
  case (1 s)
  let ?w = "rune_width s"
  show ?case
  proof (cases "n < ?w \<or> s = []")
    case True
    then have "n \<le> 3" using rune_width_le_4 [of s] "1.prems"(2) by auto
    then show ?thesis by (intro exI [of _ n]) simp
  next
    case False
    then have w: "?w \<noteq> 0" "valid_utf8 (drop ?w s)" "s \<noteq> []"
      using "1.prems"(1) by (auto simp: valid_utf8.simps [of s] split: if_splits)
    have "n - ?w \<le> length (drop ?w s)" using "1.prems"(2) by simp
    then obtain j where j: "j \<le> 3" "j \<le> n - ?w" "valid_utf8 (take (n - ?w - j) (drop ?w s))"
      using "1.IH" w by blast
    have "?w \<le> n" using False by simp
    then have "n - j = ?w + (n - ?w - j)" using j(2) by arith
    then have "take (n - j) s = take ?w s @ take (n - ?w - j) (drop ?w s)" by (metis take_add)
    then show ?thesis using j valid_utf8_cons_rune [OF w(1) j(3)] by (intro exI [of _ j]) auto
  qed
qed

lemma cut_to_rune_valid:
  "\<lbrakk>valid_utf8 (take (length d - j) d); j \<le> k\<rbrakk> \<Longrightarrow> valid_utf8 (cut_to_rune k d)"
proof (induction k arbitrary: d j)
  case (Suc k)
  show ?case
  proof (cases "d \<noteq> [] \<and> \<not> valid_utf8 d")
    case True
    then have "j \<noteq> 0" using Suc.prems by (cases j) auto
    then have "take (length (butlast d) - (j - 1)) (butlast d) = take (length d - j) d"
      by (simp add: butlast_conv_take min_def)
    then have "valid_utf8 (cut_to_rune k (butlast d))"
      using Suc.prems \<open>j \<noteq> 0\<close> by (intro Suc.IH [of _ "j - 1"]) auto
    then show ?thesis using True by simp
  next
    case False
    then show ?thesis by auto
  qed
qed simp

lemma cut_to_rune_length:
  "\<lbrakk>valid_utf8 (take (length d - j) d); j \<le> k\<rbrakk> \<Longrightarrow> length d \<le> length (cut_to_rune k d) + j"
proof (induction k arbitrary: d j)
  case (Suc k)
  show ?case
  proof (cases "d \<noteq> [] \<and> \<not> valid_utf8 d")
    case True
    then have "j \<noteq> 0" using Suc.prems by (cases j) auto
    then have "take (length (butlast d) - (j - 1)) (butlast d) = take (length d - j) d"
      by (simp add: butlast_conv_take min_def)
    then have "length (butlast d) \<le> length (cut_to_rune k (butlast d)) + (j - 1)"
      using Suc.prems \<open>j \<noteq> 0\<close> by (intro Suc.IH) auto
    then show ?thesis using True \<open>j \<noteq> 0\<close> by auto
  next
    case False
    then show ?thesis by auto
  qed
qed simp

text \<open>
  C36: Every text file has a preview: for UTF-8 text without NUL and any limit, the preview is a prefix
  of the file that ends on a whole rune, at most three bytes short of the limit (or of the file).
\<close>

theorem text_preview_accepts:
  assumes "valid_utf8 content" "CHR 0x00 \<notin> set content"
  shows "\<exists>shown. preview_text limit content = Inr (shown, limit < length content)
    \<and> prefix shown content \<and> valid_utf8 shown \<and> length shown \<le> limit
    \<and> min limit (length content) \<le> length shown + 3"
proof (cases "limit < length content")
  case True
  let ?shown = "cut_to_rune 4 (take limit content)"
  obtain j where j: "j \<le> 3" "valid_utf8 (take (limit - j) content)"
    using valid_utf8_cut [OF assms(1), of limit] True by auto
  then have cut: "valid_utf8 (take (length (take limit content) - j) (take limit content))"
    using True by (simp add: min_def)
  have valid: "valid_utf8 ?shown" by (rule cut_to_rune_valid [OF cut]) (use j in simp)
  have "length (take limit content) \<le> length ?shown + j" by (rule cut_to_rune_length [OF cut]) (use j in simp)
  then have len: "limit \<le> length ?shown + 3" using True j by simp
  have pre: "prefix ?shown content"
    using cut_to_rune_prefix [of 4 "take limit content"] take_is_prefix [of limit content]
    by (rule prefix_order.trans)
  then have "CHR 0x00 \<notin> set ?shown" using assms(2) by (auto dest: set_mono_prefix)
  then have preview: "preview_text limit content = Inr (?shown, True)"
    using True valid by (simp add: preview_text_def Let_def min_def)
  have "length ?shown \<le> limit" by (rule preview_text_prefix(2) [OF preview])
  then show ?thesis using preview pre valid len True by auto
qed (use assms in \<open>auto simp: preview_text_def Let_def\<close>)

theorem text_preview_accepts_witness:
  "\<exists>shown. preview_text 2 [CHR ''a'', CHR 0xC3, CHR 0xA9] = Inr (shown, 2 < length [CHR ''a'', CHR 0xC3, CHR 0xA9])
    \<and> prefix shown [CHR ''a'', CHR 0xC3, CHR 0xA9] \<and> valid_utf8 shown \<and> length shown \<le> 2
    \<and> min 2 (length [CHR ''a'', CHR 0xC3, CHR 0xA9]) \<le> length shown + 3"
  by (rule text_preview_accepts) (code_simp, simp)

end
