(* ===== verification/Git_Changes.thy ===== *)
theory Git_Changes
  imports Git_Reading Workspace_Files
begin

text \<open>
  The changes of a work tree (\<open>internal/gitrepository/changes.go\<close>, \<open>write.go\<close>): the list of changed
  files, the difference of one of them, the choice of the changes that an action may touch, and the
  actions stage, unstage, discard and commit.
\<close>

section \<open>The list of changes\<close>

record WorkspaceChange =
  wc_path :: string
  wc_old_path :: string
  wc_status :: string
  wc_staged :: bool
  wc_unstaged :: bool

definition normalizeChangePath :: "string \<Rightarrow> op_error + string" where
  "normalizeChangePath value =
     (if value = [] \<or> \<not> valid_utf8 value \<or> CHR 0x00 \<in> set value
      then Inl (Said ''modified file path is invalid'')
      else
        let clean = path_clean value in
        if clean = ''.'' \<or> is_abs clean \<or> climbs clean
        then Inl (Said ''modified file path must stay inside the workspace'')
        else Inr clean)"

definition workspaceChangeStatus :: "char \<Rightarrow> char \<Rightarrow> string" where
  "workspaceChangeStatus x y =
     (if x = CHR ''?'' \<and> y = CHR ''?'' then ''untracked''
      else if x = CHR ''!'' \<and> y = CHR ''!'' then ''ignored''
      else if x = CHR ''U'' \<or> y = CHR ''U'' \<or> x = CHR ''A'' \<and> y = CHR ''A'' \<or> x = CHR ''D'' \<and> y = CHR ''D''
      then ''conflicted''
      else if x = CHR ''R'' \<or> y = CHR ''R'' then ''renamed''
      else if x = CHR ''C'' \<or> y = CHR ''C'' then ''copied''
      else if x = CHR ''D'' \<or> y = CHR ''D'' then ''deleted''
      else if x = CHR ''A'' \<or> y = CHR ''A'' then ''added''
      else ''modified'')"

definition two_paths :: "char \<Rightarrow> char \<Rightarrow> bool" where
  "two_paths x y \<longleftrightarrow> x = CHR ''R'' \<or> x = CHR ''C'' \<or> y = CHR ''R'' \<or> y = CHR ''C''"

definition porcelain_change :: "char \<Rightarrow> char \<Rightarrow> string \<Rightarrow> string \<Rightarrow> WorkspaceChange" where
  "porcelain_change x y path oldPath =
     \<lparr>wc_path = path, wc_old_path = oldPath, wc_status = workspaceChangeStatus x y,
      wc_staged = (x \<notin> {CHR '' '', CHR ''?'', CHR ''!''}),
      wc_unstaged = (y \<notin> {CHR '' '', CHR ''?'', CHR ''!''} \<or> x = CHR ''?'' \<and> y = CHR ''?'')\<rparr>"

definition keep_change :: "WorkspaceChange \<Rightarrow> WorkspaceChange list \<Rightarrow> WorkspaceChange list" where
  "keep_change c cs = (if wc_status c = ''ignored'' then cs else c # cs)"

text \<open>The entries of \<open>git status -z\<close>; a rename or a copy takes the next entry as its old path.\<close>

function parse_changes :: "string list \<Rightarrow> op_error + WorkspaceChange list" where
  "parse_changes [] = Inr []"
| "parse_changes (entry # entries) =
     (if entry = [] then parse_changes entries
      else if length entry < 4 \<or> entry ! 2 \<noteq> CHR '' ''
      then Inl (Said ''parse workspace changes: invalid porcelain entry'')
      else
        let x = entry ! 0; y = entry ! 1 in
        try_then (normalizeChangePath (drop 3 entry)) (\<lambda>path.
          if two_paths x y then
            (case entries of
               old # rest \<Rightarrow>
                 if old = [] then Inl (Said ''parse workspace changes: renamed path is missing'')
                 else try_then (normalizeChangePath old) (\<lambda>oldPath.
                   map_sum id (keep_change (porcelain_change x y path oldPath)) (parse_changes rest))
             | [] \<Rightarrow> Inl (Said ''parse workspace changes: renamed path is missing''))
          else map_sum id (keep_change (porcelain_change x y path [])) (parse_changes entries)))"
  by pat_completeness auto
termination by (relation "measure length") auto

definition ListWorkspaceChanges :: "git \<Rightarrow> string \<Rightarrow> string \<Rightarrow> string list \<Rightarrow> WorkspaceChange list operation" where
  "ListWorkspaceChanges git cwd repositoryPath roots =
     andThen (resolveRepository git cwd roots repositoryPath) (\<lambda>repositoryPath.
     andThen (gitOutput git ''list workspace changes'' repositoryPath
       [''status'', ''--porcelain=v1'', ''-z'', ''--untracked-files=all'']) (\<lambda>output.
       on_tree (\<lambda>_. parse_changes (split_on (CHR 0x00) output))))"

section \<open>The difference of a file\<close>

record WorkspaceDiff =
  wd_path :: string
  wd_content :: string
  wd_additions :: nat
  wd_deletions :: nat
  wd_binary :: bool
  wd_truncated :: bool

definition workspaceDiffStats :: "string \<Rightarrow> nat \<times> nat" where
  "workspaceDiffStats content =
     (let lines = split_on (CHR 0x0A) content;
          added = (\<lambda>line. has_prefix line ''+'' \<and> \<not> has_prefix line ''+++'');
          deleted = (\<lambda>line. has_prefix line ''-'' \<and> \<not> has_prefix line ''---'')
      in (length (filter added lines), length (filter (\<lambda>line. \<not> added line \<and> deleted line) lines)))"

text \<open>\<open>strings.ToValidUTF8(s, "")\<close>.\<close>

function drop_invalid :: "string \<Rightarrow> string" where
  "drop_invalid s =
     (if s = [] then []
      else if rune_width s = 0 then drop_invalid (drop 1 s)
      else take (rune_width s) s @ drop_invalid (drop (rune_width s) s))"
  by pat_completeness auto
termination by (relation "measure length") auto

declare drop_invalid.simps [simp del]

definition diff_header :: "string \<Rightarrow> nat \<Rightarrow> string" where
  "diff_header path n =
     ''diff --git a/'' @ path @ '' b/'' @ path @ [CHR 0x0A] @ ''new file mode 100644'' @ [CHR 0x0A]
     @ ''--- /dev/null'' @ [CHR 0x0A] @ ''+++ b/'' @ path @ [CHR 0x0A]
     @ ''@@ -0,0 +1,'' @ decimal_digits n @ '' @@'' @ [CHR 0x0A]"

definition new_file_lines :: "string \<Rightarrow> string list" where
  "new_file_lines data =
     (let lines = split_on (CHR 0x0A) data in if last lines = [] then butlast lines else lines)"

definition new_file_text :: "string \<Rightarrow> nat \<Rightarrow> string \<Rightarrow> WorkspaceDiff" where
  "new_file_text path limit content =
     (let truncated = length content > limit; data = take limit content in
      if CHR 0x00 \<in> set data \<or> \<not> valid_utf8 data
      then \<lparr>wd_path = path, wd_content = ''Binary files /dev/null and b/'' @ path @ '' differ'' @ [CHR 0x0A],
        wd_additions = 0, wd_deletions = 0, wd_binary = True, wd_truncated = truncated\<rparr>
      else
        let lines = new_file_lines data;
            shown = diff_header path (length lines) @ concat (map (\<lambda>l. CHR ''+'' # l @ [CHR 0x0A]) lines)
        in \<lparr>wd_path = path,
            wd_content = (if length shown > limit then drop_invalid (take limit shown) else shown),
            wd_additions = length lines, wd_deletions = 0, wd_binary = False,
            wd_truncated = (truncated \<or> length shown > limit)\<rparr>)"

definition newFileDiff :: "string \<Rightarrow> string \<Rightarrow> nat \<Rightarrow> file_tree \<Rightarrow> op_error + WorkspaceDiff" where
  "newFileDiff repositoryPath relativePath limit t =
     (case eval_symlinks t (path_join [repositoryPath, relativePath]) of
        Inl e \<Rightarrow> Inl (Wrapped ''resolve modified file'' (System e))
      | Inr resolved \<Rightarrow>
          if \<not> within repositoryPath resolved then Inl (Said ''modified file resolves outside the workspace'')
          else (case stat t resolved of
                  Inl e \<Rightarrow> Inl (System e)
                | Inr (Regular mode content) \<Rightarrow> Inr (new_file_text relativePath limit content)
                | Inr _ \<Rightarrow> Inl (Said ''diff preview only supports regular files'')))"

text \<open>
  The standard output of git, cut at a limit; git is killed then, and its error is ignored. The error
  text of git stands for what it writes to the standard error.
\<close>

definition runGitOutputLimited :: "git \<Rightarrow> string \<Rightarrow> nat \<Rightarrow> string list \<Rightarrow> (string \<times> bool) operation" where
  "runGitOutputLimited git directory limit args s =
     (let command = [''-C'', directory] @ args;
          ((err, stdout), t) = git command (tree s);
          s1 = s\<lparr>tree := t, ran := ran s @ [command]\<rparr>
      in if length stdout > limit then (Inr (take limit stdout, True), s1)
         else case err of
             Some e \<Rightarrow> (Inl (Said e), s1)
           | None \<Rightarrow> (Inr (stdout, False), s1))"

definition tracked_diff :: "git \<Rightarrow> string \<Rightarrow> string \<Rightarrow> string \<Rightarrow> nat \<Rightarrow> WorkspaceDiff operation" where
  "tracked_diff git repositoryPath relativePath oldPath limit =
     andThen (wrap ''read workspace diff'' (runGitOutputLimited git repositoryPath limit
       ([''--literal-pathspecs'', ''diff'', ''--no-ext-diff'', ''--no-color'', ''--find-renames'',
         ''--unified=3'', ''HEAD'', ''--''] @ (if oldPath = [] then [] else [oldPath]) @ [relativePath])))
       (\<lambda>(content, truncated).
         give \<lparr>wd_path = relativePath, wd_content = content,
           wd_additions = fst (workspaceDiffStats content), wd_deletions = snd (workspaceDiffStats content),
           wd_binary = (contains_str content ''Binary files '' \<or> contains_str content ''GIT binary patch''),
           wd_truncated = truncated\<rparr>)"

definition MaxWorkspaceDiffBytes :: int where
  "MaxWorkspaceDiffBytes = 1024 * 1024"

definition ReadWorkspaceDiff ::
  "git \<Rightarrow> string \<Rightarrow> string \<Rightarrow> string \<Rightarrow> string \<Rightarrow> string list \<Rightarrow> int \<Rightarrow> WorkspaceDiff operation" where
  "ReadWorkspaceDiff git cwd repositoryPath relativePath oldPath roots limit =
     (let limit = nat (if limit \<le> 0 \<or> limit > MaxWorkspaceDiffBytes then MaxWorkspaceDiffBytes else limit) in
      andThen (resolveRepository git cwd roots repositoryPath) (\<lambda>repositoryPath.
      andThen (on_tree (\<lambda>_. normalizeChangePath relativePath)) (\<lambda>relativePath.
      andThen (on_tree (\<lambda>_. if oldPath = [] then Inr [] else normalizeChangePath oldPath)) (\<lambda>oldPath.
      andThen (ListWorkspaceChanges git cwd repositoryPath roots) (\<lambda>changes.
        case find (\<lambda>c. wc_path c = relativePath) changes of
          None \<Rightarrow> refuse_op (Said ''file is not modified'')
        | Some selected \<Rightarrow>
            andThen (check (oldPath = [] \<or> wc_old_path selected = oldPath)
              ''modified file path no longer matches the snapshot'') (\<lambda>_.
              let oldPath = (if oldPath = [] then wc_old_path selected else oldPath) in
              if wc_status selected = ''untracked''
              then on_tree (newFileDiff repositoryPath relativePath limit)
              else andThen (runGit git repositoryPath [''rev-parse'', ''--verify'', ''HEAD'']) (\<lambda>(headErr, _).
                if headErr \<noteq> None \<and> wc_status selected = ''added''
                then on_tree (newFileDiff repositoryPath relativePath limit)
                else tracked_diff git repositoryPath relativePath oldPath limit)))))))"

section \<open>The choice of changes\<close>

definition maxGitChangePaths :: nat where
  "maxGitChangePaths = 512"

text \<open>A map by path keeps the last change of a path.\<close>

definition by_path :: "WorkspaceChange list \<Rightarrow> string \<Rightarrow> WorkspaceChange option" where
  "by_path changes = map_of (rev (map (\<lambda>c. (wc_path c, c)) changes))"

fun select_paths ::
  "(WorkspaceChange \<Rightarrow> bool) \<Rightarrow> WorkspaceChange list \<Rightarrow> string list \<Rightarrow> string list \<Rightarrow> op_error + string list" where
  "select_paths predicate changes seen [] = Inr []"
| "select_paths predicate changes seen (raw # raws) =
     try_then (normalizeChangePath raw) (\<lambda>path.
       if path \<in> set seen then select_paths predicate changes seen raws
       else case by_path changes path of
           None \<Rightarrow> Inl (Said ''path is not an eligible workspace change'')
         | Some change \<Rightarrow>
             if \<not> predicate change then Inl (Said ''path is not an eligible workspace change'')
             else map_sum id ((#) path) (select_paths predicate changes (path # seen) raws))"

definition selectWorkspaceChangePaths ::
  "git \<Rightarrow> string \<Rightarrow> string \<Rightarrow> string list \<Rightarrow> bool \<Rightarrow> string list \<Rightarrow> (WorkspaceChange \<Rightarrow> bool) \<Rightarrow> string list operation" where
  "selectWorkspaceChangePaths git cwd repositoryPath paths all managedRoots predicate =
     andThen (ListWorkspaceChanges git cwd repositoryPath managedRoots) (\<lambda>changes.
       if all then give (map wc_path (filter predicate changes))
       else andThen (check (paths \<noteq> []) ''at least one changed path is required'') (\<lambda>_.
            andThen (check (\<not> length paths > maxGitChangePaths) ''too many changed paths; maximum is 512'') (\<lambda>_.
              on_tree (\<lambda>_. select_paths predicate changes [] paths))))"

section \<open>Actions\<close>

definition gitDo :: "git \<Rightarrow> string \<Rightarrow> string \<Rightarrow> string list \<Rightarrow> unit operation" where
  "gitDo git context directory args = andThen (gitOutput git context directory args) (\<lambda>_. give ())"

definition may_stage :: "WorkspaceChange \<Rightarrow> bool" where
  "may_stage change \<longleftrightarrow> wc_unstaged change \<or> wc_status change = ''untracked''"

definition Stage :: "git \<Rightarrow> string \<Rightarrow> string \<Rightarrow> string list \<Rightarrow> bool \<Rightarrow> string list \<Rightarrow> unit operation" where
  "Stage git cwd repositoryPath paths all managedRoots =
     andThen (resolveRepository git cwd managedRoots repositoryPath) (\<lambda>repositoryPath.
     andThen (selectWorkspaceChangePaths git cwd repositoryPath paths all managedRoots may_stage) (\<lambda>paths.
       if paths = [] then give ()
       else gitDo git ''stage changes'' repositoryPath ([''add'', ''--all'', ''--''] @ paths)))"

definition Unstage :: "git \<Rightarrow> string \<Rightarrow> string \<Rightarrow> string list \<Rightarrow> bool \<Rightarrow> string list \<Rightarrow> unit operation" where
  "Unstage git cwd repositoryPath paths all managedRoots =
     andThen (resolveRepository git cwd managedRoots repositoryPath) (\<lambda>repositoryPath.
     andThen (selectWorkspaceChangePaths git cwd repositoryPath paths all managedRoots wc_staged) (\<lambda>paths.
       if paths = [] then give ()
       else andThen (runGit git repositoryPath [''rev-parse'', ''--verify'', ''HEAD'']) (\<lambda>(headErr, _).
         if headErr \<noteq> None
         then gitDo git ''unstage changes'' repositoryPath
           ([''rm'', ''--cached'', ''-r'', ''--ignore-unmatch'', ''--''] @ paths)
         else gitDo git ''unstage changes'' repositoryPath ([''restore'', ''--staged'', ''--''] @ paths))))"

definition may_discard_unstaged :: "WorkspaceChange \<Rightarrow> bool" where
  "may_discard_unstaged change \<longleftrightarrow>
     wc_status change \<noteq> ''conflicted'' \<and> (wc_unstaged change \<or> wc_status change = ''untracked'')"

definition may_discard :: "WorkspaceChange \<Rightarrow> bool" where
  "may_discard change \<longleftrightarrow>
     wc_status change \<noteq> ''conflicted'' \<and> (wc_staged change \<or> wc_unstaged change \<or> wc_status change = ''untracked'')"

fun discard_paths :: "git \<Rightarrow> string \<Rightarrow> WorkspaceChange list \<Rightarrow> string list \<Rightarrow> unit operation" where
  "discard_paths git repositoryPath changes [] = give ()"
| "discard_paths git repositoryPath changes (path # paths) =
     andThen (gitDo git ''discard changes'' repositoryPath
       (if map_option wc_status (by_path changes path) = Some ''untracked''
        then [''clean'', ''-f'', ''--'', path]
        else [''restore'', ''--worktree'', ''--'', path])) (\<lambda>_.
       discard_paths git repositoryPath changes paths)"

definition DiscardUnstaged :: "git \<Rightarrow> string \<Rightarrow> string \<Rightarrow> string list \<Rightarrow> bool \<Rightarrow> string list \<Rightarrow> unit operation" where
  "DiscardUnstaged git cwd repositoryPath paths all managedRoots =
     andThen (resolveRepository git cwd managedRoots repositoryPath) (\<lambda>repositoryPath.
     andThen (selectWorkspaceChangePaths git cwd repositoryPath paths all managedRoots may_discard_unstaged) (\<lambda>paths.
     andThen (ListWorkspaceChanges git cwd repositoryPath managedRoots) (\<lambda>changes.
       discard_paths git repositoryPath changes paths)))"

definition DiscardChanges :: "git \<Rightarrow> string \<Rightarrow> string \<Rightarrow> string list \<Rightarrow> bool \<Rightarrow> string list \<Rightarrow> unit operation" where
  "DiscardChanges git cwd repositoryPath paths all managedRoots =
     andThen (resolveRepository git cwd managedRoots repositoryPath) (\<lambda>repositoryPath.
     andThen (selectWorkspaceChangePaths git cwd repositoryPath paths all managedRoots may_discard) (\<lambda>selected.
     andThen (ListWorkspaceChanges git cwd repositoryPath managedRoots) (\<lambda>changes.
       let staged = map wc_path (filter (\<lambda>c. wc_path c \<in> set selected \<and> wc_staged c) changes) in
       andThen (if staged = [] then give ()
                else Unstage git cwd repositoryPath staged False managedRoots) (\<lambda>_.
         DiscardUnstaged git cwd repositoryPath selected False managedRoots))))"

definition maxCommitMessage :: nat where
  "maxCommitMessage = 20 * 1024"

definition CommitChanges :: "git \<Rightarrow> string \<Rightarrow> string \<Rightarrow> string \<Rightarrow> string list \<Rightarrow> unit operation" where
  "CommitChanges git cwd repositoryPath message managedRoots =
     andThen (resolveRepository git cwd managedRoots repositoryPath) (\<lambda>repositoryPath.
       let message = trim_space message in
       andThen (check (message \<noteq> []) ''commit message is required'') (\<lambda>_.
       andThen (check (\<not> length message > maxCommitMessage) ''commit message must be at most 20480 bytes'') (\<lambda>_.
       andThen (check (CHR 0x00 \<notin> set message) ''commit message contains a NUL character'') (\<lambda>_.
         gitDo git ''commit changes'' repositoryPath [''commit'', ''--no-gpg-sign'', ''-m'', message]))))"

section \<open>What may be touched\<close>

definition inside_path :: "string \<Rightarrow> bool" where
  "inside_path p \<longleftrightarrow> p \<noteq> ''.'' \<and> \<not> is_abs p \<and> \<not> climbs p"

lemma normalizeChangePath_inside: "normalizeChangePath v = Inr p \<Longrightarrow> inside_path p"
  by (auto simp: normalizeChangePath_def inside_path_def Let_def split: if_splits)

lemma parse_changes_inside:
  "parse_changes entries = Inr changes \<Longrightarrow> \<forall>c\<in>set changes. inside_path (wc_path c)"
proof (induction entries arbitrary: changes rule: parse_changes.induct)
  case (2 entry entries)
  show ?case
  proof (cases "entry = []")
    case True
    then show ?thesis using 2 by simp
  next
    case False
    then obtain path where entry: "\<not> (length entry < 4 \<or> entry ! 2 \<noteq> CHR '' '')"
      and path: "normalizeChangePath (drop 3 entry) = Inr path"
      using "2.prems" by (auto simp: try_then_Inr_iff Let_def split: if_splits)
    have inside: "inside_path path" by (rule normalizeChangePath_inside [OF path])
    show ?thesis
    proof (cases "two_paths (entry ! 0) (entry ! 1)")
      case True
      then obtain old rest oldPath cs where "entries = old # rest" "old \<noteq> []"
        and old: "normalizeChangePath old = Inr oldPath" and rest: "parse_changes rest = Inr cs"
        and changes: "changes = keep_change (porcelain_change (entry ! 0) (entry ! 1) path oldPath) cs"
        using "2.prems" False entry path
        by (auto simp: try_then_Inr_iff Let_def map_sum_def split: if_splits list.splits sum.splits)
      have "\<forall>c\<in>set cs. inside_path (wc_path c)"
        using "2.IH"(2) False entry path True \<open>entries = _\<close> \<open>old \<noteq> []\<close> old rest by simp
      then show ?thesis using inside by (simp add: changes keep_change_def porcelain_change_def)
    next
      case nt: False
      then obtain cs where "parse_changes entries = Inr cs"
        and changes: "changes = keep_change (porcelain_change (entry ! 0) (entry ! 1) path []) cs"
        using "2.prems" False entry path
        by (auto simp: try_then_Inr_iff Let_def map_sum_def split: if_splits sum.splits)
      then have "\<forall>c\<in>set cs. inside_path (wc_path c)"
        using "2.IH"(3) False entry path nt by simp
      then show ?thesis using inside by (simp add: changes keep_change_def porcelain_change_def)
    qed
  qed
qed simp

lemma ListWorkspaceChanges_inside:
  "ListWorkspaceChanges git cwd path roots s = (Inr changes, s') \<Longrightarrow> \<forall>c\<in>set changes. inside_path (wc_path c)"
  by (auto simp: ListWorkspaceChanges_def andThen_Inr dest: parse_changes_inside)

lemma by_path_member: "by_path changes p = Some c \<Longrightarrow> c \<in> set changes \<and> wc_path c = p"
  unfolding by_path_def by (drule map_of_SomeD) auto

lemma select_paths_eligible:
  assumes "select_paths predicate changes seen raws = Inr paths"
  shows "(\<forall>p\<in>set paths. (\<exists>c\<in>set changes. wc_path c = p \<and> predicate c)
      \<and> (\<exists>raw\<in>set raws. normalizeChangePath raw = Inr p))
    \<and> distinct paths \<and> set paths \<inter> set seen = {} \<and> length paths \<le> length raws
    \<and> (\<forall>raw\<in>set raws. \<exists>p. normalizeChangePath raw = Inr p \<and> p \<in> set seen \<union> set paths)"
  using assms
proof (induction predicate changes seen raws arbitrary: paths rule: select_paths.induct)
  case (2 predicate changes seen raw raws)
  then obtain p where p: "normalizeChangePath raw = Inr p" by (auto simp: try_then_Inr_iff)
  show ?case
  proof (cases "p \<in> set seen")
    case True
    have "select_paths predicate changes seen raws = Inr paths" using "2.prems" p True by simp
    from "2.IH"(1) [OF p True this] show ?thesis using p True by auto
  next
    case False
    then obtain c ps where c: "by_path changes p = Some c" "predicate c"
      and ps: "select_paths predicate changes (p # seen) raws = Inr ps" and paths: "paths = p # ps"
      using "2.prems" p by (auto simp: map_sum_def split: option.splits if_splits sum.splits)
    have "\<not> \<not> predicate c" using c(2) by simp
    from "2.IH"(2) [OF p False c(1) this ps] show ?thesis
      using p False c by_path_member [OF c(1)] by (auto simp: paths)
  qed
qed simp

text \<open>
  An action touches only what it may. The paths chosen for it are paths of current changes of the
  kind it accepts, and stay inside the work tree; a request that names paths gets exactly these, each
  once, and fails when one of them is not such a change.
\<close>

theorem selected_paths_eligible:
  assumes "selectWorkspaceChangePaths git cwd path paths all roots predicate s = (Inr selected, s')"
  shows "\<exists>changes. ListWorkspaceChanges git cwd path roots s = (Inr changes, s')
    \<and> (\<forall>p\<in>set selected. inside_path p \<and> (\<exists>c\<in>set changes. wc_path c = p \<and> predicate c))
    \<and> (if all then selected = map wc_path (filter predicate changes)
       else distinct selected \<and> length selected \<le> 512
         \<and> set selected = {p. \<exists>raw\<in>set paths. normalizeChangePath raw = Inr p})"
proof -
  obtain changes where changes: "ListWorkspaceChanges git cwd path roots s = (Inr changes, s')"
    and choice: "if all then selected = map wc_path (filter predicate changes)
      else length paths \<le> 512 \<and> select_paths predicate changes [] paths = Inr selected"
    using assms by (auto simp: selectWorkspaceChangePaths_def andThen_Inr maxGitChangePaths_def split: if_splits)
  have inside: "\<forall>c\<in>set changes. inside_path (wc_path c)"
    by (rule ListWorkspaceChanges_inside [OF changes])
  show ?thesis
  proof (cases all)
    case True
    then show ?thesis using changes choice inside by auto
  next
    case False
    then have *: "length paths \<le> 512" "select_paths predicate changes [] paths = Inr selected"
      using choice by simp_all
    note eligible = select_paths_eligible [OF *(2)]
    have "set selected = {p. \<exists>raw\<in>set paths. normalizeChangePath raw = Inr p}"
      using eligible by fastforce
    then show ?thesis using changes False eligible *(1) inside by fastforce
  qed
qed

theorem selected_paths_eligible_witness:
  "\<exists>changes. ListWorkspaceChanges (\<lambda>args t. (if ''status'' \<in> set args then (None, '' M a'' @ [CHR 0x00])
        else (None, ''/r/p''), t)) ''/'' ''/r/p'' [''/r''] clone_root
      = (Inr changes, snd (selectWorkspaceChangePaths (\<lambda>args t. (if ''status'' \<in> set args
          then (None, '' M a'' @ [CHR 0x00]) else (None, ''/r/p''), t)) ''/'' ''/r/p'' [''./a'', ''a''] False [''/r'']
          may_stage clone_root))
    \<and> (\<forall>p\<in>set [''a'']. inside_path p \<and> (\<exists>c\<in>set changes. wc_path c = p \<and> may_stage c))
    \<and> (if False then [''a''] = map wc_path (filter may_stage changes)
       else distinct [''a''] \<and> length [''a''] \<le> 512
         \<and> set [''a''] = {p. \<exists>raw\<in>set [''./a'', ''a'']. normalizeChangePath raw = Inr p})"
proof (rule selected_paths_eligible)
  let ?git = "\<lambda>args t. (if ''status'' \<in> set args then (None, '' M a'' @ [CHR 0x00]) else (None, ''/r/p''), t)"
  have "fst (selectWorkspaceChangePaths ?git ''/'' ''/r/p'' [''./a'', ''a''] False [''/r''] may_stage clone_root) = Inr [''a'']"
    unfolding maxGitChangePaths_def by code_simp
  then show "selectWorkspaceChangePaths ?git ''/'' ''/r/p'' [''./a'', ''a''] False [''/r''] may_stage clone_root =
      (Inr [''a''], snd (selectWorkspaceChangePaths ?git ''/'' ''/r/p'' [''./a'', ''a''] False [''/r''] may_stage clone_root))"
    by (metis prod.collapse)
qed

section \<open>Counting the lines of a difference\<close>

text \<open>The lines of a difference: a sign and the text of the line.\<close>

definition diff_text :: "(char \<times> string) list \<Rightarrow> string" where
  "diff_text ls = concat (map (\<lambda>(c, l). c # l @ [CHR 0x0A]) ls)"

lemma split_diff_text:
  assumes "\<forall>(c, l)\<in>set ls. c \<noteq> CHR 0x0A \<and> CHR 0x0A \<notin> set l"
  shows "split_on (CHR 0x0A) (diff_text ls) = map (\<lambda>(c, l). c # l) ls @ [[]]"
  using assms
proof (induction ls)
  case (Cons x ls)
  obtain c l where x: "x = (c, l)" by (cases x)
  then have "CHR 0x0A \<notin> set (c # l)" using Cons.prems by auto
  then have "split_on (CHR 0x0A) ((c # l) @ CHR 0x0A # diff_text ls) = (c # l) # split_on (CHR 0x0A) (diff_text ls)"
    by (rule split_on_append)
  moreover have "diff_text (x # ls) = (c # l) @ CHR 0x0A # diff_text ls" by (simp add: diff_text_def x)
  ultimately show ?case using Cons by (simp add: x)
qed (simp add: diff_text_def)

text \<open>
  The numbers of added and deleted lines leave out the lines whose own text starts with \<open>++\<close> or
  \<open>--\<close>: they are counted as if they were the headers of the difference, so a deleted SQL comment, say,
  is not counted.
\<close>

theorem diff_stats_count:
  assumes "\<forall>(c, l)\<in>set ls. c \<noteq> CHR 0x0A \<and> CHR 0x0A \<notin> set l"
  shows "workspaceDiffStats (diff_text ls) =
    (length (filter (\<lambda>(c, l). c = CHR ''+'' \<and> \<not> has_prefix l ''++'') ls),
     length (filter (\<lambda>(c, l). c = CHR ''-'' \<and> \<not> has_prefix l ''--'') ls))"
proof -
  have plus: "has_prefix (c # l) ''+'' \<and> \<not> has_prefix (c # l) ''+++'' \<longleftrightarrow> c = CHR ''+'' \<and> \<not> has_prefix l ''++''"
    and minus: "has_prefix (c # l) ''-'' \<and> \<not> has_prefix (c # l) ''---'' \<longleftrightarrow> c = CHR ''-'' \<and> \<not> has_prefix l ''--''"
    for c l by (auto simp: has_prefix_def)
  have empty: "\<not> has_prefix [] ''+''" "\<not> has_prefix [] ''-''" by (simp_all add: has_prefix_def)
  have both: "(has_prefix (c # l) ''+'' \<longrightarrow> has_prefix (c # l) ''+++'') \<and> c = CHR ''-'' \<and> \<not> has_prefix l ''--''
      \<longleftrightarrow> c = CHR ''-'' \<and> \<not> has_prefix l ''--''" for c l by (auto simp: has_prefix_def)
  show ?thesis
    by (simp add: workspaceDiffStats_def split_diff_text [OF assms] filter_map o_def case_prod_unfold
        plus minus both empty Let_def)
qed

theorem diff_stats_count_witness:
  "workspaceDiffStats (diff_text [(CHR ''-'', ''-- drop''), (CHR ''-'', ''x''), (CHR ''+'', ''y'')]) =
    (length (filter (\<lambda>(c, l). c = CHR ''+'' \<and> \<not> has_prefix l ''++'')
       [(CHR ''-'', ''-- drop''), (CHR ''-'', ''x''), (CHR ''+'', ''y'')]),
     length (filter (\<lambda>(c, l). c = CHR ''-'' \<and> \<not> has_prefix l ''--'')
       [(CHR ''-'', ''-- drop''), (CHR ''-'', ''x''), (CHR ''+'', ''y'')]))"
  by (rule diff_stats_count) simp

text \<open>
  A new text file that is longer than the limit is shown as binary when the limit falls inside a
  rune, although the preview of the same file shows its text.
\<close>

theorem cut_text_shown_binary:
  assumes "valid_utf8 content" "CHR 0x00 \<notin> set content" "limit < length content"
    and "\<not> valid_utf8 (take limit content)"
  shows "wd_binary (new_file_text path limit content)
    \<and> wd_additions (new_file_text path limit content) = 0
    \<and> (\<exists>shown. preview_text limit content = Inr (shown, True) \<and> prefix shown content)"
proof -
  obtain j where j: "j \<le> 3" "valid_utf8 (take (limit - j) content)"
    using valid_utf8_cut [OF assms(1), of limit] assms(3) by auto
  then have "valid_utf8 (take (length (take limit content) - j) (take limit content))"
    using assms(3) by (simp add: min_def)
  then have valid: "valid_utf8 (cut_to_rune 4 (take limit content))"
    by (rule cut_to_rune_valid) (use j in simp)
  have pre: "prefix (cut_to_rune 4 (take limit content)) content"
    using cut_to_rune_prefix [of 4 "take limit content"] take_is_prefix [of limit content]
    by (rule prefix_order.trans)
  then have "CHR 0x00 \<notin> set (cut_to_rune 4 (take limit content))" using assms(2) by (auto dest: set_mono_prefix)
  then have "preview_text limit content = Inr (cut_to_rune 4 (take limit content), True)"
    using assms(3) valid by (simp add: preview_text_def Let_def min_def)
  then show ?thesis using assms(3,4) pre by (simp add: new_file_text_def Let_def)
qed

theorem cut_text_shown_binary_witness:
  "wd_binary (new_file_text ''f'' 2 [CHR ''a'', CHR 0xC3, CHR 0xA9])
    \<and> wd_additions (new_file_text ''f'' 2 [CHR ''a'', CHR 0xC3, CHR 0xA9]) = 0
    \<and> (\<exists>shown. preview_text 2 [CHR ''a'', CHR 0xC3, CHR 0xA9] = Inr (shown, True)
        \<and> prefix shown [CHR ''a'', CHR 0xC3, CHR 0xA9])"
  by (rule cut_text_shown_binary) (code_simp, simp, simp, code_simp)

end
