(* ===== verification/Git_Actions.thy ===== *)
theory Git_Actions
  imports Git_Changes
begin

text \<open>
  The git operations that the agent offers (\<open>internal/gitrepository/write.go\<close>, \<open>repository.go\<close> and
  \<open>internal/agent/client.go\<close>): branches, remotes, checkout, fetch, pull and push, the inspection of a
  workspace, the handler of a workspace write, and the creation of a managed project. The parser
  \<open>url.Parse\<close> of Go's \<open>net/url\<close> is an argument; \<open>parsed_url\<close> is what the code asks it for.
\<close>

section \<open>Arguments\<close>

record parsed_url =
  u_scheme :: string
  u_user :: bool
  u_password :: bool
  u_host :: string

type_synonym url_parser = "string \<Rightarrow> parsed_url option"

text \<open>\<open>strings.LastIndex(raw, "@")\<close> and \<open>strings.IndexByte(raw, ':')\<close>: the text around the byte.\<close>

definition around_first :: "char \<Rightarrow> string \<Rightarrow> (string \<times> string) option" where
  "around_first c s =
     (if c \<in> set s then Some (takeWhile (\<lambda>x. x \<noteq> c) s, tl (dropWhile (\<lambda>x. x \<noteq> c) s)) else None)"

definition around_last :: "char \<Rightarrow> string \<Rightarrow> (string \<times> string) option" where
  "around_last c s = map_option (\<lambda>(a, b). (rev b, rev a)) (around_first c (rev s))"

definition contains_any :: "string \<Rightarrow> string \<Rightarrow> bool" where
  "contains_any s chars \<longleftrightarrow> (\<exists>c\<in>set s. c \<in> set chars)"

definition validateSCPRemote :: "string \<Rightarrow> bool" where
  "validateSCPRemote raw =
     (case (around_last (CHR ''@'') raw, around_first (CHR '':'') raw) of
        (Some (user, after), Some (before, path)) \<Rightarrow>
          let at = length user; colon = length before in
          if at = 0 \<or> colon \<le> at + 1 \<or> path = [] then False
          else
            let host = drop (at + 1) before in
            \<not> contains_any user (''/:@'' @ [CHR 0x5C]) \<and> \<not> contains_any host (''/:@'' @ [CHR 0x5C])
      | _ \<Rightarrow> False)"

definition validateRemoteURL :: "url_parser \<Rightarrow> string \<Rightarrow> op_error + unit" where
  "validateRemoteURL parse raw =
     (if containsWhitespaceOrControl raw
      then Inl (Said ''remote URL contains invalid whitespace or control characters'')
      else if validateSCPRemote raw then Inr ()
      else case parse raw of
          None \<Rightarrow> Inl (Said ''remote URL must be an absolute URL'')
        | Some parsed \<Rightarrow>
            let scheme = to_lower (u_scheme parsed) in
            if u_scheme parsed = [] then Inl (Said ''remote URL must be an absolute URL'')
            else if scheme = ''https'' then
              if u_user parsed then Inl (Said ''HTTPS remote URL must not contain user information'')
              else require (u_host parsed \<noteq> []) (Said ''remote URL must include a host'')
            else if scheme = ''ssh'' then
              if u_user parsed \<and> u_password parsed then Inl (Said ''SSH remote URL must not contain a password'')
              else require (u_host parsed \<noteq> []) (Said ''remote URL must include a host'')
            else Inl (Said ''remote URL scheme is not supported''))"

definition validateBranch :: "git \<Rightarrow> string \<Rightarrow> unit operation" where
  "validateBranch git name =
     (let name = trim_space name in
      andThen (check (name \<noteq> []) ''branch name is required'') (\<lambda>_.
        gitDo git ''invalid branch name'' [] [''check-ref-format'', ''--branch'', name]))"

definition validateRef :: "string \<Rightarrow> op_error + unit" where
  "validateRef ref =
     (let ref = trim_space ref in
      require (\<not> (ref = [] \<or> has_prefix ref ''-'' \<or> containsWhitespaceOrControl ref))
        (Said ''invalid Git reference''))"

text \<open>\<open>^[A-Za-z0-9][A-Za-z0-9._-]{0,127}$\<close>\<close>

definition alphanumeric :: "char \<Rightarrow> bool" where
  "alphanumeric c \<longleftrightarrow> byte_in 48 57 c \<or> byte_in 65 90 c \<or> byte_in 97 122 c"

definition remoteNamePattern :: "string \<Rightarrow> bool" where
  "remoteNamePattern s \<longleftrightarrow>
     s \<noteq> [] \<and> alphanumeric (hd s) \<and> length s \<le> 128
     \<and> (\<forall>c\<in>set (tl s). alphanumeric c \<or> c \<in> set ''._-'')"

definition validateRemoteName :: "string \<Rightarrow> op_error + unit" where
  "validateRemoteName name = require (remoteNamePattern (trim_space name)) (Said ''invalid remote name'')"

section \<open>Branches and remotes\<close>

definition CreateBranch :: "git \<Rightarrow> string \<Rightarrow> string \<Rightarrow> string \<Rightarrow> string \<Rightarrow> string list \<Rightarrow> unit operation" where
  "CreateBranch git cwd repositoryPath name startPoint managedRoots =
     andThen (resolveRepository git cwd managedRoots repositoryPath) (\<lambda>repositoryPath.
     andThen (validateBranch git name) (\<lambda>_.
     andThen (if trim_space startPoint = [] then give () else on_tree (\<lambda>_. validateRef startPoint)) (\<lambda>_.
       gitDo git ''create branch'' repositoryPath
         ([''branch'', name] @ (if trim_space startPoint = [] then [] else [startPoint])))))"

definition RenameBranch :: "git \<Rightarrow> string \<Rightarrow> string \<Rightarrow> string \<Rightarrow> string \<Rightarrow> string list \<Rightarrow> unit operation" where
  "RenameBranch git cwd repositoryPath name newName managedRoots =
     andThen (resolveRepository git cwd managedRoots repositoryPath) (\<lambda>repositoryPath.
     andThen (validateBranch git name) (\<lambda>_.
     andThen (validateBranch git newName) (\<lambda>_.
       gitDo git ''rename branch'' repositoryPath [''branch'', ''-m'', name, newName])))"

definition DeleteBranch :: "git \<Rightarrow> string \<Rightarrow> string \<Rightarrow> string \<Rightarrow> bool \<Rightarrow> string list \<Rightarrow> unit operation" where
  "DeleteBranch git cwd repositoryPath name force managedRoots =
     andThen (resolveRepository git cwd managedRoots repositoryPath) (\<lambda>repositoryPath.
     andThen (validateBranch git name) (\<lambda>_.
       gitDo git ''delete branch'' repositoryPath [''branch'', if force then ''-D'' else ''-d'', name]))"

definition Checkout :: "git \<Rightarrow> string \<Rightarrow> string \<Rightarrow> string \<Rightarrow> bool \<Rightarrow> string list \<Rightarrow> unit operation" where
  "Checkout git cwd repositoryPath ref detach managedRoots =
     andThen (resolveRepository git cwd managedRoots repositoryPath) (\<lambda>repositoryPath.
     andThen (on_tree (\<lambda>_. validateRef ref)) (\<lambda>_.
       gitDo git ''switch branch'' repositoryPath
         ([''switch''] @ (if detach then [''--detach''] else []) @ [ref])))"

definition AddRemote :: "git \<Rightarrow> url_parser \<Rightarrow> string \<Rightarrow> string \<Rightarrow> string \<Rightarrow> string \<Rightarrow> string list \<Rightarrow> unit operation" where
  "AddRemote git parse cwd repositoryPath name remoteURL managedRoots =
     andThen (resolveRepository git cwd managedRoots repositoryPath) (\<lambda>repositoryPath.
     andThen (on_tree (\<lambda>_. validateRemoteName name)) (\<lambda>_.
     andThen (on_tree (\<lambda>_. validateRemoteURL parse (trim_space remoteURL))) (\<lambda>_.
       gitDo git ''add remote'' repositoryPath [''remote'', ''add'', name, remoteURL])))"

definition SetRemoteURL :: "git \<Rightarrow> url_parser \<Rightarrow> string \<Rightarrow> string \<Rightarrow> string \<Rightarrow> string \<Rightarrow> string list \<Rightarrow> unit operation" where
  "SetRemoteURL git parse cwd repositoryPath name remoteURL managedRoots =
     andThen (resolveRepository git cwd managedRoots repositoryPath) (\<lambda>repositoryPath.
     andThen (on_tree (\<lambda>_. validateRemoteName name)) (\<lambda>_.
     andThen (on_tree (\<lambda>_. validateRemoteURL parse (trim_space remoteURL))) (\<lambda>_.
       gitDo git ''update remote'' repositoryPath [''remote'', ''set-url'', name, remoteURL])))"

definition RemoveRemote :: "git \<Rightarrow> string \<Rightarrow> string \<Rightarrow> string \<Rightarrow> string list \<Rightarrow> unit operation" where
  "RemoveRemote git cwd repositoryPath name managedRoots =
     andThen (resolveRepository git cwd managedRoots repositoryPath) (\<lambda>repositoryPath.
     andThen (on_tree (\<lambda>_. validateRemoteName name)) (\<lambda>_.
       gitDo git ''remove remote'' repositoryPath [''remote'', ''remove'', name]))"

definition Fetch :: "git \<Rightarrow> string \<Rightarrow> string \<Rightarrow> string \<Rightarrow> string list \<Rightarrow> unit operation" where
  "Fetch git cwd repositoryPath remote managedRoots =
     andThen (resolveRepository git cwd managedRoots repositoryPath) (\<lambda>repositoryPath.
     andThen (if trim_space remote = [] then give () else on_tree (\<lambda>_. validateRemoteName remote)) (\<lambda>_.
       gitDo git ''fetch'' repositoryPath
         ([''fetch'', ''--prune''] @ (if trim_space remote = [] then [] else [remote]))))"

definition Pull :: "git \<Rightarrow> string \<Rightarrow> string \<Rightarrow> string \<Rightarrow> string \<Rightarrow> string list \<Rightarrow> unit operation" where
  "Pull git cwd repositoryPath remote branch managedRoots =
     andThen (resolveRepository git cwd managedRoots repositoryPath) (\<lambda>repositoryPath.
     andThen (if remote = [] then give () else on_tree (\<lambda>_. validateRemoteName remote)) (\<lambda>_.
     andThen (if branch = [] then give () else validateBranch git branch) (\<lambda>_.
       gitDo git ''pull'' repositoryPath
         ([''pull'', ''--ff-only''] @ (if remote = [] then [] else [remote])
           @ (if branch = [] then [] else [branch])))))"

definition Push :: "git \<Rightarrow> string \<Rightarrow> string \<Rightarrow> string \<Rightarrow> string \<Rightarrow> bool \<Rightarrow> string list \<Rightarrow> unit operation" where
  "Push git cwd repositoryPath remote ref setUpstream managedRoots =
     andThen (resolveRepository git cwd managedRoots repositoryPath) (\<lambda>repositoryPath.
     andThen (on_tree (\<lambda>_. validateRemoteName remote)) (\<lambda>_.
     andThen (on_tree (\<lambda>_. validateRef ref)) (\<lambda>_.
       gitDo git ''push'' repositoryPath
         ([''push''] @ (if setUpstream then [''--set-upstream''] else []) @ [remote, ref]))))"

section \<open>The agent's handlers\<close>

record inspect_result =
  ir_workspace_id :: string
  ir_status :: Status
  ir_changes :: "WorkspaceChange list"
  ir_branches :: "Branch list"
  ir_remotes :: "Remote list"
  ir_commits :: "Commit list"
  ir_has_more :: bool

definition inspectWorkspaceGit ::
  "git \<Rightarrow> string \<Rightarrow> string list \<Rightarrow> string \<Rightarrow> string \<Rightarrow> int \<Rightarrow> inspect_result operation" where
  "inspectWorkspaceGit git cwd roots workspaceID path commitLimit =
     andThen (check (trim_space workspaceID \<noteq> []) ''workspace ID is required'') (\<lambda>_.
     andThen (GetStatus git cwd path roots) (\<lambda>status.
     andThen (ListBranches git cwd path roots) (\<lambda>branches.
     andThen (ListRemotes git cwd path roots) (\<lambda>remotes.
     andThen (ListCommits git cwd path roots [] 0 (if commitLimit \<le> 0 then 50 else commitLimit)) (\<lambda>commits.
     andThen (ListWorkspaceChanges git cwd path roots) (\<lambda>changes.
       give \<lparr>ir_workspace_id = workspaceID, ir_status = status, ir_changes = changes,
         ir_branches = branches, ir_remotes = remotes, ir_commits = pg_commits commits,
         ir_has_more = pg_has_more commits\<rparr>))))))"

record git_write =
  gw_workspace_id :: string
  gw_path :: string
  gw_action :: string
  gw_branch :: string
  gw_new_branch :: string
  gw_start_point :: string
  gw_remote :: string
  gw_url :: string
  gw_ref :: string
  gw_force :: bool
  gw_set_upstream :: bool
  gw_detach :: bool
  gw_paths :: "string list"
  gw_all :: bool
  gw_include_staged :: bool
  gw_message :: string

definition write_action :: "git \<Rightarrow> url_parser \<Rightarrow> string \<Rightarrow> string list \<Rightarrow> git_write \<Rightarrow> unit operation" where
  "write_action git parse cwd roots c =
     (let path = gw_path c; action = gw_action c in
      if action = ''branch.create'' then CreateBranch git cwd path (gw_branch c) (gw_start_point c) roots
      else if action = ''branch.rename'' then RenameBranch git cwd path (gw_branch c) (gw_new_branch c) roots
      else if action = ''branch.delete'' then DeleteBranch git cwd path (gw_branch c) (gw_force c) roots
      else if action = ''checkout'' then Checkout git cwd path (gw_ref c) (gw_detach c) roots
      else if action = ''remote.add'' then AddRemote git parse cwd path (gw_remote c) (gw_url c) roots
      else if action = ''remote.set-url'' then SetRemoteURL git parse cwd path (gw_remote c) (gw_url c) roots
      else if action = ''remote.remove'' then RemoveRemote git cwd path (gw_remote c) roots
      else if action = ''fetch'' then Fetch git cwd path (gw_remote c) roots
      else if action = ''pull'' then Pull git cwd path (gw_remote c) (gw_branch c) roots
      else if action = ''push'' then Push git cwd path (gw_remote c) (gw_ref c) (gw_set_upstream c) roots
      else if action = ''stage'' then Stage git cwd path (gw_paths c) (gw_all c) roots
      else if action = ''unstage'' then Unstage git cwd path (gw_paths c) (gw_all c) roots
      else if action = ''discard'' then
        if gw_include_staged c then DiscardChanges git cwd path (gw_paths c) (gw_all c) roots
        else DiscardUnstaged git cwd path (gw_paths c) (gw_all c) roots
      else if action = ''commit'' then
        andThen (if gw_all c then Stage git cwd path [] True roots else give ()) (\<lambda>_.
          CommitChanges git cwd path (gw_message c) roots)
      else refuse_op (Said ''unsupported workspace Git action''))"

definition writeWorkspaceGit ::
  "git \<Rightarrow> url_parser \<Rightarrow> string \<Rightarrow> string list \<Rightarrow> git_write \<Rightarrow> inspect_result operation" where
  "writeWorkspaceGit git parse cwd roots c =
     andThen (check (gw_workspace_id c \<noteq> [] \<and> gw_path c \<noteq> [] \<and> gw_action c \<noteq> [])
       ''workspace Git write command is incomplete'') (\<lambda>_.
     andThen (if gw_action c \<in> {''checkout'', ''pull''}
              then andThen (GetStatus git cwd (gw_path c) roots) (\<lambda>status.
                check (\<not> st_dirty status) ''workspace has uncommitted changes'')
              else give ()) (\<lambda>_.
     andThen (write_action git parse cwd roots c) (\<lambda>_.
       inspectWorkspaceGit git cwd roots (gw_workspace_id c) (gw_path c) 50)))"

section \<open>Creating a project\<close>

record create_options =
  co_project_id :: string
  co_path :: string
  co_initial_branch :: string
  co_remote_url :: string
  co_require_empty :: bool
  co_readme :: bool
  co_readme_content :: string
  co_message :: string
  co_author :: string
  co_email :: string

record create_result =
  cr_path :: string
  cr_branch :: string
  cr_head :: string
  cr_unborn :: bool
  cr_remote_url :: string

definition verifyEmptyRemote :: "git \<Rightarrow> string \<Rightarrow> unit operation" where
  "verifyEmptyRemote git remoteURL =
     andThen (gitOutput git ''inspect remote repository'' []
       [''ls-remote'', ''--heads'', ''--tags'', ''--'', remoteURL]) (\<lambda>output.
       check (trim_space output = []) ''remote repository is not empty'')"

definition validateCommitIdentity :: "create_options \<Rightarrow> op_error + unit" where
  "validateCommitIdentity o' =
     (if containsControl (co_author o') then Inl (Said ''author name contains control characters'')
      else if containsControl (co_email o') then Inl (Said ''author email contains control characters'')
      else if containsControl (co_message o') then Inl (Said ''commit message contains control characters'')
      else Inr ())"

definition identity_check :: "git \<Rightarrow> string \<Rightarrow> string \<Rightarrow> string \<Rightarrow> unit operation" where
  "identity_check git repositoryPath value key =
     (if trim_space value \<noteq> [] then give ()
      else andThen (runGit git repositoryPath [''config'', ''--get'', key]) (\<lambda>(err, output).
        check (err = None \<and> trim_space output \<noteq> []) ''is not configured; set Git or provide it explicitly''))"

definition validateConfiguredCommitIdentity :: "git \<Rightarrow> string \<Rightarrow> create_options \<Rightarrow> unit operation" where
  "validateConfiguredCommitIdentity git repositoryPath o' =
     andThen (identity_check git repositoryPath (co_author o') ''user.name'') (\<lambda>_.
       identity_check git repositoryPath (co_email o') ''user.email'')"

definition write_readme :: "string \<Rightarrow> string \<Rightarrow> unit operation" where
  "write_readme p content s =
     (case write_file p content 420 (tree s) of
        Inl e \<Rightarrow> (Inl (Wrapped ''write README'' (System e)), s)
      | Inr t \<Rightarrow> (Inr (), s\<lparr>tree := t\<rparr>))"

definition commitREADME :: "git \<Rightarrow> string \<Rightarrow> create_options \<Rightarrow> unit operation" where
  "commitREADME git repositoryPath o' =
     andThen (validateConfiguredCommitIdentity git repositoryPath o') (\<lambda>_.
       let content = (if co_readme_content o' = [] then ''# '' @ path_base repositoryPath @ [CHR 0x0A]
                      else co_readme_content o');
           message = (if trim_space (co_message o') = [] then ''Initial commit'' else trim_space (co_message o'));
           named = (\<lambda>key value. if trim_space value = [] then [] else [''-c'', key @ trim_space value])
       in
       andThen (write_readme (path_join [repositoryPath, ''README.md'']) content) (\<lambda>_.
       andThen (gitDo git ''stage README'' repositoryPath [''add'', ''--'', ''README.md'']) (\<lambda>_.
         gitDo git ''commit README'' repositoryPath
           (named ''user.email='' (co_email o') @ named ''user.name='' (co_author o')
            @ [''-c'', ''commit.gpgsign=false'', ''commit'', ''--no-gpg-sign'', ''--no-verify'', ''-m'', message]))))"

definition created_result :: "string \<Rightarrow> string \<Rightarrow> Status \<Rightarrow> create_result" where
  "created_result path remoteURL st =
     \<lparr>cr_path = path, cr_branch = st_branch st, cr_head = st_head st, cr_unborn = st_unborn st,
      cr_remote_url = remoteURL\<rparr>"

text \<open>The remote of a repository that an earlier attempt left behind.\<close>

definition resume_remote :: "git \<Rightarrow> string \<Rightarrow> string \<Rightarrow> unit operation" where
  "resume_remote git repositoryPath remoteURL =
     andThen (runGit git repositoryPath [''remote'', ''get-url'', ''origin'']) (\<lambda>(err, output).
       let existing = (if err = None then trim_space output else []) in
       if remoteURL = [] then
         check (existing = []) ''existing repository has an unexpected origin remote''
       else if existing = [] then
         gitDo git ''resume origin remote'' repositoryPath [''remote'', ''add'', ''--'', ''origin'', remoteURL]
       else check (existing = remoteURL) ''existing repository origin does not match the requested remote'')"

definition recoverCreatedRepository ::
  "git \<Rightarrow> string \<Rightarrow> create_options \<Rightarrow> string \<Rightarrow> string \<Rightarrow> string list \<Rightarrow> create_result operation" where
  "recoverCreatedRepository git cwd o' branch remoteURL managedRoots =
     andThen (wrap ''repository path already exists'' (resolveRepository git cwd managedRoots (co_path o'))) (\<lambda>path.
     andThen (runGit git path [''config'', ''--local'', ''--get'', ''wio.projectId'']) (\<lambda>(err, marker).
     andThen (check (err = None \<and> trim_space marker = trim_space (co_project_id o'))
       ''repository path already exists for a different project'') (\<lambda>_.
     andThen (getStatus git path) (\<lambda>status.
     andThen (check (st_branch status = branch)
       ''existing repository branch does not match the requested initial branch'') (\<lambda>_.
     andThen (resume_remote git path remoteURL) (\<lambda>_.
     andThen (if co_readme o' \<and> st_unborn status
              then andThen (commitREADME git path o') (\<lambda>_. getStatus git path) else give status) (\<lambda>status.
     andThen (check (\<not> (co_readme o' \<and> st_unborn status))
       ''existing repository is missing the requested initial commit'') (\<lambda>_.
       give (created_result path remoteURL status)))))))))"

text \<open>The part of \<open>Create\<close> after the directory is made; when it fails the directory is removed.\<close>

definition init_repository ::
  "git \<Rightarrow> create_options \<Rightarrow> string \<Rightarrow> string \<Rightarrow> string list \<Rightarrow> string \<Rightarrow> string \<Rightarrow> create_result operation" where
  "init_repository git o' branch remoteURL managedRoots projectID target =
     andThen (wrap ''verify repository path'' (on_tree (allowedExistingPath target managedRoots))) (\<lambda>target.
     andThen (gitDo git ''initialize repository'' target [''init'', ''-b'', branch]) (\<lambda>_.
     andThen (gitDo git ''mark repository project'' target [''config'', ''--local'', ''wio.projectId'', projectID]) (\<lambda>_.
     andThen (if remoteURL = [] then give ()
              else gitDo git ''add origin remote'' target [''remote'', ''add'', ''--'', ''origin'', remoteURL]) (\<lambda>_.
     andThen (if co_readme o' then commitREADME git target o' else give ()) (\<lambda>_.
     andThen (getStatus git target) (\<lambda>status.
       give (created_result target remoteURL status)))))))"

definition or_remove :: "string \<Rightarrow> 'a operation \<Rightarrow> 'a operation" where
  "or_remove target m s =
     (case m s of
        (Inl e, s1) \<Rightarrow> (Inl e, s1\<lparr>tree := remove_all target (tree s1)\<rparr>)
      | r \<Rightarrow> r)"

definition make_directory :: "string \<Rightarrow> string \<Rightarrow> string \<Rightarrow> unit operation" where
  "make_directory target exists failed s =
     (case mkdir target (tree s) of
        Inl e \<Rightarrow> (Inl (if e = EEXIST then Said exists else Wrapped failed (System e)), s)
      | Inr t \<Rightarrow> (Inr (), s\<lparr>tree := t\<rparr>))"

definition create_new_repository ::
  "git \<Rightarrow> create_options \<Rightarrow> string \<Rightarrow> string \<Rightarrow> string list \<Rightarrow> string \<Rightarrow> create_result operation" where
  "create_new_repository git o' branch remoteURL managedRoots projectID =
     andThen (wrap ''invalid repository path'' (on_tree (allowedNewPath (co_path o') managedRoots))) (\<lambda>target.
     andThen (make_directory target ''repository path already exists'' ''create repository directory'') (\<lambda>_.
       or_remove target (init_repository git o' branch remoteURL managedRoots projectID target)))"

text \<open>\<open>os.Lstat\<close> of a path as it was given, dots and all.\<close>

definition lstat_raw :: "string \<Rightarrow> string \<Rightarrow> file_tree \<Rightarrow> fs_error + node" where
  "lstat_raw cwd p t =
     (if p = [] then Inl ENOENT
      else try_then (walk t 40 False (if is_abs p then [] else abs_elems cwd) (kernel_elems p)) (\<lambda>q.
        case t q of None \<Rightarrow> Inl ENOENT | Some x \<Rightarrow> Inr x))"

definition check_remote :: "git \<Rightarrow> url_parser \<Rightarrow> create_options \<Rightarrow> string \<Rightarrow> unit operation" where
  "check_remote git parse o' remoteURL =
     (if remoteURL = [] then give ()
      else andThen (on_tree (\<lambda>_. validateRemoteURL parse remoteURL)) (\<lambda>_.
        if co_require_empty o' then verifyEmptyRemote git remoteURL else give ()))"

definition CreateRepository ::
  "git \<Rightarrow> url_parser \<Rightarrow> string \<Rightarrow> create_options \<Rightarrow> string list \<Rightarrow> create_result operation" where
  "CreateRepository git parse cwd o' managedRoots =
     (let projectID = trim_space (co_project_id o');
          branch = (if trim_space (co_initial_branch o') = [] then ''main'' else trim_space (co_initial_branch o'));
          remoteURL = trim_space (co_remote_url o') in
      andThen (check (projectID \<noteq> []) ''project ID is required'') (\<lambda>_.
      andThen (check (\<not> containsControl projectID) ''project ID contains control characters'') (\<lambda>_.
      andThen (gitDo git ''invalid initial branch'' [] [''check-ref-format'', ''--branch'', branch]) (\<lambda>_.
      andThen (check_remote git parse o' remoteURL) (\<lambda>_.
      andThen (if co_readme o' then on_tree (\<lambda>_. validateCommitIdentity o') else give ()) (\<lambda>_.
      andThen (on_tree (\<lambda>t. Inr (lstat_raw cwd (trim_space (co_path o')) t))) (\<lambda>info.
        case info of
          Inr _ \<Rightarrow> recoverCreatedRepository git cwd o' branch remoteURL managedRoots
        | Inl e \<Rightarrow>
            if not_exist e then create_new_repository git o' branch remoteURL managedRoots projectID
            else refuse_op (Wrapped ''inspect repository path'' (System e)))))))))"

end
