(* ===== verification/Git_Safety.thy ===== *)
theory Git_Safety
  imports Git_Actions
begin

text \<open>
  Where the agent runs git. A workspace write is a long chain of commands, chosen by what earlier ones
  answered; the contract \<open>confined\<close> says of an operation that every command it runs works in a
  directory at or below the real path of a managed root (or only checks the form of a name), and
  holds for every operation the handler is made of.
\<close>

section \<open>The contract\<close>

named_theorems confined_rules

text \<open>The managed roots lead where they led at the start.\<close>

definition roots_at :: "string list \<Rightarrow> (string \<Rightarrow> string option) \<Rightarrow> disk \<Rightarrow> bool" where
  "roots_at roots real s \<longleftrightarrow> tree_ok (tree s) \<and> (\<forall>root\<in>set roots. root_real (tree s) root = real root)"

text \<open>Git keeps a tree a tree and does not move the directories that hold the workspaces.\<close>

definition git_keeps :: "git \<Rightarrow> string list \<Rightarrow> bool" where
  "git_keeps git roots \<longleftrightarrow>
     (\<forall>command t. tree_ok t \<longrightarrow> tree_ok (snd (git command t)) \<and>
        (\<forall>root\<in>set roots. root_real (snd (git command t)) root = root_real t root))"

definition inside_roots :: "string list \<Rightarrow> (string \<Rightarrow> string option) \<Rightarrow> string \<Rightarrow> bool" where
  "inside_roots roots real p \<longleftrightarrow>
     (\<exists>e root r. p = path_str e \<and> root \<in> set roots \<and> real root = Some (path_str r) \<and> prefix r e)"

definition allowed_command :: "string list \<Rightarrow> (string \<Rightarrow> string option) \<Rightarrow> string list \<Rightarrow> bool" where
  "allowed_command roots real command \<longleftrightarrow>
     (\<exists>d args. command = gitCommandArguments d args \<and> inside_roots roots real d)
     \<or> (\<exists>name. command = [''check-ref-format'', ''--branch'', name])"

definition confined :: "string list \<Rightarrow> (string \<Rightarrow> string option) \<Rightarrow> 'a operation \<Rightarrow> bool" where
  "confined roots real m \<longleftrightarrow>
     (\<forall>s r s'. roots_at roots real s \<longrightarrow> m s = (r, s') \<longrightarrow>
        roots_at roots real s' \<and>
        (\<exists>cs. ran s' = ran s @ cs \<and> (\<forall>c\<in>set cs. allowed_command roots real c)))"

lemma confinedI:
  assumes "\<And>s r s'. \<lbrakk>roots_at roots real s; m s = (r, s')\<rbrakk>
    \<Longrightarrow> roots_at roots real s' \<and> (\<exists>cs. ran s' = ran s @ cs \<and> (\<forall>c\<in>set cs. allowed_command roots real c))"
  shows "confined roots real m"
  unfolding confined_def using assms by blast

lemma confinedD:
  "\<lbrakk>confined roots real m; roots_at roots real s; m s = (r, s')\<rbrakk>
    \<Longrightarrow> roots_at roots real s' \<and> (\<exists>cs. ran s' = ran s @ cs \<and> (\<forall>c\<in>set cs. allowed_command roots real c))"
  unfolding confined_def by blast

lemma confined_same: "\<forall>s. snd (m s) = s \<Longrightarrow> confined roots real m"
  by (rule confinedI) (metis append_Nil2 empty_iff list.set(1) snd_conv)

lemma confined_basic [confined_rules]:
  "confined roots real (give a)" "confined roots real (refuse_op e)" "confined roots real (on_tree f)"
  "confined roots real (check b message)"
  by (rule confined_same; simp add: give_def refuse_op_def on_tree_def check_def)+

text \<open>The step rule, with a fact about the value that the first step gives.\<close>

lemma confined_then:
  assumes "confined roots real m" "\<forall>a. P a \<longrightarrow> confined roots real (f a)"
    "\<forall>s a s'. roots_at roots real s \<longrightarrow> m s = (Inr a, s') \<longrightarrow> P a"
  shows "confined roots real (andThen m f)"
proof (rule confinedI)
  fix s r s'
  assume at: "roots_at roots real s" and run: "andThen m f s = (r, s')"
  obtain r1 s1 where m: "m s = (r1, s1)" by (cases "m s")
  then obtain cs where s1: "roots_at roots real s1" "ran s1 = ran s @ cs" "\<forall>c\<in>set cs. allowed_command roots real c"
    using confinedD [OF assms(1) at] by blast
  show "roots_at roots real s' \<and> (\<exists>cs. ran s' = ran s @ cs \<and> (\<forall>c\<in>set cs. allowed_command roots real c))"
  proof (cases r1)
    case (Inl e)
    then show ?thesis using run m s1 by (auto simp: andThen_def)
  next
    case (Inr a)
    then have "confined roots real (f a)" "f a s1 = (r, s')" using assms(2,3) at m run by (auto simp: andThen_def)
    then obtain ds where "roots_at roots real s'" "ran s' = ran s1 @ ds" "\<forall>c\<in>set ds. allowed_command roots real c"
      using confinedD s1(1) by blast
    then show ?thesis using s1(2,3) by (intro conjI exI [of _ "cs @ ds"]) auto
  qed
qed

lemma confined_andThen [confined_rules]:
  "\<lbrakk>confined roots real m; \<And>a. confined roots real (f a)\<rbrakk> \<Longrightarrow> confined roots real (andThen m f)"
  by (rule confined_then [where P = "\<lambda>_. True"]) simp_all

lemma confined_if [confined_rules]:
  "\<lbrakk>b \<Longrightarrow> confined roots real m; \<not> b \<Longrightarrow> confined roots real m'\<rbrakk> \<Longrightarrow> confined roots real (if b then m else m')"
  by simp

lemma confined_option [confined_rules]:
  "\<lbrakk>confined roots real m; \<And>x. confined roots real (f x)\<rbrakk> \<Longrightarrow> confined roots real (case o' of None \<Rightarrow> m | Some x \<Rightarrow> f x)"
  by (cases o') simp_all

lemma confined_sum [confined_rules]:
  "\<lbrakk>\<And>x. confined roots real (f x); \<And>x. confined roots real (g x)\<rbrakk>
    \<Longrightarrow> confined roots real (case o' of Inl x \<Rightarrow> f x | Inr x \<Rightarrow> g x)"
  by (cases o') simp_all

lemma confined_pair [confined_rules]:
  "(\<And>a b. confined roots real (f a b)) \<Longrightarrow> confined roots real (case p of (a, b) \<Rightarrow> f a b)"
  by (cases p) simp

lemma confined_wrap [confined_rules]: "confined roots real m \<Longrightarrow> confined roots real (wrap context m)"
  by (rule confinedI) (auto simp: wrap_def split: prod.splits sum.splits dest: confinedD)

lemma confined_outcome [confined_rules]: "confined roots real m \<Longrightarrow> confined roots real (outcome m)"
  by (rule confinedI) (auto simp: outcome_def split: prod.splits dest: confinedD)

section \<open>Running git\<close>

lemma confined_command:
  assumes "git_keeps git roots" "allowed_command roots real (gitCommandArguments d args)"
  shows "confined roots real (runGit git d args)"
  using assms unfolding confined_def roots_at_def git_keeps_def
  by (auto simp: runGit_Inr)

lemma confined_runGit [confined_rules]:
  "\<lbrakk>git_keeps git roots; inside_roots roots real d\<rbrakk> \<Longrightarrow> confined roots real (runGit git d args)"
  by (rule confined_command) (auto simp: allowed_command_def)

lemma confined_gitOutput [confined_rules]:
  "\<lbrakk>git_keeps git roots; inside_roots roots real d\<rbrakk> \<Longrightarrow> confined roots real (gitOutput git context d args)"
  unfolding gitOutput_def by (intro confined_rules)

lemma confined_gitDo [confined_rules]:
  "\<lbrakk>git_keeps git roots; inside_roots roots real d\<rbrakk> \<Longrightarrow> confined roots real (gitDo git context d args)"
  unfolding gitDo_def by (intro confined_rules)

lemma confined_nameCheck [confined_rules]:
  assumes "git_keeps git roots"
  shows "confined roots real (gitOutput git context [] [''check-ref-format'', ''--branch'', name])"
proof -
  have "confined roots real (runGit git [] [''check-ref-format'', ''--branch'', name])"
    using assms by (rule confined_command) (simp add: allowed_command_def gitCommandArguments_def)
  then show ?thesis unfolding gitOutput_def by (intro confined_andThen confined_pair confined_option confined_basic)
qed

lemma confined_validateBranch [confined_rules]:
  assumes "git_keeps git roots"
  shows "confined roots real (validateBranch git name)"
  unfolding validateBranch_def gitDo_def Let_def
  by (intro confined_andThen confined_basic confined_nameCheck assms)

text \<open>A path that is allowed lies inside the roots, and so does a repository that is resolved.\<close>

lemma allowed_inside:
  assumes "roots_at roots real s" "allowedExistingPath path roots (tree s) = Inr p"
  shows "inside_roots roots real p"
  using allowedExisting_real [of "tree s" path roots p] assms
  unfolding roots_at_def inside_roots_def by metis

lemma confined_resolve [confined_rules]:
  assumes "git_keeps git roots" "\<And>p. inside_roots roots real p \<Longrightarrow> confined roots real (f p)"
  shows "confined roots real (andThen (resolveRepository git cwd roots path) f)"
proof (rule confined_then [where P = "inside_roots roots real"])
  show "confined roots real (resolveRepository git cwd roots path)"
    unfolding resolveRepository_def
    by (rule confined_then [where P = "inside_roots roots real"])
      (use assms(1) in \<open>auto intro!: confined_rules simp: allowed_inside\<close>)
  show "\<forall>s a s'. roots_at roots real s \<longrightarrow> resolveRepository git cwd roots path s = (Inr a, s')
      \<longrightarrow> inside_roots roots real a"
    using resolveRepository_Inr allowed_inside by blast
qed (use assms(2) in blast)

section \<open>The operations\<close>

lemma confined_getStatus [confined_rules]:
  "\<lbrakk>git_keeps git roots; inside_roots roots real d\<rbrakk> \<Longrightarrow> confined roots real (getStatus git d)"
  unfolding getStatus_def by (intro confined_rules)

lemma confined_GetStatus [confined_rules]:
  "git_keeps git roots \<Longrightarrow> confined roots real (GetStatus git cwd path roots)"
  unfolding GetStatus_def by (intro confined_rules)

lemma confined_ListBranches [confined_rules]:
  "git_keeps git roots \<Longrightarrow> confined roots real (ListBranches git cwd path roots)"
  unfolding ListBranches_def by (intro confined_rules)

lemma confined_read_remotes [confined_rules]:
  "\<lbrakk>git_keeps git roots; inside_roots roots real d\<rbrakk> \<Longrightarrow> confined roots real (read_remotes git d names)"
  by (induction names) (auto intro!: confined_rules)

lemma confined_ListRemotes [confined_rules]:
  "git_keeps git roots \<Longrightarrow> confined roots real (ListRemotes git cwd path roots)"
  unfolding ListRemotes_def by (intro confined_rules)

lemma confined_ListCommits [confined_rules]:
  "git_keeps git roots \<Longrightarrow> confined roots real (ListCommits git cwd path roots ref offset limit)"
  unfolding ListCommits_def unresolved_commits_def Let_def by (intro confined_rules)

lemma confined_ListWorkspaceChanges [confined_rules]:
  "git_keeps git roots \<Longrightarrow> confined roots real (ListWorkspaceChanges git cwd path roots)"
  unfolding ListWorkspaceChanges_def by (intro confined_rules)

lemma confined_select [confined_rules]:
  "git_keeps git roots \<Longrightarrow> confined roots real (selectWorkspaceChangePaths git cwd path paths all roots predicate)"
  unfolding selectWorkspaceChangePaths_def by (intro confined_rules)

lemma confined_discard_paths [confined_rules]:
  "\<lbrakk>git_keeps git roots; inside_roots roots real d\<rbrakk> \<Longrightarrow> confined roots real (discard_paths git d changes paths)"
  by (induction paths) (auto intro!: confined_rules)

lemma confined_changes [confined_rules]:
  assumes "git_keeps git roots"
  shows "confined roots real (Stage git cwd path paths all roots)"
    and "confined roots real (Unstage git cwd path paths all roots)"
    and "confined roots real (DiscardUnstaged git cwd path paths all roots)"
    and "confined roots real (CommitChanges git cwd path message roots)"
  unfolding Stage_def Unstage_def DiscardUnstaged_def CommitChanges_def Let_def
  using assms by - (intro confined_rules; assumption)+

lemma confined_DiscardChanges [confined_rules]:
  "git_keeps git roots \<Longrightarrow> confined roots real (DiscardChanges git cwd path paths all roots)"
  unfolding DiscardChanges_def Let_def by (intro confined_rules)

lemma confined_refs [confined_rules]:
  assumes "git_keeps git roots"
  shows "confined roots real (CreateBranch git cwd path name start roots)"
    and "confined roots real (RenameBranch git cwd path name newName roots)"
    and "confined roots real (DeleteBranch git cwd path name force roots)"
    and "confined roots real (Checkout git cwd path ref detach roots)"
  unfolding CreateBranch_def RenameBranch_def DeleteBranch_def Checkout_def
  using assms by - (intro confined_rules; assumption)+

lemma confined_remotes [confined_rules]:
  assumes "git_keeps git roots"
  shows "confined roots real (AddRemote git parse cwd path name url roots)"
    and "confined roots real (SetRemoteURL git parse cwd path name url roots)"
    and "confined roots real (RemoveRemote git cwd path name roots)"
    and "confined roots real (Fetch git cwd path remote roots)"
    and "confined roots real (Pull git cwd path remote branch roots)"
    and "confined roots real (Push git cwd path remote ref up roots)"
  unfolding AddRemote_def SetRemoteURL_def RemoveRemote_def Fetch_def Pull_def Push_def
  using assms by - (intro confined_rules; assumption)+

lemma confined_inspect [confined_rules]:
  "git_keeps git roots \<Longrightarrow> confined roots real (inspectWorkspaceGit git cwd roots i path limit)"
  unfolding inspectWorkspaceGit_def by (intro confined_rules)

lemma confined_write_action [confined_rules]:
  "git_keeps git roots \<Longrightarrow> confined roots real (write_action git parse cwd roots c)"
  unfolding write_action_def Let_def by (intro confined_rules)

section \<open>Every workspace write\<close>

lemma confined_writeWorkspaceGit:
  "git_keeps git roots \<Longrightarrow> confined roots real (writeWorkspaceGit git parse cwd roots c)"
  unfolding writeWorkspaceGit_def by (intro confined_rules)


definition sample_write_command :: git_write where
  "sample_write_command = \<lparr>gw_workspace_id = ''w1'', gw_path = ''/r/p'', gw_action = ''branch.create'',
     gw_branch = ''b'', gw_new_branch = [], gw_start_point = [], gw_remote = [], gw_url = [], gw_ref = [],
     gw_force = False, gw_set_upstream = False, gw_detach = False, gw_paths = [], gw_all = False,
     gw_include_staged = False, gw_message = []\<rparr>"


lemma sample_commands:
  "ran (snd (writeWorkspaceGit (answering ''/r/p'' ''p1'') (\<lambda>_. None) ''/'' [''/r''] sample_write_command clone_root)) =
    [gitCommandArguments ''/r/p'' [''rev-parse'', ''--show-toplevel''], [''check-ref-format'', ''--branch'', ''b'']]"
  by code_simp

end
