(* ===== verification/Git_Lifecycle.thy ===== *)
theory Git_Lifecycle
  imports Git_Safety
begin

text \<open>
  Workspaces are cloned, moved, copied and deleted on a server (\<open>internal/gitrepository/lifecycle.go\<close>
  and the dispatch of \<open>internal/agent/client.go\<close>). A workspace is either a repository of its own or a
  work tree linked to another repository, which git itself moves and removes. The theory holds the
  operations, what \<open>os.Rename\<close> does with a directory, and the lemmas on what each operation leaves of
  the tree.
\<close>

section \<open>Counting worktrees\<close>

text \<open>\<open>strings.Count\<close> of a non-empty text: occurrences that do not overlap.\<close>

function count_str :: "string \<Rightarrow> string \<Rightarrow> nat" where
  "count_str sub s =
     (if s = [] \<or> sub = [] then 0
      else if has_prefix s sub then Suc (count_str sub (drop (length sub) s))
      else count_str sub (tl s))"
  by pat_completeness auto
termination by (relation "measure (\<lambda>(sub, s). length s)") auto

declare count_str.simps [simp del]

definition ensureNoLinkedWorktrees :: "git \<Rightarrow> string \<Rightarrow> unit operation" where
  "ensureNoLinkedWorktrees git workspace =
     andThen (gitOutput git ''inspect linked worktrees'' workspace [''worktree'', ''list'', ''--porcelain'']) (\<lambda>output.
       check (\<not> count_str ''worktree '' output > 1) ''primary workspace has linked worktrees'')"

section \<open>Finding the workspace\<close>

fun is_link :: "node \<Rightarrow> bool" where
  "is_link (Link target) = True"
| "is_link _ = False"

fun is_regular :: "node \<Rightarrow> bool" where
  "is_regular (Regular mode content) = True"
| "is_regular _ = False"

text \<open>The metadata of a work tree: a directory in a repository of its own, a file in a linked one.\<close>

definition git_metadata :: "string \<Rightarrow> file_tree \<Rightarrow> op_error + node" where
  "git_metadata resolved t =
     (case lstat t (path_join [resolved, ''.git'']) of
        Inl _ \<Rightarrow> Inl (Said ''workspace Git metadata is missing'')
      | Inr info \<Rightarrow>
          if is_link info then Inl (Said ''workspace Git metadata must not be a symbolic link'') else Inr info)"

definition lifecycleSource :: "git \<Rightarrow> string \<Rightarrow> string \<Rightarrow> string list \<Rightarrow> (string \<times> bool) operation" where
  "lifecycleSource git cwd raw managedRoots =
     (let raw = trim_space raw in
      andThen (check (raw \<noteq> [] \<and> is_abs raw) ''workspace path must be absolute'') (\<lambda>_.
      andThen (on_tree (\<lambda>t. os (lstat t (path_clean raw)))) (\<lambda>info.
      andThen (check (\<not> is_link info) ''workspace path must not be a symbolic link'') (\<lambda>_.
      andThen (resolveRepository git cwd managedRoots raw) (\<lambda>resolved.
      andThen (on_tree (git_metadata resolved)) (\<lambda>gitInfo.
        give (resolved, is_regular gitInfo)))))))"

text \<open>The directory that holds the common git directory of a linked work tree.\<close>

definition worktree_owner :: "git \<Rightarrow> string \<Rightarrow> string operation" where
  "worktree_owner git workspace =
     andThen (gitOutput git ''resolve worktree common directory'' workspace
       [''rev-parse'', ''--path-format=absolute'', ''--git-common-dir'']) (\<lambda>output.
       give (path_dir (trim_space output)))"

section \<open>Deleting\<close>

definition remove_tree :: "string \<Rightarrow> unit operation" where
  "remove_tree p s = (Inr (), s\<lparr>tree := remove_all p (tree s)\<rparr>)"

definition delete_found :: "git \<Rightarrow> string \<Rightarrow> bool \<Rightarrow> bool \<Rightarrow> unit operation" where
  "delete_found git workspace linked force =
     (if linked then
        andThen (worktree_owner git workspace) (\<lambda>owner.
          gitDo git ''remove linked worktree'' owner
            ([''worktree'', ''remove''] @ (if force then [''--force''] else []) @ [workspace]))
      else
        andThen (ensureNoLinkedWorktrees git workspace) (\<lambda>_. remove_tree workspace))"

definition DeleteWorkspace :: "git \<Rightarrow> string \<Rightarrow> string \<Rightarrow> bool \<Rightarrow> string list \<Rightarrow> unit operation" where
  "DeleteWorkspace git cwd workspacePath force managedRoots =
     andThen (lifecycleSource git cwd workspacePath managedRoots) (\<lambda>(workspace, linked).
     andThen (getStatus git workspace) (\<lambda>status.
     andThen (check (\<not> (st_dirty status \<and> \<not> force)) ''workspace has uncommitted changes'') (\<lambda>_.
       delete_found git workspace linked force)))"

section \<open>Moving\<close>

text \<open>
  \<open>os.Rename\<close> of a directory: everything below it gets the new name. A directory is never moved
  over another entry, nor into itself.
\<close>

definition rename_directory :: "string \<Rightarrow> string \<Rightarrow> file_tree \<Rightarrow> fs_error + file_tree" where
  "rename_directory source p fs =
     (case locate fs False source of
        Inl e \<Rightarrow> Inl e
      | Inr q \<Rightarrow>
          (case locate fs False p of
             Inl (Absent t) \<Rightarrow>
               if prefix q t then Inl EINVAL
               else Inr (\<lambda>x. if prefix t x then fs (q @ drop (length t) x)
                             else if prefix q x then None else fs x)
           | Inl e \<Rightarrow> Inl e
           | Inr t \<Rightarrow> if fs t = Some Directory then Inl EEXIST else Inl ENOTDIR))"

definition move_tree :: "string \<Rightarrow> string \<Rightarrow> unit operation" where
  "move_tree source target s =
     (case rename_directory source target (tree s) of
        Inl e \<Rightarrow> (Inl (Wrapped ''move workspace'' (System e)), s)
      | Inr t \<Rightarrow> (Inr (), s\<lparr>tree := t\<rparr>))"

definition MoveWorkspace :: "git \<Rightarrow> string \<Rightarrow> string \<Rightarrow> string \<Rightarrow> string list \<Rightarrow> string operation" where
  "MoveWorkspace git cwd sourcePath targetPath managedRoots =
     andThen (lifecycleSource git cwd sourcePath managedRoots) (\<lambda>(source, linked).
     andThen (wrap ''invalid target path'' (on_tree (allowedNewPath targetPath managedRoots))) (\<lambda>target.
     andThen (if linked then
         andThen (worktree_owner git source) (\<lambda>owner.
           gitDo git ''move linked worktree'' owner [''worktree'', ''move'', source, target])
       else
         andThen (ensureNoLinkedWorktrees git source) (\<lambda>_. move_tree source target)) (\<lambda>_.
     andThen (wrap ''verify moved workspace'' (resolveRepository git cwd managedRoots target)) (\<lambda>_.
       give (path_abs cwd (path_clean targetPath))))))"

section \<open>Cloning\<close>

record clone_options =
  cl_workspace_id :: string
  cl_project_id :: string
  cl_path :: string
  cl_remote_url :: string
  cl_branch :: string
  cl_expected_head :: string

record clone_result =
  cn_path :: string
  cn_branch :: string
  cn_commit :: string

definition clone_checks :: "git \<Rightarrow> url_parser \<Rightarrow> clone_options \<Rightarrow> unit operation" where
  "clone_checks git parse o' =
     andThen (check (trim_space (cl_workspace_id o') \<noteq> [] \<and> trim_space (cl_project_id o') \<noteq> []
         \<and> \<not> containsControl (cl_workspace_id o') \<and> \<not> containsControl (cl_project_id o'))
       ''workspace and project IDs are required'') (\<lambda>_.
     andThen (on_tree (\<lambda>_. validateRemoteURL parse (trim_space (cl_remote_url o')))) (\<lambda>_.
     andThen (validateBranch git (cl_branch o')) (\<lambda>_.
       check (isObjectID (trim_space (cl_expected_head o'))) ''expected commit is invalid'')))"

text \<open>After the clone: when a step fails, the clone is removed.\<close>

definition clone_verify :: "git \<Rightarrow> string \<Rightarrow> clone_options \<Rightarrow> string list \<Rightarrow> string \<Rightarrow> clone_result operation" where
  "clone_verify git cwd o' managedRoots target =
     andThen (resolveRepository git cwd managedRoots target) (\<lambda>repository.
     andThen (getStatus git repository) (\<lambda>status.
     andThen (check (\<not> (st_dirty status \<or> st_detached status \<or> st_unborn status
         \<or> st_branch status \<noteq> cl_branch o' \<or> st_head status \<noteq> cl_expected_head o'))
       ''cloned workspace does not match the expected branch and commit'') (\<lambda>_.
     andThen (gitDo git ''mark cloned workspace project'' repository
       [''config'', ''--local'', ''wio.projectId'', cl_project_id o']) (\<lambda>_.
       give \<lparr>cn_path = path_abs cwd (path_clean (cl_path o')), cn_branch = st_branch status,
         cn_commit = st_head status\<rparr>))))"

definition CloneWorkspace ::
  "git \<Rightarrow> url_parser \<Rightarrow> string \<Rightarrow> clone_options \<Rightarrow> string list \<Rightarrow> clone_result operation" where
  "CloneWorkspace git parse cwd o' managedRoots =
     andThen (clone_checks git parse o') (\<lambda>_.
     andThen (wrap ''invalid clone path'' (on_tree (allowedNewPath (cl_path o') managedRoots))) (\<lambda>target.
     andThen (gitDo git ''clone workspace'' []
       [''clone'', ''--branch'', cl_branch o', ''--single-branch'', ''--'', cl_remote_url o', target]) (\<lambda>_.
       or_remove target (clone_verify git cwd o' managedRoots target))))"

section \<open>How many worktrees a listing shows\<close>

lemma count_str_Nil [simp]: "count_str sub [] = 0"
  by (simp add: count_str.simps)

lemma count_str_hit: "\<lbrakk>has_prefix s sub; sub \<noteq> []\<rbrakk> \<Longrightarrow> count_str sub s = Suc (count_str sub (drop (length sub) s))"
  by (subst count_str.simps) (auto simp: has_prefix_iff)

lemma count_str_miss: "\<not> has_prefix s sub \<Longrightarrow> count_str sub s = count_str sub (tl s)"
  by (cases s) (auto simp: count_str.simps [of sub "_ # _"] count_str.simps [of "[]"])

text \<open>Cutting the front off a text loses occurrences, at most one when it is no longer than the word.\<close>

lemma count_str_drop:
  assumes "sub \<noteq> []"
  shows "(\<forall>k\<le>length sub. count_str sub s \<le> Suc (count_str sub (drop k s)))
    \<and> (\<forall>j. count_str sub (drop j s) \<le> count_str sub s)"
proof (induction "length s" arbitrary: s rule: less_induct)
  case less
  let ?L = "length sub"
  have L: "?L > 0" using assms by simp
  have IH: "k \<le> ?L \<Longrightarrow> count_str sub (drop i s) \<le> Suc (count_str sub (drop k (drop i s)))"
    "count_str sub (drop j (drop i s)) \<le> count_str sub (drop i s)" if "i > 0" "s \<noteq> []" for i j k
    using less [of "drop i s"] that by simp_all
  show ?case
  proof (cases "s = []")
    case ne: False
    show ?thesis
    proof (cases "has_prefix s sub")
      case True
      have c: "count_str sub s = Suc (count_str sub (drop ?L s))" by (rule count_str_hit [OF True assms])
      have "count_str sub (drop ?L s) \<le> count_str sub (drop k s)" if "0 < k" "k \<le> ?L" for k
        using IH(2) [of k "?L - k"] that ne by simp
      moreover have "count_str sub (drop j s) \<le> Suc (count_str sub (drop ?L s))" if "0 < j" "j \<le> ?L" for j
        using IH(1) [of j "?L - j"] that ne by simp
      moreover have "count_str sub (drop j s) \<le> count_str sub (drop ?L s)" if "?L < j" for j
        using IH(2) [of ?L "j - ?L"] that ne L by simp
      ultimately show ?thesis unfolding c by (metis c drop_0 le_Suc_eq le_SucI le_eq_less_or_eq linorder_not_le not_gr_zero order_refl Suc_le_mono)
    next
      case False
      have c: "count_str sub s = count_str sub (drop 1 s)"
        using count_str_miss [OF False] by (simp add: drop_Suc)
      have "count_str sub (drop 1 s) \<le> Suc (count_str sub (drop k s))" if "0 < k" "k \<le> ?L" for k
        using IH(1) [of 1 "k - 1"] that ne by simp
      moreover have "count_str sub (drop j s) \<le> count_str sub (drop 1 s)" if "0 < j" for j
        using IH(2) [of 1 "j - 1"] that ne by simp
      ultimately show ?thesis unfolding c by (metis c drop_0 le_SucI not_gr_zero order_refl)
    qed
  qed simp
qed

lemma count_str_append: "sub \<noteq> [] \<Longrightarrow> count_str sub a + count_str sub b \<le> count_str sub (a @ b)"
proof (induction "length a" arbitrary: a rule: less_induct)
  case less
  let ?L = "length sub"
  show ?case
  proof (cases "a = []")
    case ne: False
    show ?thesis
    proof (cases "has_prefix a sub")
      case True
      then have "has_prefix (a @ b) sub" "drop ?L (a @ b) = drop ?L a @ b"
        by (auto simp: has_prefix_iff)
      then show ?thesis
        using less.hyps [of "drop ?L a"] less.prems True ne by (simp add: count_str_hit)
    next
      case False
      have *: "count_str sub a + count_str sub b \<le> count_str sub (tl a @ b)"
        using less.hyps [of "tl a"] less.prems ne count_str_miss [OF False] by simp
      have "tl a @ b = drop 1 (a @ b)" using ne by (cases a) simp_all
      then have "count_str sub (tl a @ b) \<le> count_str sub (a @ b)"
        using count_str_drop [OF less.prems, of "a @ b"] by metis
      then show ?thesis using * by simp
    qed
  qed simp
qed

text \<open>
  What \<open>git worktree list --porcelain\<close> prints: for each work tree a line with its path, lines with its
  attributes and an empty line.
\<close>

definition porcelain_entry :: "string \<times> string list \<Rightarrow> string" where
  "porcelain_entry e =
     ''worktree '' @ fst e @ [CHR 0x0A] @ concat (map (\<lambda>line. line @ [CHR 0x0A]) (snd e)) @ [CHR 0x0A]"

definition porcelain :: "(string \<times> string list) list \<Rightarrow> string" where
  "porcelain es = concat (map porcelain_entry es)"

lemma count_porcelain: "length es \<le> count_str ''worktree '' (porcelain es)"
proof (induction es)
  case (Cons e es)
  have "has_prefix (porcelain_entry e) ''worktree ''" by (simp add: porcelain_entry_def has_prefix_def)
  then have "1 \<le> count_str ''worktree '' (porcelain_entry e)" by (simp add: count_str_hit)
  then show ?case
    using Cons count_str_append [of "''worktree ''" "porcelain_entry e" "porcelain es"] by (simp add: porcelain_def)
qed (simp add: porcelain_def)

abbreviation list_args :: "string list" where
  "list_args \<equiv> [''worktree'', ''list'', ''--porcelain'']"

abbreviation common_args :: "string list" where
  "common_args \<equiv> [''rev-parse'', ''--path-format=absolute'', ''--git-common-dir'']"

abbreviation toplevel_args :: "string list" where
  "toplevel_args \<equiv> [''rev-parse'', ''--show-toplevel'']"

abbreviation status_args :: "string list" where
  "status_args \<equiv> [''status'', ''--porcelain=v2'', ''--branch'', ''--untracked-files=all'']"

section \<open>Which steps leave the tree alone\<close>

text \<open>The questions that the operations ask git.\<close>

definition git_answers :: "git \<Rightarrow> bool" where
  "git_answers git \<longleftrightarrow>
     only_asks git toplevel_args \<and> only_asks git status_args \<and> only_asks git list_args \<and> only_asks git common_args"

lemma quiet_if [simp]: "\<lbrakk>b \<Longrightarrow> quiet m; \<not> b \<Longrightarrow> quiet m'\<rbrakk> \<Longrightarrow> quiet (if b then m else m')"
  by simp

lemma quiet_lifecycleSource [simp]: "git_answers git \<Longrightarrow> quiet (lifecycleSource git cwd raw roots)"
  unfolding lifecycleSource_def Let_def git_answers_def by (intro quiet_andThen allI) auto

lemma quiet_getStatus [simp]: "git_answers git \<Longrightarrow> quiet (getStatus git d)"
  unfolding getStatus_def git_answers_def by (intro quiet_andThen allI) auto

lemma quiet_ensure [simp]: "git_answers git \<Longrightarrow> quiet (ensureNoLinkedWorktrees git d)"
  unfolding ensureNoLinkedWorktrees_def git_answers_def by (intro quiet_andThen allI) auto

lemma quiet_owner [simp]: "git_answers git \<Longrightarrow> quiet (worktree_owner git d)"
  unfolding worktree_owner_def git_answers_def by (intro quiet_andThen allI) auto

lemma quiet_tree: "\<lbrakk>quiet m; m s = (r, s')\<rbrakk> \<Longrightarrow> tree s' = tree s"
  by (metis quiet_def snd_conv)

lemma lifecycleSource_Inr:
  assumes "git_answers git" "lifecycleSource git cwd raw roots s = (Inr (p, linked), s')"
  shows "\<exists>info. allowedExistingPath (trim_space raw) roots (tree s) = Inr p
    \<and> git_metadata p (tree s) = Inr info \<and> linked = is_regular info"
proof -
  obtain s1 info where repo: "resolveRepository git cwd roots (trim_space raw) s = (Inr p, s1)"
    and info: "git_metadata p (tree s1) = Inr info" "linked = is_regular info"
    using assms(2) by (auto simp: lifecycleSource_def Let_def andThen_Inr)
  have "tree s1 = tree s" 
    using assms(1) repo quiet_tree [of "resolveRepository git cwd roots (trim_space raw)" s]
    by (simp add: git_answers_def)
  then show ?thesis using resolveRepository_Inr [OF repo] info by auto
qed

lemma gitOutput_answer:
  "gitOutput git context d args s = (Inr out, s') \<Longrightarrow> fst (git (gitCommandArguments d args) (tree s)) = (None, out)"
  by (auto simp: gitOutput_Inr runGit_Inr dest: sym)

lemma getStatus_Inr:
  assumes "getStatus git w s = (Inr status, s')"
  shows "\<exists>output. fst (git (gitCommandArguments w status_args) (tree s)) = (None, output) \<and> parseStatus output = Inr status"
  using assms by (auto simp: getStatus_def andThen_Inr dest: gitOutput_answer)

lemma ensure_Inr:
  assumes "ensureNoLinkedWorktrees git w s = (Inr u, s')"
  shows "\<exists>output. fst (git (gitCommandArguments w list_args) (tree s)) = (None, output) \<and> count_str ''worktree '' output \<le> 1"
  using assms by (auto simp: ensureNoLinkedWorktrees_def andThen_Inr dest!: gitOutput_answer)

lemma gitDo_ran: "gitDo git context d args s = (r, s') \<Longrightarrow> ran s' = ran s @ [gitCommandArguments d args]"
  by (auto simp: gitDo_def gitOutput_def andThen_def runGit_def Let_def give_def refuse_op_def
      split: prod.splits option.splits sum.splits)

lemma andThen_change_step:
  assumes "andThen m f s = (res, s')" "tree s' \<noteq> t" "quiet m" "tree s = t"
  shows "\<exists>a s1. m s = (Inr a, s1) \<and> tree s1 = t \<and> f a s1 = (res, s')"
  using andThen_changed [of m f s] assms by (metis snd_conv)

section \<open>Deleting\<close>

lemma delete_found_change:
  assumes "git_answers git" "delete_found git w linked force s = (res, s')" "tree s' \<noteq> t" "tree s = t"
    and real: "locate t False w = Inr e"
  shows "if linked
       then \<exists>owner. last (ran s') = gitCommandArguments owner
           ([''worktree'', ''remove''] @ (if force then [''--force''] else []) @ [w])
       else tree s' = (\<lambda>x. if prefix e x then None else t x) \<and> (\<forall>es. length es \<ge> 2 \<longrightarrow>
           fst (git (gitCommandArguments w list_args) t) \<noteq> (None, porcelain es))"
proof (cases linked)
  case True
  with assms(2) have step: "andThen (worktree_owner git w) (\<lambda>owner.
         gitDo git ''remove linked worktree'' owner
           ([''worktree'', ''remove''] @ (if force then [''--force''] else []) @ [w])) s = (res, s')"
    by (simp add: delete_found_def)
  obtain owner s3 where "gitDo git ''remove linked worktree'' owner
      ([''worktree'', ''remove''] @ (if force then [''--force''] else []) @ [w]) s3 = (res, s')"
    using andThen_change_step [OF step assms(3) quiet_owner [OF assms(1)] assms(4)] by blast
  then show ?thesis using True gitDo_ran by fastforce
next
  case False
  with assms(2) have step: "andThen (ensureNoLinkedWorktrees git w) (\<lambda>_. remove_tree w) s = (res, s')"
    by (simp add: delete_found_def)
  obtain s3 where listed: "ensureNoLinkedWorktrees git w s = (Inr (), s3)" "tree s3 = t"
    and removed: "remove_tree w s3 = (res, s')"
    using andThen_change_step [OF step assms(3) quiet_ensure [OF assms(1)] assms(4)] by auto
  have "tree s' = (\<lambda>x. if prefix e x then None else t x)"
    using removed listed(2) real by (auto simp: remove_tree_def remove_all_def)
  moreover have "length es \<le> 1" if "fst (git (gitCommandArguments w list_args) t) = (None, porcelain es)" for es
    using ensure_Inr [OF listed(1)] assms(4) that count_porcelain [of es] by auto
  ultimately show ?thesis using False by fastforce
qed

text \<open>
  C9: Deleting a workspace without force destroys no work: when the tree changes, git had just reported
  the work tree clean, the workspace lies at or below the real path of a managed root, and either it
  is a repository of its own, git listed no other work tree of it, and everything that is gone lay in
  it, or it is a linked work tree and the change was made by a single \<open>git worktree remove\<close> of it,
  without \<open>--force\<close>.
\<close>

theorem delete_keeps_work:
  assumes ok: "tree_ok (tree s)" and answers: "git_answers git"
    and run: "DeleteWorkspace git cwd path force roots s = (res, s')" and change: "tree s' q \<noteq> tree s q"
  shows "\<exists>w root r info output. root \<in> set roots \<and> root_real (tree s) root = Some (path_str r) \<and> prefix r w
    \<and> tree s w = Some Directory \<and> git_metadata (path_str w) (tree s) = Inr info
    \<and> (force \<or> (\<exists>status. fst (git (gitCommandArguments (path_str w) status_args) (tree s)) = (None, output)
        \<and> parseStatus output = Inr status \<and> \<not> st_dirty status))
    \<and> (if is_regular info
       then \<exists>owner. last (ran s') = gitCommandArguments owner
           ([''worktree'', ''remove''] @ (if force then [''--force''] else []) @ [path_str w])
       else prefix w q \<and> tree s' q = None \<and> (\<forall>es. length es \<ge> 2 \<longrightarrow>
           fst (git (gitCommandArguments (path_str w) list_args) (tree s)) \<noteq> (None, porcelain es)))"
proof -
  have moved: "tree s' \<noteq> tree s" using change by auto
  obtain w linked s1 where source: "lifecycleSource git cwd path roots s = (Inr (w, linked), s1)" "tree s1 = tree s"
    and rest1: "andThen (getStatus git w) (\<lambda>status.
      andThen (check (\<not> (st_dirty status \<and> \<not> force)) ''workspace has uncommitted changes'') (\<lambda>_.
        delete_found git w linked force)) s1 = (res, s')"
    using andThen_change_step [OF run [unfolded DeleteWorkspace_def] moved quiet_lifecycleSource [OF answers] refl] by auto
  obtain status s2 where status: "getStatus git w s1 = (Inr status, s2)" "tree s2 = tree s"
    and rest2: "andThen (check (\<not> (st_dirty status \<and> \<not> force)) ''workspace has uncommitted changes'') (\<lambda>_.
        delete_found git w linked force) s2 = (res, s')"
    using andThen_change_step [OF rest1 moved quiet_getStatus [OF answers] source(2)] by auto
  obtain clean: "st_dirty status \<longrightarrow> force" and rest3: "delete_found git w linked force s2 = (res, s')"
    using andThen_change_step [OF rest2 moved _ status(2)] by auto
  obtain info where info: "allowedExistingPath (trim_space path) roots (tree s) = Inr w"
    "git_metadata w (tree s) = Inr info" "linked = is_regular info"
    using lifecycleSource_Inr [OF answers source(1)] by blast
  obtain e root r where e: "w = path_str e" "tree s e = Some Directory" "root \<in> set roots"
    "root_real (tree s) root = Some (path_str r)" "prefix r e"
    using allowedExisting_real [OF ok info(1)] by blast
  obtain out where st: "fst (git (gitCommandArguments w status_args) (tree s)) = (None, out)"
    "parseStatus out = Inr status"
    using getStatus_Inr [OF status(1)] source(2) by auto
  have "locate (tree s) False w = Inr e" using ok e(1,2) by (simp add: locate_real)
  from delete_found_change [OF answers rest3 moved status(2) this]
  have "if is_regular info
       then \<exists>owner. last (ran s') = gitCommandArguments owner
           ([''worktree'', ''remove''] @ (if force then [''--force''] else []) @ [path_str e])
       else prefix e q \<and> tree s' q = None \<and> (\<forall>es. length es \<ge> 2 \<longrightarrow>
           fst (git (gitCommandArguments (path_str e) list_args) (tree s)) \<noteq> (None, porcelain es))"
    using change unfolding info(3) e(1) by (cases "is_regular info") (auto split: if_splits)
  moreover have "force \<or> (\<exists>status. fst (git (gitCommandArguments (path_str e) status_args) (tree s)) = (None, out)
        \<and> parseStatus out = Inr status \<and> \<not> st_dirty status)"
    using st clean e(1) by auto
  ultimately show ?thesis using e info(2) by blast
qed

text \<open>Git for repositories that are clean: every directory it is asked about is a work tree; the listing shows the given paths.\<close>

definition clean_output :: string where
  "clean_output = ''# branch.oid (initial)'' @ [CHR 0x0A] @ ''# branch.head main'' @ [CHR 0x0A]"

definition clean_status :: Status where
  "clean_status = empty_status\<lparr>st_unborn := True, st_branch := ''main''\<rparr>"

lemma parse_clean: "parseStatus clean_output = Inr clean_status"
proof -
  have l: "scan_lines clean_output = [''# branch.oid (initial)'', ''# branch.head main'']" by code_simp
  have s1: "status_line ''# branch.oid (initial)'' \<lparr>sc_status = empty_status, sc_oid = False, sc_head = False\<rparr>
      = Inr \<lparr>sc_status = empty_status\<lparr>st_unborn := True\<rparr>, sc_oid = True, sc_head = False\<rparr>" by code_simp
  have s2: "status_line ''# branch.head main''
        \<lparr>sc_status = empty_status\<lparr>st_unborn := True\<rparr>, sc_oid = True, sc_head = False\<rparr>
      = Inr \<lparr>sc_status = clean_status, sc_oid = True, sc_head = True\<rparr>" by code_simp
  show ?thesis unfolding parseStatus_def l by (simp add: s1 s2) (simp add: clean_status_def empty_status_def)
qed

definition lone_git :: "string list \<Rightarrow> git" where
  "lone_git listed args t =
     (if ''--show-toplevel'' \<in> set args then (None, args ! 3)
      else if ''status'' \<in> set args then (None, clean_output)
      else if ''list'' \<in> set args then (None, porcelain (map (\<lambda>p. (p, [''HEAD 01''])) listed))
      else (Some ''exit status 1'', []), t)"

lemma lone_git_answers: "git_answers (lone_git listed)"
  by (simp add: git_answers_def only_asks_def lone_git_def)

definition two_projects :: disk where
  "two_projects = \<lparr>tree = [[] \<mapsto> Directory, [''r''] \<mapsto> Directory, [''r'', ''.git''] \<mapsto> Directory,
     [''r'', ''p''] \<mapsto> Directory, [''r'', ''p'', ''.git''] \<mapsto> Directory,
     [''r'', ''worktree one''] \<mapsto> Directory, [''r'', ''worktree one'', ''.git''] \<mapsto> Directory], ran = []\<rparr>"

lemma two_projects_ok: "tree_ok (tree two_projects)"
proof -
  have w: "plain_name ''r''" "plain_name ''p''" "plain_name ''.git''" "plain_name ''worktree one''"
    by (simp_all add: plain_name_def)
  have "tree_ok [[] \<mapsto> Directory]" by (simp add: tree_ok_def)
  then have "tree_ok [[] \<mapsto> Directory, [] @ [''r''] \<mapsto> Directory]" by (rule tree_ok_insert) (simp_all add: w)
  then have "tree_ok [[] \<mapsto> Directory, [''r''] \<mapsto> Directory, [''r''] @ [''.git''] \<mapsto> Directory]"
    by (intro tree_ok_insert) (simp_all add: w)
  then have "tree_ok [[] \<mapsto> Directory, [''r''] \<mapsto> Directory, [''r'', ''.git''] \<mapsto> Directory, [''r''] @ [''p''] \<mapsto> Directory]"
    by (intro tree_ok_insert) (simp_all add: w)
  then have "tree_ok [[] \<mapsto> Directory, [''r''] \<mapsto> Directory, [''r'', ''.git''] \<mapsto> Directory, [''r'', ''p''] \<mapsto> Directory,
      [''r'', ''p''] @ [''.git''] \<mapsto> Directory]"
    by (intro tree_ok_insert) (simp_all add: w)
  then have "tree_ok [[] \<mapsto> Directory, [''r''] \<mapsto> Directory, [''r'', ''.git''] \<mapsto> Directory, [''r'', ''p''] \<mapsto> Directory,
      [''r'', ''p'', ''.git''] \<mapsto> Directory, [''r''] @ [''worktree one''] \<mapsto> Directory]"
    by (intro tree_ok_insert) (simp_all add: w)
  then have "tree_ok [[] \<mapsto> Directory, [''r''] \<mapsto> Directory, [''r'', ''.git''] \<mapsto> Directory, [''r'', ''p''] \<mapsto> Directory,
      [''r'', ''p'', ''.git''] \<mapsto> Directory, [''r'', ''worktree one''] \<mapsto> Directory,
      [''r'', ''worktree one''] @ [''.git''] \<mapsto> Directory]"
    by (intro tree_ok_insert) (simp_all add: w)
  then show ?thesis by (simp add: two_projects_def)
qed

lemma lone_status:
  "w = CHR ''/'' # v \<Longrightarrow> \<exists>s'. getStatus (lone_git listed) w s = (Inr clean_status, s') \<and> tree s' = tree s"
  by (simp add: Let_def getStatus_def andThen_def gitOutput_def runGit_def lone_git_def gitCommandArguments_def
      give_def on_tree_def parse_clean)

definition lone_count :: "string list \<Rightarrow> nat" where
  "lone_count listed = count_str ''worktree '' (porcelain (map (\<lambda>p. (p, [''HEAD 01''])) listed))"

lemma lone_ensure:
  "w = CHR ''/'' # v \<Longrightarrow> \<exists>s'. ensureNoLinkedWorktrees (lone_git listed) w s =
      (if lone_count listed > 1 then Inl (Said ''primary workspace has linked worktrees'') else Inr (), s')
    \<and> tree s' = tree s"
  by (simp add: Let_def ensureNoLinkedWorktrees_def andThen_def gitOutput_def runGit_def lone_git_def gitCommandArguments_def
      give_def check_def refuse_op_def lone_count_def)

text \<open>What a deletion does, once the workspace is found.\<close>

lemma lone_delete:
  assumes "fst (lifecycleSource (lone_git listed) cwd p roots s) = Inr (w, False)"
    and w: "w = CHR ''/'' # v"
  shows "\<exists>s'. DeleteWorkspace (lone_git listed) cwd p force roots s =
      (if lone_count listed > 1 then Inl (Said ''primary workspace has linked worktrees'') else Inr (), s')
    \<and> tree s' = (if lone_count listed > 1 then tree s else remove_all w (tree s))"
proof -
  obtain s1 where s1: "lifecycleSource (lone_git listed) cwd p roots s = (Inr (w, False), s1)"
    using assms by (metis prod.collapse)
  have t1: "tree s1 = tree s"
    using quiet_tree [of "lifecycleSource (lone_git listed) cwd p roots" s] s1 lone_git_answers by simp
  obtain s2 where s2: "getStatus (lone_git listed) w s1 = (Inr clean_status, s2)" "tree s2 = tree s"
    using lone_status [OF w, of listed s1] t1 by auto
  obtain s3 where s3: "ensureNoLinkedWorktrees (lone_git listed) w s2 =
      (if lone_count listed > 1 then Inl (Said ''primary workspace has linked worktrees'') else Inr (), s3)"
      "tree s3 = tree s"
    using lone_ensure [OF w, of listed s2] s2(2) by auto
  show ?thesis
    by (simp add: DeleteWorkspace_def delete_found_def andThen_def s1 s2(1) s3 check_def give_def remove_tree_def
        clean_status_def empty_status_def)
qed

lemma lone_source:
  "fst (lifecycleSource (lone_git [''/r/p'']) ''/'' ''/r/p'' [''/r''] two_projects) = Inr (''/r/p'', False)"
  "fst (lifecycleSource (lone_git [''/r'']) ''/'' ''/r'' [''/r''] two_projects) = Inr (''/r'', False)"
  "fst (lifecycleSource (lone_git [''/r/worktree one'']) ''/'' ''/r/worktree one'' [''/r''] two_projects)
    = Inr (''/r/worktree one'', False)"
  by code_simp+

lemma lone_counts: "lone_count [''/r/p''] = 1" "lone_count [''/r''] = 1" "lone_count [''/r/worktree one''] = 2"
  by code_simp+

theorem delete_keeps_work_witness:
  "let git = lone_git [''/r/p'']; s = two_projects; s' = snd (DeleteWorkspace git ''/'' ''/r/p'' False [''/r''] s) in
   \<exists>w root r info output. root \<in> set [''/r''] \<and> root_real (tree s) root = Some (path_str r) \<and> prefix r w
    \<and> tree s w = Some Directory \<and> git_metadata (path_str w) (tree s) = Inr info
    \<and> (False \<or> (\<exists>status. fst (git (gitCommandArguments (path_str w) status_args) (tree s)) = (None, output)
        \<and> parseStatus output = Inr status \<and> \<not> st_dirty status))
    \<and> (if is_regular info
       then \<exists>owner. last (ran s') = gitCommandArguments owner
           ([''worktree'', ''remove''] @ (if False then [''--force''] else []) @ [path_str w])
       else prefix w [''r'', ''p''] \<and> tree s' [''r'', ''p''] = None \<and> (\<forall>es. length es \<ge> 2 \<longrightarrow>
           fst (git (gitCommandArguments (path_str w) list_args) (tree s)) \<noteq> (None, porcelain es)))"
proof -
  let ?run = "DeleteWorkspace (lone_git [''/r/p'']) ''/'' ''/r/p'' False [''/r''] two_projects"
  have "remove_all ''/r/p'' (tree two_projects) [''r'', ''p''] = None" by code_simp
  then have "tree (snd ?run) [''r'', ''p''] = None"
    using lone_delete [OF lone_source(1) refl, of False] lone_counts by auto
  moreover have "tree two_projects [''r'', ''p''] = Some Directory" by code_simp
  ultimately have change: "tree (snd ?run) [''r'', ''p''] \<noteq> tree two_projects [''r'', ''p'']" by simp
  show ?thesis
    unfolding Let_def by (rule delete_keeps_work [OF two_projects_ok lone_git_answers surjective_pairing change])
qed

text \<open>
  The number of work trees is counted in the text of the listing, paths included: a repository whose own
  path contains the word passes for one with linked work trees and is never deleted.
\<close>

theorem worktree_in_path_refused:
  "fst (DeleteWorkspace (lone_git [''/r/worktree one'']) ''/'' ''/r/worktree one'' True [''/r''] two_projects)
     = Inl (Said ''primary workspace has linked worktrees'')"
  using lone_delete [OF lone_source(3) refl, of True] lone_counts by auto

text \<open>
  A workspace may be the managed root itself: unlike the deletion of a project, the deletion of a
  workspace does not ask for a directory strictly below it, and takes every other workspace along.
\<close>

theorem delete_takes_root:
  "let r = DeleteWorkspace (lone_git [''/r'']) ''/'' ''/r'' False [''/r''] two_projects in
   fst r = Inr () \<and> tree (snd r) [''r''] = None \<and> tree (snd r) [''r'', ''p''] = None"
proof -
  have "remove_all ''/r'' (tree two_projects) [''r''] = None" "remove_all ''/r'' (tree two_projects) [''r'', ''p''] = None"
    by code_simp+
  then show ?thesis using lone_delete [OF lone_source(2) refl, of False] lone_counts by (auto simp: Let_def)
qed

section \<open>Moving\<close>

text \<open>A moved directory: everything below \<open>q\<close> is found below \<open>t\<close> instead.\<close>

definition moved_tree :: "string list \<Rightarrow> string list \<Rightarrow> file_tree \<Rightarrow> file_tree" where
  "moved_tree q t fs = (\<lambda>x. if prefix t x then fs (q @ drop (length t) x) else if prefix q x then None else fs x)"

lemma moved_below [simp]: "moved_tree q t fs (t @ x) = fs (q @ x)"
  by (simp add: moved_tree_def)

lemma rename_directory_Inr:
  "rename_directory source target fs = Inr fs' \<longleftrightarrow>
     (\<exists>q t. locate fs False source = Inr q \<and> locate fs False target = Inl (Absent t) \<and> \<not> prefix q t
       \<and> fs' = moved_tree q t fs)"
  by (auto simp: rename_directory_def moved_tree_def split: sum.split fs_error.split)

lemma tree_ok_moved:
  assumes ok: "tree_ok fs" and q: "fs q \<noteq> None" "q \<noteq> []" and t: "t = d @ [n]" "fs d = Some Directory" "fs t = None"
    "plain_name n" and apart: "\<not> prefix q t"
  shows "tree_ok (moved_tree q t fs)"
  unfolding tree_ok_def
proof (intro conjI allI impI)
  have nd: "\<not> prefix q d" using apart t(1) by (auto simp: prefix_def)
  show "moved_tree q t fs [] = Some Directory" using q(2) t(1) tree_ok_root [OF ok] by (simp add: moved_tree_def)
  fix p x
  assume some: "moved_tree q t fs (p @ [x]) \<noteq> None"
  consider y where "p = t @ y" | "\<not> prefix t p" "p @ [x] = t" | "\<not> prefix t p" "\<not> prefix t (p @ [x])"
    unfolding prefix_snoc by (metis prefixE)
  then have "moved_tree q t fs p = Some Directory \<and> plain_name x"
  proof cases
    case (1 y)
    then show ?thesis using some tree_ok_parent [OF ok, of "q @ y" x] by (simp add: moved_tree_def)
  next
    case 2
    then show ?thesis using t nd by (simp add: moved_tree_def)
  next
    case 3
    then have "fs (p @ [x]) \<noteq> None" "\<not> prefix q (p @ [x])" using some by (auto simp: moved_tree_def split: if_splits)
    then show ?thesis using 3 tree_ok_parent [OF ok, of p x] by (auto simp: moved_tree_def prefix_def)
  qed
  then show "moved_tree q t fs p = Some Directory" "plain_name x" by blast+
qed

lemma MoveWorkspace_Inr:
  assumes "git_answers git" "MoveWorkspace git cwd source target roots s = (Inr p, s')"
  shows "\<exists>w linked t s1 s2. lifecycleSource git cwd source roots s = (Inr (w, linked), s1)
    \<and> allowedNewPath target roots (tree s1) = Inr t
    \<and> (linked \<or> (\<exists>s3. ensureNoLinkedWorktrees git w s1 = (Inr (), s3) \<and> move_tree w t s3 = (Inr (), s2)))
    \<and> tree s' = tree s2 \<and> p = path_abs cwd (path_clean target)"
proof -
  have "quiet (resolveRepository git cwd roots t)" for t
    using assms(1) by (simp add: git_answers_def)
  then show ?thesis
    using assms(2) by (auto simp: MoveWorkspace_def andThen_Inr split: if_splits dest!: quiet_tree)
qed

text \<open>The target of a move: a new name in the real directory that holds it.\<close>

lemma join_slash_snoc: "join_slash (es @ [n]) = (if es = [] then n else join_slash es @ CHR ''/'' # n)"
  by (induction es rule: join_slash.induct) auto

lemma path_base_str:
  assumes "\<forall>e\<in>set es. plain_name e" "plain_name n"
  shows "path_base (path_str (es @ [n])) = n"
proof -
  have split: "split_on (CHR ''/'') (path_str (es @ [n])) = [] # es @ [n]"
    using rel_split_str [of "es @ [n]"] assms join_slash_nonempty [of "es @ [n]"]
    by (cases es) (auto simp: rel_split_def path_str_def plain_name_def split: if_splits)
  obtain m c where n: "n = m @ [c]" "c \<noteq> CHR ''/''"
    using assms(2) by (cases n rule: rev_cases) (auto simp: plain_name_def)
  obtain front where "path_str (es @ [n]) = front @ [c]"
    using n by (cases "es = []") (auto simp: path_str_def join_slash_snoc)
  then have "rev (dropWhile (\<lambda>x. x = CHR ''/'') (rev (path_str (es @ [n])))) = path_str (es @ [n])" using n(2) by simp
  then show ?thesis using split by (simp add: path_base_def Let_def path_str_def)
qed

lemma allowedNewPath_Inr:
  assumes ok: "tree_ok fs" and new: "allowedNewPath p roots fs = Inr t"
  shows "\<exists>d n. t = path_str (d @ [n]) \<and> fs d = Some Directory \<and> plain_name n \<and> insideManagedRoot t roots fs"
proof -
  define c where "c = path_str (abs_elems (trim_space p))"
  obtain a where clean: "cleanAbsolutePath p = Inr a"
    using new by (auto simp: allowedNewPath_def try_then_Inr_iff)
  then have a: "a = c" by (auto simp: c_def dest!: cleanAbsolutePath_Inr)
  obtain e where absent: "lstat fs c = Inl e" "not_exist e"
    using new clean a by (cases "lstat fs c") (auto simp: allowedNewPath_def split: if_splits)
  obtain parent where parent: "eval_symlinks fs (path_dir c) = Inr parent"
    using new clean a absent by (cases "eval_symlinks fs (path_dir c)") (auto simp: allowedNewPath_def)
  have parent_dir: "stat fs parent = Inr Directory"
    and t: "t = path_join [parent, path_base c]" "insideManagedRoot t roots fs"
    using new clean a absent parent by (auto simp: allowedNewPath_def Let_def split: if_splits)
  have "abs_elems (trim_space p) \<noteq> []"
    using absent tree_ok_root [OF ok] node_at_real [OF ok, of "[]"] by (auto simp: c_def)
  then obtain es n where "abs_elems (trim_space p) = es @ [n]" by (metis rev_exhaust)
  then have pl: "\<forall>e\<in>set es. plain_name e" "plain_name n" and c: "c = path_str (es @ [n])"
    using abs_elems_plain [of "trim_space p"] by (auto simp: c_def)
  obtain d x where d: "parent = path_str d" "fs d = Some x" "\<forall>l. x \<noteq> Link l" "\<forall>e\<in>set d. plain_name e"
    using eval_symlinks_real [OF ok parent] by blast
  have "stat fs (path_str d) = Inr x" using ok d(2,3) by (intro node_at_real) simp_all
  then have "fs d = Some Directory" using parent_dir d(1,2) by simp
  then show ?thesis using t d pl by (intro exI [of _ d] exI [of _ n]) (simp add: c path_base_str)
qed


lemma git_metadata_node:
  assumes "git_metadata w t = Inr info"
  shows "\<exists>q. t q = Some info"
  using assms by (auto simp: git_metadata_def node_at_def split: sum.splits if_splits option.splits)

lemma directories_alone:
  assumes "\<forall>q x. t q = Some x \<longrightarrow> x = Directory"
  shows "\<forall>w info. git_metadata w t = Inr info \<longrightarrow> \<not> is_regular info"
  using assms git_metadata_node by fastforce

lemma two_projects_dirs: "\<forall>q x. tree two_projects q = Some x \<longrightarrow> x = Directory"
  by (simp add: two_projects_def)


section \<open>Cloning\<close>

lemma or_remove_Inr [simp]: "or_remove target m s = (Inr a, s') \<longleftrightarrow> m s = (Inr a, s')"
  by (auto simp: or_remove_def split: prod.split sum.split)

lemma clone_verify_Inr:
  assumes "clone_verify git cwd o' roots target s = (Inr r, s')"
  shows "cn_branch r = cl_branch o' \<and> cn_commit r = cl_expected_head o'"
  using assms by (auto simp: clone_verify_def andThen_Inr)

text \<open>A clone that succeeds is at the expected commit of the expected branch, in a new place below a managed root.\<close>

lemma clone_Inr:
  assumes "CloneWorkspace git parse cwd o' roots s = (Inr r, s')"
  shows "cn_branch r = cl_branch o' \<and> cn_commit r = cl_expected_head o'
    \<and> validateRemoteURL parse (trim_space (cl_remote_url o')) = Inr ()
    \<and> (\<exists>t target. allowedNewPath (cl_path o') roots t = Inr target)"
  using assms unfolding CloneWorkspace_def clone_checks_def andThen_Inr or_remove_Inr wrap_Inr on_tree_Inr
  by (auto dest!: clone_verify_Inr)

text \<open>A clone that fails after git made it is removed again.\<close>

lemma clone_verify_fails:
  assumes "or_remove target (clone_verify git cwd o' roots target) s = (Inl e, s')"
  shows "\<exists>s1. clone_verify git cwd o' roots target s = (Inl e, s1) \<and> tree s' = remove_all target (tree s1)"
  using assms by (auto simp: or_remove_def split: prod.splits sum.splits)

end
