(* ===== verification/Git_Copy.thy ===== *)
theory Git_Copy
  imports Git_Lifecycle
begin

text \<open>
  Copying a workspace (\<open>CopyWorkspace\<close> of \<open>internal/gitrepository/lifecycle.go\<close>): the walk of
  \<open>filepath.WalkDir\<close> over a tree that the copy itself changes. The lemmas show that a copy to a place
  outside the workspace ends and is exact, and that one to a place inside it never succeeds. The walk
  has fuel, the number of levels it may go down: any number above the depth of the workspace is enough
  when the target lies outside, and none is when it lies inside.
\<close>

section \<open>The copy\<close>

text \<open>
  \<open>os.ReadDir\<close>: the sorted names in a directory. The names of the whole tree are given in order;
  a tree is a function, which does not list them.
\<close>

definition read_dir :: "string list \<Rightarrow> file_tree \<Rightarrow> string list \<Rightarrow> string list" where
  "read_dir names t d = filter (\<lambda>x. t (d @ [x]) \<noteq> None) names"

text \<open>A file is created with the mode of the original and gets its content.\<close>

definition copyRegularFile :: "string \<Rightarrow> nat \<Rightarrow> string \<Rightarrow> file_tree \<Rightarrow> fs_error + file_tree" where
  "copyRegularFile content mode target t =
     try_then (create_new mode target t) (\<lambda>(q, t1). Inr (t1(q \<mapsto> Regular mode content)))"

text \<open>The function that \<open>filepath.WalkDir\<close> calls on an entry; \<open>d\<close> is what the entry is.\<close>

definition copy_entry :: "string \<Rightarrow> string \<Rightarrow> string \<Rightarrow> node \<Rightarrow> file_tree \<Rightarrow> op_error + file_tree" where
  "copy_entry source target path d t =
     (case path_rel source path of
        None \<Rightarrow> Inl (Said ''workspace copy escaped source path'')
      | Some relative \<Rightarrow>
          if climbs relative then Inl (Said ''workspace copy escaped source path'')
          else if relative = ''.'' then Inr t
          else
            let destination = path_join [target, relative] in
            case d of
              Link _ \<Rightarrow> Inl (Said (''workspace copy refuses symbolic link '' @ relative))
            | Directory \<Rightarrow> os (mkdir destination t)
            | Regular mode content \<Rightarrow> os (copyRegularFile content mode destination t)
            | Special \<Rightarrow> Inl (Said (''unsupported workspace entry '' @ relative)))"

text \<open>
  The walk goes down a directory at a time, at most \<open>n\<close> levels, and lists a directory after its own
  entry was copied; \<open>None\<close> when it would go deeper. \<open>cancelled\<close> says at which entries the context is
  found cancelled. A failure keeps what was copied so far.
\<close>

fun copy_each ::
  "(string \<Rightarrow> file_tree \<Rightarrow> ((op_error + unit) \<times> file_tree) option) \<Rightarrow> string list \<Rightarrow> file_tree
    \<Rightarrow> ((op_error + unit) \<times> file_tree) option" where
  "copy_each f [] t = Some (Inr (), t)"
| "copy_each f (x # xs) t =
     (case f x t of
        None \<Rightarrow> None
      | Some (Inl e, t1) \<Rightarrow> Some (Inl e, t1)
      | Some (Inr _, t1) \<Rightarrow> copy_each f xs t1)"

primrec copy_walk ::
  "nat \<Rightarrow> string list \<Rightarrow> (string \<Rightarrow> bool) \<Rightarrow> string \<Rightarrow> string \<Rightarrow> string list \<Rightarrow> file_tree
    \<Rightarrow> ((op_error + unit) \<times> file_tree) option" where
  "copy_walk 0 names cancelled source target p t = None"
| "copy_walk (Suc n) names cancelled source target p t =
     (case lstat t (path_str p) of
        Inl e \<Rightarrow> Some (Inl (System e), t)
      | Inr d \<Rightarrow>
          if cancelled (path_str p) then Some (Inl (System Cancelled), t)
          else case copy_entry source target (path_str p) d t of
              Inl e \<Rightarrow> Some (Inl e, t)
            | Inr t1 \<Rightarrow>
                if d = Directory
                then copy_each (\<lambda>x. copy_walk n names cancelled source target (p @ [x])) (read_dir names t1 p) t1
                else Some (Inr (), t1))"

text \<open>
  The copy as an operation: \<open>depth\<close> bounds the walk. When the walk does not end within it, the
  operation has no result.
\<close>

definition copy_tree ::
  "nat \<Rightarrow> string list \<Rightarrow> (string \<Rightarrow> bool) \<Rightarrow> string \<Rightarrow> string \<Rightarrow> disk \<Rightarrow> ((op_error + unit) \<times> disk) option" where
  "copy_tree depth names cancelled source target s =
     map_option (\<lambda>(r, t). (r, s\<lparr>tree := t\<rparr>))
       (copy_walk depth names cancelled source target (abs_elems source) (tree s))"

text \<open>\<open>os.Mkdir\<close> of the target, whatever its error.\<close>

definition make_target :: "string \<Rightarrow> unit operation" where
  "make_target target s =
     (case mkdir target (tree s) of
        Inl e \<Rightarrow> (Inl (Wrapped ''create target workspace'' (System e)), s)
      | Inr t \<Rightarrow> (Inr (), s\<lparr>tree := t\<rparr>))"

definition copy_prepare :: "git \<Rightarrow> string \<Rightarrow> string \<Rightarrow> string \<Rightarrow> string list \<Rightarrow> (string \<times> string) operation" where
  "copy_prepare git cwd sourcePath targetPath managedRoots =
     andThen (lifecycleSource git cwd sourcePath managedRoots) (\<lambda>(source, linked).
     andThen (check (\<not> linked) ''linked worktrees cannot be copied as standalone workspaces'') (\<lambda>_.
     andThen (ensureNoLinkedWorktrees git source) (\<lambda>_.
     andThen (wrap ''invalid target path'' (on_tree (allowedNewPath targetPath managedRoots))) (\<lambda>target.
     andThen (make_target target) (\<lambda>_.
       give (source, target))))))"

definition CopyWorkspace ::
  "nat \<Rightarrow> string list \<Rightarrow> (string \<Rightarrow> bool) \<Rightarrow> git \<Rightarrow> string \<Rightarrow> string \<Rightarrow> string \<Rightarrow> string list \<Rightarrow> disk
    \<Rightarrow> ((op_error + string) \<times> disk) option" where
  "CopyWorkspace depth names cancelled git cwd sourcePath targetPath managedRoots s =
     (case copy_prepare git cwd sourcePath targetPath managedRoots s of
        (Inl e, s1) \<Rightarrow> Some (Inl e, s1)
      | (Inr (source, target), s1) \<Rightarrow>
          (case copy_tree depth names cancelled source target s1 of
             None \<Rightarrow> None
           | Some (r, s2) \<Rightarrow>
               Some (or_remove target
                 (andThen (\<lambda>s. (r, s)) (\<lambda>_.
                  andThen (wrap ''verify copied workspace'' (resolveRepository git cwd managedRoots target)) (\<lambda>_.
                    give (path_abs cwd (path_clean targetPath))))) s2)))"

section \<open>Trees with a part copied\<close>

text \<open>The tree in which everything below \<open>q\<close> is also found below \<open>t\<close>, for the parts \<open>rs\<close> of it.\<close>

definition graft :: "string list \<Rightarrow> string list \<Rightarrow> string list set \<Rightarrow> file_tree \<Rightarrow> file_tree" where
  "graft q t rs fs = (\<lambda>x. if \<exists>r\<in>rs. prefix (t @ r) x then fs (q @ drop (length t) x) else fs x)"

text \<open>What can be copied: directories and regular files, whose names are listed.\<close>

fun copyable :: "node \<Rightarrow> bool" where
  "copyable (Link l) = False"
| "copyable Special = False"
| "copyable _ = True"

definition plain_below :: "string list \<Rightarrow> string list \<Rightarrow> nat \<Rightarrow> file_tree \<Rightarrow> bool" where
  "plain_below names p n fs \<longleftrightarrow>
     (\<forall>y x. fs (p @ y) = Some x \<longrightarrow> copyable x \<and> set y \<subseteq> set names \<and> length y < n)"

text \<open>The directory of the target is there, and nothing that the copy of \<open>r\<close> makes.\<close>

definition room_for :: "string list \<Rightarrow> string list \<Rightarrow> file_tree \<Rightarrow> bool" where
  "room_for t r fs \<longleftrightarrow>
     fs (if r = [] then t else t @ butlast r) = Some Directory \<and> (\<forall>y. r @ y \<noteq> [] \<longrightarrow> fs (t @ r @ y) = None)"

lemma graft_source:
  "\<lbrakk>\<not> prefix q t; \<not> prefix t q\<rbrakk> \<Longrightarrow> graft q t rs fs (q @ y) = fs (q @ y)"
  by (auto simp: graft_def prefix_def append_eq_append_conv2)

lemma graft_graft:
  assumes "\<not> prefix q t" "\<not> prefix t q"
  shows "graft q t rs' (graft q t rs fs) = graft q t (rs \<union> rs') fs"
  using graft_source [OF assms, of rs fs] by (rule_tac ext) (auto simp: graft_def [of q t rs'] graft_def [of q t "rs \<union> rs'"], auto simp: graft_def)

lemma path_rel_below:
  assumes "\<forall>e\<in>set q. plain_name e" "\<forall>e\<in>set r. plain_name e"
  shows "path_rel (path_str q) (path_str (q @ r)) = Some (if r = [] then ''.'' else join_slash r)"
proof -
  have "path_str q \<noteq> ''.''" by (simp add: path_str_def)
  moreover have "\<forall>e\<in>set (q @ r). plain_name e" using assms by auto
  ultimately show ?thesis
    using assms rel_words_prefix [of q "q @ r"]
    by (auto simp: path_rel_def Let_def path_str_inj rel_split_str simp del: set_append)
qed

lemma path_join_below:
  assumes "\<forall>e\<in>set t. plain_name e" "\<forall>e\<in>set r. plain_name e" "r \<noteq> []"
  shows "path_join [path_str t, join_slash r] = path_str (t @ r)"
proof -
  have "\<forall>e\<in>set (t @ r). plain_name e" using assms by auto
  from clean_elems_plain [OF this] show ?thesis
    using path_join_elems [OF assms(1) relative_join(5) [OF assms(3,2)]] path_elems_join [OF assms(3,2)] by simp
qed

text \<open>One entry.\<close>

lemma copy_entry_below:
  assumes ok: "tree_ok fs" and q: "\<forall>e\<in>set q. plain_name e" and t: "\<forall>e\<in>set t. plain_name e"
    and r: "\<forall>e\<in>set r. plain_name e" and room: "room_for t r fs" and d: "copyable d"
  shows "copy_entry (path_str q) (path_str t) (path_str (q @ r)) d fs = Inr (if r = [] then fs else fs(t @ r \<mapsto> d))"
proof (cases r rule: rev_cases)
  case Nil
  then show ?thesis using path_rel_below [OF q, of "[]"] by (simp add: copy_entry_def climbs_def has_prefix_def)
next
  case (snoc p x)
  have rel: "path_rel (path_str q) (path_str (q @ r)) = Some (join_slash r)" "\<not> climbs (join_slash r)" "join_slash r \<noteq> ''.''"
    and join: "path_join [path_str t, join_slash r] = path_str (t @ r)"
    using path_rel_below [OF q r] relative_join [OF _ r] path_join_below [OF t r] snoc by auto
  have dir: "fs (t @ p) = Some Directory" "fs ((t @ p) @ [x]) = None" "plain_name x" 
    using room r spec [of _ "[]"] snoc by (auto simp: room_for_def)
  have "mkdir (path_str (t @ r)) fs = Inr (fs(t @ r \<mapsto> Directory))"
    using mkdir_name [OF ok dir(1,3)] dir(2) snoc by simp
  moreover have "copyRegularFile c m (path_str (t @ r)) fs = Inr (fs(t @ r \<mapsto> Regular m c))" for c m
    using locate_name [OF ok dir(1,3)] dir(2) snoc by (simp add: copyRegularFile_def create_new_def)
  ultimately show ?thesis using rel join d snoc by (cases d) (simp_all add: copy_entry_def os_def Let_def)
qed

lemma tree_ok_graft:
  assumes ok: "tree_ok fs" and src: "fs (q @ r) \<noteq> None" and room: "room_for t r fs"
    and root: "r = [] \<longrightarrow> fs q = Some Directory"
  shows "tree_ok (graft q t {r} fs)"
  unfolding tree_ok_def
proof (intro conjI allI impI)
  show "graft q t {r} fs [] = Some Directory"
    using root tree_ok_root [OF ok] by (auto simp: graft_def)
  fix p x
  assume some: "graft q t {r} fs (p @ [x]) \<noteq> None"
  consider y where "p = t @ r @ y" | "\<not> prefix (t @ r) p" "p @ [x] = t @ r"
    | "\<not> prefix (t @ r) p" "\<not> prefix (t @ r) (p @ [x])"
    unfolding prefix_snoc by (metis prefixE append.assoc)
  then have "graft q t {r} fs p = Some Directory \<and> plain_name x"
  proof cases
    case (1 y)
    then show ?thesis using some tree_ok_parent [OF ok, of "q @ r @ y" x] by (simp add: graft_def)
  next
    case 2
    show ?thesis
    proof (cases r rule: rev_cases)
      case (snoc r' z)
      then have "p = t @ r'" "x = z" using 2(2) by auto
      then show ?thesis using 2(1) room snoc tree_ok_parent [OF ok, of "q @ r'" z] src
        by (simp add: graft_def room_for_def)
    next
      case Nil
      then have "fs (p @ [x]) = Some Directory" using room 2(2) by (simp add: room_for_def)
      then show ?thesis using 2(1) tree_ok_parent [OF ok, of p x] by (simp add: graft_def)
    qed
  next
    case 3
    then show ?thesis using some tree_ok_parent [OF ok, of p x] by (simp add: graft_def)
  qed
  then show "graft q t {r} fs p = Some Directory" "plain_name x" by blast+
qed

text \<open>The entries of a directory, each copied by \<open>f\<close>.\<close>

lemma copy_each_grafts:
  assumes apart: "\<not> prefix q t" "\<not> prefix t q"
    and f: "\<And>x g. \<lbrakk>tree_ok g; room_for t (r @ [x]) g; plain_below names (q @ r @ [x]) n g; g q = Some Directory;
        g (q @ r @ [x]) \<noteq> None\<rbrakk> \<Longrightarrow> f x g = Some (Inr (), graft q t {r @ [x]} g)"
  shows "\<lbrakk>tree_ok g; g q = Some Directory; g (t @ r) = Some Directory; distinct ys; \<forall>x\<in>set ys. \<forall>y. g (t @ r @ x # y) = None;
      \<forall>x\<in>set ys. g (q @ r @ [x]) \<noteq> None \<and> plain_below names (q @ r @ [x]) n g\<rbrakk>
    \<Longrightarrow> copy_each f ys g = Some (Inr (), graft q t ((\<lambda>x. r @ [x]) ` set ys) g)"
proof (induction ys arbitrary: g)
  case Nil
  then show ?case by (simp add: graft_def)
next
  case (Cons x ys)
  let ?g = "graft q t {r @ [x]} g"
  have room: "room_for t (r @ [x]) g" using Cons.prems by (simp add: room_for_def)
  have step: "f x g = Some (Inr (), ?g)" using Cons.prems room by (intro f) simp_all
  have src: "?g (q @ y) = g (q @ y)" for y by (rule graft_source [OF apart])
  have below: "plain_below names (q @ y) n ?g = plain_below names (q @ y) n g" for y
    using src by (simp add: plain_below_def)
  have "copy_each f ys ?g = Some (Inr (), graft q t ((\<lambda>x. r @ [x]) ` set ys) ?g)"
  proof (rule Cons.IH)
    show "tree_ok ?g" using tree_ok_graft [OF Cons.prems(1) _ room] Cons.prems by simp
    show "?g q = Some Directory" using src [of "[]"] Cons.prems by simp
    show "?g (t @ r) = Some Directory" using Cons.prems by (simp add: graft_def)
    show "distinct ys" using Cons.prems by simp
    show "\<forall>z\<in>set ys. \<forall>y. ?g (t @ r @ z # y) = None" using Cons.prems by (auto simp: graft_def)
    show "\<forall>z\<in>set ys. ?g (q @ r @ [z]) \<noteq> None \<and> plain_below names (q @ r @ [z]) n ?g"
      unfolding below src using Cons.prems(6) by simp
  qed
  then show ?case using step by (simp add: graft_graft [OF apart])
qed

lemma tree_ok_below: "\<lbrakk>tree_ok fs; fs p \<noteq> Some Directory; y \<noteq> []\<rbrakk> \<Longrightarrow> fs (p @ y) = None"
  by (metis tree_ok_above)

lemma graft_leaf:
  assumes "tree_ok fs" "fs (q @ r) = Some d" "d \<noteq> Directory" "room_for t r fs" "r \<noteq> []"
  shows "graft q t {r} fs = fs(t @ r \<mapsto> d)"
proof
  fix x
  show "graft q t {r} fs x = (fs(t @ r \<mapsto> d)) x"
  proof (cases "prefix (t @ r) x")
    case True
    then obtain y where x: "x = t @ r @ y" by (auto simp: prefix_def)
    show ?thesis
    proof (cases y)
      case (Cons z ys)
      have "fs ((q @ r) @ y) = None" by (rule tree_ok_below [OF assms(1)]) (use assms(2,3) Cons in simp_all)
      then show ?thesis using x Cons assms(4,5) by (simp add: graft_def room_for_def)
    qed (use x assms(2) in \<open>simp add: graft_def\<close>)
  qed (auto simp: graft_def)
qed

lemma graft_directory:
  assumes ok: "tree_ok fs" and apart: "\<not> prefix q t" "\<not> prefix t q" and d: "fs (q @ r) = Some Directory"
    and room: "room_for t r fs" and names: "plain_below names (q @ r) n fs"
    and g: "g = (if r = [] then fs else fs(t @ r \<mapsto> Directory))"
  shows "graft q t ((\<lambda>x. r @ [x]) ` set (read_dir names g (q @ r))) g = graft q t {r} fs"
proof
  fix z
  have ne: "q @ y \<noteq> t @ r" for y using apart by (auto simp: append_eq_append_conv2 prefix_def)
  then have src: "g (q @ y) = fs (q @ y)" for y by (simp add: g)
  let ?l = "graft q t ((\<lambda>x. r @ [x]) ` set (read_dir names g (q @ r))) g"
  show "?l z = graft q t {r} fs z"
  proof (cases "prefix (t @ r) z")
    case True
    then obtain y where z: "z = t @ r @ y" by (auto simp: prefix_def)
    show ?thesis
    proof (cases y)
      case Nil
      then show ?thesis using z d room by (auto simp: graft_def g room_for_def)
    next
      case (Cons x ys)
      show ?thesis
      proof (cases "x \<in> set (read_dir names g (q @ r))")
        case True
        then show ?thesis using z Cons src by (force simp: graft_def)
      next
        case False
        have "fs (q @ r @ [x]) = None"
        proof (rule ccontr)
          assume "fs (q @ r @ [x]) \<noteq> None"
          then have "x \<in> set names" using names unfolding plain_below_def by fastforce
          then show False using False src [of "r @ [x]"] \<open>fs (q @ r @ [x]) \<noteq> None\<close> by (simp add: read_dir_def)
        qed
        then have "fs (q @ r @ x # ys) = None"
          using tree_ok_below [OF ok, of "q @ r @ [x]" ys] by (cases ys) simp_all
        moreover have "fs (t @ r @ x # ys) = None" using room by (simp add: room_for_def)
        ultimately show ?thesis using z Cons False by (auto simp: graft_def g)
      qed
    qed
  next
    case False
    then have "\<not> prefix (t @ r @ [x]) z" for x by (metis append.assoc append_prefixD)
    moreover have "z \<noteq> t @ r" using False by auto
    ultimately show ?thesis using False by (auto simp: graft_def g)
  qed
qed

text \<open>The walk copies everything, when it may go deep enough.\<close>

lemma copy_walk_grafts:
  assumes apart: "\<not> prefix q t" "\<not> prefix t q" and plain: "\<forall>e\<in>set t. plain_name e"
    and go: "\<And>p. \<not> cancelled p" and names: "distinct names"
  shows "\<lbrakk>tree_ok fs; room_for t r fs; plain_below names (q @ r) n fs; fs q = Some Directory; fs (q @ r) \<noteq> None\<rbrakk>
    \<Longrightarrow> copy_walk n names cancelled (path_str q) (path_str t) (q @ r) fs = Some (Inr (), graft q t {r} fs)"
proof (induction n arbitrary: r fs)
  case 0
  then show ?case unfolding plain_below_def by (metis append_Nil2 less_nat_zero_code not_None_eq)
next
  case (Suc n)
  obtain d where d: "fs (q @ r) = Some d" using Suc.prems(5) by blast
  have copyable: "copyable d" using Suc.prems(3) d unfolding plain_below_def by (metis append_Nil2)
  have pl: "\<forall>e\<in>set (q @ r). plain_name e" by (rule tree_ok_plain [OF Suc.prems(1,5)])
  define g where "g = (if r = [] then fs else fs(t @ r \<mapsto> d))"
  have lstat: "lstat fs (path_str (q @ r)) = Inr d" using Suc.prems(1) d by (simp add: node_at_real)
  have entry: "copy_entry (path_str q) (path_str t) (path_str (q @ r)) d fs = Inr g"
    using pl unfolding g_def by (intro copy_entry_below [OF Suc.prems(1) _ plain _ Suc.prems(2) copyable]) auto
  show ?case
  proof (cases "d = Directory")
    case False
    then have "r \<noteq> []" using d Suc.prems(4) by auto
    then have "g = graft q t {r} fs" using graft_leaf [OF Suc.prems(1) d False Suc.prems(2)] by (simp add: g_def)
    then show ?thesis using lstat entry go False by simp
  next
    case True
    let ?ys = "read_dir names g (q @ r)"
    have ne: "q @ y \<noteq> t @ r" for y using apart by (auto simp: append_eq_append_conv2 prefix_def)
    then have src: "g (q @ y) = fs (q @ y)" for y by (simp add: g_def)
    have below: "plain_below names (q @ r @ [x]) n g" for x
      unfolding plain_below_def append.assoc src
    proof (intro allI impI)
      fix y z
      assume "fs (q @ r @ [x] @ y) = Some z"
      then have "fs ((q @ r) @ x # y) = Some z" by simp
      then have "copyable z \<and> set (x # y) \<subseteq> set names \<and> length (x # y) < Suc n"
        using Suc.prems(3) unfolding plain_below_def by blast
      then show "copyable z \<and> set y \<subseteq> set names \<and> length y < n" by simp
    qed
    have ok1: "tree_ok g"
    proof (cases r rule: rev_cases)
      case (snoc r' x)
      then have "fs (t @ r') = Some Directory" "plain_name x" "fs ((t @ r') @ [x]) = None"
        using Suc.prems(2) pl spec [of _ "[]"] by (auto simp: room_for_def)
      then show ?thesis using tree_ok_insert [OF Suc.prems(1), of "t @ r'" x d] snoc by (simp add: g_def)
    qed (use Suc.prems(1) in \<open>simp add: g_def\<close>)
    have g1: "g (t @ r) = Some Directory"
      using Suc.prems(2) True by (cases "r = []") (simp_all add: room_for_def g_def)
    have g2: "\<forall>x\<in>set ?ys. \<forall>y. g (t @ r @ x # y) = None"
      using Suc.prems(2) by (cases "r = []") (simp_all add: room_for_def g_def)
    have g3: "\<forall>x\<in>set ?ys. g (q @ r @ [x]) \<noteq> None \<and> plain_below names (q @ r @ [x]) n g"
      using below by (simp add: read_dir_def)
    have g4: "g q = Some Directory" using src [of "[]"] Suc.prems(4) by simp
    have g5: "distinct ?ys" using names by (simp add: read_dir_def)
    have "copy_each (\<lambda>x. copy_walk n names cancelled (path_str q) (path_str t) ((q @ r) @ [x])) ?ys g
        = Some (Inr (), graft q t ((\<lambda>x. r @ [x]) ` set ?ys) g)"
      using Suc.IH by (intro copy_each_grafts [OF apart _ ok1 g4 g1 g5 g2 g3]) simp
    moreover have "graft q t ((\<lambda>x. r @ [x]) ` set ?ys) g = graft q t {r} fs"
      using d True by (intro graft_directory [OF Suc.prems(1) apart _ Suc.prems(2,3)]) (simp_all add: g_def)
    ultimately show ?thesis using lstat entry go [of "path_str (q @ r)"] True by simp
  qed
qed

lemma copy_prepare_Inr:
  assumes ok: "tree_ok (tree s)" and answers: "git_answers git"
    and run: "copy_prepare git cwd source target roots s = (Inr (w, v), s1)"
  shows "\<exists>q d n. w = path_str q \<and> v = path_str (d @ [n]) \<and> tree s q = Some Directory \<and> tree s d = Some Directory
    \<and> plain_name n \<and> tree s (d @ [n]) = None \<and> tree s1 = (tree s)(d @ [n] \<mapsto> Directory)"
proof -
  obtain s2 s3 s4 where source: "lifecycleSource git cwd source roots s = (Inr (w, False), s2)"
    and alone: "ensureNoLinkedWorktrees git w s2 = (Inr (), s3)"
    and new: "allowedNewPath target roots (tree s3) = Inr v" and made: "make_target v s3 = (Inr (), s1)"
    using run by (auto simp: copy_prepare_def andThen_Inr split: prod.splits)
  have s3: "tree s3 = tree s"
    using quiet_tree [OF quiet_lifecycleSource [OF answers] source] quiet_tree [OF quiet_ensure [OF answers] alone] by simp
  obtain q where q: "w = path_str q" "tree s q = Some Directory"
    using lifecycleSource_Inr [OF answers source] allowedExisting_real [OF ok] by blast
  obtain d n where d: "v = path_str (d @ [n])" "tree s d = Some Directory" "plain_name n"
    using allowedNewPath_Inr [OF ok] new s3 by metis
  then have "tree s (d @ [n]) = None" "tree s1 = (tree s)(d @ [n] \<mapsto> Directory)"
    using made s3 mkdir_name [OF ok d(2,3)] by (auto simp: make_target_def split: sum.splits if_splits)
  then show ?thesis using q d by blast
qed



section \<open>Copying a workspace into itself\<close>

definition extends :: "file_tree \<Rightarrow> file_tree \<Rightarrow> bool" where
  "extends fs fs' \<longleftrightarrow> (\<forall>p x. fs p = Some x \<longrightarrow> fs' p = Some x)"

lemma extends_refl [simp]: "extends fs fs"
  by (simp add: extends_def)

lemma extends_trans: "\<lbrakk>extends fs fs1; extends fs1 fs2\<rbrakk> \<Longrightarrow> extends fs fs2"
  by (simp add: extends_def)

lemma extends_new: "fs p = None \<Longrightarrow> extends fs (fs(p \<mapsto> x))"
  by (simp add: extends_def)

text \<open>A step that keeps a tree a tree and only adds to it.\<close>

definition grows_by :: "(file_tree \<Rightarrow> ((op_error + unit) \<times> file_tree) option) \<Rightarrow> bool" where
  "grows_by f \<longleftrightarrow> (\<forall>fs r fs'. tree_ok fs \<longrightarrow> f fs = Some (r, fs') \<longrightarrow> tree_ok fs' \<and> extends fs fs')"

lemma grows_byD: "\<lbrakk>grows_by f; tree_ok fs; f fs = Some (r, fs')\<rbrakk> \<Longrightarrow> tree_ok fs' \<and> extends fs fs'"
  unfolding grows_by_def by blast

lemma mkdir_extends: "\<lbrakk>tree_ok fs; mkdir p fs = Inr fs'\<rbrakk> \<Longrightarrow> tree_ok fs' \<and> extends fs fs'"
  using tree_ok_mkdir
  by (auto simp: mkdir_def split: sum.splits fs_error.splits dest!: locate_absent intro!: extends_new)

lemma copyRegularFile_extends:
  assumes ok: "tree_ok fs" and run: "copyRegularFile c m p fs = Inr fs'"
  shows "tree_ok fs' \<and> extends fs fs'"
proof -
  obtain q where q: "locate fs False p = Inl (Absent q)" "fs' = fs(q \<mapsto> Regular m c)"
    using run by (auto simp: copyRegularFile_def create_new_def try_then_Inr_iff split: sum.splits fs_error.splits)
  have "fs q = None" using locate_absent [OF ok q(1)] by blast
  then show ?thesis using tree_ok_absent [OF ok q(1)] q(2) extends_new by simp
qed

lemma copy_entry_cases:
  assumes "copy_entry source target p d fs = Inr fs'"
  shows "fs' = fs \<or> (\<exists>destination. mkdir destination fs = Inr fs') \<or>
    (\<exists>destination c m. copyRegularFile c m destination fs = Inr fs')"
proof (cases "path_rel source p")
  case (Some relative)
  then show ?thesis using assms by (cases d) (auto simp: copy_entry_def Let_def split: if_splits)
qed (use assms in \<open>simp add: copy_entry_def\<close>)

lemma copy_entry_extends: "\<lbrakk>tree_ok fs; copy_entry source target p d fs = Inr fs'\<rbrakk> \<Longrightarrow> tree_ok fs' \<and> extends fs fs'"
  by (metis copy_entry_cases copyRegularFile_extends mkdir_extends extends_refl)

lemma copy_each_grows: "(\<And>x. grows_by (f x)) \<Longrightarrow> grows_by (copy_each f xs)"
proof (induction xs)
  case (Cons x xs)
  show ?case
    unfolding grows_by_def
  proof (intro allI impI)
    fix fs r fs'
    assume ok: "tree_ok fs" and run: "copy_each f (x # xs) fs = Some (r, fs')"
    obtain r1 fs1 where x: "f x fs = Some (r1, fs1)" using run by (cases "f x fs") auto
    then have 1: "tree_ok fs1" "extends fs fs1" using grows_byD [OF Cons.prems ok] by blast+
    show "tree_ok fs' \<and> extends fs fs'"
    proof (cases r1)
      case (Inr u)
      then have "copy_each f xs fs1 = Some (r, fs')" using run x by simp
      then show ?thesis using grows_byD [OF Cons.IH [OF Cons.prems] 1(1)] 1(2) extends_trans by blast
    qed (use run x 1 in simp)
  qed
qed (simp add: grows_by_def)

lemma copy_walk_grows: "grows_by (copy_walk n names cancelled source target p)"
proof (induction n arbitrary: p)
  case (Suc n)
  then have each: "grows_by (copy_each (\<lambda>x. copy_walk n names cancelled source target (p @ [x])) xs)" for xs
    by (rule copy_each_grows)
  show ?case
    unfolding grows_by_def
  proof (intro allI impI)
    fix fs r fs'
    assume ok: "tree_ok fs" and run: "copy_walk (Suc n) names cancelled source target p fs = Some (r, fs')"
    show "tree_ok fs' \<and> extends fs fs'"
    proof (cases "lstat fs (path_str p)")
      case (Inr d)
      show ?thesis
      proof (cases "cancelled (path_str p) \<or> (\<exists>e. copy_entry source target (path_str p) d fs = Inl e)")
        case False
        then obtain t1 where t1: "copy_entry source target (path_str p) d fs = Inr t1" "\<not> cancelled (path_str p)"
          by (metis old.sum.exhaust)
        have 1: "tree_ok t1" "extends fs t1" using copy_entry_extends [OF ok t1(1)] by blast+
        show ?thesis
        proof (cases "d = Directory")
          case True
          have "copy_each (\<lambda>x. copy_walk n names cancelled source target (p @ [x])) (read_dir names t1 p) t1 = Some (r, fs')"
            using run Inr t1 True by simp
          then show ?thesis using grows_byD [OF each 1(1)] extends_trans [OF 1(2)] by blast
        qed (use run Inr t1 1 in simp)
      qed (use run Inr ok in \<open>auto split: if_splits\<close>)
    qed (use run ok in simp)
  qed
qed (simp add: grows_by_def)

text \<open>Every listed entry of a directory is visited, in a tree that has only grown.\<close>

lemma copy_each_visits:
  assumes "\<And>x. grows_by (f x)" "x \<in> set xs" "tree_ok fs" "copy_each f xs fs = Some (Inr u, fs')"
  shows "\<exists>g g' u'. tree_ok g \<and> extends fs g \<and> f x g = Some (Inr u', g')"
  using assms(2-4)
proof (induction xs arbitrary: fs)
  case (Cons y ys)
  obtain u1 fs1 where y: "f y fs = Some (Inr u1, fs1)" "copy_each f ys fs1 = Some (Inr u, fs')"
    using Cons.prems(3) by (auto split: option.splits sum.splits)
  then have 1: "tree_ok fs1" "extends fs fs1" using grows_byD [OF assms(1) Cons.prems(2)] by blast+
  show ?case
  proof (cases "x = y")
    case False
    then show ?thesis using Cons.IH [OF _ 1(1) y(2)] Cons.prems(1) extends_trans [OF 1(2)] by auto
  qed (use y(1) Cons.prems(2) in auto)
qed simp

lemma copy_entry_directory:
  assumes ok: "tree_ok fs" and plain: "\<forall>e\<in>set q. plain_name e" "\<forall>e\<in>set t. plain_name e" "\<forall>e\<in>set r. plain_name e"
    and dir: "fs t = Some Directory" "r \<noteq> [] \<longrightarrow> fs (t @ butlast r) = Some Directory"
    and run: "copy_entry (path_str q) (path_str t) (path_str (q @ r)) Directory fs = Inr fs'"
  shows "fs' (t @ r) = Some Directory"
proof (cases r rule: rev_cases)
  case Nil
  then have "fs' = fs" using run path_rel_below [OF plain(1), of "[]"] by (simp add: copy_entry_def climbs_def has_prefix_def)
  then show ?thesis using Nil dir by simp
next
  case (snoc p x)
  have "mkdir (path_str (t @ r)) fs = Inr fs'"
    using run snoc path_rel_below [OF plain(1,3)] relative_join [OF _ plain(3)] path_join_below [OF plain(2,3)]
    by (simp add: copy_entry_def Let_def)
  then show ?thesis
    using mkdir_name [OF ok, of "t @ p" x] dir(2) plain(3) snoc by (auto split: if_splits)
qed

text \<open>A successful walk of a directory has walked what is in it, after making the copy of the directory.\<close>

lemma copy_walk_step:
  assumes ok: "tree_ok g" and plain: "\<forall>e\<in>set t. plain_name e" and here: "g (q @ r) = Some Directory"
    and dir: "g t = Some Directory" "r \<noteq> [] \<longrightarrow> g (t @ butlast r) = Some Directory"
    and run: "copy_walk (Suc m) names cancelled (path_str q) (path_str t) (q @ r) g = Some (Inr u, g')"
    and there: "x \<in> set names" "\<And>h. \<lbrakk>tree_ok h; extends g h; h (t @ r) = Some Directory\<rbrakk> \<Longrightarrow> h (q @ r @ [x]) = Some Directory"
  shows "\<exists>h h' u'. tree_ok h \<and> extends g h \<and> h (t @ r) = Some Directory \<and> h (q @ r @ [x]) = Some Directory
    \<and> copy_walk m names cancelled (path_str q) (path_str t) (q @ r @ [x]) h = Some (Inr u', h')"
proof -
  have pl: "\<forall>e\<in>set (q @ r). plain_name e" by (rule tree_ok_plain [OF ok]) (simp add: here)
  have "lstat g (path_str (q @ r)) = Inr Directory" using ok here by (simp add: node_at_real)
  then obtain t1 where entry: "copy_entry (path_str q) (path_str t) (path_str (q @ r)) Directory g = Inr t1"
    and each: "copy_each (\<lambda>x. copy_walk m names cancelled (path_str q) (path_str t) ((q @ r) @ [x]))
      (read_dir names t1 (q @ r)) t1 = Some (Inr u, g')"
    using run by (auto split: if_splits sum.splits)
  have t1: "tree_ok t1" "extends g t1" using copy_entry_extends [OF ok entry] by blast+
  have made: "t1 (t @ r) = Some Directory" by (rule copy_entry_directory [OF ok _ plain _ dir entry]) (use pl in auto)
  have "x \<in> set (read_dir names t1 (q @ r))" using there(1) there(2) [OF t1 made] by (simp add: read_dir_def)
  from copy_each_visits [OF copy_walk_grows this t1(1) each]
  obtain h h' u' where h: "tree_ok h" "extends t1 h"
    "copy_walk m names cancelled (path_str q) (path_str t) ((q @ r) @ [x]) h = Some (Inr u', h')" by blast
  moreover have "extends g h" using t1(2) h(2) by (rule extends_trans)
  moreover have "h (t @ r) = Some Directory" using h(2) made by (simp add: extends_def)
  ultimately show ?thesis using there(2) [of h] by auto
qed

text \<open>The names on the way down: those of the target below the source, again and again.\<close>

definition way_down :: "string list \<Rightarrow> nat \<Rightarrow> string list" where
  "way_down z k = map (\<lambda>i. z ! (i mod length z)) [0..<k]"

lemma way_down_Suc: "way_down z (Suc k) = way_down z k @ [z ! (k mod length z)]"
  by (simp add: way_down_def)

lemma way_down_prefix: "j \<le> k \<Longrightarrow> prefix (way_down z j) (way_down z k)"
  unfolding way_down_def by (metis le_iff_add map_append prefixI upt_add_eq_append zero_le)

lemma way_down_take: "k \<le> length z \<Longrightarrow> way_down z k = take k z"
  by (rule nth_equalityI) (simp_all add: way_down_def)

lemma way_down_again: "length z \<le> k \<Longrightarrow> way_down z k = z @ way_down z (k - length z)"
  by (rule nth_equalityI) (auto simp: way_down_def nth_append mod_if)

lemma way_down_set: "z \<noteq> [] \<Longrightarrow> set (way_down z k) \<subseteq> set z"
  by (auto simp: way_down_def)

lemma copy_walk_never_ends:
  assumes z: "z \<noteq> []" and t: "t = q @ z" and names: "set z \<subseteq> set names"
  shows "\<lbrakk>tree_ok g; g t = Some Directory; g (q @ way_down z k) = Some Directory;
      k \<noteq> 0 \<longrightarrow> g (t @ way_down z (k - 1)) = Some Directory\<rbrakk>
    \<Longrightarrow> copy_walk n names cancelled (path_str q) (path_str t) (q @ way_down z k) g \<noteq> Some (Inr u, g')"
proof (induction n arbitrary: k g u g')
  case (Suc n)
  let ?x = "z ! (k mod length z)"
  have plain: "\<forall>e\<in>set t. plain_name e" by (rule tree_ok_plain [OF Suc.prems(1)]) (simp add: Suc.prems(2))
  have x: "?x \<in> set names" using z names by (meson mod_less_divisor length_greater_0_conv nth_mem subsetD)
  have next_dir: "h (q @ way_down z (Suc k)) = Some Directory"
    if h: "tree_ok h" "extends g h" "h (t @ way_down z k) = Some Directory" for h
  proof (cases "Suc k \<le> length z")
    case True
    have "h t = Some Directory" using h(2) Suc.prems(2) by (simp add: extends_def)
    moreover have "t = (q @ way_down z (Suc k)) @ drop (Suc k) z" using True t by (simp add: way_down_take)
    ultimately show ?thesis using tree_ok_above [OF h(1)] by (metis append_Nil2 option.distinct(1))
  next
    case False
    have "Suc k - length z \<le> k" using z by (cases z) auto
    then obtain y where y: "way_down z k = way_down z (Suc k - length z) @ y"
      using way_down_prefix [of "Suc k - length z" k z] by (auto simp: prefix_def)
    have "q @ way_down z (Suc k) = t @ way_down z (Suc k - length z)"
      using way_down_again [of z "Suc k"] False t by simp
    then show ?thesis using tree_ok_above [OF h(1)] h(3) y by (metis append.assoc append_Nil2 option.distinct(1))
  qed
  show ?case
  proof
    assume run: "copy_walk (Suc n) names cancelled (path_str q) (path_str t) (q @ way_down z k) g = Some (Inr u, g')"
    have "way_down z k \<noteq> [] \<longrightarrow> g (t @ butlast (way_down z k)) = Some Directory"
      using Suc.prems(4) by (cases k) (simp_all add: way_down_Suc, simp add: way_down_def)
    then obtain h h' u' where "tree_ok h" "extends g h" "h (t @ way_down z k) = Some Directory"
      "h (q @ way_down z (Suc k)) = Some Directory"
      "copy_walk n names cancelled (path_str q) (path_str t) (q @ way_down z (Suc k)) h = Some (Inr u', h')"
      using copy_walk_step [OF Suc.prems(1) plain Suc.prems(3,2) _ run x] next_dir unfolding way_down_Suc by blast
    then show False using Suc.IH [of h "Suc k"] Suc.prems(2) by (simp add: extends_def)
  qed
qed simp



end
