(* ===== verification/Agent_Projects.thy ===== *)
theory Agent_Projects
  imports Git_Copy
begin

text \<open>
  The agent's commands on projects, workspaces and linked work trees: where a new project goes and
  which roots the agent manages (\<open>internal/agent/client.go\<close>), the handlers that call the operations of
  \<open>internal/gitrepository\<close>, and the commands that add and remove a linked work tree
  (\<open>internal/gitworktree/worktree.go\<close>). The lemmas show that a new project, a new work tree and every
  removal stay below the configured roots, and that what the removal of a work tree can reach is
  what its checks say.
\<close>

section \<open>Roots\<close>

record agent_config =
  ac_clone_root :: string
  ac_scan_roots :: "string list"

fun add_roots :: "string list \<Rightarrow> string list \<Rightarrow> string list" where
  "add_roots [] roots = roots"
| "add_roots (root # rest) roots =
     (let root = path_clean (trim_space root) in
      add_roots rest (if root = ''.'' \<or> root \<in> set roots then roots else roots @ [root]))"

definition below_root :: "string \<Rightarrow> string \<Rightarrow> bool" where
  "below_root root path \<longleftrightarrow> (case path_rel root path of None \<Rightarrow> False | Some relative \<Rightarrow> \<not> climbs relative)"

definition inventoryRoots :: "agent_config \<Rightarrow> string list" where
  "inventoryRoots c =
     (let roots = add_roots (ac_scan_roots c) []; cloneRoot = path_clean (trim_space (ac_clone_root c)) in
      if cloneRoot = ''.'' \<or> (\<exists>root\<in>set roots. below_root root cloneRoot) then roots else roots @ [cloneRoot])"

definition managedRoots :: "agent_config \<Rightarrow> string list" where
  "managedRoots c = inventoryRoots c"

definition pathWithinRoots :: "string \<Rightarrow> string list \<Rightarrow> bool" where
  "pathWithinRoots path roots \<longleftrightarrow> (\<exists>root\<in>set roots. below_root (path_clean root) (path_clean path))"

section \<open>The place of a new project\<close>

text \<open>
  \<open>letter\<close> says of a character of more than one byte whether it is a letter or a digit; of the
  others the letters and digits of ASCII are.
\<close>

definition name_rune :: "(string \<Rightarrow> bool) \<Rightarrow> string \<Rightarrow> bool" where
  "name_rune letter r =
     (case r of [c] \<Rightarrow> byte_in 48 57 c \<or> byte_in 65 90 c \<or> byte_in 97 122 c \<or> c = CHR ''-'' \<or> c = CHR ''_'' | _ \<Rightarrow> letter r)"

definition trim_dashes :: "string \<Rightarrow> string" where
  "trim_dashes s = (let cut = dropWhile (\<lambda>c. c = CHR ''-'') in rev (cut (rev (cut s))))"

definition safeProjectName :: "(string \<Rightarrow> bool) \<Rightarrow> string \<Rightarrow> string" where
  "safeProjectName letter value =
     (let name = trim_dashes (concat (map (\<lambda>r. if name_rune letter r then r else ''-'') (str_runes (trim_space value)))) in
      if name = [] then ''repository'' else name)"

definition projectCreateDestination ::
  "(string \<Rightarrow> bool) \<Rightarrow> string \<Rightarrow> string \<Rightarrow> string \<Rightarrow> string \<Rightarrow> op_error + string" where
  "projectCreateDestination letter cwd cloneRoot projectName destination =
     (let cloneRoot = trim_space cloneRoot in
      if cloneRoot = [] \<or> \<not> is_abs cloneRoot then Inl (Said ''clone root must be absolute'')
      else
        let cloneRoot = path_abs cwd (path_clean cloneRoot);
            destination = trim_space destination;
            destination = (if destination = [] then safeProjectName letter projectName else destination);
            destination = (if is_abs destination then destination else path_join [cloneRoot, destination]);
            destination = path_abs cwd (path_clean destination)
        in case path_rel cloneRoot destination of
            None \<Rightarrow> Inl (Said ''destination must stay below the configured clone root'')
          | Some relative \<Rightarrow>
              if relative = ''.'' \<or> climbs relative
              then Inl (Said ''destination must stay below the configured clone root'')
              else Inr destination)"

section \<open>Handlers of the agent\<close>

record project_create =
  pc_project_id :: string
  pc_name :: string
  pc_destination :: string
  pc_initial_branch :: string
  pc_remote_url :: string
  pc_require_empty :: bool
  pc_readme :: bool

definition make_parents :: "string \<Rightarrow> unit operation" where
  "make_parents p s =
     (case mkdir_all (abs_elems p) (tree s) of
        (Inl e, t) \<Rightarrow> (Inl (Wrapped ''prepare repository parent directory'' (System e)), s\<lparr>tree := t\<rparr>)
      | (Inr _, t) \<Rightarrow> (Inr (), s\<lparr>tree := t\<rparr>))"

definition createProject ::
  "git \<Rightarrow> url_parser \<Rightarrow> (string \<Rightarrow> bool) \<Rightarrow> string \<Rightarrow> agent_config \<Rightarrow> project_create \<Rightarrow> create_result operation" where
  "createProject git parse letter cwd c command =
     andThen (on_tree (\<lambda>_. projectCreateDestination letter cwd (ac_clone_root c) (pc_name command) (pc_destination command)))
       (\<lambda>destination.
     andThen (make_parents (path_dir destination)) (\<lambda>_.
       CreateRepository git parse cwd
         \<lparr>co_project_id = pc_project_id command, co_path = destination, co_initial_branch = pc_initial_branch command,
          co_remote_url = pc_remote_url command, co_require_empty = pc_require_empty command, co_readme = pc_readme command,
          co_readme_content = [], co_message = [], co_author = [], co_email = []\<rparr>
         [path_clean (ac_clone_root c)]))"

record project_delete =
  pd_project_id :: string
  pd_workspace_id :: string
  pd_path :: string

record project_deleted =
  pr_project_id :: string
  pr_workspace_id :: string
  pr_path :: string
  pr_removed :: bool

definition deleteProject :: "git \<Rightarrow> string \<Rightarrow> bool \<Rightarrow> agent_config \<Rightarrow> project_delete \<Rightarrow> project_deleted operation" where
  "deleteProject git cwd cancelled c command =
     (let projectID = trim_space (pd_project_id command) in
      andThen (check (projectID \<noteq> []) ''project ID is required'') (\<lambda>_.
      andThen (check (trim_space (pd_path command) \<noteq> []) ''project path is required'') (\<lambda>_.
      andThen (DeleteManagedProject git cwd cancelled projectID (pd_path command) (ac_clone_root c)) (\<lambda>result.
        give \<lparr>pr_project_id = projectID, pr_workspace_id = trim_space (pd_workspace_id command),
          pr_path = path_clean (pd_path command), pr_removed = dr_deleted result\<rparr>))))"

record lifecycle_command =
  lc_workspace_id :: string
  lc_target_workspace_id :: string
  lc_action :: string
  lc_source_path :: string
  lc_target_path :: string
  lc_force :: bool

record lifecycle_result =
  lt_workspace_id :: string
  lt_target_workspace_id :: string
  lt_action :: string
  lt_source_path :: string
  lt_target_path :: string

text \<open>The handler of a life-cycle command; \<open>None\<close> when a copy does not end within the depth.\<close>

definition run_lifecycle ::
  "nat \<Rightarrow> string list \<Rightarrow> (string \<Rightarrow> bool) \<Rightarrow> git \<Rightarrow> string \<Rightarrow> agent_config \<Rightarrow> lifecycle_command \<Rightarrow> disk
    \<Rightarrow> ((op_error + unit) \<times> disk) option" where
  "run_lifecycle depth names cancelled git cwd c command s =
     (let roots = managedRoots c; done' = (\<lambda>_. give ()) in
      if lc_action command = ''move'' then
        Some (andThen (MoveWorkspace git cwd (lc_source_path command) (lc_target_path command) roots) done' s)
      else if lc_action command = ''copy'' then
        map_option (\<lambda>(r, s1). (map_sum id (\<lambda>_. ()) r, s1))
          (CopyWorkspace depth names cancelled git cwd (lc_source_path command) (lc_target_path command) roots s)
      else if lc_action command = ''delete'' then
        Some (DeleteWorkspace git cwd (lc_source_path command) (lc_force command) roots s)
      else Some (Inl (Said (''unsupported workspace lifecycle action '' @ lc_action command)), s))"

definition handle_lifecycle ::
  "nat \<Rightarrow> string list \<Rightarrow> (string \<Rightarrow> bool) \<Rightarrow> git \<Rightarrow> string \<Rightarrow> agent_config \<Rightarrow> lifecycle_command \<Rightarrow> disk
    \<Rightarrow> ((op_error + lifecycle_result) \<times> disk) option" where
  "handle_lifecycle depth names cancelled git cwd c command s =
     map_option (\<lambda>(r, s1).
       (map_sum id (\<lambda>_. \<lparr>lt_workspace_id = lc_workspace_id command, lt_target_workspace_id = lc_target_workspace_id command,
          lt_action = lc_action command, lt_source_path = lc_source_path command,
          lt_target_path = (if lc_action command = ''delete'' then [] else path_clean (lc_target_path command))\<rparr>) r, s1))
       (run_lifecycle depth names cancelled git cwd c command s)"

record clone_command =
  cc_workspace_id :: string
  cc_project_id :: string
  cc_name :: string
  cc_destination :: string
  cc_remote_url :: string
  cc_branch :: string
  cc_expected_head :: string

definition handle_clone ::
  "git \<Rightarrow> url_parser \<Rightarrow> (string \<Rightarrow> bool) \<Rightarrow> string \<Rightarrow> agent_config \<Rightarrow> clone_command \<Rightarrow> clone_result operation" where
  "handle_clone git parse letter cwd c command =
     andThen (on_tree (\<lambda>_. projectCreateDestination letter cwd (ac_clone_root c) (cc_name command) (cc_destination command)))
       (\<lambda>destination.
     andThen (CloneWorkspace git parse cwd
         \<lparr>cl_workspace_id = cc_workspace_id command, cl_project_id = cc_project_id command, cl_path = destination,
          cl_remote_url = cc_remote_url command, cl_branch = cc_branch command,
          cl_expected_head = cc_expected_head command\<rparr> (managedRoots c)) (\<lambda>cloned.
       give (cloned\<lparr>cn_path := path_clean (cc_destination command)\<rparr>)))"

section \<open>Linked work trees\<close>

definition containsPath :: "string \<Rightarrow> string \<Rightarrow> bool" where
  "containsPath parent child \<longleftrightarrow>
     (case path_rel parent child of None \<Rightarrow> False | Some relative \<Rightarrow> relative \<noteq> ''.'' \<and> \<not> climbs relative)"

text \<open>A configured root, resolved when it can be.\<close>

definition worktree_root :: "file_tree \<Rightarrow> string \<Rightarrow> string option" where
  "worktree_root t root =
     (let root = path_clean (trim_space root) in
      if \<not> is_abs root then None
      else Some (case eval_symlinks t root of Inl _ \<Rightarrow> root | Inr resolved \<Rightarrow> resolved))"

definition worktree_place :: "string \<Rightarrow> bool \<Rightarrow> file_tree \<Rightarrow> op_error + string" where
  "worktree_place path mustExist t =
     (if mustExist then os (eval_symlinks t path)
      else case eval_symlinks t (path_dir path) of
          Inl _ \<Rightarrow> Inl (Said ''worktree parent directory must exist'')
        | Inr parent \<Rightarrow> Inr (path_join [parent, path_base path]))"

definition allowedPath :: "string \<Rightarrow> string list \<Rightarrow> bool \<Rightarrow> file_tree \<Rightarrow> op_error + string" where
  "allowedPath path roots mustExist t =
     (let path = trim_space path in
      if path = [] \<or> \<not> is_abs path then Inl (Said ''path must be absolute'')
      else try_then (worktree_place (path_clean path) mustExist t) (\<lambda>path.
        if \<exists>root\<in>set roots. case worktree_root t root of None \<Rightarrow> False | Some root \<Rightarrow> below_root root path
        then Inr path else Inl (Said ''path is outside configured roots'')))"

text \<open>This package runs git in a directory without naming it safe, and does not cut its messages.\<close>

definition worktree_git :: "git \<Rightarrow> string \<Rightarrow> string \<Rightarrow> string list \<Rightarrow> string operation" where
  "worktree_git git context directory args s =
     (let command = [''-C'', directory] @ args; (answer, t) = git command (tree s); s1 = s\<lparr>tree := t, ran := ran s @ [command]\<rparr>
      in case answer of
          (None, out) \<Rightarrow> (Inr out, s1)
        | (Some e, out) \<Rightarrow>
            (Inl (Said (context @ '': '' @ (if trim_space out = [] then e else trim_space out))), s1))"

definition RemoveWorktree :: "git \<Rightarrow> string \<Rightarrow> string \<Rightarrow> string \<Rightarrow> string list \<Rightarrow> unit operation" where
  "RemoveWorktree git source target branch roots =
     andThen (on_tree (allowedPath source roots True)) (\<lambda>source.
     andThen (on_tree (allowedPath target roots False)) (\<lambda>target.
     andThen (worktree_git git ''remove worktree'' source [''worktree'', ''remove'', ''--force'', ''--'', target]) (\<lambda>_.
       if branch \<noteq> [] then
         andThen (worktree_git git ''remove worktree branch'' source [''branch'', ''-D'', ''--'', branch]) (\<lambda>_. give ())
       else give ())))"

record worktree_create =
  wt_source_path :: string
  wt_target_path :: string
  wt_branch :: string
  wt_base_ref :: string

record worktree_result =
  wr_path :: string
  wr_branch :: string
  wr_commit :: string

text \<open>The target must not be there yet.\<close>

definition absent_target :: "string \<Rightarrow> file_tree \<Rightarrow> op_error + unit" where
  "absent_target target t =
     (case stat t target of
        Inr _ \<Rightarrow> Inl (Said ''worktree path already exists'')
      | Inl e \<Rightarrow> if not_exist e then Inr () else Inl (System e))"

definition worktree_checks :: "git \<Rightarrow> string \<Rightarrow> string \<Rightarrow> string \<Rightarrow> unit operation" where
  "worktree_checks git source target branch =
     andThen (check (source \<noteq> target) ''worktree path must differ from source workspace'') (\<lambda>_.
     andThen (check (\<not> (containsPath source target \<or> containsPath target source))
       ''worktree and source paths cannot contain one another'') (\<lambda>_.
     andThen (check (branch \<noteq> []) ''branch is required'') (\<lambda>_.
     andThen (worktree_git git ''invalid branch name'' source [''check-ref-format'', ''--branch'', branch]) (\<lambda>_.
     andThen (on_tree (absent_target target)) (\<lambda>_.
     andThen (worktree_git git ''list worktrees'' source list_args) (\<lambda>listing.
       check (\<not> contains_str listing (''branch refs/heads/'' @ branch @ [CHR 0x0A]))
         ''branch is already checked out in another worktree''))))))"

definition worktree_commit :: "git \<Rightarrow> string \<Rightarrow> string \<Rightarrow> string \<Rightarrow> string list \<Rightarrow> worktree_result operation" where
  "worktree_commit git source target branch roots =
     andThen (outcome (worktree_git git ''resolve worktree commit'' target [''rev-parse'', ''HEAD''])) (\<lambda>sha.
       case sha of
         Inr sha \<Rightarrow> give \<lparr>wr_path = target, wr_branch = branch, wr_commit = trim_space sha\<rparr>
       | Inl e \<Rightarrow> andThen (outcome (RemoveWorktree git source target branch roots)) (\<lambda>_. refuse_op e))"

definition CreateWorktree :: "git \<Rightarrow> worktree_create \<Rightarrow> string list \<Rightarrow> worktree_result operation" where
  "CreateWorktree git command roots =
     andThen (wrap ''invalid source workspace'' (on_tree (allowedPath (wt_source_path command) roots True))) (\<lambda>source.
     andThen (wrap ''invalid worktree path'' (on_tree (allowedPath (wt_target_path command) roots False))) (\<lambda>target.
       let branch = trim_space (wt_branch command);
           base = (if trim_space (wt_base_ref command) = [] then ''HEAD'' else trim_space (wt_base_ref command)) in
       andThen (worktree_checks git source target branch) (\<lambda>_.
       andThen (worktree_git git ''create worktree'' source [''worktree'', ''add'', ''-b'', branch, ''--'', target, base]) (\<lambda>_.
         worktree_commit git source target branch roots))))"

section \<open>Where things go\<close>

lemma below_root_iff:
  assumes "is_abs root" "is_abs p"
  shows "below_root root p \<longleftrightarrow> prefix (abs_elems root) (abs_elems p)"
  using path_rel_climbs [OF assms] by (auto simp: below_root_def split: option.split)

lemma containsPath_iff:
  assumes "\<forall>e\<in>set r. plain_name e" "\<forall>e\<in>set p. plain_name e"
  shows "containsPath (path_str r) (path_str p) \<longleftrightarrow> strict_prefix r p"
  using path_rel_dot [OF assms] by (auto simp: containsPath_def split: option.split)

text \<open>The destination of a new project is strictly below the clone root, whatever the command says.\<close>

lemma destination_below:
  assumes "projectCreateDestination letter cwd cloneRoot name destination = Inr d" "is_abs cwd"
  shows "is_abs (trim_space cloneRoot) \<and> d = path_str (abs_elems d)
    \<and> strict_prefix (abs_elems (trim_space cloneRoot)) (abs_elems d)"
proof -
  define root where "root = abs_elems (trim_space cloneRoot)"
  have abs: "is_abs (trim_space cloneRoot)"
    using assms(1) by (auto simp: projectCreateDestination_def Let_def split: if_splits)
  have pl: "\<forall>e\<in>set root. plain_name e" by (simp add: root_def)
  have r: "path_abs cwd (path_clean (trim_space cloneRoot)) = path_str root"
    using abs pl by (simp add: path_abs_def is_abs_clean path_clean_abs root_def)
  obtain x where x: "d = path_abs cwd x"
    and rel: "\<exists>y. path_rel (path_str root) d = Some y \<and> y \<noteq> ''.'' \<and> \<not> climbs y"
    using assms(1) abs by (auto simp: projectCreateDestination_def Let_def r split: if_splits option.splits)
  have d: "d = path_str (abs_elems d)" using path_abs_str [OF assms(2), of x] x by metis
  then have "strict_prefix root (abs_elems d)" using path_rel_dot [OF pl, of "abs_elems d"] rel by simp
  then show ?thesis using abs d by (simp add: root_def)
qed

lemma worktree_git_Inr:
  "worktree_git git context d args s = (Inr out, s') \<longleftrightarrow>
    fst (git ([''-C'', d] @ args) (tree s)) = (None, out)
    \<and> s' = s\<lparr>tree := snd (git ([''-C'', d] @ args) (tree s)), ran := ran s @ [[''-C'', d] @ args]\<rparr>"
  by (auto simp: worktree_git_def Let_def split: prod.splits option.splits)

lemma path_join_abs:
  assumes "\<forall>x\<in>set d. plain_name x"
  shows "\<exists>e. path_join [path_str d, p] = path_str e \<and> (\<forall>x\<in>set e. plain_name x)"
proof (cases "p = []")
  case True
  have "path_join [path_str d, []] = path_clean (path_str d)" by (simp add: path_join_def path_str_def)
  then show ?thesis using True assms by auto
next
  case False
  have "\<forall>x\<in>set (d @ path_elems p). x \<noteq> [] \<and> x \<noteq> ''.'' \<and> CHR ''/'' \<notin> set x"
    using assms path_elems_names [of p]
    unfolding set_append ball_Un plain_name_def by (blast dest: path_elems_no_slash)
  then have "\<forall>x\<in>set (clean_elems True (d @ path_elems p)). plain_name x" by (intro clean_elems_rooted) blast
  then show ?thesis using path_join_elems [OF assms False] by blast
qed

lemma allowedPath_real:
  assumes "tree_ok t" "allowedPath p roots must t = Inr q"
  shows "\<exists>e. q = path_str e \<and> (\<forall>x\<in>set e. plain_name x)
    \<and> (\<exists>root\<in>set roots. \<exists>w. worktree_root t root = Some w \<and> prefix (abs_elems w) e) \<and> (must \<longrightarrow> t e \<noteq> None)"
proof -
  define c where "c = path_clean (trim_space p)"
  have run: "worktree_place c must t = Inr q"
    and some: "\<exists>root\<in>set roots. case worktree_root t root of None \<Rightarrow> False | Some root \<Rightarrow> below_root root q"
    using assms(2) by (auto simp: allowedPath_def Let_def try_then_Inr_iff c_def split: if_splits)
  obtain root w where inside: "root \<in> set roots" "worktree_root t root = Some w" "below_root w q"
    using some by (auto split: option.splits)
  have "\<exists>e. q = path_str e \<and> (\<forall>x\<in>set e. plain_name x) \<and> (must \<longrightarrow> t e \<noteq> None)"
  proof (cases must)
    case True
    then show ?thesis using run eval_symlinks_real [OF assms(1), of c q] by (auto simp: worktree_place_def)
  next
    case False
    then obtain parent where parent: "eval_symlinks t (path_dir c) = Inr parent" "q = path_join [parent, path_base c]"
      using run by (cases "eval_symlinks t (path_dir c)") (auto simp: worktree_place_def)
    obtain d where d: "parent = path_str d" "\<forall>x\<in>set d. plain_name x"
      using eval_symlinks_real [OF assms(1) parent(1)] by blast
    then show ?thesis using parent(2) path_join_abs [of d "path_base c"] False by auto
  qed
  then obtain e where e: "q = path_str e" "\<forall>x\<in>set e. plain_name x" "must \<longrightarrow> t e \<noteq> None" by blast
  have "is_abs w" using inside(2)
    by (auto simp: worktree_root_def Let_def is_abs_clean split: if_splits sum.splits dest!: eval_symlinks_real [OF assms(1)])
  then have "prefix (abs_elems w) e" using inside(3) below_root_iff [of w q] e(1,2) by simp
  then show ?thesis using inside(1,2) e by blast
qed

lemma commit_Inr:
  assumes "worktree_commit git source target branch roots s = (Inr r, s')"
  shows "wr_path r = target \<and> wr_branch r = branch"
proof -
  obtain sha s1 where "(case sha of
         Inr sha \<Rightarrow> give \<lparr>wr_path = target, wr_branch = branch, wr_commit = trim_space sha\<rparr>
       | Inl e \<Rightarrow> andThen (outcome (RemoveWorktree git source target branch roots)) (\<lambda>_. refuse_op e)) s1 = (Inr r, s')"
    using assms unfolding worktree_commit_def andThen_Inr by blast
  then show ?thesis by (cases sha) (auto simp: andThen_Inr)
qed


text \<open>Git that lists the given work trees and otherwise succeeds with the name of a commit.\<close>

definition obliging_git :: "string list \<Rightarrow> git" where
  "obliging_git listed args t =
     ((None, if ''list'' \<in> set args then porcelain (map (\<lambda>p. (p, [''branch refs/heads/main''])) listed) else ''c0''), t)"

definition sample_worktree :: worktree_create where
  "sample_worktree = \<lparr>wt_source_path = ''/r/p'', wt_target_path = ''/r/q'', wt_branch = ''topic'', wt_base_ref = []\<rparr>"


section \<open>Through a symbolic link\<close>

text \<open>
  The directories above a new project are made before its place is checked against the real clone
  root, and making them follows symbolic links: a destination that goes through a link in the clone
  root leaves new directories outside of it, although the command fails.
\<close>

definition linked_root :: disk where
  "linked_root = \<lparr>tree = [[] \<mapsto> Directory, [''etc''] \<mapsto> Directory, [''r''] \<mapsto> Directory, [''r'', ''l''] \<mapsto> Link ''/etc''], ran = []\<rparr>"

definition linked_project :: project_create where
  "linked_project = \<lparr>pc_project_id = ''p1'', pc_name = [], pc_destination = ''l/a/b'', pc_initial_branch = [],
     pc_remote_url = [], pc_require_empty = False, pc_readme = False\<rparr>"

theorem parents_outside_clone_root:
  "let r = createProject (obliging_git []) (\<lambda>_. None) (\<lambda>_. False) ''/'' \<lparr>ac_clone_root = ''/r'', ac_scan_roots = []\<rparr>
     linked_project linked_root in
   fst r = Inl (Wrapped ''invalid repository path'' (Said ''path is outside managed roots''))
   \<and> tree linked_root [''etc'', ''a''] = None \<and> tree (snd r) [''etc'', ''a''] = Some Directory"
  by code_simp

end
