(* ===== verification/Project_Store.thy ===== *)
theory Project_Store
  imports Operation_Queue Go_Path
begin

text \<open>
  The tables of projects and of their workspaces, remotes and deployments with all the columns
  that the life cycle of a project reads or writes (internal/store/schema.sql), and the statements
  on them: insertion and update under the constraints, deletion with the cascades of the foreign
  keys. The operations are the rows of \<open>Operation_Queue\<close>: \<open>queue_view\<close> is the database as that
  component sees it, and a statement on operations is one of its statements on the view.
  A transaction is atomic: when a statement of it fails, the database is the one at its start.
\<close>

section \<open>Rows\<close>

record Project =
  pj_id :: string
  pj_name :: string
  pj_remote_url :: string
  pj_normalized_remote :: string
  pj_default_branch :: string
  pj_status :: string
  pj_provision_error :: string
  pj_pinned_at :: "instant option"
  pj_hidden_at :: "instant option"
  pj_updated_at :: instant

record Workspace =
  wk_id :: string
  wk_project_id :: string
  wk_server_id :: string
  wk_path :: string
  wk_display_name :: string
  wk_management_mode :: string
  wk_status :: string
  wk_kind :: string
  wk_parent :: "string option"
  wk_branch :: string
  wk_commit_sha :: string
  wk_dirty :: int
  wk_last_git_refresh_at :: "instant option"
  wk_git_error :: string
  wk_last_scanned_at :: instant

record ProjectRemote =
  rm_project_id :: string
  rm_name :: string
  rm_mode :: string
  rm_provider :: string
  rm_namespace :: string
  rm_repository :: string
  rm_visibility :: string
  rm_credential_profile_id :: string
  rm_fetch_url :: string
  rm_push_url :: string
  rm_web_url :: string
  rm_status :: string
  rm_error :: string
  rm_updated_at :: instant

text \<open>Gemini and Claude sessions, deployment targets, deployments and container states: the columns read here.\<close>

record Session_ref =
  sr_id :: string
  sr_workspace_id :: string

record Target_row =
  tg_id :: string
  tg_project_id :: string

record Deployment_row =
  dp_target_id :: string
  dp_status :: string

record Container_row =
  ct_target_id :: string
  ct_status :: string
  ct_operation_id :: "string option"

record site =
  site_servers :: "Server_row list"
  site_projects :: "Project list"
  site_workspaces :: "Workspace list"
  site_remotes :: "ProjectRemote list"
  site_operations :: "Operation list"
  site_threads :: "Thread_row list"
  site_sessions :: "Session_ref list"
  site_targets :: "Target_row list"
  site_deployments :: "Deployment_row list"
  site_containers :: "Container_row list"

section \<open>The operations of the database\<close>

definition project_key :: "Project \<Rightarrow> Project_row" where
  "project_key p = \<lparr>p_id = pj_id p, p_name = pj_name p, p_pinned_at = pj_pinned_at p, p_hidden_at = pj_hidden_at p\<rparr>"

definition workspace_key :: "Workspace \<Rightarrow> Workspace_row" where
  "workspace_key w = \<lparr>w_id = wk_id w, w_project_id = wk_project_id w, w_server_id = wk_server_id w,
                      w_path = wk_path w, w_status = wk_status w\<rparr>"

definition queue_view :: "site \<Rightarrow> db" where
  "queue_view s = empty_db\<lparr>servers := site_servers s, projects := map project_key (site_projects s),
     workspaces := map workspace_key (site_workspaces s), threads := site_threads s,
     operations := site_operations s\<rparr>"

definition on_queue :: "(db \<Rightarrow> go_error + db) \<Rightarrow> site \<Rightarrow> go_error + site" where
  "on_queue f s = try_then (f (queue_view s)) (\<lambda>d. Inr (s\<lparr>site_operations := operations d\<rparr>))"

definition change_operations :: "(Operation \<Rightarrow> bool) \<Rightarrow> (Operation \<Rightarrow> Operation) \<Rightarrow> site \<Rightarrow> go_error + site" where
  "change_operations sel f = on_queue (\<lambda>d. try_then (update_operations sel f d) (\<lambda>(_, d'). Inr d'))"

definition add_operation :: "Operation \<Rightarrow> site \<Rightarrow> go_error + site" where
  "add_operation row = on_queue (insert_operation row)"

definition site_operation :: "string \<Rightarrow> site \<Rightarrow> go_error + Operation" where
  "site_operation i s = operation_row i (queue_view s)"

definition count_operations :: "(Operation \<Rightarrow> bool) \<Rightarrow> site \<Rightarrow> nat" where
  "count_operations sel s = length (filter sel (site_operations s))"

lemma queue_view_sel [simp]:
  "operations (queue_view s) = site_operations s"
  "servers (queue_view s) = site_servers s"
  "map p_id (projects (queue_view s)) = map pj_id (site_projects s)"
  "map w_id (workspaces (queue_view s)) = map wk_id (site_workspaces s)"
  "threads (queue_view s) = site_threads s"
  by (simp_all add: queue_view_def project_key_def workspace_key_def comp_def)

lemma queue_view_operations [simp]: "queue_view (s\<lparr>site_operations := ops\<rparr>) = (queue_view s)\<lparr>operations := ops\<rparr>"
  by (simp add: queue_view_def)

lemma change_operations_Inr:
  "change_operations sel f s = Inr s' \<longleftrightarrow>
     operations_ok (queue_view s) (map (\<lambda>o1. if sel o1 then f o1 else o1) (site_operations s)) \<and>
     s' = s\<lparr>site_operations := map (\<lambda>o1. if sel o1 then f o1 else o1) (site_operations s)\<rparr>"
  by (auto simp: change_operations_def on_queue_def try_then_Inr_iff update_operations_Inr)

lemma add_operation_Inr:
  "add_operation row s = Inr s' \<longleftrightarrow>
     operations_ok (queue_view s) (site_operations s @ [row]) \<and>
     s' = s\<lparr>site_operations := site_operations s @ [row]\<rparr>"
  by (auto simp: add_operation_def on_queue_def try_then_Inr_iff insert_operation_def store_operations_Inr)

lemma count_operations_none: "count_operations sel s = 0 \<longleftrightarrow> (\<forall>o1\<in>set (site_operations s). \<not> sel o1)"
  by (auto simp: count_operations_def filter_empty_conv)

section \<open>Statements on workspaces and projects\<close>

definition workspaces_ok :: "site \<Rightarrow> Workspace list \<Rightarrow> bool" where
  "workspaces_ok s ws \<longleftrightarrow>
     distinct (map wk_id ws) \<and> distinct (map (\<lambda>w. (wk_server_id w, wk_path w)) ws) \<and>
     list_all (\<lambda>w. wk_project_id w \<in> set (map pj_id (site_projects s)) \<and>
                   wk_server_id w \<in> set (map s_id (site_servers s)) \<and>
                   refers (wk_parent w) (map wk_id ws)) ws"

definition store_workspaces :: "Workspace list \<Rightarrow> site \<Rightarrow> go_error + site" where
  "store_workspaces ws s =
     (if workspaces_ok s ws then Inr (s\<lparr>site_workspaces := ws\<rparr>) else Inl ConstraintFailed)"

definition insert_workspace :: "Workspace \<Rightarrow> site \<Rightarrow> go_error + site" where
  "insert_workspace w s = store_workspaces (site_workspaces s @ [w]) s"

definition update_workspaces :: "(Workspace \<Rightarrow> bool) \<Rightarrow> (Workspace \<Rightarrow> Workspace) \<Rightarrow> site \<Rightarrow> go_error + nat \<times> site" where
  "update_workspaces sel f s =
     try_then (store_workspaces (map (\<lambda>w. if sel w then f w else w) (site_workspaces s)) s)
       (\<lambda>s'. Inr (length (filter sel (site_workspaces s)), s'))"

definition set_null :: "string set \<Rightarrow> string option \<Rightarrow> string option" where
  "set_null gone ref = (case ref of None \<Rightarrow> None | Some i \<Rightarrow> if i \<in> gone then None else Some i)"

text \<open>
  \<open>DELETE FROM workspaces\<close>: the sessions of the workspaces go with them, the references of
  operations and child workspaces become NULL.
\<close>

definition delete_workspaces :: "(Workspace \<Rightarrow> bool) \<Rightarrow> site \<Rightarrow> nat \<times> site" where
  "delete_workspaces sel s =
     (let gone = wk_id ` set (filter sel (site_workspaces s));
          lost = t_id ` set (filter (\<lambda>t. t_workspace_id t \<in> gone) (site_threads s))
      in (length (filter sel (site_workspaces s)),
          s\<lparr>site_workspaces := map (\<lambda>w. w\<lparr>wk_parent := set_null gone (wk_parent w)\<rparr>)
              (filter (\<lambda>w. \<not> sel w) (site_workspaces s)),
            site_threads := filter (\<lambda>t. t_workspace_id t \<notin> gone) (site_threads s),
            site_sessions := filter (\<lambda>t. sr_workspace_id t \<notin> gone) (site_sessions s),
            site_operations := map (\<lambda>o1. o1\<lparr>o_workspace_id := set_null gone (o_workspace_id o1),
                                             o_thread_id := set_null lost (o_thread_id o1)\<rparr>)
              (site_operations s)\<rparr>))"

definition projects_ok :: "Project list \<Rightarrow> bool" where
  "projects_ok ps \<longleftrightarrow>
     distinct (map pj_id ps) \<and> distinct (filter (\<lambda>r. r \<noteq> []) (map pj_normalized_remote ps))"

definition store_projects :: "Project list \<Rightarrow> site \<Rightarrow> go_error + site" where
  "store_projects ps s = (if projects_ok ps then Inr (s\<lparr>site_projects := ps\<rparr>) else Inl ConstraintFailed)"

definition update_projects :: "(Project \<Rightarrow> bool) \<Rightarrow> (Project \<Rightarrow> Project) \<Rightarrow> site \<Rightarrow> go_error + site" where
  "update_projects sel f s = store_projects (map (\<lambda>p. if sel p then f p else p) (site_projects s)) s"

text \<open>\<open>DELETE FROM projects\<close>: workspaces, remotes and deployment targets go with the project.\<close>

definition delete_projects :: "string \<Rightarrow> site \<Rightarrow> nat \<times> site" where
  "delete_projects i s =
     (let s1 = snd (delete_workspaces (\<lambda>w. wk_project_id w = i) s);
          targets = tg_id ` set (filter (\<lambda>g. tg_project_id g = i) (site_targets s))
      in (length (filter (\<lambda>p. pj_id p = i) (site_projects s)),
          s1\<lparr>site_projects := filter (\<lambda>p. pj_id p \<noteq> i) (site_projects s),
             site_remotes := filter (\<lambda>r. rm_project_id r \<noteq> i) (site_remotes s),
             site_targets := filter (\<lambda>g. tg_project_id g \<noteq> i) (site_targets s),
             site_deployments := filter (\<lambda>x. dp_target_id x \<notin> targets) (site_deployments s),
             site_containers := filter (\<lambda>x. ct_target_id x \<notin> targets) (site_containers s),
             site_operations := map (\<lambda>o1. o1\<lparr>o_project_id := set_null {i} (o_project_id o1)\<rparr>)
               (site_operations s1)\<rparr>))"

definition find_site_workspace :: "string \<Rightarrow> site \<Rightarrow> go_error + Workspace" where
  "find_site_workspace i s = find_row (\<lambda>w. wk_id w = i) (site_workspaces s)"

definition find_project :: "string \<Rightarrow> site \<Rightarrow> go_error + Project" where
  "find_project i s = find_row (\<lambda>p. pj_id p = i) (site_projects s)"

definition in_project :: "string \<Rightarrow> Workspace \<Rightarrow> bool" where
  "in_project i w \<longleftrightarrow> wk_project_id w = i"

section \<open>What the statements leave alone\<close>

lemma change_operations_rest:
  assumes "change_operations sel f s = Inr s'"
  shows "site_workspaces s' = site_workspaces s" and "site_projects s' = site_projects s"
    and "site_servers s' = site_servers s"
    and "site_operations s' = map (\<lambda>o1. if sel o1 then f o1 else o1) (site_operations s)"
  using assms by (auto simp: change_operations_Inr)

lemma add_operation_rest:
  assumes "add_operation row s = Inr s'"
  shows "site_workspaces s' = site_workspaces s" and "site_projects s' = site_projects s"
    and "site_servers s' = site_servers s" and "site_operations s' = site_operations s @ [row]"
  using assms by (auto simp: add_operation_Inr)

lemma update_projects_rest:
  assumes "update_projects sel f s = Inr s'"
  shows "site_workspaces s' = site_workspaces s" and "site_operations s' = site_operations s"
    and "site_servers s' = site_servers s"
    and "site_projects s' = map (\<lambda>p. if sel p then f p else p) (site_projects s)"
  using assms by (auto simp: update_projects_def store_projects_def split: if_splits)

lemma update_workspaces_Inr:
  "update_workspaces sel f s = Inr (n, s') \<longleftrightarrow>
     workspaces_ok s (map (\<lambda>w. if sel w then f w else w) (site_workspaces s)) \<and>
     n = length (filter sel (site_workspaces s)) \<and>
     s' = s\<lparr>site_workspaces := map (\<lambda>w. if sel w then f w else w) (site_workspaces s)\<rparr>"
  by (auto simp: update_workspaces_def store_workspaces_def try_then_Inr_iff)

lemma insert_workspace_Inr:
  "insert_workspace w s = Inr s' \<longleftrightarrow>
     workspaces_ok s (site_workspaces s @ [w]) \<and> s' = s\<lparr>site_workspaces := site_workspaces s @ [w]\<rparr>"
  by (auto simp: insert_workspace_def store_workspaces_def)

lemma delete_workspaces_ids:
  "wk_id ` set (site_workspaces (snd (delete_workspaces sel s))) = wk_id ` set (filter (\<lambda>w. \<not> sel w) (site_workspaces s))"
  by (simp add: delete_workspaces_def Let_def image_image)

lemma delete_workspaces_rest [simp]:
  "site_projects (snd (delete_workspaces sel s)) = site_projects s"
  "site_servers (snd (delete_workspaces sel s)) = site_servers s"
  by (simp_all add: delete_workspaces_def Let_def)

end
