(* ===== verification/Project_Deletion.thy ===== *)
theory Project_Deletion
  imports Project_Store
begin

text \<open>
  The deletion of a project, internal/store/project_deletion.go: the plan with its blockers, the
  deletion of the records alone, and the deletion of the managed files, one operation per managed
  workspace, the linked worktrees before the repositories that own them.
\<close>

section \<open>The plan\<close>

definition ProjectDeleteOperationKind :: string where
  "ProjectDeleteOperationKind = ''git.project.delete''"

definition ServerOnlineGracePeriod :: duration where
  "ServerOnlineGracePeriod = 90 * ns_second"

record ProjectDeletionWorkspace =
  dw_id :: string
  dw_server_id :: string
  dw_server_name :: string
  dw_server_status :: string
  dw_path :: string
  dw_management_mode :: string
  dw_kind :: string
  dw_branch :: string
  dw_commit_sha :: string
  dw_dirty :: int

record ProjectDeletionBlocker =
  bl_code :: string
  bl_message :: string
  bl_count :: nat
  bl_modes :: "string list"

record ProjectDeletionPlan =
  dl_project_id :: string
  dl_project_name :: string
  dl_remote_url :: string
  dl_remote_preserved :: bool
  dl_can_delete_metadata :: bool
  dl_can_delete_managed_files :: bool
  dl_workspace_count :: nat
  dl_managed_workspace_count :: nat
  dl_observed_workspace_count :: nat
  dl_active_agent_operations :: nat
  dl_active_codex_tasks :: nat
  dl_active_deployments :: nat
  dl_dirty_managed_workspaces :: nat
  dl_offline_managed_servers :: nat
  dl_workspaces :: "ProjectDeletionWorkspace list"
  dl_blockers :: "ProjectDeletionBlocker list"

definition server_online :: "instant \<Rightarrow> Server_row \<Rightarrow> bool" where
  "server_online cutoff srv \<longleftrightarrow>
     s_revoked_at srv = None \<and> (case s_last_seen_at srv of None \<Rightarrow> False | Some at \<Rightarrow> cutoff < at)"

definition deletion_workspace :: "instant \<Rightarrow> Workspace \<Rightarrow> Server_row \<Rightarrow> ProjectDeletionWorkspace" where
  "deletion_workspace cutoff w srv =
     \<lparr>dw_id = wk_id w, dw_server_id = wk_server_id w, dw_server_name = s_name srv,
      dw_server_status = (if server_online cutoff srv then ''online'' else ''offline''),
      dw_path = wk_path w, dw_management_mode = wk_management_mode w, dw_kind = wk_kind w,
      dw_branch = wk_branch w, dw_commit_sha = wk_commit_sha w, dw_dirty = wk_dirty w\<rparr>"

text \<open>The join with the servers, in the order of server name and path.\<close>

definition deletion_workspaces :: "string \<Rightarrow> instant \<Rightarrow> site \<Rightarrow> ProjectDeletionWorkspace list" where
  "deletion_workspaces projectID cutoff s =
     order_by (\<lambda>w. (dw_server_name w, dw_path w))
       (concat (map (\<lambda>w. map (deletion_workspace cutoff w)
           (filter (\<lambda>srv. s_id srv = wk_server_id w) (site_servers s)))
         (filter (in_project projectID) (site_workspaces s))))"

definition appendDeletionBlocker ::
    "ProjectDeletionBlocker list \<Rightarrow> string \<Rightarrow> string \<Rightarrow> nat \<Rightarrow> string list \<Rightarrow> ProjectDeletionBlocker list" where
  "appendDeletionBlocker blockers code message count modes =
     (if count = 0 then blockers
      else blockers @ [\<lparr>bl_code = code, bl_message = message, bl_count = count, bl_modes = modes\<rparr>])"

definition managed :: "ProjectDeletionWorkspace \<Rightarrow> bool" where
  "managed w \<longleftrightarrow> dw_management_mode w = ''managed''"

text \<open>The counters that one workspace adds to.\<close>

definition count_workspace :: "ProjectDeletionPlan \<Rightarrow> ProjectDeletionWorkspace \<Rightarrow> ProjectDeletionPlan" where
  "count_workspace plan w =
     (let plan1 = plan\<lparr>dl_workspace_count := dl_workspace_count plan + 1\<rparr> in
      if managed w then
        plan1\<lparr>dl_managed_workspace_count := dl_managed_workspace_count plan1 + 1,
              dl_dirty_managed_workspaces := dl_dirty_managed_workspaces plan1 + (if dw_dirty w \<noteq> 0 then 1 else 0),
              dl_offline_managed_servers := dl_offline_managed_servers plan1 + (if dw_server_status w \<noteq> ''online'' then 1 else 0)\<rparr>
      else plan1\<lparr>dl_observed_workspace_count := dl_observed_workspace_count plan1 + 1\<rparr>)"

definition workspace_in_project :: "site \<Rightarrow> string \<Rightarrow> string \<Rightarrow> bool" where
  "workspace_in_project s projectID w \<longleftrightarrow>
     list_ex (\<lambda>x. wk_id x = w \<and> wk_project_id x = projectID) (site_workspaces s)"

definition active_agent_operations :: "string \<Rightarrow> site \<Rightarrow> nat" where
  "active_agent_operations projectID s = count_operations
     (\<lambda>o1. (o_project_id o1 = Some projectID \<or>
            (case o_workspace_id o1 of None \<Rightarrow> False | Some w \<Rightarrow> workspace_in_project s projectID w)) \<and> active o1) s"

definition active_codex_tasks :: "string \<Rightarrow> site \<Rightarrow> nat" where
  "active_codex_tasks projectID s = length (filter
     (\<lambda>t. workspace_in_project s projectID (t_workspace_id t) \<and> t_status t \<in> {''queued'', ''running''}) (site_threads s))"

definition target_in_project :: "site \<Rightarrow> string \<Rightarrow> string \<Rightarrow> bool" where
  "target_in_project s projectID g \<longleftrightarrow>
     list_ex (\<lambda>x. tg_id x = g \<and> tg_project_id x = projectID) (site_targets s)"

definition active_deployments :: "string \<Rightarrow> site \<Rightarrow> nat" where
  "active_deployments projectID s =
     length (filter (\<lambda>x. target_in_project s projectID (dp_target_id x) \<and>
                         dp_status x \<in> {''queued'', ''preparing'', ''running''}) (site_deployments s)) +
     length (filter (\<lambda>x. target_in_project s projectID (ct_target_id x) \<and>
                         ct_status x = ''pending'' \<and> ct_operation_id x \<noteq> None) (site_containers s))"

definition new_plan :: "Project \<Rightarrow> ProjectDeletionPlan" where
  "new_plan p =
     \<lparr>dl_project_id = pj_id p, dl_project_name = pj_name p, dl_remote_url = pj_remote_url p,
      dl_remote_preserved = True, dl_can_delete_metadata = False, dl_can_delete_managed_files = False,
      dl_workspace_count = 0, dl_managed_workspace_count = 0, dl_observed_workspace_count = 0,
      dl_active_agent_operations = 0, dl_active_codex_tasks = 0, dl_active_deployments = 0,
      dl_dirty_managed_workspaces = 0, dl_offline_managed_servers = 0,
      dl_workspaces = [], dl_blockers = []\<rparr>"

definition plan_blockers :: "ProjectDeletionPlan \<Rightarrow> ProjectDeletionBlocker list" where
  "plan_blockers plan =
     (let common = [''metadata-only'', ''managed-files''];
          b1 = appendDeletionBlocker [] ''active-agent-operations''
                 ''active Agent operations must finish before deleting the project'' (dl_active_agent_operations plan) common;
          b2 = appendDeletionBlocker b1 ''active-codex-tasks''
                 ''active Codex tasks must finish before deleting the project'' (dl_active_codex_tasks plan) common;
          b3 = appendDeletionBlocker b2 ''active-deployments''
                 ''active deployments must finish before deleting the project'' (dl_active_deployments plan) common;
          b4 = appendDeletionBlocker b3 ''dirty-managed-workspaces''
                 ''managed workspaces contain uncommitted changes'' (dl_dirty_managed_workspaces plan) [''managed-files'']
      in appendDeletionBlocker b4 ''offline-managed-servers''
           ''managed workspace servers must be online'' (dl_offline_managed_servers plan) [''managed-files''])"

definition projectDeletionPlan :: "string \<Rightarrow> instant \<Rightarrow> site \<Rightarrow> go_error + ProjectDeletionPlan" where
  "projectDeletionPlan projectID now s =
     try_then (find_project projectID s) (\<lambda>p.
       let ws = deletion_workspaces projectID (now - ServerOnlineGracePeriod) s;
           plan1 = foldl count_workspace ((new_plan p)\<lparr>dl_workspaces := ws\<rparr>) ws;
           plan2 = plan1\<lparr>dl_active_agent_operations := active_agent_operations projectID s,
                         dl_active_codex_tasks := active_codex_tasks projectID s,
                         dl_active_deployments := active_deployments projectID s\<rparr>;
           metadata = (dl_active_agent_operations plan2 = 0 \<and> dl_active_codex_tasks plan2 = 0 \<and>
                       dl_active_deployments plan2 = 0)
       in Inr (plan2\<lparr>dl_blockers := plan_blockers plan2, dl_can_delete_metadata := metadata,
                     dl_can_delete_managed_files := metadata \<and> dl_dirty_managed_workspaces plan2 = 0 \<and>
                       dl_offline_managed_servers plan2 = 0\<rparr>))"

section \<open>Deleting the records\<close>

definition ErrProjectDeletionBlocked :: go_error where
  "ErrProjectDeletionBlocked = Err ''project deletion is blocked''"

definition DeleteProjectMetadata :: "string \<Rightarrow> instant \<Rightarrow> site \<Rightarrow> go_error + bool \<times> site" where
  "DeleteProjectMetadata projectID now s =
     try_then (projectDeletionPlan projectID now s) (\<lambda>plan.
       if \<not> dl_can_delete_metadata plan then Inl ErrProjectDeletionBlocked
       else (let (rows, s') = delete_projects projectID s in Inr (0 < rows, s')))"

section \<open>Deleting the managed files\<close>

record GitProjectDeleteCommand =
  DeleteProjectID :: string
  DeleteWorkspaceID :: string
  DeletePath :: string

definition encode_delete :: "GitProjectDeleteCommand \<Rightarrow> json" where
  "encode_delete c = JObj (str_entry ''project_id'' (DeleteProjectID c) @
     omit_str ''workspace_id'' (DeleteWorkspaceID c) @ str_entry ''path'' (DeletePath c))"

text \<open>The command and the result have these fields in common; the result also says \<open>removed\<close>.\<close>

definition decode_delete :: "json \<Rightarrow> GitProjectDeleteCommand option" where
  "decode_delete d =
     (case (str_field ''project_id'' d, str_field ''workspace_id'' d, str_field ''path'' d) of
        (Some p, Some w, Some q) \<Rightarrow> Some \<lparr>DeleteProjectID = p, DeleteWorkspaceID = w, DeletePath = q\<rparr>
      | _ \<Rightarrow> None)"

definition decode_delete_result :: "json \<Rightarrow> GitProjectDeleteCommand option" where
  "decode_delete_result d = (case bool_field ''removed'' d of None \<Rightarrow> None | Some _ \<Rightarrow> decode_delete d)"

lemma decode_encode_delete [simp]: "decode_delete (encode_delete c) = Some c"
  by (cases "DeleteWorkspaceID c = []")
    (simp_all add: decode_delete_def encode_delete_def str_field_def scalar_field_def str_entry_def omit_str_def)

definition delete_operation ::
    "string \<Rightarrow> bool \<Rightarrow> instant \<Rightarrow> ProjectDeletionWorkspace \<Rightarrow> string \<Rightarrow> Operation" where
  "delete_operation projectID hasWorktree now w newID =
     (queued_operation newID (dw_server_id w) \<lparr>ProjectID = projectID, WorkspaceID = dw_id w, ThreadID = []\<rparr>
        ProjectDeleteOperationKind
        (JsonText (encode_delete \<lparr>DeleteProjectID = projectID, DeleteWorkspaceID = dw_id w, DeletePath = dw_path w\<rparr>))
        True (''git-project-delete:'' @ projectID @ '':'' @ dw_id w @ '':'' @ newID) now)
     \<lparr>o_status := (if hasWorktree \<and> dw_kind w \<noteq> ''worktree'' then ''waiting'' else ''queued'')\<rparr>"

definition is_delete :: "string \<Rightarrow> Operation \<Rightarrow> bool" where
  "is_delete projectID o1 \<longleftrightarrow> o_project_id o1 = Some projectID \<and> o_kind o1 = ProjectDeleteOperationKind"

fun queue_deletions ::
    "string \<Rightarrow> bool \<Rightarrow> instant \<Rightarrow> ProjectDeletionWorkspace list \<Rightarrow> string list \<Rightarrow> site \<Rightarrow>
     go_error + string list \<times> site" where
  "queue_deletions projectID hasWorktree now (w # ws) (newID # newIDs) s =
     try_then (add_operation (delete_operation projectID hasWorktree now w newID) s) (\<lambda>s1.
       try_then (queue_deletions projectID hasWorktree now ws newIDs s1) (\<lambda>(ids, s2). Inr (newID # ids, s2)))"
| "queue_deletions projectID hasWorktree now _ _ s = Inr ([], s)"

text \<open>
  \<open>newIDs\<close> supplies the identifier of each operation. The result is the list of the operations and
  whether nothing had to be queued.
\<close>

definition QueueProjectManagedDeletion ::
    "string \<Rightarrow> (nat \<Rightarrow> string) \<Rightarrow> instant \<Rightarrow> site \<Rightarrow> go_error + string list \<times> bool \<times> site" where
  "QueueProjectManagedDeletion projectID newIDs now s =
     try_then (projectDeletionPlan projectID now s) (\<lambda>plan.
       if \<not> dl_can_delete_managed_files plan then Inl ErrProjectDeletionBlocked
       else let chosen = filter managed (dl_workspaces plan) in
         if chosen = [] then
           (if 0 < dl_observed_workspace_count plan then Inr ([], True, s)
            else Inr ([], True, snd (delete_projects projectID s)))
         else
           try_then (change_operations
               (\<lambda>o1. is_delete projectID o1 \<and> o_status o1 \<in> {''failed'', ''canceled''})
               (\<lambda>o1. o1\<lparr>o_status := ''superseded''\<rparr>) s) (\<lambda>s1.
           try_then (update_projects (\<lambda>p. pj_id p = projectID)
               (\<lambda>p. p\<lparr>pj_status := ''deleting'', pj_provision_error := [], pj_updated_at := now\<rparr>) s1) (\<lambda>s2.
           try_then (queue_deletions projectID (list_ex (\<lambda>w. dw_kind w = ''worktree'') chosen) now chosen
               (map newIDs [0..<length chosen]) s2) (\<lambda>(ids, s3). Inr (ids, False, s3)))))"

section \<open>Completing one deletion\<close>

text \<open>The result as the transaction records it: anything but a matching success is a failure.\<close>

definition settle_deletion :: "GitProjectDeleteCommand \<Rightarrow> OperationResult \<Rightarrow> OperationResult" where
  "settle_deletion command r =
     (let r1 = (if ResultStatus r \<noteq> ''succeeded''
                then r\<lparr>ResultStatus := ''failed'',
                       ResultMessage := (if ResultMessage r = [] then ''agent failed to delete managed workspace''
                                         else ResultMessage r)\<rparr>
                else r)
      in if ResultStatus r1 = ''succeeded'' \<and>
            (case ResultData r1 of
               Some (Some doc) \<Rightarrow> decode_delete_result doc \<noteq> Some command
             | _ \<Rightarrow> True)
         then r1\<lparr>ResultStatus := ''failed'', ResultMessage := ''invalid project deletion result''\<rparr>
         else r1)"

text \<open>What happens to the project when no operation of the deletion is on its way any more.\<close>

definition conclude_deletion :: "string \<Rightarrow> string \<Rightarrow> instant \<Rightarrow> site \<Rightarrow> go_error + site" where
  "conclude_deletion projectID message now s =
     (if 0 < count_operations (\<lambda>o1. is_delete projectID o1 \<and> active o1) s then Inr s
      else if 0 < count_operations (\<lambda>o1. is_delete projectID o1 \<and> o_status o1 = ''failed'') s then
        try_then (update_projects (\<lambda>p. pj_id p = projectID)
            (\<lambda>p. p\<lparr>pj_status := ''deletion_failed'',
                   pj_provision_error := (if message = [] then ''one or more managed workspaces could not be deleted''
                                          else message), pj_updated_at := now\<rparr>) s) (\<lambda>s1.
          change_operations (\<lambda>o1. is_delete projectID o1 \<and> o_status o1 = ''waiting'')
            (\<lambda>o1. o1\<lparr>o_status := ''canceled'', o_result := Some ''blocked by an earlier project deletion failure'',
                     o_completed_at := Some now\<rparr>) s1)
      else if 0 < count_operations (\<lambda>o1. is_delete projectID o1 \<and> o_status o1 = ''waiting'') s then
        change_operations (\<lambda>o1. is_delete projectID o1 \<and> o_status o1 = ''waiting'')
          (\<lambda>o1. o1\<lparr>o_status := ''queued''\<rparr>) s
      else if filter (in_project projectID) (site_workspaces s) = [] then Inr (snd (delete_projects projectID s))
      else update_projects (\<lambda>p. pj_id p = projectID)
             (\<lambda>p. p\<lparr>pj_status := (if pj_status p = ''deleting'' then ''ready'' else pj_status p),
                    pj_provision_error := [], pj_updated_at := now\<rparr>) s)"

definition CompleteProjectDeletion :: "Operation \<Rightarrow> OperationResult \<Rightarrow> instant \<Rightarrow> site \<Rightarrow> go_error + site" where
  "CompleteProjectDeletion op1 r now s =
     (if o_kind op1 \<noteq> ProjectDeleteOperationKind \<or> or_empty (o_project_id op1) = [] \<or> or_empty (o_workspace_id op1) = []
      then Inl (Err ''invalid project deletion operation'')
      else if ResultOperationID r \<noteq> o_id op1 then Inl (Err ''project deletion result operation mismatch'')
      else case (case stored_json (o_payload op1) of None \<Rightarrow> None | Some doc \<Rightarrow> decode_delete doc) of
        None \<Rightarrow> Inl BadJSON
      | Some command \<Rightarrow>
          if DeleteProjectID command \<noteq> or_empty (o_project_id op1) \<or> DeleteWorkspaceID command \<noteq> or_empty (o_workspace_id op1)
          then Inl (Err ''project deletion operation resource mismatch'')
          else let settled = settle_deletion command r in
            try_then (operationResultData (ResultData settled)) (\<lambda>data.
            try_then (change_operations (\<lambda>o1. o_id o1 = o_id op1 \<and> o_kind o1 = ProjectDeleteOperationKind)
                (finish (ResultStatus settled) (ResultMessage settled) data now) s) (\<lambda>s1.
            conclude_deletion (or_empty (o_project_id op1)) (ResultMessage settled) now
              (if ResultStatus settled = ''succeeded''
               then snd (delete_workspaces (\<lambda>w. wk_id w = or_empty (o_workspace_id op1) \<and>
                      wk_project_id w = or_empty (o_project_id op1) \<and> wk_management_mode w = ''managed'') s1)
               else s1))))"

end
