(* ===== verification/Workspace_Lifecycle.thy ===== *)
theory Workspace_Lifecycle
  imports Project_Store
begin

text \<open>
  The life cycle of one workspace, internal/store/workspace_lifecycle.go and the handling of its
  results in internal/agentgateway/gateway.go: the removal of a record, and the operations that
  move, copy or delete the files, or clone them to another server. An operation is queued with the
  workspace marked as busy, and its result takes the mark away.
\<close>

section \<open>The deletion plan of a workspace\<close>

record WorkspaceDeletionPlan =
  wp_workspace_id :: string
  wp_path :: string
  wp_managed :: bool
  wp_dirty :: bool
  wp_active_operations :: nat
  wp_thread_count :: nat
  wp_child_workspaces :: nat
  wp_can_remove_record :: bool
  wp_can_delete_files :: bool
  wp_record_blockers :: "string list"
  wp_file_blockers :: "string list"
  wp_blockers :: "string list"

definition UpdateWorkspaceDisplayName :: "string \<Rightarrow> string \<Rightarrow> site \<Rightarrow> go_error + Workspace \<times> site" where
  "UpdateWorkspaceDisplayName workspaceID displayName s =
     try_then (update_workspaces (\<lambda>w. wk_id w = workspaceID) (\<lambda>w. w\<lparr>wk_display_name := displayName\<rparr>) s)
       (\<lambda>(rows, s'). if rows \<noteq> 1 then Inl ErrNoRows
                     else try_then (find_site_workspace workspaceID s') (\<lambda>w. Inr (w, s')))"

definition active_on :: "string \<Rightarrow> site \<Rightarrow> nat" where
  "active_on workspaceID s = count_operations (\<lambda>o1. o_workspace_id o1 = Some workspaceID \<and> active o1) s"

definition sessions_on :: "string \<Rightarrow> site \<Rightarrow> nat" where
  "sessions_on workspaceID s =
     length (filter (\<lambda>t. t_workspace_id t = workspaceID) (site_threads s)) +
     length (filter (\<lambda>t. sr_workspace_id t = workspaceID) (site_sessions s))"

definition children_of :: "string \<Rightarrow> site \<Rightarrow> nat" where
  "children_of workspaceID s = length (filter (\<lambda>w. wk_parent w = Some workspaceID) (site_workspaces s))"

definition blocker :: "bool \<Rightarrow> string \<Rightarrow> string list" where
  "blocker b message = (if b then [message] else [])"

definition plan_workspace_deletion :: "string \<Rightarrow> bool \<Rightarrow> site \<Rightarrow> go_error + WorkspaceDeletionPlan" where
  "plan_workspace_deletion workspaceID force s =
     try_then (find_site_workspace workspaceID s) (\<lambda>w.
       let activeOps = active_on workspaceID s; sessions = sessions_on workspaceID s;
           children = children_of workspaceID s;
           is_managed = (wk_management_mode w = ''managed''); dirty = (wk_dirty w \<noteq> 0);
           recordBlockers = blocker (activeOps \<noteq> 0) ''workspace has active operations'' @
             blocker (sessions \<noteq> 0) ''workspace has Codex or Gemini sessions'' @
             blocker (children \<noteq> 0) ''workspace has linked worktrees'';
           fileBlockers = recordBlockers @ blocker (\<not> is_managed) ''workspace is not managed'' @
             blocker (dirty \<and> \<not> force) ''workspace has uncommitted changes''
       in Inr \<lparr>wp_workspace_id = wk_id w, wp_path = wk_path w, wp_managed = is_managed, wp_dirty = dirty,
               wp_active_operations = activeOps, wp_thread_count = sessions, wp_child_workspaces = children,
               wp_can_remove_record = (recordBlockers = []), wp_can_delete_files = (fileBlockers = []),
               wp_record_blockers = recordBlockers, wp_file_blockers = fileBlockers,
               wp_blockers = (if fileBlockers \<noteq> [] then fileBlockers else recordBlockers)\<rparr>)"

definition removable :: "string \<Rightarrow> site \<Rightarrow> bool" where
  "removable workspaceID s \<longleftrightarrow>
     \<not> list_ex (\<lambda>o1. o_workspace_id o1 = Some workspaceID \<and> active o1) (site_operations s) \<and>
     \<not> list_ex (\<lambda>t. t_workspace_id t = workspaceID) (site_threads s) \<and>
     \<not> list_ex (\<lambda>t. sr_workspace_id t = workspaceID) (site_sessions s) \<and>
     \<not> list_ex (\<lambda>w. wk_parent w = Some workspaceID) (site_workspaces s)"

definition RemoveWorkspaceRecord :: "string \<Rightarrow> site \<Rightarrow> go_error + site" where
  "RemoveWorkspaceRecord workspaceID s =
     try_then (plan_workspace_deletion workspaceID False s) (\<lambda>plan.
       if \<not> wp_can_remove_record plan then Inl (Err ''workspace metadata cannot be removed while dependencies exist'')
       else let (rows, s') = delete_workspaces (\<lambda>w. wk_id w = workspaceID \<and> removable workspaceID s) s in
         if rows \<noteq> 1 then Inl ErrNoRows else Inr s')"

section \<open>Commands and results\<close>

record GitWorkspaceLifecycleCommand =
  lc_workspace_id :: string
  lc_target_workspace_id :: string
  lc_project_id :: string
  lc_action :: string
  lc_source_path :: string
  lc_target_path :: string
  lc_workspace_kind :: string
  lc_force :: bool

record GitWorkspaceLifecycleResult =
  lr_workspace_id :: string
  lr_target_workspace_id :: string
  lr_action :: string
  lr_source_path :: string
  lr_target_path :: string

record GitWorkspaceCloneCommand =
  cc_workspace_id :: string
  cc_project_id :: string
  cc_name :: string
  cc_destination :: string
  cc_remote_url :: string
  cc_branch :: string
  cc_expected_head :: string

record GitWorkspaceCloneResult =
  cr_workspace_id :: string
  cr_project_id :: string
  cr_path :: string
  cr_branch :: string
  cr_commit_sha :: string

definition omit_bool :: "string \<Rightarrow> bool \<Rightarrow> (string \<times> json) list" where
  "omit_bool name v = (if v then [(name, JBool True)] else [])"

definition encode_lifecycle :: "GitWorkspaceLifecycleCommand \<Rightarrow> json" where
  "encode_lifecycle c = JObj (str_entry ''workspace_id'' (lc_workspace_id c) @
     omit_str ''target_workspace_id'' (lc_target_workspace_id c) @ str_entry ''project_id'' (lc_project_id c) @
     str_entry ''action'' (lc_action c) @ str_entry ''source_path'' (lc_source_path c) @
     omit_str ''target_path'' (lc_target_path c) @ omit_str ''workspace_kind'' (lc_workspace_kind c) @
     omit_bool ''force'' (lc_force c))"

definition decode_lifecycle :: "json \<Rightarrow> GitWorkspaceLifecycleCommand option" where
  "decode_lifecycle d =
     (case (str_field ''workspace_id'' d, str_field ''target_workspace_id'' d, str_field ''project_id'' d,
            str_field ''action'' d, str_field ''source_path'' d, str_field ''target_path'' d,
            str_field ''workspace_kind'' d, bool_field ''force'' d) of
        (Some a, Some b, Some c, Some e, Some f, Some g, Some h, Some i) \<Rightarrow>
          Some \<lparr>lc_workspace_id = a, lc_target_workspace_id = b, lc_project_id = c, lc_action = e,
                lc_source_path = f, lc_target_path = g, lc_workspace_kind = h, lc_force = i\<rparr>
      | _ \<Rightarrow> None)"

definition decode_lifecycle_result :: "json \<Rightarrow> GitWorkspaceLifecycleResult option" where
  "decode_lifecycle_result d =
     (case (str_field ''workspace_id'' d, str_field ''target_workspace_id'' d, str_field ''action'' d,
            str_field ''source_path'' d, str_field ''target_path'' d) of
        (Some a, Some b, Some c, Some e, Some f) \<Rightarrow>
          Some \<lparr>lr_workspace_id = a, lr_target_workspace_id = b, lr_action = c, lr_source_path = e, lr_target_path = f\<rparr>
      | _ \<Rightarrow> None)"

definition encode_clone :: "GitWorkspaceCloneCommand \<Rightarrow> json" where
  "encode_clone c = JObj (str_entry ''workspace_id'' (cc_workspace_id c) @ str_entry ''project_id'' (cc_project_id c) @
     str_entry ''name'' (cc_name c) @ str_entry ''destination'' (cc_destination c) @
     str_entry ''remote_url'' (cc_remote_url c) @ str_entry ''branch'' (cc_branch c) @
     str_entry ''expected_head'' (cc_expected_head c))"

definition decode_clone :: "json \<Rightarrow> GitWorkspaceCloneCommand option" where
  "decode_clone d =
     (case (str_field ''workspace_id'' d, str_field ''project_id'' d, str_field ''name'' d, str_field ''destination'' d,
            str_field ''remote_url'' d, str_field ''branch'' d, str_field ''expected_head'' d) of
        (Some a, Some b, Some c, Some e, Some f, Some g, Some h) \<Rightarrow>
          Some \<lparr>cc_workspace_id = a, cc_project_id = b, cc_name = c, cc_destination = e, cc_remote_url = f,
                cc_branch = g, cc_expected_head = h\<rparr>
      | _ \<Rightarrow> None)"

definition decode_clone_result :: "json \<Rightarrow> GitWorkspaceCloneResult option" where
  "decode_clone_result d =
     (case (str_field ''workspace_id'' d, str_field ''project_id'' d, str_field ''path'' d, str_field ''branch'' d,
            str_field ''commit_sha'' d) of
        (Some a, Some b, Some c, Some e, Some f) \<Rightarrow>
          Some \<lparr>cr_workspace_id = a, cr_project_id = b, cr_path = c, cr_branch = e, cr_commit_sha = f\<rparr>
      | _ \<Rightarrow> None)"

definition payload_doc :: "Operation \<Rightarrow> (json \<Rightarrow> 'a option) \<Rightarrow> go_error + 'a" where
  "payload_doc op1 dec =
     (case (case stored_json (o_payload op1) of None \<Rightarrow> None | Some doc \<Rightarrow> dec doc) of
        None \<Rightarrow> Inl BadJSON | Some c \<Rightarrow> Inr c)"

definition cleanLifecyclePath :: "string \<Rightarrow> string" where
  "cleanLifecyclePath value = path_clean (trim_space value)"

section \<open>Queueing\<close>

definition active_write_on :: "string \<Rightarrow> site \<Rightarrow> nat" where
  "active_write_on workspaceID s =
     count_operations (\<lambda>o1. o_workspace_id o1 = Some workspaceID \<and> o_workspace_write o1 \<and> active o1) s"

text \<open>A violation of the unique index of active writes is reported as a busy workspace.\<close>

definition insert_write :: "Operation \<Rightarrow> site \<Rightarrow> go_error + site" where
  "insert_write row s =
     (case add_operation row s of
        Inr s' \<Rightarrow> Inr s'
      | Inl e \<Rightarrow> if \<not> distinct (map o_workspace_id (filter active_write (site_operations s @ [row])))
                 then Inl ErrWorkspaceWriteActive else Inl e)"

definition lifecycle_status :: "string \<Rightarrow> string" where
  "lifecycle_status action =
     (if action = ''move'' then ''moving'' else if action = ''copy'' then ''copying''
      else if action = ''delete'' then ''deleting'' else [])"

definition mark_workspace :: "string \<Rightarrow> string \<Rightarrow> string \<Rightarrow> site \<Rightarrow> go_error + site" where
  "mark_workspace workspaceID status message s =
     try_then (update_workspaces (\<lambda>w. wk_id w = workspaceID)
         (\<lambda>w. w\<lparr>wk_status := status, wk_git_error := message\<rparr>) s) (\<lambda>(_, s'). Inr s')"

definition QueueWorkspaceLifecycle ::
    "Workspace \<Rightarrow> GitWorkspaceLifecycleCommand \<Rightarrow> string \<Rightarrow> instant \<Rightarrow> site \<Rightarrow> go_error + string \<times> site" where
  "QueueWorkspaceLifecycle w c newID now s =
     (if wk_management_mode w \<noteq> ''managed'' then Inl (Err ''workspace is observed and cannot be modified'')
      else if lc_workspace_id c \<noteq> wk_id w \<or> lc_project_id c \<noteq> wk_project_id w \<or> lc_source_path c \<noteq> wk_path w
      then Inl (Err ''workspace lifecycle command does not match workspace'')
      else if lc_action c \<notin> {''move'', ''copy'', ''delete''} then Inl (Err ''unsupported workspace lifecycle action'')
      else if lc_action c \<in> {''move'', ''copy''} \<and> trim_space (lc_target_path c) = [] then Inl (Err ''target path is required'')
      else if lc_action c = ''copy'' \<and> lc_target_workspace_id c = [] then Inl (Err ''target workspace ID is required'')
      else if active_write_on (wk_id w) s \<noteq> 0 then Inl ErrWorkspaceWriteActive
      else try_then (insert_write (queued_operation newID (wk_server_id w)
               \<lparr>ProjectID = wk_project_id w, WorkspaceID = wk_id w, ThreadID = []\<rparr> ''git.workspace.lifecycle''
               (JsonText (encode_lifecycle c)) True (''workspace-lifecycle:'' @ wk_id w @ '':'' @ newID) now) s) (\<lambda>s1.
           try_then (mark_workspace (wk_id w) (lifecycle_status (lc_action c)) [] s1) (\<lambda>s2. Inr (newID, s2))))"

definition QueueCrossServerWorkspaceClone ::
    "Workspace \<Rightarrow> string \<Rightarrow> GitWorkspaceCloneCommand \<Rightarrow> string \<Rightarrow> instant \<Rightarrow> site \<Rightarrow> go_error + string \<times> site" where
  "QueueCrossServerWorkspaceClone source targetServerID c newID now s =
     (if wk_management_mode source \<noteq> ''managed'' \<or> wk_server_id source = targetServerID
      then Inl (Err ''cross-server clone requires a managed source and a different target server'')
      else if cc_project_id c \<noteq> wk_project_id source \<or> cc_workspace_id c = [] \<or> cc_remote_url c = [] \<or> cc_branch c = [] \<or>
              cc_expected_head c = [] \<or> cc_destination c = []
      then Inl (Err ''cross-server clone command is incomplete'')
      else if length (filter (\<lambda>srv. s_id srv = targetServerID \<and> s_revoked_at srv = None) (site_servers s)) \<noteq> 1 then Inl ErrNoRows
      else if active_write_on (wk_id source) s \<noteq> 0 then Inl ErrWorkspaceWriteActive
      else try_then (insert_write (queued_operation newID targetServerID
               \<lparr>ProjectID = wk_project_id source, WorkspaceID = wk_id source, ThreadID = []\<rparr> ''git.workspace.clone''
               (JsonText (encode_clone c)) True (''workspace-clone:'' @ wk_id source @ '':'' @ cc_workspace_id c) now) s) (\<lambda>s1.
           try_then (mark_workspace (wk_id source) ''copying'' [] s1) (\<lambda>s2. Inr (newID, s2))))"

section \<open>Results\<close>

definition settle_operation :: "string \<Rightarrow> string \<Rightarrow> string \<Rightarrow> stored_text \<Rightarrow> instant \<Rightarrow> site \<Rightarrow> go_error + site" where
  "settle_operation i status message data now = change_operations (\<lambda>o1. o_id o1 = i) (finish status message data now)"

definition new_primary ::
    "string \<Rightarrow> string \<Rightarrow> string \<Rightarrow> string \<Rightarrow> string \<Rightarrow> string \<Rightarrow> string \<Rightarrow> int \<Rightarrow> instant option \<Rightarrow> instant \<Rightarrow> Workspace" where
  "new_primary i projectID serverID path name branch sha dirty refreshed now =
     \<lparr>wk_id = i, wk_project_id = projectID, wk_server_id = serverID, wk_path = path, wk_display_name = name,
      wk_management_mode = ''managed'', wk_status = ''ready'', wk_kind = ''primary'', wk_parent = None,
      wk_branch = branch, wk_commit_sha = sha, wk_dirty = dirty, wk_last_git_refresh_at = refreshed,
      wk_git_error = [], wk_last_scanned_at = now\<rparr>"

definition CompleteCrossServerWorkspaceClone ::
    "Operation \<Rightarrow> GitWorkspaceCloneCommand \<Rightarrow> GitWorkspaceCloneResult \<Rightarrow> OperationResult \<Rightarrow> instant \<Rightarrow> site \<Rightarrow> go_error + site" where
  "CompleteCrossServerWorkspaceClone op1 c r res now s =
     (if o_kind op1 \<noteq> ''git.workspace.clone'' \<or> or_empty (o_project_id op1) \<noteq> cc_project_id c \<or>
         or_empty (o_workspace_id op1) = [] \<or> o_server_id op1 = []
      then Inl (Err ''workspace clone operation does not match command'')
      else if cr_workspace_id r \<noteq> cc_workspace_id c \<or> cr_project_id r \<noteq> cc_project_id c \<or>
              cleanLifecyclePath (cr_path r) \<noteq> cleanLifecyclePath (cc_destination c) \<or>
              cr_branch r \<noteq> cc_branch c \<or> cr_commit_sha r \<noteq> cc_expected_head c
      then Inl (Err ''workspace clone result does not match command'')
      else try_then (operationResultData (ResultData res)) (\<lambda>data.
        if length (filter (\<lambda>w. wk_id w = or_empty (o_workspace_id op1) \<and> wk_project_id w = cc_project_id c) (site_workspaces s)) \<noteq> 1
        then Inl ErrNoRows
        else try_then (insert_workspace (new_primary (cc_workspace_id c) (cc_project_id c) (o_server_id op1) (cr_path r)
               (cc_name c) (cr_branch r) (cr_commit_sha r) 0 (Some now) now) s) (\<lambda>s1.
             try_then (mark_workspace (or_empty (o_workspace_id op1)) ''ready'' [] s1) (\<lambda>s2.
             settle_operation (o_id op1) ''succeeded'' (ResultMessage res) data now s2))))"

definition failure_data :: "OperationResult \<Rightarrow> stored_text" where
  "failure_data res = (case operationResultData (ResultData res) of Inl _ \<Rightarrow> JsonText (JObj []) | Inr data \<Rightarrow> data)"

definition fail_workspace :: "Operation \<Rightarrow> string \<Rightarrow> OperationResult \<Rightarrow> string \<Rightarrow> instant \<Rightarrow> site \<Rightarrow> go_error + site" where
  "fail_workspace op1 workspaceID res status now s =
     try_then (mark_workspace workspaceID (if status \<noteq> ''partial'' then ''ready'' else status) (ResultMessage res) s) (\<lambda>s1.
       settle_operation (o_id op1) ''failed'' (ResultMessage res) (failure_data res) now s1)"

definition FailCrossServerWorkspaceClone :: "Operation \<Rightarrow> OperationResult \<Rightarrow> string \<Rightarrow> instant \<Rightarrow> site \<Rightarrow> go_error + site" where
  "FailCrossServerWorkspaceClone op1 res status now s = fail_workspace op1 (or_empty (o_workspace_id op1)) res status now s"

definition FailWorkspaceLifecycle ::
    "Operation \<Rightarrow> GitWorkspaceLifecycleCommand \<Rightarrow> OperationResult \<Rightarrow> string \<Rightarrow> instant \<Rightarrow> site \<Rightarrow> go_error + site" where
  "FailWorkspaceLifecycle op1 c res status now s = fail_workspace op1 (lc_workspace_id c) res status now s"

text \<open>The change of the records for each action; a copy takes the columns of the source.\<close>

definition apply_lifecycle ::
    "GitWorkspaceLifecycleCommand \<Rightarrow> GitWorkspaceLifecycleResult \<Rightarrow> string \<Rightarrow> instant \<Rightarrow> site \<Rightarrow> go_error + site" where
  "apply_lifecycle c r serverID now s =
     (if lc_action c = ''move'' then
        try_then (update_workspaces (\<lambda>w. wk_id w = lc_workspace_id c \<and> wk_server_id w = serverID)
            (\<lambda>w. w\<lparr>wk_path := lr_target_path r, wk_status := ''ready'', wk_git_error := [], wk_last_scanned_at := now\<rparr>) s)
          (\<lambda>(rows, s1). if rows \<noteq> 1 then Inl ErrNoRows else Inr s1)
      else if lc_action c = ''copy'' then
        try_then (case find (\<lambda>w. wk_id w = lc_workspace_id c) (site_workspaces s) of
            None \<Rightarrow> Inr s
          | Some w \<Rightarrow> insert_workspace (new_primary (lc_target_workspace_id c) (wk_project_id w) (wk_server_id w)
              (lr_target_path r) (path_base (lr_target_path r)) (wk_branch w) (wk_commit_sha w) (wk_dirty w)
              (wk_last_git_refresh_at w) now) s) (\<lambda>s1.
          mark_workspace (lc_workspace_id c) ''ready'' [] s1)
      else if lc_action c = ''delete'' then
        (let (rows, s1) = delete_workspaces (\<lambda>w. wk_id w = lc_workspace_id c \<and> wk_server_id w = serverID) s in
         if rows \<noteq> 1 then Inl ErrNoRows else Inr s1)
      else Inl (Err ''unsupported workspace lifecycle action''))"

definition CompleteWorkspaceLifecycle ::
    "Operation \<Rightarrow> GitWorkspaceLifecycleCommand \<Rightarrow> GitWorkspaceLifecycleResult \<Rightarrow> OperationResult \<Rightarrow> instant \<Rightarrow> site \<Rightarrow>
     go_error + site" where
  "CompleteWorkspaceLifecycle op1 c r res now s =
     (if o_kind op1 \<noteq> ''git.workspace.lifecycle'' \<or> or_empty (o_project_id op1) \<noteq> lc_project_id c \<or>
         or_empty (o_workspace_id op1) \<noteq> lc_workspace_id c \<or> o_server_id op1 = []
      then Inl (Err ''workspace lifecycle operation does not match command'')
      else if lr_workspace_id r \<noteq> lc_workspace_id c \<or> lr_target_workspace_id r \<noteq> lc_target_workspace_id c \<or>
              lr_action r \<noteq> lc_action c \<or> cleanLifecyclePath (lr_source_path r) \<noteq> cleanLifecyclePath (lc_source_path c)
      then Inl (Err ''workspace lifecycle result does not match command'')
      else if lc_action c \<noteq> ''delete'' \<and> cleanLifecyclePath (lr_target_path r) \<noteq> cleanLifecyclePath (lc_target_path c)
      then Inl (Err ''workspace lifecycle target does not match command'')
      else try_then (operationResultData (ResultData res)) (\<lambda>data.
        try_then (apply_lifecycle c r (o_server_id op1) now s) (\<lambda>s1.
        settle_operation (ResultOperationID res) ''succeeded'' (ResultMessage res) data now s1)))"

section \<open>The results at the gateway\<close>

text \<open>
  The parts of \<open>HandleAgentMessage\<close> for the two kinds. The result that is published is the one
  returned: a success that cannot be recorded is published as a failure. Decoding errors carry the
  text of the JSON library, which \<open>why\<close> supplies, as does \<open>shown\<close> for an error of the store.
\<close>

definition default_message :: "string \<Rightarrow> OperationResult \<Rightarrow> OperationResult" where
  "default_message message res = (if ResultMessage res = [] then res\<lparr>ResultMessage := message\<rparr> else res)"

definition failed_with :: "string \<Rightarrow> OperationResult \<Rightarrow> OperationResult" where
  "failed_with message res = res\<lparr>ResultStatus := ''failed'', ResultMessage := message\<rparr>"

definition result_doc :: "(json \<Rightarrow> 'a option) \<Rightarrow> OperationResult \<Rightarrow> 'a option" where
  "result_doc dec res = (case ResultData res of Some (Some doc) \<Rightarrow> dec doc | _ \<Rightarrow> None)"

definition handle_clone_result ::
    "string \<Rightarrow> (go_error \<Rightarrow> string) \<Rightarrow> Operation \<Rightarrow> OperationResult \<Rightarrow> instant \<Rightarrow> site \<Rightarrow> go_error + OperationResult \<times> site" where
  "handle_clone_result why shown op1 res now s =
     try_then (payload_doc op1 decode_clone) (\<lambda>c.
       let fail = (\<lambda>r status. try_then (FailCrossServerWorkspaceClone op1 r status now s) (\<lambda>s'. Inr (r, s'))) in
       if ResultStatus res \<noteq> ''succeeded''
       then fail (default_message ''agent failed to clone workspace'' res) ''ready''
       else case result_doc decode_clone_result res of
           None \<Rightarrow> fail (failed_with (''invalid workspace clone result: '' @ why) res) ''partial''
         | Some r \<Rightarrow>
             (case CompleteCrossServerWorkspaceClone op1 c r res now s of
                Inr s' \<Rightarrow> Inr (res, s')
              | Inl e \<Rightarrow> fail (failed_with (''workspace cloned but control-plane commit failed: '' @ shown e) res) ''partial''))"

definition handle_lifecycle_result ::
    "string \<Rightarrow> (go_error \<Rightarrow> string) \<Rightarrow> Operation \<Rightarrow> OperationResult \<Rightarrow> instant \<Rightarrow> site \<Rightarrow> go_error + OperationResult \<times> site" where
  "handle_lifecycle_result why shown op1 res now s =
     try_then (payload_doc op1 decode_lifecycle) (\<lambda>c.
       let fail = (\<lambda>r status. try_then (FailWorkspaceLifecycle op1 c r status now s) (\<lambda>s'. Inr (r, s'))) in
       if ResultStatus res \<noteq> ''succeeded''
       then fail (default_message ''agent failed to update workspace'' res) ''ready''
       else case result_doc decode_lifecycle_result res of
           None \<Rightarrow> fail (failed_with (''invalid workspace lifecycle result: '' @ why) res) ''partial''
         | Some r \<Rightarrow>
             (case CompleteWorkspaceLifecycle op1 c r res now s of
                Inr s' \<Rightarrow> Inr (res, s')
              | Inl e \<Rightarrow> fail (failed_with (''workspace files changed but control-plane commit failed: '' @ shown e) res) ''partial''))"

text \<open>Reading a field back past the entries before it.\<close>

lemma scan_entries:
  "scalar_entries as_string name acc (str_entry k v @ r) =
     scalar_entries as_string name (if fold_name k = fold_name name then v else acc) r"
  "scalar_entries as_string name acc (omit_str k v @ r) =
     scalar_entries as_string name (if fold_name k = fold_name name \<and> v \<noteq> [] then v else acc) r"
  "scalar_entries as_string name acc (str_entry k v) = Some (if fold_name k = fold_name name then v else acc)"
  "fold_name k \<noteq> fold_name name \<Longrightarrow> scalar_entries as_string name acc (omit_bool k b) = Some acc"
  "fold_name k \<noteq> fold_name name \<Longrightarrow> scalar_entries as_bool name a (str_entry k v @ r) = scalar_entries as_bool name a r"
  "fold_name k \<noteq> fold_name name \<Longrightarrow> scalar_entries as_bool name a (omit_str k v @ r) = scalar_entries as_bool name a r"
  "scalar_entries as_bool k False (omit_bool k b) = Some b"
  by (simp_all add: str_entry_def omit_str_def omit_bool_def)

lemma lifecycle_names:
  "fold_name ''workspace_id'' = ''workspace_id''" "fold_name ''target_workspace_id'' = ''target_workspace_id''"
  "fold_name ''project_id'' = ''project_id''" "fold_name ''action'' = ''action''"
  "fold_name ''source_path'' = ''source_path''" "fold_name ''target_path'' = ''target_path''"
  "fold_name ''workspace_kind'' = ''workspace_kind''" "fold_name ''force'' = ''force''"
  "fold_name ''name'' = ''name''" "fold_name ''destination'' = ''destination''"
  "fold_name ''remote_url'' = ''remote_url''" "fold_name ''branch'' = ''branch''"
  "fold_name ''expected_head'' = ''expected_head''"
  by code_simp+

lemma decode_encode_lifecycle [simp]: "decode_lifecycle (encode_lifecycle c) = Some c"
  by (simp add: decode_lifecycle_def encode_lifecycle_def str_field_def bool_field_def scalar_field_def
      scan_entries lifecycle_names del: fold_name.simps)

lemma decode_encode_clone [simp]: "decode_clone (encode_clone c) = Some c"
  by (simp add: decode_clone_def encode_clone_def str_field_def scalar_field_def
      scan_entries lifecycle_names del: fold_name.simps)

end
