(* ===== verification/Blank_Projects.thy ===== *)
theory Blank_Projects
  imports Workspace_Lifecycle Build_Version
begin

text \<open>
  The creation of a blank project, internal/store/blank_projects.go and project_remotes.go and the
  handling of its results in internal/agentgateway/gateway.go: the project is reserved with the
  operation that makes its directory, the remote repository may have to be made first, and the
  workspace is recorded only when the Agent has confirmed the directory.
\<close>

section \<open>Commands\<close>

definition gitProjectCreateKind :: string where
  "gitProjectCreateKind = ''git.project.create''"

record GitProjectCreateCommand =
  pc_project_id :: string
  pc_workspace_id :: string
  pc_name :: string
  pc_destination :: string
  pc_initial_branch :: string
  pc_initialize_readme :: bool
  pc_remote_url :: string
  pc_require_empty_remote :: bool

record GitProjectCreateResult =
  pr_path :: string
  pr_branch :: string
  pr_commit_sha :: string
  pr_unborn :: bool
  pr_remote_url :: string

record BlankProjectRemoteSpec =
  bs_mode :: string
  bs_provider :: string
  bs_namespace :: string
  bs_repository :: string
  bs_visibility :: string
  bs_credential_profile_id :: string
  bs_url :: string

record ProjectRemoteResult =
  pm_provider :: string
  pm_namespace :: string
  pm_repository :: string
  pm_fetch_url :: string
  pm_push_url :: string
  pm_web_url :: string

record BlankProjectProvision =
  bp_project :: Project
  bp_server_id :: string
  bp_workspace_id :: string
  bp_operation_id :: string
  bp_command :: GitProjectCreateCommand

definition encode_create :: "GitProjectCreateCommand \<Rightarrow> json" where
  "encode_create c = JObj (str_entry ''project_id'' (pc_project_id c) @ str_entry ''workspace_id'' (pc_workspace_id c) @
     str_entry ''name'' (pc_name c) @ omit_str ''destination'' (pc_destination c) @
     str_entry ''initial_branch'' (pc_initial_branch c) @
     [(''initialize_readme'', JBool (pc_initialize_readme c))] @ omit_str ''remote_url'' (pc_remote_url c) @
     omit_bool ''require_empty_remote'' (pc_require_empty_remote c))"

definition operationCommand :: "json \<Rightarrow> GitProjectCreateCommand option" where
  "operationCommand d =
     (case (str_field ''project_id'' d, str_field ''workspace_id'' d, str_field ''name'' d, str_field ''destination'' d,
            str_field ''initial_branch'' d, bool_field ''initialize_readme'' d, str_field ''remote_url'' d,
            bool_field ''require_empty_remote'' d) of
        (Some a, Some b, Some c, Some e, Some f, Some g, Some h, Some i) \<Rightarrow>
          Some \<lparr>pc_project_id = a, pc_workspace_id = b, pc_name = c, pc_destination = e, pc_initial_branch = f,
                pc_initialize_readme = g, pc_remote_url = h, pc_require_empty_remote = i\<rparr>
      | _ \<Rightarrow> None)"

definition decode_create_result :: "json \<Rightarrow> GitProjectCreateResult option" where
  "decode_create_result d =
     (case (str_field ''path'' d, str_field ''branch'' d, str_field ''commit_sha'' d, bool_field ''unborn'' d,
            str_field ''remote_url'' d) of
        (Some a, Some b, Some c, Some e, Some f) \<Rightarrow>
          Some \<lparr>pr_path = a, pr_branch = b, pr_commit_sha = c, pr_unborn = e, pr_remote_url = f\<rparr>
      | _ \<Rightarrow> None)"

text \<open>
  \<open>normalizeRemote\<close>: \<open>plain_url\<close> is \<open>net/url\<close>, the text of a URL that has a host without its user,
  query and fragment, and \<open>None\<close> for any other text.
\<close>

definition replace_first :: "char \<Rightarrow> char \<Rightarrow> string \<Rightarrow> string" where
  "replace_first a b t = (let n = length (takeWhile (\<lambda>c. c \<noteq> a) t) in if n < length t then t[n := b] else t)"

definition normalizeRemote :: "(string \<Rightarrow> string option) \<Rightarrow> string \<Rightarrow> string" where
  "normalizeRemote plain_url raw =
     (let r1 = trim_space (trim_suffix raw ''.git'');
          r2 = (if has_prefix r1 ''git@'' then ''ssh://'' @ replace_first (CHR '':'') (CHR ''/'') r1 else r1);
          r3 = (case plain_url r2 of None \<Rightarrow> r2 | Some u \<Rightarrow> trim_suffix u ''/'')
      in to_lower r3)"

section \<open>Remotes\<close>

definition remotes_ok :: "site \<Rightarrow> ProjectRemote list \<Rightarrow> bool" where
  "remotes_ok s rs \<longleftrightarrow>
     distinct (map (\<lambda>r. (rm_project_id r, rm_name r)) rs) \<and>
     list_all (\<lambda>r. rm_project_id r \<in> set (map pj_id (site_projects s))) rs"

definition store_remotes :: "ProjectRemote list \<Rightarrow> site \<Rightarrow> go_error + site" where
  "store_remotes rs s = (if remotes_ok s rs then Inr (s\<lparr>site_remotes := rs\<rparr>) else Inl ConstraintFailed)"

definition is_origin :: "string \<Rightarrow> ProjectRemote \<Rightarrow> bool" where
  "is_origin projectID r \<longleftrightarrow> rm_project_id r = projectID \<and> rm_name r = ''origin''"

definition update_origin :: "string \<Rightarrow> (ProjectRemote \<Rightarrow> ProjectRemote) \<Rightarrow> site \<Rightarrow> go_error + nat \<times> site" where
  "update_origin projectID f s =
     try_then (store_remotes (map (\<lambda>r. if is_origin projectID r then f r else r) (site_remotes s)) s)
       (\<lambda>s'. Inr (length (filter (is_origin projectID) (site_remotes s)), s'))"

definition remote_from :: "ProjectRemoteResult \<Rightarrow> instant \<Rightarrow> ProjectRemote \<Rightarrow> ProjectRemote" where
  "remote_from m now r = r\<lparr>rm_provider := pm_provider m, rm_namespace := pm_namespace m, rm_repository := pm_repository m,
     rm_fetch_url := pm_fetch_url m, rm_push_url := pm_push_url m, rm_web_url := pm_web_url m, rm_status := ''ready'',
     rm_error := [], rm_updated_at := now\<rparr>"

definition prepareProjectRemote ::
    "string \<Rightarrow> BlankProjectRemoteSpec \<Rightarrow> string \<Rightarrow> instant \<Rightarrow> site \<Rightarrow> go_error + site" where
  "prepareProjectRemote projectID spec status now s =
     (if trim_space (bs_mode spec) = ''none'' \<or> trim_space (bs_mode spec) = [] then Inr s
      else store_remotes (site_remotes s @
        [\<lparr>rm_project_id = projectID, rm_name = ''origin'', rm_mode = bs_mode spec, rm_provider = bs_provider spec,
          rm_namespace = bs_namespace spec, rm_repository = bs_repository spec, rm_visibility = bs_visibility spec,
          rm_credential_profile_id = bs_credential_profile_id spec, rm_fetch_url = bs_url spec,
          rm_push_url = bs_url spec, rm_web_url = [], rm_status = (if status = [] then ''ready'' else status),
          rm_error = [], rm_updated_at = now\<rparr>]) s)"

definition missing_urls :: "ProjectRemoteResult \<Rightarrow> bool" where
  "missing_urls m \<longleftrightarrow> trim_space (pm_fetch_url m) = [] \<or> trim_space (pm_push_url m) = []"

definition UpdateProjectRemote :: "string \<Rightarrow> ProjectRemoteResult \<Rightarrow> instant \<Rightarrow> site \<Rightarrow> go_error + site" where
  "UpdateProjectRemote projectID m now s =
     (if missing_urls m then Inl (Err ''project remote URLs are required'')
      else try_then (update_origin projectID (remote_from m now) s) (\<lambda>(rows, s').
        if rows \<noteq> 1 then Inl (Err ''project remote was not found'') else Inr s'))"

section \<open>Reserving a project\<close>

definition with_id :: "string \<Rightarrow> OperationResource" where
  "with_id projectID = \<lparr>ProjectID = projectID, WorkspaceID = [], ThreadID = []\<rparr>"

definition create_operation ::
    "string \<Rightarrow> string \<Rightarrow> GitProjectCreateCommand \<Rightarrow> string \<Rightarrow> string \<Rightarrow> instant \<Rightarrow> Operation" where
  "create_operation i serverID c key status now =
     (queued_operation i serverID (with_id (pc_project_id c)) gitProjectCreateKind (JsonText (encode_create c)) False key now)
     \<lparr>o_status := status\<rparr>"

definition createBlankProject ::
    "(string \<Rightarrow> string option) \<Rightarrow> string \<Rightarrow> string \<Rightarrow> string \<Rightarrow> string \<Rightarrow> bool \<Rightarrow> BlankProjectRemoteSpec \<Rightarrow> string \<Rightarrow>
     string \<times> string \<times> string \<Rightarrow> instant \<Rightarrow> site \<Rightarrow> go_error + BlankProjectProvision \<times> site" where
  "createBlankProject plain_url serverID name destination initialBranch readme spec status newIDs now s =
     (let (projectID, workspaceID, operationID) = newIDs;
          command = \<lparr>pc_project_id = projectID, pc_workspace_id = workspaceID, pc_name = name,
            pc_destination = destination, pc_initial_branch = initialBranch, pc_initialize_readme = readme,
            pc_remote_url = (if bs_mode spec = ''existing'' then trim_space (bs_url spec) else []),
            pc_require_empty_remote = (bs_mode spec = ''existing'' \<or> bs_mode spec = ''create'')\<rparr>;
          project = \<lparr>pj_id = projectID, pj_name = name, pj_remote_url = trim_space (bs_url spec),
            pj_normalized_remote = normalizeRemote plain_url (bs_url spec), pj_default_branch = initialBranch,
            pj_status = ''provisioning'', pj_provision_error = [], pj_pinned_at = None, pj_hidden_at = None,
            pj_updated_at = now\<rparr>
      in try_then (store_projects (site_projects s @ [project]) s) (\<lambda>s1.
         try_then (add_operation (create_operation operationID serverID command
             (''git-project-create:'' @ projectID) status now) s1) (\<lambda>s2.
         try_then (prepareProjectRemote projectID spec (if status = ''preparing'' then ''provisioning'' else ''ready'') now s2) (\<lambda>s3.
         Inr (\<lparr>bp_project = project, bp_server_id = serverID, bp_workspace_id = workspaceID,
               bp_operation_id = operationID, bp_command = command\<rparr>, s3)))))"

definition no_remote :: BlankProjectRemoteSpec where
  "no_remote = \<lparr>bs_mode = [], bs_provider = [], bs_namespace = [], bs_repository = [], bs_visibility = [],
                bs_credential_profile_id = [], bs_url = []\<rparr>"

definition CreateBlankProject where
  "CreateBlankProject plain_url serverID name destination initialBranch readme =
     createBlankProject plain_url serverID name destination initialBranch readme no_remote ''queued''"

definition CreateBlankProjectWithRemote where
  "CreateBlankProjectWithRemote plain_url serverID name destination initialBranch readme spec =
     createBlankProject plain_url serverID name destination initialBranch readme
       (if bs_mode spec = [] then spec\<lparr>bs_mode := ''existing''\<rparr> else spec) ''queued''"

definition PrepareBlankProject where
  "PrepareBlankProject plain_url serverID name destination initialBranch readme spec =
     createBlankProject plain_url serverID name destination initialBranch readme spec ''preparing''"

text \<open>The provider has made the remote repository: the operation is released.\<close>

definition ActivateBlankProjectRemote ::
    "(string \<Rightarrow> string option) \<Rightarrow> string \<Rightarrow> string \<Rightarrow> ProjectRemoteResult \<Rightarrow> instant \<Rightarrow> site \<Rightarrow>
     go_error + BlankProjectProvision \<times> site" where
  "ActivateBlankProjectRemote plain_url projectID operationID m now s =
     (if missing_urls m then Inl (Err ''project remote URLs are required'')
      else try_then (site_operation operationID s) (\<lambda>op1.
        if or_empty (o_project_id op1) \<noteq> projectID \<or> o_kind op1 \<noteq> gitProjectCreateKind \<or> o_status op1 \<noteq> ''preparing''
        then Inl (Err ''blank project remote operation is not preparing'')
        else try_then (payload_doc op1 operationCommand) (\<lambda>c0.
          let c = c0\<lparr>pc_remote_url := trim_space (pm_fetch_url m)\<rparr> in
          try_then (update_projects (\<lambda>p. pj_id p = projectID)
              (\<lambda>p. p\<lparr>pj_remote_url := pc_remote_url c, pj_normalized_remote := normalizeRemote plain_url (pc_remote_url c),
                     pj_updated_at := now\<rparr>) s) (\<lambda>s1.
          try_then (update_origin projectID (remote_from m now) s1) (\<lambda>(_, s2).
          try_then (change_operations (\<lambda>o1. o_id o1 = operationID)
              (\<lambda>o1. o1\<lparr>o_payload := JsonText (encode_create c), o_status := ''queued''\<rparr>) s2) (\<lambda>s3.
          try_then (find_project projectID s3) (\<lambda>p.
          Inr (\<lparr>bp_project = p, bp_server_id = o_server_id op1, bp_workspace_id = pc_workspace_id c,
                bp_operation_id = operationID, bp_command = c\<rparr>, s3))))))))"

section \<open>Retrying\<close>

definition is_create :: "string \<Rightarrow> Operation \<Rightarrow> bool" where
  "is_create projectID o1 \<longleftrightarrow> o_project_id o1 = Some projectID \<and> o_kind o1 = gitProjectCreateKind"

text \<open>\<open>ORDER BY created_at DESC LIMIT 1\<close>\<close>

definition latest_create :: "string \<Rightarrow> site \<Rightarrow> go_error + Operation" where
  "latest_create projectID s =
     (case order_by_desc o_created_at (filter (is_create projectID) (site_operations s)) of
        [] \<Rightarrow> Inl ErrNoRows | o1 # _ \<Rightarrow> Inr o1)"

text \<open>What the remote asks of the retry: the command, the status of the operation, and whether the remote is made again.\<close>

definition retry_remote :: "ProjectRemote option \<Rightarrow> GitProjectCreateCommand \<Rightarrow> GitProjectCreateCommand \<times> string \<times> bool" where
  "retry_remote remote c =
     (case remote of
        None \<Rightarrow> (c, ''queued'', False)
      | Some r \<Rightarrow>
          if rm_mode r = ''create'' \<and> rm_status r \<noteq> ''ready'' then (c\<lparr>pc_remote_url := []\<rparr>, ''preparing'', True)
          else if rm_mode r = ''create'' then (c\<lparr>pc_remote_url := rm_fetch_url r\<rparr>, ''queued'', False)
          else (c, ''queued'', False))"

definition remake_remote :: "bool \<Rightarrow> string \<Rightarrow> instant \<Rightarrow> site \<Rightarrow> go_error + site" where
  "remake_remote remake projectID now s =
     (if remake
      then try_then (update_origin projectID (\<lambda>r. r\<lparr>rm_status := ''provisioning'', rm_error := [], rm_updated_at := now\<rparr>) s)
             (\<lambda>(_, s1). Inr s1)
      else Inr s)"

definition requeue_create ::
    "string \<Rightarrow> string \<Rightarrow> instant \<Rightarrow> Project \<Rightarrow> Operation \<Rightarrow> GitProjectCreateCommand \<Rightarrow> site \<Rightarrow>
     go_error + BlankProjectProvision \<times> site" where
  "requeue_create projectID newID now p row c0 s =
     (let (c, status, remake) = retry_remote (find (is_origin projectID) (site_remotes s)) c0 in
       try_then (remake_remote remake projectID now s) (\<lambda>s1.
       try_then (update_projects (\<lambda>p. pj_id p = projectID)
           (\<lambda>p. p\<lparr>pj_status := ''provisioning'', pj_provision_error := [], pj_updated_at := now\<rparr>) s1) (\<lambda>s2.
       try_then (add_operation (create_operation newID (o_server_id row) c
           (''git-project-retry:'' @ projectID @ '':'' @ newID) status now) s2) (\<lambda>s3.
       Inr (\<lparr>bp_project = p\<lparr>pj_status := ''provisioning'', pj_provision_error := []\<rparr>, bp_server_id = o_server_id row,
             bp_workspace_id = pc_workspace_id c, bp_operation_id = newID, bp_command = c\<rparr>, s3)))))"

definition RetryBlankProject :: "string \<Rightarrow> string \<Rightarrow> instant \<Rightarrow> site \<Rightarrow> go_error + BlankProjectProvision \<times> site" where
  "RetryBlankProject projectID newID now s =
     try_then (find_project projectID s) (\<lambda>p.
     if pj_status p \<noteq> ''failed'' \<and> pj_status p \<noteq> ''partial''
     then Inl (Err ''only a failed or partial blank project can be retried'')
     else try_then (latest_create projectID s) (\<lambda>row.
     try_then (payload_doc row operationCommand) (\<lambda>c0.
     if pc_project_id c0 \<noteq> projectID \<or> pc_workspace_id c0 = [] \<or> pc_name c0 = []
     then Inl (Err ''blank project command does not match project'')
     else if count_operations (\<lambda>o1. is_create projectID o1 \<and> active o1) s \<noteq> 0
     then Inl (Err ''blank project creation is already active'')
     else requeue_create projectID newID now p row c0 s)))"

section \<open>Results\<close>

definition normalizeRemotePath :: "string \<Rightarrow> string" where
  "normalizeRemotePath raw =
     (let r = trim_space (map (\<lambda>c. if c = CHR 92 then CHR ''/'' else c) raw) in if r = [] then [] else path_clean r)"

definition ValidateBlankProjectResult :: "GitProjectCreateCommand \<Rightarrow> GitProjectCreateResult \<Rightarrow> go_error + unit" where
  "ValidateBlankProjectResult c r =
     (if pc_project_id c = [] \<or> pc_workspace_id c = [] \<or> pr_path r = [] \<or> \<not> is_abs (normalizeRemotePath (pr_path r)) \<or>
         pr_branch r \<noteq> pc_initial_branch c
      then Inl (Err ''blank project result does not match command'')
      else if has_prefix (normalizeRemotePath (pc_destination c)) ''/'' \<and>
              normalizeRemotePath (pr_path r) \<noteq> normalizeRemotePath (pc_destination c)
      then Inl (Err ''blank project result path does not match command'')
      else if trim_space (pr_remote_url r) \<noteq> trim_space (pc_remote_url c)
      then Inl (Err ''blank project result remote does not match command'')
      else if pc_initialize_readme c \<and> (pr_unborn r \<or> pr_commit_sha r = [])
      then Inl (Err ''blank project README result is missing an initial commit'')
      else if \<not> pc_initialize_readme c \<and> (\<not> pr_unborn r \<or> pr_commit_sha r \<noteq> [])
      then Inl (Err ''blank project result unexpectedly contains a commit'')
      else Inr ())"

definition settle_create :: "string \<Rightarrow> OperationResult \<Rightarrow> string \<Rightarrow> stored_text \<Rightarrow> instant \<Rightarrow> site \<Rightarrow> go_error + site" where
  "settle_create projectID res status data now =
     change_operations (\<lambda>o1. o_id o1 = ResultOperationID res \<and> o_project_id o1 = Some projectID)
       (finish status (ResultMessage res) data now)"

definition CommitBlankProject ::
    "Operation \<Rightarrow> GitProjectCreateCommand \<Rightarrow> GitProjectCreateResult \<Rightarrow> OperationResult \<Rightarrow> instant \<Rightarrow> site \<Rightarrow> go_error + site" where
  "CommitBlankProject op1 c r res now s =
     (if o_kind op1 \<noteq> gitProjectCreateKind \<or> or_empty (o_project_id op1) \<noteq> pc_project_id c \<or>
         or_empty (o_workspace_id op1) \<noteq> [] \<or> o_server_id op1 = []
      then Inl (Err ''blank project operation does not match command'')
      else try_then (ValidateBlankProjectResult c r) (\<lambda>_.
        if length (filter (\<lambda>p. pj_id p = pc_project_id c \<and> pj_status p = ''provisioning'') (site_projects s)) \<noteq> 1
        then Inl ErrNoRows
        else try_then (insert_workspace (new_primary (pc_workspace_id c) (pc_project_id c) (o_server_id op1) (pr_path r)
               (pc_name c) (pr_branch r) (pr_commit_sha r) 0 (Some now) now) s) (\<lambda>s1.
             try_then (operationResultData (ResultData res)) (\<lambda>data.
             try_then (update_projects (\<lambda>p. pj_id p = pc_project_id c)
                 (\<lambda>p. p\<lparr>pj_status := ''ready'', pj_provision_error := [], pj_updated_at := now\<rparr>) s1) (\<lambda>s2.
             settle_create (pc_project_id c) res (ResultStatus res) data now s2)))))"

definition FailBlankProject ::
    "GitProjectCreateCommand \<Rightarrow> OperationResult \<Rightarrow> string \<Rightarrow> instant \<Rightarrow> site \<Rightarrow> go_error + site" where
  "FailBlankProject c res status0 now s =
     (let status = (if status0 \<noteq> ''failed'' \<and> status0 \<noteq> ''partial'' then ''failed'' else status0) in
      try_then (update_projects (\<lambda>p. pj_id p = pc_project_id c)
          (\<lambda>p. p\<lparr>pj_status := status, pj_provision_error := ResultMessage res, pj_updated_at := now\<rparr>) s) (\<lambda>s1.
      try_then (update_origin (pc_project_id c)
          (\<lambda>r. r\<lparr>rm_status := (if rm_fetch_url r \<noteq> [] then (if status = ''partial'' then ''ready'' else ''failed'')
                                else ''failed''),
                 rm_error := ResultMessage res, rm_updated_at := now\<rparr>) s1) (\<lambda>(_, s2).
      settle_create (pc_project_id c) res ''failed'' (failure_data res) now s2)))"

definition handle_create_result ::
    "string \<Rightarrow> (go_error \<Rightarrow> string) \<Rightarrow> Operation \<Rightarrow> OperationResult \<Rightarrow> instant \<Rightarrow> site \<Rightarrow> go_error + OperationResult \<times> site" where
  "handle_create_result why shown op1 res now s =
     try_then (payload_doc op1 operationCommand) (\<lambda>c.
       let fail = (\<lambda>r status. try_then (FailBlankProject c r status now s) (\<lambda>s'. Inr (r, s'))) in
       if ResultStatus res \<noteq> ''succeeded''
       then fail (default_message ''agent failed to create blank project'' res) ''failed''
       else case result_doc decode_create_result res of
           None \<Rightarrow> fail (failed_with (''invalid blank project result: '' @ why) res) ''failed''
         | Some r \<Rightarrow>
             (case ValidateBlankProjectResult c r of
                Inl e \<Rightarrow> fail (failed_with (shown e) res) ''failed''
              | Inr _ \<Rightarrow>
                  (case CommitBlankProject op1 c r res now s of
                     Inr s' \<Rightarrow> Inr (res, s')
                   | Inl e \<Rightarrow> fail (failed_with (''project created on server but could not persist workspace: '' @ shown e) res)
                       ''partial'')))"

end
