(* ===== verification/Worktrees.thy ===== *)
theory Worktrees
  imports Workspace_Lifecycle
begin

text \<open>
  Linked worktrees: the command that asks for one, \<open>newWorktreeCommand\<close> of
  internal/httpapi/resources.go, and the record of one that an agent has made, \<open>CommitGitWorktree\<close>
  of internal/store/resources.go. A worktree that continues a session of Codex, Gemini or Claude
  carries further fields, which are not modelled.
\<close>

record GitWorktreeCreateCommand =
  wt_source_workspace_id :: string
  wt_target_workspace_id :: string
  wt_project_id :: string
  wt_source_path :: string
  wt_target_path :: string
  wt_branch :: string
  wt_base_ref :: string

record GitWorktreeCreateResult =
  wr_path :: string
  wr_branch :: string
  wr_commit_sha :: string

record createWorktreeInput =
  in_branch :: string
  in_path :: string
  in_base_ref :: string

definition worktree_name :: "string \<Rightarrow> string" where
  "worktree_name = map (\<lambda>c. if c \<in> {CHR ''/'', CHR 92, CHR '' ''} then CHR ''-'' else c)"

definition newWorktreeCommand :: "Workspace \<Rightarrow> createWorktreeInput \<Rightarrow> string \<Rightarrow> go_error + GitWorktreeCreateCommand" where
  "newWorktreeCommand w input newID =
     (let branch = trim_space (in_branch input); path = trim_space (in_path input) in
      if branch = [] \<or> 240 < length branch \<or> list_ex (\<lambda>c. c \<in> {CHR 0x00, CHR 0x0D, CHR 0x0A}) branch
      then Inl (Err ''valid branch is required'')
      else let target = (if path = []
             then path_join [path_dir (wk_path w), path_base (wk_path w) @ ''-'' @ worktree_name branch] else path) in
        if \<not> is_abs target then Inl (Err ''worktree path must be absolute'')
        else Inr \<lparr>wt_source_workspace_id = wk_id w, wt_target_workspace_id = newID, wt_project_id = wk_project_id w,
                  wt_source_path = wk_path w, wt_target_path = path_clean target, wt_branch = branch,
                  wt_base_ref = trim_space (in_base_ref input)\<rparr>)"

text \<open>The new row takes project and server from the row of the source.\<close>

definition CommitGitWorktree :: "GitWorktreeCreateCommand \<Rightarrow> GitWorktreeCreateResult \<Rightarrow> instant \<Rightarrow> site \<Rightarrow> go_error + site" where
  "CommitGitWorktree c r now s =
     (case filter (\<lambda>w. wk_id w = wt_source_workspace_id c \<and> wk_project_id w = wt_project_id c) (site_workspaces s) of
        [w] \<Rightarrow>
          if wr_path r = [] \<or> wr_branch r \<noteq> wt_branch c \<or> wr_commit_sha r = []
          then Inl (Err ''worktree result does not match command'')
          else insert_workspace
            \<lparr>wk_id = wt_target_workspace_id c, wk_project_id = wk_project_id w, wk_server_id = wk_server_id w,
             wk_path = wr_path r, wk_display_name = wt_branch c, wk_management_mode = ''managed'', wk_status = ''ready'',
             wk_kind = ''worktree'', wk_parent = Some (wt_source_workspace_id c), wk_branch = wr_branch r,
             wk_commit_sha = wr_commit_sha r, wk_dirty = 0, wk_last_git_refresh_at = Some now, wk_git_error = [],
             wk_last_scanned_at = now\<rparr> s
      | _ \<Rightarrow> Inl ErrNoRows)"

lemma CommitGitWorktree_Inr:
  assumes "CommitGitWorktree c r now s = Inr s'"
  obtains w where "insert_workspace w s = Inr s'" "wk_project_id w = wt_project_id c" "wk_kind w = ''worktree''"
    "wk_management_mode w = ''managed''" "wk_status w = ''ready''" "wk_id w = wt_target_workspace_id c"
    "wk_path w = wr_path r" "wk_parent w = Some (wt_source_workspace_id c)"
proof -
  obtain w where one: "filter (\<lambda>w. wk_id w = wt_source_workspace_id c \<and> wk_project_id w = wt_project_id c) (site_workspaces s) = [w]"
    using assms by (auto simp: CommitGitWorktree_def split: list.splits)
  have "w \<in> set (filter (\<lambda>w. wk_id w = wt_source_workspace_id c \<and> wk_project_id w = wt_project_id c) (site_workspaces s))"
    unfolding one by simp
  then have "wk_project_id w = wt_project_id c" by simp
  then show ?thesis
    using assms one that by (simp add: CommitGitWorktree_def split: if_splits)
qed

lemma newWorktreeCommand_target:
  assumes "newWorktreeCommand w input newID = Inr c"
  shows "is_abs (wt_target_path c)" and "path_clean (wt_target_path c) = wt_target_path c"
proof -
  obtain target where "wt_target_path c = path_clean target" "is_abs target"
    using assms by (auto simp: newWorktreeCommand_def Let_def split: if_splits)
  then show "is_abs (wt_target_path c)" "path_clean (wt_target_path c) = wt_target_path c"
    by (simp_all add: path_clean_abs)
qed

end
