(* ===== verification/Project_Life.thy ===== *)
theory Project_Life
  imports Project_Deletion Blank_Projects Worktrees
begin

text \<open>
  The life of projects and workspaces as one transition system: the queue of operations, the life
  cycle of workspaces, the creation of blank projects and the deletion of projects act on the same
  tables in any order. \<open>site_inv\<close> holds in every state they reach.
\<close>

section \<open>Transitions\<close>

definition own_kinds :: "string list" where
  "own_kinds = [gitProjectCreateKind, ProjectDeleteOperationKind, ''git.workspace.lifecycle'', ''git.workspace.clone'']"

definition own :: "Operation \<Rightarrow> bool" where
  "own o1 \<longleftrightarrow> o_kind o1 \<in> set own_kinds"

text \<open>
  The operations of the components with any arguments, when they succeed. A result is handled for
  an active operation only, as the gateway checks; a workspace that a request has read may be
  outdated. \<open>provision_failed\<close> is the failure of the provider while the operation is prepared. A
  worktree is recorded only while no operation of a deletion of its project is active or waiting; the
  handlers do not check that, see \<open>worktree_during_deletion\<close>.
\<close>

inductive site_step :: "site \<Rightarrow> site \<Rightarrow> bool" where
  deliver: "on_queue (MarkDelivered i now) s = Inr s' \<Longrightarrow> site_step s s'"
| start: "on_queue (MarkRunning i now) s = Inr s' \<Longrightarrow> site_step s s'"
| queue_other: "queueOperationPayload srv kind payload key res write newID now (queue_view s) = Inr (i, d') \<Longrightarrow>
    kind \<notin> set own_kinds \<Longrightarrow> site_step s (s\<lparr>site_operations := operations d'\<rparr>)"
| complete_other: "CompleteOperationIfActive r now (queue_view s) = Inr (c, d') \<Longrightarrow>
    (\<And>o1. o1 \<in> set (site_operations s) \<Longrightarrow> o_id o1 = ResultOperationID r \<Longrightarrow> \<not> own o1) \<Longrightarrow>
    site_step s (s\<lparr>site_operations := operations d'\<rparr>)"
| rename_workspace: "UpdateWorkspaceDisplayName i name s = Inr (w, s') \<Longrightarrow> site_step s s'"
| remove_record: "RemoveWorkspaceRecord i s = Inr s' \<Longrightarrow> site_step s s'"
| queue_lifecycle: "QueueWorkspaceLifecycle w c newID now s = Inr (i, s') \<Longrightarrow> wk_id w \<noteq> [] \<Longrightarrow> site_step s s'"
| queue_clone: "QueueCrossServerWorkspaceClone w srv cc newID now s = Inr (i, s') \<Longrightarrow> wk_id w \<noteq> [] \<Longrightarrow> site_step s s'"
| lifecycle_result: "site_operation i s = Inr op1 \<Longrightarrow> active op1 \<Longrightarrow> o_kind op1 = ''git.workspace.lifecycle'' \<Longrightarrow>
    ResultOperationID res = i \<Longrightarrow> handle_lifecycle_result why shown op1 res now s = Inr (pub, s') \<Longrightarrow> site_step s s'"
| clone_result: "site_operation i s = Inr op1 \<Longrightarrow> active op1 \<Longrightarrow> o_kind op1 = ''git.workspace.clone'' \<Longrightarrow>
    ResultOperationID res = i \<Longrightarrow> handle_clone_result why shown op1 res now s = Inr (pub, s') \<Longrightarrow> site_step s s'"
| delete_records: "DeleteProjectMetadata p now s = Inr (b, s') \<Longrightarrow> site_step s s'"
| queue_deletion: "QueueProjectManagedDeletion p newIDs now s = Inr (ids, b, s') \<Longrightarrow> p \<noteq> [] \<Longrightarrow>
    (\<forall>w\<in>set (site_workspaces s). wk_id w \<noteq> []) \<Longrightarrow> site_step s s'"
| deletion_result: "site_operation i s = Inr op1 \<Longrightarrow> active op1 \<Longrightarrow> CompleteProjectDeletion op1 res now s = Inr s' \<Longrightarrow>
    site_step s s'"
| create: "createBlankProject plain_url srv name dest branch readme spec status ids now s = Inr (bp, s') \<Longrightarrow>
    status \<in> {''queued'', ''preparing''} \<Longrightarrow> fst ids \<noteq> [] \<Longrightarrow> site_step s s'"
| activate: "ActivateBlankProjectRemote plain_url p i m now s = Inr (bp, s') \<Longrightarrow> p \<noteq> [] \<Longrightarrow> site_step s s'"
| retry: "RetryBlankProject p newID now s = Inr (bp, s') \<Longrightarrow> p \<noteq> [] \<Longrightarrow> site_step s s'"
| create_result: "site_operation i s = Inr op1 \<Longrightarrow> active op1 \<Longrightarrow> o_kind op1 = gitProjectCreateKind \<Longrightarrow>
    ResultOperationID res = i \<Longrightarrow> handle_create_result why shown op1 res now s = Inr (pub, s') \<Longrightarrow> site_step s s'"
| provision_failed: "site_operation i s = Inr op1 \<Longrightarrow> o_kind op1 = gitProjectCreateKind \<Longrightarrow> o_status op1 = ''preparing'' \<Longrightarrow>
    ResultOperationID res = i \<Longrightarrow> FailBlankProject c res status now s = Inr s' \<Longrightarrow> site_step s s'"
| worktree: "CommitGitWorktree c r now s = Inr s' \<Longrightarrow>
    (\<And>o1. o1 \<in> set (site_operations s) \<Longrightarrow> is_delete (wt_project_id c) o1 \<Longrightarrow> \<not> active o1 \<and> o_status o1 \<noteq> ''waiting'') \<Longrightarrow>
    site_step s s'"
| set_remote: "UpdateProjectRemote p m now s = Inr s' \<Longrightarrow> site_step s s'"

section \<open>Consistent tables\<close>

definition site_ok :: "site \<Rightarrow> bool" where
  "site_ok s \<longleftrightarrow> workspaces_ok s (site_workspaces s) \<and> operations_ok (queue_view s) (site_operations s)"

lemma site_okD:
  assumes "site_ok s"
  shows "distinct (map wk_id (site_workspaces s))" and "distinct (map o_id (site_operations s))"
    and "distinct (map o_workspace_id (filter active_write (site_operations s)))"
    and "workspaces_ok s (site_workspaces s)" and "operations_ok (queue_view s) (site_operations s)"
  using assms by (auto simp: site_ok_def workspaces_ok_def operations_ok_def)

lemma distinct_map_eq: "distinct (map f xs) \<Longrightarrow> x \<in> set xs \<Longrightarrow> y \<in> set xs \<Longrightarrow> f x = f y \<Longrightarrow> x = y"
  by (auto simp: distinct_map inj_on_def)

lemma same_workspace_row:
  "site_ok s \<Longrightarrow> w \<in> set (site_workspaces s) \<Longrightarrow> v \<in> set (site_workspaces s) \<Longrightarrow> wk_id w = wk_id v \<Longrightarrow> w = v"
  using distinct_map_eq[OF site_okD(1)] by blast

lemma same_operation_row:
  "site_ok s \<Longrightarrow> x \<in> set (site_operations s) \<Longrightarrow> y \<in> set (site_operations s) \<Longrightarrow> o_id x = o_id y \<Longrightarrow> x = y"
  using distinct_map_eq[OF site_okD(2)] by blast

text \<open>At most one active write per workspace.\<close>

lemma one_active_write:
  assumes "site_ok s" "x \<in> set (site_operations s)" "y \<in> set (site_operations s)"
    and "active x" "active y" "o_workspace_write x" "o_workspace_write y"
    and "o_workspace_id x = Some w" "o_workspace_id y = Some w"
  shows "x = y"
  using assms by (intro distinct_map_eq[OF site_okD(3)[OF assms(1)]]) (auto simp: active_write_def)

lemma operation_refs_view [simp]: "operation_refs (d\<lparr>operations := ops\<rparr>) = operation_refs d"
  by (simp add: operation_refs_def fun_eq_iff)

lemma site_ok_operations:
  "site_ok s \<Longrightarrow> operations_ok (queue_view s) ops \<Longrightarrow> site_ok (s\<lparr>site_operations := ops\<rparr>)"
  by (simp add: site_ok_def workspaces_ok_def operations_ok_def)

lemma change_operations_ok: "change_operations sel f s = Inr s' \<Longrightarrow> site_ok s \<Longrightarrow> site_ok s'"
  by (auto simp: change_operations_Inr intro: site_ok_operations)

lemma add_operation_ok: "add_operation row s = Inr s' \<Longrightarrow> site_ok s \<Longrightarrow> site_ok s'"
  by (auto simp: add_operation_Inr intro: site_ok_operations)

lemma operations_ok_mono:
  assumes "operations_ok d ops"
    and "set (map s_id (servers d)) \<subseteq> set (map s_id (servers d'))"
    and "set (map p_id (projects d)) \<subseteq> set (map p_id (projects d'))"
    and "set (map w_id (workspaces d)) \<subseteq> set (map w_id (workspaces d'))"
    and "set (map t_id (threads d)) \<subseteq> set (map t_id (threads d'))"
  shows "operations_ok d' ops"
  using assms unfolding operations_ok_def list_all_iff operation_refs_def refers_def
  by (fastforce split: option.splits)

lemma update_workspaces_ok:
  assumes "update_workspaces sel f s = Inr (n, s')" "site_ok s" and "\<And>w. wk_id (f w) = wk_id w"
  shows "site_ok s'"
proof -
  have ids: "map wk_id (map (\<lambda>w. if sel w then f w else w) (site_workspaces s)) = map wk_id (site_workspaces s)"
    by (rule map_if_key) (rule assms(3))
  let ?s = "s\<lparr>site_workspaces := map (\<lambda>w. if sel w then f w else w) (site_workspaces s)\<rparr>"
  have "operations_ok (queue_view ?s) (site_operations s)"
    by (rule operations_ok_mono[OF site_okD(5)[OF assms(2)]]) (use ids in auto)
  moreover have "workspaces_ok ?s (site_workspaces ?s)"
    using assms(1) by (simp add: update_workspaces_Inr workspaces_ok_def)
  ultimately show ?thesis using assms(1) by (simp add: site_ok_def update_workspaces_Inr)
qed

lemma insert_workspace_ok: "insert_workspace w s = Inr s' \<Longrightarrow> site_ok s \<Longrightarrow> site_ok s'"
  unfolding insert_workspace_Inr site_ok_def
  by (auto simp: workspaces_ok_def intro: operations_ok_mono)

lemma update_projects_ok:
  assumes "update_projects sel f s = Inr s'" "site_ok s" and "\<And>p. pj_id (f p) = pj_id p"
  shows "site_ok s'"
proof -
  have ids: "map pj_id (map (\<lambda>p. if sel p then f p else p) (site_projects s)) = map pj_id (site_projects s)"
    by (rule map_if_key) (rule assms(3))
  let ?s = "s\<lparr>site_projects := map (\<lambda>p. if sel p then f p else p) (site_projects s)\<rparr>"
  have "operations_ok (queue_view ?s) (site_operations s)"
    by (rule operations_ok_mono[OF site_okD(5)[OF assms(2)]]) (use ids in auto)
  moreover have "workspaces_ok ?s (site_workspaces ?s)"
    using assms(2) ids by (simp add: site_ok_def workspaces_ok_def)
  ultimately show ?thesis
    using assms(1) by (auto simp: site_ok_def update_projects_def store_projects_def split: if_splits)
qed

lemma append_project_ok: "store_projects (site_projects s @ [p]) s = Inr s' \<Longrightarrow> site_ok s \<Longrightarrow> site_ok s'"
  by (auto simp: store_projects_def site_ok_def workspaces_ok_def list_all_iff
      intro: operations_ok_mono split: if_splits)

lemma store_remotes_ok: "store_remotes rs s = Inr s' \<Longrightarrow> site_ok s \<Longrightarrow> site_ok s'"
  by (auto simp: store_remotes_def site_ok_def workspaces_ok_def queue_view_def split: if_splits)

section \<open>Deletion keeps the tables consistent\<close>

lemma distinct_weaken:
  assumes "distinct (map k (filter P xs))" and "\<And>x. Q (g x) \<Longrightarrow> P x \<and> k' (g x) = k x"
  shows "distinct (map k' (filter Q (map g xs)))"
  using assms(1)
proof (induction xs)
  case (Cons a xs)
  then have IH: "distinct (map k' (filter Q (map g xs)))" by (simp split: if_splits)
  show ?case
  proof (cases "Q (g a)")
    case True
    then have a: "P a" "k' (g a) = k a" using assms(2) by blast+
    have "k' ` set (filter Q (map g xs)) \<subseteq> k ` set (filter P xs)"
    proof (rule image_subsetI)
      fix y assume "y \<in> set (filter Q (map g xs))"
      then obtain x where x: "x \<in> set xs" "y = g x" "Q (g x)" by auto
      then have "P x" "k' y = k x" using assms(2) by blast+
      then show "k' y \<in> k ` set (filter P xs)" using x(1) by simp
    qed
    moreover have "k a \<notin> k ` set (filter P xs)" using Cons.prems a(1) by simp
    ultimately have "k a \<notin> k' ` set (filter Q (map g xs))" by blast
    then show ?thesis using True IH a(2) by simp
  qed (use IH in simp)
qed simp

text \<open>What happens to the operations: references are cut, nothing else.\<close>

definition cut_refs :: "Operation \<Rightarrow> Operation \<Rightarrow> bool" where
  "cut_refs o1 o2 \<longleftrightarrow>
     o_id o2 = o_id o1 \<and> o_idempotency_key o2 = o_idempotency_key o1 \<and> o_server_id o2 = o_server_id o1 \<and>
     o_kind o2 = o_kind o1 \<and> o_status o2 = o_status o1 \<and> o_payload o2 = o_payload o1 \<and>
     o_workspace_write o2 = o_workspace_write o1 \<and>
     (o_workspace_id o2 = o_workspace_id o1 \<or> o_workspace_id o2 = None) \<and>
     (o_project_id o2 = o_project_id o1 \<or> o_project_id o2 = None)"

lemma operations_ok_cut:
  assumes "operations_ok d ops" and "\<And>o1. cut_refs o1 (g o1)"
    and "\<And>o1. o1 \<in> set ops \<Longrightarrow> operation_refs d' (g o1)"
  shows "operations_ok d' (map g ops)"
proof -
  have same: "o_id (g x) = o_id x" "o_idempotency_key (g x) = o_idempotency_key x" "o_server_id (g x) = o_server_id x"
    "o_kind (g x) = o_kind x" "o_status (g x) = o_status x" "o_workspace_write (g x) = o_workspace_write x"
    "o_workspace_id (g x) = o_workspace_id x \<or> o_workspace_id (g x) = None"
    "o_project_id (g x) = o_project_id x \<or> o_project_id (g x) = None" for x
    using assms(2)[of x] by (simp_all add: cut_refs_def)
  have writes: "active_write (g x) \<Longrightarrow> active_write x \<and> o_workspace_id (g x) = o_workspace_id x" for x
    using same[of x] by (auto simp: active_write_def active_def)
  have importing: "waiting_import (g x) \<Longrightarrow>
      waiting_import x \<and> (o_server_id (g x), o_project_id (g x)) = (o_server_id x, o_project_id x)" for x
    using same[of x] by (auto simp: waiting_import_def)
  have "distinct (map o_workspace_id (filter active_write (map g ops)))"
    by (rule distinct_weaken[where P = active_write and k = o_workspace_id])
      (use assms(1) writes in \<open>auto simp: operations_ok_def\<close>)
  moreover have "distinct (map (\<lambda>o1. (o_server_id o1, o_project_id o1)) (filter waiting_import (map g ops)))"
    by (rule distinct_weaken[where P = waiting_import and k = "\<lambda>o1. (o_server_id o1, o_project_id o1)"])
      (use assms(1) importing in \<open>auto simp: operations_ok_def\<close>)
  moreover have "map o_id (map g ops) = map o_id ops" "map o_idempotency_key (map g ops) = map o_idempotency_key ops"
    using same by simp_all
  moreover have "list_all (operation_refs d') (map g ops)" using assms(3) by (simp add: list_all_iff)
  ultimately show ?thesis using assms(1) by (simp only: operations_ok_def simp_thms)
qed

lemma set_null_simps: "set_null gone r = Some i \<longleftrightarrow> r = Some i \<and> i \<notin> gone"
  by (auto simp: set_null_def split: option.splits)

lemma set_null_cases: "set_null gone r = r \<or> set_null gone r = None"
  by (auto simp: set_null_def split: option.splits)

lemma refers_set_null:
  assumes "refers r ids" and "\<And>i. i \<in> set ids \<Longrightarrow> i \<notin> gone \<Longrightarrow> i \<in> set ids'"
  shows "refers (set_null gone r) ids'"
  using assms by (auto simp: refers_def set_null_def split: option.splits)

lemma delete_workspaces_sel:
  fixes sel s defines "s' \<equiv> snd (delete_workspaces sel s)"
  shows "set (site_workspaces s') = (\<lambda>w. w\<lparr>wk_parent := set_null (wk_id ` set (filter sel (site_workspaces s))) (wk_parent w)\<rparr>)
           ` {w \<in> set (site_workspaces s). \<not> sel w}"
    and "set (site_threads s') = {t \<in> set (site_threads s). t_workspace_id t \<notin> wk_id ` set (filter sel (site_workspaces s))}"
  by (auto simp: s'_def delete_workspaces_def Let_def)

definition gone_ids :: "(Workspace \<Rightarrow> bool) \<Rightarrow> site \<Rightarrow> string set" where
  "gone_ids sel s = wk_id ` set (filter sel (site_workspaces s))"

definition cut_operation :: "(Workspace \<Rightarrow> bool) \<Rightarrow> site \<Rightarrow> Operation \<Rightarrow> Operation" where
  "cut_operation sel s o1 = o1\<lparr>o_workspace_id := set_null (gone_ids sel s) (o_workspace_id o1),
     o_thread_id := set_null (t_id ` set (filter (\<lambda>t. t_workspace_id t \<in> gone_ids sel s) (site_threads s))) (o_thread_id o1)\<rparr>"

lemma delete_workspaces_ops: "site_operations (snd (delete_workspaces sel s)) = map (cut_operation sel s) (site_operations s)"
  by (simp add: delete_workspaces_def Let_def cut_operation_def gone_ids_def)

lemma cut_operation_cut: "cut_refs o1 (cut_operation sel s o1)"
  using set_null_cases[of "gone_ids sel s" "o_workspace_id o1"] by (simp add: cut_refs_def cut_operation_def)

lemma refs_parts:
  "operation_refs d o1 \<longleftrightarrow> o_server_id o1 \<in> set (map s_id (servers d)) \<and> refers (o_project_id o1) (map p_id (projects d)) \<and>
     refers (o_workspace_id o1) (map w_id (workspaces d)) \<and> refers (o_thread_id o1) (map t_id (threads d))"
  by (simp add: operation_refs_def)

lemma delete_workspaces_ok:
  assumes "site_ok s" shows "site_ok (snd (delete_workspaces sel s))"
proof -
  let ?s = "snd (delete_workspaces sel s)" and ?gone = "wk_id ` set (filter sel (site_workspaces s))" and ?g = "cut_operation sel s"
  have kept: "i \<in> set (map wk_id (site_workspaces s)) \<Longrightarrow> i \<notin> ?gone \<Longrightarrow> i \<in> set (map wk_id (site_workspaces ?s))" for i
    by (auto simp: delete_workspaces_sel image_iff)
  have threads: "i \<in> set (map t_id (site_threads s)) \<Longrightarrow> i \<notin> t_id ` set (filter (\<lambda>t. t_workspace_id t \<in> ?gone) (site_threads s)) \<Longrightarrow>
      i \<in> set (map t_id (site_threads ?s))" for i
    by (auto simp: delete_workspaces_sel)
  have "operation_refs (queue_view ?s) (?g o1)" if "o1 \<in> set (site_operations s)" for o1
  proof -
    have r: "operation_refs (queue_view s) o1" using site_okD(5)[OF assms] that by (auto simp: operations_ok_def list_all_iff)
    have "refers (set_null ?gone (o_workspace_id o1)) (map wk_id (site_workspaces ?s))"
      by (rule refers_set_null[where ids = "map wk_id (site_workspaces s)"]) (use r kept in \<open>auto simp: refs_parts\<close>)
    moreover have "refers (set_null (t_id ` set (filter (\<lambda>t. t_workspace_id t \<in> ?gone) (site_threads s))) (o_thread_id o1))
        (map t_id (site_threads ?s))"
      by (rule refers_set_null[where ids = "map t_id (site_threads s)"]) (use r threads in \<open>auto simp: refs_parts\<close>)
    ultimately show ?thesis using r by (simp add: refs_parts cut_operation_def gone_ids_def)
  qed
  then have "operations_ok (queue_view ?s) (site_operations ?s)"
    unfolding delete_workspaces_ops by (intro operations_ok_cut[OF site_okD(5)[OF assms]] cut_operation_cut)
  moreover have "workspaces_ok ?s (site_workspaces ?s)"
  proof -
    let ?h = "\<lambda>w. w\<lparr>wk_parent := set_null ?gone (wk_parent w)\<rparr>"
    have ws: "site_workspaces ?s = map ?h (filter (\<lambda>w. \<not> sel w) (site_workspaces s))"
      by (simp add: delete_workspaces_def Let_def)
    have ok: "workspaces_ok s (site_workspaces s)" using site_okD(4)[OF assms] .
    then have "distinct (map wk_id (site_workspaces ?s))"
      "distinct (map (\<lambda>w. (wk_server_id w, wk_path w)) (site_workspaces ?s))"
      unfolding ws by (simp_all add: workspaces_ok_def comp_def distinct_map_filter)
    moreover have "refers (wk_parent (?h w)) (map wk_id (site_workspaces ?s))" if "w \<in> set (site_workspaces s)" for w
      using that ok kept by (auto simp: workspaces_ok_def list_all_iff intro!: refers_set_null[where ids = "map wk_id (site_workspaces s)"])
    ultimately show ?thesis using ok by (auto simp: workspaces_ok_def list_all_iff delete_workspaces_sel)
  qed
  ultimately show ?thesis by (simp add: site_ok_def)
qed

lemma delete_projects_ok:
  assumes "site_ok s" shows "site_ok (snd (delete_projects i s))"
proof -
  let ?s1 = "snd (delete_workspaces (\<lambda>w. wk_project_id w = i) s)" and ?s = "snd (delete_projects i s)"
  let ?g = "\<lambda>o1. o1\<lparr>o_project_id := set_null {i} (o_project_id o1)\<rparr>"
  have ok: "site_ok ?s1" by (rule delete_workspaces_ok[OF assms])
  have ops: "site_operations ?s = map ?g (site_operations ?s1)"
    and ws: "site_workspaces ?s = site_workspaces ?s1" and ts: "site_threads ?s = site_threads ?s1"
    and srv: "site_servers ?s = site_servers ?s1" and ps: "site_projects ?s = filter (\<lambda>p. pj_id p \<noteq> i) (site_projects ?s1)"
    by (simp_all add: delete_projects_def Let_def)
  have kept: "j \<in> set (map pj_id (site_projects ?s1)) \<Longrightarrow> j \<notin> {i} \<Longrightarrow> j \<in> set (map pj_id (site_projects ?s))" for j
    by (auto simp: ps)
  have "operation_refs (queue_view ?s) (?g o1)" if "o1 \<in> set (site_operations ?s1)" for o1
  proof -
    have r: "operation_refs (queue_view ?s1) o1" using site_okD(5)[OF ok] that by (auto simp: operations_ok_def list_all_iff)
    have "refers (set_null {i} (o_project_id o1)) (map pj_id (site_projects ?s))"
      by (rule refers_set_null[where ids = "map pj_id (site_projects ?s1)"]) (use r kept in \<open>auto simp: refs_parts\<close>)
    then show ?thesis using r by (simp add: refs_parts ws ts srv)
  qed
  moreover have "cut_refs o1 (?g o1)" for o1 using set_null_cases[of "{i}" "o_project_id o1"] by (simp add: cut_refs_def)
  ultimately have "operations_ok (queue_view ?s) (site_operations ?s)"
    unfolding ops by (intro operations_ok_cut[OF site_okD(5)[OF ok]])
  moreover have "wk_project_id w \<noteq> i" if "w \<in> set (site_workspaces ?s1)" for w
    using that by (auto simp: delete_workspaces_sel)
  then have "workspaces_ok ?s (site_workspaces ?s)"
    using site_okD(4)[OF ok] unfolding workspaces_ok_def list_all_iff ws srv by (auto simp: ps)
  ultimately show ?thesis by (simp add: site_ok_def)
qed

section \<open>Every transition keeps the tables consistent\<close>

named_theorems keeps_ok \<open>operations that keep \<open>site_ok\<close>\<close>

declare change_operations_ok [keeps_ok] add_operation_ok [keeps_ok] insert_workspace_ok [keeps_ok]
  append_project_ok [keeps_ok] store_remotes_ok [keeps_ok]

lemma update_projects_keeps [keeps_ok]:
  "update_projects sel (\<lambda>p. p\<lparr>pj_status := g p, pj_provision_error := h p, pj_updated_at := u\<rparr>) s = Inr s' \<Longrightarrow>
     site_ok s \<Longrightarrow> site_ok s'"
  "update_projects sel (\<lambda>p. p\<lparr>pj_remote_url := a, pj_normalized_remote := b, pj_updated_at := u\<rparr>) s = Inr s' \<Longrightarrow>
     site_ok s \<Longrightarrow> site_ok s'"
  by (erule update_projects_ok; simp)+

lemma update_workspaces_keeps [keeps_ok]:
  "update_workspaces sel (\<lambda>w. w\<lparr>wk_display_name := a\<rparr>) s = Inr (n, s') \<Longrightarrow> site_ok s \<Longrightarrow> site_ok s'"
  "update_workspaces sel (\<lambda>w. w\<lparr>wk_status := b, wk_git_error := c\<rparr>) s = Inr (n, s') \<Longrightarrow> site_ok s \<Longrightarrow> site_ok s'"
  "update_workspaces sel (\<lambda>w. w\<lparr>wk_path := a, wk_status := b, wk_git_error := c, wk_last_scanned_at := e\<rparr>) s = Inr (n, s') \<Longrightarrow>
     site_ok s \<Longrightarrow> site_ok s'"
  by (erule update_workspaces_ok; simp)+

lemma delete_pairs_keep [keeps_ok]:
  "delete_workspaces sel s = (n, s') \<Longrightarrow> site_ok s \<Longrightarrow> site_ok s'"
  "delete_projects i s = (n, s') \<Longrightarrow> site_ok s \<Longrightarrow> site_ok s'"
  using delete_workspaces_ok[of s sel] delete_projects_ok[of s i] by simp_all

lemma mark_workspace_ok [keeps_ok]: "mark_workspace i st msg s = Inr s' \<Longrightarrow> site_ok s \<Longrightarrow> site_ok s'"
  by (auto simp: mark_workspace_def try_then_Inr_iff; blast dest: keeps_ok)

lemma settle_operation_ok [keeps_ok]: "settle_operation i st msg data now s = Inr s' \<Longrightarrow> site_ok s \<Longrightarrow> site_ok s'"
  by (auto simp: settle_operation_def intro: keeps_ok)

lemma settle_create_ok [keeps_ok]: "settle_create p res st data now s = Inr s' \<Longrightarrow> site_ok s \<Longrightarrow> site_ok s'"
  by (auto simp: settle_create_def intro: keeps_ok)

lemma insert_write_ok [keeps_ok]: "insert_write row s = Inr s' \<Longrightarrow> site_ok s \<Longrightarrow> site_ok s'"
  by (auto simp: insert_write_def split: sum.splits if_splits intro: keeps_ok)

lemma update_origin_ok [keeps_ok]: "update_origin p f s = Inr (n, s') \<Longrightarrow> site_ok s \<Longrightarrow> site_ok s'"
  by (auto simp: update_origin_def try_then_Inr_iff intro: keeps_ok)

lemma prepare_remote_ok [keeps_ok]: "prepareProjectRemote p spec st now s = Inr s' \<Longrightarrow> site_ok s \<Longrightarrow> site_ok s'"
  by (auto simp: prepareProjectRemote_def split: if_splits intro: keeps_ok)

lemma apply_lifecycle_ok [keeps_ok]: "apply_lifecycle c r srv now s = Inr s' \<Longrightarrow> site_ok s \<Longrightarrow> site_ok s'"
  by (auto simp: apply_lifecycle_def try_then_Inr_iff Let_def split: if_splits option.splits prod.splits; blast dest: keeps_ok intro: delete_workspaces_ok delete_projects_ok)

lemma fail_workspace_ok [keeps_ok]: "fail_workspace op1 w res st now s = Inr s' \<Longrightarrow> site_ok s \<Longrightarrow> site_ok s'"
  by (auto simp: fail_workspace_def try_then_Inr_iff; blast dest: keeps_ok intro: delete_workspaces_ok delete_projects_ok)

lemma lifecycle_result_ok [keeps_ok]:
  "handle_lifecycle_result why shown op1 res now s = Inr (pub, s') \<Longrightarrow> site_ok s \<Longrightarrow> site_ok s'"
  by (auto simp: handle_lifecycle_result_def FailWorkspaceLifecycle_def CompleteWorkspaceLifecycle_def try_then_Inr_iff Let_def
      split: if_splits option.splits sum.splits; blast dest: keeps_ok intro: delete_workspaces_ok delete_projects_ok)

lemma clone_result_ok [keeps_ok]:
  "handle_clone_result why shown op1 res now s = Inr (pub, s') \<Longrightarrow> site_ok s \<Longrightarrow> site_ok s'"
  by (auto simp: handle_clone_result_def FailCrossServerWorkspaceClone_def CompleteCrossServerWorkspaceClone_def
      try_then_Inr_iff Let_def split: if_splits option.splits sum.splits; blast dest: keeps_ok intro: delete_workspaces_ok delete_projects_ok)

lemma fail_create_ok [keeps_ok]: "FailBlankProject c res st now s = Inr s' \<Longrightarrow> site_ok s \<Longrightarrow> site_ok s'"
  by (auto simp: FailBlankProject_def try_then_Inr_iff Let_def; ((drule (1) keeps_ok)+)?; blast intro: delete_workspaces_ok delete_projects_ok)

lemma commit_create_ok [keeps_ok]: "CommitBlankProject op1 c r res now s = Inr s' \<Longrightarrow> site_ok s \<Longrightarrow> site_ok s'"
  by (auto simp: CommitBlankProject_def try_then_Inr_iff split: if_splits; ((drule (1) keeps_ok)+)?; blast intro: delete_workspaces_ok delete_projects_ok)

lemma create_result_ok [keeps_ok]:
  "handle_create_result why shown op1 res now s = Inr (pub, s') \<Longrightarrow> site_ok s \<Longrightarrow> site_ok s'"
  by (auto simp: handle_create_result_def try_then_Inr_iff Let_def
      split: if_splits option.splits sum.splits; blast dest: keeps_ok intro: delete_workspaces_ok delete_projects_ok)

lemma conclude_deletion_ok [keeps_ok]: "conclude_deletion p msg now s = Inr s' \<Longrightarrow> site_ok s \<Longrightarrow> site_ok s'"
  by (auto simp: conclude_deletion_def try_then_Inr_iff split: if_splits; ((drule (1) keeps_ok)+)?; blast intro: delete_workspaces_ok delete_projects_ok)

lemma queue_deletions_ok [keeps_ok]:
  "queue_deletions p h now ws ids s = Inr (out, s') \<Longrightarrow> site_ok s \<Longrightarrow> site_ok s'"
proof (induction p h now ws ids s arbitrary: out rule: queue_deletions.induct)
  case (1 p h now w ws i ids s)
  then show ?case by (auto simp: try_then_Inr_iff dest: add_operation_ok)
qed simp_all

lemma complete_deletion_ok [keeps_ok]: "CompleteProjectDeletion op1 res now s = Inr s' \<Longrightarrow> site_ok s \<Longrightarrow> site_ok s'"
  by (auto simp: CompleteProjectDeletion_def try_then_Inr_iff Let_def split: if_splits option.splits; blast dest: keeps_ok intro: delete_workspaces_ok delete_projects_ok)

lemma queue_managed_ok [keeps_ok]:
  "QueueProjectManagedDeletion p ids now s = Inr (out, b, s') \<Longrightarrow> site_ok s \<Longrightarrow> site_ok s'"
  by (auto simp: QueueProjectManagedDeletion_def try_then_Inr_iff Let_def split: if_splits; ((drule (1) keeps_ok)+)?; blast intro: delete_workspaces_ok delete_projects_ok)

lemma remake_ok [keeps_ok]: "remake_remote b p now s = Inr s' \<Longrightarrow> site_ok s \<Longrightarrow> site_ok s'"
  by (auto simp: remake_remote_def try_then_Inr_iff split: if_splits dest: keeps_ok)

lemma requeue_ok [keeps_ok]: "requeue_create p i now pr row c0 s = Inr (bp, s') \<Longrightarrow> site_ok s \<Longrightarrow> site_ok s'"
  by (auto simp: requeue_create_def try_then_Inr_iff split: prod.splits; (drule (1) keeps_ok)+; assumption)

lemma retry_ok [keeps_ok]: "RetryBlankProject p i now s = Inr (bp, s') \<Longrightarrow> site_ok s \<Longrightarrow> site_ok s'"
  by (auto simp: RetryBlankProject_def try_then_Inr_iff split: if_splits dest: requeue_ok)

lemma activate_ok [keeps_ok]:
  "ActivateBlankProjectRemote u p i m now s = Inr (bp, s') \<Longrightarrow> site_ok s \<Longrightarrow> site_ok s'"
  by (auto simp: ActivateBlankProjectRemote_def try_then_Inr_iff Let_def split: if_splits; blast dest: keeps_ok intro: delete_workspaces_ok delete_projects_ok)

lemma create_keeps_ok [keeps_ok]:
  "createBlankProject u srv n dest br rd spec st ids now s = Inr (bp, s') \<Longrightarrow> site_ok s \<Longrightarrow> site_ok s'"
  by (auto simp: createBlankProject_def try_then_Inr_iff Let_def split: prod.splits; blast dest: keeps_ok intro: delete_workspaces_ok delete_projects_ok)

section \<open>The queue as the other components see it\<close>

text \<open>\<open>same_work\<close>: the row of an operation of these components up to delivery and start.\<close>

definition same_work :: "Operation \<Rightarrow> Operation \<Rightarrow> bool" where
  "same_work o1 o2 \<longleftrightarrow>
     o_id o2 = o_id o1 \<and> o_kind o2 = o_kind o1 \<and> o_project_id o2 = o_project_id o1 \<and>
     o_workspace_id o2 = o_workspace_id o1 \<and> o_payload o2 = o_payload o1 \<and>
     o_workspace_write o2 = o_workspace_write o1 \<and> (active o2 \<longleftrightarrow> active o1) \<and>
     (\<not> active o1 \<longrightarrow> o_status o2 = o_status o1)"

definition quiet :: "site \<Rightarrow> site \<Rightarrow> bool" where
  "quiet s s' \<longleftrightarrow>
     site_workspaces s' = site_workspaces s \<and> site_projects s' = site_projects s \<and>
     (\<forall>o2\<in>set (site_operations s'). own o2 \<longrightarrow> (\<exists>o1\<in>set (site_operations s). same_work o1 o2)) \<and>
     (\<forall>o1\<in>set (site_operations s). own o1 \<longrightarrow> (\<exists>o2\<in>set (site_operations s'). same_work o1 o2))"

lemma same_work_refl [simp]: "same_work o1 o1"
  by (simp add: same_work_def)

lemma quiet_map:
  assumes "\<And>o1. o1 \<in> set ops \<Longrightarrow> o_kind (f o1) = o_kind o1"
    and "\<And>o1. o1 \<in> set ops \<Longrightarrow> own o1 \<Longrightarrow> same_work o1 (f o1)" and "site_operations s = ops"
  shows "quiet s (s\<lparr>site_operations := map f ops\<rparr>)"
  using assms by (auto simp: quiet_def own_def)

lemma quiet_append: "\<not> own row \<Longrightarrow> quiet s (s\<lparr>site_operations := site_operations s @ [row]\<rparr>)"
  by (auto simp: quiet_def) (use same_work_refl in blast)+

lemma active_of_status: "active (o1\<lparr>o_status := st, o_delivered_at := x\<rparr>) \<longleftrightarrow> st \<in> set active_statuses"
  "active (o1\<lparr>o_status := st, o_delivered_at := x, o_started_at := y\<rparr>) \<longleftrightarrow> st \<in> set active_statuses"
  "active (finish st msg data now o1) \<longleftrightarrow> st \<in> set active_statuses"
  by (simp_all add: active_def finish_def)

lemma on_queue_Inr: "on_queue f s = Inr s' \<longleftrightarrow> (\<exists>d. f (queue_view s) = Inr d \<and> s' = s\<lparr>site_operations := operations d\<rparr>)"
  by (auto simp: on_queue_def try_then_Inr_iff)

lemma deliver_quiet: "on_queue (MarkDelivered i now) s = Inr s' \<Longrightarrow> site_ok s \<Longrightarrow> quiet s s' \<and> site_ok s'"
  by (auto simp: on_queue_Inr MarkDelivered_def try_then_Inr_iff update_operations_Inr same_work_def active_of_status
      queued_active active_statuses_def intro!: quiet_map site_ok_operations)

lemma start_quiet: "on_queue (MarkRunning i now) s = Inr s' \<Longrightarrow> site_ok s \<Longrightarrow> quiet s s' \<and> site_ok s'"
  by (auto simp: on_queue_Inr MarkRunning_def try_then_Inr_iff update_operations_Inr same_work_def active_of_status
      active_statuses_def intro!: quiet_map site_ok_operations)

lemma queue_other_quiet:
  assumes "queueOperationPayload srv kind payload key res write newID now (queue_view s) = Inr (i, d')"
    and "kind \<notin> set own_kinds" and "site_ok s"
  shows "quiet s (s\<lparr>site_operations := operations d'\<rparr>) \<and> site_ok (s\<lparr>site_operations := operations d'\<rparr>)"
  using queue_cases[OF assms(1)]
proof
  assume "d' = queue_view s \<and> operation_by_key key (queue_view s) = Inr i"
  then show ?thesis using assms(3) quiet_map[of "site_operations s" id s] by simp
next
  assume "\<exists>r. resolveOperationResource srv res (queue_view s) = Inr r \<and>
       appended (queued_operation newID srv r kind payload write key now) (queue_view s) d' \<and> i = newID \<and>
       (\<forall>o1\<in>set (operations (queue_view s)). o_idempotency_key o1 \<noteq> key)"
  then obtain r where r: "appended (queued_operation newID srv r kind payload write key now) (queue_view s) d'" by blast
  let ?row = "queued_operation newID srv r kind payload write key now"
  have "\<not> own ?row" using assms(2) by (simp add: own_def)
  moreover have "operations d' = site_operations s @ [?row]" "operations_ok (queue_view s) (site_operations s @ [?row])"
    using r by (simp_all add: appended_def)
  ultimately show ?thesis using assms(3) quiet_append site_ok_operations by simp
qed

lemma complete_other_quiet:
  assumes "CompleteOperationIfActive r now (queue_view s) = Inr (c, d')"
    and "\<And>o1. o1 \<in> set (site_operations s) \<Longrightarrow> o_id o1 = ResultOperationID r \<Longrightarrow> \<not> own o1" and "site_ok s"
  shows "quiet s (s\<lparr>site_operations := operations d'\<rparr>) \<and> site_ok (s\<lparr>site_operations := operations d'\<rparr>)"
  using assms
  by (auto simp: CompleteOperationIfActive_def try_then_Inr_iff update_operations_Inr finish_def
      intro!: quiet_map site_ok_operations)

theorem site_step_ok: "site_step s s' \<Longrightarrow> site_ok s \<Longrightarrow> site_ok s'"
proof (induction rule: site_step.induct)
  case (rename_workspace i name s w s')
  then show ?case by (auto simp: UpdateWorkspaceDisplayName_def try_then_Inr_iff split: if_splits dest: keeps_ok)
next
  case (remove_record i s s')
  then show ?case by (auto simp: RemoveWorkspaceRecord_def try_then_Inr_iff split: if_splits prod.splits dest: keeps_ok)
next
  case (queue_lifecycle w c newID now s i s')
  then show ?case by (auto simp: QueueWorkspaceLifecycle_def try_then_Inr_iff split: if_splits dest: insert_write_ok mark_workspace_ok)
next
  case (queue_clone w srv cc newID now s i s')
  then show ?case by (auto simp: QueueCrossServerWorkspaceClone_def try_then_Inr_iff split: if_splits dest: insert_write_ok mark_workspace_ok)
next
  case (delete_records p now s b s')
  then show ?case by (auto simp: DeleteProjectMetadata_def try_then_Inr_iff split: if_splits prod.splits dest: keeps_ok)
next
  case (set_remote p m now s s')
  then show ?case by (auto simp: UpdateProjectRemote_def try_then_Inr_iff split: if_splits dest: keeps_ok)
next
  case (worktree c r now s s') then show ?case by (auto elim!: CommitGitWorktree_Inr dest: keeps_ok)
next
  case (deliver i now s s') then show ?case using deliver_quiet by blast
next
  case (start i now s s') then show ?case using start_quiet by blast
next
  case (queue_other srv kind payload key res wr newID now s i d') then show ?case using queue_other_quiet by blast
next
  case (complete_other r now s c d') then show ?case using complete_other_quiet by blast
next
  case (lifecycle_result i s op1 res why shown now pub s') then show ?case using lifecycle_result_ok by blast
next
  case (clone_result i s op1 res why shown now pub s') then show ?case using clone_result_ok by blast
next
  case (queue_deletion p newIDs now s ids b s') then show ?case using queue_managed_ok by blast
next
  case (deletion_result i s op1 res now s') then show ?case using complete_deletion_ok by blast
next
  case (create pu srv name dest branch readme spec status ids now s bp s') then show ?case using create_keeps_ok by blast
next
  case (activate pu p i m now s bp s') then show ?case using activate_ok by blast
next
  case (retry p newID now s bp s') then show ?case using retry_ok by blast
next
  case (create_result i s op1 res why shown now pub s') then show ?case using create_result_ok by blast
next
  case (provision_failed i s op1 res c status now s') then show ?case using fail_create_ok by blast
qed

end
