(* ===== verification/Project_Invariants.thy ===== *)
theory Project_Invariants
  imports Project_Life
begin

text \<open>
  The invariants of the life of projects and workspaces: a busy workspace has the operation that
  works on it, a project in provision has the operation that makes it, and a deletion never hands
  out a repository while a linked worktree of the project is left, nor stalls with waiting
  operations only. \<open>frame\<close> says what a transition leaves alone, so that each invariant is argued
  for the transitions that touch it.
\<close>

section \<open>What a transition leaves alone\<close>

definition kept_row :: "string set \<Rightarrow> string set \<Rightarrow> Operation \<Rightarrow> Operation \<Rightarrow> bool" where
  "kept_row gone gp o1 o2 \<longleftrightarrow>
     o_id o2 = o_id o1 \<and> o_kind o2 = o_kind o1 \<and> o_status o2 = o_status o1 \<and> o_payload o2 = o_payload o1 \<and>
     o_workspace_write o2 = o_workspace_write o1 \<and>
     o_workspace_id o2 = set_null gone (o_workspace_id o1) \<and> o_project_id o2 = set_null gp (o_project_id o1)"

definition same_place :: "Workspace \<Rightarrow> Workspace \<Rightarrow> bool" where
  "same_place w v \<longleftrightarrow> wk_id v = wk_id w \<and> wk_project_id v = wk_project_id w \<and>
     wk_management_mode v = wk_management_mode w \<and> wk_kind v = wk_kind w"

text \<open>
  \<open>K\<close> are the operations that may change, \<open>gone\<close> the workspaces and \<open>gp\<close> the projects that are
  deleted; a new workspace is a primary one.
\<close>

definition frame :: "(Operation \<Rightarrow> bool) \<Rightarrow> string set \<Rightarrow> string set \<Rightarrow> site \<Rightarrow> site \<Rightarrow> bool" where
  "frame K gone gp s s' \<longleftrightarrow>
     (\<forall>o2\<in>set (site_operations s'). \<not> K o2 \<longrightarrow> (\<exists>o1\<in>set (site_operations s). kept_row gone gp o1 o2)) \<and>
     (\<forall>o1\<in>set (site_operations s). \<not> K o1 \<longrightarrow> (\<exists>o2\<in>set (site_operations s'). kept_row gone gp o1 o2)) \<and>
     (\<forall>w2\<in>set (site_workspaces s'). wk_kind w2 = ''primary'' \<or>
        (\<exists>w1\<in>set (site_workspaces s). wk_id w1 \<notin> gone \<and> same_place w1 w2)) \<and>
     (\<forall>w1\<in>set (site_workspaces s). wk_id w1 \<notin> gone \<longrightarrow> (\<exists>w2\<in>set (site_workspaces s'). same_place w1 w2))"

lemma set_null_empty [simp]: "set_null {} r = r"
  by (cases r) (simp_all add: set_null_def)

lemma set_null_union: "set_null h (set_null g r) = set_null (g \<union> h) r"
  by (cases r) (simp_all add: set_null_def)

lemma kept_row_refl [simp]: "kept_row {} {} o1 o1"
  by (simp add: kept_row_def)

lemma same_place_refl [simp]: "same_place w w"
  by (simp add: same_place_def)

lemma same_place_ex [simp]: "w \<in> A \<Longrightarrow> \<exists>v\<in>A. same_place v w" "w \<in> A \<Longrightarrow> \<exists>v\<in>A. same_place w v"
  using same_place_refl by blast+

lemma kept_row_trans: "kept_row g p a b \<Longrightarrow> kept_row h q b c \<Longrightarrow> kept_row (g \<union> h) (p \<union> q) a c"
  by (simp add: kept_row_def set_null_union)

lemma kept_row_active: "kept_row g p a b \<Longrightarrow> active b = active a"
  by (simp add: kept_row_def active_def)

text \<open>The operations that may change are told by what a deletion of \<open>gp\<close> does not change.\<close>

definition stable :: "string set \<Rightarrow> (Operation \<Rightarrow> bool) \<Rightarrow> bool" where
  "stable gp K \<longleftrightarrow> (\<forall>gone o1 o2. kept_row gone gp o1 o2 \<longrightarrow> K o1 = K o2)"

lemma stable_kind: "stable gp (\<lambda>o1. o_kind o1 \<in> A)"
  by (simp add: stable_def kept_row_def)

lemma frame_trans:
  assumes "frame K g p s t" "frame K h q t u" "stable p K" "stable q K"
  shows "frame K (g \<union> h) (p \<union> q) s u"
  unfolding frame_def
proof (intro conjI ballI impI)
  fix o3 assume o3: "o3 \<in> set (site_operations u)" "\<not> K o3"
  then obtain o2 where o2: "o2 \<in> set (site_operations t)" "kept_row h q o2 o3" using assms(2) unfolding frame_def by blast
  then have "\<not> K o2" using assms(4) o3(2) unfolding stable_def by blast
  then obtain o1 where "o1 \<in> set (site_operations s)" "kept_row g p o1 o2" using assms(1) o2(1) unfolding frame_def by blast
  then show "\<exists>o1\<in>set (site_operations s). kept_row (g \<union> h) (p \<union> q) o1 o3" using o2(2) kept_row_trans by blast
next
  fix o1 assume o1: "o1 \<in> set (site_operations s)" "\<not> K o1"
  then obtain o2 where o2: "o2 \<in> set (site_operations t)" "kept_row g p o1 o2" using assms(1) unfolding frame_def by blast
  then have "\<not> K o2" using assms(3) o1(2) unfolding stable_def by blast
  then obtain o3 where "o3 \<in> set (site_operations u)" "kept_row h q o2 o3" using assms(2) o2(1) unfolding frame_def by blast
  then show "\<exists>o3\<in>set (site_operations u). kept_row (g \<union> h) (p \<union> q) o1 o3" using o2(2) kept_row_trans by blast
next
  fix w3 assume "w3 \<in> set (site_workspaces u)"
  then consider "wk_kind w3 = ''primary''" | w2 where "w2 \<in> set (site_workspaces t)" "wk_id w2 \<notin> h" "same_place w2 w3"
    using assms(2) unfolding frame_def by blast
  then show "wk_kind w3 = ''primary'' \<or> (\<exists>w1\<in>set (site_workspaces s). wk_id w1 \<notin> g \<union> h \<and> same_place w1 w3)"
  proof cases
    case 2
    then have "wk_kind w2 = ''primary'' \<or> (\<exists>w1\<in>set (site_workspaces s). wk_id w1 \<notin> g \<and> same_place w1 w2)"
      using assms(1) unfolding frame_def by blast
    then show ?thesis using 2 by (auto simp: same_place_def)
  qed simp
next
  fix w1 assume w1: "w1 \<in> set (site_workspaces s)" "wk_id w1 \<notin> g \<union> h"
  then obtain w2 where w2: "w2 \<in> set (site_workspaces t)" "same_place w1 w2" using assms(1) unfolding frame_def by blast
  then have "wk_id w2 \<notin> h" using w1(2) by (simp add: same_place_def)
  then obtain w3 where "w3 \<in> set (site_workspaces u)" "same_place w2 w3" using assms(2) w2(1) unfolding frame_def by blast
  then show "\<exists>w3\<in>set (site_workspaces u). same_place w1 w3" using w2(2) by (auto simp: same_place_def)
qed

lemma frame_weaken: "frame (\<lambda>_. False) g p s s' \<Longrightarrow> frame K g p s s'"
  by (auto simp: frame_def)

lemma stable_none: "stable gp (\<lambda>_. False)" by (simp add: stable_def)

lemma frame_same_tables:
  "site_operations s' = site_operations s \<Longrightarrow> site_workspaces s' = site_workspaces s \<Longrightarrow> frame K {} {} s s'"
  unfolding frame_def using kept_row_refl same_place_refl by fastforce

lemma frame_refl: "frame K {} {} s s"
  by (rule frame_same_tables) simp_all

text \<open>Transitions that delete nothing compose without bookkeeping.\<close>

definition still :: "(Operation \<Rightarrow> bool) \<Rightarrow> site \<Rightarrow> site \<Rightarrow> bool" where
  "still K s s' \<longleftrightarrow> frame K {} {} s s'"

lemma still_trans: "still K s t \<Longrightarrow> still K t u \<Longrightarrow> stable {} K \<Longrightarrow> still K s u"
  unfolding still_def using frame_trans[of K "{}" "{}" s t "{}" "{}" u] by simp

lemma stillI:
  assumes "\<And>o2. o2 \<in> set (site_operations s') \<Longrightarrow> \<not> K o2 \<Longrightarrow> o2 \<in> set (site_operations s)"
    and "\<And>o1. o1 \<in> set (site_operations s) \<Longrightarrow> \<not> K o1 \<Longrightarrow> o1 \<in> set (site_operations s')"
    and "\<And>w2. w2 \<in> set (site_workspaces s') \<Longrightarrow> wk_kind w2 = ''primary'' \<or> (\<exists>w1\<in>set (site_workspaces s). same_place w1 w2)"
    and "\<And>w1. w1 \<in> set (site_workspaces s) \<Longrightarrow> \<exists>w2\<in>set (site_workspaces s'). same_place w1 w2"
  shows "still K s s'"
  unfolding still_def frame_def
  by (intro conjI ballI impI) (use assms kept_row_refl in \<open>blast+\<close>)

lemma still_change:
  assumes "change_operations sel f s = Inr s'"
    and "\<And>o1. o1 \<in> set (site_operations s) \<Longrightarrow> sel o1 \<Longrightarrow> K o1 \<and> K (f o1)"
  shows "still K s s'"
proof (rule stillI)
  note rest = change_operations_rest[OF assms(1)]
  show "o2 \<in> set (site_operations s)" if "o2 \<in> set (site_operations s')" "\<not> K o2" for o2
    using that assms(2) unfolding rest(4) by (auto split: if_splits)
  show "o1 \<in> set (site_operations s')" if "o1 \<in> set (site_operations s)" "\<not> K o1" for o1
  proof -
    have "\<not> sel o1" using that assms(2) by blast
    then show ?thesis using that(1) unfolding rest(4) by force
  qed
  show "\<exists>w1\<in>set (site_workspaces s'). same_place w2 w1" if "w2 \<in> set (site_workspaces s)" for w2
    using that same_place_refl unfolding rest(1) by blast
qed (simp add: change_operations_rest(1)[OF assms(1)])

lemma still_add:
  assumes "add_operation row s = Inr s'" "K row"
  shows "still K s s'"
  unfolding add_operation_rest[OF assms(1)]
  by (rule stillI) (use assms(2) add_operation_rest[OF assms(1)] in \<open>auto intro: same_place_ex\<close>)

lemma still_update_workspaces:
  assumes "update_workspaces sel f s = Inr (n, s')" and "\<And>w. same_place w (f w)"
  shows "still K s s'"
proof (rule stillI)
  have ws: "site_workspaces s' = map (\<lambda>w. if sel w then f w else w) (site_workspaces s)"
    and ops: "site_operations s' = site_operations s"
    using assms(1) by (auto simp: update_workspaces_Inr)
  have same: "same_place w (if sel w then f w else w)" for w using assms(2) by simp
  show "wk_kind w2 = ''primary'' \<or> (\<exists>w1\<in>set (site_workspaces s). same_place w1 w2)"
    if "w2 \<in> set (site_workspaces s')" for w2
    using that same unfolding ws set_map by blast
  show "\<exists>w2\<in>set (site_workspaces s'). same_place w1 w2" if "w1 \<in> set (site_workspaces s)" for w1
    using that same unfolding ws set_map by blast
qed (use assms(1) in \<open>auto simp: update_workspaces_Inr\<close>)

lemma still_insert:
  assumes "insert_workspace w s = Inr s'" "wk_kind w = ''primary''"
  shows "still K s s'"
proof (rule stillI)
  have ws: "site_workspaces s' = site_workspaces s @ [w]" using assms(1) by (auto simp: insert_workspace_Inr)
  show "wk_kind w2 = ''primary'' \<or> (\<exists>w1\<in>set (site_workspaces s). same_place w1 w2)"
    if "w2 \<in> set (site_workspaces s')" for w2 using that assms(2) unfolding ws by (cases "w2 = w") simp_all
  show "\<exists>w2\<in>set (site_workspaces s'). same_place w1 w2" if "w1 \<in> set (site_workspaces s)" for w1
    using that unfolding ws by (intro same_place_ex(2)) simp
qed (use assms(1) in \<open>auto simp: insert_workspace_Inr\<close>)

lemma gone_iff: "site_ok s \<Longrightarrow> w \<in> set (site_workspaces s) \<Longrightarrow> wk_id w \<in> gone_ids sel s \<longleftrightarrow> sel w"
  by (auto simp: gone_ids_def dest: same_workspace_row)

lemma frame_delete_workspaces:
  assumes "site_ok s" shows "frame K (gone_ids sel s) {} s (snd (delete_workspaces sel s))"
proof -
  let ?s = "snd (delete_workspaces sel s)"
  let ?h = "\<lambda>w. w\<lparr>wk_parent := set_null (wk_id ` set (filter sel (site_workspaces s))) (wk_parent w)\<rparr>"
  have row: "kept_row (gone_ids sel s) {} o1 (cut_operation sel s o1)" for o1
    by (simp add: kept_row_def cut_operation_def)
  have place: "same_place w (?h w)" for w by (simp add: same_place_def)
  show ?thesis
    unfolding frame_def
  proof (intro conjI ballI impI)
    fix o2 assume "o2 \<in> set (site_operations ?s)"
    then show "\<exists>o1\<in>set (site_operations s). kept_row (gone_ids sel s) {} o1 o2"
      using row by (auto simp: delete_workspaces_ops)
  next
    fix o1 assume "o1 \<in> set (site_operations s)"
    then have "cut_operation sel s o1 \<in> set (site_operations ?s)" by (simp add: delete_workspaces_ops)
    then show "\<exists>o2\<in>set (site_operations ?s). kept_row (gone_ids sel s) {} o1 o2" using row by blast
  next
    fix w2 assume "w2 \<in> set (site_workspaces ?s)"
    then obtain w where "w \<in> set (site_workspaces s)" "\<not> sel w" "w2 = ?h w" by (auto simp: delete_workspaces_sel)
    then show "wk_kind w2 = ''primary'' \<or> (\<exists>w1\<in>set (site_workspaces s). wk_id w1 \<notin> gone_ids sel s \<and> same_place w1 w2)"
      using place gone_iff[OF assms] by blast
  next
    fix w1 assume "w1 \<in> set (site_workspaces s)" "wk_id w1 \<notin> gone_ids sel s"
    then have "?h w1 \<in> set (site_workspaces ?s)" using gone_iff[OF assms] by (auto simp: delete_workspaces_sel)
    then show "\<exists>w2\<in>set (site_workspaces ?s). same_place w1 w2" using place by blast
  qed
qed

lemma frame_delete_projects:
  assumes "site_ok s" shows "frame K (gone_ids (\<lambda>w. wk_project_id w = i) s) {i} s (snd (delete_projects i s))"
proof -
  let ?s1 = "snd (delete_workspaces (\<lambda>w. wk_project_id w = i) s)" and ?s = "snd (delete_projects i s)"
  let ?gone = "gone_ids (\<lambda>w. wk_project_id w = i) s"
  have ws: "site_workspaces ?s = site_workspaces ?s1"
    and ops: "site_operations ?s = map (\<lambda>o1. o1\<lparr>o_project_id := set_null {i} (o_project_id o1)\<rparr>) (site_operations ?s1)"
    by (simp_all add: delete_projects_def Let_def)
  let ?c = "\<lambda>o1. (cut_operation (\<lambda>w. wk_project_id w = i) s o1)\<lparr>o_project_id := set_null {i} (o_project_id o1)\<rparr>"
  have all: "set (site_operations ?s) = ?c ` set (site_operations s)"
    by (simp add: ops delete_workspaces_ops image_image cut_operation_def)
  have row: "kept_row ?gone {i} o1 (?c o1)" for o1
    by (simp add: kept_row_def cut_operation_def)
  have "frame K ?gone {} s ?s1" by (rule frame_delete_workspaces[OF assms])
  then show ?thesis unfolding frame_def all ws using row by blast
qed

section \<open>A busy workspace has its operation\<close>

definition work_kinds :: "string list" where
  "work_kinds = [''git.workspace.lifecycle'', ''git.workspace.clone'']"

definition busy :: "Workspace \<Rightarrow> bool" where
  "busy w \<longleftrightarrow> wk_status w \<in> {''moving'', ''copying'', ''deleting''}"

definition serves :: "Operation \<Rightarrow> string \<Rightarrow> bool" where
  "serves o1 i \<longleftrightarrow> active o1 \<and> o_kind o1 \<in> set work_kinds \<and> o_workspace_id o1 = Some i"

definition busy_ok :: "site \<Rightarrow> bool" where
  "busy_ok s \<longleftrightarrow> (\<forall>w\<in>set (site_workspaces s). busy w \<longrightarrow> (\<exists>o1\<in>set (site_operations s). serves o1 (wk_id w)))"

definition work_row :: "Operation \<Rightarrow> bool" where
  "work_row o1 \<longleftrightarrow> (o_kind o1 \<in> set work_kinds \<longrightarrow> o_workspace_write o1) \<and>
     (o_kind o1 = ''git.workspace.lifecycle'' \<longrightarrow>
       (\<forall>w. o_workspace_id o1 = Some w \<longrightarrow> (\<exists>c. payload_doc o1 decode_lifecycle = Inr c \<and> lc_workspace_id c = w)))"

definition work_ok :: "site \<Rightarrow> bool" where
  "work_ok s \<longleftrightarrow> (\<forall>o1\<in>set (site_operations s). work_row o1)"

text \<open>The busy workspaces were busy before, and are not among the deleted ones.\<close>

definition no_new_busy :: "string set \<Rightarrow> site \<Rightarrow> site \<Rightarrow> bool" where
  "no_new_busy gone s s' \<longleftrightarrow>
     (\<forall>w2\<in>set (site_workspaces s'). busy w2 \<longrightarrow>
        wk_id w2 \<notin> gone \<and> (\<exists>w1\<in>set (site_workspaces s). wk_id w1 = wk_id w2 \<and> busy w1))"

lemma no_new_busy_trans: "no_new_busy g s t \<Longrightarrow> no_new_busy h t u \<Longrightarrow> no_new_busy (g \<union> h) s u"
  unfolding no_new_busy_def by (metis Un_iff)

lemma no_new_busy_same: "site_workspaces s' = site_workspaces s \<Longrightarrow> no_new_busy {} s s'"
  by (auto simp: no_new_busy_def)

lemma no_new_busy_delete: "site_ok s \<Longrightarrow> no_new_busy (gone_ids sel s) s (snd (delete_workspaces sel s))"
  by (auto simp: no_new_busy_def delete_workspaces_sel gone_iff busy_def)

lemma no_new_busy_delete_projects:
  "site_ok s \<Longrightarrow> no_new_busy (gone_ids (\<lambda>w. wk_project_id w = i) s) s (snd (delete_projects i s))"
  using no_new_busy_delete[of s "\<lambda>w. wk_project_id w = i"]
  by (simp add: no_new_busy_def delete_projects_def Let_def)

lemma no_new_busy_insert:
  "insert_workspace w s = Inr s' \<Longrightarrow> \<not> busy w \<Longrightarrow> no_new_busy {} s s'"
  by (auto simp: insert_workspace_Inr no_new_busy_def)

lemma no_new_busy_update:
  "update_workspaces sel f s = Inr (n, s') \<Longrightarrow> (\<And>w. wk_id (f w) = wk_id w) \<Longrightarrow> (\<And>w. busy (f w) \<Longrightarrow> busy w) \<Longrightarrow>
     no_new_busy {} s s'"
  by (auto simp: update_workspaces_Inr no_new_busy_def)

lemma frame_busy:
  assumes "frame K gone gp s s'" "no_new_busy gone s s'" "busy_ok s"
    and "\<And>o1. K o1 \<Longrightarrow> o_kind o1 \<notin> set work_kinds"
  shows "busy_ok s'"
  unfolding busy_ok_def
proof (intro ballI impI)
  fix w2 assume w2: "w2 \<in> set (site_workspaces s')" "busy w2"
  then obtain w1 where w1: "w1 \<in> set (site_workspaces s)" "wk_id w1 = wk_id w2" "busy w1" "wk_id w2 \<notin> gone"
    using assms(2) unfolding no_new_busy_def by blast
  then obtain o1 where o1: "o1 \<in> set (site_operations s)" "serves o1 (wk_id w2)"
    using assms(3) unfolding busy_ok_def by metis
  then obtain o2 where o2: "o2 \<in> set (site_operations s')" "kept_row gone gp o1 o2"
    using assms(1,4) unfolding frame_def serves_def by blast
  then have "serves o2 (wk_id w2)"
    using o1(2) w1(4) kept_row_active[OF o2(2)] by (auto simp: serves_def kept_row_def set_null_simps)
  then show "\<exists>o1\<in>set (site_operations s'). serves o1 (wk_id w2)" using o2(1) by blast
qed

lemma quiet_busy: "quiet s s' \<Longrightarrow> busy_ok s \<Longrightarrow> busy_ok s'"
  unfolding quiet_def busy_ok_def serves_def same_work_def own_def work_kinds_def own_kinds_def
  by (metis list.set_intros(1,2))

section \<open>The deletion of a project\<close>

definition managed_worktree :: "string \<Rightarrow> Workspace \<Rightarrow> bool" where
  "managed_worktree p w \<longleftrightarrow> wk_project_id w = p \<and> wk_management_mode w = ''managed'' \<and> wk_kind w = ''worktree''"

definition waits :: "string \<Rightarrow> Operation \<Rightarrow> bool" where
  "waits p o1 \<longleftrightarrow> is_delete p o1 \<and> o_status o1 = ''waiting''"

text \<open>The operations have workspaces of the project, and a repository waits for the worktrees.\<close>

definition worktrees_first :: "string \<Rightarrow> site \<Rightarrow> bool" where
  "worktrees_first p s \<longleftrightarrow>
     (\<forall>o1\<in>set (site_operations s). waits p o1 \<longrightarrow>
        (\<forall>w\<in>set (site_workspaces s). managed_worktree p w \<longrightarrow>
           (\<exists>o2\<in>set (site_operations s). is_delete p o2 \<and> (active o2 \<or> o_status o2 = ''failed'') \<and>
              o_workspace_id o2 = Some (wk_id w)))) \<and>
     (\<forall>o1\<in>set (site_operations s). \<forall>w\<in>set (site_workspaces s).
        is_delete p o1 \<and> active o1 \<and> o_workspace_id o1 = Some (wk_id w) \<and> wk_kind w \<noteq> ''worktree'' \<longrightarrow>
          (\<forall>v\<in>set (site_workspaces s). \<not> managed_worktree p v))"

definition no_stall :: "string \<Rightarrow> site \<Rightarrow> bool" where
  "no_stall p s \<longleftrightarrow>
     (\<forall>o1\<in>set (site_operations s). waits p o1 \<longrightarrow> (\<exists>o2\<in>set (site_operations s). is_delete p o2 \<and> active o2))"

lemma kept_is_delete: "kept_row gone gp o1 o2 \<Longrightarrow> is_delete p o2 \<Longrightarrow> is_delete p o1 \<and> p \<notin> gp"
  by (auto simp: kept_row_def is_delete_def set_null_simps)

lemma is_delete_kept: "kept_row gone gp o1 o2 \<Longrightarrow> is_delete p o1 \<Longrightarrow> p \<notin> gp \<Longrightarrow> is_delete p o2"
  by (auto simp: kept_row_def is_delete_def set_null_simps)

lemma frame_deletion:
  assumes fr: "frame K gone gp s s'" and ok: "site_ok s'" "site_ok s" and K: "\<And>o1. K o1 \<Longrightarrow> \<not> is_delete p o1"
    and refs: "\<And>w. w \<in> set (site_workspaces s') \<Longrightarrow> wk_id w \<notin> gone"
  shows "no_stall p s \<Longrightarrow> no_stall p s'" and "worktrees_first p s \<Longrightarrow> worktrees_first p s'"
proof -
  have came: "\<exists>o1\<in>set (site_operations s). kept_row gone gp o1 o2 \<and> is_delete p o1 \<and> p \<notin> gp"
    if "o2 \<in> set (site_operations s')" "is_delete p o2" for o2
    using that fr K kept_is_delete unfolding frame_def by metis
  have goes: "\<exists>o2\<in>set (site_operations s'). kept_row gone gp o1 o2 \<and> is_delete p o2"
    if "o1 \<in> set (site_operations s)" "is_delete p o1" "p \<notin> gp" for o1
    using that fr K is_delete_kept unfolding frame_def by metis
  show "no_stall p s'" if stall: "no_stall p s"
    unfolding no_stall_def
  proof (intro ballI impI)
    fix o2 assume o2: "o2 \<in> set (site_operations s')" "waits p o2"
    then obtain o1 where o1: "o1 \<in> set (site_operations s)" "kept_row gone gp o1 o2" "is_delete p o1" "p \<notin> gp"
      using came unfolding waits_def by blast
    then have "waits p o1" using o2(2) by (simp add: waits_def kept_row_def)
    then obtain q1 where q1: "q1 \<in> set (site_operations s)" "is_delete p q1" "active q1"
      using stall o1(1) unfolding no_stall_def by blast
    then obtain q2 where q2: "q2 \<in> set (site_operations s')" "kept_row gone gp q1 q2" "is_delete p q2"
      using goes o1(4) by blast
    then show "\<exists>o2\<in>set (site_operations s'). is_delete p o2 \<and> active o2" using q1(3) kept_row_active by blast
  qed
  have origin: "\<exists>w1\<in>set (site_workspaces s). same_place w1 w2" if "w2 \<in> set (site_workspaces s')" "managed_worktree p w2" for w2
    using that fr unfolding frame_def managed_worktree_def by fastforce
  show "worktrees_first p s'" if first: "worktrees_first p s"
    unfolding worktrees_first_def
  proof (intro conjI ballI impI)
    fix o2 w2 assume o2: "o2 \<in> set (site_operations s')" "waits p o2" and w2: "w2 \<in> set (site_workspaces s')" "managed_worktree p w2"
    obtain o1 where o1: "o1 \<in> set (site_operations s)" "kept_row gone gp o1 o2" "is_delete p o1" "p \<notin> gp"
      using o2 came unfolding waits_def by blast
    then have "waits p o1" using o2(2) by (simp add: waits_def kept_row_def)
    moreover obtain w1 where w1: "w1 \<in> set (site_workspaces s)" "same_place w1 w2" using origin w2 by blast
    ultimately obtain q1 where q1: "q1 \<in> set (site_operations s)" "is_delete p q1" "active q1 \<or> o_status q1 = ''failed''"
        "o_workspace_id q1 = Some (wk_id w2)"
      using first o1(1) w2(2) unfolding worktrees_first_def managed_worktree_def same_place_def by metis
    then obtain q2 where q2: "q2 \<in> set (site_operations s')" "kept_row gone gp q1 q2" "is_delete p q2"
      using goes o1(4) by blast
    moreover have "active q2 \<or> o_status q2 = ''failed''" using q1(3) q2(2) kept_row_active by (auto simp: kept_row_def)
    moreover have "o_workspace_id q2 = Some (wk_id w2)" using q1(4) q2(2) refs[OF w2(1)] by (simp add: kept_row_def set_null_simps)
    ultimately show "\<exists>o2\<in>set (site_operations s'). is_delete p o2 \<and> (active o2 \<or> o_status o2 = ''failed'') \<and>
              o_workspace_id o2 = Some (wk_id w2)" by blast
  next
    fix o2 w2 v2
    assume o2: "o2 \<in> set (site_operations s')" and w2: "w2 \<in> set (site_workspaces s')" and v2: "v2 \<in> set (site_workspaces s')"
      and h: "is_delete p o2 \<and> active o2 \<and> o_workspace_id o2 = Some (wk_id w2) \<and> wk_kind w2 \<noteq> ''worktree''"
    obtain o1 where o1: "o1 \<in> set (site_operations s)" "kept_row gone gp o1 o2" "is_delete p o1"
      using o2 h came by blast
    have "set_null gone (o_workspace_id o1) = Some (wk_id w2)" using h o1(2) by (simp add: kept_row_def)
    then have ref: "o_workspace_id o1 = Some (wk_id w2)" by (simp add: set_null_simps)
    have act: "active o1" using h kept_row_active[OF o1(2)] by simp
    have "wk_id w2 \<in> set (map wk_id (site_workspaces s))"
      using ref o1(1) site_okD(5)[OF ok(2)] by (auto simp: operations_ok_def list_all_iff refs_parts refers_def)
    then obtain w1 where w1: "w1 \<in> set (site_workspaces s)" "wk_id w1 = wk_id w2" by auto
    then obtain w2' where "w2' \<in> set (site_workspaces s')" "same_place w1 w2'"
      using fr refs[OF w2] unfolding frame_def by metis
    then have "same_place w1 w2" using same_workspace_row[OF ok(1)] w2 w1(2) by (metis same_place_def)
    then have "wk_kind w1 \<noteq> ''worktree''" using h by (simp add: same_place_def)
    then have none: "\<not> managed_worktree p v" if "v \<in> set (site_workspaces s)" for v
      using that first o1 ref act w1 unfolding worktrees_first_def by metis
    show "\<not> managed_worktree p v2"
    proof
      assume "managed_worktree p v2"
      then obtain v1 where "v1 \<in> set (site_workspaces s)" "same_place v1 v2" using origin v2 by blast
      then show False using none \<open>managed_worktree p v2\<close> by (auto simp: managed_worktree_def same_place_def)
    qed
  qed
qed

lemma quiet_deletion:
  assumes "quiet s s'"
  shows "no_stall p s \<Longrightarrow> no_stall p s'" and "worktrees_first p s \<Longrightarrow> worktrees_first p s'"
proof -
  have ws: "site_workspaces s' = site_workspaces s" using assms by (simp add: quiet_def)
  have own: "is_delete p o1 \<Longrightarrow> own o1" for o1 by (simp add: is_delete_def own_def own_kinds_def)
  have came: "\<exists>o1\<in>set (site_operations s). same_work o1 o2" if "o2 \<in> set (site_operations s')" "is_delete p o2" for o2
    using that assms own unfolding quiet_def by blast
  have goes: "\<exists>o2\<in>set (site_operations s'). same_work o1 o2" if "o1 \<in> set (site_operations s)" "is_delete p o1" for o1
    using that assms own unfolding quiet_def by blast
  have same: "is_delete p o2 = is_delete p o1" "active o2 = active o1" "o_workspace_id o2 = o_workspace_id o1"
    "waits p o2 = waits p o1" "active o1 \<or> o_status o1 = ''failed'' \<Longrightarrow> active o2 \<or> o_status o2 = ''failed''"
    if "same_work o1 o2" for o1 o2
    using that by (auto simp: same_work_def is_delete_def waits_def active_def active_statuses_def)
  have waits: "waits p o1 \<Longrightarrow> is_delete p o1" for o1 by (simp add: waits_def)
  show "no_stall p s'" if stall: "no_stall p s"
    unfolding no_stall_def
  proof (intro ballI impI)
    fix o2 assume o2: "o2 \<in> set (site_operations s')" "waits p o2"
    obtain o1 where "o1 \<in> set (site_operations s)" "same_work o1 o2" using came[OF o2(1) waits[OF o2(2)]] by blast
    then obtain q1 where q1: "q1 \<in> set (site_operations s)" "is_delete p q1" "active q1"
      using stall same(4) o2(2) unfolding no_stall_def by blast
    obtain q2 where "q2 \<in> set (site_operations s')" "same_work q1 q2" using goes[OF q1(1,2)] by blast
    then show "\<exists>o2\<in>set (site_operations s'). is_delete p o2 \<and> active o2" using same(1,2) q1(2,3) by blast
  qed
  show "worktrees_first p s'" if f: "worktrees_first p s"
    unfolding worktrees_first_def ws
  proof (intro conjI ballI impI)
    fix o2 w assume o2: "o2 \<in> set (site_operations s')" "waits p o2" and w: "w \<in> set (site_workspaces s)" "managed_worktree p w"
    obtain o1 where o1: "o1 \<in> set (site_operations s)" "same_work o1 o2" using came[OF o2(1) waits[OF o2(2)]] by blast
    have "waits p o1" using same(4)[OF o1(2)] o2(2) by simp
    with f o1(1) w have "\<exists>q1\<in>set (site_operations s). is_delete p q1 \<and> (active q1 \<or> o_status q1 = ''failed'') \<and>
        o_workspace_id q1 = Some (wk_id w)"
      unfolding worktrees_first_def by blast
    then obtain q1 where q1: "q1 \<in> set (site_operations s)" "is_delete p q1" "active q1 \<or> o_status q1 = ''failed''"
        "o_workspace_id q1 = Some (wk_id w)" by blast
    obtain q2 where q2: "q2 \<in> set (site_operations s')" "same_work q1 q2" using goes[OF q1(1,2)] by blast
    have "is_delete p q2" using same(1)[OF q2(2)] q1(2) by simp
    moreover have "o_workspace_id q2 = Some (wk_id w)" using same(3)[OF q2(2)] q1(4) by simp
    moreover have "active q2 \<or> o_status q2 = ''failed''" by (rule same(5)[OF q2(2) q1(3)])
    ultimately show "\<exists>o2\<in>set (site_operations s'). is_delete p o2 \<and> (active o2 \<or> o_status o2 = ''failed'') \<and>
        o_workspace_id o2 = Some (wk_id w)" using q2(1) by blast
  next
    fix o2 w v
    assume o2: "o2 \<in> set (site_operations s')" and w: "w \<in> set (site_workspaces s)" and v: "v \<in> set (site_workspaces s)"
      and h: "is_delete p o2 \<and> active o2 \<and> o_workspace_id o2 = Some (wk_id w) \<and> wk_kind w \<noteq> ''worktree''"
    obtain o1 where o1: "o1 \<in> set (site_operations s)" "same_work o1 o2" using came[OF o2] h by blast
    have "is_delete p o1 \<and> active o1 \<and> o_workspace_id o1 = Some (wk_id w) \<and> wk_kind w \<noteq> ''worktree''"
      using same(1-3)[OF o1(2)] h by simp
    then show "\<not> managed_worktree p v" using f o1(1) w v unfolding worktrees_first_def by blast
  qed
qed

section \<open>A project in provision has its operation\<close>

definition provisions :: "string \<Rightarrow> Operation \<Rightarrow> bool" where
  "provisions p o1 \<longleftrightarrow> is_create p o1 \<and> (active o1 \<or> o_status o1 = ''preparing'')"

definition provisioning_ok :: "site \<Rightarrow> bool" where
  "provisioning_ok s \<longleftrightarrow> (\<forall>p\<in>set (site_projects s). pj_status p = ''provisioning'' \<longrightarrow>
     (\<exists>o1\<in>set (site_operations s). provisions (pj_id p) o1))"

definition no_new_provision :: "string set \<Rightarrow> site \<Rightarrow> site \<Rightarrow> bool" where
  "no_new_provision gp s s' \<longleftrightarrow>
     (\<forall>p2\<in>set (site_projects s'). pj_status p2 = ''provisioning'' \<longrightarrow> pj_id p2 \<notin> gp \<and>
        (\<exists>p1\<in>set (site_projects s). pj_id p1 = pj_id p2 \<and> pj_status p1 = ''provisioning''))"

lemma no_new_provision_same: "site_projects s' = site_projects s \<Longrightarrow> no_new_provision {} s s'"
  by (auto simp: no_new_provision_def)

lemma no_new_provision_trans: "no_new_provision g s t \<Longrightarrow> no_new_provision h t u \<Longrightarrow> no_new_provision (g \<union> h) s u"
  unfolding no_new_provision_def by (metis Un_iff)

lemma no_new_provision_update:
  "update_projects sel f s = Inr s' \<Longrightarrow> (\<And>p. pj_id (f p) = pj_id p) \<Longrightarrow>
     (\<And>p. pj_status (f p) = ''provisioning'' \<Longrightarrow> pj_status p = ''provisioning'') \<Longrightarrow> no_new_provision {} s s'"
  by (auto simp: no_new_provision_def update_projects_rest(4))

lemma no_new_provision_delete: "no_new_provision {i} s (snd (delete_projects i s))"
  by (auto simp: no_new_provision_def delete_projects_def Let_def)

lemma frame_provisioning:
  assumes fr: "frame K gone gp s s'" and "no_new_provision gp s s'" "provisioning_ok s"
    and K: "\<And>o1. K o1 \<Longrightarrow> o_kind o1 \<noteq> gitProjectCreateKind"
  shows "provisioning_ok s'"
  unfolding provisioning_ok_def
proof (intro ballI impI)
  fix p2 assume "p2 \<in> set (site_projects s')" "pj_status p2 = ''provisioning''"
  then obtain p1 where p1: "p1 \<in> set (site_projects s)" "pj_id p1 = pj_id p2" "pj_status p1 = ''provisioning''" "pj_id p2 \<notin> gp"
    using assms(2) unfolding no_new_provision_def by blast
  then obtain o1 where o1: "o1 \<in> set (site_operations s)" "provisions (pj_id p2) o1"
    using assms(3) unfolding provisioning_ok_def by metis
  then have "\<not> K o1" using K by (auto simp: provisions_def is_create_def)
  then obtain o2 where o2: "o2 \<in> set (site_operations s')" "kept_row gone gp o1 o2" using fr o1(1) unfolding frame_def by blast
  then have "provisions (pj_id p2) o2"
    using o1(2) p1(4) kept_row_active[OF o2(2)] by (auto simp: provisions_def is_create_def kept_row_def set_null_simps)
  then show "\<exists>o2\<in>set (site_operations s'). provisions (pj_id p2) o2" using o2(1) by blast
qed

lemma quiet_provisioning: "quiet s s' \<Longrightarrow> provisioning_ok s \<Longrightarrow> provisioning_ok s'"
  unfolding quiet_def provisioning_ok_def provisions_def same_work_def own_def own_kinds_def is_create_def
  by (metis list.set_intros(1))

section \<open>Transitions that delete nothing\<close>

definition calm :: "(Operation \<Rightarrow> bool) \<Rightarrow> site \<Rightarrow> site \<Rightarrow> bool" where
  "calm K s s' \<longleftrightarrow> still K s s' \<and> no_new_busy {} s s'"

lemma calm_trans: "calm K s t \<Longrightarrow> calm K t u \<Longrightarrow> stable {} K \<Longrightarrow> calm K s u"
  unfolding calm_def using still_trans no_new_busy_trans[of "{}" s t "{}" u] by auto

lemma calm_same:
  "site_operations s' = site_operations s \<Longrightarrow> site_workspaces s' = site_workspaces s \<Longrightarrow> calm K s s'"
  unfolding calm_def still_def using frame_same_tables no_new_busy_same by blast

lemma calm_refl: "calm K s s" by (rule calm_same) simp_all

lemma calm_change:
  "change_operations sel f s = Inr s' \<Longrightarrow>
     (\<And>o1. o1 \<in> set (site_operations s) \<Longrightarrow> sel o1 \<Longrightarrow> K o1 \<and> K (f o1)) \<Longrightarrow> calm K s s'"
  unfolding calm_def using still_change no_new_busy_same[OF change_operations_rest(1)] by blast

lemma calm_add: "add_operation row s = Inr s' \<Longrightarrow> K row \<Longrightarrow> calm K s s'"
  unfolding calm_def using still_add no_new_busy_same[OF add_operation_rest(1)] by blast

lemma calm_projects: "update_projects sel f s = Inr s' \<Longrightarrow> calm K s s'"
  by (rule calm_same) (simp_all add: update_projects_rest)

lemma calm_append_project: "store_projects ps s = Inr s' \<Longrightarrow> calm K s s'"
  by (rule calm_same) (auto simp: store_projects_def split: if_splits)

lemma calm_origin: "update_origin p f s = Inr (n, s') \<Longrightarrow> calm K s s'"
  by (rule calm_same) (auto simp: update_origin_def store_remotes_def try_then_Inr_iff split: if_splits)

lemma calm_remote: "prepareProjectRemote p spec st now s = Inr s' \<Longrightarrow> calm K s s'"
  by (rule calm_same) (auto simp: prepareProjectRemote_def store_remotes_def split: if_splits)

lemma calm_insert: "insert_workspace w s = Inr s' \<Longrightarrow> wk_kind w = ''primary'' \<Longrightarrow> \<not> busy w \<Longrightarrow> calm K s s'"
  unfolding calm_def using still_insert no_new_busy_insert by blast

lemma new_primary_calm [simp]: "wk_kind (new_primary i p srv path nm br sha dirty r now) = ''primary''"
  "\<not> busy (new_primary i p srv path nm br sha dirty r now)"
  by (simp_all add: new_primary_def busy_def)

lemma calm_deletion:
  assumes "calm K s s'" "site_ok s" "site_ok s'" and "\<And>o1. K o1 \<Longrightarrow> \<not> is_delete p o1"
  shows "no_stall p s \<Longrightarrow> no_stall p s'" and "worktrees_first p s \<Longrightarrow> worktrees_first p s'"
  using frame_deletion[of K "{}" "{}" s s' p] assms unfolding calm_def still_def by auto

lemma calm_busy: "calm K s s' \<Longrightarrow> busy_ok s \<Longrightarrow> (\<And>o1. K o1 \<Longrightarrow> o_kind o1 \<notin> set work_kinds) \<Longrightarrow> busy_ok s'"
  unfolding calm_def still_def using frame_busy by blast

lemma calm_provisioning:
  "calm K s s' \<Longrightarrow> no_new_provision {} s s' \<Longrightarrow> provisioning_ok s \<Longrightarrow>
     (\<And>o1. K o1 \<Longrightarrow> o_kind o1 \<noteq> gitProjectCreateKind) \<Longrightarrow> provisioning_ok s'"
  unfolding calm_def still_def using frame_provisioning by blast

section \<open>The creation of projects\<close>

abbreviation creates :: "Operation \<Rightarrow> bool" where
  "creates o1 \<equiv> o_kind o1 = gitProjectCreateKind"

lemma calm_chain: "calm creates s t \<Longrightarrow> calm creates t u \<Longrightarrow> calm creates s u"
  by (rule calm_trans) (simp_all add: stable_def kept_row_def)

lemma finish_kind [simp]: "o_kind (finish st msg data now o1) = o_kind o1" "o_project_id (finish st msg data now o1) = o_project_id o1"
  "o_workspace_id (finish st msg data now o1) = o_workspace_id o1" "o_id (finish st msg data now o1) = o_id o1"
  "o_payload (finish st msg data now o1) = o_payload o1" "o_workspace_write (finish st msg data now o1) = o_workspace_write o1"
  "o_status (finish st msg data now o1) = st"
  by (simp_all add: finish_def)

lemma create_operation_sel [simp]:
  "o_kind (create_operation i srv c key st now) = gitProjectCreateKind"
  "o_status (create_operation i srv c key st now) = st"
  "o_project_id (create_operation i srv c key st now) = nullif_empty (pc_project_id c)"
  "o_workspace_id (create_operation i srv c key st now) = None"
  by (simp_all add: create_operation_def with_id_def nullif_empty_def)

lemma createBlankProject_cases:
  assumes "createBlankProject u srv n dest br rd spec st ids now s = Inr (bp, s')"
  obtains s1 s2 p c i key where "store_projects (site_projects s @ [p]) s = Inr s1" "pj_id p = fst ids"
    "add_operation (create_operation i srv c key st now) s1 = Inr s2" "pc_project_id c = fst ids"
    "prepareProjectRemote (fst ids) spec (if st = ''preparing'' then ''provisioning'' else ''ready'') now s2 = Inr s'"
  using assms by (auto simp: createBlankProject_def Let_def try_then_Inr_iff split: prod.splits)

lemma create_calm: "createBlankProject u srv n dest br rd spec st ids now s = Inr (bp, s') \<Longrightarrow> calm creates s s'"
  by (erule createBlankProject_cases)
    (rule calm_chain[OF calm_append_project calm_chain[OF calm_add calm_remote]], assumption+, simp, assumption)

lemma create_provisioning:
  assumes "createBlankProject u srv n dest br rd spec st ids now s = Inr (bp, s')"
    and "st \<in> {''queued'', ''preparing''}" "fst ids \<noteq> []" "provisioning_ok s"
  shows "provisioning_ok s'"
  using assms(1)
proof (rule createBlankProject_cases)
  fix s1 s2 p c i key
  assume a: "store_projects (site_projects s @ [p]) s = Inr s1" "pj_id p = fst ids" "pc_project_id c = fst ids"
    and b: "add_operation (create_operation i srv c key st now) s1 = Inr s2"
    and c: "prepareProjectRemote (fst ids) spec (if st = ''preparing'' then ''provisioning'' else ''ready'') now s2 = Inr s'"
  let ?row = "create_operation i srv c key st now"
  have ops: "site_operations s' = site_operations s @ [?row]" and ps: "site_projects s' = site_projects s @ [p]"
    using a(1) c add_operation_rest[OF b]
    by (auto simp: store_projects_def prepareProjectRemote_def store_remotes_def split: if_splits)
  have "provisions (pj_id p) ?row"
    using assms(2,3) a(2,3) by (auto simp: provisions_def is_create_def nullif_empty_def queued_active)
  then show ?thesis using assms(4) unfolding provisioning_ok_def ops ps by auto
qed

lemma settle_create_calm:
  assumes "settle_create p res st data now s = Inr s'"
    and "\<And>o1. o1 \<in> set (site_operations s) \<Longrightarrow> o_id o1 = ResultOperationID res \<Longrightarrow> creates o1"
  shows "calm creates s s'"
  by (rule calm_change[OF assms(1)[unfolded settle_create_def]]) (use assms(2) in auto)

lemma settle_create_provisioning:
  assumes "settle_create p res st data now s = Inr s'" "provisioning_ok s"
    and "\<And>q. q \<in> set (site_projects s) \<Longrightarrow> pj_id q = p \<Longrightarrow> pj_status q \<noteq> ''provisioning''"
  shows "provisioning_ok s'"
  unfolding provisioning_ok_def
proof (intro ballI impI)
  note rest = change_operations_rest[OF assms(1)[unfolded settle_create_def]]
  fix q assume q: "q \<in> set (site_projects s')" "pj_status q = ''provisioning''"
  then have "pj_id q \<noteq> p" using assms(3) rest(2) by auto
  moreover obtain o1 where "o1 \<in> set (site_operations s)" "provisions (pj_id q) o1"
    using assms(2) q rest(2) unfolding provisioning_ok_def by auto
  ultimately show "\<exists>o1\<in>set (site_operations s'). provisions (pj_id q) o1"
    unfolding rest(4) by (intro bexI[where x = o1]) (auto simp: provisions_def is_create_def image_iff intro!: bexI[where x = o1])
qed

lemma fail_create_calm:
  assumes "FailBlankProject c res st now s = Inr s'"
    and "\<And>o1. o1 \<in> set (site_operations s) \<Longrightarrow> o_id o1 = ResultOperationID res \<Longrightarrow> creates o1"
  shows "calm creates s s'"
proof -
  obtain f g s1 n s2 where a: "update_projects (\<lambda>p. pj_id p = pc_project_id c) f s = Inr s1"
    "update_origin (pc_project_id c) g s1 = Inr (n, s2)" "settle_create (pc_project_id c) res ''failed'' (failure_data res) now s2 = Inr s'"
    using assms(1) by (auto simp: FailBlankProject_def Let_def try_then_Inr_iff)
  have "site_operations s2 = site_operations s"
    using a(2) update_projects_rest(2)[OF a(1)] by (auto simp: update_origin_def store_remotes_def try_then_Inr_iff split: if_splits)
  then have "calm creates s2 s'" using settle_create_calm[OF a(3)] assms(2) by auto
  then show ?thesis using calm_chain[OF calm_projects[OF a(1)] calm_chain[OF calm_origin[OF a(2)]]] by blast
qed

lemma fail_create_provisioning:
  assumes "FailBlankProject c res st now s = Inr s'" "provisioning_ok s"
  shows "provisioning_ok s'"
proof -
  let ?st = "if st \<noteq> ''failed'' \<and> st \<noteq> ''partial'' then ''failed'' else st"
  obtain g s1 n s2 where a: "update_projects (\<lambda>p. pj_id p = pc_project_id c)
      (\<lambda>p. p\<lparr>pj_status := ?st, pj_provision_error := ResultMessage res, pj_updated_at := now\<rparr>) s = Inr s1"
    "update_origin (pc_project_id c) g s1 = Inr (n, s2)" "settle_create (pc_project_id c) res ''failed'' (failure_data res) now s2 = Inr s'"
    using assms(1) unfolding FailBlankProject_def Let_def try_then_Inr_iff by auto
  have st: "?st \<noteq> ''provisioning''" by auto
  have 1: "provisioning_ok s1"
    using calm_provisioning[OF calm_projects[OF a(1)] no_new_provision_update[OF a(1)] assms(2), where K = "\<lambda>_. False"] st by simp
  have tables: "site_operations s2 = site_operations s1" "site_projects s2 = site_projects s1"
    using a(2) by (auto simp: update_origin_def store_remotes_def try_then_Inr_iff split: if_splits)
  then have 2: "provisioning_ok s2" using 1 unfolding provisioning_ok_def by simp
  show ?thesis
    by (rule settle_create_provisioning[OF a(3) 2]) (use st in \<open>auto simp: tables update_projects_rest(4)[OF a(1)] simp del: if_split\<close>)
qed

lemma no_provision_of:
  "update_projects (\<lambda>p. pj_id p = i) (\<lambda>p. p\<lparr>pj_status := st, pj_provision_error := e, pj_updated_at := u\<rparr>) s = Inr s' \<Longrightarrow>
     st \<noteq> ''provisioning'' \<Longrightarrow> no_new_provision {} s s' \<and>
     (\<forall>q\<in>set (site_projects s'). pj_id q = i \<longrightarrow> pj_status q \<noteq> ''provisioning'')"
proof -
  assume a: "update_projects (\<lambda>p. pj_id p = i) (\<lambda>p. p\<lparr>pj_status := st, pj_provision_error := e, pj_updated_at := u\<rparr>) s = Inr s'"
    and st: "st \<noteq> ''provisioning''"
  have "no_new_provision {} s s'" by (rule no_new_provision_update[OF a]) (use st in simp_all)
  moreover have "\<forall>q\<in>set (site_projects s'). pj_id q = i \<longrightarrow> pj_status q \<noteq> ''provisioning''"
  proof (intro ballI impI)
    fix q assume q: "q \<in> set (site_projects s')" "pj_id q = i"
    then obtain p where "q = (if pj_id p = i then p\<lparr>pj_status := st, pj_provision_error := e, pj_updated_at := u\<rparr> else p)"
      unfolding update_projects_rest(4)[OF a] set_map by blast
    then show "pj_status q \<noteq> ''provisioning''" using q(2) st by (cases "pj_id p = i") simp_all
  qed
  ultimately show ?thesis by blast
qed

lemma commit_cases:
  assumes "CommitBlankProject op1 c r res now s = Inr s'"
  obtains s1 s2 data where "insert_workspace (new_primary (pc_workspace_id c) (pc_project_id c) (o_server_id op1) (pr_path r)
       (pc_name c) (pr_branch r) (pr_commit_sha r) 0 (Some now) now) s = Inr s1"
    "update_projects (\<lambda>p. pj_id p = pc_project_id c)
       (\<lambda>p. p\<lparr>pj_status := ''ready'', pj_provision_error := [], pj_updated_at := now\<rparr>) s1 = Inr s2"
    "settle_create (pc_project_id c) res (ResultStatus res) data now s2 = Inr s'"
    "ValidateBlankProjectResult c r = Inr ()" "operationResultData (ResultData res) = Inr data"
proof -
  have "ValidateBlankProjectResult c r = Inr ()"
    using assms by (cases "ValidateBlankProjectResult c r") (auto simp: CommitBlankProject_def split: if_splits)
  then show ?thesis
    using assms that
    by (clarsimp simp: CommitBlankProject_def try_then_Inr_iff split: if_split_asm)
qed

lemma commit_calm:
  assumes "CommitBlankProject op1 c r res now s = Inr s'"
    and "\<And>o1. o1 \<in> set (site_operations s) \<Longrightarrow> o_id o1 = ResultOperationID res \<Longrightarrow> creates o1"
  shows "calm creates s s'"
  using assms(1)
proof (rule commit_cases)
  fix s1 s2 data
  let ?w = "new_primary (pc_workspace_id c) (pc_project_id c) (o_server_id op1) (pr_path r)
       (pc_name c) (pr_branch r) (pr_commit_sha r) 0 (Some now) now"
  let ?f = "\<lambda>p. p\<lparr>pj_status := ''ready'', pj_provision_error := [], pj_updated_at := now\<rparr>"
  assume a: "insert_workspace ?w s = Inr s1" and b: "update_projects (\<lambda>p. pj_id p = pc_project_id c) ?f s1 = Inr s2"
    and c: "settle_create (pc_project_id c) res (ResultStatus res) data now s2 = Inr s'"
  have "site_operations s2 = site_operations s" using a update_projects_rest(2)[OF b] by (auto simp: insert_workspace_Inr)
  then have "calm creates s2 s'" using settle_create_calm[OF c] assms(2) by auto
  moreover have "calm creates s s1" using calm_insert[OF a] by simp
  ultimately show ?thesis using calm_chain calm_projects[OF b] by blast
qed

lemma commit_provisioning:
  assumes "CommitBlankProject op1 c r res now s = Inr s'" "provisioning_ok s"
  shows "provisioning_ok s'"
  using assms(1)
proof (rule commit_cases)
  fix s1 s2 data
  let ?w = "new_primary (pc_workspace_id c) (pc_project_id c) (o_server_id op1) (pr_path r)
       (pc_name c) (pr_branch r) (pr_commit_sha r) 0 (Some now) now"
  let ?f = "\<lambda>p. p\<lparr>pj_status := ''ready'', pj_provision_error := [], pj_updated_at := now\<rparr>"
  assume a: "insert_workspace ?w s = Inr s1" and b: "update_projects (\<lambda>p. pj_id p = pc_project_id c) ?f s1 = Inr s2"
    and c: "settle_create (pc_project_id c) res (ResultStatus res) data now s2 = Inr s'"
  have ps: "no_new_provision {} s1 s2" "\<forall>q\<in>set (site_projects s2). pj_id q = pc_project_id c \<longrightarrow> pj_status q \<noteq> ''provisioning''"
    using no_provision_of[OF b] by simp_all
  have "provisioning_ok s1" using assms(2) a by (auto simp: insert_workspace_Inr provisioning_ok_def)
  then have "provisioning_ok s2"
    using calm_provisioning[OF calm_projects[OF b] ps(1), where K = "\<lambda>_. False"] by simp
  then show ?thesis by (rule settle_create_provisioning[OF c]) (use ps(2) in blast)
qed

lemma create_result_cases:
  assumes "handle_create_result why shown op1 res now s = Inr (pub, s')"
  obtains c r where "CommitBlankProject op1 c r res now s = Inr s'" | c st where "FailBlankProject c pub st now s = Inr s'"
      "ResultOperationID pub = ResultOperationID res"
  using assms
  by (auto simp: handle_create_result_def try_then_Inr_iff Let_def failed_with_def default_message_def
      split: if_splits option.splits sum.splits)

lemma create_result_keeps:
  assumes "handle_create_result why shown op1 res now s = Inr (pub, s')"
    and "\<And>o1. o1 \<in> set (site_operations s) \<Longrightarrow> o_id o1 = ResultOperationID res \<Longrightarrow> creates o1" and "provisioning_ok s"
  shows "calm creates s s' \<and> provisioning_ok s'"
  using assms(1)
proof (rule create_result_cases)
  fix c r assume "CommitBlankProject op1 c r res now s = Inr s'"
  then show ?thesis using commit_calm commit_provisioning assms(2,3) by blast
next
  fix c st assume "FailBlankProject c pub st now s = Inr s'" "ResultOperationID pub = ResultOperationID res"
  then show ?thesis using fail_create_calm fail_create_provisioning assms(2,3) by metis
qed

lemma site_operation_Inr: "site_operation i s = Inr o1 \<Longrightarrow> o1 \<in> set (site_operations s) \<and> o_id o1 = i"
  using find_row_Inr by (fastforce simp: site_operation_def operation_row_def)

lemma activate_keeps:
  assumes "ActivateBlankProjectRemote u p i m now s = Inr (bp, s')" "site_ok s" "provisioning_ok s"
  shows "calm creates s s' \<and> provisioning_ok s'"
proof -
  obtain op1 c0 c f s1 n s2 cmd where a: "site_operation i s = Inr op1" "creates op1" "o_status op1 = ''preparing''"
    and b: "update_projects (\<lambda>q. pj_id q = p) (\<lambda>q. q\<lparr>pj_remote_url := c0, pj_normalized_remote := c, pj_updated_at := now\<rparr>) s = Inr s1"
    and d: "update_origin p f s1 = Inr (n, s2)"
    and e: "change_operations (\<lambda>o1. o_id o1 = i) (\<lambda>o1. o1\<lparr>o_payload := JsonText (encode_create cmd), o_status := ''queued''\<rparr>) s2 = Inr s'"
    using assms(1) by (fastforce simp: ActivateBlankProjectRemote_def Let_def try_then_Inr_iff split: if_splits)
  have ops: "site_operations s2 = site_operations s" and ps: "site_projects s2 = site_projects s1"
    using d update_projects_rest(2)[OF b] by (auto simp: update_origin_def store_remotes_def try_then_Inr_iff split: if_splits)
  have only: "o1 = op1" if "o1 \<in> set (site_operations s)" "o_id o1 = i" for o1
    using that site_operation_Inr[OF a(1)] same_operation_row[OF assms(2)] by blast
  have "calm creates s2 s'" by (rule calm_change[OF e]) (use only a(2) ops in auto)
  then have "calm creates s s'" using calm_chain calm_projects[OF b] calm_origin[OF d] by blast
  moreover have "provisioning_ok s'"
    unfolding provisioning_ok_def
  proof (intro ballI impI)
    note rest = change_operations_rest[OF e]
    fix q assume "q \<in> set (site_projects s')" "pj_status q = ''provisioning''"
    then obtain q1 where "q1 \<in> set (site_projects s)" "pj_id q1 = pj_id q" "pj_status q1 = ''provisioning''"
      using rest(2) ps by (auto simp: update_projects_rest(4)[OF b])
    then obtain o1 where o1: "o1 \<in> set (site_operations s)" "provisions (pj_id q) o1"
      using assms(3) unfolding provisioning_ok_def by metis
    let ?g = "\<lambda>o1. if o_id o1 = i then o1\<lparr>o_payload := JsonText (encode_create cmd), o_status := ''queued''\<rparr> else o1"
    have "provisions (pj_id q) (?g o1)"
      using o1(2) by (auto simp: provisions_def is_create_def active_def active_statuses_def)
    moreover have "?g o1 \<in> set (site_operations s')" using o1(1) unfolding rest(4) ops set_map by (rule imageI)
    ultimately show "\<exists>o1\<in>set (site_operations s'). provisions (pj_id q) o1" by blast
  qed
  ultimately show ?thesis by blast
qed

lemma retry_remote_fields:
  "retry_remote r c0 = (c, st, remake) \<Longrightarrow> pc_project_id c = pc_project_id c0 \<and> st \<in> {''queued'', ''preparing''}"
  by (auto simp: retry_remote_def split: option.splits if_splits)

lemma RetryBlankProject_cases:
  assumes "RetryBlankProject p i now s = Inr (bp, s')"
  obtains s1 s2 srv c key st where "site_operations s1 = site_operations s" "site_workspaces s1 = site_workspaces s"
      "site_projects s1 = site_projects s"
    "update_projects (\<lambda>q. pj_id q = p) (\<lambda>q. q\<lparr>pj_status := ''provisioning'', pj_provision_error := [], pj_updated_at := now\<rparr>) s1 = Inr s2"
    "add_operation (create_operation i srv c key st now) s2 = Inr s'" "pc_project_id c = p" "st \<in> {''queued'', ''preparing''}"
proof -
  obtain p1 row c0 where id: "pc_project_id c0 = p" and rq: "requeue_create p i now p1 row c0 s = Inr (bp, s')"
    using assms by (auto simp: RetryBlankProject_def try_then_Inr_iff split: if_split_asm)
  obtain c st remake where r: "retry_remote (find (is_origin p) (site_remotes s)) c0 = (c, st, remake)" by (metis prod_cases3)
  obtain s1 s2 where r3: "remake_remote remake p now s = Inr s1"
    and u: "update_projects (\<lambda>q. pj_id q = p) (\<lambda>q. q\<lparr>pj_status := ''provisioning'', pj_provision_error := [], pj_updated_at := now\<rparr>) s1 = Inr s2"
      "add_operation (create_operation i (o_server_id row) c (''git-project-retry:'' @ p @ '':'' @ i) st now) s2 = Inr s'"
    using rq unfolding requeue_create_def r Let_def prod.case try_then_Inr_iff by blast
  have "site_operations s1 = site_operations s" "site_workspaces s1 = site_workspaces s" "site_projects s1 = site_projects s"
    using r3 by (auto simp: remake_remote_def update_origin_def store_remotes_def try_then_Inr_iff split: if_splits)
  then show ?thesis using that u retry_remote_fields[OF r] id by blast
qed

lemma retry_keeps:
  assumes "RetryBlankProject p i now s = Inr (bp, s')" "p \<noteq> []" "provisioning_ok s"
  shows "calm creates s s' \<and> provisioning_ok s'"
proof -
  obtain s1 s2 srv c key st where same: "site_operations s1 = site_operations s" "site_workspaces s1 = site_workspaces s"
      "site_projects s1 = site_projects s"
    and b: "update_projects (\<lambda>q. pj_id q = p) (\<lambda>q. q\<lparr>pj_status := ''provisioning'', pj_provision_error := [], pj_updated_at := now\<rparr>) s1 = Inr s2"
    and e: "add_operation (create_operation i srv c key st now) s2 = Inr s'" and c: "pc_project_id c = p" "st \<in> {''queued'', ''preparing''}"
    using assms(1) by (rule RetryBlankProject_cases)
  have "calm creates s2 s'" by (rule calm_add[OF e]) simp
  then have "calm creates s s'" using calm_chain calm_projects[OF b] calm_same[OF same(1,2)] by blast
  moreover have "provisioning_ok s'"
    unfolding provisioning_ok_def
  proof (intro ballI impI)
    note rest = add_operation_rest[OF e]
    have ops: "site_operations s2 = site_operations s" using update_projects_rest(2)[OF b] same(1) by simp
    fix q assume q: "q \<in> set (site_projects s')" "pj_status q = ''provisioning''"
    show "\<exists>o1\<in>set (site_operations s'). provisions (pj_id q) o1"
    proof (cases "pj_id q = p")
      case True
      then have "provisions (pj_id q) (create_operation i srv c key st now)"
        using c assms(2) by (auto simp: provisions_def is_create_def nullif_empty_def queued_active)
      then show ?thesis unfolding rest(4) by auto
    next
      case False
      then have "q \<in> set (site_projects s)" using q(1) rest(2) same(3) by (auto simp: update_projects_rest(4)[OF b])
      then show ?thesis using q(2) assms(3) unfolding provisioning_ok_def rest(4) ops by auto
    qed
  qed
  ultimately show ?thesis by blast
qed

section \<open>The life cycle of a workspace\<close>

abbreviation works :: "Operation \<Rightarrow> bool" where
  "works o1 \<equiv> o_kind o1 \<in> set work_kinds"

text \<open>\<open>freed i s s1\<close>: nothing became busy, and the workspace \<open>i\<close> is not busy any more.\<close>

definition freed :: "string \<Rightarrow> site \<Rightarrow> site \<Rightarrow> bool" where
  "freed i s s1 \<longleftrightarrow> (\<forall>w\<in>set (site_workspaces s1). busy w \<longrightarrow>
     wk_id w \<noteq> i \<and> (\<exists>v\<in>set (site_workspaces s). wk_id v = wk_id w \<and> busy v))"

definition cut_by :: "string set \<Rightarrow> site \<Rightarrow> site \<Rightarrow> bool" where
  "cut_by gone s s1 \<longleftrightarrow> (\<exists>g. site_operations s1 = map g (site_operations s) \<and>
     (\<forall>o1. cut_refs o1 (g o1) \<and> o_workspace_id (g o1) = set_null gone (o_workspace_id o1)))"

lemma cut_by_same: "site_operations s1 = site_operations s \<Longrightarrow> cut_by {} s s1"
  unfolding cut_by_def by (rule exI[where x = id]) (simp add: cut_refs_def)

lemma cut_by_delete: "cut_by (gone_ids sel s) s (snd (delete_workspaces sel s))"
  unfolding cut_by_def delete_workspaces_ops
  by (rule exI[where x = "cut_operation sel s"]) (simp add: cut_operation_cut, simp add: cut_operation_def)

lemma mark_workspace_rest:
  assumes "mark_workspace i st msg s = Inr s'"
  shows "site_operations s' = site_operations s"
    and "site_workspaces s' = map (\<lambda>w. if wk_id w = i then w\<lparr>wk_status := st, wk_git_error := msg\<rparr> else w) (site_workspaces s)"
    and "site_projects s' = site_projects s" and "still K s s'"
proof -
  obtain n where u: "update_workspaces (\<lambda>w. wk_id w = i) (\<lambda>w. w\<lparr>wk_status := st, wk_git_error := msg\<rparr>) s = Inr (n, s')"
    using assms by (auto simp: mark_workspace_def try_then_Inr_iff)
  then show "site_operations s' = site_operations s" "site_projects s' = site_projects s"
    "site_workspaces s' = map (\<lambda>w. if wk_id w = i then w\<lparr>wk_status := st, wk_git_error := msg\<rparr> else w) (site_workspaces s)"
    by (simp_all add: update_workspaces_Inr)
  show "still K s s'" by (rule still_update_workspaces[OF u]) (simp add: same_place_def)
qed

lemma mark_freed:
  assumes "mark_workspace i st msg s = Inr s'" "st \<notin> {''moving'', ''copying'', ''deleting''}"
  shows "freed i s s'"
  using assms(2) unfolding freed_def mark_workspace_rest(2)[OF assms(1)] by (auto simp: busy_def)

lemma freed_after: "no_new_busy {} s s1 \<Longrightarrow> freed i s1 s2 \<Longrightarrow> freed i s s2"
  unfolding no_new_busy_def freed_def by metis

lemma apply_lifecycle_effect:
  assumes "apply_lifecycle c r srv now s = Inr s1" "site_ok s"
  obtains gone where "frame K gone {} s s1" "\<forall>w\<in>set (site_workspaces s1). wk_id w \<notin> gone" "freed (lc_workspace_id c) s s1"
    "cut_by gone s s1"
proof -
  let ?moved = "\<lambda>w. w\<lparr>wk_path := lr_target_path r, wk_status := ''ready'', wk_git_error := [], wk_last_scanned_at := now\<rparr>"
  let ?here = "\<lambda>w. wk_id w = lc_workspace_id c \<and> wk_server_id w = srv"
  have moves: "\<exists>n. update_workspaces ?here ?moved s = Inr (n, s1) \<and> n = 1" if "lc_action c = ''move''"
    using assms(1) that by (cases "update_workspaces ?here ?moved s") (simp_all add: apply_lifecycle_def split: prod.split_asm if_split_asm)
  have copies: "\<exists>s2. (s2 = s \<or> (\<exists>w. insert_workspace w s = Inr s2 \<and> wk_kind w = ''primary'' \<and> \<not> busy w)) \<and>
      mark_workspace (lc_workspace_id c) ''ready'' [] s2 = Inr s1" if "lc_action c = ''copy''"
  proof (cases "find (\<lambda>w. wk_id w = lc_workspace_id c) (site_workspaces s)")
    case None
    then have "mark_workspace (lc_workspace_id c) ''ready'' [] s = Inr s1" using assms(1) that by (simp add: apply_lifecycle_def)
    then show ?thesis by blast
  next
    case (Some w)
    let ?w = "new_primary (lc_target_workspace_id c) (wk_project_id w) (wk_server_id w)
        (lr_target_path r) (path_base (lr_target_path r)) (wk_branch w) (wk_commit_sha w) (wk_dirty w)
        (wk_last_git_refresh_at w) now"
    have "try_then (insert_workspace ?w s) (mark_workspace (lc_workspace_id c) ''ready'' []) = Inr s1"
      using assms(1) that Some by (simp add: apply_lifecycle_def)
    then obtain s2 where "insert_workspace ?w s = Inr s2" "mark_workspace (lc_workspace_id c) ''ready'' [] s2 = Inr s1"
      unfolding try_then_Inr_iff by blast
    then show ?thesis by (intro exI[where x = s2] conjI disjI2 exI[where x = ?w]) simp_all
  qed
  have deletes: "\<exists>n. delete_workspaces ?here s = (n, s1) \<and> n = 1" if "lc_action c = ''delete''"
    using assms(1) that by (cases "delete_workspaces ?here s") (simp add: apply_lifecycle_def split: if_split_asm)
  have "lc_action c \<in> {''move'', ''copy'', ''delete''}"
    using assms(1) by (auto simp: apply_lifecycle_def split: if_splits)
  then consider (move) n where "update_workspaces ?here ?moved s = Inr (n, s1)" "n = 1"
    | (copy) s2 where "s2 = s \<or> (\<exists>w. insert_workspace w s = Inr s2 \<and> wk_kind w = ''primary'' \<and> \<not> busy w)"
        "mark_workspace (lc_workspace_id c) ''ready'' [] s2 = Inr s1"
    | (delete) n where "delete_workspaces ?here s = (n, s1)" "n = 1"
    using moves copies deletes by blast
  then show ?thesis
  proof cases
    case move
    let ?sel = "\<lambda>w. wk_id w = lc_workspace_id c \<and> wk_server_id w = srv"
    have ws: "site_workspaces s1 = map (\<lambda>w. if ?sel w then w\<lparr>wk_path := lr_target_path r, wk_status := ''ready'', wk_git_error := [],
        wk_last_scanned_at := now\<rparr> else w) (site_workspaces s)" and ops: "site_operations s1 = site_operations s"
      and one: "filter ?sel (site_workspaces s) \<noteq> []"
      using move by (auto simp: update_workspaces_Inr)
    then obtain v where v: "v \<in> set (site_workspaces s)" "?sel v" by (auto simp: filter_empty_conv)
    have "freed (lc_workspace_id c) s s1"
      unfolding freed_def
    proof (intro ballI impI)
      fix w assume w: "w \<in> set (site_workspaces s1)" "busy w"
      then obtain u where u: "u \<in> set (site_workspaces s)" "\<not> ?sel u" "w = u" unfolding ws by (auto simp: busy_def split: if_splits)
      have "wk_id u \<noteq> lc_workspace_id c"
      proof
        assume "wk_id u = lc_workspace_id c"
        then have "u = v" using same_workspace_row[OF assms(2) u(1) v(1)] v(2) by simp
        then show False using u(2) v(2) by simp
      qed
      then show "wk_id w \<noteq> lc_workspace_id c \<and> (\<exists>v\<in>set (site_workspaces s). wk_id v = wk_id w \<and> busy v)" using u w(2) by blast
    qed
    moreover have "still K s s1" by (rule still_update_workspaces[OF move(1)]) (simp add: same_place_def)
    ultimately show ?thesis using that[of "{}"] cut_by_same[OF ops] unfolding still_def by simp
  next
    case copy
    have 1: "still K s s2 \<and> no_new_busy {} s s2 \<and> site_operations s2 = site_operations s" for K
      using copy(1) still_insert no_new_busy_insert frame_refl no_new_busy_same
      by (auto simp: still_def insert_workspace_Inr)
    have "still K s s1" using still_trans[OF _ mark_workspace_rest(4)[OF copy(2)] stable_none] 1 frame_weaken
      unfolding still_def by blast
    moreover have "freed (lc_workspace_id c) s s1" by (rule freed_after[of s s2]) (use 1 mark_freed[OF copy(2)] in simp_all)
    moreover have "site_operations s1 = site_operations s" using 1 mark_workspace_rest(1)[OF copy(2)] by simp
    ultimately show ?thesis using that[of "{}"] cut_by_same by (simp add: still_def)
  next
    case delete
    let ?sel = "\<lambda>w. wk_id w = lc_workspace_id c \<and> wk_server_id w = srv"
    have s1: "s1 = snd (delete_workspaces ?sel s)" and "n = length (filter ?sel (site_workspaces s))"
      using delete(1) by (auto simp: delete_workspaces_def Let_def)
    then have "filter ?sel (site_workspaces s) \<noteq> []" using delete(2) by auto
    then obtain v where v: "v \<in> set (site_workspaces s)" "?sel v" by (auto simp: filter_empty_conv)
    then have gone: "lc_workspace_id c \<in> gone_ids ?sel s" by (auto simp: gone_ids_def)
    have left: "\<forall>w\<in>set (site_workspaces s1). wk_id w \<notin> gone_ids ?sel s"
    proof
      fix w assume "w \<in> set (site_workspaces s1)"
      then obtain v where "v \<in> set (site_workspaces s)" "\<not> ?sel v" "wk_id w = wk_id v"
        unfolding s1 delete_workspaces_sel by auto
      then show "wk_id w \<notin> gone_ids ?sel s" using gone_iff[OF assms(2), of v ?sel] by simp
    qed
    moreover have "freed (lc_workspace_id c) s s1"
      unfolding freed_def
    proof (intro ballI impI)
      fix w assume w: "w \<in> set (site_workspaces s1)" "busy w"
      then have "\<exists>v\<in>set (site_workspaces s). wk_id v = wk_id w \<and> busy v"
        using no_new_busy_delete[OF assms(2), of ?sel] unfolding no_new_busy_def s1 by blast
      then show "wk_id w \<noteq> lc_workspace_id c \<and> (\<exists>v\<in>set (site_workspaces s). wk_id v = wk_id w \<and> busy v)"
        using left gone w(1) by auto
    qed
    ultimately show ?thesis using that frame_delete_workspaces[OF assms(2)] cut_by_delete s1 by blast
  qed
qed

text \<open>What a result does: the records change, then the operation is settled.\<close>

definition result_effect :: "Operation \<Rightarrow> string \<Rightarrow> site \<Rightarrow> site \<Rightarrow> bool" where
  "result_effect op1 i s s' \<longleftrightarrow>
     (\<exists>s1 gone st msg data now. frame (\<lambda>_. False) gone {} s s1 \<and> (\<forall>w\<in>set (site_workspaces s1). wk_id w \<notin> gone) \<and>
        freed i s s1 \<and> cut_by gone s s1 \<and> st \<notin> set active_statuses \<and>
        settle_operation (o_id op1) st msg data now s1 = Inr s')"

lemma mark_effect:
  assumes "mark_workspace i st msg s = Inr s1" "st \<in> {''ready'', ''partial''}"
  shows "frame K {} {} s s1" "freed i s s1" "cut_by {} s s1"
  using mark_workspace_rest(4)[OF assms(1)] mark_freed[OF assms(1)] cut_by_same[OF mark_workspace_rest(1)[OF assms(1)]] assms(2)
  by (auto simp: still_def)

lemma fail_effect:
  assumes "fail_workspace op1 i res st now s = Inr s'"
  shows "result_effect op1 i s s'"
proof -
  obtain s1 where a: "mark_workspace i (if st \<noteq> ''partial'' then ''ready'' else st) (ResultMessage res) s = Inr s1"
    "settle_operation (o_id op1) ''failed'' (ResultMessage res) (failure_data res) now s1 = Inr s'"
    using assms unfolding fail_workspace_def try_then_Inr_iff by blast
  have "(if st \<noteq> ''partial'' then ''ready'' else st) \<in> {''ready'', ''partial''}" by auto
  note e = mark_effect[OF a(1) this]
  have st: "''failed'' \<notin> set active_statuses" by (simp add: active_statuses_def)
  show ?thesis
    unfolding result_effect_def
    by (intro exI[where x = s1] exI[where x = "{}"] exI[where x = "''failed''"] exI conjI allI) (use a(2) e st in simp_all)
qed

lemma lifecycle_result_effect:
  assumes "handle_lifecycle_result why shown op1 res now s = Inr (pub, s')" "site_ok s" "ResultOperationID res = o_id op1"
  obtains c where "payload_doc op1 decode_lifecycle = Inr c" "result_effect op1 (lc_workspace_id c) s s'"
proof -
  obtain c where c: "payload_doc op1 decode_lifecycle = Inr c"
    using assms(1) by (auto simp: handle_lifecycle_result_def try_then_Inr_iff)
  have "(\<exists>r st. FailWorkspaceLifecycle op1 c r st now s = Inr s') \<or> (\<exists>r. CompleteWorkspaceLifecycle op1 c r res now s = Inr s')"
    using assms(1) c
    by (auto simp: handle_lifecycle_result_def try_then_Inr_iff Let_def split: if_splits option.splits sum.splits)
  then have "result_effect op1 (lc_workspace_id c) s s'"
  proof (elim disjE exE)
    fix r st assume "FailWorkspaceLifecycle op1 c r st now s = Inr s'"
    then show ?thesis using fail_effect by (simp add: FailWorkspaceLifecycle_def)
  next
    fix r assume "CompleteWorkspaceLifecycle op1 c r res now s = Inr s'"
    then obtain s1 data where a: "apply_lifecycle c r (o_server_id op1) now s = Inr s1"
      "settle_operation (ResultOperationID res) ''succeeded'' (ResultMessage res) data now s1 = Inr s'"
      by (auto simp: CompleteWorkspaceLifecycle_def try_then_Inr_iff split: if_splits)
    obtain gone where "frame (\<lambda>_. False) gone {} s s1" "\<forall>w\<in>set (site_workspaces s1). wk_id w \<notin> gone"
        "freed (lc_workspace_id c) s s1" "cut_by gone s s1"
      by (rule apply_lifecycle_effect[OF a(1) assms(2)])
    then show ?thesis
      unfolding result_effect_def
      by (intro exI[where x = s1] exI[where x = gone] exI[where x = "''succeeded''"] exI conjI allI)
        (use a(2) assms(3) in \<open>simp_all add: active_statuses_def\<close>)
  qed
  then show ?thesis using that c by blast
qed

lemma clone_result_effect:
  assumes "handle_clone_result why shown op1 res now s = Inr (pub, s')" "site_ok s"
  shows "result_effect op1 (or_empty (o_workspace_id op1)) s s'"
proof -
  obtain c where c: "payload_doc op1 decode_clone = Inr c"
    using assms(1) by (auto simp: handle_clone_result_def try_then_Inr_iff)
  have "(\<exists>r st. FailCrossServerWorkspaceClone op1 r st now s = Inr s') \<or> (\<exists>r. CompleteCrossServerWorkspaceClone op1 c r res now s = Inr s')"
    using assms(1) c
    by (auto simp: handle_clone_result_def try_then_Inr_iff Let_def split: if_splits option.splits sum.splits)
  then show ?thesis
  proof (elim disjE exE)
    fix r st assume "FailCrossServerWorkspaceClone op1 r st now s = Inr s'"
    then show ?thesis using fail_effect by (simp add: FailCrossServerWorkspaceClone_def)
  next
    fix r assume "CompleteCrossServerWorkspaceClone op1 c r res now s = Inr s'"
    then obtain w s1 s2 data where a: "insert_workspace w s = Inr s1" "wk_kind w = ''primary''" "\<not> busy w"
      and b: "mark_workspace (or_empty (o_workspace_id op1)) ''ready'' [] s1 = Inr s2"
      and d: "settle_operation (o_id op1) ''succeeded'' (ResultMessage res) data now s2 = Inr s'"
      by (auto simp: CompleteCrossServerWorkspaceClone_def try_then_Inr_iff split: if_splits)
    have e: "freed (or_empty (o_workspace_id op1)) s1 s2" using mark_effect[OF b] by simp
    have fr: "frame (\<lambda>_. False) {} {} s s2"
      using still_trans[OF still_insert[OF a(1,2)] mark_workspace_rest(4)[OF b] stable_none] by (simp add: still_def)
    have "freed (or_empty (o_workspace_id op1)) s s2" using freed_after no_new_busy_insert[OF a(1,3)] e by blast
    moreover have "site_operations s2 = site_operations s" using a(1) mark_workspace_rest(1)[OF b] by (auto simp: insert_workspace_Inr)
    ultimately show ?thesis
      unfolding result_effect_def
      by (intro exI[where x = s2] exI[where x = "{}"] exI[where x = "''succeeded''"] exI conjI allI)
        (use d fr cut_by_same in \<open>simp_all add: active_statuses_def\<close>)
  qed
qed

lemma result_effect_keeps:
  assumes "result_effect op1 i s s'" "site_ok s" "op1 \<in> set (site_operations s)" "works op1"
    and ws: "\<And>j. o_workspace_id op1 = Some j \<Longrightarrow> j = i"
  shows "busy_ok s \<Longrightarrow> busy_ok s'" and "work_ok s \<Longrightarrow> work_ok s'"
    and "\<exists>gone. frame works gone {} s s' \<and> (\<forall>w\<in>set (site_workspaces s'). wk_id w \<notin> gone)"
proof -
  obtain s1 gone st msg data now where fr: "frame (\<lambda>_. False) gone {} s s1" and left: "\<forall>w\<in>set (site_workspaces s1). wk_id w \<notin> gone"
    and free: "freed i s s1" and cut: "cut_by gone s s1" and settle: "settle_operation (o_id op1) st msg data now s1 = Inr s'"
    using assms(1) unfolding result_effect_def by blast
  note rest = change_operations_rest[OF settle[unfolded settle_operation_def]]
  obtain g where g: "site_operations s1 = map g (site_operations s)" "\<And>o1. cut_refs o1 (g o1)"
      "\<And>o1. o_workspace_id (g o1) = set_null gone (o_workspace_id o1)"
    using cut unfolding cut_by_def by blast
  let ?f = "\<lambda>o1. if o_id o1 = o_id op1 then finish st msg data now o1 else o1"
  have ops: "site_operations s' = map ?f (map g (site_operations s))" using rest(4) g(1) by simp
  show "busy_ok s'" if "busy_ok s"
    unfolding busy_ok_def rest(1)
  proof (intro ballI impI)
    fix w assume w: "w \<in> set (site_workspaces s1)" "busy w"
    then obtain v where v: "v \<in> set (site_workspaces s)" "wk_id v = wk_id w" "busy v" "wk_id w \<noteq> i"
      using free unfolding freed_def by blast
    then obtain o1 where o1: "o1 \<in> set (site_operations s)" "serves o1 (wk_id w)"
      using \<open>busy_ok s\<close> unfolding busy_ok_def by metis
    then have "o_id o1 \<noteq> o_id op1" using same_operation_row[OF assms(2) _ assms(3)] ws v(4) unfolding serves_def by metis
    then have "?f (g o1) = g o1" using g(2)[of o1] by (simp add: cut_refs_def)
    then have "g o1 \<in> set (site_operations s')" using o1(1) unfolding ops by force
    moreover have "serves (g o1) (wk_id w)"
      using o1(2) g(2,3)[of o1] left w(1) by (auto simp: serves_def cut_refs_def active_def set_null_simps)
    ultimately show "\<exists>o1\<in>set (site_operations s'). serves o1 (wk_id w)" by blast
  qed
  show "work_ok s'" if "work_ok s"
    unfolding work_ok_def ops
  proof
    fix o2 assume "o2 \<in> set (map ?f (map g (site_operations s)))"
    then obtain o1 where o1: "o1 \<in> set (site_operations s)" "o2 = ?f (g o1)" by auto
    have "work_row o1" using that o1(1) unfolding work_ok_def by blast
    then have "work_row (g o1)" using g(2)[of o1] by (auto simp: work_row_def cut_refs_def payload_doc_def)
    then show "work_row o2" unfolding o1(2) by (simp add: work_row_def payload_doc_def)
  qed
  have "works o2" if "o2 \<in> set (site_operations s1)" "o_id o2 = o_id op1" for o2
  proof -
    have "o2 \<in> g ` set (site_operations s)" using that(1) unfolding g(1) by simp
    then obtain o1 where o1: "o1 \<in> set (site_operations s)" "o2 = g o1" by blast
    then have "o1 = op1" using that(2) g(2)[of o1] same_operation_row[OF assms(2) _ assms(3)] by (simp add: cut_refs_def)
    then show ?thesis using o1(2) assms(4) g(2)[of o1] by (simp add: cut_refs_def)
  qed
  then have "still works s1 s'" by (intro still_change[OF settle[unfolded settle_operation_def]]) auto
  then have "frame works (gone \<union> {}) ({} \<union> {}) s s'"
    using frame_trans[OF frame_weaken[OF fr, of works] _ stable_kind stable_kind] unfolding still_def by blast
  then show "\<exists>gone. frame works gone {} s s' \<and> (\<forall>w\<in>set (site_workspaces s'). wk_id w \<notin> gone)"
    using left rest(1) by auto
qed

lemma queue_work_keeps:
  assumes "insert_write row s = Inr s1" "mark_workspace i st msg s1 = Inr s'" and "works row" "active row"
    "o_workspace_id row = Some i" "work_row row"
  shows "busy_ok s \<Longrightarrow> busy_ok s'" and "work_ok s \<Longrightarrow> work_ok s'" and "still works s s'"
proof -
  have a: "add_operation row s = Inr s1" using assms(1) by (auto simp: insert_write_def split: sum.splits if_splits)
  note ra = add_operation_rest[OF a] and rm = mark_workspace_rest[OF assms(2)]
  have ops: "site_operations s' = site_operations s @ [row]" using ra(4) rm(1) by simp
  show "busy_ok s'" if "busy_ok s"
    unfolding busy_ok_def
  proof (intro ballI impI)
    fix w assume w: "w \<in> set (site_workspaces s')" "busy w"
    show "\<exists>o1\<in>set (site_operations s'). serves o1 (wk_id w)"
    proof (cases "wk_id w = i")
      case True
      then have "serves row (wk_id w)" using assms(3-5) by (simp add: serves_def)
      then show ?thesis unfolding ops by auto
    next
      case False
      then have "w \<in> set (site_workspaces s)" using w(1) unfolding rm(2) ra(1) by (auto split: if_splits)
      then show ?thesis using that w(2) unfolding busy_ok_def ops by auto
    qed
  qed
  show "work_ok s \<Longrightarrow> work_ok s'" using assms(6) unfolding work_ok_def ops by auto
  have "still works s s1" by (rule still_add[OF a]) (rule assms(3))
  then show "still works s s'" by (rule still_trans[OF _ rm(4) stable_kind])
qed

lemma queue_lifecycle_cases:
  assumes "QueueWorkspaceLifecycle w c newID now s = Inr (i, s')"
  obtains key s1 where "lc_workspace_id c = wk_id w"
    "insert_write (queued_operation newID (wk_server_id w) \<lparr>ProjectID = wk_project_id w, WorkspaceID = wk_id w, ThreadID = []\<rparr>
       ''git.workspace.lifecycle'' (JsonText (encode_lifecycle c)) True key now) s = Inr s1"
    "mark_workspace (wk_id w) (lifecycle_status (lc_action c)) [] s1 = Inr s'"
  using assms unfolding QueueWorkspaceLifecycle_def try_then_Inr_iff by (auto split: if_splits simp: try_then_Inr_iff)

lemma queue_clone_cases:
  assumes "QueueCrossServerWorkspaceClone w srv c newID now s = Inr (i, s')"
  obtains key s1 where
    "insert_write (queued_operation newID srv \<lparr>ProjectID = wk_project_id w, WorkspaceID = wk_id w, ThreadID = []\<rparr>
       ''git.workspace.clone'' (JsonText (encode_clone c)) True key now) s = Inr s1"
    "mark_workspace (wk_id w) ''copying'' [] s1 = Inr s'"
  using assms unfolding QueueCrossServerWorkspaceClone_def by (auto split: if_splits simp: try_then_Inr_iff)

lemma queue_lifecycle_keeps:
  assumes "QueueWorkspaceLifecycle w c newID now s = Inr (i, s')" "wk_id w \<noteq> []"
  shows "(busy_ok s \<longrightarrow> busy_ok s') \<and> (work_ok s \<longrightarrow> work_ok s') \<and> still works s s' \<and> site_projects s' = site_projects s"
proof -
  obtain key s1 where a: "lc_workspace_id c = wk_id w"
    "insert_write (queued_operation newID (wk_server_id w) \<lparr>ProjectID = wk_project_id w, WorkspaceID = wk_id w, ThreadID = []\<rparr>
       ''git.workspace.lifecycle'' (JsonText (encode_lifecycle c)) True key now) s = Inr s1"
    "mark_workspace (wk_id w) (lifecycle_status (lc_action c)) [] s1 = Inr s'"
    using assms(1) by (rule queue_lifecycle_cases)
  have "site_projects s' = site_projects s"
    using a(2) mark_workspace_rest(3)[OF a(3)] add_operation_rest(2) by (auto simp: insert_write_def split: sum.splits if_splits)
  then show ?thesis
    using queue_work_keeps[OF a(2,3)] a(1) assms(2)
    by (simp add: work_kinds_def queued_active work_row_def payload_doc_def nullif_empty_def)
qed

lemma queue_clone_keeps:
  assumes "QueueCrossServerWorkspaceClone w srv c newID now s = Inr (i, s')" "wk_id w \<noteq> []"
  shows "(busy_ok s \<longrightarrow> busy_ok s') \<and> (work_ok s \<longrightarrow> work_ok s') \<and> still works s s' \<and> site_projects s' = site_projects s"
proof -
  obtain key s1 where a: "insert_write (queued_operation newID srv \<lparr>ProjectID = wk_project_id w, WorkspaceID = wk_id w, ThreadID = []\<rparr>
       ''git.workspace.clone'' (JsonText (encode_clone c)) True key now) s = Inr s1"
    "mark_workspace (wk_id w) ''copying'' [] s1 = Inr s'"
    using assms(1) by (rule queue_clone_cases)
  have "site_projects s' = site_projects s"
    using a(1) mark_workspace_rest(3)[OF a(2)] add_operation_rest(2) by (auto simp: insert_write_def split: sum.splits if_splits)
  then show ?thesis
    using queue_work_keeps[OF a(1,2)] assms(2)
    by (simp add: work_kinds_def queued_active work_row_def payload_doc_def nullif_empty_def)
qed

text \<open>The other operations change no row of these kinds but for cut references.\<close>

definition rows_from :: "site \<Rightarrow> site \<Rightarrow> bool" where
  "rows_from s s' \<longleftrightarrow> (\<forall>o2\<in>set (site_operations s'). work_row o2 \<or>
     (\<exists>o1\<in>set (site_operations s). o_kind o2 = o_kind o1 \<and> o_payload o2 = o_payload o1 \<and> o_workspace_write o2 = o_workspace_write o1 \<and>
        (o_workspace_id o2 = o_workspace_id o1 \<or> o_workspace_id o2 = None)))"

lemma work_ok_rows: "rows_from s s' \<Longrightarrow> work_ok s \<Longrightarrow> work_ok s'"
proof -
  assume rows: "rows_from s s'" and ok: "work_ok s"
  show "work_ok s'"
    unfolding work_ok_def
  proof
    fix o2 assume "o2 \<in> set (site_operations s')"
    then consider "work_row o2" | o1 where "o1 \<in> set (site_operations s)" "o_kind o2 = o_kind o1" "o_payload o2 = o_payload o1"
        "o_workspace_write o2 = o_workspace_write o1" "o_workspace_id o2 = o_workspace_id o1 \<or> o_workspace_id o2 = None"
      using rows unfolding rows_from_def by blast
    then show "work_row o2"
    proof cases
      case 2
      moreover have "work_row o1" using ok 2(1) unfolding work_ok_def by blast
      ultimately show ?thesis by (auto simp: work_row_def payload_doc_def)
    qed simp
  qed
qed

lemma frame_work_ok:
  assumes "frame K gone gp s s'" "\<And>o1. K o1 \<Longrightarrow> \<not> works o1" "work_ok s"
  shows "work_ok s'"
proof (rule work_ok_rows[OF _ assms(3)])
  have "work_row o2 \<or> (\<exists>o1\<in>set (site_operations s). kept_row gone gp o1 o2)" if "o2 \<in> set (site_operations s')" for o2
  proof (cases "K o2")
    case True
    then have "\<not> works o2" by (rule assms(2))
    then show ?thesis by (auto simp: work_row_def work_kinds_def)
  qed (use assms(1) that in \<open>auto simp: frame_def\<close>)
  then show "rows_from s s'"
    unfolding rows_from_def kept_row_def using set_null_cases[of gone] by metis
qed

lemma quiet_work_ok:
  assumes "quiet s s'" "work_ok s" shows "work_ok s'"
  unfolding work_ok_def
proof
  fix o2 assume o2: "o2 \<in> set (site_operations s')"
  show "work_row o2"
  proof (cases "own o2")
    case True
    then obtain o1 where "o1 \<in> set (site_operations s)" "same_work o1 o2" using o2 assms(1) unfolding quiet_def by blast
    then show ?thesis using assms(2) unfolding work_ok_def by (auto simp: work_row_def same_work_def payload_doc_def)
  next
    case False
    then show ?thesis by (auto simp: work_row_def work_kinds_def own_def own_kinds_def)
  qed
qed

section \<open>Queueing a deletion\<close>

lemma queue_deletions_rest:
  assumes "queue_deletions p h now ws ids s = Inr (out, s')" "length ids = length ws"
  shows "site_operations s' = site_operations s @ map2 (delete_operation p h now) ws ids \<and>
    site_workspaces s' = site_workspaces s \<and> site_projects s' = site_projects s"
  using assms
proof (induction p h now ws ids s arbitrary: out rule: queue_deletions.induct)
  case (1 p h now w ws i ids s)
  obtain s1 out1 where a: "add_operation (delete_operation p h now w i) s = Inr s1"
    "queue_deletions p h now ws ids s1 = Inr (out1, s')"
    using "1.prems"(1) by (auto simp: try_then_Inr_iff)
  have "site_operations s' = site_operations s1 @ map2 (delete_operation p h now) ws ids \<and>
    site_workspaces s' = site_workspaces s1 \<and> site_projects s' = site_projects s1"
    using "1.IH"[OF a] "1.prems"(2) by simp
  then show ?case using add_operation_rest[OF a(1)] by simp
qed auto

lemma count_workspace_keeps: "dl_workspaces (foldl count_workspace plan ws) = dl_workspaces plan"
  by (induction ws arbitrary: plan) (simp_all add: count_workspace_def Let_def)

lemma plan_facts:
  assumes "projectDeletionPlan p now s = Inr plan"
  shows "dl_workspaces plan = deletion_workspaces p (now - ServerOnlineGracePeriod) s"
    and "dl_can_delete_metadata plan \<Longrightarrow> active_agent_operations p s = 0"
    and "dl_can_delete_managed_files plan \<Longrightarrow> dl_can_delete_metadata plan"
  using assms by (auto simp: projectDeletionPlan_def try_then_Inr_iff Let_def count_workspace_keeps)

lemma no_active_deletion:
  "active_agent_operations p s = 0 \<Longrightarrow> o1 \<in> set (site_operations s) \<Longrightarrow> is_delete p o1 \<Longrightarrow> \<not> active o1"
  by (auto simp: active_agent_operations_def count_operations_none is_delete_def)

lemma set_deletion_workspaces:
  "dw \<in> set (deletion_workspaces p cutoff s) \<longleftrightarrow>
     (\<exists>w\<in>set (site_workspaces s). \<exists>srv\<in>set (site_servers s). wk_project_id w = p \<and> s_id srv = wk_server_id w \<and>
        dw = deletion_workspace cutoff w srv)"
  unfolding deletion_workspaces_def set_order_by by (auto simp: in_project_def)

lemma queue_managed_cases:
  assumes "QueueProjectManagedDeletion p newIDs now s = Inr (ids, b, s')"
  obtains (none) "s' = s" "active_agent_operations p s = 0"
    | (remove) "s' = snd (delete_projects p s)" "active_agent_operations p s = 0"
    | (queue) chosen s1 s2 where "chosen = filter managed (deletion_workspaces p (now - ServerOnlineGracePeriod) s)"
        "active_agent_operations p s = 0"
        "change_operations (\<lambda>o1. is_delete p o1 \<and> o_status o1 \<in> {''failed'', ''canceled''}) (\<lambda>o1. o1\<lparr>o_status := ''superseded''\<rparr>) s = Inr s1"
        "update_projects (\<lambda>q. pj_id q = p) (\<lambda>q. q\<lparr>pj_status := ''deleting'', pj_provision_error := [], pj_updated_at := now\<rparr>) s1 = Inr s2"
        "queue_deletions p (list_ex (\<lambda>w. dw_kind w = ''worktree'') chosen) now chosen (map newIDs [0..<length chosen]) s2 = Inr (ids, s')"
proof -
  obtain plan where plan: "projectDeletionPlan p now s = Inr plan" "dl_can_delete_managed_files plan"
    and rest: "(let chosen = filter managed (dl_workspaces plan) in
         if chosen = [] then
           (if 0 < dl_observed_workspace_count plan then Inr ([], True, s)
            else Inr ([], True, snd (delete_projects p s)))
         else
           try_then (change_operations
               (\<lambda>o1. is_delete p o1 \<and> o_status o1 \<in> {''failed'', ''canceled''})
               (\<lambda>o1. o1\<lparr>o_status := ''superseded''\<rparr>) s) (\<lambda>s1.
           try_then (update_projects (\<lambda>p'. pj_id p' = p)
               (\<lambda>p. p\<lparr>pj_status := ''deleting'', pj_provision_error := [], pj_updated_at := now\<rparr>) s1) (\<lambda>s2.
           try_then (queue_deletions p (list_ex (\<lambda>w. dw_kind w = ''worktree'') chosen) now chosen
               (map newIDs [0..<length chosen]) s2) (\<lambda>(ids, s3). Inr (ids, False, s3))))) = Inr (ids, b, s')"
    using assms unfolding QueueProjectManagedDeletion_def try_then_Inr_iff by (auto split: if_split_asm)
  have free: "active_agent_operations p s = 0" using plan_facts[OF plan(1)] plan(2) by blast
  show ?thesis
  proof (cases "filter managed (dl_workspaces plan) = []")
    case True
    then show ?thesis using rest none remove free by (auto simp: Let_def split: if_splits)
  next
    case False
    then show ?thesis
      using rest queue[OF _ free] unfolding Let_def plan_facts(1)[OF plan(1)] by (auto simp: try_then_Inr_iff)
  qed
qed

lemma delete_operation_sel [simp]:
  "o_kind (delete_operation p h now w i) = ProjectDeleteOperationKind"
  "o_project_id (delete_operation p h now w i) = nullif_empty p"
  "o_workspace_id (delete_operation p h now w i) = nullif_empty (dw_id w)"
  "o_status (delete_operation p h now w i) = (if h \<and> dw_kind w \<noteq> ''worktree'' then ''waiting'' else ''queued'')"
  by (simp_all add: delete_operation_def)

abbreviation deletes :: "Operation \<Rightarrow> bool" where
  "deletes o1 \<equiv> o_kind o1 = ProjectDeleteOperationKind"

lemma stable_deletes [simp]: "stable gp deletes"
  by (simp add: stable_def kept_row_def)

lemma queue_managed_calm:
  assumes "change_operations (\<lambda>o1. is_delete p o1 \<and> o_status o1 \<in> {''failed'', ''canceled''}) (\<lambda>o1. o1\<lparr>o_status := ''superseded''\<rparr>) s = Inr s1"
    "update_projects (\<lambda>q. pj_id q = p) (\<lambda>q. q\<lparr>pj_status := ''deleting'', pj_provision_error := [], pj_updated_at := now\<rparr>) s1 = Inr s2"
    "queue_deletions p h now ws ids s2 = Inr (out, s')" "length ids = length ws"
    and K: "\<And>o1. o_kind o1 = ProjectDeleteOperationKind \<Longrightarrow> o_project_id o1 = nullif_empty p \<or> o_project_id o1 = Some p \<Longrightarrow> K o1"
    and st: "stable {} K"
  shows "calm K s s'" and "no_new_provision {} s s'"
proof -
  note rest = queue_deletions_rest[OF assms(3,4)]
  have new: "K o1" if "o1 \<in> set (map2 (delete_operation p h now) ws ids)" for o1
    using that K by auto
  have "calm K s s1" by (rule calm_change[OF assms(1)]) (auto simp: is_delete_def intro: K)
  moreover have "calm K s1 s2" by (rule calm_projects[OF assms(2)])
  moreover have "calm K s2 s'"
    unfolding calm_def
  proof
    show "still K s2 s'" by (rule stillI) (use rest new in auto)
    show "no_new_busy {} s2 s'" by (rule no_new_busy_same) (use rest in simp)
  qed
  ultimately show "calm K s s'" using calm_trans st by blast
  have "no_new_provision {} s1 s2" using no_provision_of[OF assms(2)] by simp
  moreover have "no_new_provision {} s s1" by (rule no_new_provision_same) (rule change_operations_rest(2)[OF assms(1)])
  moreover have "no_new_provision {} s2 s'" by (rule no_new_provision_same) (use rest in simp)
  ultimately show "no_new_provision {} s s'"
    using no_new_provision_trans[of "{}" s s1 "{}" s2] no_new_provision_trans[of "{}" s s2 "{}" s'] by simp
qed

end
