(* ===== verification/Project_Safety.thy ===== *)
theory Project_Safety
  imports Project_Invariants
begin

text \<open>
  The deletion of a project, transition by transition, and the invariants of the whole system: what
  queueing a deletion and each of its results do to the waiting operations, and the system of all
  transitions with its invariant \<open>site_inv\<close>.
\<close>

section \<open>Queueing the deletion\<close>

lemma delete_rows_set:
  "set (map2 (delete_operation p h now) ws (map newIDs [0..<length ws])) =
     (\<lambda>k. delete_operation p h now (ws ! k) (newIDs k)) ` {..<length ws}"
proof -
  have "map2 (delete_operation p h now) ws (map newIDs [0..<length ws]) =
      map (\<lambda>k. delete_operation p h now (ws ! k) (newIDs k)) [0..<length ws]"
    by (rule nth_equalityI) simp_all
  then show ?thesis by (simp add: lessThan_atLeast0)
qed

lemma chosen_worktree:
  assumes "site_ok s" "w \<in> set (site_workspaces s)" "managed_worktree p w"
  obtains dw where "dw \<in> set (filter managed (deletion_workspaces p cutoff s))" "dw_id dw = wk_id w" "dw_kind dw = ''worktree''"
proof -
  have "wk_server_id w \<in> set (map s_id (site_servers s))"
    using site_okD(4)[OF assms(1)] assms(2) by (auto simp: workspaces_ok_def list_all_iff)
  then obtain srv where "srv \<in> set (site_servers s)" "s_id srv = wk_server_id w" by auto
  then have "deletion_workspace cutoff w srv \<in> set (deletion_workspaces p cutoff s)"
    using assms(2,3) by (auto simp: set_deletion_workspaces managed_worktree_def)
  moreover have "managed (deletion_workspace cutoff w srv)" "dw_id (deletion_workspace cutoff w srv) = wk_id w"
    "dw_kind (deletion_workspace cutoff w srv) = ''worktree''"
    using assms(3) by (simp_all add: managed_def deletion_workspace_def managed_worktree_def)
  ultimately show ?thesis using that by simp
qed

lemma chosen_origin:
  assumes "dw \<in> set (filter managed (deletion_workspaces p cutoff s))"
  obtains w where "w \<in> set (site_workspaces s)" "wk_project_id w = p" "dw_id dw = wk_id w" "dw_kind dw = wk_kind w"
    "wk_management_mode w = ''managed''"
  using assms that by (auto simp: set_deletion_workspaces deletion_workspace_def managed_def)

text \<open>The rows of a new deletion, when no operation of an earlier one is active or waiting.\<close>

lemma fresh_deletion:
  assumes ok: "site_ok s" and p: "p \<noteq> []" "\<forall>w\<in>set (site_workspaces s). wk_id w \<noteq> []"
    and chosen: "chosen = filter managed (deletion_workspaces p cutoff s)"
    and old: "\<forall>o1\<in>set old. \<not> (is_delete p o1 \<and> active o1) \<and> \<not> waits p o1"
    and ops: "site_operations s' = old @ map2 (delete_operation p (list_ex (\<lambda>w. dw_kind w = ''worktree'') chosen) now) chosen
       (map newIDs [0..<length chosen])" and ws: "site_workspaces s' = site_workspaces s"
  shows "no_stall p s'" and "worktrees_first p s'"
proof -
  let ?h = "list_ex (\<lambda>w. dw_kind w = ''worktree'') chosen"
  have is_row: "is_delete p (delete_operation p h now dw i)" for h dw i
    using p(1) by (simp add: is_delete_def nullif_empty_def)
  have rows: "\<exists>i. delete_operation p ?h now dw i \<in> set (site_operations s')" if "dw \<in> set chosen" for dw
  proof -
    obtain k where "k < length chosen" "dw = chosen ! k" using \<open>dw \<in> set chosen\<close> by (auto simp: in_set_conv_nth)
    then show ?thesis unfolding ops set_append delete_rows_set by blast
  qed
  have new: "\<exists>dw\<in>set chosen. \<exists>i. o1 = delete_operation p ?h now dw i"
    if "o1 \<in> set (site_operations s')" "is_delete p o1 \<and> active o1 \<or> waits p o1" for o1
    using that old unfolding ops set_append delete_rows_set by auto
  have served: "\<exists>o2\<in>set (site_operations s'). is_delete p o2 \<and> active o2 \<and> o_workspace_id o2 = nullif_empty (dw_id dw)"
    if dw: "dw \<in> set chosen" "dw_kind dw = ''worktree''" for dw
  proof -
    obtain i where i: "delete_operation p ?h now dw i \<in> set (site_operations s')" using rows[OF dw(1)] by blast
    have "active (delete_operation p ?h now dw i)" using dw(2) by (simp add: queued_active)
    then show ?thesis using i is_row by (intro bexI[OF _ i]) simp
  qed
  show "no_stall p s'"
    unfolding no_stall_def
  proof (intro ballI impI)
    fix o1 assume o1: "o1 \<in> set (site_operations s')" "waits p o1"
    then obtain dw i where "o1 = delete_operation p ?h now dw i" using new by blast
    then have "?h" using o1(2) by (auto simp: waits_def split: if_splits)
    then obtain dv where "dv \<in> set chosen" "dw_kind dv = ''worktree''" by (auto simp: list_ex_iff)
    then show "\<exists>o2\<in>set (site_operations s'). is_delete p o2 \<and> active o2" using served by blast
  qed
  show "worktrees_first p s'"
    unfolding worktrees_first_def ws
  proof (intro conjI ballI impI)
    fix o1 w assume w: "w \<in> set (site_workspaces s)" "managed_worktree p w"
    obtain dw where dw: "dw \<in> set chosen" "dw_id dw = wk_id w" "dw_kind dw = ''worktree''"
      using chosen_worktree[OF ok w] unfolding chosen by blast
    obtain o2 where "o2 \<in> set (site_operations s')" "is_delete p o2 \<and> active o2 \<and> o_workspace_id o2 = nullif_empty (dw_id dw)"
      using served[OF dw(1,3)] by blast
    then show "\<exists>o2\<in>set (site_operations s'). is_delete p o2 \<and> (active o2 \<or> o_status o2 = ''failed'') \<and> o_workspace_id o2 = Some (wk_id w)"
      using p(2) w(1) dw(2) by (intro bexI) (auto simp: nullif_empty_def)
  next
    fix o1 w v
    assume o1: "o1 \<in> set (site_operations s')" and w: "w \<in> set (site_workspaces s)" and v: "v \<in> set (site_workspaces s)"
      and h: "is_delete p o1 \<and> active o1 \<and> o_workspace_id o1 = Some (wk_id w) \<and> wk_kind w \<noteq> ''worktree''"
    obtain dw i where dw: "dw \<in> set chosen" "o1 = delete_operation p ?h now dw i" using new o1 h by blast
    obtain u where u: "u \<in> set (site_workspaces s)" "dw_id dw = wk_id u" "dw_kind dw = wk_kind u"
      using dw(1) chosen_origin unfolding chosen by metis
    have "wk_id u = wk_id w" using h dw(2) u(2) by (auto simp: nullif_empty_def split: if_splits)
    then have "u = w" using same_workspace_row[OF ok u(1) w] by blast
    then have no: "\<not> ?h" using h dw(2) u(3) by (auto simp: active_def active_statuses_def split: if_splits)
    show "\<not> managed_worktree p v"
    proof
      assume "managed_worktree p v"
      then obtain dv where "dv \<in> set chosen" "dw_kind dv = ''worktree''" using chosen_worktree[OF ok v] unfolding chosen by blast
      then show False using no by (auto simp: list_ex_iff)
    qed
  qed
qed

lemma superseded_quiet:
  "active (o1\<lparr>o_status := ''superseded''\<rparr>) = False" "waits p (o1\<lparr>o_status := ''superseded''\<rparr>) = False"
  by (simp_all add: active_def active_statuses_def waits_def)

lemma queue_deletion_own:
  assumes "QueueProjectManagedDeletion p newIDs now s = Inr (ids, b, s')" "site_ok s" "p \<noteq> []"
    "\<forall>w\<in>set (site_workspaces s). wk_id w \<noteq> []" "no_stall p s" "worktrees_first p s"
  shows "no_stall p s' \<and> worktrees_first p s'"
  using assms(1)
proof (cases rule: queue_managed_cases)
  case none
  then show ?thesis using assms(5,6) by simp
next
  case remove
  have "\<not> is_delete p o1" if "o1 \<in> set (site_operations s')" for o1
    using that unfolding remove(1) by (auto simp: delete_projects_def Let_def is_delete_def set_null_simps)
  then show ?thesis unfolding no_stall_def worktrees_first_def waits_def by blast
next
  case (queue chosen s1 s2)
  note r1 = change_operations_rest[OF queue(3)] and r2 = update_projects_rest[OF queue(4)]
  have r3: "site_operations s' = site_operations s2 @ map2 (delete_operation p (list_ex (\<lambda>w. dw_kind w = ''worktree'') chosen) now) chosen
       (map newIDs [0..<length chosen]) \<and> site_workspaces s' = site_workspaces s2 \<and> site_projects s' = site_projects s2"
    by (rule queue_deletions_rest[OF queue(5)]) simp
  have "\<not> (is_delete p o1 \<and> active o1) \<and> \<not> waits p o1" if "o1 \<in> set (site_operations s)" for o1
    using no_active_deletion[OF queue(2)] that assms(5) unfolding no_stall_def by blast
  then have "\<forall>o1\<in>set (site_operations s2). \<not> (is_delete p o1 \<and> active o1) \<and> \<not> waits p o1"
    unfolding r2(2) r1(4) by (auto simp: superseded_quiet split: if_splits)
  from fresh_deletion[OF assms(2-4) queue(1) this conjunct1[OF r3]] show ?thesis using r3 r2(1) r1(1) by simp
qed

section \<open>Transitions that add no workspace\<close>

definition shrink :: "(Operation \<Rightarrow> bool) \<Rightarrow> string set \<Rightarrow> string set \<Rightarrow> site \<Rightarrow> site \<Rightarrow> bool" where
  "shrink K gone gp s s' \<longleftrightarrow> frame K gone gp s s' \<and>
     wk_id ` set (site_workspaces s') \<subseteq> wk_id ` set (site_workspaces s) - gone \<and>
     no_new_busy gone s s' \<and> no_new_provision gp s s'"

text \<open>\<open>deletes_of p\<close>: the operations that a deletion of the project \<open>p\<close> may change.\<close>

definition deletes_of :: "string \<Rightarrow> Operation \<Rightarrow> bool" where
  "deletes_of p o1 \<longleftrightarrow> deletes o1 \<and> (o_project_id o1 = None \<or> o_project_id o1 = Some p)"

lemma stable_deletes_of [simp]: "gp \<subseteq> {p} \<Longrightarrow> stable gp (deletes_of p)"
  by (auto simp: stable_def kept_row_def deletes_of_def set_null_def split: option.splits)

lemma is_delete_deletes_of: "is_delete p o1 \<Longrightarrow> deletes_of p o1"
  by (simp add: is_delete_def deletes_of_def)

lemma deletes_of_other: "p \<noteq> q \<Longrightarrow> deletes_of p o1 \<Longrightarrow> \<not> is_delete q o1"
  by (auto simp: is_delete_def deletes_of_def)

lemma deletes_of_kind: "deletes_of p o1 \<Longrightarrow> \<not> works o1 \<and> \<not> creates o1"
  by (simp add: deletes_of_def work_kinds_def ProjectDeleteOperationKind_def gitProjectCreateKind_def)

lemma shrink_trans:
  assumes "shrink K g p s t" "shrink K h q t u" "stable p K" "stable q K"
  shows "shrink K (g \<union> h) (p \<union> q) s u"
  using assms frame_trans[of K g p s t h q u] no_new_busy_trans[of g s t h u] no_new_provision_trans[of p s t q u]
  unfolding shrink_def by blast

lemma shrink_refl: "shrink K {} {} s s"
  unfolding shrink_def using frame_refl no_new_busy_same no_new_provision_same by simp

lemma shrink_calm:
  "calm K s s' \<Longrightarrow> no_new_provision {} s s' \<Longrightarrow> wk_id ` set (site_workspaces s') = wk_id ` set (site_workspaces s) \<Longrightarrow>
     shrink K {} {} s s'"
  by (simp add: shrink_def calm_def still_def)

lemma shrink_delete_workspaces:
  assumes "site_ok s" shows "shrink K (gone_ids sel s) {} s (snd (delete_workspaces sel s))"
proof -
  have "wk_id ` set (site_workspaces (snd (delete_workspaces sel s))) \<subseteq> wk_id ` set (site_workspaces s) - gone_ids sel s"
    unfolding delete_workspaces_ids using gone_iff[OF assms] by auto
  then show ?thesis
    unfolding shrink_def
    using frame_delete_workspaces[OF assms] no_new_busy_delete[OF assms] no_new_provision_same by simp
qed

lemma shrink_delete_projects:
  assumes "site_ok s" shows "shrink K (gone_ids (\<lambda>w. wk_project_id w = i) s) {i} s (snd (delete_projects i s))"
proof -
  let ?sel = "\<lambda>w. wk_project_id w = i"
  have "site_workspaces (snd (delete_projects i s)) = site_workspaces (snd (delete_workspaces ?sel s))"
    by (simp add: delete_projects_def Let_def)
  then have "wk_id ` set (site_workspaces (snd (delete_projects i s))) \<subseteq> wk_id ` set (site_workspaces s) - gone_ids ?sel s"
    using shrink_delete_workspaces[OF assms, of "\<lambda>_. False" ?sel] by (simp add: shrink_def)
  then show ?thesis
    unfolding shrink_def
    using frame_delete_projects[OF assms] no_new_busy_delete_projects[OF assms] no_new_provision_delete by simp
qed

lemma shrink_keeps:
  assumes "shrink K gone gp s s'" "site_ok s" "site_ok s'"
  shows "(\<And>o1. K o1 \<Longrightarrow> \<not> works o1) \<Longrightarrow> busy_ok s \<Longrightarrow> busy_ok s'"
    and "(\<And>o1. K o1 \<Longrightarrow> \<not> works o1) \<Longrightarrow> work_ok s \<Longrightarrow> work_ok s'"
    and "(\<And>o1. K o1 \<Longrightarrow> \<not> creates o1) \<Longrightarrow> provisioning_ok s \<Longrightarrow> provisioning_ok s'"
    and "(\<And>o1. K o1 \<Longrightarrow> \<not> is_delete q o1) \<Longrightarrow> no_stall q s \<Longrightarrow> no_stall q s'"
    and "(\<And>o1. K o1 \<Longrightarrow> \<not> is_delete q o1) \<Longrightarrow> worktrees_first q s \<Longrightarrow> worktrees_first q s'"
proof -
  have fr: "frame K gone gp s s'" and left: "wk_id w \<notin> gone" if "w \<in> set (site_workspaces s')" for w
    using assms(1) that unfolding shrink_def by blast+
  have fr: "frame K gone gp s s'" using assms(1) unfolding shrink_def by blast
  show "(\<And>o1. K o1 \<Longrightarrow> \<not> works o1) \<Longrightarrow> busy_ok s \<Longrightarrow> busy_ok s'"
    using frame_busy[OF fr] assms(1) unfolding shrink_def by blast
  show "(\<And>o1. K o1 \<Longrightarrow> \<not> works o1) \<Longrightarrow> work_ok s \<Longrightarrow> work_ok s'" using frame_work_ok[OF fr] by blast
  show "(\<And>o1. K o1 \<Longrightarrow> \<not> creates o1) \<Longrightarrow> provisioning_ok s \<Longrightarrow> provisioning_ok s'"
    using frame_provisioning[OF fr] assms(1) unfolding shrink_def by blast
  show "(\<And>o1. K o1 \<Longrightarrow> \<not> is_delete q o1) \<Longrightarrow> no_stall q s \<Longrightarrow> no_stall q s'"
    using frame_deletion(1)[OF fr assms(3,2)] left by blast
  show "(\<And>o1. K o1 \<Longrightarrow> \<not> is_delete q o1) \<Longrightarrow> worktrees_first q s \<Longrightarrow> worktrees_first q s'"
    using frame_deletion(2)[OF fr assms(3,2)] left by blast
qed

lemma queue_managed_shrink:
  assumes "QueueProjectManagedDeletion p newIDs now s = Inr (ids, b, s')" "site_ok s"
  shows "\<exists>gone gp. shrink (deletes_of p) gone gp s s'"
  using assms(1)
proof (cases rule: queue_managed_cases)
  case none
  then show ?thesis using shrink_refl by blast
next
  case remove
  then show ?thesis using shrink_delete_projects[OF assms(2)] by blast
next
  case (queue chosen s1 s2)
  have r3: "site_workspaces s' = site_workspaces s2" using queue_deletions_rest[OF queue(5)] by simp
  have "deletes_of p o1" if "o_kind o1 = ProjectDeleteOperationKind" "o_project_id o1 = nullif_empty p \<or> o_project_id o1 = Some p" for o1
    using that by (auto simp: deletes_of_def nullif_empty_def split: if_splits)
  then have "calm (deletes_of p) s s'" "no_new_provision {} s s'"
    using queue_managed_calm[OF queue(3-5), of "deletes_of p"] by simp_all
  moreover have "site_workspaces s' = site_workspaces s"
    using r3 change_operations_rest(1)[OF queue(3)] update_projects_rest(1)[OF queue(4)] by simp
  ultimately show ?thesis using shrink_calm by fastforce
qed

section \<open>The result of one deletion\<close>

lemma conclude_cases:
  assumes "conclude_deletion p msg now s = Inr s'"
  obtains (going) o1 where "s' = s" "o1 \<in> set (site_operations s)" "is_delete p o1" "active o1"
    | (failed) e t where "\<forall>o1\<in>set (site_operations s). \<not> (is_delete p o1 \<and> active o1)"
        "update_projects (\<lambda>q. pj_id q = p) (\<lambda>q. q\<lparr>pj_status := ''deletion_failed'', pj_provision_error := e, pj_updated_at := now\<rparr>) s = Inr t"
        "change_operations (\<lambda>o1. is_delete p o1 \<and> o_status o1 = ''waiting'')
          (\<lambda>o1. o1\<lparr>o_status := ''canceled'', o_result := Some ''blocked by an earlier project deletion failure'', o_completed_at := Some now\<rparr>) t = Inr s'"
    | (release) "\<forall>o1\<in>set (site_operations s). \<not> (is_delete p o1 \<and> (active o1 \<or> o_status o1 = ''failed''))"
        "change_operations (\<lambda>o1. is_delete p o1 \<and> o_status o1 = ''waiting'') (\<lambda>o1. o1\<lparr>o_status := ''queued''\<rparr>) s = Inr s'"
    | (gone) "s' = snd (delete_projects p s)"
    | (ready) "\<forall>o1\<in>set (site_operations s). \<not> (is_delete p o1 \<and> (active o1 \<or> o_status o1 = ''waiting''))"
        "update_projects (\<lambda>q. pj_id q = p) (\<lambda>q. q\<lparr>pj_status := (if pj_status q = ''deleting'' then ''ready'' else pj_status q),
           pj_provision_error := [], pj_updated_at := now\<rparr>) s = Inr s'"
proof -
  let ?A = "count_operations (\<lambda>o1. is_delete p o1 \<and> active o1) s"
    and ?F = "count_operations (\<lambda>o1. is_delete p o1 \<and> o_status o1 = ''failed'') s"
    and ?W = "count_operations (\<lambda>o1. is_delete p o1 \<and> o_status o1 = ''waiting'') s"
  consider (1) "0 < ?A" | (2) "?A = 0" "0 < ?F" | (3) "?A = 0" "?F = 0" "0 < ?W"
    | (4) "?A = 0" "?F = 0" "?W = 0" "filter (in_project p) (site_workspaces s) = []"
    | (5) "?A = 0" "?F = 0" "?W = 0" "filter (in_project p) (site_workspaces s) \<noteq> []" by linarith
  then show ?thesis
  proof cases
    case 1
    then obtain o1 where "o1 \<in> set (site_operations s)" "is_delete p o1" "active o1"
      using count_operations_none[of "\<lambda>o1. is_delete p o1 \<and> active o1" s] by fastforce
    moreover have "s' = s" using assms 1 by (simp add: conclude_deletion_def)
    ultimately show ?thesis by (rule going[rotated])
  next
    case 2
    let ?e = "if msg = [] then ''one or more managed workspaces could not be deleted'' else msg"
    have "try_then (update_projects (\<lambda>q. pj_id q = p) (\<lambda>q. q\<lparr>pj_status := ''deletion_failed'', pj_provision_error := ?e, pj_updated_at := now\<rparr>) s)
       (change_operations (\<lambda>o1. is_delete p o1 \<and> o_status o1 = ''waiting'')
          (\<lambda>o1. o1\<lparr>o_status := ''canceled'', o_result := Some ''blocked by an earlier project deletion failure'', o_completed_at := Some now\<rparr>)) = Inr s'"
      using assms 2 unfolding conclude_deletion_def by (simp only: less_irrefl if_False if_True)
    then obtain t where "update_projects (\<lambda>q. pj_id q = p) (\<lambda>q. q\<lparr>pj_status := ''deletion_failed'', pj_provision_error := ?e, pj_updated_at := now\<rparr>) s = Inr t"
       "change_operations (\<lambda>o1. is_delete p o1 \<and> o_status o1 = ''waiting'')
          (\<lambda>o1. o1\<lparr>o_status := ''canceled'', o_result := Some ''blocked by an earlier project deletion failure'', o_completed_at := Some now\<rparr>) t = Inr s'"
      unfolding try_then_Inr_iff by blast
    then show ?thesis using 2(1) by (intro failed) (simp_all add: count_operations_none)
  next
    case 3
    have "change_operations (\<lambda>o1. is_delete p o1 \<and> o_status o1 = ''waiting'') (\<lambda>o1. o1\<lparr>o_status := ''queued''\<rparr>) s = Inr s'"
      using assms 3 unfolding conclude_deletion_def by (simp only: less_irrefl if_False if_True)
    then show ?thesis using 3 by (intro release) (auto simp: count_operations_none)
  next
    case 4
    have "s' = snd (delete_projects p s)"
      using assms 4 unfolding conclude_deletion_def by (simp only: less_irrefl refl if_False if_True sum.inject)
    then show ?thesis by (rule gone)
  next
    case 5
    have "update_projects (\<lambda>q. pj_id q = p) (\<lambda>q. q\<lparr>pj_status := (if pj_status q = ''deleting'' then ''ready'' else pj_status q),
           pj_provision_error := [], pj_updated_at := now\<rparr>) s = Inr s'"
      using assms 5 unfolding conclude_deletion_def by (simp only: less_irrefl if_False if_True)
    then show ?thesis using 5 by (intro ready) (auto simp: count_operations_none)
  qed
qed

lemma conclude_shrink:
  assumes "conclude_deletion p msg now s = Inr s'" "site_ok s"
  shows "\<exists>gone gp. gp \<subseteq> {p} \<and> shrink (deletes_of p) gone gp s s'"
proof -
  let ?up = "\<lambda>st e q. q\<lparr>pj_status := st q, pj_provision_error := e, pj_updated_at := now\<rparr>"
  have ups: "shrink (deletes_of p) {} {} s t"
    if "update_projects (\<lambda>q. pj_id q = p) (?up st e) s = Inr t" "\<And>q. st q = ''provisioning'' \<Longrightarrow> pj_status q = ''provisioning''" for st e t
    by (rule shrink_calm[OF calm_projects[OF that(1)] no_new_provision_update[OF that(1)]])
      (use that(2) update_projects_rest(1)[OF that(1)] in simp_all)
  have chg: "shrink (deletes_of p) {} {} t u"
    if "change_operations (\<lambda>o1. is_delete p o1 \<and> o_status o1 = ''waiting'') f t = Inr u"
      "\<And>o1. is_delete p o1 \<Longrightarrow> is_delete p (f o1)" for f t u
    by (rule shrink_calm[OF calm_change[OF that(1)] no_new_provision_same])
      (use that(2) change_operations_rest[OF that(1)] is_delete_deletes_of in auto)
  show ?thesis
    using assms(1)
  proof (cases rule: conclude_cases)
    case going
    then show ?thesis using shrink_refl by blast
  next
    case (failed e t)
    have "shrink (deletes_of p) {} {} s t" by (rule ups[OF failed(2)]) simp
    moreover have "shrink (deletes_of p) {} {} t s'" by (rule chg[OF failed(3)]) (simp add: is_delete_def)
    ultimately have "shrink (deletes_of p) ({} \<union> {}) ({} \<union> {}) s s'" by (rule shrink_trans) simp_all
    then show ?thesis by blast
  next
    case release
    have "shrink (deletes_of p) {} {} s s'" by (rule chg[OF release(2)]) (simp add: is_delete_def)
    then show ?thesis by blast
  next
    case gone
    then show ?thesis using shrink_delete_projects[OF assms(2)] by blast
  next
    case ready
    have "shrink (deletes_of p) {} {} s s'" by (rule ups[OF ready(2)]) (simp split: if_splits)
    then show ?thesis by blast
  qed
qed

lemma no_deletion_safe:
  "\<forall>o1\<in>set (site_operations s). \<not> (is_delete p o1 \<and> (active o1 \<or> o_status o1 = ''waiting'')) \<Longrightarrow>
     no_stall p s \<and> worktrees_first p s"
  unfolding no_stall_def worktrees_first_def waits_def by blast

lemma conclude_first:
  assumes "conclude_deletion p msg now s = Inr s'" "worktrees_first p s"
  shows "no_stall p s' \<and> worktrees_first p s'"
  using assms(1)
proof (cases rule: conclude_cases)
  case (going o1)
  then show ?thesis using assms(2) unfolding no_stall_def by blast
next
  case (failed e t)
  have "\<not> (is_delete p o1 \<and> (active o1 \<or> o_status o1 = ''waiting''))" if "o1 \<in> set (site_operations s')" for o1
    using that failed(1) update_projects_rest(2)[OF failed(2)]
    unfolding change_operations_rest(4)[OF failed(3)] by (auto simp: active_def active_statuses_def)
  then show ?thesis using no_deletion_safe by blast
next
  case release
  note rest = change_operations_rest[OF release(2)]
  have still_none: "\<not> waits p o1" if "o1 \<in> set (site_operations s')" for o1
    using that unfolding rest(4) by (auto simp: waits_def is_delete_def)
  moreover have "\<not> managed_worktree p v" if o1: "is_delete p o1" "active o1" "o1 \<in> set (site_operations s')" and v: "v \<in> set (site_workspaces s)" for o1 v
  proof -
    obtain q where q: "q \<in> set (site_operations s)" "waits p q"
      using o1 release(1) unfolding rest(4) by (auto simp: waits_def split: if_splits)
    show ?thesis
    proof
      assume "managed_worktree p v"
      then obtain o2 where "o2 \<in> set (site_operations s)" "is_delete p o2 \<and> (active o2 \<or> o_status o2 = ''failed'')"
        using assms(2) q v unfolding worktrees_first_def by blast
      then show False using release(1) by blast
    qed
  qed
  ultimately show ?thesis unfolding no_stall_def worktrees_first_def rest(1) by blast
next
  case gone
  have "\<not> is_delete p o1" if "o1 \<in> set (site_operations s')" for o1
    using that unfolding gone by (auto simp: delete_projects_def Let_def is_delete_def set_null_simps)
  then show ?thesis using no_deletion_safe by blast
next
  case ready
  then show ?thesis using update_projects_rest(2)[OF ready(2)] by (intro no_deletion_safe) simp
qed

lemma complete_deletion_cases:
  assumes "CompleteProjectDeletion op1 res now s = Inr s'"
  obtains p i st msg data s1 s2 where "is_delete p op1" "o_workspace_id op1 = Some i" "st \<in> {''succeeded'', ''failed''}"
    "change_operations (\<lambda>o1. o_id o1 = o_id op1 \<and> o_kind o1 = ProjectDeleteOperationKind) (finish st msg data now) s = Inr s1"
    "s2 = (if st = ''succeeded'' then snd (delete_workspaces (\<lambda>w. wk_id w = i \<and> wk_project_id w = p \<and> wk_management_mode w = ''managed'') s1)
       else s1)" "conclude_deletion p msg now s2 = Inr s'"
proof -
  let ?p = "or_empty (o_project_id op1)" and ?i = "or_empty (o_workspace_id op1)" and ?settled = "\<lambda>c. settle_deletion c res"
  obtain c where k: "o_kind op1 = ProjectDeleteOperationKind" "?p \<noteq> []" "?i \<noteq> []"
    and rest: "(let settled = settle_deletion c res in
            try_then (operationResultData (ResultData settled)) (\<lambda>data.
            try_then (change_operations (\<lambda>o1. o_id o1 = o_id op1 \<and> o_kind o1 = ProjectDeleteOperationKind)
                (finish (ResultStatus settled) (ResultMessage settled) data now) s) (\<lambda>s1.
            conclude_deletion ?p (ResultMessage settled) now
              (if ResultStatus settled = ''succeeded''
               then snd (delete_workspaces (\<lambda>w. wk_id w = ?i \<and> wk_project_id w = ?p \<and> wk_management_mode w = ''managed'') s1)
               else s1)))) = Inr s'"
    using assms unfolding CompleteProjectDeletion_def by (auto split: if_split_asm option.split_asm)
  obtain data s1 where s1: "change_operations (\<lambda>o1. o_id o1 = o_id op1 \<and> o_kind o1 = ProjectDeleteOperationKind)
        (finish (ResultStatus (?settled c)) (ResultMessage (?settled c)) data now) s = Inr s1"
    and con: "conclude_deletion ?p (ResultMessage (?settled c)) now
         (if ResultStatus (?settled c) = ''succeeded''
          then snd (delete_workspaces (\<lambda>w. wk_id w = ?i \<and> wk_project_id w = ?p \<and> wk_management_mode w = ''managed'') s1)
          else s1) = Inr s'"
    using rest unfolding Let_def try_then_Inr_iff by blast
  have "is_delete ?p op1" "o_workspace_id op1 = Some ?i"
    using k by (cases "o_project_id op1"; cases "o_workspace_id op1"; simp add: is_delete_def or_empty_def)+
  moreover have "ResultStatus (?settled c) \<in> {''succeeded'', ''failed''}" by (simp add: settle_deletion_def Let_def)
  ultimately show ?thesis using that s1 con by blast
qed

lemma complete_deletion_shrink:
  assumes "CompleteProjectDeletion op1 res now s = Inr s'" "site_ok s" "op1 \<in> set (site_operations s)" "is_delete p op1"
  shows "\<exists>gone gp. shrink (deletes_of p) gone gp s s'"
  using assms(1)
proof (rule complete_deletion_cases)
  fix p' i st msg data s1 s2
  let ?sel = "\<lambda>w. wk_id w = i \<and> wk_project_id w = p' \<and> wk_management_mode w = ''managed''"
  assume p': "is_delete p' op1" and s1: "change_operations (\<lambda>o1. o_id o1 = o_id op1 \<and> o_kind o1 = ProjectDeleteOperationKind) (finish st msg data now) s = Inr s1"
    and s2: "s2 = (if st = ''succeeded'' then snd (delete_workspaces ?sel s1) else s1)" and con: "conclude_deletion p' msg now s2 = Inr s'"
  have p: "p' = p" using p' assms(4) by (simp add: is_delete_def)
  have only: "o1 = op1" if "o1 \<in> set (site_operations s)" "o_id o1 = o_id op1" for o1
    using same_operation_row[OF assms(2) that(1) assms(3) that(2)] .
  have calm1: "calm (deletes_of p) s s1"
    by (rule calm_change[OF s1]) (use only assms(4) in \<open>auto simp: deletes_of_def is_delete_def\<close>)
  have 1: "shrink (deletes_of p) {} {} s s1"
    by (rule shrink_calm[OF calm1 no_new_provision_same]) (use change_operations_rest[OF s1] in simp_all)
  have ok1: "site_ok s1" using change_operations_ok[OF s1 assms(2)] .
  have "\<exists>g. shrink (deletes_of p) g {} s1 s2 \<and> site_ok s2"
  proof (cases "st = ''succeeded''")
    case True
    then show ?thesis using shrink_delete_workspaces[OF ok1] delete_workspaces_ok[OF ok1] s2 by auto
  next
    case False
    then show ?thesis using shrink_refl ok1 s2 by auto
  qed
  then obtain g where g: "shrink (deletes_of p) g {} s1 s2" "site_ok s2" by blast
  obtain h q where hq: "q \<subseteq> {p}" "shrink (deletes_of p) h q s2 s'" using conclude_shrink[OF con g(2)] p by blast
  have "shrink (deletes_of p) ({} \<union> g) ({} \<union> {}) s s2" by (rule shrink_trans[OF 1 g(1)]) simp_all
  then have "shrink (deletes_of p) (g \<union> h) ({} \<union> q) s s'" by (intro shrink_trans[OF _ hq(2)]) (use hq(1) in simp_all)
  then show ?thesis by blast
qed

lemma kept_row_back:
  assumes "kept_row gone {} o1 o2"
  shows "o_workspace_id o2 = Some i \<Longrightarrow> o_workspace_id o1 = Some i" and "is_delete p o2 = is_delete p o1"
    and "active o2 = active o1"
proof -
  have "o_workspace_id o2 = set_null gone (o_workspace_id o1)" using assms by (simp add: kept_row_def)
  then show "o_workspace_id o2 = Some i \<Longrightarrow> o_workspace_id o1 = Some i" by (simp add: set_null_simps)
qed (use assms in \<open>simp_all add: kept_row_def is_delete_def active_def\<close>)

lemma finished_first:
  assumes ok: "site_ok s" and op1: "op1 \<in> set (site_operations s)" "is_delete p op1" "o_workspace_id op1 = Some i"
    and st: "st \<in> {''succeeded'', ''failed''}"
    and s1: "change_operations (\<lambda>o1. o_id o1 = o_id op1 \<and> o_kind o1 = ProjectDeleteOperationKind) (finish st msg data now) s = Inr s1"
    and s2: "s2 = (if st = ''succeeded'' then snd (delete_workspaces (\<lambda>w. wk_id w = i \<and> wk_project_id w = p \<and> wk_management_mode w = ''managed'') s1)
       else s1)" and first: "worktrees_first p s"
  shows "worktrees_first p s2"
proof -
  let ?sel = "\<lambda>w. wk_id w = i \<and> wk_project_id w = p \<and> wk_management_mode w = ''managed''"
  let ?gone = "if st = ''succeeded'' then gone_ids ?sel s else {}"
  note rest = change_operations_rest[OF s1]
  have only: "o1 = op1" if "o1 \<in> set (site_operations s)" "o_id o1 = o_id op1" for o1
    using same_operation_row[OF ok that(1) op1(1) that(2)] .
  have row: "(o2 \<in> set (site_operations s1)) = (\<exists>o1\<in>set (site_operations s). o2 = (if o1 = op1 then finish st msg data now o1 else o1))" for o2
  proof -
    have "(o_id o1 = o_id op1 \<and> deletes o1) = (o1 = op1)" if "o1 \<in> set (site_operations s)" for o1
      using only that op1(2) by (auto simp: is_delete_def)
    then show ?thesis unfolding rest(4) set_map image_iff by (intro bex_cong) simp_all
  qed
  have st_inactive: "st \<notin> set active_statuses" "st \<noteq> ''waiting''" using st by (auto simp: active_statuses_def)
  have "frame (\<lambda>_. False) ?gone {} s1 s2"
    using frame_delete_workspaces[OF change_operations_ok[OF s1 ok], of _ ?sel] frame_refl rest(1)
    unfolding s2 by (simp add: gone_ids_def)
  then have fr: "\<forall>o2\<in>set (site_operations s2). \<exists>o1\<in>set (site_operations s1). kept_row ?gone {} o1 o2"
    and to: "\<forall>o1\<in>set (site_operations s1). \<exists>o2\<in>set (site_operations s2). kept_row ?gone {} o1 o2"
    unfolding frame_def by blast+
  have came: "\<exists>o1\<in>set (site_operations s). o1 \<noteq> op1 \<and> kept_row ?gone {} o1 o2"
    if o2: "o2 \<in> set (site_operations s2)" "active o2 \<or> o_status o2 = ''waiting''" for o2
  proof -
    obtain o1 where o1: "o1 \<in> set (site_operations s1)" "kept_row ?gone {} o1 o2" using fr o2(1) by blast
    have "active o1 \<or> o_status o1 = ''waiting''" using o2(2) o1(2) by (simp add: kept_row_def active_def)
    then show ?thesis using o1 st_inactive unfolding row by (auto simp: active_def split: if_splits)
  qed
  have ws: "\<exists>v\<in>set (site_workspaces s). same_place v w \<and> wk_id v \<notin> ?gone" if "w \<in> set (site_workspaces s2)" for w
  proof (cases "st = ''succeeded''")
    case True
    then obtain v where "v \<in> set (site_workspaces s1)" "\<not> ?sel v" "same_place v w"
      using \<open>w \<in> _\<close> unfolding s2 by (auto simp: delete_workspaces_sel same_place_def)
    then show ?thesis using gone_iff[OF ok, of v ?sel] True unfolding rest(1) by auto
  qed (use \<open>w \<in> _\<close> rest(1) s2 same_place_refl in auto)
  show ?thesis
    unfolding worktrees_first_def
  proof (intro conjI ballI impI)
    fix o2 w assume o2: "o2 \<in> set (site_operations s2)" "waits p o2" and w: "w \<in> set (site_workspaces s2)" "managed_worktree p w"
    obtain o1 where o1: "o1 \<in> set (site_operations s)" "kept_row ?gone {} o1 o2" using came o2 unfolding waits_def by blast
    have "waits p o1" using o1(2) o2(2) by (simp add: waits_def is_delete_def kept_row_def)
    obtain v where v: "v \<in> set (site_workspaces s)" "same_place v w" "wk_id v \<notin> ?gone" using ws[OF w(1)] by blast
    have "managed_worktree p v" "wk_id v = wk_id w" using w(2) v(2) by (simp_all add: managed_worktree_def same_place_def)
    with first o1(1) \<open>waits p o1\<close> v(1) obtain q where q: "q \<in> set (site_operations s)" "is_delete p q"
        "active q \<or> o_status q = ''failed''" "o_workspace_id q = Some (wk_id w)"
      unfolding worktrees_first_def by metis
    let ?q = "if q = op1 then finish st msg data now q else q"
    have "st = ''failed''" if "q = op1"
    proof (rule ccontr)
      assume "st \<noteq> ''failed''"
      then have s: "st = ''succeeded''" using st by simp
      have "i = wk_id v" using that op1(3) q(4) \<open>wk_id v = wk_id w\<close> by simp
      then have "wk_id v \<in> gone_ids ?sel s"
        using v(1) gone_iff[OF ok, of v ?sel] \<open>managed_worktree p v\<close> by (simp add: managed_worktree_def)
      then show False using v(3) s by simp
    qed
    then have props: "is_delete p ?q" "active ?q \<or> o_status ?q = ''failed''" "o_workspace_id ?q = Some (wk_id w)"
      using q by (auto simp: is_delete_def)
    have "?q \<in> set (site_operations s1)" unfolding row using q(1) by blast
    then obtain o3 where "o3 \<in> set (site_operations s2)" "kept_row ?gone {} ?q o3" using to by blast
    then show "\<exists>o2\<in>set (site_operations s2). is_delete p o2 \<and> (active o2 \<or> o_status o2 = ''failed'') \<and> o_workspace_id o2 = Some (wk_id w)"
      using props v(3) \<open>wk_id v = wk_id w\<close>
      by (intro bexI[where x = o3]) (simp_all only: kept_row_def is_delete_def active_def set_null_simps set_null_empty simp_thms)
  next
    fix o2 w v2
    assume o2: "o2 \<in> set (site_operations s2)" and w: "w \<in> set (site_workspaces s2)" and v2: "v2 \<in> set (site_workspaces s2)"
      and h: "is_delete p o2 \<and> active o2 \<and> o_workspace_id o2 = Some (wk_id w) \<and> wk_kind w \<noteq> ''worktree''"
    obtain o1 where o1: "o1 \<in> set (site_operations s)" "kept_row ?gone {} o1 o2" using came o2 h by blast
    have "is_delete p o1" "active o1" "o_workspace_id o1 = Some (wk_id w)"
      using kept_row_back[OF o1(2)] h by simp_all
    moreover obtain w1 where w1: "w1 \<in> set (site_workspaces s)" "same_place w1 w" using ws[OF w] by blast
    ultimately have none: "\<not> managed_worktree p u" if "u \<in> set (site_workspaces s)" for u
      using first o1(1) h that unfolding worktrees_first_def same_place_def by metis
    show "\<not> managed_worktree p v2"
      using ws[OF v2] none unfolding managed_worktree_def same_place_def by metis
  qed
qed

lemma complete_deletion_own:
  assumes "CompleteProjectDeletion op1 res now s = Inr s'" "site_ok s" "op1 \<in> set (site_operations s)" "is_delete p op1"
    "worktrees_first p s"
  shows "no_stall p s' \<and> worktrees_first p s'"
  using assms(1)
proof (rule complete_deletion_cases)
  fix p' i st msg data s1 s2
  assume a: "is_delete p' op1" "o_workspace_id op1 = Some i" "st \<in> {''succeeded'', ''failed''}"
    "change_operations (\<lambda>o1. o_id o1 = o_id op1 \<and> o_kind o1 = ProjectDeleteOperationKind) (finish st msg data now) s = Inr s1"
    "s2 = (if st = ''succeeded'' then snd (delete_workspaces (\<lambda>w. wk_id w = i \<and> wk_project_id w = p' \<and> wk_management_mode w = ''managed'') s1)
       else s1)" and con: "conclude_deletion p' msg now s2 = Inr s'"
  have p: "p' = p" using a(1) assms(4) by (simp add: is_delete_def)
  show ?thesis
    by (rule conclude_first[OF con[unfolded p] finished_first[OF assms(2,3,4) a(2-4) a(5)[unfolded p] assms(5)]])
qed

section \<open>The invariants of the system\<close>

definition site_inv :: "site \<Rightarrow> bool" where
  "site_inv s \<longleftrightarrow> site_ok s \<and> busy_ok s \<and> work_ok s \<and> provisioning_ok s \<and>
     (\<forall>p. no_stall p s \<and> worktrees_first p s)"

lemma site_invD:
  assumes "site_inv s"
  shows "site_ok s" "busy_ok s" "work_ok s" "provisioning_ok s" "no_stall p s" "worktrees_first p s"
  using assms by (simp_all add: site_inv_def)

lemma quiet_inv: "quiet s s' \<and> site_ok s' \<Longrightarrow> site_inv s \<Longrightarrow> site_inv s'"
  unfolding site_inv_def using quiet_busy quiet_work_ok quiet_provisioning quiet_deletion by blast

lemma shrink_inv:
  assumes "shrink (\<lambda>_. False) gone gp s s'" "site_inv s" "site_ok s'" shows "site_inv s'"
  unfolding site_inv_def using shrink_keeps[OF assms(1) site_invD(1)[OF assms(2)] assms(3)] site_invD[OF assms(2)] assms(3) by simp

lemma deletion_inv:
  assumes "\<exists>gone gp. shrink (deletes_of p) gone gp s s'" "no_stall p s' \<and> worktrees_first p s'" "site_inv s" "site_ok s'"
  shows "site_inv s'"
proof -
  obtain gone gp where "shrink (deletes_of p) gone gp s s'" using assms(1) by blast
  note keeps = shrink_keeps[OF this site_invD(1)[OF assms(3)] assms(4)] and inv = site_invD[OF assms(3)]
  have "no_stall q s' \<and> worktrees_first q s'" for q
  proof (cases "p = q")
    case True
    then show ?thesis using assms(2) by simp
  next
    case False
    note other = deletes_of_other[OF False]
    show ?thesis using keeps(4)[OF other inv(5)] keeps(5)[OF other inv(6)] by simp
  qed
  moreover have "busy_ok s'" "work_ok s'" "provisioning_ok s'"
    using deletes_of_kind[of p] by (auto intro: keeps(1-3) inv(2-4))
  ultimately show ?thesis using assms(4) by (simp add: site_inv_def)
qed

lemma creates_inv:
  assumes "calm creates s s' \<and> provisioning_ok s'" "site_inv s" "site_ok s'" shows "site_inv s'"
proof -
  have fr: "frame creates {} {} s s'" using assms(1) by (simp add: calm_def still_def)
  have no: "\<not> works o1" if "creates o1" for o1 :: Operation
    using that by (simp add: work_kinds_def gitProjectCreateKind_def)
  have nd: "\<not> is_delete q o1" if "creates o1" for q o1
    using that by (simp add: is_delete_def gitProjectCreateKind_def ProjectDeleteOperationKind_def)
  have "busy_ok s'" "work_ok s'"
    using calm_busy[of creates s s'] frame_work_ok[OF fr] no site_invD(2,3)[OF assms(2)] assms(1) by blast+
  moreover have "no_stall q s'" "worktrees_first q s'" for q
    using calm_deletion[of creates s s' q] nd site_invD[OF assms(2)] assms(1,3) by blast+
  ultimately show ?thesis using assms(1,3) by (simp add: site_inv_def)
qed

lemma works_inv:
  assumes "frame works gone {} s s'" "\<forall>w\<in>set (site_workspaces s'). wk_id w \<notin> gone" "site_projects s' = site_projects s"
    and "busy_ok s'" "work_ok s'" "site_inv s" "site_ok s'"
  shows "site_inv s'"
proof -
  have nc: "o_kind o1 \<noteq> gitProjectCreateKind" if "works o1" for o1 :: Operation
    using that by (auto simp: work_kinds_def gitProjectCreateKind_def)
  have nd: "\<not> is_delete q o1" if "works o1" for q o1
    using that by (auto simp: is_delete_def work_kinds_def ProjectDeleteOperationKind_def)
  have "provisioning_ok s'"
    using frame_provisioning[OF assms(1) no_new_provision_same[OF assms(3)] site_invD(4)[OF assms(6)]] nc by blast
  moreover have "no_stall q s'" "worktrees_first q s'" for q
    using frame_deletion[OF assms(1) assms(7) site_invD(1)[OF assms(6)], of q] nd assms(2) site_invD(5,6)[OF assms(6)] by blast+
  ultimately show ?thesis using assms(4,5,7) by (simp add: site_inv_def)
qed

lemma settle_projects: "settle_operation i st msg data now s = Inr s' \<Longrightarrow> site_projects s' = site_projects s"
  using change_operations_rest(2) unfolding settle_operation_def by blast

lemma apply_projects: "apply_lifecycle c r srv now s = Inr s' \<Longrightarrow> site_projects s' = site_projects s"
  unfolding apply_lifecycle_def
  by (auto simp: try_then_Inr_iff update_workspaces_Inr insert_workspace_Inr delete_workspaces_def Let_def mark_workspace_rest(3)
      split: if_splits option.splits prod.splits)

lemma fail_workspace_projects: "fail_workspace op1 w res st now s = Inr s' \<Longrightarrow> site_projects s' = site_projects s"
  unfolding fail_workspace_def try_then_Inr_iff by (auto simp: mark_workspace_rest(3) dest!: settle_projects)

lemma work_result_projects:
  "handle_lifecycle_result why shown op1 res now s = Inr (pub, s') \<Longrightarrow> site_projects s' = site_projects s"
  "handle_clone_result why shown op1 res now s = Inr (pub, s') \<Longrightarrow> site_projects s' = site_projects s"
  by (auto simp: handle_lifecycle_result_def handle_clone_result_def FailWorkspaceLifecycle_def CompleteWorkspaceLifecycle_def
      FailCrossServerWorkspaceClone_def CompleteCrossServerWorkspaceClone_def try_then_Inr_iff Let_def insert_workspace_Inr
      mark_workspace_rest(3) dest!: apply_projects fail_workspace_projects settle_projects
      split: if_splits option.splits sum.splits)

lemma work_result_inv:
  assumes "result_effect op1 i s s'" "site_inv s" "op1 \<in> set (site_operations s)" "works op1"
    and "\<And>j. o_workspace_id op1 = Some j \<Longrightarrow> j = i" "site_projects s' = site_projects s" "site_ok s'"
  shows "site_inv s'"
proof -
  note keeps = result_effect_keeps[OF assms(1) site_invD(1)[OF assms(2)] assms(3-5)]
  obtain gone where "frame works gone {} s s'" "\<forall>w\<in>set (site_workspaces s'). wk_id w \<notin> gone" using keeps(3) by blast
  then show ?thesis by (rule works_inv) (use keeps(1,2) site_invD(2,3)[OF assms(2)] assms in simp_all)
qed

lemma remove_record_shrink:
  assumes "RemoveWorkspaceRecord i s = Inr s'" "site_ok s"
  shows "\<exists>gone gp. shrink (\<lambda>_. False) gone gp s s'"
proof -
  obtain n where "delete_workspaces (\<lambda>w. wk_id w = i \<and> removable i s) s = (n, s')"
    using assms(1) by (auto simp: RemoveWorkspaceRecord_def try_then_Inr_iff split: if_splits prod.splits)
  then have "s' = snd (delete_workspaces (\<lambda>w. wk_id w = i \<and> removable i s) s)" by simp
  then show ?thesis using shrink_delete_workspaces[OF assms(2)] by blast
qed

lemma delete_records_shrink:
  assumes "DeleteProjectMetadata p now s = Inr (b, s')" "site_ok s"
  shows "\<exists>gone gp. shrink (\<lambda>_. False) gone gp s s'"
proof -
  obtain n where "delete_projects p s = (n, s')"
    using assms(1) by (auto simp: DeleteProjectMetadata_def try_then_Inr_iff split: if_splits prod.splits)
  then have "s' = snd (delete_projects p s)" by simp
  then show ?thesis using shrink_delete_projects[OF assms(2)] by blast
qed

lemma rename_workspace_shrink:
  assumes "UpdateWorkspaceDisplayName i name s = Inr (w, s')" shows "shrink (\<lambda>_. False) {} {} s s'"
proof -
  obtain n where u: "update_workspaces (\<lambda>w. wk_id w = i) (\<lambda>w. w\<lparr>wk_display_name := name\<rparr>) s = Inr (n, s')"
    using assms by (auto simp: UpdateWorkspaceDisplayName_def try_then_Inr_iff split: if_splits)
  have "calm (\<lambda>_. False) s s'"
    unfolding calm_def using still_update_workspaces[OF u] no_new_busy_update[OF u] by (simp add: same_place_def busy_def)
  moreover have "map wk_id (site_workspaces s') = map wk_id (site_workspaces s)" "site_projects s' = site_projects s"
    using u by (simp_all add: update_workspaces_Inr map_if_key)
  ultimately show ?thesis by (intro shrink_calm no_new_provision_same) (simp_all flip: set_map)
qed

lemma set_remote_shrink:
  assumes "UpdateProjectRemote p m now s = Inr s'" shows "shrink (\<lambda>_. False) {} {} s s'"
proof -
  obtain n where u: "update_origin p (remote_from m now) s = Inr (n, s')"
    using assms by (auto simp: UpdateProjectRemote_def try_then_Inr_iff split: if_splits)
  then have "site_projects s' = site_projects s" "site_workspaces s' = site_workspaces s"
    by (auto simp: update_origin_def store_remotes_def try_then_Inr_iff split: if_splits)
  then show ?thesis by (intro shrink_calm[OF calm_origin[OF u] no_new_provision_same]) simp_all
qed

lemma operation_named:
  assumes "site_ok s" "site_operation i s = Inr op1"
  shows "op1 \<in> set (site_operations s)" "o_id op1 = i"
    and "\<And>o1. o1 \<in> set (site_operations s) \<Longrightarrow> o_id o1 = i \<Longrightarrow> o1 = op1"
  using site_operation_Inr[OF assms(2)] same_operation_row[OF assms(1)] by auto

lemma lifecycle_inv:
  assumes "site_operation i s = Inr op1" "o_kind op1 = ''git.workspace.lifecycle''" "ResultOperationID res = i"
    "handle_lifecycle_result why shown op1 res now s = Inr (pub, s')" "site_inv s" "site_ok s'"
  shows "site_inv s'"
proof -
  note op = operation_named[OF site_invD(1)[OF assms(5)] assms(1)]
  obtain c where c: "payload_doc op1 decode_lifecycle = Inr c" "result_effect op1 (lc_workspace_id c) s s'"
    using lifecycle_result_effect[OF assms(4) site_invD(1)[OF assms(5)]] assms(3) op(2) by metis
  have "work_row op1" using site_invD(3)[OF assms(5)] op(1) by (simp add: work_ok_def)
  then have "j = lc_workspace_id c" if "o_workspace_id op1 = Some j" for j
    using that c(1) assms(2) by (auto simp: work_row_def)
  then show ?thesis
    using work_result_inv[OF c(2) assms(5) op(1)] work_result_projects(1)[OF assms(4)] assms(2,6) by (simp add: work_kinds_def)
qed

lemma clone_inv:
  assumes "site_operation i s = Inr op1" "o_kind op1 = ''git.workspace.clone''"
    "handle_clone_result why shown op1 res now s = Inr (pub, s')" "site_inv s" "site_ok s'"
  shows "site_inv s'"
proof -
  note op = operation_named[OF site_invD(1)[OF assms(4)] assms(1)]
  have "j = or_empty (o_workspace_id op1)" if "o_workspace_id op1 = Some j" for j using that by (simp add: or_empty_def)
  then show ?thesis
    using work_result_inv[OF clone_result_effect[OF assms(3) site_invD(1)[OF assms(4)]] assms(4) op(1)]
      work_result_projects(2)[OF assms(3)] assms(2,5) by (simp add: work_kinds_def)
qed

text \<open>A new worktree, while nothing of its project is being deleted.\<close>

lemma worktree_inv:
  assumes "CommitGitWorktree c r now s = Inr s'" "site_inv s" "site_ok s'"
    and free: "\<And>o1. o1 \<in> set (site_operations s) \<Longrightarrow> is_delete (wt_project_id c) o1 \<Longrightarrow> \<not> active o1 \<and> o_status o1 \<noteq> ''waiting''"
  shows "site_inv s'"
  using assms(1)
proof (rule CommitGitWorktree_Inr)
  fix w assume w: "insert_workspace w s = Inr s'" "wk_project_id w = wt_project_id c" "wk_status w = ''ready''"
  have rest: "site_operations s' = site_operations s" "site_projects s' = site_projects s"
      "site_workspaces s' = site_workspaces s @ [w]"
    using w(1) by (auto simp: insert_workspace_Inr)
  note inv = site_invD[OF assms(2)]
  have "busy_ok s'" using inv(2) w(3) unfolding busy_ok_def rest by (auto simp: busy_def)
  moreover have "work_ok s'" "provisioning_ok s'" using inv(3,4) unfolding work_ok_def provisioning_ok_def rest by simp_all
  moreover have "no_stall q s'" for q using inv(5)[of q] unfolding no_stall_def rest by simp
  moreover have "worktrees_first q s'" for q
  proof (cases "q = wt_project_id c")
    case True
    then have "no_stall q s' \<and> worktrees_first q s'" using free unfolding rest(1)[symmetric] by (intro no_deletion_safe) blast
    then show ?thesis by simp
  next
    case False
    then have other: "\<not> managed_worktree q w" using w(2) by (simp add: managed_worktree_def)
    have new: "\<not> (is_delete q o1 \<and> active o1 \<and> o_workspace_id o1 = Some (wk_id w))" if "o1 \<in> set (site_operations s)" for o1
    proof
      assume o1: "is_delete q o1 \<and> active o1 \<and> o_workspace_id o1 = Some (wk_id w)"
      then have "wk_id w \<in> set (map wk_id (site_workspaces s))"
        using \<open>o1 \<in> _\<close> site_okD(5)[OF inv(1)] by (auto simp: operations_ok_def list_all_iff refs_parts refers_def)
      then show False using site_okD(1)[OF assms(3)] unfolding rest(3) by simp
    qed
    show ?thesis
      using inv(6)[of q] other new unfolding worktrees_first_def rest by (auto simp del: not_ex)
  qed
  ultimately show ?thesis using assms(3) by (simp add: site_inv_def)
qed

lemma site_step_inv: "site_step s s' \<Longrightarrow> site_inv s \<Longrightarrow> site_inv s'"
proof -
  assume step: "site_step s s'" and inv: "site_inv s"
  note ok = site_invD(1)[OF inv] and ok' = site_step_ok[OF step site_invD(1)[OF inv]]
  show "site_inv s'"
    using step
  proof cases
    case (deliver i now) then show ?thesis using deliver_quiet quiet_inv ok inv by blast
  next
    case (start i now) then show ?thesis using start_quiet quiet_inv ok inv by blast
  next
    case (queue_other srv kind payload key res wr newID now i d')
    then show ?thesis using queue_other_quiet[OF queue_other(2,3) ok] quiet_inv inv by blast
  next
    case (complete_other r now c d')
    then show ?thesis using complete_other_quiet[OF complete_other(2,3) ok] quiet_inv inv by blast
  next
    case (rename_workspace i name w) then show ?thesis using rename_workspace_shrink shrink_inv inv ok' by blast
  next
    case (remove_record i) then show ?thesis using remove_record_shrink[OF _ ok] shrink_inv inv ok' by blast
  next
    case (queue_lifecycle w c newID now i)
    note k = queue_lifecycle_keeps[OF queue_lifecycle]
    then show ?thesis by (intro works_inv[OF _ _ _ _ _ inv ok', where gone = "{}"]) (use site_invD[OF inv] in \<open>simp_all add: still_def\<close>)
  next
    case (queue_clone w srv cc newID now i)
    note k = queue_clone_keeps[OF queue_clone]
    then show ?thesis by (intro works_inv[OF _ _ _ _ _ inv ok', where gone = "{}"]) (use site_invD[OF inv] in \<open>simp_all add: still_def\<close>)
  next
    case (lifecycle_result i op1 res why shown now pub)
    then show ?thesis using lifecycle_inv inv ok' by blast
  next
    case (clone_result i op1 res why shown now pub)
    then show ?thesis using clone_inv inv ok' by blast
  next
    case (delete_records p now b) then show ?thesis using delete_records_shrink[OF _ ok] shrink_inv inv ok' by blast
  next
    case (queue_deletion p newIDs now ids b)
    then show ?thesis
      by (intro deletion_inv[OF queue_managed_shrink[OF _ ok] queue_deletion_own[OF _ ok] inv ok'] site_invD[OF inv])
  next
    case (deletion_result i op1 res now)
    note op = operation_named[OF ok deletion_result(1)]
    obtain p where p: "is_delete p op1" by (rule complete_deletion_cases[OF deletion_result(3)])
    show ?thesis
      by (rule deletion_inv[OF complete_deletion_shrink[OF deletion_result(3) ok op(1) p]
            complete_deletion_own[OF deletion_result(3) ok op(1) p site_invD(6)[OF inv]] inv ok'])
  next
    case (create pu srv name dest branch readme spec status ids now bp)
    show ?thesis
      by (rule creates_inv[OF conjI[OF create_calm[OF create(1)] create_provisioning[OF create site_invD(4)[OF inv]]] inv ok'])
  next
    case (activate pu p i m now bp)
    show ?thesis by (rule creates_inv[OF activate_keeps[OF activate(1) ok site_invD(4)[OF inv]] inv ok'])
  next
    case (retry p newID now bp)
    show ?thesis by (rule creates_inv[OF retry_keeps[OF retry site_invD(4)[OF inv]] inv ok'])
  next
    case (create_result i op1 res why shown now pub)
    note op = operation_named[OF ok create_result(1)]
    have "creates o1" if "o1 \<in> set (site_operations s)" "o_id o1 = ResultOperationID res" for o1
      using op(3)[OF that(1)] that(2) create_result by simp
    then show ?thesis using create_result_keeps[OF create_result(5)] site_invD(4)[OF inv] creates_inv inv ok' by blast
  next
    case (provision_failed i op1 res c status now)
    note op = operation_named[OF ok provision_failed(1)]
    have "creates o1" if "o1 \<in> set (site_operations s)" "o_id o1 = ResultOperationID res" for o1
      using op(3)[OF that(1)] that(2) provision_failed by simp
    then show ?thesis
      using fail_create_calm[OF provision_failed(5)] fail_create_provisioning[OF provision_failed(5)] site_invD(4)[OF inv] creates_inv inv ok'
      by blast
  next
    case (worktree c r now) then show ?thesis using worktree_inv[OF worktree(1) inv ok'] by blast
  next
    case (set_remote p m now) then show ?thesis using set_remote_shrink shrink_inv inv ok' by blast
  qed
qed

text \<open>A database before any project or workspace is made, and before any operation is queued.\<close>

definition fresh_site :: "site \<Rightarrow> bool" where
  "fresh_site s \<longleftrightarrow> site_projects s = [] \<and> site_workspaces s = [] \<and> site_operations s = []"

lemma fresh_site_inv: "fresh_site s \<Longrightarrow> site_inv s"
  by (simp add: fresh_site_def site_inv_def site_ok_def workspaces_ok_def operations_ok_def busy_ok_def work_ok_def
      provisioning_ok_def no_stall_def worktrees_first_def)

interpretation site_system: invariant_system fresh_site site_step site_inv
  by unfold_locales (use fresh_site_inv site_step_inv in blast)+

end
