(* ===== verification/Project_Example.thy ===== *)
theory Project_Example
  imports Project_Safety
begin

text \<open>
  Runs of the transition system on small inputs, from an empty database: a blank project whose
  repository gets a linked worktree, the copy of its workspace, and the deletion of the project.
\<close>

section \<open>Rows\<close>

definition lab :: Server_row where
  "lab = \<lparr>s_id = ''s'', s_name = ''lab'', s_status = ''online'', s_agent_version = ''0.9.0'', s_gemini_version = [],
          s_last_seen_at = Some 0, s_revoked_at = None\<rparr>"

definition project_row :: "string \<Rightarrow> Project" where
  "project_row status = \<lparr>pj_id = ''p'', pj_name = ''n'', pj_remote_url = [], pj_normalized_remote = [],
     pj_default_branch = ''main'', pj_status = status, pj_provision_error = [], pj_pinned_at = None, pj_hidden_at = None,
     pj_updated_at = 0\<rparr>"

definition repository_row :: "string \<Rightarrow> string \<Rightarrow> string \<Rightarrow> Workspace" where
  "repository_row i path status = \<lparr>wk_id = i, wk_project_id = ''p'', wk_server_id = ''s'', wk_path = path,
     wk_display_name = ''n'', wk_management_mode = ''managed'', wk_status = status, wk_kind = ''primary'', wk_parent = None,
     wk_branch = ''main'', wk_commit_sha = [], wk_dirty = 0, wk_last_git_refresh_at = Some 0, wk_git_error = [],
     wk_last_scanned_at = 0\<rparr>"

definition worktree_row :: "string \<Rightarrow> string \<Rightarrow> Workspace" where
  "worktree_row i path = \<lparr>wk_id = i, wk_project_id = ''p'', wk_server_id = ''s'', wk_path = path, wk_display_name = ''b'',
     wk_management_mode = ''managed'', wk_status = ''ready'', wk_kind = ''worktree'', wk_parent = Some ''w'', wk_branch = ''b'',
     wk_commit_sha = ''c'', wk_dirty = 0, wk_last_git_refresh_at = Some 0, wk_git_error = [], wk_last_scanned_at = 0\<rparr>"

definition sample_site :: "Project list \<Rightarrow> Workspace list \<Rightarrow> Operation list \<Rightarrow> site" where
  "sample_site ps ws ops = \<lparr>site_servers = [lab], site_projects = ps, site_workspaces = ws, site_remotes = [],
     site_operations = ops, site_threads = [], site_sessions = [], site_targets = [], site_deployments = [], site_containers = []\<rparr>"

definition succeeded :: "string \<Rightarrow> json \<Rightarrow> OperationResult" where
  "succeeded i doc = \<lparr>ResultOperationID = i, ResultStatus = ''succeeded'', ResultMessage = [], ResultData = Some (Some doc)\<rparr>"

definition blank_command :: GitProjectCreateCommand where
  "blank_command = \<lparr>pc_project_id = ''p'', pc_workspace_id = ''w'', pc_name = ''n'', pc_destination = ''/r/n'',
     pc_initial_branch = ''main'', pc_initialize_readme = False, pc_remote_url = [], pc_require_empty_remote = False\<rparr>"

definition create_row :: Operation where
  "create_row = create_operation ''o'' ''s'' blank_command ''git-project-create:p'' ''queued'' 0"

definition made :: OperationResult where
  "made = succeeded ''o'' (JObj (str_entry ''path'' ''/r/n'' @ str_entry ''branch'' ''main'' @ str_entry ''commit_sha'' [] @
     [(''unborn'', JBool True)] @ str_entry ''remote_url'' []))"

definition created_row :: Operation where
  "created_row = finish ''succeeded'' [] (JsonText (the (the (ResultData made)))) 0 create_row"

section \<open>A repository with a linked worktree\<close>

definition site0 :: site where "site0 = sample_site [] [] []"
definition site1 :: site where "site1 = sample_site [project_row ''provisioning''] [] [create_row]"
definition site2 :: site where "site2 = sample_site [project_row ''ready''] [repository_row ''w'' ''/r/n'' ''ready''] [created_row]"
definition site3 :: site where
  "site3 = sample_site [project_row ''ready''] [repository_row ''w'' ''/r/n'' ''ready'', worktree_row ''v'' ''/r/n-b''] [created_row]"

definition linked :: "string \<Rightarrow> string \<Rightarrow> GitWorktreeCreateCommand" where
  "linked t path = \<lparr>wt_source_workspace_id = ''w'', wt_target_workspace_id = t, wt_project_id = ''p'',
     wt_source_path = ''/r/n'', wt_target_path = path, wt_branch = ''b'', wt_base_ref = []\<rparr>"

definition tree_made :: "string \<Rightarrow> GitWorktreeCreateResult" where
  "tree_made path = \<lparr>wr_path = path, wr_branch = ''b'', wr_commit_sha = ''c''\<rparr>"

lemma fresh0: "fresh_site site0"
  by (simp add: fresh_site_def site0_def sample_site_def)

lemma Inr_pair: "snd (projr x) = b \<Longrightarrow> \<not> isl x \<Longrightarrow> x = Inr (fst (projr x), b)"
  by (cases x) auto

lemma run1:
  "\<exists>bp. createBlankProject (\<lambda>_. None) ''s'' ''n'' ''/r/n'' ''main'' False no_remote ''queued'' (''p'', ''w'', ''o'') 0 site0 =
     Inr (bp, site1)"
  by (intro exI Inr_pair; code_simp)

lemma run2: "handle_create_result [] (\<lambda>_. []) create_row made 0 site1 = Inr (made, site2)" "site_operation ''o'' site1 = Inr create_row"
  by code_simp+

lemma run3: "CommitGitWorktree (linked ''v'' ''/r/n-b'') (tree_made ''/r/n-b'') 0 site2 = Inr site3"
  by code_simp

lemma reach1: "site_step\<^sup>*\<^sup>* site0 site1"
proof -
  obtain bp where "createBlankProject (\<lambda>_. None) ''s'' ''n'' ''/r/n'' ''main'' False no_remote ''queued'' (''p'', ''w'', ''o'') 0 site0 =
     Inr (bp, site1)" using run1 by blast
  then have "site_step site0 site1" by (rule site_step.create) simp_all
  then show ?thesis by blast
qed

lemma reach3: "site_step\<^sup>*\<^sup>* site0 site3"
proof -
  have "site_step site1 site2"
    by (rule site_step.create_result[OF run2(2) _ _ _ run2(1)])
      (simp_all add: create_row_def made_def succeeded_def queued_active)
  moreover have "list_all (\<lambda>o1. \<not> is_delete ''p'' o1) (site_operations site2)" by code_simp
  then have "site_step site2 site3"
    by (intro site_step.worktree[OF run3]) (auto simp: linked_def list_all_iff)
  ultimately show ?thesis using reach1 by (meson rtranclp.rtrancl_into_rtrancl)
qed

section \<open>The deletion of the project\<close>

definition delete_row :: "Workspace \<Rightarrow> string \<Rightarrow> string \<Rightarrow> Operation" where
  "delete_row w i status =
     (delete_operation ''p'' True 0 (deletion_workspace (0 - ServerOnlineGracePeriod) w lab) i)\<lparr>o_status := status\<rparr>"

definition repository where "repository = repository_row ''w'' ''/r/n'' ''ready''"
definition worktree where "worktree = worktree_row ''v'' ''/r/n-b''"
definition repository_delete where "repository_delete = delete_row repository ''a''"
definition worktree_delete where "worktree_delete = delete_row worktree ''b''"

definition site4 :: site where
  "site4 = sample_site [project_row ''deleting''] [repository, worktree]
     [created_row, repository_delete ''waiting'', worktree_delete ''queued'']"

definition removed :: "Workspace \<Rightarrow> json" where
  "removed w = JObj (str_entry ''project_id'' ''p'' @ str_entry ''workspace_id'' (wk_id w) @ str_entry ''path'' (wk_path w) @
     [(''removed'', JBool True)])"

definition worktree_gone where "worktree_gone = succeeded ''b'' (removed worktree)"

text \<open>The worktree is gone: the repository is next.\<close>

definition worktree_deleted where
  "worktree_deleted = (finish ''succeeded'' [] (JsonText (removed worktree)) 0 (worktree_delete ''queued''))\<lparr>o_workspace_id := None\<rparr>"

definition site5 :: site where
  "site5 = sample_site [project_row ''deleting''] [repository] [created_row, repository_delete ''queued'', worktree_deleted]"

lemma run4:
  "\<exists>ids b. QueueProjectManagedDeletion ''p'' (\<lambda>n. if n = 0 then ''a'' else ''b'') 0 site3 = Inr (ids, b, site4)"
proof -
  have "\<not> isl (QueueProjectManagedDeletion ''p'' (\<lambda>n. if n = 0 then ''a'' else ''b'') 0 site3)"
    "snd (snd (projr (QueueProjectManagedDeletion ''p'' (\<lambda>n. if n = 0 then ''a'' else ''b'') 0 site3))) = site4"
    by code_simp+
  then show ?thesis by (cases "QueueProjectManagedDeletion ''p'' (\<lambda>n. if n = 0 then ''a'' else ''b'') 0 site3") auto
qed

lemma run5: "CompleteProjectDeletion (worktree_delete ''queued'') worktree_gone 0 site4 = Inr site5"
  "site_operation ''b'' site4 = Inr (worktree_delete ''queued'')"
  by code_simp+

lemma site3_ids: "\<forall>w\<in>set (site_workspaces site3). wk_id w \<noteq> []"
  by (simp add: site3_def sample_site_def repository_row_def worktree_row_def)

lemma reach4: "site_step\<^sup>*\<^sup>* site0 site4"
proof -
  obtain ids b where "QueueProjectManagedDeletion ''p'' (\<lambda>n. if n = 0 then ''a'' else ''b'') 0 site3 = Inr (ids, b, site4)"
    using run4 by blast
  then have "site_step site3 site4" by (rule site_step.queue_deletion) (simp_all add: site3_ids)
  then show ?thesis using reach3 by (meson rtranclp.rtrancl_into_rtrancl)
qed

lemma active_delete_row: "active (delete_row w i ''queued'')"
  by (simp add: delete_row_def active_def active_statuses_def)

lemma reach5: "site_step\<^sup>*\<^sup>* site0 site5"
proof -
  have "site_step site4 site5"
    by (rule site_step.deletion_result[OF run5(2) _ run5(1)]) (simp add: worktree_delete_def active_delete_row)
  then show ?thesis using reach4 by (meson rtranclp.rtrancl_into_rtrancl)
qed

section \<open>A worktree that is made during the deletion\<close>

definition late_worktree where "late_worktree = worktree_row ''u'' ''/r/n-u''"

definition late_create :: "string \<Rightarrow> Operation" where
  "late_create status = (queued_operation ''c'' ''s'' \<lparr>ProjectID = ''p'', WorkspaceID = ''w'', ThreadID = []\<rparr> ''git.worktree.create''
     (JsonText JNull) True ''git-worktree:u'' 0)\<lparr>o_status := status\<rparr>"

definition late_created where "late_created = finish ''succeeded'' [] (JsonText JNull) 0 (late_create ''queued'')"

definition site6 :: site where
  "site6 = sample_site [project_row ''deleting''] [repository, worktree]
     [created_row, repository_delete ''waiting'', worktree_delete ''queued'', late_create ''queued'']"

definition site7 :: site where
  "site7 = sample_site [project_row ''deleting''] [repository, worktree, late_worktree]
     [created_row, repository_delete ''waiting'', worktree_delete ''queued'', late_create ''queued'']"

definition site8 :: site where
  "site8 = sample_site [project_row ''deleting''] [repository, worktree, late_worktree]
     [created_row, repository_delete ''waiting'', worktree_delete ''queued'', late_created]"

definition site9 :: site where
  "site9 = sample_site [project_row ''deleting''] [repository, late_worktree]
     [created_row, repository_delete ''queued'', worktree_deleted, late_created]"

lemma run6:
  "\<exists>d'. queueOperationPayload ''s'' ''git.worktree.create'' (JsonText JNull) ''git-worktree:u''
      \<lparr>ProjectID = ''p'', WorkspaceID = ''w'', ThreadID = []\<rparr> True ''c'' 0 (queue_view site4) = Inr (''c'', d') \<and>
     site4\<lparr>site_operations := operations d'\<rparr> = site6"
proof -
  let ?r = "queueOperationPayload ''s'' ''git.worktree.create'' (JsonText JNull) ''git-worktree:u''
      \<lparr>ProjectID = ''p'', WorkspaceID = ''w'', ThreadID = []\<rparr> True ''c'' 0 (queue_view site4)"
  have "\<not> isl ?r" by code_simp
  moreover have "fst (projr ?r) = ''c''" by code_simp
  moreover have "site4\<lparr>site_operations := operations (snd (projr ?r))\<rparr> = site6" by code_simp
  ultimately show ?thesis by (cases ?r) auto
qed

lemma run7: "CommitGitWorktree (linked ''u'' ''/r/n-u'') (tree_made ''/r/n-u'') 0 site6 = Inr site7"
  by code_simp

lemma run8:
  "\<exists>d'. CompleteOperationIfActive (succeeded ''c'' JNull) 0 (queue_view site7) = Inr (True, d') \<and>
     site7\<lparr>site_operations := operations d'\<rparr> = site8"
proof -
  let ?r = "CompleteOperationIfActive (succeeded ''c'' JNull) 0 (queue_view site7)"
  have "\<not> isl ?r" by code_simp
  moreover have "fst (projr ?r) = True" by code_simp
  moreover have "site7\<lparr>site_operations := operations (snd (projr ?r))\<rparr> = site8" by code_simp
  ultimately show ?thesis by (cases ?r) auto
qed

lemma run9: "CompleteProjectDeletion (worktree_delete ''queued'') worktree_gone 0 site8 = Inr site9"
  "site_operation ''b'' site8 = Inr (worktree_delete ''queued'')"
  by code_simp+

end
