(* ===== verification/Project_Claims.thy ===== *)
theory Project_Claims
  imports Project_Example
begin

text \<open>
  What the life of projects and workspaces promises in every state that the transitions reach, with
  runs of \<open>Project_Example\<close> as the examples.
\<close>

lemma reachable_inv: "fresh_site s0 \<Longrightarrow> site_step\<^sup>*\<^sup>* s0 s \<Longrightarrow> site_inv s"
  by (rule site_system.inv_reachable)

section \<open>Busy workspaces\<close>

text \<open>The repository is being copied.\<close>

definition copy_command :: GitWorkspaceLifecycleCommand where
  "copy_command = \<lparr>lc_workspace_id = ''w'', lc_target_workspace_id = ''t'', lc_project_id = ''p'', lc_action = ''copy'',
     lc_source_path = ''/r/n'', lc_target_path = ''/r/m'', lc_workspace_kind = ''primary'', lc_force = False\<rparr>"

definition copy_operation :: Operation where
  "copy_operation = queued_operation ''q'' ''s'' \<lparr>ProjectID = ''p'', WorkspaceID = ''w'', ThreadID = []\<rparr> ''git.workspace.lifecycle''
     (JsonText (encode_lifecycle copy_command)) True ''workspace-lifecycle:w:q'' 0"

definition copying :: Workspace where "copying = repository_row ''w'' ''/r/n'' ''copying''"

definition busy_site :: site where
  "busy_site = sample_site [project_row ''ready''] [copying, worktree] [created_row, copy_operation]"

lemma run_copy: "QueueWorkspaceLifecycle repository copy_command ''q'' 0 site3 = Inr (''q'', busy_site)"
  by code_simp

lemma reach_busy: "site_step\<^sup>*\<^sup>* site0 busy_site"
proof -
  have "site_step site3 busy_site"
    by (rule site_step.queue_lifecycle[OF run_copy]) (simp add: repository_def repository_row_def)
  then show ?thesis using reach3 by (meson rtranclp.rtrancl_into_rtrancl)
qed



section \<open>Deletions\<close>


lemma waiting_row: "o_kind (delete_row w i st) = ''git.project.delete''" "o_project_id (delete_row w i st) = Some ''p''"
  "o_status (delete_row w i st) = st"
  by (simp_all add: delete_row_def delete_operation_def queued_operation_def ProjectDeleteOperationKind_def nullif_empty_def)




definition unfinished :: "string \<Rightarrow> site \<Rightarrow> nat" where
  "unfinished p s = count_operations (\<lambda>o1. is_delete p o1 \<and> (active o1 \<or> o_status o1 = ''waiting'')) s"

lemma filter_map_le: "(\<And>x. x \<in> set xs \<Longrightarrow> P (g x) \<Longrightarrow> P x) \<Longrightarrow> length (filter P (map g xs)) \<le> length (filter P xs)"
  by (induction xs) (auto simp: le_SucI)

lemma filter_map_less:
  "(\<And>x. x \<in> set xs \<Longrightarrow> P (g x) \<Longrightarrow> P x) \<Longrightarrow> y \<in> set xs \<Longrightarrow> P y \<Longrightarrow> \<not> P (g y) \<Longrightarrow>
     length (filter P (map g xs)) < length (filter P xs)"
proof (induction xs)
  case (Cons x xs)
  have le: "length (filter P (map g xs)) \<le> length (filter P xs)" by (rule filter_map_le) (use Cons.prems(1) in auto)
  show ?case
  proof (cases "y = x")
    case True
    then show ?thesis using Cons.prems le by simp
  next
    case False
    then have "length (filter P (map g xs)) < length (filter P xs)" using Cons by auto
    then show ?thesis using Cons.prems(1)[of x] by auto
  qed
qed simp

abbreviation unsettled :: "string \<Rightarrow> Operation \<Rightarrow> bool" where
  "unsettled p o1 \<equiv> is_delete p o1 \<and> (active o1 \<or> o_status o1 = ''waiting'')"

lemma unfinished_map:
  assumes "site_operations s' = map g (site_operations s)" "\<And>o1. o1 \<in> set (site_operations s) \<Longrightarrow> unsettled p (g o1) \<Longrightarrow> unsettled p o1"
  shows "unfinished p s' \<le> unfinished p s"
  unfolding unfinished_def count_operations_def assms(1) by (rule filter_map_le) (rule assms(2))

lemma conclude_unfinished: "conclude_deletion p msg now s = Inr s' \<Longrightarrow> unfinished p s' \<le> unfinished p s"
proof (erule conclude_cases)
  fix e t
  assume u: "update_projects (\<lambda>q. pj_id q = p) (\<lambda>q. q\<lparr>pj_status := ''deletion_failed'', pj_provision_error := e, pj_updated_at := now\<rparr>) s = Inr t"
    and c: "change_operations (\<lambda>o1. is_delete p o1 \<and> o_status o1 = ''waiting'')
          (\<lambda>o1. o1\<lparr>o_status := ''canceled'', o_result := Some ''blocked by an earlier project deletion failure'', o_completed_at := Some now\<rparr>) t = Inr s'"
  show "unfinished p s' \<le> unfinished p s"
    by (rule unfinished_map[OF change_operations_rest(4)[OF c, unfolded update_projects_rest(2)[OF u]]])
      (auto simp: active_def active_statuses_def is_delete_def split: if_splits)
next
  assume c: "change_operations (\<lambda>o1. is_delete p o1 \<and> o_status o1 = ''waiting'') (\<lambda>o1. o1\<lparr>o_status := ''queued''\<rparr>) s = Inr s'"
  show "unfinished p s' \<le> unfinished p s"
    by (rule unfinished_map[OF change_operations_rest(4)[OF c]]) (auto split: if_splits)
next
  assume "s' = snd (delete_projects p s)"
  then have "unfinished p s' = 0"
    unfolding unfinished_def count_operations_none by (auto simp: delete_projects_def Let_def is_delete_def set_null_simps)
  then show "unfinished p s' \<le> unfinished p s" by simp
qed (simp_all add: unfinished_def count_operations_def update_projects_rest)



section \<open>Projects in provision\<close>

text \<open>
  A project that is being provisioned has an operation that makes it, queued or at the agent or
  still prepared with the provider of its remote: no project stays in provision by itself.
\<close>

theorem provisioning_has_operation:
  assumes "fresh_site s0" "site_step\<^sup>*\<^sup>* s0 s" "p \<in> set (site_projects s)" "pj_status p = ''provisioning''"
  shows "\<exists>o1\<in>set (site_operations s). o_kind o1 = ''git.project.create'' \<and> o_project_id o1 = Some (pj_id p) \<and>
    (active o1 \<or> o_status o1 = ''preparing'')"
  using site_invD(4)[OF reachable_inv[OF assms(1,2)]] assms(3,4)
  unfolding provisioning_ok_def provisions_def is_create_def gitProjectCreateKind_def by blast

theorem provisioning_has_operation_witness:
  "\<exists>o1\<in>set (site_operations site1). o_kind o1 = ''git.project.create'' \<and>
    o_project_id o1 = Some (pj_id (project_row ''provisioning'')) \<and> (active o1 \<or> o_status o1 = ''preparing'')"
  by (rule provisioning_has_operation[OF fresh0 reach1]) (simp_all add: site1_def sample_site_def project_row_def)

section \<open>What escapes the deletion\<close>

text \<open>
  C38: Nothing keeps a linked worktree from being made while the deletion of its project is under way
  and the operation of its repository waits: the request is queued and the new worktree recorded,
  and when the last of the worktrees that the deletion knows is gone, the repository is handed out
  for deletion with the new worktree still linked to it.
\<close>

theorem worktree_during_deletion:
  "\<exists>s s1 s2 s3 o1 w v.
     site_step\<^sup>*\<^sup>* site0 s \<and> (\<exists>o1\<in>set (site_operations s). waits ''p'' o1) \<and>
     CommitGitWorktree (linked ''u'' ''/r/n-u'') (tree_made ''/r/n-u'') 0 s = Inr s1 \<and>
     site_step s1 s2 \<and> site_step s2 s3 \<and>
     o1 \<in> set (site_operations s3) \<and> is_delete ''p'' o1 \<and> active o1 \<and>
     w \<in> set (site_workspaces s3) \<and> wk_kind w = ''primary'' \<and> o_workspace_id o1 = Some (wk_id w) \<and>
     v \<in> set (site_workspaces s3) \<and> managed_worktree ''p'' v \<and> wk_parent v = Some (wk_id w)"
proof -
  obtain d6 where d6: "queueOperationPayload ''s'' ''git.worktree.create'' (JsonText JNull) ''git-worktree:u''
      \<lparr>ProjectID = ''p'', WorkspaceID = ''w'', ThreadID = []\<rparr> True ''c'' 0 (queue_view site4) = Inr (''c'', d6)"
    "site4\<lparr>site_operations := operations d6\<rparr> = site6" using run6 by blast
  have "site_step site4 (site4\<lparr>site_operations := operations d6\<rparr>)"
    by (rule site_step.queue_other[OF d6(1)])
      (simp add: own_kinds_def gitProjectCreateKind_def ProjectDeleteOperationKind_def)
  then have s6: "site_step\<^sup>*\<^sup>* site0 site6" using reach4 d6(2) by (metis rtranclp.rtrancl_into_rtrancl)
  obtain d8 where d8: "CompleteOperationIfActive (succeeded ''c'' JNull) 0 (queue_view site7) = Inr (True, d8)"
    "site7\<lparr>site_operations := operations d8\<rparr> = site8" using run8 by blast
  have "list_all (\<lambda>o1. o_id o1 \<noteq> ''c'' \<or> \<not> own o1) (site_operations site7)" by code_simp
  then have "site_step site7 (site7\<lparr>site_operations := operations d8\<rparr>)"
    by (intro site_step.complete_other[OF d8(1)]) (auto simp: list_all_iff succeeded_def)
  then have s8: "site_step site7 site8" by (simp only: d8(2))
  have s9: "site_step site8 site9"
    by (rule site_step.deletion_result[OF run9(2) _ run9(1)]) (simp add: worktree_delete_def active_delete_row)
  have "list_ex (waits ''p'') (site_operations site6)" by code_simp
  then have w6: "\<exists>o1\<in>set (site_operations site6). waits ''p'' o1" by (auto simp: list_ex_iff)
  have in9: "repository_delete ''queued'' \<in> set (site_operations site9)" "repository \<in> set (site_workspaces site9)"
    "late_worktree \<in> set (site_workspaces site9)" by (simp_all add: site9_def sample_site_def)
  have "is_delete ''p'' (repository_delete ''queued'')" "active (repository_delete ''queued'')"
    "o_workspace_id (repository_delete ''queued'') = Some (wk_id repository)"
    "wk_kind repository = ''primary''" "managed_worktree ''p'' late_worktree" "wk_parent late_worktree = Some (wk_id repository)"
    by code_simp+
  then show ?thesis using s6 w6 run7 s8 s9 in9 by blast
qed

text \<open>
  C39: A record may be removed while the operation that deletes its workspace waits, as a waiting
  operation does not count as active: the operation then has no workspace, and no result for it is
  ever accepted, so that the deletion of the project cannot end.
\<close>

theorem removed_record_strands_deletion:
  assumes "RemoveWorkspaceRecord i s = Inr s'" "site_ok s" "o1 \<in> set (site_operations s)"
    "waits p o1" "o_workspace_id o1 = Some i"
  shows "\<exists>o2\<in>set (site_operations s'). o_id o2 = o_id o1 \<and> waits p o2 \<and> o_workspace_id o2 = None \<and>
    (\<forall>st res now t. CompleteProjectDeletion (o2\<lparr>o_status := st\<rparr>) res now t = Inl (Err ''invalid project deletion operation''))"
proof -
  let ?sel = "\<lambda>w. wk_id w = i \<and> removable i s"
  obtain n where "delete_workspaces ?sel s = (n, s')" "n = 1"
    using assms(1) by (auto simp: RemoveWorkspaceRecord_def try_then_Inr_iff split: if_splits prod.splits)
  then have s': "s' = snd (delete_workspaces ?sel s)" and "filter ?sel (site_workspaces s) \<noteq> []"
    by (auto simp: delete_workspaces_def Let_def)
  then have "i \<in> gone_ids ?sel s" by (auto simp: gone_ids_def filter_empty_conv)
  let ?o = "cut_operation ?sel s o1"
  have none: "o_workspace_id ?o = None" using \<open>i \<in> _\<close> assms(5) by (simp add: cut_operation_def set_null_def)
  have "?o \<in> set (site_operations s')" using assms(3) unfolding s' delete_workspaces_ops by simp
  moreover have "o_id ?o = o_id o1" "waits p ?o" using assms(4) by (simp_all add: cut_operation_def waits_def is_delete_def)
  moreover have "CompleteProjectDeletion (?o\<lparr>o_status := st\<rparr>) res now t = Inl (Err ''invalid project deletion operation'')" for st res now t
    using none by (simp add: CompleteProjectDeletion_def or_empty_def)
  ultimately show ?thesis using none by blast
qed

text \<open>A second repository of the project, without worktrees, waits for those of the first.\<close>

definition second where "second = repository_row ''x'' ''/r/x'' ''ready''"

definition two_repositories :: site where
  "two_repositories = sample_site [project_row ''deleting''] [repository, worktree, second]
     [created_row, repository_delete ''waiting'', worktree_delete ''queued'', delete_row second ''d'' ''waiting'']"

theorem removed_record_strands_deletion_witness:
  "\<exists>o2\<in>set (site_operations (projr (RemoveWorkspaceRecord ''x'' two_repositories))).
    o_id o2 = ''d'' \<and> waits ''p'' o2 \<and> o_workspace_id o2 = None \<and>
    (\<forall>st res now t. CompleteProjectDeletion (o2\<lparr>o_status := st\<rparr>) res now t = Inl (Err ''invalid project deletion operation''))"
proof -
  have "\<not> isl (RemoveWorkspaceRecord ''x'' two_repositories)" by code_simp
  then have r: "RemoveWorkspaceRecord ''x'' two_repositories = Inr (projr (RemoveWorkspaceRecord ''x'' two_repositories))"
    by (cases "RemoveWorkspaceRecord ''x'' two_repositories") simp_all
  have "site_ok two_repositories" by code_simp
  moreover have "delete_row second ''d'' ''waiting'' \<in> set (site_operations two_repositories)"
    by (simp add: two_repositories_def sample_site_def)
  moreover have "waits ''p'' (delete_row second ''d'' ''waiting'')" "o_workspace_id (delete_row second ''d'' ''waiting'') = Some ''x''"
    "o_id (delete_row second ''d'' ''waiting'') = ''d''" by code_simp+
  ultimately show ?thesis using removed_record_strands_deletion[OF r] by metis
qed

section \<open>Results free the workspace\<close>

lemma operations_ok_settle:
  assumes ok: "operations_ok d ops" and g: "\<And>x. o_id (g x) = o_id x \<and> o_idempotency_key (g x) = o_idempotency_key x"
    and refs: "\<And>x. operation_refs d x \<Longrightarrow> operation_refs d (g x)"
    and writes: "\<And>x. active_write (g x) \<Longrightarrow> active_write x \<and> o_workspace_id (g x) = o_workspace_id x"
    and importing: "\<And>x. waiting_import (g x) \<Longrightarrow> waiting_import x \<and> (o_server_id (g x), o_project_id (g x)) = (o_server_id x, o_project_id x)"
  shows "operations_ok d (map g ops)"
proof -
  have "distinct (map o_workspace_id (filter active_write (map g ops)))"
    by (rule distinct_weaken[where P = active_write and k = o_workspace_id]) (use ok writes in \<open>auto simp: operations_ok_def\<close>)
  moreover have "distinct (map (\<lambda>o1. (o_server_id o1, o_project_id o1)) (filter waiting_import (map g ops)))"
    by (rule distinct_weaken[where P = waiting_import and k = "\<lambda>o1. (o_server_id o1, o_project_id o1)"])
      (use ok importing in \<open>auto simp: operations_ok_def\<close>)
  moreover have "map o_id (map g ops) = map o_id ops" "map o_idempotency_key (map g ops) = map o_idempotency_key ops"
    using g by simp_all
  moreover have "list_all (operation_refs d) (map g ops)" using ok refs by (auto simp: operations_ok_def list_all_iff)
  ultimately show ?thesis using ok by (simp only: operations_ok_def simp_thms)
qed

lemma settle_succeeds:
  assumes "site_ok s" "st \<notin> set active_statuses"
  shows "\<exists>s'. settle_operation i st msg data now s = Inr s'"
proof -
  let ?f = "\<lambda>o1. if o_id o1 = i then finish st msg data now o1 else o1"
  have "operations_ok (queue_view s) (map ?f (site_operations s))"
    by (rule operations_ok_settle[OF site_okD(5)[OF assms(1)]])
      (use assms(2) in \<open>simp_all add: active_write_def active_def waiting_import_def active_statuses_def finish_def refs_parts
         split: if_splits\<close>)
  then show ?thesis by (simp add: settle_operation_def change_operations_Inr)
qed

lemma mark_succeeds:
  assumes "site_ok s" shows "\<exists>s'. mark_workspace i st msg s = Inr s'"
proof -
  let ?f = "\<lambda>w. if wk_id w = i then w\<lparr>wk_status := st, wk_git_error := msg\<rparr> else w" and ?ws = "site_workspaces s"
  have same: "map wk_id (map ?f ?ws) = map wk_id ?ws"
    "map (\<lambda>w. (wk_server_id w, wk_path w)) (map ?f ?ws) = map (\<lambda>w. (wk_server_id w, wk_path w)) ?ws" by simp_all
  have "list_all (\<lambda>w. wk_project_id w \<in> set (map pj_id (site_projects s)) \<and> wk_server_id w \<in> set (map s_id (site_servers s)) \<and>
                   refers (wk_parent w) (map wk_id (map ?f ?ws))) (map ?f ?ws)"
    unfolding same using site_okD(4)[OF assms] by (auto simp: workspaces_ok_def list_all_iff)
  then have "workspaces_ok s (map ?f ?ws)"
    using site_okD(4)[OF assms] unfolding workspaces_ok_def same by blast
  then show ?thesis by (simp add: mark_workspace_def update_workspaces_def store_workspaces_def)
qed

lemma fail_succeeds:
  assumes "site_ok s" shows "\<exists>s'. fail_workspace op1 i r st now s = Inr s'"
proof -
  obtain s1 where s1: "mark_workspace i (if st \<noteq> ''partial'' then ''ready'' else st) (ResultMessage r) s = Inr s1"
    using mark_succeeds[OF assms] by blast
  have "site_ok s1" by (rule mark_workspace_ok[OF s1 assms])
  then show ?thesis using s1 settle_succeeds[of s1 "''failed''"] by (simp add: fail_workspace_def active_statuses_def)
qed

lemma lifecycle_result_handled:
  assumes "site_ok s" "payload_doc op1 decode_lifecycle = Inr c"
  shows "\<exists>pub s'. handle_lifecycle_result why shown op1 res now s = Inr (pub, s')"
proof -
  have failed: "\<exists>pub s'. try_then (FailWorkspaceLifecycle op1 c r st now s) (\<lambda>s'. Inr (r, s')) = Inr (pub, s')" for r st
    using fail_succeeds[OF assms(1), of op1 "lc_workspace_id c" r st now] by (auto simp: FailWorkspaceLifecycle_def)
  show ?thesis
    using failed unfolding handle_lifecycle_result_def assms(2) Let_def
    by (simp split: option.split sum.split)
qed

text \<open>
  C7: Whatever the agent reports of a move, copy or deletion of a workspace, its result is recorded:
  the handler succeeds, the operation is settled, and the workspace is no longer busy.
\<close>

theorem lifecycle_result_frees:
  assumes "fresh_site s0" "site_step\<^sup>*\<^sup>* s0 s" "site_operation i s = Inr op1"
    "o_kind op1 = ''git.workspace.lifecycle''" "o_workspace_id op1 = Some w" "ResultOperationID res = i"
  shows "\<exists>pub s'. handle_lifecycle_result why shown op1 res now s = Inr (pub, s') \<and>
    (\<forall>v\<in>set (site_workspaces s'). wk_id v = w \<longrightarrow> wk_status v \<notin> {''moving'', ''copying'', ''deleting''}) \<and>
    (\<forall>o1\<in>set (site_operations s'). o_id o1 = i \<longrightarrow> \<not> active o1)"
proof -
  note inv = site_invD[OF reachable_inv[OF assms(1,2)]] and op = operation_named[OF inv(1) assms(3)]
  have "work_row op1" using inv(3) op(1) by (simp add: work_ok_def)
  then obtain c where c: "payload_doc op1 decode_lifecycle = Inr c" "lc_workspace_id c = w"
    using assms(4,5) by (auto simp: work_row_def)
  obtain pub s' where run: "handle_lifecycle_result why shown op1 res now s = Inr (pub, s')"
    using lifecycle_result_handled[OF inv(1) c(1)] by blast
  obtain c' where "payload_doc op1 decode_lifecycle = Inr c'" "result_effect op1 (lc_workspace_id c') s s'"
    using lifecycle_result_effect[OF run inv(1)] assms(6) op(2) by metis
  then have "result_effect op1 w s s'" using c by simp
  then obtain s1 st msg data now' where e: "freed w s s1" "st \<notin> set active_statuses"
    "settle_operation (o_id op1) st msg data now' s1 = Inr s'"
    unfolding result_effect_def by blast
  note rest = change_operations_rest[OF e(3)[unfolded settle_operation_def]]
  have "\<forall>v\<in>set (site_workspaces s'). wk_id v = w \<longrightarrow> wk_status v \<notin> {''moving'', ''copying'', ''deleting''}"
    using e(1) unfolding rest(1) freed_def busy_def by blast
  moreover have "\<forall>o1\<in>set (site_operations s'). o_id o1 = i \<longrightarrow> \<not> active o1"
    using e(2) op(2) unfolding rest(4) by (auto simp: active_def)
  ultimately show ?thesis using run by blast
qed

theorem lifecycle_result_frees_witness:
  "\<exists>pub s'. handle_lifecycle_result [] (\<lambda>_. []) copy_operation (succeeded ''q'' JNull) 0 busy_site = Inr (pub, s') \<and>
    (\<forall>v\<in>set (site_workspaces s'). wk_id v = ''w'' \<longrightarrow> wk_status v \<notin> {''moving'', ''copying'', ''deleting''}) \<and>
    (\<forall>o1\<in>set (site_operations s'). o_id o1 = ''q'' \<longrightarrow> \<not> active o1)"
proof -
  have "site_operation ''q'' busy_site = Inr copy_operation" "o_kind copy_operation = ''git.workspace.lifecycle''"
    "o_workspace_id copy_operation = Some ''w''" by code_simp+
  then show ?thesis by (intro lifecycle_result_frees[OF fresh0 reach_busy]) (simp_all add: succeeded_def)
qed

section \<open>What a plan allows\<close>

lemma append_blocker_set:
  "set (appendDeletionBlocker bs code message n modes) = set bs \<union> (if n = 0 then {} else {\<lparr>bl_code = code, bl_message = message, bl_count = n, bl_modes = modes\<rparr>})"
  by (simp add: appendDeletionBlocker_def)

lemma plan_blockers_none: "plan_blockers plan = [] \<longleftrightarrow>
    dl_active_agent_operations plan = 0 \<and> dl_active_codex_tasks plan = 0 \<and> dl_active_deployments plan = 0 \<and>
    dl_dirty_managed_workspaces plan = 0 \<and> dl_offline_managed_servers plan = 0"
  unfolding plan_blockers_def Let_def set_empty[symmetric] append_blocker_set by (simp split: if_split)

lemma plan_blockers_metadata: "(\<forall>b\<in>set (plan_blockers plan). ''metadata-only'' \<notin> set (bl_modes b)) \<longleftrightarrow>
    dl_active_agent_operations plan = 0 \<and> dl_active_codex_tasks plan = 0 \<and> dl_active_deployments plan = 0"
  unfolding plan_blockers_def Let_def append_blocker_set by (simp split: if_split)

text \<open>
  The two permissions of a deletion plan say what its list of blockers says: the records may be
  deleted exactly if no blocker names that mode, the managed files exactly if there is no blocker.
\<close>

theorem plan_allows_what_nothing_blocks:
  assumes "projectDeletionPlan p now s = Inr plan"
  shows "(dl_can_delete_metadata plan \<longleftrightarrow> (\<forall>b\<in>set (dl_blockers plan). ''metadata-only'' \<notin> set (bl_modes b))) \<and>
    (dl_can_delete_managed_files plan \<longleftrightarrow> dl_blockers plan = [])"
proof -
  obtain plan2 where plan2: "dl_blockers plan = plan_blockers plan2"
    "dl_can_delete_metadata plan = (dl_active_agent_operations plan2 = 0 \<and> dl_active_codex_tasks plan2 = 0 \<and>
       dl_active_deployments plan2 = 0)"
    "dl_can_delete_managed_files plan = (dl_can_delete_metadata plan \<and> dl_dirty_managed_workspaces plan2 = 0 \<and>
       dl_offline_managed_servers plan2 = 0)"
    using assms unfolding projectDeletionPlan_def try_then_Inr_iff Let_def by auto
  show ?thesis unfolding plan2 plan_blockers_none plan_blockers_metadata by blast
qed

theorem plan_allows_what_nothing_blocks_witness:
  "\<exists>plan. projectDeletionPlan ''p'' 0 site3 = Inr plan \<and> dl_can_delete_managed_files plan \<and> dl_blockers plan = []"
proof -
  have r: "\<not> isl (projectDeletionPlan ''p'' 0 site3)" "dl_can_delete_managed_files (projr (projectDeletionPlan ''p'' 0 site3))"
    by code_simp+
  then have "projectDeletionPlan ''p'' 0 site3 = Inr (projr (projectDeletionPlan ''p'' 0 site3))"
    by (cases "projectDeletionPlan ''p'' 0 site3") simp_all
  from this plan_allows_what_nothing_blocks[OF this] r(2) show ?thesis by blast
qed

lemma distinct_filter_one: "distinct (map f xs) \<Longrightarrow> x \<in> set xs \<Longrightarrow> filter (\<lambda>y. f y = f x) xs = [x]"
proof (induction xs)
  case (Cons a xs)
  have rest: "filter (\<lambda>y. f y = f a) xs = []" using Cons.prems(1) by (auto simp: filter_empty_conv) (metis imageI)
  show ?case
  proof (cases "x = a")
    case False
    then have "f a \<noteq> f x" using Cons.prems by auto
    then show ?thesis using Cons False by simp
  qed (use rest in simp)
qed simp

lemma remove_record_blockers:
  assumes "find_site_workspace i s = Inr w"
  shows "\<exists>plan. plan_workspace_deletion i force s = Inr plan \<and> (wp_can_remove_record plan \<longleftrightarrow> removable i s)"
  unfolding plan_workspace_deletion_def assms
  by (simp add: Let_def blocker_def removable_def active_on_def count_operations_def sessions_on_def children_of_def
      list_ex_iff filter_empty_conv)

text \<open>
  The removal of a workspace record succeeds exactly when the workspace exists and nothing depends
  on it, no active operation, no session and no linked worktree: the plan and the statement that
  deletes the row check the same conditions.
\<close>

theorem remove_record_exactly_when_free:
  assumes "site_ok s"
  shows "(\<exists>s'. RemoveWorkspaceRecord i s = Inr s') \<longleftrightarrow>
    (\<exists>w\<in>set (site_workspaces s). wk_id w = i) \<and>
    \<not> (\<exists>o1\<in>set (site_operations s). o_workspace_id o1 = Some i \<and> active o1) \<and>
    \<not> (\<exists>t\<in>set (site_threads s). t_workspace_id t = i) \<and> \<not> (\<exists>t\<in>set (site_sessions s). sr_workspace_id t = i) \<and>
    \<not> (\<exists>w\<in>set (site_workspaces s). wk_parent w = Some i)"
proof -
  have free: "removable i s \<longleftrightarrow> \<not> (\<exists>o1\<in>set (site_operations s). o_workspace_id o1 = Some i \<and> active o1) \<and>
    \<not> (\<exists>t\<in>set (site_threads s). t_workspace_id t = i) \<and> \<not> (\<exists>t\<in>set (site_sessions s). sr_workspace_id t = i) \<and>
    \<not> (\<exists>w\<in>set (site_workspaces s). wk_parent w = Some i)" by (simp add: removable_def list_ex_iff)
  show ?thesis
  proof (cases "find_site_workspace i s")
    case (Inl e)
    have "\<not> (\<exists>w\<in>set (site_workspaces s). wk_id w = i)"
      using Inl by (auto simp: find_site_workspace_def find_row_def find_None_iff split: option.splits)
    then show ?thesis using Inl by (simp add: RemoveWorkspaceRecord_def plan_workspace_deletion_def)
  next
    case (Inr w)
    then have w: "w \<in> set (site_workspaces s)" "wk_id w = i"
      using find_row_Inr by (fastforce simp: find_site_workspace_def)+
    obtain plan where plan: "plan_workspace_deletion i False s = Inr plan" "wp_can_remove_record plan \<longleftrightarrow> removable i s"
      using remove_record_blockers[OF Inr] by blast
    have "filter (\<lambda>v. wk_id v = i) (site_workspaces s) = [w]"
      using distinct_filter_one[OF site_okD(1)[OF assms] w(1)] w(2) by simp
    then show ?thesis
      using plan w free by (auto simp: RemoveWorkspaceRecord_def delete_workspaces_def Let_def)
  qed
qed

theorem remove_record_exactly_when_free_witness:
  "(\<exists>s'. RemoveWorkspaceRecord ''v'' site3 = Inr s') \<and> \<not> (\<exists>s'. RemoveWorkspaceRecord ''w'' site3 = Inr s')"
proof -
  have ok: "site_ok site3" by code_simp
  have "site_operations site3 = [created_row]" "site_threads site3 = []" "site_sessions site3 = []"
    "site_workspaces site3 = [repository, worktree]" by (simp_all add: site3_def sample_site_def repository_def worktree_def)
  moreover have "wk_id worktree = ''v''" "wk_parent worktree = Some ''w''" "wk_parent repository = None"
    "o_workspace_id created_row = None" by code_simp+
  ultimately show ?thesis unfolding remove_record_exactly_when_free[OF ok] by simp
qed

end
