(* ===== verification/Spec2Isabelle.thy ===== *)
theory Spec2Isabelle
  imports Build_Version Cron_Schedule Realtime_Hub Operation_Metrics Codex_Threads Agent_Operations Scheduler_Runs Approvals Gateway_Alerts Git_Copy Agent_Projects Project_Claims
begin

text \<open>
  Wio: a control plane and its agents, as a development in Isabelle/HOL.

  \<^bold>\<open>The program.\<close> A control plane (\<open>src/cmd/controlplane\<close>) keeps everything it knows in one database
  (\<open>src/internal/store\<close>), serves a browser over HTTP (\<open>src/internal/httpapi\<close>) and talks to one agent per
  server over a stream (\<open>src/internal/agentgateway\<close>, messages in \<open>src/internal/protocol\<close>). What a user
  wants done on a server is queued as a row of the table \<open>operations\<close>; the gateway delivers it, the
  agent (\<open>src/internal/agent\<close>) runs it once, keeps a receipt on disk and sends the result until it is
  acknowledged. The operations run turns of coding assistants (Codex, Gemini, Claude), read and write
  files (\<open>src/internal/scanner\<close>) and run git (\<open>src/internal/gitrepository\<close>, \<open>src/internal/gitworktree\<close>).
  Events of the sessions are numbered in the database and fanned out to the connected browsers
  (\<open>src/internal/realtime\<close>); scheduled tasks start turns at the times of a cron expression
  (\<open>src/internal/schedule\<close>, \<open>src/internal/scheduler\<close>).

  \<^bold>\<open>How it is modelled.\<close> Everything is a definition that computes. A Go function that may fail is a
  function into a sum, \<open>Inl\<close> the error; a transaction maps a database to an error or a new database, so
  an error leaves the database as it was; a handler that is a sequence of transactions returns the state
  it reached beside its outcome, so what was done before an error stays. What runs concurrently is an
  inductive step relation, one step per critical section or transaction, in any order. Clocks, random
  identifiers, git and the tables of Unicode and of time zones are arguments. A 64-bit integer is an
  \<open>int\<close> in \<open>int64_range\<close>; where the code can leave the range the sum is wrapped by \<open>wrap64\<close>.
\<close>

text \<open>
  \<^bold>\<open>The theories.\<close> Shared ones first.

  \<^item> \<open>Wio_Prelude\<close>: results and their sequencing, integers of Go, facts on lists and maps, and the locale
    \<open>invariant_system\<close>: a step relation with its invariant, from which each system below gets that the
    invariant holds in every reachable state.
  \<^item> \<open>Go_Strings\<close>, \<open>Go_Time\<close>, \<open>Go_Path\<close>, \<open>Json_Doc\<close>: what the program uses of the packages \<open>strings\<close>,
    \<open>strconv\<close>, \<open>time\<close>, \<open>path/filepath\<close> and \<open>encoding/json\<close>; \<open>Json_Doc\<close> also has the redaction of
    secrets of \<open>internal/security\<close>, proved complete at any depth.
  \<^item> \<open>Wire_Protocol\<close>: the messages between the control plane and an agent.

  Versions and time.

  \<^item> \<open>Build_Version\<close>: \<open>internal/buildinfo/version.go\<close>, \<open>internal/codexcli/version.go\<close>. Parsing, ordering and
    every feature gate; both update checks are interpretations of one locale.
  \<^item> \<open>Cron_Schedule\<close>: \<open>internal/schedule\<close>. The next run is the first matching minute after the given one.
  \<^item> \<open>Scheduler\<close>, \<open>Scheduler_Runs\<close>, \<open>Task_Store\<close>: \<open>internal/scheduler\<close> and \<open>internal/store/scheduled_tasks.go\<close>.
    A due time is claimed once however many control planes tick, and a tick leaves no due task behind.

  The queue of operations, the events and the alerts.

  \<^item> \<open>Store_Model\<close>: the database as a record of tables with the constraints of \<open>schema.sql\<close>.
  \<^item> \<open>Operation_Queue\<close>, \<open>Operation_Metrics\<close>: \<open>internal/store/store.go\<close>, \<open>operation_interrupt.go\<close>,
    \<open>workspace_file_scans.go\<close>. A settled operation is final, a key queues one operation, at most one
    interruption is on its way, and the percentiles are those of the sorted latencies.
  \<^item> \<open>Gateway_Delivery\<close>: \<open>flush\<close> of \<open>gateway.go\<close>. A turn is handed to the stream at most once.
  \<^item> \<open>Agent_Operations\<close>: \<open>internal/agent/client.go\<close> and its cache and interruption files. An operation with a
    receipt never starts again, and an update of the agent excludes the tasks that it would cut off.
  \<^item> \<open>Event_Log\<close>: the numbered streams of events with the windows that the browser loads.
  \<^item> \<open>Realtime_Hub\<close>: \<open>internal/realtime/hub.go\<close>. A connected client misses nothing and is never sent to
    after it was closed.
  \<^item> \<open>Gateway_Alerts\<close>: both evaluations of alerts equal a reference on the history of values.
\<close>

text \<open>
  The sessions of the assistants.

  \<^item> \<open>Codex_Threads\<close>, \<open>Gateway_Codex\<close>, \<open>Codex_Runs\<close>, \<open>Approvals\<close>: \<open>internal/store/resources.go\<close>, the handlers
    of \<open>gateway.go\<close>, \<open>internal/httpapi/resources.go\<close> and \<open>internal/protocol/user_input.go\<close>. A claim of a
    session is exclusive, the end of a turn frees it, an event changes only its session, and a decision
    of a request is final.
  \<^item> \<open>Turn_Sessions\<close>, \<open>Turn_Store\<close>, \<open>Turn_Gateway\<close>, \<open>Turn_Ownership\<close>, \<open>Gateway_Runs\<close>: the sessions of Gemini
    and Claude, \<open>internal/store/gemini*.go\<close>, \<open>claude*.go\<close>, and their handlers in
    \<open>internal/agentgateway/gemini.go\<close>, \<open>claude.go\<close>. A transition system allows one turn per
    session; every handler is shown to be a sequence of its transitions, with rules for triples
    collected in \<open>triples\<close>.

  Files and git on a server.

  \<^item> \<open>File_Tree\<close>: a Unix tree with symbolic links, and the calls of package \<open>os\<close> on it.
  \<^item> \<open>Workspace_Files\<close>: \<open>internal/scanner\<close>. A preview shows and a write changes only what lies inside an
    allowed workspace, whatever links there are; a write is read back exactly.
  \<^item> \<open>Git_Command\<close>, \<open>Git_Reading\<close>, \<open>Git_Changes\<close>, \<open>Git_Actions\<close>, \<open>Git_Safety\<close>: \<open>internal/gitrepository\<close>, with
    git as a function of its directory, arguments and tree. Every command of a workspace write works
    inside a managed root (rules collected in \<open>confined_rules\<close>).
  \<^item> \<open>Git_Lifecycle\<close>, \<open>Git_Copy\<close>, \<open>Agent_Projects\<close>: \<open>lifecycle.go\<close>, \<open>internal/agent/client.go\<close> and
    \<open>internal/gitworktree\<close>. Deletion, move, copy and clone of a workspace, the place of a new project, and
    linked work trees.

  Projects and workspaces in the database.

  \<^item> \<open>Project_Store\<close>, \<open>Project_Deletion\<close>, \<open>Workspace_Lifecycle\<close>, \<open>Blank_Projects\<close>, \<open>Worktrees\<close>: the rows and
    the operations of \<open>project_deletion.go\<close>, \<open>workspace_lifecycle.go\<close>, \<open>blank_projects.go\<close> and
    \<open>project_remotes.go\<close> of \<open>internal/store\<close>, with the handling of their results by the gateway.
  \<^item> \<open>Project_Life\<close>, \<open>Project_Invariants\<close>, \<open>Project_Safety\<close>, \<open>Project_Example\<close>, \<open>Project_Claims\<close>: all of
    them as one transition system. A busy workspace has exactly the operation that works on it, a
    deletion removes linked work trees before their repositories and never stalls, and two runs show
    where the code does not keep that promise.
\<close>

text \<open>
  \<^bold>\<open>Bounds and fuel.\<close> A path lookup follows at most 40 symbolic links and \<open>EvalSymlinks\<close> at most 255, the
  limits of the kernel and of the Go library; beyond them the code gets an error and so does the model.
  The walk of a copy goes down a given number of levels: more than the depth of the workspace is enough
  when the target lies outside it, and no number is when it lies inside. The step of a cron field may be
  so large that its loop wraps around, so it is a \<open>partial_function\<close> into an option; the search for the
  next minute ends by a measure, after five years as in the code. Page sizes, the cache of the agent,
  the buffer of the stream and the limits of files and differences are those of the code.

  \<^bold>\<open>What is not modelled.\<close> Cryptography (the vault, passwords, one-time codes); the clients of other
  programs and services, whose behaviour is not in the repository: \<open>codexadapter\<close>, \<open>geminiadapter\<close>,
  \<open>claudeadapter\<close>, \<open>deployer\<close>, \<open>gitprovider\<close>, \<open>sshbootstrap\<close>, \<open>prerequisite\<close>; the routes and sessions of
  \<open>httpapi\<close>; settings, usage counters and snapshots, which are single statements; the discovery of
  repositories and of workspaces; the tables of servers and deployments, except where the deletion of a
  project reads them; and, on files, permissions and the length of paths. The web client is not Go.
\<close>

end
